(* ===== verification/Relay_Prelude.thy ===== *)
theory Relay_Prelude
  imports Main "HOL-Library.Char_ord" "HOL-Library.List_Lexorder"
begin

text \<open>
  Shared vocabulary of the development: what a reject handler answers, how a chain of
  handlers is run, Go's byte strings, decimal formatting and parsing of 64-bit integers,
  and small facts on lists and maps used by several components.

  Strings are Go's byte strings: a \<^typ>\<open>char\<close> is one byte, and the order on
  \<^typ>\<open>string\<close> given by \<open>List_Lexorder\<close> and \<open>Char_ord\<close> is Go's
  bytewise lexicographic order.
\<close>

named_theorems gate_defs \<open>the reject handlers of the relay, to be unfolded\<close>
named_theorems gate_splits \<open>case splits for the answers of reject handlers\<close>

section \<open>Answers of reject handlers\<close>

text \<open>
  Every \<open>RejectEvent\<close> and \<open>RejectFilter\<close> handler of the relay returns
  \<open>(reject bool, msg string)\<close>, with \<open>(false, "")\<close> as the only accepting
  answer.
\<close>

datatype verdict = Accept | Reject string

abbreviation accepted :: "verdict \<Rightarrow> bool" where
  "accepted v \<equiv> v = Accept"

primrec rejected :: "verdict \<Rightarrow> bool" where
  "rejected Accept \<longleftrightarrow> False"
| "rejected (Reject m) \<longleftrightarrow> True"

lemma rejected_iff: "rejected v \<longleftrightarrow> v \<noteq> Accept"
  by (cases v) simp_all

lemmas [gate_splits] = verdict.splits if_splits option.splits

text \<open>A handler with state, and a chain of handlers.\<close>

type_synonym 's gate = "'s \<Rightarrow> verdict \<times> 's"

text \<open>A handler that reads nothing but its event: it leaves the state alone.\<close>

definition pure_gate :: "('s \<Rightarrow> verdict) \<Rightarrow> 's gate" where
  "pure_gate f = (\<lambda>s. (f s, s))"

lemma pure_gate_apply [simp]: "pure_gate f s = (f s, s)"
  by (simp add: pure_gate_def)

subsection \<open>The chain runner of the relay framework\<close>

text \<open>
  The framework (khatru, not part of this repository) runs the registered handlers "in
  REGISTRATION ORDER and stops at the first rejection" (comment of
  \<open>registerWriteGates\<close> in cmd/relay/gates.go). The relay runs the same loop itself: internal/metrics
  and internal/middleware replace the chain by one handler that walks the handlers registered so far.
  The locale states what such a runner does; \<open>first_rejection\<close> is the loop of the two packages.
\<close>

locale reject_chain =
  fixes run :: "'s gate list \<Rightarrow> 's \<Rightarrow> verdict \<times> 's"
  assumes run_Nil: "run [] s = (Accept, s)"
    and run_Cons: "run (g # gs) s =
      (case g s of (Accept, s') \<Rightarrow> run gs s' | (Reject m, s') \<Rightarrow> (Reject m, s'))"
begin

lemmas run_simps = run_Nil run_Cons

lemma run_append:
  "run (gs @ hs) s = (case run gs s of (Accept, s') \<Rightarrow> run hs s' | (Reject m, s') \<Rightarrow> (Reject m, s'))"
  by (induction gs arbitrary: s) (simp_all add: run_simps split: prod.split verdict.split)

lemma run_accept_append:
  "run (gs @ hs) s = (Accept, t) \<longleftrightarrow> (\<exists>u. run gs s = (Accept, u) \<and> run hs u = (Accept, t))"
  by (auto simp: run_append split: prod.split verdict.split)

lemma run_reject_prefix: "run gs s = (Reject m, t) \<Longrightarrow> run (gs @ hs) s = (Reject m, t)"
  by (simp add: run_append)

lemma run_pure_gates:
  assumes "\<And>g. g \<in> set gs \<Longrightarrow> snd (g s) = s"
  shows "snd (run gs s) = s"
  using assms
proof (induction gs)
  case Nil
  then show ?case by (simp add: run_simps)
next
  case (Cons g gs)
  obtain v where "g s = (v, s)"
    using Cons.prems [of g] by (metis list.set_intros(1) prod.collapse)
  with Cons show ?case by (simp add: run_simps split: verdict.split)
qed

lemma run_accept_all:
  assumes "run gs s = (Accept, t)" and "\<And>g. g \<in> set gs \<Longrightarrow> snd (g s) = s"
  shows "t = s \<and> (\<forall>g \<in> set gs. fst (g s) = Accept)"
  using assms
proof (induction gs)
  case Nil
  then show ?case by (simp add: run_simps)
next
  case (Cons g gs)
  obtain v where v: "g s = (v, s)"
    using Cons.prems(2) [of g] by (metis list.set_intros(1) prod.collapse)
  with Cons.prems(1) have acc: "v = Accept" "run gs s = (Accept, t)"
    by (auto simp: run_simps split: verdict.splits)
  from Cons.IH [OF acc(2)] Cons.prems(2) v acc(1) show ?case by auto
qed

end

text \<open>The loop of \<open>RegisterObservability\<close> and \<open>RegisterRelayMetrics\<close>.\<close>

fun first_rejection :: "'s gate list \<Rightarrow> 's \<Rightarrow> verdict \<times> 's" where
  "first_rejection [] s = (Accept, s)"
| "first_rejection (g # gs) s =
     (case g s of (Accept, s') \<Rightarrow> first_rejection gs s' | (Reject m, s') \<Rightarrow> (Reject m, s'))"

interpretation chain: reject_chain first_rejection
  by unfold_locales simp_all

lemma reject_chain_unique:
  assumes "reject_chain run"
  shows "run gs s = first_rejection gs s"
proof -
  note rs = reject_chain.run_Nil [OF assms] reject_chain.run_Cons [OF assms]
  show ?thesis
    by (induction gs arbitrary: s) (simp_all add: rs split: prod.split verdict.split)
qed

section \<open>Go strings\<close>

text \<open>\<open>strings.HasPrefix\<close> and \<open>strings.TrimPrefix\<close>.\<close>

fun HasPrefix :: "string \<Rightarrow> string \<Rightarrow> bool" where
  "HasPrefix s [] = True"
| "HasPrefix [] (c # p) = False"
| "HasPrefix (a # s) (c # p) = (a = c \<and> HasPrefix s p)"

definition TrimPrefix :: "string \<Rightarrow> string \<Rightarrow> string" where
  "TrimPrefix s p = (if HasPrefix s p then drop (length p) s else s)"

lemma HasPrefix_iff: "HasPrefix s p \<longleftrightarrow> (\<exists>t. s = p @ t)"
  by (induction s p rule: HasPrefix.induct) auto

lemma HasPrefix_append [simp]: "HasPrefix (p @ t) p"
  by (auto simp: HasPrefix_iff)

lemma TrimPrefix_append [simp]: "TrimPrefix (p @ t) p = t"
  by (simp add: TrimPrefix_def)

lemma TrimPrefix_restore: "HasPrefix s p \<Longrightarrow> p @ TrimPrefix s p = s"
  by (auto simp: HasPrefix_iff)

text \<open>
  \<open>strings.TrimSpace\<close> on byte strings: the ASCII white space of Go's
  \<open>unicode.IsSpace\<close> (tab, newline, vertical tab, form feed, carriage return, space).
  The two white-space characters of Latin-1 and the multi-byte ones take part in UTF-8
  sequences and are not modelled.
\<close>

definition is_space :: "char \<Rightarrow> bool" where
  "is_space c \<longleftrightarrow> c \<in> {CHR 0x09, CHR 0x0A, CHR 0x0B, CHR 0x0C, CHR 0x0D, CHR '' ''}"

definition TrimSpace :: "string \<Rightarrow> string" where
  "TrimSpace s = rev (dropWhile is_space (rev (dropWhile is_space s)))"

lemma TrimSpace_id:
  assumes "s = [] \<or> (\<not> is_space (hd s) \<and> \<not> is_space (last s))"
  shows "TrimSpace s = s"
proof (cases "s = []")
  case True
  then show ?thesis by (simp add: TrimSpace_def)
next
  case False
  with assms have a: "\<not> is_space (hd s)" "\<not> is_space (hd (rev s))"
    by (auto simp: hd_rev)
  have "dropWhile is_space s = s"
    using a(1) False by (cases s) auto
  moreover have "dropWhile is_space (rev s) = rev s"
    using a(2) False by (cases "rev s") auto
  ultimately show ?thesis by (simp add: TrimSpace_def)
qed

section \<open>64-bit signed integers\<close>

text \<open>Go's \<open>int64\<close> (and \<open>int\<close> on the relay's platforms) wraps around.\<close>

definition i64 :: "int \<Rightarrow> int" where
  "i64 x = (x + 2 ^ 63) mod 2 ^ 64 - 2 ^ 63"

definition in_i64 :: "int \<Rightarrow> bool" where
  "in_i64 x \<longleftrightarrow> - (2 ^ 63) \<le> x \<and> x < 2 ^ 63"

lemma i64_id [simp]: "in_i64 x \<Longrightarrow> i64 x = x"
  by (simp add: i64_def in_i64_def)

lemma in_i64_i64: "in_i64 (i64 x)"
proof -
  have "0 \<le> (x + 2 ^ 63) mod 2 ^ 64" "(x + 2 ^ 63) mod 2 ^ 64 < (2 ^ 64 :: int)" by simp_all
  then show ?thesis by (auto simp: i64_def in_i64_def)
qed

subsection \<open>Decimal text\<close>

text \<open>
  \<open>strconv.ParseInt(s, 10, 64)\<close>: an optional sign, then one or more ASCII digits and
  nothing else; a value outside 64 bits is an error. \<open>None\<close> is a non-nil error.
\<close>

definition digit_of :: "char \<Rightarrow> nat option" where
  "digit_of c = (let n = of_char c in if 48 \<le> n \<and> n \<le> (57 :: nat) then Some (n - 48) else None)"

fun digits_value :: "nat \<Rightarrow> string \<Rightarrow> nat option" where
  "digits_value acc [] = Some acc"
| "digits_value acc (c # cs) =
     (case digit_of c of None \<Rightarrow> None | Some d \<Rightarrow> digits_value (10 * acc + d) cs)"

definition parse_unsigned :: "string \<Rightarrow> nat option" where
  "parse_unsigned s = (if s = [] then None else digits_value 0 s)"

definition ParseInt64 :: "string \<Rightarrow> int option" where
  "ParseInt64 s =
     (let (neg, ds) = (case s of
              [] \<Rightarrow> (False, [])
            | c # cs \<Rightarrow> if c = CHR ''-'' then (True, cs)
                       else if c = CHR ''+'' then (False, cs) else (False, s))
      in case parse_unsigned ds of
           None \<Rightarrow> None
         | Some n \<Rightarrow> let v = (if neg then - int n else int n)
                     in if in_i64 v then Some v else None)"

text \<open>\<open>fmt.Sprintf("%d", n)\<close>.\<close>

fun nat_digits :: "nat \<Rightarrow> string" where
  "nat_digits n = (if n < 10 then [char_of (48 + n)] else nat_digits (n div 10) @ [char_of (48 + n mod 10)])"

declare nat_digits.simps [simp del]

definition fmt_d :: "int \<Rightarrow> string" where
  "fmt_d i = (if i < 0 then CHR ''-'' # nat_digits (nat (- i)) else nat_digits (nat i))"

lemma digit_of_char_of [simp]: "d < 10 \<Longrightarrow> digit_of (char_of (48 + d)) = Some d"
  by (simp add: digit_of_def)

lemma digits_value_append:
  "digits_value acc (xs @ ys) = (case digits_value acc xs of None \<Rightarrow> None | Some a \<Rightarrow> digits_value a ys)"
  by (induction acc xs rule: digits_value.induct) (auto split: option.splits)

lemma nat_digits_value: "digits_value 0 (nat_digits n) = Some n"
proof (induction n rule: nat_digits.induct)
  case (1 n)
  show ?case
  proof (cases "n < 10")
    case True
    then show ?thesis by (simp add: nat_digits.simps [of n])
  next
    case False
    with "1.IH" show ?thesis
      by (simp add: nat_digits.simps [of n] digits_value_append)
  qed
qed

lemma nat_digits_nonempty [simp]: "nat_digits n \<noteq> []"
  by (subst nat_digits.simps) simp

lemma hd_nat_digits: "digit_of (hd (nat_digits n)) \<noteq> None"
proof (induction n rule: nat_digits.induct)
  case (1 n)
  then show ?case
    by (cases "n < 10") (simp_all add: nat_digits.simps [of n])
qed

lemma nat_digits_no_sign:
  "nat_digits n = c # cs \<Longrightarrow> c \<noteq> CHR ''-'' \<and> c \<noteq> CHR ''+''"
  using hd_nat_digits [of n] by (auto simp: digit_of_def)

lemma ParseInt64_fmt_d: "in_i64 i \<Longrightarrow> ParseInt64 (fmt_d i) = Some i"
proof (cases "i < 0")
  case True
  assume "in_i64 i"
  with True show ?thesis
    by (simp add: fmt_d_def ParseInt64_def parse_unsigned_def nat_digits_value)
next
  case False
  assume in_range: "in_i64 i"
  obtain c cs where cs: "nat_digits (nat i) = c # cs"
    using nat_digits_nonempty [of "nat i"] by (meson neq_Nil_conv)
  from nat_digits_no_sign [OF cs] nat_digits_value [of "nat i"] cs False in_range
  show ?thesis
    by (simp add: fmt_d_def ParseInt64_def parse_unsigned_def)
qed

lemma ParseInt64_range: "ParseInt64 s = Some v \<Longrightarrow> in_i64 v"
  by (auto simp: ParseInt64_def Let_def split: prod.splits option.splits if_splits)

section \<open>Lists and maps\<close>

text \<open>The first element of a list with a property, as a Go \<open>for range\<close> with an early return.\<close>

lemma find_SomeD: "find P xs = Some x \<Longrightarrow> x \<in> set xs \<and> P x"
  by (induction xs) (auto split: if_splits)

lemma find_None_all: "find P xs = None \<longleftrightarrow> (\<forall>x \<in> set xs. \<not> P x)"
  by (auto simp: find_None_iff)

end
