(* ===== verification/Nostr_Data.thy ===== *)
theory Nostr_Data
  imports Relay_Prelude
begin

text \<open>
  The data every handler of the relay looks at: events, filters and the connection a
  message arrived on. The event and filter structs belong to the go-nostr library; the
  records below hold the fields this repository reads. What the relay calls in its
  libraries (signature check, id hash, kind classes, the framework's own policies) is a
  record of functions, a parameter of every definition that uses it.
\<close>

section \<open>Events, filters, connections\<close>

type_synonym tag = "string list"

record event =
  ev_id :: string
  ev_pubkey :: string
  ev_created_at :: int
  ev_kind :: int
  ev_tags :: "tag list"
  ev_content :: string

text \<open>A filter's tag map; a missing key reads as the nil slice.\<close>

record nfilter =
  f_ids :: "string list"
  f_authors :: "string list"
  f_kinds :: "int list"
  f_tags :: "string \<Rightarrow> string list option"
  f_search :: string

definition tag_values :: "nfilter \<Rightarrow> string \<Rightarrow> string list" where
  "tag_values f k = (case f_tags f k of None \<Rightarrow> [] | Some vs \<Rightarrow> vs)"

text \<open>
  The request context: the key the connection has authenticated as (NIP-42, empty when it
  has not), the client address the limiters key on, and the clock, read once per message,
  in nanoseconds.
\<close>

record reqctx =
  ctx_authed :: string
  ctx_ip :: string
  ctx_now :: int

abbreviation ns_per_sec :: int where
  "ns_per_sec \<equiv> 1000000000"

definition now_unix :: "reqctx \<Rightarrow> int" where
  "now_unix ctx = ctx_now ctx div ns_per_sec"

section \<open>Library functions the relay calls\<close>

text \<open>
  \<open>CheckSignature\<close> returns a boolean and an error (\<open>None\<close>); \<open>GetID\<close> hashes the
  serialized event; \<open>IsEphemeralKind\<close> classifies a kind;
  \<open>RejectEventsWithBase64Media\<close> and \<open>NoComplexFilters\<close> are policies of the
  framework.
\<close>

record nostr_lib =
  CheckSignature :: "event \<Rightarrow> bool option"
  GetID :: "event \<Rightarrow> string"
  IsEphemeralKind :: "int \<Rightarrow> bool"
  RejectEventsWithBase64Media :: "event \<Rightarrow> verdict"
  NoComplexFilters :: "nfilter \<Rightarrow> verdict"

section \<open>Scanning tags\<close>

text \<open>
  The loop \<open>for _, tag := range tags { if len(tag) >= 2 && tag[0] == name { return tag[1] } }\<close>
  that many packages repeat, with the empty string when nothing matches.
\<close>

fun tag_scan :: "tag list \<Rightarrow> string \<Rightarrow> string option" where
  "tag_scan [] name = None"
| "tag_scan ((n # v # rest) # ts) name = (if n = name then Some v else tag_scan ts name)"
| "tag_scan (_ # ts) name = tag_scan ts name"

definition first_tag :: "tag list \<Rightarrow> string \<Rightarrow> string" where
  "first_tag ts name = (case tag_scan ts name of None \<Rightarrow> '''' | Some v \<Rightarrow> v)"

text \<open>All the values of the tags with a name, in order.\<close>

fun all_tags :: "tag list \<Rightarrow> string \<Rightarrow> string list" where
  "all_tags [] name = []"
| "all_tags ((n # v # rest) # ts) name = (if n = name then v # all_tags ts name else all_tags ts name)"
| "all_tags (_ # ts) name = all_tags ts name"

text \<open>The value of the last of them, for loops that go on assigning.\<close>

definition last_tag :: "tag list \<Rightarrow> string \<Rightarrow> string" where
  "last_tag ts name = (case rev (all_tags ts name) of [] \<Rightarrow> '''' | v # _ \<Rightarrow> v)"

definition has_tag :: "tag list \<Rightarrow> string \<Rightarrow> string \<Rightarrow> bool" where
  "has_tag ts name v \<longleftrightarrow> v \<in> set (all_tags ts name)"

lemma tag_scan_eq_hd: "tag_scan ts name = (case all_tags ts name of [] \<Rightarrow> None | v # vs \<Rightarrow> Some v)"
  by (induction ts name rule: tag_scan.induct) simp_all

lemma all_tags_iff: "v \<in> set (all_tags ts name) \<longleftrightarrow> (\<exists>rest. (name # v # rest) \<in> set ts)"
  by (induction ts name rule: all_tags.induct) auto

lemma all_tags_append [simp]: "all_tags (ts @ us) name = all_tags ts name @ all_tags us name"
  by (induction ts name rule: all_tags.induct) simp_all

lemma has_tag_iff: "has_tag ts name v \<longleftrightarrow> (\<exists>rest. (name # v # rest) \<in> set ts)"
  by (simp add: has_tag_def all_tags_iff)

text \<open>The NIP-70 marker: a tag of length at least one whose name is \<open>-\<close>.\<close>

fun has_marker :: "tag list \<Rightarrow> string \<Rightarrow> bool" where
  "has_marker [] name = False"
| "has_marker ((n # rest) # ts) name = (n = name \<or> has_marker ts name)"
| "has_marker ([] # ts) name = has_marker ts name"

lemma has_marker_iff: "has_marker ts name \<longleftrightarrow> (\<exists>rest. (name # rest) \<in> set ts)"
  by (induction ts name rule: has_marker.induct) auto

end
