(* ===== verification/Rate_Limit.thy ===== *)
theory Rate_Limit
  imports Nostr_Data
begin

text \<open>
  internal/ratelimit: the in-memory per-IP token buckets (memory.go) and the distributed
  sliding-window limiter over Redis sorted sets (ratelimit.go).
\<close>

section \<open>32-bit counters\<close>

text \<open>The in-memory buckets count spent tokens in an \<open>atomic.Int32\<close>.\<close>

definition i32 :: "int \<Rightarrow> int" where
  "i32 x = (x + 2 ^ 31) mod 2 ^ 32 - 2 ^ 31"

definition in_i32 :: "int \<Rightarrow> bool" where
  "in_i32 x \<longleftrightarrow> - (2 ^ 31) \<le> x \<and> x < 2 ^ 31"

lemma i32_id [simp]: "in_i32 x \<Longrightarrow> i32 x = x"
  by (simp add: i32_def in_i32_def)

section \<open>In-memory buckets\<close>

text \<open>The \<open>sync.Map\<close> of \<open>newMemoryBuckets\<close>: key to tokens spent.\<close>

type_synonym mem_buckets = "string \<Rightarrow> int option"

record mem_params =
  mp_tokens :: int
  mp_max :: int

text \<open>One pass of the refill goroutine: every bucket gets its tokens back, empty ones go.\<close>

definition mem_refill :: "mem_params \<Rightarrow> mem_buckets \<Rightarrow> mem_buckets" where
  "mem_refill p b = (\<lambda>k. case b k of
      None \<Rightarrow> None
    | Some v \<Rightarrow> (let v' = i32 (v + i32 (- mp_tokens p)) in if v' \<le> 0 then None else Some v'))"

text \<open>The returned function: \<open>True\<close> is "limited".\<close>

definition mem_limited :: "mem_params \<Rightarrow> string \<Rightarrow> mem_buckets \<Rightarrow> bool \<times> mem_buckets" where
  "mem_limited p key b =
     (let b' = (case b key of None \<Rightarrow> b(key \<mapsto> 0) | Some v \<Rightarrow> b);
          spent = (case b' key of None \<Rightarrow> 0 | Some v \<Rightarrow> v)
      in if spent < i32 (mp_max p) then (False, b'(key \<mapsto> i32 (spent + 1))) else (True, b'))"

text \<open>The three limiters built on it.\<close>

definition EventIPRateLimiter :: "mem_params \<Rightarrow> reqctx \<Rightarrow> mem_buckets gate" where
  "EventIPRateLimiter p ctx b =
     (if ctx_ip ctx = '''' then (Accept, b)
      else case mem_limited p (ctx_ip ctx) b of
        (False, b') \<Rightarrow> (Accept, b')
      | (True, b') \<Rightarrow> (Reject ''rate-limited: slow down, please'', b'))"

definition FilterIPRateLimiter :: "mem_params \<Rightarrow> reqctx \<Rightarrow> mem_buckets gate" where
  "FilterIPRateLimiter p ctx b =
     (if ctx_ip ctx = '''' then (Accept, b)
      else case mem_limited p (ctx_ip ctx) b of
        (False, b') \<Rightarrow> (Accept, b')
      | (True, b') \<Rightarrow> (Reject ''rate-limited: there is a bug in the client, no one should be making so many requests'', b'))"

definition ConnectionRateLimiter :: "mem_params \<Rightarrow> string \<Rightarrow> mem_buckets \<Rightarrow> bool \<times> mem_buckets" where
  "ConnectionRateLimiter p ip b = (if ip = '''' then (False, b) else mem_limited p ip b)"

subsection \<open>Invariant and isolation\<close>

definition mem_params_ok :: "mem_params \<Rightarrow> bool" where
  "mem_params_ok p \<longleftrightarrow> 0 < mp_tokens p \<and> mp_tokens p < 2 ^ 31 \<and> 0 < mp_max p \<and> mp_max p < 2 ^ 31"

definition mem_inv :: "mem_params \<Rightarrow> mem_buckets \<Rightarrow> bool" where
  "mem_inv p b \<longleftrightarrow> (\<forall>k v. b k = Some v \<longrightarrow> 0 \<le> v \<and> v \<le> mp_max p)"

definition spent_of :: "mem_buckets \<Rightarrow> string \<Rightarrow> int" where
  "spent_of b k = (case b k of None \<Rightarrow> 0 | Some v \<Rightarrow> v)"

lemma spent_of_bounds: "mem_inv p b \<Longrightarrow> 0 < mp_max p \<Longrightarrow> 0 \<le> spent_of b k \<and> spent_of b k \<le> mp_max p"
  by (auto simp: mem_inv_def spent_of_def split: option.split)

lemma i32_param: "mem_params_ok p \<Longrightarrow> i32 (mp_max p) = mp_max p \<and> i32 (- mp_tokens p) = - mp_tokens p"
  by (simp add: mem_params_ok_def i32_id in_i32_def)

lemma mem_limited_eq:
  assumes ok: "mem_params_ok p" and inv: "mem_inv p b"
  shows "mem_limited p k b =
    (if spent_of b k < mp_max p then (False, b(k \<mapsto> spent_of b k + 1)) else (True, b(k \<mapsto> spent_of b k)))"
proof -
  have "i32 (spent_of b k + 1) = spent_of b k + 1" if "spent_of b k < mp_max p"
    using that ok spent_of_bounds [OF inv, of k] by (simp add: mem_params_ok_def in_i32_def)
  then show ?thesis
    using i32_param [OF ok]
    by (auto simp: mem_limited_def Let_def spent_of_def fun_upd_idem split: option.splits)
qed

lemma mem_limited_inv:
  assumes "mem_params_ok p" "mem_inv p b"
  shows "mem_inv p (snd (mem_limited p k b))"
  using assms spent_of_bounds [OF assms(2), of k]
  by (auto simp: mem_limited_eq mem_inv_def mem_params_ok_def)

lemma mem_refill_eq:
  assumes ok: "mem_params_ok p" and inv: "mem_inv p b"
  shows "spent_of (mem_refill p b) k = max 0 (spent_of b k - mp_tokens p)"
proof (cases "b k")
  case None
  with ok show ?thesis by (simp add: mem_refill_def spent_of_def mem_params_ok_def)
next
  case (Some v)
  with spent_of_bounds [OF inv, of k] ok have "0 \<le> v" "v < 2 ^ 31"
    by (auto simp: spent_of_def mem_params_ok_def)
  with ok have "i32 (v - mp_tokens p) = v - mp_tokens p"
    by (simp add: mem_params_ok_def in_i32_def)
  with Some i32_param [OF ok] show ?thesis
    by (simp add: mem_refill_def spent_of_def)
qed

lemma mem_refill_inv:
  assumes ok: "mem_params_ok p" and inv: "mem_inv p b"
  shows "mem_inv p (mem_refill p b)"
proof -
  have "0 \<le> v \<and> v \<le> mp_max p" if "mem_refill p b k = Some v" for k v
  proof -
    from that mem_refill_eq [OF ok inv, of k] have "v = max 0 (spent_of b k - mp_tokens p)"
      by (simp add: spent_of_def)
    with spent_of_bounds [OF inv, of k] ok show ?thesis by (simp add: mem_params_ok_def)
  qed
  then show ?thesis by (simp add: mem_inv_def)
qed

lemma mem_limited_other: "k' \<noteq> k \<Longrightarrow> snd (mem_limited p k b) k' = b k'"
  by (simp add: mem_limited_def Let_def split: option.split)

subsection \<open>Traces of hits and refills\<close>

datatype mem_op = Hit string | Refill

fun mem_step :: "mem_params \<Rightarrow> mem_op \<Rightarrow> mem_buckets \<Rightarrow> mem_buckets" where
  "mem_step p (Hit k) b = snd (mem_limited p k b)"
| "mem_step p Refill b = mem_refill p b"

text \<open>How many hits of one key a trace lets through.\<close>

fun mem_admitted :: "mem_params \<Rightarrow> string \<Rightarrow> mem_op list \<Rightarrow> mem_buckets \<Rightarrow> int" where
  "mem_admitted p k [] b = 0"
| "mem_admitted p k (x # xs) b =
     (if x = Hit k \<and> \<not> fst (mem_limited p k b) then 1 else 0) + mem_admitted p k xs (mem_step p x b)"

lemma mem_step_inv: "mem_params_ok p \<Longrightarrow> mem_inv p b \<Longrightarrow> mem_inv p (mem_step p x b)"
  by (cases x) (simp_all add: mem_limited_inv mem_refill_inv)

lemma mem_step_spent:
  assumes "mem_params_ok p" "mem_inv p b"
  shows "(if x = Hit k \<and> \<not> fst (mem_limited p k b) then 1 else 0) + spent_of b k
         \<le> spent_of (mem_step p x b) k + (if x = Refill then mp_tokens p else 0)"
proof (cases x)
  case (Hit j)
  show ?thesis
  proof (cases "j = k")
    case True
    with Hit assms show ?thesis by (auto simp: mem_limited_eq spent_of_def)
  next
    case False
    with Hit have "spent_of (mem_step p x b) k = spent_of b k"
      by (simp add: spent_of_def mem_limited_other)
    with Hit False show ?thesis by simp
  qed
next
  case Refill
  with assms show ?thesis by (simp add: mem_refill_eq)
qed

lemma mem_admitted_bound_aux:
  assumes "mem_params_ok p" "mem_inv p b"
  shows "mem_admitted p k xs b + spent_of b k \<le> mp_max p + mp_tokens p * int (count_list xs Refill)"
  using assms(2)
proof (induction xs arbitrary: b)
  case Nil
  with assms(1) spent_of_bounds [OF Nil] show ?case by (simp add: mem_params_ok_def)
next
  case (Cons x xs)
  have "mem_inv p (mem_step p x b)" using assms(1) Cons.prems by (rule mem_step_inv)
  from Cons.IH [OF this] mem_step_spent [OF assms(1) Cons.prems, of x k]
  show ?case by (auto simp: algebra_simps split: if_splits)
qed

lemma mem_inv_empty [simp]: "mem_inv p Map.empty"
  by (simp add: mem_inv_def)

section \<open>Distributed sliding window\<close>

record rl_config =
  rl_enabled :: bool
  rl_events :: int
  rl_filters :: int
  rl_connections :: int
  rl_burst :: int
  rl_window :: int

definition rl_DefaultConfig :: rl_config where
  "rl_DefaultConfig = \<lparr>rl_enabled = True, rl_events = 10, rl_filters = 20, rl_connections = 5,
     rl_burst = 5, rl_window = ns_per_sec\<rparr>"

text \<open>
  A Redis sorted set: members (the decimal nanosecond text, here the number) with scores.
  The server's keys map to their sets; \<open>score\<close> is the conversion of a nanosecond
  timestamp to the float64 score Redis stores.
\<close>

type_synonym zset = "(int \<times> int) list"
type_synonym redis = "string \<Rightarrow> zset"

definition zrem_upto :: "int \<Rightarrow> zset \<Rightarrow> zset" where
  "zrem_upto hi z = filter (\<lambda>(m, s). \<not> (0 \<le> s \<and> s \<le> hi)) z"

definition zadd :: "int \<Rightarrow> int \<Rightarrow> zset \<Rightarrow> zset" where
  "zadd m s z = (m, s) # filter (\<lambda>(m', s'). m' \<noteq> m) z"

definition keyPrefix :: "string \<Rightarrow> string" where
  "keyPrefix limitType = ''ratelimit:'' @ limitType @ '':''"

text \<open>
  \<open>Allow\<close> talks to the server twice: the pipeline that trims the window and counts, and
  the \<open>ZADD\<close> that records the request. Other requests may run in between, so the two are
  separate steps. \<open>exec_ok\<close> and \<open>add_ok\<close> say whether the server answered.
  \<open>Inl ()\<close>: the pipeline failed, the request is let through and not recorded.
  The expiry set on the key (twice the window) only drops sets whose members have all left
  the window, so it is not part of the state.
\<close>

definition allow_count :: "(int \<Rightarrow> int) \<Rightarrow> rl_config \<Rightarrow> bool \<Rightarrow> int \<Rightarrow> string \<Rightarrow> redis \<Rightarrow> (unit + nat) \<times> redis" where
  "allow_count score cfg exec_ok now key r =
     (if exec_ok then
        (let z = zrem_upto (score (now - rl_window cfg)) (r key) in (Inr (length z), r(key := z)))
      else (Inl (), r))"

definition allow_record :: "(int \<Rightarrow> int) \<Rightarrow> bool \<Rightarrow> int \<Rightarrow> string \<Rightarrow> redis \<Rightarrow> redis" where
  "allow_record score add_ok now key r =
     (if add_ok then r(key := zadd now (score now) (r key)) else r)"

definition burst_limit :: "rl_config \<Rightarrow> int \<Rightarrow> int" where
  "burst_limit cfg limit = i64 (limit * rl_burst cfg)"

record rl_faults =
  exec_ok :: bool
  add_ok :: bool

definition Allow :: "(int \<Rightarrow> int) \<Rightarrow> rl_config \<Rightarrow> bool \<Rightarrow> rl_faults \<Rightarrow> int \<Rightarrow> string \<Rightarrow> string \<Rightarrow> int \<Rightarrow> redis \<Rightarrow> bool \<times> redis" where
  "Allow score cfg have_redis flt now limitType identifier limit r =
     (if \<not> have_redis \<or> \<not> rl_enabled cfg then (True, r)
      else let key = keyPrefix limitType @ identifier in
        case allow_count score cfg (exec_ok flt) now key r of
          (Inl _, r') \<Rightarrow> (True, r')
        | (Inr count, r') \<Rightarrow>
            if int count \<ge> burst_limit cfg limit then (False, r')
            else (True, allow_record score (add_ok flt) now key r'))"

definition RejectEventByRateLimit :: "(int \<Rightarrow> int) \<Rightarrow> rl_config \<Rightarrow> bool \<Rightarrow> rl_faults \<Rightarrow> reqctx \<Rightarrow> redis gate" where
  "RejectEventByRateLimit score cfg have_redis flt ctx r =
     (if rl_events cfg \<le> 0 then (Accept, r)
      else if ctx_ip ctx = '''' then (Accept, r)
      else case Allow score cfg have_redis flt (ctx_now ctx) ''events'' (ctx_ip ctx) (rl_events cfg) r of
        (True, r') \<Rightarrow> (Accept, r')
      | (False, r') \<Rightarrow> (Reject ''rate-limited: too many events, slow down'', r'))"

definition RejectFilterByRateLimit :: "(int \<Rightarrow> int) \<Rightarrow> rl_config \<Rightarrow> bool \<Rightarrow> rl_faults \<Rightarrow> reqctx \<Rightarrow> redis gate" where
  "RejectFilterByRateLimit score cfg have_redis flt ctx r =
     (if rl_filters cfg \<le> 0 then (Accept, r)
      else if ctx_ip ctx = '''' then (Accept, r)
      else case Allow score cfg have_redis flt (ctx_now ctx) ''filters'' (ctx_ip ctx) (rl_filters cfg) r of
        (True, r') \<Rightarrow> (Accept, r')
      | (False, r') \<Rightarrow> (Reject ''rate-limited: too many queries, slow down'', r'))"

definition RejectConnectionByRateLimit :: "(int \<Rightarrow> int) \<Rightarrow> rl_config \<Rightarrow> bool \<Rightarrow> rl_faults \<Rightarrow> int \<Rightarrow> string \<Rightarrow> redis \<Rightarrow> bool \<times> redis" where
  "RejectConnectionByRateLimit score cfg have_redis flt now ip r =
     (if rl_connections cfg \<le> 0 then (False, r)
      else if ip = '''' then (False, r)
      else case Allow score cfg have_redis flt now ''connections'' ip (rl_connections cfg) r of
        (allowed, r') \<Rightarrow> (\<not> allowed, r'))"

text \<open>\<open>None\<close> is a non-nil error, \<open>cmd_ok\<close> whether the server answered.\<close>

definition GetStats :: "(int \<Rightarrow> int) \<Rightarrow> rl_config \<Rightarrow> bool \<Rightarrow> bool \<Rightarrow> int \<Rightarrow> string \<Rightarrow> string \<Rightarrow> redis \<Rightarrow> nat option" where
  "GetStats score cfg have_redis cmd_ok now limitType identifier r =
     (if \<not> have_redis then Some 0
      else if \<not> cmd_ok then None
      else Some (length (filter (\<lambda>(m, s). score (now - rl_window cfg) \<le> s) (r (keyPrefix limitType @ identifier)))))"

definition ClearLimit :: "bool \<Rightarrow> bool \<Rightarrow> string \<Rightarrow> string \<Rightarrow> redis \<Rightarrow> redis option" where
  "ClearLimit have_redis cmd_ok limitType identifier r =
     (if \<not> have_redis then Some r
      else if \<not> cmd_ok then None
      else Some (r(keyPrefix limitType @ identifier := [])))"

text \<open>The handlers a configuration adds to the relay's three chains.\<close>

definition rl_event_handlers :: "(int \<Rightarrow> int) \<Rightarrow> rl_config \<Rightarrow> bool \<Rightarrow> rl_faults \<Rightarrow> reqctx \<Rightarrow> redis gate list" where
  "rl_event_handlers score cfg have_redis flt ctx =
     (if rl_events cfg > 0 then [RejectEventByRateLimit score cfg have_redis flt ctx] else [])"

definition rl_filter_handlers :: "(int \<Rightarrow> int) \<Rightarrow> rl_config \<Rightarrow> bool \<Rightarrow> rl_faults \<Rightarrow> reqctx \<Rightarrow> redis gate list" where
  "rl_filter_handlers score cfg have_redis flt ctx =
     (if rl_filters cfg > 0 then [RejectFilterByRateLimit score cfg have_redis flt ctx] else [])"

definition rl_connection_handlers :: "(int \<Rightarrow> int) \<Rightarrow> rl_config \<Rightarrow> bool \<Rightarrow> rl_faults \<Rightarrow> int \<Rightarrow> string \<Rightarrow> (redis \<Rightarrow> bool \<times> redis) list" where
  "rl_connection_handlers score cfg have_redis flt now ip =
     (if rl_connections cfg > 0 then [RejectConnectionByRateLimit score cfg have_redis flt now ip] else [])"

subsection \<open>One client, one request after the other\<close>

abbreviation healthy :: rl_faults where
  "healthy \<equiv> \<lparr>exec_ok = True, add_ok = True\<rparr>"

text \<open>The times of the requests that are let through, oldest first.\<close>

fun window_run :: "(int \<Rightarrow> int) \<Rightarrow> rl_config \<Rightarrow> string \<Rightarrow> string \<Rightarrow> int \<Rightarrow> int list \<Rightarrow> redis \<Rightarrow> int list" where
  "window_run score cfg ty ident limit [] r = []"
| "window_run score cfg ty ident limit (t # ts) r =
     (case Allow score cfg True healthy t ty ident limit r of
        (ok, r') \<Rightarrow> (if ok then [t] else []) @ window_run score cfg ty ident limit ts r')"

lemma window_run_subset: "set (window_run score cfg ty ident limit ts r) \<subseteq> set ts"
  by (induction score cfg ty ident limit ts r rule: window_run.induct) (auto split: prod.splits)

lemma zrem_keeps: "(u, s) \<in> set z \<Longrightarrow> hi < s \<Longrightarrow> (u, s) \<in> set (zrem_upto hi z)"
  by (simp add: zrem_upto_def)

lemma Allow_healthy:
  assumes "rl_enabled cfg"
  shows "Allow score cfg True healthy t ty ident limit r =
    (let key = keyPrefix ty @ ident; z = zrem_upto (score (t - rl_window cfg)) (r key)
     in if burst_limit cfg limit \<le> int (length z) then (False, r(key := z))
        else (True, r(key := zadd t (score t) z)))"
  using assms by (simp add: Allow_def allow_count_def allow_record_def Let_def)

text \<open>
  The admitted requests \<open>A\<close> that a later request can still see in its window are the
  members of the set.
\<close>

definition window_inv :: "(int \<Rightarrow> int) \<Rightarrow> rl_config \<Rightarrow> int set \<Rightarrow> int list \<Rightarrow> zset \<Rightarrow> bool" where
  "window_inv score cfg A ts z \<longleftrightarrow>
     (\<forall>u \<in> A. (u, score u) \<in> set z \<or> (\<forall>t \<in> set ts. score u \<le> score (t - rl_window cfg)))"

lemma window_inv_trim:
  assumes "mono score" "sorted (t # ts)" "window_inv score cfg A (t # ts) z"
  shows "window_inv score cfg A ts (zrem_upto (score (t - rl_window cfg)) z)"
  unfolding window_inv_def
proof
  fix u assume u: "u \<in> A"
  show "(u, score u) \<in> set (zrem_upto (score (t - rl_window cfg)) z) \<or> (\<forall>t \<in> set ts. score u \<le> score (t - rl_window cfg))"
  proof (cases "score u \<le> score (t - rl_window cfg)")
    case True
    have "score (t - rl_window cfg) \<le> score (t' - rl_window cfg)" if "t' \<in> set ts" for t'
      using assms(1,2) that by (intro monoD [OF assms(1)]) auto
    with True show ?thesis by (meson order_trans)
  next
    case False
    with u assms(3) have "(u, score u) \<in> set z" by (auto simp: window_inv_def)
    with False show ?thesis by (simp add: zrem_keeps)
  qed
qed

lemma window_inv_zadd:
  assumes "window_inv score cfg A ts z" "t \<notin> A"
  shows "window_inv score cfg (insert t A) ts (zadd t (score t) z)"
  using assms by (auto simp: window_inv_def zadd_def)

lemma window_inv_count:
  assumes "window_inv score cfg A (t # ts) z" "finite A"
  shows "card {u \<in> A. score (t - rl_window cfg) < score u} \<le> length (zrem_upto (score (t - rl_window cfg)) z)"
proof -
  let ?z = "zrem_upto (score (t - rl_window cfg)) z"
  have "{u \<in> A. score (t - rl_window cfg) < score u} \<subseteq> fst ` set ?z"
  proof
    fix u assume u: "u \<in> {u \<in> A. score (t - rl_window cfg) < score u}"
    with assms(1) have "(u, score u) \<in> set z" by (auto simp: window_inv_def)
    with u have "(u, score u) \<in> set ?z" by (simp add: zrem_keeps)
    then show "u \<in> fst ` set ?z" by force
  qed
  then have "card {u \<in> A. score (t - rl_window cfg) < score u} \<le> card (fst ` set ?z)"
    by (intro card_mono) simp_all
  also have "\<dots> \<le> length ?z"
    by (metis card_length length_map list.set_map)
  finally show ?thesis .
qed

definition in_window :: "(int \<Rightarrow> int) \<Rightarrow> rl_config \<Rightarrow> int set \<Rightarrow> int \<Rightarrow> int set" where
  "in_window score cfg A t = {u \<in> A. u \<le> t \<and> score (t - rl_window cfg) < score u}"

lemma in_window_below: "\<forall>u \<in> B. t < u \<Longrightarrow> in_window score cfg (A \<union> B) t = in_window score cfg A t"
  by (auto simp: in_window_def)

lemma in_window_insert_card:
  assumes "finite A"
  shows "card (in_window score cfg (insert t A) t) \<le> Suc (card {u \<in> A. score (t - rl_window cfg) < score u})"
proof -
  let ?S = "{u \<in> A. score (t - rl_window cfg) < score u}"
  have "in_window score cfg (insert t A) t \<subseteq> insert t ?S"
    by (auto simp: in_window_def)
  then have "card (in_window score cfg (insert t A) t) \<le> card (insert t ?S)"
    using assms by (intro card_mono) simp_all
  then show ?thesis
    using assms by (simp add: card_insert_if split: if_splits)
qed

lemma window_run_bound_aux:
  assumes "rl_enabled cfg" "mono score"
    and "sorted_wrt (<) ts" "\<forall>a \<in> A. \<forall>t \<in> set ts. a < t" "finite A"
    and "window_inv score cfg A ts (r (keyPrefix ty @ ident))"
    and "t \<in> set (window_run score cfg ty ident limit ts r)"
  shows "int (card (in_window score cfg (A \<union> set (window_run score cfg ty ident limit ts r)) t)) \<le> burst_limit cfg limit"
  using assms(3-7)
proof (induction ts arbitrary: A r)
  case Nil
  then show ?case by simp
next
  case (Cons x ts)
  let ?key = "keyPrefix ty @ ident"
  let ?z = "zrem_upto (score (x - rl_window cfg)) (r ?key)"
  let ?full = "burst_limit cfg limit \<le> int (length ?z)"
  have srt: "sorted (x # ts)" using Cons.prems(1) strict_sorted_imp_sorted by blast
  have inv: "window_inv score cfg A ts ?z"
    using window_inv_trim [OF assms(2) srt Cons.prems(4)] .
  show ?case
  proof (cases ?full)
    case True
    then have run: "window_run score cfg ty ident limit (x # ts) r = window_run score cfg ty ident limit ts (r(?key := ?z))"
      by (simp add: Allow_healthy [OF assms(1)] Let_def)
    show ?thesis
      unfolding run
    proof (rule Cons.IH)
      show "window_inv score cfg A ts ((r(?key := ?z)) ?key)" using inv by simp
      show "t \<in> set (window_run score cfg ty ident limit ts (r(?key := ?z)))"
        using Cons.prems(5) unfolding run .
    qed (use Cons.prems(1-3) in auto)
  next
    case False
    let ?r = "r(?key := zadd x (score x) ?z)"
    let ?rest = "window_run score cfg ty ident limit ts ?r"
    from False have run: "window_run score cfg ty ident limit (x # ts) r = x # ?rest"
      by (simp add: Allow_healthy [OF assms(1)] Let_def)
    have later: "\<forall>u \<in> set ?rest. x < u"
      using Cons.prems(1) window_run_subset [of score cfg ty ident limit ts ?r] by auto
    have xA: "x \<notin> A" using Cons.prems(2) by auto
    have union: "A \<union> set (x # ?rest) = insert x A \<union> set ?rest" by auto
    show ?thesis
    proof (cases "t = x")
      case True
      have "card (in_window score cfg (insert x A) x) \<le> Suc (length ?z)"
        using in_window_insert_card [OF Cons.prems(3), of score cfg x]
          window_inv_count [OF Cons.prems(4,3)] by linarith
      moreover have "in_window score cfg (insert x A \<union> set ?rest) x = in_window score cfg (insert x A) x"
        by (rule in_window_below [OF later])
      ultimately show ?thesis
        using False unfolding run union True by simp
    next
      case neq: False
      show ?thesis
        unfolding run union
      proof (rule Cons.IH)
        show "window_inv score cfg (insert x A) ts (?r ?key)"
          using window_inv_zadd [OF inv xA] by simp
        show "t \<in> set ?rest"
          using Cons.prems(5) neq unfolding run by simp
      qed (use Cons.prems(1-3) in auto)
    qed
  qed
qed

section \<open>Properties\<close>

text \<open>Over any trace of hits (of any clients) and refills, one key is let through at most
  the bucket's capacity plus what the refills gave back, starting from an empty map.\<close>

theorem mem_admitted_bound:
  assumes "mem_params_ok p"
  shows "mem_admitted p k xs Map.empty \<le> mp_max p + mp_tokens p * int (count_list xs Refill)"
  using mem_admitted_bound_aux [OF assms mem_inv_empty, of k xs] by (simp add: spent_of_def)

lemma mem_admitted_bound_witness:
  "mem_admitted \<lparr>mp_tokens = 1, mp_max = 5\<rparr> ''a'' [Hit ''a'', Refill, Hit ''a''] Map.empty
     \<le> 5 + 1 * int (count_list [Hit ''a'', Refill, Hit ''a''] Refill)"
  using mem_admitted_bound [of "\<lparr>mp_tokens = 1, mp_max = 5\<rparr>" "''a''" "[Hit ''a'', Refill, Hit ''a'']"]
  by (simp add: mem_params_ok_def)

text \<open>C26: With a healthy server and requests that arrive one after the other, at strictly
  increasing times, no window ending at an admitted request holds more admitted requests
  than the burst limit: the limiter is a true sliding window, not a fixed one.\<close>

theorem sliding_window_bound:
  assumes "rl_enabled cfg" "mono score" "sorted_wrt (<) ts"
    and "t \<in> set (window_run score cfg ty ident limit ts r)"
  shows "int (card (in_window score cfg (set (window_run score cfg ty ident limit ts r)) t)) \<le> burst_limit cfg limit"
  using window_run_bound_aux [OF assms(1-3), of "{}" r ty ident t limit] assms(4)
  by (simp add: window_inv_def)

lemma sliding_window_bound_witness:
  "int (card (in_window id (rl_DefaultConfig\<lparr>rl_burst := 1\<rparr>)
      (set (window_run id (rl_DefaultConfig\<lparr>rl_burst := 1\<rparr>) ''events'' ''ip'' 1 [1, 2, 2000000002] (\<lambda>_. []))) 2000000002))
     \<le> burst_limit (rl_DefaultConfig\<lparr>rl_burst := 1\<rparr>) 1"
proof (rule sliding_window_bound)
  show "mono (id :: int \<Rightarrow> int)" by (simp add: mono_def)
  show "2000000002 \<in> set (window_run id (rl_DefaultConfig\<lparr>rl_burst := 1\<rparr>) ''events'' ''ip'' 1 [1, 2, 2000000002] (\<lambda>_. []))"
    by (simp add: Allow_healthy rl_DefaultConfig_def Let_def zrem_upto_def zadd_def burst_limit_def in_i64_def)
qed (simp_all add: rl_DefaultConfig_def)

text \<open>The count and the record are two round trips: two requests of one client whose
  counts both run before either record are both admitted where the limit is one, so the
  bound of the sequential limiter does not survive interleaving.\<close>

theorem interleaved_requests_exceed_burst:
  "\<exists>cfg r0 r1 r2 n1 n2.
     burst_limit cfg 1 = 1 \<and>
     allow_count id cfg True 1 ''k'' r0 = (Inr n1, r1) \<and> int n1 < burst_limit cfg 1 \<and>
     allow_count id cfg True 2 ''k'' r1 = (Inr n2, r2) \<and> int n2 < burst_limit cfg 1 \<and>
     allow_record id True 2 ''k'' (allow_record id True 1 ''k'' r2) ''k'' = [(2, 2), (1, 1)]"
proof (intro exI conjI)
  let ?cfg = "rl_DefaultConfig\<lparr>rl_burst := 1\<rparr>"
  show "burst_limit ?cfg 1 = 1" by (simp add: burst_limit_def in_i64_def)
  show "allow_count id ?cfg True 1 ''k'' (\<lambda>_. []) = (Inr 0, \<lambda>_. [])"
    "allow_count id ?cfg True 2 ''k'' (\<lambda>_. []) = (Inr 0, \<lambda>_. [])"
    by (auto simp: allow_count_def zrem_upto_def Let_def)
  show "int 0 < burst_limit ?cfg 1" "int 0 < burst_limit ?cfg 1"
    by (simp_all add: burst_limit_def in_i64_def)
  show "allow_record id True 2 ''k'' (allow_record id True 1 ''k'' (\<lambda>_. [])) ''k'' = [(2, 2), (1, 1)]"
    by (simp add: allow_record_def zadd_def)
qed

end
