(* ===== verification/Relay_Config.thy ===== *)
theory Relay_Config
  imports Nostr_Data
begin

text \<open>
  internal/config/config.go: the configuration struct and \<open>Load\<close>, which reads it from the
  environment. The struct has over a hundred fields; the record is split into the groups
  its comments name, and \<open>Load\<close> into the matching stretches of its body. An environment
  maps a variable name to its value, the empty string when it is unset (\<open>os.Getenv\<close>).

  Left out: the database pool's two durations (\<open>time.ParseDuration\<close>) and the float
  weights of the algorithmic feeds.
\<close>

section \<open>Parsing helpers\<close>

fun split_on :: "char \<Rightarrow> string \<Rightarrow> string list" where
  "split_on sep [] = [[]]"
| "split_on sep (c # cs) =
     (if c = sep then [] # split_on sep cs
      else case split_on sep cs of [] \<Rightarrow> [[c]] | w # ws \<Rightarrow> (c # w) # ws)"

definition parseCommaSeparated :: "string \<Rightarrow> string list" where
  "parseCommaSeparated s =
     (if s = '''' then []
      else filter (\<lambda>p. p \<noteq> '''') (map TrimSpace (split_on (CHR '','') s)))"

abbreviation Atoi :: "string \<Rightarrow> int option" where
  "Atoi \<equiv> ParseInt64"

definition parseIntList :: "string \<Rightarrow> int list" where
  "parseIntList s =
     (if s = '''' then []
      else List.map_filter (\<lambda>part. let trimmed = TrimSpace part in if trimmed = '''' then None else Atoi trimmed)
             (split_on (CHR '','') s))"

type_synonym env = "string \<Rightarrow> string"

text \<open>The five idioms of \<open>Load\<close>: a non-empty text, a flag switched on, a flag switched off,
  and an integer kept when it parses and passes a check.\<close>

definition env_text :: "env \<Rightarrow> string \<Rightarrow> string \<Rightarrow> string" where
  "env_text e k d = (if e k \<noteq> '''' then e k else d)"

definition env_on :: "env \<Rightarrow> string \<Rightarrow> bool" where
  "env_on e k \<longleftrightarrow> e k = ''true'' \<or> e k = ''1''"

definition env_off :: "env \<Rightarrow> string \<Rightarrow> bool" where
  "env_off e k \<longleftrightarrow> e k = ''false'' \<or> e k = ''0''"

definition env_int :: "(int \<Rightarrow> bool) \<Rightarrow> env \<Rightarrow> string \<Rightarrow> int \<Rightarrow> int" where
  "env_int ok e k d =
     (if e k \<noteq> '''' then (case Atoi (e k) of Some v \<Rightarrow> if ok v then v else d | None \<Rightarrow> d) else d)"

abbreviation any_int :: "int \<Rightarrow> bool" where "any_int \<equiv> \<lambda>_. True"
abbreviation positive :: "int \<Rightarrow> bool" where "positive \<equiv> \<lambda>v. v > 0"
abbreviation nonneg :: "int \<Rightarrow> bool" where "nonneg \<equiv> \<lambda>v. v \<ge> 0"

definition env_list :: "env \<Rightarrow> string \<Rightarrow> string list" where
  "env_list e k = (if e k \<noteq> '''' then parseCommaSeparated (e k) else [])"

lemma env_int_ok: "ok d \<Longrightarrow> ok (env_int ok e k d)"
  by (auto simp: env_int_def split: option.split)

lemma env_other:
  assumes "k' \<noteq> k"
  shows "env_text (e(k := v)) k' d = env_text e k' d" "env_on (e(k := v)) k' = env_on e k'"
    "env_off (e(k := v)) k' = env_off e k'" "env_int ok (e(k := v)) k' n = env_int ok e k' n"
    "env_list (e(k := v)) k' = env_list e k'"
  using assms by (simp_all add: env_text_def env_on_def env_off_def env_int_def env_list_def)

section \<open>The configuration\<close>

record base_config =
  Port :: int
  RelayName :: string
  RelayURL :: string
  RelayPubkey :: string
  RelayContact :: string
  DBHost :: string
  DBPort :: int
  DBName :: string
  DBUser :: string
  DBPassword :: string

record access_config =
  AuthPolicy :: string
  AllowedPubkeys :: "string list"
  WriteWhitelistPubkeys :: "string list"
  AuthExemptKinds :: "int list"
  AdminPubkeys :: "string list"

record limit_config =
  MaxCreatedAtFuture :: int
  MaxCreatedAtPast :: int
  MaxMessageSize :: int
  MinPoWDifficulty :: int
  RateLimitEventsPerSec :: int
  RateLimitFiltersPerSec :: int
  RateLimitConnectionsPerSec :: int
  RateLimitDistributed :: bool
  RateLimitExemptKinds :: "int list"
  RateLimitExemptPubkeys :: "string list"
  FilterMaxAuthors :: int
  FilterMaxIDs :: int
  FilterMaxKinds :: int

record wot_settings =
  WoTEnabled :: bool
  WoTOwnerPubkey :: string
  WoTTrustRoots :: "string list"
  WoTUnknownPoWBits :: int
  WoTUnknownRateLimit :: int
  WoTCollabKinds :: "int list"
  WoTCollabRateLimit :: int
  WoTUsePageRank :: bool
  WoTPageRankInterval :: int

record feature_config =
  CacheURL :: string
  GiftWrapEnabled :: bool
  GiftWrapRequireAuth :: bool
  ZapsEnabled :: bool
  ZapsValidateReceipt :: bool
  WriteAheadEnabled :: bool
  EventCacheEnabled :: bool
  SessionStoreEnabled :: bool
  EventPubSubEnabled :: bool
  ProtectedEventsEnabled :: bool
  ProtectedEventsAllow :: bool
  DBMaxOpenConns :: int
  DBMaxIdleConns :: int
  PProfEnabled :: bool
  LogLevel :: string
  LogFormat :: string
  NIP66Enabled :: bool
  NIP66SelfMonitor :: bool
  NIP66MonitorKey :: string
  SearchEnabled :: bool
  SearchKinds :: "int list"

record haven_settings =
  HavenEnabled :: bool
  HavenOwnerPubkey :: string
  HavenPrivateKinds :: "int list"
  HavenAllowPublicOutboxRead :: bool
  HavenAllowPublicInboxWrite :: bool
  HavenRequireAuthForChat :: bool
  HavenRequireAuthForPrivate :: bool
  HavenBlastrEnabled :: bool
  HavenBlastrRelays :: "string list"
  HavenBlastrRetryEnabled :: bool
  HavenBlastrMaxRetries :: int
  HavenBlastrRetryInterval :: int
  HavenImporterEnabled :: bool
  HavenImporterRelays :: "string list"
  HavenImporterRealtimeEnabled :: bool
  HavenMultiUserEnabled :: bool

record feed_config =
  FeedEnabled :: bool
  FeedLimit :: int
  FeedMaxLimit :: int
  FeedIncludeLongForm :: bool
  FeedIncludeReplies :: bool

record group_config =
  GroupsEnabled :: bool
  GroupsSecretKey :: string
  GroupsRelayURL :: string
  GroupsAdminPubkeys :: "string list"
  GroupsAllowPublicCreation :: bool
  GroupsMaxGroupsPerUser :: int
  GroupsDefaultPrivacy :: string
  GroupsInviteCodeExpiryHours :: int
  GroupsAllowPrivate :: bool

record payment_config =
  PaymentsEnabled :: bool
  LNbitsURL :: string
  LNbitsInvoiceKey :: string
  LNbitsWebhookSecret :: string
  PaymentsPublicURL :: string
  RelaySecretKey :: string
  TierHybridPriceSats :: int
  TierPremiumPriceSats :: int
  TierEnterprisePriceSats :: int
  TierPeriodDays :: int

record sweep_config =
  ExpirySweepEnabled :: bool
  ExpirySweepDryRun :: bool
  ExpirySweepInterval :: int
  ExpirySweepBatchSize :: int
  ExpirySweepBatchPause :: int
  ExpirySweepGiftWrapGrace :: int

record config =
  c_base :: base_config
  c_access :: access_config
  c_limits :: limit_config
  c_wot :: wot_settings
  c_features :: feature_config
  c_haven :: haven_settings
  c_feed :: feed_config
  c_groups :: group_config
  c_payments :: payment_config
  c_sweep :: sweep_config

section \<open>Loading\<close>

text \<open>The two ports are the only settings whose bad value is an error (\<open>None\<close>).\<close>

definition env_port :: "env \<Rightarrow> string \<Rightarrow> int \<Rightarrow> int option" where
  "env_port e k d = (if e k \<noteq> '''' then Atoi (e k) else Some d)"

lemma env_port_other: "k' \<noteq> k \<Longrightarrow> env_port (e(k := v)) k' d = env_port e k' d"
  by (simp add: env_port_def)

definition load_base :: "env \<Rightarrow> base_config option" where
  "load_base e =
     (case env_port e ''RELAY_PORT'' 3334 of
        None \<Rightarrow> None
      | Some port \<Rightarrow>
          case env_port e ''DB_PORT'' 5432 of
            None \<Rightarrow> None
          | Some dbport \<Rightarrow> Some
              \<lparr>Port = port,
               RelayName = env_text e ''RELAY_NAME'' ''Cloistr Relay'',
               RelayURL = env_text e ''RELAY_URL'' ''ws://localhost:3334'',
               RelayPubkey = env_text e ''RELAY_PUBKEY'' '''',
               RelayContact = env_text e ''RELAY_CONTACT'' '''',
               DBHost = env_text e ''DB_HOST'' ''localhost'',
               DBPort = dbport,
               DBName = env_text e ''DB_NAME'' ''nostr'',
               DBUser = env_text e ''DB_USER'' ''postgres'',
               DBPassword = env_text e ''DB_PASSWORD'' ''''\<rparr>)"

definition load_access :: "env \<Rightarrow> access_config" where
  "load_access e =
     \<lparr>AuthPolicy = env_text e ''AUTH_POLICY'' '''',
      AllowedPubkeys = env_list e ''ALLOWED_PUBKEYS'',
      WriteWhitelistPubkeys = env_list e ''WRITE_WHITELIST_PUBKEYS'',
      AuthExemptKinds = (if e ''AUTH_EXEMPT_KINDS'' \<noteq> '''' then parseIntList (e ''AUTH_EXEMPT_KINDS'') else []),
      AdminPubkeys = env_list e ''ADMIN_PUBKEYS''\<rparr>"

definition load_limits :: "env \<Rightarrow> limit_config" where
  "load_limits e =
     \<lparr>MaxCreatedAtFuture = env_int any_int e ''MAX_CREATED_AT_FUTURE'' 300,
      MaxCreatedAtPast = env_int any_int e ''MAX_CREATED_AT_PAST'' 0,
      MaxMessageSize = env_int positive e ''MAX_MESSAGE_SIZE'' 512000,
      MinPoWDifficulty = env_int any_int e ''MIN_POW_DIFFICULTY'' 0,
      RateLimitEventsPerSec = env_int any_int e ''RATE_LIMIT_EVENTS_PER_SEC'' 10,
      RateLimitFiltersPerSec = env_int any_int e ''RATE_LIMIT_FILTERS_PER_SEC'' 20,
      RateLimitConnectionsPerSec = env_int any_int e ''RATE_LIMIT_CONNECTIONS_PER_SEC'' 5,
      RateLimitDistributed = env_on e ''RATE_LIMIT_DISTRIBUTED'',
      RateLimitExemptKinds = List.map_filter Atoi (env_list e ''RATE_LIMIT_EXEMPT_KINDS''),
      RateLimitExemptPubkeys = env_list e ''RATE_LIMIT_EXEMPT_PUBKEYS'',
      FilterMaxAuthors = env_int positive e ''FILTER_MAX_AUTHORS'' 100,
      FilterMaxIDs = env_int positive e ''FILTER_MAX_IDS'' 500,
      FilterMaxKinds = env_int positive e ''FILTER_MAX_KINDS'' 150\<rparr>"

definition load_wot :: "env \<Rightarrow> wot_settings" where
  "load_wot e =
     \<lparr>WoTEnabled = env_on e ''WOT_ENABLED'',
      WoTOwnerPubkey = env_text e ''WOT_OWNER_PUBKEY'' '''',
      WoTTrustRoots = env_list e ''WOT_TRUST_ROOTS'',
      WoTUnknownPoWBits = env_int any_int e ''WOT_UNKNOWN_POW_BITS'' 0,
      WoTUnknownRateLimit = env_int any_int e ''WOT_UNKNOWN_RATE_LIMIT'' 0,
      WoTCollabKinds = (let ks = List.map_filter Atoi (env_list e ''WOT_COLLAB_KINDS'')
                        in if ks \<noteq> [] then ks else [25078, 25079]),
      WoTCollabRateLimit = env_int nonneg e ''WOT_COLLAB_RATE_LIMIT'' 20,
      WoTUsePageRank = env_on e ''WOT_USE_PAGERANK'',
      WoTPageRankInterval = env_int any_int e ''WOT_PAGERANK_INTERVAL'' 0\<rparr>"

definition load_features :: "env \<Rightarrow> feature_config" where
  "load_features e =
     \<lparr>CacheURL = env_text e ''CACHE_URL'' '''',
      GiftWrapEnabled = (\<not> env_off e ''GIFTWRAP_ENABLED''),
      GiftWrapRequireAuth = (\<not> env_off e ''GIFTWRAP_REQUIRE_AUTH''),
      ZapsEnabled = (\<not> env_off e ''ZAPS_ENABLED''),
      ZapsValidateReceipt = (\<not> env_off e ''ZAPS_VALIDATE_RECEIPT''),
      WriteAheadEnabled = env_on e ''WRITE_AHEAD_ENABLED'',
      EventCacheEnabled = env_on e ''EVENT_CACHE_ENABLED'',
      SessionStoreEnabled = env_on e ''SESSION_STORE_ENABLED'',
      EventPubSubEnabled = env_on e ''EVENT_PUBSUB_ENABLED'',
      ProtectedEventsEnabled = (\<not> env_off e ''PROTECTED_EVENTS_ENABLED''),
      ProtectedEventsAllow = (\<not> env_off e ''PROTECTED_EVENTS_ALLOW''),
      DBMaxOpenConns = env_int positive e ''DB_MAX_OPEN_CONNS'' 25,
      DBMaxIdleConns = env_int positive e ''DB_MAX_IDLE_CONNS'' 10,
      PProfEnabled = env_on e ''PPROF_ENABLED'',
      LogLevel = env_text e ''LOG_LEVEL'' ''info'',
      LogFormat = env_text e ''LOG_FORMAT'' ''json'',
      NIP66Enabled = env_on e ''NIP66_ENABLED'',
      NIP66SelfMonitor = env_on e ''NIP66_SELF_MONITOR'',
      NIP66MonitorKey = env_text e ''NIP66_MONITOR_KEY'' '''',
      SearchEnabled = (\<not> env_off e ''SEARCH_ENABLED''),
      SearchKinds = (if e ''SEARCH_KINDS'' \<noteq> '''' then parseIntList (e ''SEARCH_KINDS'') else [])\<rparr>"

definition load_haven :: "env \<Rightarrow> haven_settings" where
  "load_haven e =
     \<lparr>HavenEnabled = env_on e ''HAVEN_ENABLED'',
      HavenOwnerPubkey = env_text e ''HAVEN_OWNER_PUBKEY'' '''',
      HavenPrivateKinds = (if e ''HAVEN_PRIVATE_KINDS'' \<noteq> '''' then parseIntList (e ''HAVEN_PRIVATE_KINDS'') else []),
      HavenAllowPublicOutboxRead = (\<not> env_off e ''HAVEN_ALLOW_PUBLIC_OUTBOX_READ''),
      HavenAllowPublicInboxWrite = (\<not> env_off e ''HAVEN_ALLOW_PUBLIC_INBOX_WRITE''),
      HavenRequireAuthForChat = (\<not> env_off e ''HAVEN_REQUIRE_AUTH_FOR_CHAT''),
      HavenRequireAuthForPrivate = (\<not> env_off e ''HAVEN_REQUIRE_AUTH_FOR_PRIVATE''),
      HavenBlastrEnabled = env_on e ''HAVEN_BLASTR_ENABLED'',
      HavenBlastrRelays = env_list e ''HAVEN_BLASTR_RELAYS'',
      HavenBlastrRetryEnabled = env_on e ''HAVEN_BLASTR_RETRY_ENABLED'',
      HavenBlastrMaxRetries = env_int positive e ''HAVEN_BLASTR_MAX_RETRIES'' 6,
      HavenBlastrRetryInterval = env_int positive e ''HAVEN_BLASTR_RETRY_INTERVAL'' 30,
      HavenImporterEnabled = env_on e ''HAVEN_IMPORTER_ENABLED'',
      HavenImporterRelays = env_list e ''HAVEN_IMPORTER_RELAYS'',
      HavenImporterRealtimeEnabled = env_on e ''HAVEN_IMPORTER_REALTIME'',
      HavenMultiUserEnabled = env_on e ''HAVEN_MULTI_USER''\<rparr>"

definition load_feed :: "env \<Rightarrow> bool \<Rightarrow> feed_config" where
  "load_feed e haven_enabled =
     \<lparr>FeedEnabled = (if env_on e ''FEED_ENABLED'' then True
                     else if env_off e ''FEED_ENABLED'' then False
                     else haven_enabled),
      FeedLimit = env_int positive e ''FEED_LIMIT'' 20,
      FeedMaxLimit = env_int positive e ''FEED_MAX_LIMIT'' 100,
      FeedIncludeLongForm = (\<not> env_off e ''FEED_INCLUDE_LONG_FORM''),
      FeedIncludeReplies = env_on e ''FEED_INCLUDE_REPLIES''\<rparr>"

definition load_groups :: "env \<Rightarrow> string \<Rightarrow> string list \<Rightarrow> group_config" where
  "load_groups e relay_url admins =
     \<lparr>GroupsEnabled = env_on e ''GROUPS_ENABLED'',
      GroupsSecretKey = env_text e ''GROUPS_SECRET_KEY'' '''',
      GroupsRelayURL = env_text e ''GROUPS_RELAY_URL'' relay_url,
      GroupsAdminPubkeys = (if e ''GROUPS_ADMIN_PUBKEYS'' \<noteq> ''''
                            then parseCommaSeparated (e ''GROUPS_ADMIN_PUBKEYS'') else admins),
      GroupsAllowPublicCreation = env_on e ''GROUPS_ALLOW_PUBLIC_CREATION'',
      GroupsMaxGroupsPerUser = env_int nonneg e ''GROUPS_MAX_PER_USER'' 10,
      GroupsDefaultPrivacy = env_text e ''GROUPS_DEFAULT_PRIVACY'' ''restricted'',
      GroupsInviteCodeExpiryHours = env_int positive e ''GROUPS_INVITE_EXPIRY_HOURS'' 168,
      GroupsAllowPrivate = (\<not> env_off e ''GROUPS_ALLOW_PRIVATE'')\<rparr>"

definition load_payments :: "env \<Rightarrow> payment_config" where
  "load_payments e =
     \<lparr>PaymentsEnabled = env_on e ''PAYMENTS_ENABLED'',
      LNbitsURL = env_text e ''LNBITS_URL'' '''',
      LNbitsInvoiceKey = env_text e ''LNBITS_INVOICE_KEY'' '''',
      LNbitsWebhookSecret = env_text e ''LNBITS_WEBHOOK_SECRET'' '''',
      PaymentsPublicURL = env_text e ''PAYMENTS_PUBLIC_URL'' '''',
      RelaySecretKey = env_text e ''RELAY_SECRET_KEY'' '''',
      TierHybridPriceSats = env_int nonneg e ''TIER_HYBRID_PRICE_SATS'' 0,
      TierPremiumPriceSats = env_int nonneg e ''TIER_PREMIUM_PRICE_SATS'' 0,
      TierEnterprisePriceSats = env_int nonneg e ''TIER_ENTERPRISE_PRICE_SATS'' 0,
      TierPeriodDays = env_int positive e ''TIER_PERIOD_DAYS'' 30\<rparr>"

text \<open>A count of units as a duration in nanoseconds; the multiplication is 64-bit.\<close>

definition env_duration :: "(int \<Rightarrow> bool) \<Rightarrow> env \<Rightarrow> string \<Rightarrow> int \<Rightarrow> int \<Rightarrow> int" where
  "env_duration ok e k unit d =
     (if e k \<noteq> '''' then (case Atoi (e k) of Some v \<Rightarrow> if ok v then i64 (v * unit) else d | None \<Rightarrow> d) else d)"

lemma env_duration_other: "k' \<noteq> k \<Longrightarrow> env_duration ok (e(k := v)) k' u d = env_duration ok e k' u d"
  by (simp add: env_duration_def)

definition load_sweep :: "env \<Rightarrow> sweep_config" where
  "load_sweep e =
     \<lparr>ExpirySweepEnabled = env_on e ''EXPIRY_SWEEP_ENABLED'',
      ExpirySweepDryRun = (\<not> env_off e ''EXPIRY_SWEEP_DRY_RUN''),
      ExpirySweepInterval = env_duration positive e ''EXPIRY_SWEEP_INTERVAL_MINUTES'' (60 * ns_per_sec) (3600 * ns_per_sec),
      ExpirySweepBatchSize = env_int positive e ''EXPIRY_SWEEP_BATCH_SIZE'' 1000,
      ExpirySweepBatchPause = env_duration nonneg e ''EXPIRY_SWEEP_BATCH_PAUSE_MS'' 1000000 ns_per_sec,
      ExpirySweepGiftWrapGrace = env_duration nonneg e ''EXPIRY_SWEEP_GIFTWRAP_GRACE_DAYS''
        (24 * 3600 * ns_per_sec) (30 * 24 * 3600 * ns_per_sec)\<rparr>"

definition Load :: "env \<Rightarrow> config option" where
  "Load e =
     (case load_base e of
        None \<Rightarrow> None
      | Some base \<Rightarrow> Some
          \<lparr>c_base = base, c_access = load_access e, c_limits = load_limits e, c_wot = load_wot e,
           c_features = load_features e, c_haven = load_haven e,
           c_feed = load_feed e (HavenEnabled (load_haven e)),
           c_groups = load_groups e (RelayURL base) (AdminPubkeys (load_access e)),
           c_payments = load_payments e, c_sweep = load_sweep e\<rparr>)"

lemmas load_defs = Load_def load_base_def load_access_def load_limits_def load_wot_def
  load_features_def load_haven_def load_feed_def load_groups_def load_payments_def load_sweep_def

section \<open>Facts about the lists\<close>

fun join_on :: "char \<Rightarrow> string list \<Rightarrow> string" where
  "join_on sep [] = []"
| "join_on sep [w] = w"
| "join_on sep (w # v # ws) = w @ sep # join_on sep (v # ws)"

lemma split_on_nonempty [simp]: "split_on sep s \<noteq> []"
  by (induction s) (auto split: list.split)

lemma split_on_word: "sep \<notin> set w \<Longrightarrow> split_on sep w = [w]"
  by (induction w) auto

lemma split_on_append: "sep \<notin> set w \<Longrightarrow> split_on sep (w @ sep # s) = w # split_on sep s"
  by (induction w) auto

lemma split_on_join:
  "ws \<noteq> [] \<Longrightarrow> \<forall>w \<in> set ws. sep \<notin> set w \<Longrightarrow> split_on sep (join_on sep ws) = ws"
  by (induction sep ws rule: join_on.induct) (auto simp: split_on_word split_on_append)

lemma split_on_no_sep: "w \<in> set (split_on sep s) \<Longrightarrow> sep \<notin> set w"
proof (induction s arbitrary: w)
  case Nil
  then show ?case by simp
next
  case (Cons c cs)
  obtain v vs where "split_on sep cs = v # vs"
    using split_on_nonempty [of sep cs] by (meson neq_Nil_conv)
  with Cons show ?case by (auto split: if_splits)
qed

lemma TrimSpace_subset: "set (TrimSpace s) \<subseteq> set s"
  by (metis TrimSpace_def set_dropWhileD set_rev subsetI)

definition trimmed_word :: "string \<Rightarrow> bool" where
  "trimmed_word w \<longleftrightarrow> w \<noteq> [] \<and> \<not> is_space (hd w) \<and> \<not> is_space (last w) \<and> CHR '','' \<notin> set w"

lemma TrimSpace_ends:
  assumes "TrimSpace s \<noteq> []"
  shows "\<not> is_space (hd (TrimSpace s)) \<and> \<not> is_space (last (TrimSpace s))"
proof -
  let ?a = "dropWhile is_space s"
  let ?b = "dropWhile is_space (rev ?a)"
  have b: "?b \<noteq> []" using assms by (simp add: TrimSpace_def)
  then have last_ok: "\<not> is_space (hd ?b)" by (rule hd_dropWhile)
  have a: "?a \<noteq> []" using b by (metis dropWhile.simps(1) rev.simps(1))
  then have "\<not> is_space (hd ?a)" by (rule hd_dropWhile)
  moreover have "hd (rev ?b) = hd ?a"
  proof -
    obtain u where "rev ?a = u @ ?b" by (metis takeWhile_dropWhile_id)
    then have "?a = rev ?b @ rev u" by (metis rev_append rev_rev_ident)
    with b show ?thesis by (metis hd_append2 rev_is_Nil_conv)
  qed
  ultimately show ?thesis
    using b last_ok by (simp add: TrimSpace_def last_rev)
qed

section \<open>Properties\<close>

text \<open>A comma-separated setting reads as trimmed, non-empty, comma-free words, and any such
  words written with commas between them are read back unchanged.\<close>

theorem parseCommaSeparated_spec:
  "list_all trimmed_word (parseCommaSeparated s) \<and>
   (list_all trimmed_word ws \<longrightarrow> parseCommaSeparated (join_on (CHR '','') ws) = ws)"
proof
  show "list_all trimmed_word (parseCommaSeparated s)"
    using TrimSpace_subset TrimSpace_ends split_on_no_sep [of _ "CHR '',''" s]
    by (fastforce simp: list_all_iff parseCommaSeparated_def trimmed_word_def)
  show "list_all trimmed_word ws \<longrightarrow> parseCommaSeparated (join_on (CHR '','') ws) = ws"
  proof (cases ws)
    case Nil
    then show ?thesis by (simp add: parseCommaSeparated_def)
  next
    case (Cons w vs)
    show ?thesis
    proof
      assume ok: "list_all trimmed_word ws"
      have "join_on (CHR '','') ws \<noteq> []"
        using Cons ok by (cases vs) (auto simp: trimmed_word_def)
      moreover have "map TrimSpace ws = ws"
        using ok by (intro map_idI) (auto simp: list_all_iff trimmed_word_def intro: TrimSpace_id)
      moreover have "filter (\<lambda>p. p \<noteq> []) ws = ws"
        using ok by (auto simp: list_all_iff trimmed_word_def filter_id_conv)
      moreover have "split_on (CHR '','') (join_on (CHR '','') ws) = ws"
        using Cons ok by (intro split_on_join) (auto simp: list_all_iff trimmed_word_def)
      ultimately show "parseCommaSeparated (join_on (CHR '','') ws) = ws"
        by (simp add: parseCommaSeparated_def)
    qed
  qed
qed

lemma parseCommaSeparated_spec_witness:
  "parseCommaSeparated (join_on (CHR '','') [''a'', ''b c'']) = [''a'', ''b c'']"
  using parseCommaSeparated_spec [of "[]" "[''a'', ''b c'']"]
  by (simp add: trimmed_word_def is_space_def)

text \<open>Loading fails exactly when one of the two ports is set to something that is not a
  64-bit integer; whatever else the environment holds, the loaded limits, prices, periods and
  batch sizes are in the range their consumers rely on.\<close>

theorem Load_total_and_bounded:
  "(Load e = None \<longleftrightarrow> (e ''RELAY_PORT'' \<noteq> '''' \<and> Atoi (e ''RELAY_PORT'') = None) \<or>
                     (e ''DB_PORT'' \<noteq> '''' \<and> Atoi (e ''DB_PORT'') = None)) \<and>
   (case Load e of None \<Rightarrow> True | Some c \<Rightarrow>
      0 < FilterMaxAuthors (c_limits c) \<and> 0 < FilterMaxIDs (c_limits c) \<and> 0 < FilterMaxKinds (c_limits c) \<and>
      0 < MaxMessageSize (c_limits c) \<and> 0 \<le> WoTCollabRateLimit (c_wot c) \<and> WoTCollabKinds (c_wot c) \<noteq> [] \<and>
      0 < DBMaxOpenConns (c_features c) \<and> 0 < DBMaxIdleConns (c_features c) \<and>
      0 < HavenBlastrMaxRetries (c_haven c) \<and> 0 < HavenBlastrRetryInterval (c_haven c) \<and>
      0 < FeedLimit (c_feed c) \<and> 0 < FeedMaxLimit (c_feed c) \<and>
      0 \<le> GroupsMaxGroupsPerUser (c_groups c) \<and> 0 < GroupsInviteCodeExpiryHours (c_groups c) \<and>
      0 \<le> TierHybridPriceSats (c_payments c) \<and> 0 \<le> TierPremiumPriceSats (c_payments c) \<and>
      0 \<le> TierEnterprisePriceSats (c_payments c) \<and> 0 < TierPeriodDays (c_payments c) \<and>
      0 < ExpirySweepBatchSize (c_sweep c))"
  (is "?fails \<and> ?bounds")
proof
  show ?fails
    by (simp add: Load_def load_base_def env_port_def split: option.split)
  have pos: "0 < env_int positive e k d" if "0 < d" for k d using env_int_ok [of positive] that by simp
  have nn: "0 \<le> env_int nonneg e k d" if "0 \<le> d" for k d using env_int_ok [of nonneg] that by simp
  show ?bounds
    by (simp add: Load_def load_access_def load_limits_def load_wot_def load_features_def load_haven_def
        load_feed_def load_groups_def load_payments_def load_sweep_def Let_def pos nn split: option.split)
qed

text \<open>Granting a web-of-trust bypass (\<open>ALLOWED_PUBKEYS\<close>) changes nothing else of the
  configuration, the restrictive write whitelist least of all.\<close>

theorem allowed_pubkeys_only_grants:
  "Load (e(''ALLOWED_PUBKEYS'' := v)) =
     map_option (\<lambda>c. c\<lparr>c_access := (c_access c)\<lparr>AllowedPubkeys := (if v \<noteq> '''' then parseCommaSeparated v else [])\<rparr>\<rparr>) (Load e)"
proof -
  let ?e = "e(''ALLOWED_PUBKEYS'' := v)"
  have "load_base ?e = load_base e" "load_limits ?e = load_limits e" "load_wot ?e = load_wot e"
    "load_features ?e = load_features e" "load_haven ?e = load_haven e" "load_payments ?e = load_payments e"
    "load_feed ?e b = load_feed e b" "load_groups ?e u ps = load_groups e u ps" "load_sweep ?e = load_sweep e" for b u ps
    by (simp_all add: load_base_def load_limits_def load_wot_def load_features_def load_haven_def load_payments_def
        load_feed_def load_groups_def load_sweep_def env_other env_port_other env_duration_other cong: option.case_cong)
  moreover obtain w where w: "w = (if v \<noteq> '''' then parseCommaSeparated v else [])"
    by simp
  moreover have "load_access ?e = (load_access e)\<lparr>AllowedPubkeys := w\<rparr>"
    unfolding w by (simp add: load_access_def env_other) (simp add: env_list_def)
  ultimately show ?thesis
    unfolding w [symmetric] by (simp add: Load_def split: option.split)
qed

end
