(* ===== verification/Validation.thy ===== *)
theory Validation
  imports Relay_Config Rate_Limit
begin

text \<open>
  internal/handlers/handlers.go: the checks every event and filter meets first (signature and
  id, NIP-22 timestamps, NIP-40 expiration, NIP-13 proof of work, filter size), and the
  in-memory limiter with its exemptions.
\<close>

section \<open>Event checks\<close>

definition rejectInvalidEvents :: "nostr_lib \<Rightarrow> event \<Rightarrow> verdict" where
  "rejectInvalidEvents lib ev =
     (case CheckSignature lib ev of
        None \<Rightarrow> Reject ''invalid: signature verification failed''
      | Some ok \<Rightarrow>
          if \<not> ok then Reject ''invalid: signature verification failed''
          else if GetID lib ev \<noteq> ev_id ev then Reject ''invalid: event id mismatch''
          else Accept)"

definition rejectTimestampOutOfRange :: "limit_config \<Rightarrow> reqctx \<Rightarrow> event \<Rightarrow> verdict" where
  "rejectTimestampOutOfRange cfg ctx ev =
     (let now = now_unix ctx; eventTime = ev_created_at ev in
      if MaxCreatedAtFuture cfg > 0 \<and> eventTime > i64 (now + MaxCreatedAtFuture cfg)
      then Reject (''invalid: created_at is too far in the future (max '' @ fmt_d (MaxCreatedAtFuture cfg) @ '' seconds)'')
      else if MaxCreatedAtPast cfg > 0 \<and> eventTime < i64 (now - MaxCreatedAtPast cfg)
      then Reject (''invalid: created_at is too far in the past (max '' @ fmt_d (MaxCreatedAtPast cfg) @ '' seconds)'')
      else Accept)"

text \<open>The first \<open>expiration\<close> tag whose value parses; a tag that does not parse is passed over.\<close>

fun expiration_scan :: "tag list \<Rightarrow> int" where
  "expiration_scan [] = 0"
| "expiration_scan ((n # v # rest) # ts) =
     (if n = ''expiration'' then (case ParseInt64 v of Some t \<Rightarrow> t | None \<Rightarrow> expiration_scan ts)
      else expiration_scan ts)"
| "expiration_scan (_ # ts) = expiration_scan ts"

definition GetExpiration :: "event \<Rightarrow> int" where
  "GetExpiration ev = expiration_scan (ev_tags ev)"

definition IsExpired :: "reqctx \<Rightarrow> event \<Rightarrow> bool" where
  "IsExpired ctx ev \<longleftrightarrow> (let expiration = GetExpiration ev in expiration > 0 \<and> expiration < now_unix ctx)"

definition rejectExpiredEvents :: "reqctx \<Rightarrow> event \<Rightarrow> verdict" where
  "rejectExpiredEvents ctx ev = (if IsExpired ctx ev then Reject ''invalid: event has expired'' else Accept)"

subsection \<open>Proof of work\<close>

definition hex_nibble :: "char \<Rightarrow> nat option" where
  "hex_nibble c = (let n = of_char c in
     if 48 \<le> n \<and> n \<le> (57 :: nat) then Some (n - 48)
     else if 97 \<le> n \<and> n \<le> 102 then Some (n - 97 + 10)
     else if 65 \<le> n \<and> n \<le> 70 then Some (n - 65 + 10)
     else None)"

fun clz_loop :: "nat \<Rightarrow> string \<Rightarrow> nat" where
  "clz_loop zeroBits [] = zeroBits"
| "clz_loop zeroBits (c # cs) =
     (case hex_nibble c of
        None \<Rightarrow> zeroBits
      | Some nibble \<Rightarrow>
          if nibble = 0 then clz_loop (zeroBits + 4) cs
          else if nibble < 2 then zeroBits + 3
          else if nibble < 4 then zeroBits + 2
          else if nibble < 8 then zeroBits + 1
          else zeroBits)"

definition countLeadingZeroBits :: "string \<Rightarrow> nat" where
  "countLeadingZeroBits hexID = clz_loop 0 hexID"

definition requirePoW :: "limit_config \<Rightarrow> event \<Rightarrow> verdict" where
  "requirePoW cfg ev =
     (let difficulty = int (countLeadingZeroBits (ev_id ev)) in
      if difficulty < MinPoWDifficulty cfg
      then Reject (''pow: insufficient proof of work (got '' @ fmt_d difficulty @ '', need '' @ fmt_d (MinPoWDifficulty cfg) @ '')'')
      else Accept)"

section \<open>Filter checks\<close>

definition rejectComplexFilters :: "limit_config \<Rightarrow> nfilter \<Rightarrow> verdict" where
  "rejectComplexFilters cfg f =
     (if int (length (f_authors f)) > FilterMaxAuthors cfg
      then Reject (''error: too many authors in filter (max '' @ fmt_d (FilterMaxAuthors cfg) @ '')'')
      else if int (length (f_ids f)) > FilterMaxIDs cfg
      then Reject (''error: too many ids in filter (max '' @ fmt_d (FilterMaxIDs cfg) @ '')'')
      else if int (length (f_kinds f)) > FilterMaxKinds cfg
      then Reject (''error: too many kinds in filter (max '' @ fmt_d (FilterMaxKinds cfg) @ '')'')
      else Accept)"

section \<open>The limiter with exemptions\<close>

text \<open>\<open>dynamicChecker\<close> is the \<open>RateLimitExemptChecker\<close> interface, \<open>None\<close> when nil.\<close>

definition buildRateLimitRejecter ::
  "string list \<Rightarrow> int list \<Rightarrow> (string \<Rightarrow> bool) option \<Rightarrow> 's gate option \<Rightarrow> event \<Rightarrow> 's gate" where
  "buildRateLimitRejecter exemptPubkeys exemptKinds dynamicChecker baseLimiter ev s =
     (if ev_pubkey ev \<in> set exemptPubkeys then (Accept, s)
      else if (case dynamicChecker of None \<Rightarrow> False | Some exempt \<Rightarrow> exempt (ev_pubkey ev)) then (Accept, s)
      else if ev_kind ev \<in> set exemptKinds then (Accept, s)
      else case baseLimiter of Some limiter \<Rightarrow> limiter s | None \<Rightarrow> (Accept, s))"

definition mem_params_for :: "int \<Rightarrow> mem_params" where
  "mem_params_for perSec = \<lparr>mp_tokens = perSec, mp_max = i64 (perSec * 5)\<rparr>"

definition getRecipient :: "event \<Rightarrow> string" where
  "getRecipient ev = (case tag_scan (ev_tags ev) ''p'' of
     None \<Rightarrow> ''unknown''
   | Some v \<Rightarrow> if length v \<ge> 8 then take 8 v @ ''...'' else v)"

text \<open>
  \<open>RegisterHandlers\<close>: the handlers it appends to \<open>relay.RejectEvent\<close> and
  \<open>relay.RejectFilter\<close>, in order, over a state that holds the limiters' buckets.
\<close>

definition handler_event_gates ::
  "nostr_lib \<Rightarrow> limit_config \<Rightarrow> bool \<Rightarrow> (string \<Rightarrow> bool) option \<Rightarrow> reqctx \<Rightarrow> event \<Rightarrow> mem_buckets gate list" where
  "handler_event_gates lib cfg useDistributed exemptChecker ctx ev =
     [pure_gate (\<lambda>_. rejectInvalidEvents lib ev),
      pure_gate (\<lambda>_. rejectTimestampOutOfRange cfg ctx ev),
      pure_gate (\<lambda>_. rejectExpiredEvents ctx ev)]
     @ (if MinPoWDifficulty cfg > 0 then [pure_gate (\<lambda>_. requirePoW cfg ev)] else [])
     @ [pure_gate (\<lambda>_. RejectEventsWithBase64Media lib ev)]
     @ (if \<not> useDistributed \<and> RateLimitEventsPerSec cfg > 0
        then [buildRateLimitRejecter (RateLimitExemptPubkeys cfg) (RateLimitExemptKinds cfg) exemptChecker
                (Some (EventIPRateLimiter (mem_params_for (RateLimitEventsPerSec cfg)) ctx)) ev]
        else [])"

definition handler_filter_gates ::
  "nostr_lib \<Rightarrow> limit_config \<Rightarrow> bool \<Rightarrow> reqctx \<Rightarrow> nfilter \<Rightarrow> mem_buckets gate list" where
  "handler_filter_gates lib cfg useDistributed ctx f =
     [pure_gate (\<lambda>_. rejectComplexFilters cfg f),
      pure_gate (\<lambda>_. NoComplexFilters lib f)]
     @ (if \<not> useDistributed \<and> RateLimitFiltersPerSec cfg > 0
        then [FilterIPRateLimiter (mem_params_for (RateLimitFiltersPerSec cfg)) ctx] else [])"

section \<open>Facts\<close>

fun hex_value :: "string \<Rightarrow> nat" where
  "hex_value [] = 0"
| "hex_value (c # cs) = (case hex_nibble c of None \<Rightarrow> 0 | Some n \<Rightarrow> n * 16 ^ length cs + hex_value cs)"

definition is_hex :: "string \<Rightarrow> bool" where
  "is_hex s \<longleftrightarrow> list_all (\<lambda>c. hex_nibble c \<noteq> None) s"

lemma hex_nibble_range: "hex_nibble c = Some n \<Longrightarrow> n < 16"
  by (auto simp: hex_nibble_def Let_def split: if_splits)

lemma hex_value_bound: "hex_value s < 16 ^ length s"
proof (induction s)
  case Nil
  then show ?case by simp
next
  case (Cons c cs)
  show ?case
  proof (cases "hex_nibble c")
    case None
    then show ?thesis by simp
  next
    case (Some n)
    with hex_nibble_range have "n \<le> 15" by fastforce
    then have "n * 16 ^ length cs + hex_value cs < 15 * 16 ^ length cs + 16 ^ length cs"
      using Cons by (intro add_le_less_mono mult_right_mono) simp_all
    with Some show ?thesis by simp
  qed
qed

lemma clz_loop_acc: "clz_loop a s = a + clz_loop 0 s"
proof (induction s arbitrary: a)
  case (Cons c cs)
  show ?case
    by (simp split: option.split) (metis Cons add.assoc add.commute)
qed simp

text \<open>The number of leading zeros of a hexadecimal text bounds its value, both ways.\<close>

lemma clz_nibble:
  assumes "hex_nibble c = Some n" "n \<noteq> 0"
  shows "\<exists>k \<le> 3. clz_loop 0 (c # cs) = k \<and> 2 ^ (3 - k) \<le> n \<and> n < 2 ^ (4 - k)"
proof -
  have "n < 16" using assms(1) by (rule hex_nibble_range)
  consider "n < 2" | "2 \<le> n" "n < 4" | "4 \<le> n" "n < 8" | "8 \<le> n" by linarith
  then show ?thesis
    using assms \<open>n < 16\<close> by cases (auto intro: exI [of _ 3] exI [of _ 2] exI [of _ 1] exI [of _ 0])
qed

lemma sixteen_power: "(16 :: nat) ^ n = 2 ^ (4 * n)"
  by (simp add: power_mult)

lemma clz_iff_value:
  "is_hex s \<Longrightarrow> d \<le> 4 * length s \<Longrightarrow> d \<le> clz_loop 0 s \<longleftrightarrow> hex_value s < 2 ^ (4 * length s - d)"
proof (induction s arbitrary: d)
  case Nil
  then show ?case by simp
next
  case (Cons c cs)
  from Cons.prems obtain n where n: "hex_nibble c = Some n" and hex: "is_hex cs"
    by (auto simp: is_hex_def)
  have low: "hex_value cs < 2 ^ (4 * length cs)"
    using hex_value_bound [of cs] by (simp add: sixteen_power)
  show ?case
  proof (cases "n = 0")
    case True
    with n have clz: "clz_loop 0 (c # cs) = 4 + clz_loop 0 cs"
      using clz_loop_acc [of 4 cs] by simp
    show ?thesis
    proof (cases "d \<le> 4")
      case True
      then have "(2 :: nat) ^ (4 * length cs) \<le> 2 ^ (4 * length (c # cs) - d)"
        by (intro power_increasing) simp_all
      with low have "hex_value cs < 2 ^ (4 * length (c # cs) - d)" by (rule less_le_trans)
      with \<open>n = 0\<close> n clz True show ?thesis by simp
    next
      case False
      then have e: "4 * length (c # cs) - d = 4 * length cs - (d - 4)" by simp
      have "d - 4 \<le> 4 * length cs" using Cons.prems(2) by simp
      from Cons.IH [OF hex this]
      have "d \<le> 4 + clz_loop 0 cs \<longleftrightarrow> hex_value cs < 2 ^ (4 * length cs - (d - 4))" using False by linarith
      with \<open>n = 0\<close> n show ?thesis unfolding e clz by simp
    qed
  next
    case False
    from clz_nibble [OF n this] obtain k where k: "k \<le> 3" "clz_loop 0 (c # cs) = k"
      "2 ^ (3 - k) \<le> n" "n < 2 ^ (4 - k)" by blast
    have val: "hex_value (c # cs) = n * 2 ^ (4 * length cs) + hex_value cs"
      using n by (simp add: sixteen_power)
    have "Suc n * 2 ^ (4 * length cs) \<le> 2 ^ (4 - k) * 2 ^ (4 * length cs)"
      using k(4) by (intro mult_right_mono) simp_all
    with low val have upper: "hex_value (c # cs) < 2 ^ (4 - k + 4 * length cs)"
      by (simp add: power_add)
    have "2 ^ (3 - k) * 2 ^ (4 * length cs) \<le> n * 2 ^ (4 * length cs)"
      using k(3) by (intro mult_right_mono) simp_all
    then have "2 ^ (3 - k) * 2 ^ (4 * length cs) \<le> hex_value (c # cs)"
      unfolding val by (rule trans_le_add1)
    then have lower: "2 ^ (3 - k + 4 * length cs) \<le> hex_value (c # cs)"
      by (simp only: power_add)
    show ?thesis
    proof (cases "d \<le> k")
      case True
      then have "(2 :: nat) ^ (4 - k + 4 * length cs) \<le> 2 ^ (4 * length (c # cs) - d)"
        using k(1) by (intro power_increasing) simp_all
      with upper have "hex_value (c # cs) < 2 ^ (4 * length (c # cs) - d)" by (rule less_le_trans)
      with True k(2) show ?thesis by simp
    next
      case False
      then have "(2 :: nat) ^ (4 * length (c # cs) - d) \<le> 2 ^ (3 - k + 4 * length cs)"
        using k(1) Cons.prems(2) by (intro power_increasing) simp_all
      then have "2 ^ (4 * length (c # cs) - d) \<le> hex_value (c # cs)"
        using lower by (rule order_trans)
      with False k(2) show ?thesis by simp
    qed
  qed
qed

lemma expiration_scan_skip:
  "\<forall>rest v. (''expiration'' # v # rest) \<in> set ts \<longrightarrow> ParseInt64 v = None \<Longrightarrow>
   expiration_scan (ts @ us) = expiration_scan us"
  by (induction ts rule: expiration_scan.induct) (auto split: option.splits)

text \<open>The exemptions decide before the limiter, and only the limiter touches the buckets.\<close>

definition rate_exempt :: "string list \<Rightarrow> int list \<Rightarrow> (string \<Rightarrow> bool) option \<Rightarrow> event \<Rightarrow> bool" where
  "rate_exempt pks kinds checker ev \<longleftrightarrow>
     ev_pubkey ev \<in> set pks \<or> ev_kind ev \<in> set kinds \<or>
     (case checker of None \<Rightarrow> False | Some exempt \<Rightarrow> exempt (ev_pubkey ev))"

lemma buildRateLimitRejecter_eq:
  "buildRateLimitRejecter pks kinds checker base ev s =
     (if rate_exempt pks kinds checker ev then (Accept, s)
      else case base of Some limiter \<Rightarrow> limiter s | None \<Rightarrow> (Accept, s))"
  by (simp add: buildRateLimitRejecter_def rate_exempt_def split: option.split)

section \<open>Properties\<close>

text \<open>C27: The bits the relay counts are proof of work in the sense of NIP-13: on an id of \<open>n\<close>
  hexadecimal digits a count of at least \<open>d\<close> says exactly that the id, as a number, is below
  \<open>2 ^ (4 * n - d)\<close>. So with \<open>MIN_POW_DIFFICULTY\<close> set to \<open>d\<close> the check accepts exactly the
  ids in that range.\<close>

theorem requirePoW_iff_id_below:
  assumes "is_hex (ev_id ev)" and "0 \<le> MinPoWDifficulty cfg"
    and "MinPoWDifficulty cfg \<le> int (4 * length (ev_id ev))"
  shows "requirePoW cfg ev = Accept \<longleftrightarrow>
    hex_value (ev_id ev) < 2 ^ (4 * length (ev_id ev) - nat (MinPoWDifficulty cfg))"
proof -
  have "requirePoW cfg ev = Accept \<longleftrightarrow> nat (MinPoWDifficulty cfg) \<le> countLeadingZeroBits (ev_id ev)"
    using assms(2) by (auto simp: requirePoW_def Let_def)
  also have "\<dots> \<longleftrightarrow> hex_value (ev_id ev) < 2 ^ (4 * length (ev_id ev) - nat (MinPoWDifficulty cfg))"
    unfolding countLeadingZeroBits_def using assms by (intro clz_iff_value) simp_all
  finally show ?thesis .
qed

definition pow_example :: event where
  "pow_example = \<lparr>ev_id = ''002f'', ev_pubkey = '''', ev_created_at = 0, ev_kind = 1, ev_tags = [], ev_content = ''''\<rparr>"

lemma requirePoW_iff_id_below_witness:
  "requirePoW ((load_limits (\<lambda>_. ''''))\<lparr>MinPoWDifficulty := 10\<rparr>) pow_example = Accept"
proof -
  let ?cfg = "(load_limits (\<lambda>_. ''''))\<lparr>MinPoWDifficulty := 10\<rparr>"
  have "is_hex (ev_id pow_example)" by (simp add: is_hex_def pow_example_def hex_nibble_def)
  moreover have "hex_value (ev_id pow_example) < 2 ^ (4 * length (ev_id pow_example) - nat (MinPoWDifficulty ?cfg))"
    by (simp add: pow_example_def hex_nibble_def)
  moreover have "MinPoWDifficulty ?cfg \<le> int (4 * length (ev_id pow_example))"
    by (simp add: pow_example_def)
  ultimately show ?thesis
    using requirePoW_iff_id_below [of pow_example ?cfg] by simp
qed

text \<open>With limits that leave room in 64 bits, the NIP-22 check accepts exactly the
  timestamps in the window around now, each side being open when its limit is zero or
  negative.\<close>

theorem timestamp_window:
  assumes "in_i64 (now_unix ctx + MaxCreatedAtFuture cfg)" and "in_i64 (now_unix ctx - MaxCreatedAtPast cfg)"
  shows "rejectTimestampOutOfRange cfg ctx ev = Accept \<longleftrightarrow>
    (MaxCreatedAtFuture cfg \<le> 0 \<or> ev_created_at ev \<le> now_unix ctx + MaxCreatedAtFuture cfg) \<and>
    (MaxCreatedAtPast cfg \<le> 0 \<or> now_unix ctx - MaxCreatedAtPast cfg \<le> ev_created_at ev)"
  using assms by (auto simp: rejectTimestampOutOfRange_def Let_def)

lemma timestamp_window_witness:
  "rejectTimestampOutOfRange (load_limits (\<lambda>_. '''')) \<lparr>ctx_authed = '''', ctx_ip = '''', ctx_now = 0\<rparr> pow_example = Accept"
  using timestamp_window [of "\<lparr>ctx_authed = '''', ctx_ip = '''', ctx_now = 0\<rparr>" "load_limits (\<lambda>_. '''')" pow_example]
  by (simp add: load_limits_def env_int_def now_unix_def in_i64_def pow_example_def)

text \<open>A future limit close to the top of 64 bits, which the configuration accepts and which
  reads as no limit at all, makes the sum wrap around: an event of this second is refused as
  too far in the future.\<close>

theorem huge_future_limit_refuses_now:
  "\<exists>e. \<exists>ctx. MaxCreatedAtFuture (load_limits e) = 9223372036854775807 \<and>
     ev_created_at pow_example \<le> now_unix ctx \<and>
     rejected (rejectTimestampOutOfRange (load_limits e) ctx pow_example)"
proof (intro exI conjI)
  let ?e = "(\<lambda>_. '''')(''MAX_CREATED_AT_FUTURE'' := fmt_d 9223372036854775807)"
  let ?ctx = "\<lparr>ctx_authed = '''', ctx_ip = '''', ctx_now = 1700000000 * ns_per_sec\<rparr>"
  have "ParseInt64 (fmt_d 9223372036854775807) = Some 9223372036854775807"
    by (rule ParseInt64_fmt_d) (simp add: in_i64_def)
  then show fut: "MaxCreatedAtFuture (load_limits ?e) = 9223372036854775807"
    by (simp add: load_limits_def env_int_def fmt_d_def)
  show "ev_created_at pow_example \<le> now_unix ?ctx" by (simp add: pow_example_def now_unix_def)
  show "rejected (rejectTimestampOutOfRange (load_limits ?e) ?ctx pow_example)"
    unfolding rejectTimestampOutOfRange_def Let_def fut
    by (simp add: i64_def now_unix_def pow_example_def)
qed

text \<open>An expiration written in decimal by any client is the one that is enforced, whatever
  unparseable expiration tags stand before it: the event is refused exactly when that time is
  positive and has passed.\<close>

theorem expiration_enforced:
  assumes "in_i64 t" and "\<forall>rest v. (''expiration'' # v # rest) \<in> set before \<longrightarrow> ParseInt64 v = None"
    and "ev_tags ev = before @ [''expiration'', fmt_d t] # after"
  shows "rejectExpiredEvents ctx ev = (if 0 < t \<and> t < now_unix ctx then Reject ''invalid: event has expired'' else Accept)"
  using assms
  by (simp add: rejectExpiredEvents_def IsExpired_def GetExpiration_def expiration_scan_skip ParseInt64_fmt_d Let_def)

lemma expiration_enforced_witness:
  "rejectExpiredEvents \<lparr>ctx_authed = '''', ctx_ip = '''', ctx_now = 100 * ns_per_sec\<rparr>
     (pow_example\<lparr>ev_tags := [[''expiration'', ''soon''], [''expiration'', fmt_d 99]]\<rparr>) =
   Reject ''invalid: event has expired''"
  using expiration_enforced [of 99 "[[''expiration'', ''soon'']]"
      "pow_example\<lparr>ev_tags := [[''expiration'', ''soon''], [''expiration'', fmt_d 99]]\<rparr>" "[]"
      "\<lparr>ctx_authed = '''', ctx_ip = '''', ctx_now = 100 * ns_per_sec\<rparr>"]
  by (simp add: in_i64_def now_unix_def ParseInt64_def parse_unsigned_def digit_of_def)

end
