(* ===== verification/Auth_Gate.thy ===== *)
theory Auth_Gate
  imports Relay_Config
begin

text \<open>
  internal/auth/auth.go and \<open>parseAuthConfig\<close> of cmd/relay/main.go: the NIP-42 policies and
  the write decision; internal/protected/protected.go: NIP-70 protected events.
\<close>

section \<open>NIP-42 authentication\<close>

datatype policy = PolicyOpen | PolicyAuthRead | PolicyAuthWrite | PolicyAuthAll

primrec policy_String :: "policy \<Rightarrow> string" where
  "policy_String PolicyOpen = ''open''"
| "policy_String PolicyAuthRead = ''auth-read''"
| "policy_String PolicyAuthWrite = ''auth-write''"
| "policy_String PolicyAuthAll = ''auth-all''"

record auth_config =
  auth_policy :: policy
  auth_whitelist :: "string list"
  auth_exempt :: "int list"

text \<open>An unknown policy name stops the process (\<open>None\<close>).\<close>

definition parseAuthConfig :: "access_config \<Rightarrow> auth_config option" where
  "parseAuthConfig cfg =
     (let mk = (\<lambda>p. Some \<lparr>auth_policy = p, auth_whitelist = WriteWhitelistPubkeys cfg, auth_exempt = AuthExemptKinds cfg\<rparr>) in
      if AuthPolicy cfg = ''auth-read'' then mk PolicyAuthRead
      else if AuthPolicy cfg = ''auth-write'' then mk PolicyAuthWrite
      else if AuthPolicy cfg = ''auth-all'' then mk PolicyAuthAll
      else if AuthPolicy cfg = ''open'' \<or> AuthPolicy cfg = '''' then mk PolicyOpen
      else None)"

definition requireAuthForRead :: "reqctx \<Rightarrow> nfilter \<Rightarrow> verdict" where
  "requireAuthForRead ctx f =
     (if ctx_authed ctx = '''' then Reject ''auth-required: authentication required to read from this relay''
      else Accept)"

definition evaluateWrite :: "int list \<Rightarrow> string list \<Rightarrow> string \<Rightarrow> event \<Rightarrow> verdict" where
  "evaluateWrite exemptKinds whitelist authed ev =
     (if ev_kind ev = 22242 then Accept
      else if ev_kind ev \<in> set exemptKinds then Accept
      else if authed = '''' then Reject ''auth-required: authentication required to publish events''
      else if ev_pubkey ev \<noteq> authed then Reject ''restricted: you can only publish events as your authenticated identity''
      else if whitelist \<noteq> [] \<and> authed \<notin> set whitelist then Reject ''restricted: your pubkey is not on the whitelist''
      else Accept)"

definition requireAuthForWrite :: "auth_config \<Rightarrow> reqctx \<Rightarrow> event \<Rightarrow> verdict" where
  "requireAuthForWrite cfg ctx ev = evaluateWrite (auth_exempt cfg) (auth_whitelist cfg) (ctx_authed ctx) ev"

text \<open>\<open>RegisterAuthHandlers\<close>: what is appended to the filter and the event chain; a nil
  configuration is the open policy.\<close>

definition auth_config_of :: "auth_config option \<Rightarrow> auth_config" where
  "auth_config_of c = (case c of Some cfg \<Rightarrow> cfg
     | None \<Rightarrow> \<lparr>auth_policy = PolicyOpen, auth_whitelist = [], auth_exempt = []\<rparr>)"

definition auth_filter_gates :: "auth_config option \<Rightarrow> reqctx \<Rightarrow> nfilter \<Rightarrow> verdict list" where
  "auth_filter_gates c ctx f =
     (let cfg = auth_config_of c in
      if auth_policy cfg = PolicyAuthRead \<or> auth_policy cfg = PolicyAuthAll then [requireAuthForRead ctx f] else [])"

definition auth_event_gates :: "auth_config option \<Rightarrow> reqctx \<Rightarrow> event \<Rightarrow> verdict list" where
  "auth_event_gates c ctx ev =
     (let cfg = auth_config_of c in
      if auth_policy cfg = PolicyAuthWrite \<or> auth_policy cfg = PolicyAuthAll then [requireAuthForWrite cfg ctx ev] else [])"

definition shortKey :: "string \<Rightarrow> string" where
  "shortKey pk = (if length pk > 16 then take 16 pk else pk)"

lemma evaluateWrite_Accept_iff:
  "evaluateWrite exemptKinds whitelist authed ev = Accept \<longleftrightarrow>
     ev_kind ev = 22242 \<or> ev_kind ev \<in> set exemptKinds \<or>
     (authed \<noteq> '''' \<and> ev_pubkey ev = authed \<and> (whitelist = [] \<or> authed \<in> set whitelist))"
  by (auto simp: evaluateWrite_def)

section \<open>NIP-70 protected events\<close>

record protected_config =
  prot_enabled :: bool
  prot_allow :: bool

definition protected_DefaultConfig :: protected_config where
  "protected_DefaultConfig = \<lparr>prot_enabled = True, prot_allow = True\<rparr>"

definition IsProtected :: "event \<Rightarrow> bool" where
  "IsProtected ev = has_marker (ev_tags ev) ''-''"

definition RejectProtectedEvent :: "protected_config \<Rightarrow> reqctx \<Rightarrow> event \<Rightarrow> verdict" where
  "RejectProtectedEvent cfg ctx ev =
     (if \<not> prot_enabled cfg then Accept
      else if \<not> IsProtected ev then Accept
      else if \<not> prot_allow cfg then Reject ''blocked: this relay does not accept protected events''
      else if ctx_authed ctx = '''' then Reject ''auth-required: authentication required to publish protected events''
      else if ev_pubkey ev \<noteq> ctx_authed ctx then Reject ''blocked: protected events can only be published by their author''
      else Accept)"

section \<open>Properties\<close>

text \<open>C7: The whole write decision of an authenticated policy: apart from AUTH events and the
  exempt kinds, an event passes exactly when its author is the key the connection has proved,
  and is on the write whitelist if there is one. An unauthenticated connection is told so
  before anything else about the event is judged.\<close>

theorem write_decision:
  assumes "parseAuthConfig acc = Some cfg" and "auth_policy cfg = PolicyAuthWrite \<or> auth_policy cfg = PolicyAuthAll"
  shows "(list_all accepted (auth_event_gates (Some cfg) ctx ev) \<longleftrightarrow>
            ev_kind ev = 22242 \<or> ev_kind ev \<in> set (AuthExemptKinds acc) \<or>
            (ctx_authed ctx \<noteq> '''' \<and> ev_pubkey ev = ctx_authed ctx \<and>
             (WriteWhitelistPubkeys acc = [] \<or> ctx_authed ctx \<in> set (WriteWhitelistPubkeys acc)))) \<and>
         (ctx_authed ctx = '''' \<longrightarrow> ev_kind ev \<noteq> 22242 \<longrightarrow> ev_kind ev \<notin> set (AuthExemptKinds acc) \<longrightarrow>
            auth_event_gates (Some cfg) ctx ev = [Reject ''auth-required: authentication required to publish events''])"
proof -
  have lists: "auth_whitelist cfg = WriteWhitelistPubkeys acc" "auth_exempt cfg = AuthExemptKinds acc"
    using assms(1) by (auto simp: parseAuthConfig_def Let_def split: if_splits)
  have gates: "auth_event_gates (Some cfg) ctx ev =
      [evaluateWrite (AuthExemptKinds acc) (WriteWhitelistPubkeys acc) (ctx_authed ctx) ev]"
    using assms(2) by (auto simp: auth_event_gates_def auth_config_of_def requireAuthForWrite_def lists)
  show ?thesis
    unfolding gates by (simp add: evaluateWrite_Accept_iff) (simp add: evaluateWrite_def)
qed

definition write_only :: access_config where
  "write_only = \<lparr>AuthPolicy = ''auth-write'', AllowedPubkeys = [''a''], WriteWhitelistPubkeys = [], AuthExemptKinds = [24133], AdminPubkeys = []\<rparr>"

definition note_by :: "string \<Rightarrow> event" where
  "note_by pk = \<lparr>ev_id = ''id'', ev_pubkey = pk, ev_created_at = 0, ev_kind = 1, ev_tags = [], ev_content = ''''\<rparr>"

lemma write_decision_witness:
  "auth_event_gates (parseAuthConfig write_only) \<lparr>ctx_authed = '''', ctx_ip = '''', ctx_now = 0\<rparr> (note_by ''b'')
     = [Reject ''auth-required: authentication required to publish events'']"
proof -
  have "parseAuthConfig write_only = Some \<lparr>auth_policy = PolicyAuthWrite, auth_whitelist = [], auth_exempt = [24133]\<rparr>"
    by (simp add: parseAuthConfig_def write_only_def)
  from write_decision [OF this, of "\<lparr>ctx_authed = '''', ctx_ip = '''', ctx_now = 0\<rparr>" "note_by ''b''"]
  show ?thesis by (simp add: parseAuthConfig_def write_only_def note_by_def)
qed

text \<open>A protected event gets past the NIP-70 gate exactly when the gate is off, or the relay
  takes protected events and the connection is authenticated as the event's author.\<close>

theorem protected_only_by_author:
  "RejectProtectedEvent cfg ctx ev = Accept \<longleftrightarrow>
     (if \<exists>rest. (''-'' # rest) \<in> set (ev_tags ev)
      then \<not> prot_enabled cfg \<or> (prot_allow cfg \<and> ctx_authed ctx \<noteq> '''' \<and> ev_pubkey ev = ctx_authed ctx)
      else True)"
  by (simp add: RejectProtectedEvent_def IsProtected_def has_marker_iff)

end
