(* ===== verification/Tombstones.thy ===== *)
theory Tombstones
  imports Nostr_Data
begin

text \<open>
  internal/storage/tombstone.go: the table of deleted event ids and the gate that refuses a
  republished copy. The table is a map from ids to kind and deletion time. What the database
  and the request context do while the gate runs is an argument: for each of the two
  attempts whether it got a semaphore slot, whether it was abandoned at the deadline, or which
  error the driver returned.
\<close>

section \<open>The table\<close>

type_synonym tombstones = "string \<Rightarrow> (int \<times> int) option"

text \<open>An error is the chain of its wrapped causes, which \<open>errors.Is\<close> and \<open>errors.As\<close> search.\<close>

datatype db_error =
    ErrBadConn
  | EOF
  | ErrUnexpectedEOF
  | NetOpError
  | PqError string
  | Canceled
  | DeadlineExceeded
  | OtherError string

type_synonym error_chain = "db_error list"

definition RecordTombstone :: "error_chain option \<Rightarrow> string \<Rightarrow> int \<Rightarrow> int \<Rightarrow> tombstones \<Rightarrow> error_chain option \<times> tombstones" where
  "RecordTombstone fault eid kind now tbl =
     (case fault of
        Some err \<Rightarrow> (Some (OtherError ''record tombstone'' # err), tbl)
      | None \<Rightarrow> (None, (case tbl eid of Some _ \<Rightarrow> tbl | None \<Rightarrow> tbl(eid \<mapsto> (kind, now)))))"

definition IsTombstoned :: "error_chain option \<Rightarrow> string \<Rightarrow> tombstones \<Rightarrow> error_chain + bool" where
  "IsTombstoned fault eid tbl =
     (case fault of
        Some err \<Rightarrow> Inl (OtherError ''tombstone lookup'' # err)
      | None \<Rightarrow> Inr (tbl eid \<noteq> None))"

section \<open>Classifying failures\<close>

definition connErrorSQLSTATEs :: "string list" where
  "connErrorSQLSTATEs = [''57P01'', ''57P02'', ''57P03'']"

fun pq_conn_error :: "error_chain \<Rightarrow> bool" where
  "pq_conn_error [] = False"
| "pq_conn_error (PqError code # _) = (take 2 code = ''08'' \<or> code \<in> set connErrorSQLSTATEs)"
| "pq_conn_error (_ # es) = pq_conn_error es"

definition isConnError :: "error_chain \<Rightarrow> bool" where
  "isConnError err =
     (if ErrBadConn \<in> set err then True
      else if EOF \<in> set err \<or> ErrUnexpectedEOF \<in> set err then True
      else if NetOpError \<in> set err then True
      else pq_conn_error err)"

fun first_pq_code :: "error_chain \<Rightarrow> string option" where
  "first_pq_code [] = None"
| "first_pq_code (PqError code # _) = Some code"
| "first_pq_code (_ # es) = first_pq_code es"

text \<open>\<open>parent\<close> is what \<open>ctx.Err()\<close> of the request context returns at that moment.\<close>

datatype ctx_err = CtxCanceled | CtxDeadline

definition classifyTombstoneError :: "ctx_err option \<Rightarrow> error_chain \<Rightarrow> string" where
  "classifyTombstoneError parent err =
     (if parent = Some CtxCanceled then ''client_gone''
      else if DeadlineExceeded \<in> set err then ''timeout''
      else if first_pq_code err = Some ''57014'' then ''timeout''
      else if isConnError err then ''conn_error''
      else ''other'')"

section \<open>Lookups with a deadline\<close>

primrec ctx_err_value :: "ctx_err \<Rightarrow> db_error" where
  "ctx_err_value CtxCanceled = Canceled"
| "ctx_err_value CtxDeadline = DeadlineExceeded"

datatype attempt =
    NoSlot ctx_err
  | Abandoned ctx_err
  | Ran "error_chain option"

definition lookupWithDeadline :: "attempt \<Rightarrow> string \<Rightarrow> tombstones \<Rightarrow> error_chain + bool" where
  "lookupWithDeadline att eid tbl =
     (case att of
        NoSlot e \<Rightarrow> Inl [ctx_err_value e]
      | Abandoned e \<Rightarrow> Inl [ctx_err_value e]
      | Ran fault \<Rightarrow> IsTombstoned fault eid tbl)"

text \<open>
  One run of the gate: the two attempts, and the request context as it is read after the first
  attempt (twice) and after the second.
\<close>

record lookup_env =
  first_try :: attempt
  parent_first :: "ctx_err option"
  parent_retry :: "ctx_err option"
  second_try :: attempt
  parent_second :: "ctx_err option"

definition refusal :: "string \<Rightarrow> verdict" where
  "refusal cause = Reject (''error: could not check deletion status ('' @ cause @ ''), refusing'')"

definition deleted_verdict :: "bool \<Rightarrow> verdict" where
  "deleted_verdict deleted =
     (if deleted then Reject ''blocked: this event was deleted from this relay'' else Accept)"

text \<open>The verdict and how many lookups were started.\<close>

definition RejectRepublishedDeletion :: "lookup_env \<Rightarrow> string \<Rightarrow> tombstones \<Rightarrow> verdict \<times> nat" where
  "RejectRepublishedDeletion env eid tbl =
     (case lookupWithDeadline (first_try env) eid tbl of
        Inr deleted \<Rightarrow> (deleted_verdict deleted, 1)
      | Inl err \<Rightarrow>
          let cause = classifyTombstoneError (parent_first env) err in
          if cause = ''client_gone'' then (Reject ''client-gone: deletion check interrupted by client disconnect'', 1)
          else if parent_retry env = None \<and> (cause = ''conn_error'' \<or> cause = ''timeout'') then
            (case lookupWithDeadline (second_try env) eid tbl of
               Inr deleted \<Rightarrow> (deleted_verdict deleted, 2)
             | Inl err' \<Rightarrow> (refusal (classifyTombstoneError (parent_second env) err'), 2))
          else (refusal cause, 1))"

definition RejectRepublishedDeletionEvent :: "nostr_lib \<Rightarrow> lookup_env \<Rightarrow> tombstones \<Rightarrow> event \<Rightarrow> verdict \<times> nat" where
  "RejectRepublishedDeletionEvent lib env tbl ev =
     (if IsEphemeralKind lib (ev_kind ev) then (Accept, 0)
      else RejectRepublishedDeletion env (ev_id ev) tbl)"

section \<open>Facts\<close>

lemma lookup_Inr_iff: "lookupWithDeadline att eid tbl = Inr d \<longleftrightarrow> att = Ran None \<and> d = (tbl eid \<noteq> None)"
  by (auto simp: lookupWithDeadline_def IsTombstoned_def split: attempt.splits option.splits)

lemma lookup_Inr_answer: "lookupWithDeadline att eid tbl = Inr d \<Longrightarrow> d = (tbl eid \<noteq> None)"
  by (simp add: lookup_Inr_iff)

lemma refusal_not_Accept [simp]: "refusal c \<noteq> Accept"
  by (simp add: refusal_def)

lemma deleted_verdict_Accept [simp]: "deleted_verdict d = Accept \<longleftrightarrow> \<not> d"
  by (simp add: deleted_verdict_def)

definition retryable :: "lookup_env \<Rightarrow> error_chain \<Rightarrow> bool" where
  "retryable env err \<longleftrightarrow> parent_retry env = None \<and> parent_first env \<noteq> Some CtxCanceled \<and>
     (DeadlineExceeded \<in> set err \<or> first_pq_code err = Some ''57014'' \<or> isConnError err)"

lemma retryable_cause:
  "retryable env err \<longleftrightarrow> (let cause = classifyTombstoneError (parent_first env) err in
     cause \<noteq> ''client_gone'' \<and> parent_retry env = None \<and> (cause = ''conn_error'' \<or> cause = ''timeout''))"
  by (auto simp: retryable_def classifyTombstoneError_def Let_def)

definition clean_answer :: "lookup_env \<Rightarrow> string \<Rightarrow> tombstones \<Rightarrow> bool" where
  "clean_answer env eid tbl \<longleftrightarrow>
     (case lookupWithDeadline (first_try env) eid tbl of
        Inr _ \<Rightarrow> True | Inl err \<Rightarrow> retryable env err \<and> second_try env = Ran None)"

lemma Republished_Accept_iff:
  "fst (RejectRepublishedDeletion env eid tbl) = Accept \<longleftrightarrow> clean_answer env eid tbl \<and> tbl eid = None"
proof (cases "lookupWithDeadline (first_try env) eid tbl")
  case (Inr d)
  then have "d = (tbl eid \<noteq> None)" by (rule lookup_Inr_answer)
  with Inr show ?thesis
    by (cases "tbl eid") (simp_all add: RejectRepublishedDeletion_def clean_answer_def)
next
  case (Inl err)
  show ?thesis
  proof (cases "retryable env err")
    case False
    with Inl show ?thesis
      by (auto simp: RejectRepublishedDeletion_def clean_answer_def retryable_cause Let_def)
  next
    case True
    then have "RejectRepublishedDeletion env eid tbl = (case lookupWithDeadline (second_try env) eid tbl of
        Inr deleted \<Rightarrow> (deleted_verdict deleted, 2)
      | Inl err' \<Rightarrow> (refusal (classifyTombstoneError (parent_second env) err'), 2))"
      using Inl by (auto simp: RejectRepublishedDeletion_def retryable_cause Let_def)
    moreover have "second_try env \<noteq> Ran None \<Longrightarrow> \<exists>e. lookupWithDeadline (second_try env) eid tbl = Inl e"
      using lookup_Inr_iff [of "second_try env" eid tbl]
      by (cases "lookupWithDeadline (second_try env) eid tbl") auto
    ultimately show ?thesis
      using True Inl lookup_Inr_iff [of "second_try env" eid tbl "tbl eid \<noteq> None"]
      by (cases "second_try env = Ran None"; cases "tbl eid") (auto simp: clean_answer_def)
  qed
qed

text \<open>Recording never forgets: entries only appear.\<close>

lemma RecordTombstone_keeps: "tbl i \<noteq> None \<Longrightarrow> snd (RecordTombstone f eid k n tbl) i = tbl i"
  by (auto simp: RecordTombstone_def split: option.splits)

lemma RecordTombstone_records: "fst (RecordTombstone f eid k n tbl) = None \<Longrightarrow> snd (RecordTombstone f eid k n tbl) eid \<noteq> None"
  by (auto simp: RecordTombstone_def split: option.splits)

text \<open>Any number of deletions, each with its own database fault.\<close>

record deletion =
  del_fault :: "error_chain option"
  del_id :: string
  del_kind :: int
  del_at :: int

definition record_all :: "deletion list \<Rightarrow> tombstones \<Rightarrow> tombstones" where
  "record_all ds tbl = fold (\<lambda>d t. snd (RecordTombstone (del_fault d) (del_id d) (del_kind d) (del_at d) t)) ds tbl"

lemma record_all_keeps: "tbl i \<noteq> None \<Longrightarrow> record_all ds tbl i = tbl i"
proof (induction ds arbitrary: tbl)
  case (Cons d ds)
  then show ?case
    using RecordTombstone_keeps [of tbl i "del_fault d" "del_id d" "del_kind d" "del_at d"]
    by (simp add: record_all_def)
qed (simp add: record_all_def)

section \<open>Properties\<close>

text \<open>C4: The deletion gate is fail-closed: it accepts a storable event exactly when one of its
  at most two lookups was answered by the database without an error and the id is not
  tombstoned. The second lookup happens only after a connection error or a timeout, with the
  client still there.\<close>

theorem deletion_gate_fail_closed:
  "fst (RejectRepublishedDeletionEvent lib env tbl ev) = Accept \<longleftrightarrow>
     (if IsEphemeralKind lib (ev_kind ev) then True
      else tbl (ev_id ev) = None \<and>
        (case lookupWithDeadline (first_try env) (ev_id ev) tbl of
           Inr _ \<Rightarrow> True
         | Inl err \<Rightarrow> second_try env = Ran None \<and> parent_first env \<noteq> Some CtxCanceled \<and> parent_retry env = None \<and>
             (DeadlineExceeded \<in> set err \<or> first_pq_code err = Some ''57014'' \<or> isConnError err)))"
  by (auto simp: RejectRepublishedDeletionEvent_def Republished_Accept_iff clean_answer_def retryable_def
      split: sum.split)

text \<open>C5: A deletion that was recorded stays effective: after it, whatever else is deleted later
  and whatever the database does while the gate runs, the id never passes again.\<close>

theorem deleted_never_readmitted:
  assumes "RecordTombstone None (ev_id ev) k now tbl = (None, tbl1)" and "\<not> IsEphemeralKind lib (ev_kind ev)"
  shows "rejected (fst (RejectRepublishedDeletionEvent lib env (record_all ds tbl1) ev))"
proof -
  have "tbl1 (ev_id ev) \<noteq> None"
    using RecordTombstone_records [of None "ev_id ev" k now tbl] assms(1) by simp
  then have "record_all ds tbl1 (ev_id ev) \<noteq> None"
    by (metis record_all_keeps)
  then show ?thesis
    using assms(2) by (simp add: rejected_iff RejectRepublishedDeletionEvent_def Republished_Accept_iff)
qed

definition quiet_env :: lookup_env where
  "quiet_env = \<lparr>first_try = Ran None, parent_first = None, parent_retry = None, second_try = Ran None, parent_second = None\<rparr>"

definition plain_lib :: nostr_lib where
  "plain_lib = \<lparr>CheckSignature = (\<lambda>_. Some True), GetID = ev_id, IsEphemeralKind = (\<lambda>k. 20000 \<le> k \<and> k < 30000),
     RejectEventsWithBase64Media = (\<lambda>_. Accept), NoComplexFilters = (\<lambda>_. Accept)\<rparr>"

definition deleted_note :: event where
  "deleted_note = \<lparr>ev_id = ''dead'', ev_pubkey = ''a'', ev_created_at = 0, ev_kind = 1, ev_tags = [], ev_content = ''''\<rparr>"

lemma deleted_never_readmitted_witness:
  "rejected (fst (RejectRepublishedDeletionEvent plain_lib quiet_env
     (record_all [] (snd (RecordTombstone None ''dead'' 1 5 Map.empty))) deleted_note))"
  using deleted_never_readmitted [of deleted_note 1 5 Map.empty "[''dead'' \<mapsto> (1, 5)]" plain_lib quiet_env "[]"]
  by (simp add: RecordTombstone_def deleted_note_def plain_lib_def)

end
