(* ===== verification/Access_Control.thy ===== *)
theory Access_Control
  imports Validation Auth_Gate
begin

text \<open>
  internal/management: the NIP-86 lists (store.go), their in-memory snapshot
  (access_cache.go), the ban handlers (handler.go), the method dispatch (methods.go) and the
  NIP-98 check of an admin request (nip98.go).

  The database is shared by every process of the relay; each process holds a snapshot. An
  operation takes the fault of its statement; a reload takes the fault of its four queries.
  A reload is taken to read one state of the database: the four lists are independent of one
  another, and no handler compares two of them.
\<close>

section \<open>State\<close>

datatype mod_status = Pending | Approved | Rejected_status

record mgmt_db =
  banned_pubkeys :: "string \<Rightarrow> string option"
  allowed_pubkeys :: "string set"
  banned_events :: "string \<Rightarrow> string option"
  moderation_queue :: "string \<Rightarrow> (string \<times> mod_status) option"
  allowed_kinds :: "int set"
  blocked_ips :: "string \<Rightarrow> string option"
  relay_settings :: "string \<Rightarrow> string option"
  exempt_pubkeys :: "string \<Rightarrow> string option"

definition empty_mgmt_db :: mgmt_db where
  "empty_mgmt_db = \<lparr>banned_pubkeys = Map.empty, allowed_pubkeys = {}, banned_events = Map.empty,
     moderation_queue = Map.empty, allowed_kinds = {}, blocked_ips = Map.empty,
     relay_settings = Map.empty, exempt_pubkeys = Map.empty\<rparr>"

record accessSets =
  snap_bannedPubkeys :: "string set"
  snap_bannedEvents :: "string set"
  snap_exemptPubkeys :: "string set"
  snap_allowedKinds :: "int set"

definition emptyAccess :: accessSets where
  "emptyAccess = \<lparr>snap_bannedPubkeys = {}, snap_bannedEvents = {}, snap_exemptPubkeys = {}, snap_allowedKinds = {}\<rparr>"

text \<open>The database and this process's \<open>accessSnap\<close>, nil before the first load.\<close>

record mgmt_store =
  st_db :: mgmt_db
  st_snap :: "accessSets option"

definition access :: "mgmt_store \<Rightarrow> accessSets" where
  "access s = (case st_snap s of Some a \<Rightarrow> a | None \<Rightarrow> emptyAccess)"

section \<open>Reloading\<close>

text \<open>Which of the four queries fail.\<close>

record load_faults =
  fail_pubkeys :: bool
  fail_events :: bool
  fail_exempt :: bool
  fail_kinds :: bool

definition no_faults :: load_faults where
  "no_faults = \<lparr>fail_pubkeys = False, fail_events = False, fail_exempt = False, fail_kinds = False\<rparr>"

definition loaded :: "mgmt_db \<Rightarrow> accessSets" where
  "loaded db = \<lparr>snap_bannedPubkeys = dom (banned_pubkeys db), snap_bannedEvents = dom (banned_events db),
     snap_exemptPubkeys = dom (exempt_pubkeys db), snap_allowedKinds = allowed_kinds db\<rparr>"

definition RefreshAccess :: "load_faults \<Rightarrow> mgmt_store \<Rightarrow> string option \<times> mgmt_store" where
  "RefreshAccess flt s =
     (if fail_pubkeys flt then (Some ''load banned pubkeys'', s)
      else if fail_events flt then (Some ''load banned events'', s)
      else if fail_exempt flt then (Some ''load rate-limit exemptions'', s)
      else if fail_kinds flt then (Some ''load allowed kinds'', s)
      else (None, s\<lparr>st_snap := Some (loaded (st_db s))\<rparr>))"

text \<open>\<open>afterWrite\<close>: reload after a write that succeeded; the reload's error is logged, not
  returned.\<close>

definition afterWrite :: "bool \<Rightarrow> load_faults \<Rightarrow> mgmt_store \<Rightarrow> bool \<times> mgmt_store" where
  "afterWrite write_ok flt s = (if \<not> write_ok then (False, s) else (True, snd (RefreshAccess flt s)))"

section \<open>Operations of the store\<close>

text \<open>Each returns whether the statement succeeded; a failed one changes nothing.\<close>

definition db_write :: "bool \<Rightarrow> (mgmt_db \<Rightarrow> mgmt_db) \<Rightarrow> mgmt_store \<Rightarrow> mgmt_store" where
  "db_write ok f s = (if ok then s\<lparr>st_db := f (st_db s)\<rparr> else s)"

definition BanPubkey :: "bool \<Rightarrow> load_faults \<Rightarrow> string \<Rightarrow> string \<Rightarrow> mgmt_store \<Rightarrow> bool \<times> mgmt_store" where
  "BanPubkey ok flt pk reason s =
     afterWrite ok flt (db_write ok (\<lambda>db. db\<lparr>banned_pubkeys := (banned_pubkeys db)(pk \<mapsto> reason)\<rparr>) s)"

definition UnbanPubkey :: "bool \<Rightarrow> load_faults \<Rightarrow> string \<Rightarrow> mgmt_store \<Rightarrow> bool \<times> mgmt_store" where
  "UnbanPubkey ok flt pk s =
     afterWrite ok flt (db_write ok (\<lambda>db. db\<lparr>banned_pubkeys := (banned_pubkeys db)(pk := None)\<rparr>) s)"

definition IsPubkeyBanned :: "mgmt_store \<Rightarrow> string \<Rightarrow> bool" where
  "IsPubkeyBanned s pk \<longleftrightarrow> pk \<in> snap_bannedPubkeys (access s)"

definition AllowPubkey :: "bool \<Rightarrow> string \<Rightarrow> mgmt_store \<Rightarrow> bool \<times> mgmt_store" where
  "AllowPubkey ok pk s = (ok, db_write ok (\<lambda>db. db\<lparr>allowed_pubkeys := insert pk (allowed_pubkeys db)\<rparr>) s)"

definition RemoveAllowedPubkey :: "bool \<Rightarrow> string \<Rightarrow> mgmt_store \<Rightarrow> bool \<times> mgmt_store" where
  "RemoveAllowedPubkey ok pk s = (ok, db_write ok (\<lambda>db. db\<lparr>allowed_pubkeys := allowed_pubkeys db - {pk}\<rparr>) s)"

definition IsPubkeyAllowed :: "bool \<Rightarrow> mgmt_store \<Rightarrow> string \<Rightarrow> bool" where
  "IsPubkeyAllowed ok s pk \<longleftrightarrow> ok \<and> pk \<in> allowed_pubkeys (st_db s)"

definition BanEvent :: "bool \<Rightarrow> load_faults \<Rightarrow> string \<Rightarrow> string \<Rightarrow> mgmt_store \<Rightarrow> bool \<times> mgmt_store" where
  "BanEvent ok flt eid reason s =
     afterWrite ok flt (db_write ok (\<lambda>db. db\<lparr>banned_events := (banned_events db)(eid \<mapsto> reason)\<rparr>) s)"

definition UnbanEvent :: "bool \<Rightarrow> load_faults \<Rightarrow> string \<Rightarrow> mgmt_store \<Rightarrow> bool \<times> mgmt_store" where
  "UnbanEvent ok flt eid s =
     afterWrite ok flt (db_write ok (\<lambda>db. db\<lparr>banned_events := (banned_events db)(eid := None)\<rparr>) s)"

definition IsEventBanned :: "mgmt_store \<Rightarrow> string \<Rightarrow> bool" where
  "IsEventBanned s eid \<longleftrightarrow> eid \<in> snap_bannedEvents (access s)"

definition AddToModerationQueue :: "bool \<Rightarrow> string \<Rightarrow> string \<Rightarrow> mgmt_store \<Rightarrow> bool \<times> mgmt_store" where
  "AddToModerationQueue ok eid json s = (ok, db_write ok
     (\<lambda>db. case moderation_queue db eid of Some _ \<Rightarrow> db
           | None \<Rightarrow> db\<lparr>moderation_queue := (moderation_queue db)(eid \<mapsto> (json, Pending))\<rparr>) s)"

text \<open>An update that touches no row is an error as well.\<close>

definition UpdateModerationStatus :: "bool \<Rightarrow> string \<Rightarrow> mod_status \<Rightarrow> mgmt_store \<Rightarrow> bool \<times> mgmt_store" where
  "UpdateModerationStatus ok eid status s =
     (if \<not> ok then (False, s)
      else case moderation_queue (st_db s) eid of
        None \<Rightarrow> (False, s)
      | Some (json, _) \<Rightarrow> (True, db_write True
          (\<lambda>db. db\<lparr>moderation_queue := (moderation_queue db)(eid \<mapsto> (json, status))\<rparr>) s))"

definition AllowKind :: "bool \<Rightarrow> load_faults \<Rightarrow> int \<Rightarrow> mgmt_store \<Rightarrow> bool \<times> mgmt_store" where
  "AllowKind ok flt k s = afterWrite ok flt (db_write ok (\<lambda>db. db\<lparr>allowed_kinds := insert k (allowed_kinds db)\<rparr>) s)"

definition DisallowKind :: "bool \<Rightarrow> load_faults \<Rightarrow> int \<Rightarrow> mgmt_store \<Rightarrow> bool \<times> mgmt_store" where
  "DisallowKind ok flt k s = afterWrite ok flt (db_write ok (\<lambda>db. db\<lparr>allowed_kinds := allowed_kinds db - {k}\<rparr>) s)"

definition IsKindAllowed :: "mgmt_store \<Rightarrow> int \<Rightarrow> bool" where
  "IsKindAllowed s k \<longleftrightarrow> (let allowed = snap_allowedKinds (access s) in if allowed = {} then True else k \<in> allowed)"

definition BlockIP :: "bool \<Rightarrow> string \<Rightarrow> string \<Rightarrow> mgmt_store \<Rightarrow> bool \<times> mgmt_store" where
  "BlockIP ok ip reason s = (ok, db_write ok (\<lambda>db. db\<lparr>blocked_ips := (blocked_ips db)(ip \<mapsto> reason)\<rparr>) s)"

definition UnblockIP :: "bool \<Rightarrow> string \<Rightarrow> mgmt_store \<Rightarrow> bool \<times> mgmt_store" where
  "UnblockIP ok ip s = (ok, db_write ok (\<lambda>db. db\<lparr>blocked_ips := (blocked_ips db)(ip := None)\<rparr>) s)"

definition IsIPBlocked :: "bool \<Rightarrow> mgmt_store \<Rightarrow> string \<Rightarrow> bool" where
  "IsIPBlocked ok s ip \<longleftrightarrow> ok \<and> blocked_ips (st_db s) ip \<noteq> None"

text \<open>\<open>None\<close> is an error other than a missing row.\<close>

definition GetSetting :: "bool \<Rightarrow> string \<Rightarrow> mgmt_store \<Rightarrow> string option" where
  "GetSetting ok key s = (if \<not> ok then None else Some (case relay_settings (st_db s) key of Some v \<Rightarrow> v | None \<Rightarrow> ''''))"

definition SetSetting :: "bool \<Rightarrow> string \<Rightarrow> string \<Rightarrow> mgmt_store \<Rightarrow> bool \<times> mgmt_store" where
  "SetSetting ok key v s = (ok, db_write ok (\<lambda>db. db\<lparr>relay_settings := (relay_settings db)(key \<mapsto> v)\<rparr>) s)"

definition ExemptPubkeyFromRateLimit :: "bool \<Rightarrow> load_faults \<Rightarrow> string \<Rightarrow> string \<Rightarrow> mgmt_store \<Rightarrow> bool \<times> mgmt_store" where
  "ExemptPubkeyFromRateLimit ok flt pk reason s =
     afterWrite ok flt (db_write ok (\<lambda>db. db\<lparr>exempt_pubkeys := (exempt_pubkeys db)(pk \<mapsto> reason)\<rparr>) s)"

definition RemoveRateLimitExemption :: "bool \<Rightarrow> load_faults \<Rightarrow> string \<Rightarrow> mgmt_store \<Rightarrow> bool \<times> mgmt_store" where
  "RemoveRateLimitExemption ok flt pk s =
     afterWrite ok flt (db_write ok (\<lambda>db. db\<lparr>exempt_pubkeys := (exempt_pubkeys db)(pk := None)\<rparr>) s)"

definition IsRateLimitExempt :: "mgmt_store \<Rightarrow> string \<Rightarrow> bool" where
  "IsRateLimitExempt s pk \<longleftrightarrow> pk \<in> snap_exemptPubkeys (access s)"

lemmas store_write_defs = BanPubkey_def UnbanPubkey_def BanEvent_def UnbanEvent_def AllowKind_def
  DisallowKind_def ExemptPubkeyFromRateLimit_def RemoveRateLimitExemption_def AllowPubkey_def
  RemoveAllowedPubkey_def AddToModerationQueue_def BlockIP_def UnblockIP_def SetSetting_def

section \<open>The ban handlers\<close>

definition ban_gates :: "mgmt_store \<Rightarrow> event \<Rightarrow> verdict list" where
  "ban_gates s ev =
     [if IsPubkeyBanned s (ev_pubkey ev) then Reject ''blocked: pubkey banned'' else Accept,
      if IsEventBanned s (ev_id ev) then Reject ''blocked: event banned'' else Accept,
      if \<not> IsKindAllowed s (ev_kind ev) then Reject ''blocked: event kind not allowed'' else Accept]"

section \<open>Management methods\<close>

text \<open>
  A JSON-RPC parameter is raw text; \<open>encoding/json\<close> reads it as a string or an integer.
\<close>

record json_lib =
  as_string :: "string \<Rightarrow> string option"
  as_int :: "string \<Rightarrow> int option"

datatype rpc_error = MissingParam string | InvalidParam string | StoreFailed string | UnsupportedMethod string

datatype store_call =
    CSupportedMethods
  | CBanPubkey string string
  | CUnbanPubkey string
  | CAllowPubkey string
  | CAllowEvent string
  | CBanEvent string string
  | CUnbanEvent string
  | CChangeSetting string string
  | CAllowKind int
  | CDisallowKind int
  | CBlockIP string string
  | CUnblockIP string
  | CExempt string string
  | CRemoveExempt string
  | CList string int int

definition string_param :: "json_lib \<Rightarrow> string \<Rightarrow> string list \<Rightarrow> (string \<Rightarrow> store_call) \<Rightarrow> rpc_error + store_call" where
  "string_param lib name params k =
     (case params of
        [] \<Rightarrow> Inl (MissingParam name)
      | p # _ \<Rightarrow> case as_string lib p of None \<Rightarrow> Inl (InvalidParam name) | Some v \<Rightarrow> Inr (k v))"

definition int_param :: "json_lib \<Rightarrow> string \<Rightarrow> string list \<Rightarrow> (int \<Rightarrow> store_call) \<Rightarrow> rpc_error + store_call" where
  "int_param lib name params k =
     (case params of
        [] \<Rightarrow> Inl (MissingParam name)
      | p # _ \<Rightarrow> case as_int lib p of None \<Rightarrow> Inl (InvalidParam name) | Some v \<Rightarrow> Inr (k v))"

text \<open>The optional second parameter, kept empty when it does not parse.\<close>

definition reason_param :: "json_lib \<Rightarrow> string list \<Rightarrow> string" where
  "reason_param lib params =
     (case params of _ # p # _ \<Rightarrow> (case as_string lib p of Some r \<Rightarrow> r | None \<Rightarrow> '''') | _ \<Rightarrow> '''')"

definition parseListParams :: "json_lib \<Rightarrow> string list \<Rightarrow> int \<times> int" where
  "parseListParams lib params =
     (case params of
        [] \<Rightarrow> (100, 0)
      | p # ps \<Rightarrow> (case as_int lib p of Some v \<Rightarrow> v | None \<Rightarrow> 100,
                   case ps of [] \<Rightarrow> 0 | q # _ \<Rightarrow> (case as_int lib q of Some v \<Rightarrow> v | None \<Rightarrow> 0)))"

definition list_call :: "json_lib \<Rightarrow> string \<Rightarrow> string list \<Rightarrow> rpc_error + store_call" where
  "list_call lib what params = (case parseListParams lib params of (l, n) \<Rightarrow> Inr (CList what l n))"

definition parse_call :: "json_lib \<Rightarrow> string \<Rightarrow> string list \<Rightarrow> rpc_error + store_call" where
  "parse_call lib m params =
     (if m = ''supportedmethods'' then Inr CSupportedMethods
      else if m = ''banpubkey'' then string_param lib ''pubkey'' params (\<lambda>v. CBanPubkey v (reason_param lib params))
      else if m = ''unbanpubkey'' then string_param lib ''pubkey'' params CUnbanPubkey
      else if m = ''listbannedpubkeys'' then list_call lib ''banned pubkeys'' params
      else if m = ''allowpubkey'' then string_param lib ''pubkey'' params CAllowPubkey
      else if m = ''listallowedpubkeys'' then list_call lib ''allowed pubkeys'' params
      else if m = ''listeventsneedingmoderation'' then list_call lib ''moderation queue'' params
      else if m = ''allowevent'' then string_param lib ''event_id'' params CAllowEvent
      else if m = ''banevent'' then string_param lib ''event_id'' params (\<lambda>v. CBanEvent v (reason_param lib params))
      else if m = ''unbanevent'' then string_param lib ''event_id'' params CUnbanEvent
      else if m = ''listbannedevents'' then list_call lib ''banned events'' params
      else if m = ''changerelayname'' then string_param lib ''value'' params (CChangeSetting ''relay_name'')
      else if m = ''changerelaydescription'' then string_param lib ''value'' params (CChangeSetting ''relay_description'')
      else if m = ''changerelayicon'' then string_param lib ''value'' params (CChangeSetting ''relay_icon'')
      else if m = ''allowkind'' then int_param lib ''kind'' params CAllowKind
      else if m = ''disallowkind'' then int_param lib ''kind'' params CDisallowKind
      else if m = ''listallowedkinds'' then Inr (CList ''allowed kinds'' 0 0)
      else if m = ''blockip'' then string_param lib ''ip'' params (\<lambda>v. CBlockIP v (reason_param lib params))
      else if m = ''unblockip'' then string_param lib ''ip'' params CUnblockIP
      else if m = ''listblockedips'' then list_call lib ''blocked ips'' params
      else if m = ''exemptpubkeyfromratelimit'' then string_param lib ''pubkey'' params (\<lambda>v. CExempt v (reason_param lib params))
      else if m = ''removeexemptpubkey'' then string_param lib ''pubkey'' params CRemoveExempt
      else if m = ''listratelimitexemptions'' then list_call lib ''rate limit exemptions'' params
      else Inl (UnsupportedMethod m))"

record call_faults =
  stmt_ok :: bool
  reload_faults :: load_faults
  second_ok :: bool

text \<open>Carrying a call out; the boolean is "no error".\<close>

fun exec_call :: "call_faults \<Rightarrow> store_call \<Rightarrow> mgmt_store \<Rightarrow> bool \<times> mgmt_store" where
  "exec_call f CSupportedMethods s = (True, s)"
| "exec_call f (CBanPubkey pk r) s = BanPubkey (stmt_ok f) (reload_faults f) pk r s"
| "exec_call f (CUnbanPubkey pk) s = UnbanPubkey (stmt_ok f) (reload_faults f) pk s"
| "exec_call f (CAllowPubkey pk) s = AllowPubkey (stmt_ok f) pk s"
| "exec_call f (CAllowEvent e) s = UpdateModerationStatus (stmt_ok f) e Approved s"
| "exec_call f (CBanEvent e r) s =
     (case BanEvent (stmt_ok f) (reload_faults f) e r s of
        (False, s') \<Rightarrow> (False, s')
      | (True, s') \<Rightarrow> (True, snd (UpdateModerationStatus (second_ok f) e Rejected_status s')))"
| "exec_call f (CUnbanEvent e) s = UnbanEvent (stmt_ok f) (reload_faults f) e s"
| "exec_call f (CChangeSetting k v) s = SetSetting (stmt_ok f) k v s"
| "exec_call f (CAllowKind k) s = AllowKind (stmt_ok f) (reload_faults f) k s"
| "exec_call f (CDisallowKind k) s = DisallowKind (stmt_ok f) (reload_faults f) k s"
| "exec_call f (CBlockIP ip r) s = BlockIP (stmt_ok f) ip r s"
| "exec_call f (CUnblockIP ip) s = UnblockIP (stmt_ok f) ip s"
| "exec_call f (CExempt pk r) s = ExemptPubkeyFromRateLimit (stmt_ok f) (reload_faults f) pk r s"
| "exec_call f (CRemoveExempt pk) s = RemoveRateLimitExemption (stmt_ok f) (reload_faults f) pk s"
| "exec_call f (CList what l n) s = (stmt_ok f, s)"

definition Dispatch :: "json_lib \<Rightarrow> call_faults \<Rightarrow> string \<Rightarrow> string list \<Rightarrow> mgmt_store \<Rightarrow> (rpc_error + store_call) \<times> mgmt_store" where
  "Dispatch lib f m params s =
     (case parse_call lib m params of
        Inl e \<Rightarrow> (Inl e, s)
      | Inr c \<Rightarrow> (case exec_call f c s of (ok, s') \<Rightarrow> (if ok then Inr c else Inl (StoreFailed m), s')))"

section \<open>NIP-98 authentication of an admin request\<close>

record http_request =
  rq_method :: string
  rq_auth :: string
  rq_content_type :: string
  rq_tls :: bool
  rq_fwd_proto :: string
  rq_fwd_host :: string
  rq_host :: string
  rq_path :: string

datatype nip98_error = ErrMissingAuth | ErrInvalidAuth | ErrInvalidEvent | ErrExpiredAuth | ErrInvalidURL
  | ErrInvalidMethod | ErrInvalidSig | ErrNotAdmin

text \<open>
  Library functions: base64 and JSON decoding, \<open>Tags.Find\<close> of go-nostr, and
  \<open>strings.ToUpper\<close>.
\<close>

record nip98_lib =
  base64_decode :: "string \<Rightarrow> string option"
  event_of_json :: "string \<Rightarrow> event option"
  Tags_Find :: "tag list \<Rightarrow> string \<Rightarrow> tag"
  ToUpper :: "string \<Rightarrow> string"

definition getRequestURL :: "http_request \<Rightarrow> string" where
  "getRequestURL r =
     (let scheme = (if rq_tls r then ''https'' else ''http'');
          scheme = (if rq_fwd_proto r \<noteq> '''' then rq_fwd_proto r else scheme);
          host = (if rq_fwd_host r \<noteq> '''' then rq_fwd_host r else rq_host r)
      in scheme @ ''://'' @ host @ rq_path r)"

definition ValidateNIP98Auth :: "nostr_lib \<Rightarrow> nip98_lib \<Rightarrow> int \<Rightarrow> http_request \<Rightarrow> string list \<Rightarrow> nip98_error + string" where
  "ValidateNIP98Auth lib l98 now r adminPubkeys =
     (if rq_auth r = '''' then Inl ErrMissingAuth
      else if \<not> HasPrefix (rq_auth r) ''Nostr '' then Inl ErrInvalidAuth
      else case base64_decode l98 (TrimPrefix (rq_auth r) ''Nostr '') of
        None \<Rightarrow> Inl ErrInvalidAuth
      | Some json \<Rightarrow>
      case event_of_json l98 json of
        None \<Rightarrow> Inl ErrInvalidEvent
      | Some ev \<Rightarrow>
      if ev_kind ev \<noteq> 27235 then Inl ErrInvalidEvent
      else if now - ev_created_at ev * ns_per_sec > 60 * ns_per_sec \<or> ev_created_at ev * ns_per_sec - now > 60 * ns_per_sec
      then Inl ErrExpiredAuth
      else let uTag = Tags_Find l98 (ev_tags ev) ''u'' in
      if length uTag < 2 then Inl ErrInvalidURL
      else if uTag ! 1 \<noteq> getRequestURL r then Inl ErrInvalidURL
      else let methodTag = Tags_Find l98 (ev_tags ev) ''method'' in
      if length methodTag < 2 then Inl ErrInvalidMethod
      else if ToUpper l98 (methodTag ! 1) \<noteq> rq_method r then Inl ErrInvalidMethod
      else if CheckSignature lib ev \<noteq> Some True then Inl ErrInvalidSig
      else if ev_pubkey ev \<notin> set adminPubkeys then Inl ErrNotAdmin
      else Inr (ev_pubkey ev))"

datatype mgmt_response = MethodNotAllowed | BadContentType | AuthFailed nip98_error | BadRequest | RpcError rpc_error | Success store_call

text \<open>\<open>ServeHTTP\<close>; \<open>body\<close> is the decoded method and parameters, \<open>None\<close> when the
  JSON is bad.\<close>

definition mgmt_ServeHTTP ::
  "nostr_lib \<Rightarrow> nip98_lib \<Rightarrow> json_lib \<Rightarrow> string list \<Rightarrow> int \<Rightarrow> call_faults \<Rightarrow> http_request \<Rightarrow>
   (string \<times> string list) option \<Rightarrow> mgmt_store \<Rightarrow> mgmt_response \<times> mgmt_store" where
  "mgmt_ServeHTTP lib l98 jl admins now f r body s =
     (if rq_method r \<noteq> ''POST'' then (MethodNotAllowed, s)
      else if rq_content_type r \<noteq> ''application/nostr+json+rpc'' then (BadContentType, s)
      else case ValidateNIP98Auth lib l98 now r admins of
        Inl e \<Rightarrow> (AuthFailed e, s)
      | Inr pk \<Rightarrow>
      case body of
        None \<Rightarrow> (BadRequest, s)
      | Some (m, params) \<Rightarrow>
          (case Dispatch jl f m params s of (Inl e, s') \<Rightarrow> (RpcError e, s') | (Inr c, s') \<Rightarrow> (Success c, s')))"

section \<open>Facts about the store\<close>

lemma RefreshAccess_cases:
  "RefreshAccess flt s = (None, s\<lparr>st_snap := Some (loaded (st_db s))\<rparr>) \<or>
   (\<exists>m. RefreshAccess flt s = (Some m, s))"
  by (simp add: RefreshAccess_def)

lemma RefreshAccess_db [simp]: "st_db (snd (RefreshAccess flt s)) = st_db s"
  by (simp add: RefreshAccess_def)

lemma afterWrite_db [simp]: "st_db (snd (afterWrite ok flt s)) = st_db s"
  by (simp add: afterWrite_def)

lemma afterWrite_dbD: "afterWrite ok flt s = (b, s') \<Longrightarrow> st_db s' = st_db s"
  using afterWrite_db [of ok flt s] by simp

lemma afterWrite_snap:
  "st_snap (snd (afterWrite ok flt s)) = st_snap s \<or> st_snap (snd (afterWrite ok flt s)) = Some (loaded (st_db s))"
  using RefreshAccess_cases [of flt s] by (auto simp: afterWrite_def)

lemma RefreshAccess_no_faults [simp]: "RefreshAccess no_faults s = (None, s\<lparr>st_snap := Some (loaded (st_db s))\<rparr>)"
  by (simp add: RefreshAccess_def no_faults_def)

lemma db_write_simps [simp]:
  "st_db (db_write ok f s) = (if ok then f (st_db s) else st_db s)" "st_snap (db_write ok f s) = st_snap s"
  by (simp_all add: db_write_def)

text \<open>Any call leaves either the old snapshot or one loaded from the database it leaves.\<close>

definition snap_fresh :: "mgmt_store \<Rightarrow> mgmt_store \<Rightarrow> bool" where
  "snap_fresh s s' \<longleftrightarrow> st_snap s' = st_snap s \<or> st_snap s' = Some (loaded (st_db s'))"

lemma afterWrite_fresh: "snap_fresh s (snd (afterWrite ok flt (db_write ok f s)))"
  using afterWrite_snap [of ok flt "db_write ok f s"] by (simp add: snap_fresh_def)

lemma moderation_update:
  "st_snap (snd (UpdateModerationStatus ok e st s)) = st_snap s"
  "loaded (st_db (snd (UpdateModerationStatus ok e st s))) = loaded (st_db s)"
  "banned_pubkeys (st_db (snd (UpdateModerationStatus ok e st s))) = banned_pubkeys (st_db s)"
  by (auto simp: UpdateModerationStatus_def loaded_def split: option.split)

lemma exec_call_fresh: "snap_fresh s (snd (exec_call f c s))"
proof (cases c)
  case (CBanEvent e r)
  have "snap_fresh s (snd (BanEvent (stmt_ok f) (reload_faults f) e r s))"
    unfolding BanEvent_def by (rule afterWrite_fresh)
  with CBanEvent show ?thesis
    by (auto simp: snap_fresh_def moderation_update split: prod.split bool.split)
qed (simp_all add: store_write_defs afterWrite_fresh, simp_all add: snap_fresh_def moderation_update)

lemma exec_call_keeps_ban:
  assumes "c \<noteq> CUnbanPubkey pk" "banned_pubkeys (st_db s) pk \<noteq> None"
  shows "banned_pubkeys (st_db (snd (exec_call f c s))) pk \<noteq> None"
  using assms
  by (cases c)
    (auto simp: store_write_defs moderation_update dest!: afterWrite_dbD split: prod.split bool.split option.split)

section \<open>Several processes\<close>

text \<open>What happens around one process: its own calls, calls served by other processes on the
  same database, and the periodic reload.\<close>

datatype node_event = Local call_faults store_call | Remote call_faults store_call | Tick load_faults

fun node_step :: "node_event \<Rightarrow> mgmt_store \<Rightarrow> mgmt_store" where
  "node_step (Local f c) s = snd (exec_call f c s)"
| "node_step (Remote f c) s = s\<lparr>st_db := st_db (snd (exec_call f c (s\<lparr>st_snap := None\<rparr>)))\<rparr>"
| "node_step (Tick flt) s = snd (RefreshAccess flt s)"

definition node_run :: "node_event list \<Rightarrow> mgmt_store \<Rightarrow> mgmt_store" where
  "node_run evs s = fold node_step evs s"

definition unbans :: "string \<Rightarrow> node_event \<Rightarrow> bool" where
  "unbans pk ev \<longleftrightarrow> (\<exists>f. ev = Local f (CUnbanPubkey pk) \<or> ev = Remote f (CUnbanPubkey pk))"

fun call_of :: "node_event \<Rightarrow> store_call option" where
  "call_of (Local f c) = Some c"
| "call_of (Remote f c) = Some c"
| "call_of (Tick flt) = None"

lemma unbans_iff: "unbans pk ev \<longleftrightarrow> call_of ev = Some (CUnbanPubkey pk)"
  by (cases ev) (auto simp: unbans_def)

lemma node_step_keeps_ban_row:
  assumes "call_of ev \<noteq> Some (CUnbanPubkey pk)" "banned_pubkeys (st_db s) pk \<noteq> None"
  shows "banned_pubkeys (st_db (node_step ev s)) pk \<noteq> None"
  using assms exec_call_keeps_ban [of _ pk s] exec_call_keeps_ban [of _ pk "s\<lparr>st_snap := None\<rparr>"]
  by (cases ev) auto

lemma banned_loaded: "st_snap s = Some (loaded db) \<Longrightarrow> banned_pubkeys db pk \<noteq> None \<Longrightarrow> IsPubkeyBanned s pk"
  by (auto simp: IsPubkeyBanned_def access_def loaded_def)

lemma snap_fresh_banned:
  assumes "snap_fresh s s'" "IsPubkeyBanned s pk" "banned_pubkeys (st_db s') pk \<noteq> None"
  shows "IsPubkeyBanned s' pk"
  using assms banned_loaded [of s' "st_db s'" pk]
  by (auto simp: snap_fresh_def IsPubkeyBanned_def access_def)

lemma Refresh_fresh: "snap_fresh s (snd (RefreshAccess flt s))"
  using RefreshAccess_cases [of flt s] by (auto simp: snap_fresh_def)

lemma node_step_keeps_ban:
  assumes "call_of ev \<noteq> Some (CUnbanPubkey pk)" "banned_pubkeys (st_db s) pk \<noteq> None" "IsPubkeyBanned s pk"
  shows "IsPubkeyBanned (node_step ev s) pk"
proof -
  have row: "banned_pubkeys (st_db (node_step ev s)) pk \<noteq> None"
    using assms(1,2) by (rule node_step_keeps_ban_row)
  show ?thesis
  proof (cases ev)
    case (Local f c)
    with row assms(3) exec_call_fresh [of s f c] show ?thesis by (auto intro: snap_fresh_banned)
  next
    case (Remote f c)
    with assms(3) show ?thesis by (simp add: IsPubkeyBanned_def access_def)
  next
    case (Tick flt)
    with row assms(3) Refresh_fresh [of s flt] show ?thesis by (auto intro: snap_fresh_banned)
  qed
qed

lemma node_run_keeps_ban:
  assumes "\<forall>ev \<in> set evs. call_of ev \<noteq> Some (CUnbanPubkey pk)"
    and "banned_pubkeys (st_db s) pk \<noteq> None" "IsPubkeyBanned s pk"
  shows "IsPubkeyBanned (node_run evs s) pk"
  using assms
proof (induction evs arbitrary: s)
  case (Cons ev evs)
  have step: "call_of ev \<noteq> Some (CUnbanPubkey pk)" using Cons.prems(1) by simp
  note row = node_step_keeps_ban_row [OF step Cons.prems(2)] node_step_keeps_ban [OF step Cons.prems(2,3)]
  from Cons.IH [OF _ row] Cons.prems(1) show ?case by (simp add: node_run_def)
qed (simp add: node_run_def)

lemma node_run_keeps_row:
  assumes "\<forall>ev \<in> set evs. call_of ev \<noteq> Some (CUnbanPubkey pk)" "banned_pubkeys (st_db s) pk \<noteq> None"
  shows "banned_pubkeys (st_db (node_run evs s)) pk \<noteq> None"
  using assms
proof (induction evs arbitrary: s)
  case (Cons ev evs)
  have step: "call_of ev \<noteq> Some (CUnbanPubkey pk)" using Cons.prems(1) by simp
  from Cons.IH [OF _ node_step_keeps_ban_row [OF step Cons.prems(2)]] Cons.prems(1)
  show ?case by (simp add: node_run_def)
qed (simp add: node_run_def)

lemma node_run_append: "node_run (xs @ ys) s = node_run ys (node_run xs s)"
  by (simp add: node_run_def)

section \<open>The exemption checker interface\<close>

text \<open>
  \<open>handlers.RateLimitExemptChecker\<close>: the limiter asks one question of the management store.
  The laws are what an exemption means; the states they hold in are those of a process whose
  snapshot is up to date.
\<close>

locale exempt_checker =
  fixes inv :: "'s \<Rightarrow> bool"
    and is_exempt :: "'s \<Rightarrow> string \<Rightarrow> bool"
    and exempt :: "string \<Rightarrow> 's \<Rightarrow> 's"
    and unexempt :: "string \<Rightarrow> 's \<Rightarrow> 's"
  assumes inv_exempt: "inv s \<Longrightarrow> inv (exempt pk s)"
    and inv_unexempt: "inv s \<Longrightarrow> inv (unexempt pk s)"
    and exempt_lookup: "inv s \<Longrightarrow> is_exempt (exempt pk s) q \<longleftrightarrow> q = pk \<or> is_exempt s q"
    and unexempt_lookup: "inv s \<Longrightarrow> is_exempt (unexempt pk s) q \<longleftrightarrow> q \<noteq> pk \<and> is_exempt s q"
begin

lemma exempt_author_passes:
  assumes "inv s" "ev_pubkey ev = pk"
  shows "buildRateLimitRejecter pks ks (Some (is_exempt (exempt pk s))) base ev b = (Accept, b)"
  using assms by (simp add: buildRateLimitRejecter_eq rate_exempt_def exempt_lookup)

lemma other_author_unchanged:
  assumes "inv s" "ev_pubkey ev \<noteq> pk"
  shows "buildRateLimitRejecter pks ks (Some (is_exempt (exempt pk s))) base ev b =
    buildRateLimitRejecter pks ks (Some (is_exempt s)) base ev b"
  using assms by (simp add: buildRateLimitRejecter_eq rate_exempt_def exempt_lookup)

lemma revoked_exemption_limits_again:
  assumes "inv s" "ev_pubkey ev = pk" "pk \<notin> set pks" "ev_kind ev \<notin> set ks"
  shows "buildRateLimitRejecter pks ks (Some (is_exempt (unexempt pk (exempt pk s)))) (Some limiter) ev b = limiter b"
  using assms by (simp add: buildRateLimitRejecter_eq rate_exempt_def unexempt_lookup inv_exempt)

end

definition synced :: "mgmt_store \<Rightarrow> bool" where
  "synced s \<longleftrightarrow> st_snap s = Some (loaded (st_db s))"

interpretation mgmt_exempt: exempt_checker synced IsRateLimitExempt
  "\<lambda>pk s. snd (ExemptPubkeyFromRateLimit True no_faults pk '''' s)"
  "\<lambda>pk s. snd (RemoveRateLimitExemption True no_faults pk s)"
  by unfold_locales
    (auto simp: synced_def ExemptPubkeyFromRateLimit_def RemoveRateLimitExemption_def afterWrite_def
      IsRateLimitExempt_def access_def loaded_def db_write_def)

text \<open>The steps of this process that end with lists just read from the database.\<close>

fun cached_list_change :: "store_call \<Rightarrow> bool" where
  "cached_list_change (CBanPubkey pk r) = True"
| "cached_list_change (CUnbanPubkey pk) = True"
| "cached_list_change (CUnbanEvent e) = True"
| "cached_list_change (CAllowKind k) = True"
| "cached_list_change (CDisallowKind k) = True"
| "cached_list_change (CExempt pk r) = True"
| "cached_list_change (CRemoveExempt pk) = True"
| "cached_list_change _ = False"

fun reloads :: "node_event \<Rightarrow> bool" where
  "reloads (Local f c) \<longleftrightarrow> stmt_ok f \<and> reload_faults f = no_faults \<and> cached_list_change c"
| "reloads (Remote f c) \<longleftrightarrow> False"
| "reloads (Tick flt) \<longleftrightarrow> flt = no_faults"

lemma node_step_reloads: "reloads ev \<Longrightarrow> st_snap (node_step ev s) = Some (loaded (st_db (node_step ev s)))"
proof (cases ev)
  case (Local f c)
  assume "reloads ev"
  with Local show ?thesis by (cases c) (simp_all add: store_write_defs afterWrite_def)
qed auto

section \<open>Properties\<close>

text \<open>C25: A ban that was written, by this process or by another one, is enforced here from this process's first
  successful reload on (the one of the ban call itself, of a later list change here, or a periodic one),
  through any sequence of management calls here and elsewhere and of reloads before and after it, whatever
  fails, until somebody unbans the key: the first ban handler refuses every event of the key.\<close>

theorem ban_holds_after_first_reload:
  assumes "b = Local f (CBanPubkey pk r) \<or> b = Remote f (CBanPubkey pk r)" "stmt_ok f"
    and "\<forall>ev \<in> set evs. \<not> unbans pk ev" "\<exists>ev \<in> set (b # evs). reloads ev"
  shows "ban_gates (node_run (b # evs) s) (e\<lparr>ev_pubkey := pk\<rparr>) ! 0 = Reject ''blocked: pubkey banned''"
proof -
  let ?s1 = "node_step b s"
  have row: "banned_pubkeys (st_db ?s1) pk \<noteq> None" using assms(1,2) by (auto simp: BanPubkey_def)
  have "IsPubkeyBanned (node_run evs ?s1) pk"
  proof (cases "reloads b")
    case True
    with row have "IsPubkeyBanned ?s1 pk" using node_step_reloads [of b s] by (blast intro: banned_loaded)
    with row assms(3) show ?thesis by (intro node_run_keeps_ban) (auto simp: unbans_iff)
  next
    case False
    with assms(4) obtain xs ev ys where evs: "evs = xs @ ev # ys" "reloads ev" by (auto simp: in_set_conv_decomp)
    have "banned_pubkeys (st_db (node_run xs ?s1)) pk \<noteq> None"
      using row assms(3) evs by (intro node_run_keeps_row) (auto simp: unbans_iff)
    then have row': "banned_pubkeys (st_db (node_step ev (node_run xs ?s1))) pk \<noteq> None"
      using assms(3) evs by (intro node_step_keeps_ban_row) (auto simp: unbans_iff)
    then have "IsPubkeyBanned (node_step ev (node_run xs ?s1)) pk"
      using node_step_reloads [OF evs(2)] by (blast intro: banned_loaded)
    with row' assms(3) evs(1) have "IsPubkeyBanned (node_run ys (node_step ev (node_run xs ?s1))) pk"
      by (intro node_run_keeps_ban) (auto simp: unbans_iff)
    then show ?thesis by (simp add: evs(1) node_run_def)
  qed
  then show ?thesis by (simp add: ban_gates_def node_run_def)
qed

definition fresh_store :: mgmt_store where
  "fresh_store = \<lparr>st_db = empty_mgmt_db, st_snap = None\<rparr>"

definition fine :: call_faults where
  "fine = \<lparr>stmt_ok = True, reload_faults = no_faults, second_ok = True\<rparr>"

lemma ban_holds_after_first_reload_witness:
  "ban_gates (node_run (Local (fine\<lparr>reload_faults := no_faults\<lparr>fail_kinds := True\<rparr>\<rparr>) (CBanPubkey ''bad'' ''spam'') #
       [Remote fine (CUnbanPubkey ''other''), Tick no_faults, Tick (no_faults\<lparr>fail_pubkeys := True\<rparr>)]) fresh_store)
     ((note_by ''x'')\<lparr>ev_pubkey := ''bad''\<rparr>) ! 0 = Reject ''blocked: pubkey banned''"
  by (rule ban_holds_after_first_reload [OF disjI1 [OF refl]]) (simp_all add: fine_def unbans_def)

text \<open>Until then it is not: a ban whose own reload fails is answered as a success and not yet enforced.\<close>

theorem ban_waits_for_a_reload:
  "case exec_call (fine\<lparr>reload_faults := no_faults\<lparr>fail_pubkeys := True\<rparr>\<rparr>) (CBanPubkey pk r) fresh_store of
     (ok, s1) \<Rightarrow> ok \<and> banned_pubkeys (st_db s1) pk = Some r \<and> ban_gates s1 (e\<lparr>ev_pubkey := pk\<rparr>) ! 0 = Accept"
  by (simp add: fine_def BanPubkey_def afterWrite_def db_write_def RefreshAccess_def no_faults_def ban_gates_def IsPubkeyBanned_def
      access_def emptyAccess_def fresh_store_def)

text \<open>Another process follows at its next successful reload and from then on as well: whatever
  happens between a ban written elsewhere and that reload, and after it, as long as nobody
  unbans the key, the key is refused here too.\<close>

theorem ban_reaches_other_processes:
  assumes "stmt_ok f" and "\<forall>ev \<in> set (before @ after). \<not> unbans pk ev"
  shows "ban_gates (node_run (Remote f (CBanPubkey pk r) # before @ Tick no_faults # after) s) (e\<lparr>ev_pubkey := pk\<rparr>) ! 0
    = Reject ''blocked: pubkey banned''"
proof -
  let ?s1 = "node_step (Remote f (CBanPubkey pk r)) s"
  let ?s2 = "node_run before ?s1"
  let ?s3 = "node_step (Tick no_faults) ?s2"
  have "banned_pubkeys (st_db ?s1) pk \<noteq> None"
    using assms(1) by (simp add: BanPubkey_def)
  then have row: "banned_pubkeys (st_db ?s2) pk \<noteq> None"
    using assms(2) by (intro node_run_keeps_row) (auto simp: unbans_iff)
  then have "IsPubkeyBanned ?s3 pk" "banned_pubkeys (st_db ?s3) pk \<noteq> None"
    by (auto simp: IsPubkeyBanned_def access_def loaded_def)
  then have "IsPubkeyBanned (node_run after ?s3) pk"
    using assms(2) by (intro node_run_keeps_ban) (auto simp: unbans_iff)
  moreover have "node_run (Remote f (CBanPubkey pk r) # before @ Tick no_faults # after) s = node_run after ?s3"
    by (simp add: node_run_def)
  ultimately show ?thesis by (simp add: ban_gates_def)
qed

lemma ban_reaches_other_processes_witness:
  "ban_gates (node_run (Remote fine (CBanPubkey ''bad'' '''') # [Local fine (CAllowKind 1)] @ Tick no_faults # []) fresh_store)
     ((note_by ''x'')\<lparr>ev_pubkey := ''bad''\<rparr>) ! 0 = Reject ''blocked: pubkey banned''"
  by (rule ban_reaches_other_processes) (simp_all add: fine_def unbans_def)

text \<open>A reload that fails in any of its four queries changes nothing, so an unreachable
  database never lifts a ban, re-opens a kind restriction or drops an exemption; one that
  succeeds makes the answers of the per-event checks exactly those of the database.\<close>

theorem reload_all_or_nothing:
  "(case RefreshAccess flt s of
      (Some err, s') \<Rightarrow> s' = s
    | (None, s') \<Rightarrow> st_db s' = st_db s \<and>
        (\<forall>pk. IsPubkeyBanned s' pk = (banned_pubkeys (st_db s) pk \<noteq> None)) \<and>
        (\<forall>e. IsEventBanned s' e = (banned_events (st_db s) e \<noteq> None)) \<and>
        (\<forall>pk. IsRateLimitExempt s' pk = (exempt_pubkeys (st_db s) pk \<noteq> None)) \<and>
        (\<forall>k. IsKindAllowed s' k = (allowed_kinds (st_db s) = {} \<or> k \<in> allowed_kinds (st_db s))))"
  by (auto simp: RefreshAccess_def IsPubkeyBanned_def IsEventBanned_def IsRateLimitExempt_def IsKindAllowed_def
      access_def loaded_def Let_def)

text \<open>The kind list switches the relay between two modes: allowing a first kind refuses
  every other kind, and taking the last kind off the list opens all kinds again.\<close>

theorem kind_list_mode_switch:
  assumes "synced s" "allowed_kinds (st_db s) = {}"
  shows "IsKindAllowed s j \<and>
    IsKindAllowed (snd (AllowKind True no_faults k s)) j = (j = k) \<and>
    IsKindAllowed (snd (DisallowKind True no_faults k (snd (AllowKind True no_faults k s)))) j"
  using assms
  by (auto simp: synced_def IsKindAllowed_def AllowKind_def DisallowKind_def afterWrite_def access_def loaded_def db_write_def)

lemma kind_list_mode_switch_witness:
  "\<not> IsKindAllowed (snd (AllowKind True no_faults 1 (fresh_store\<lparr>st_snap := Some (loaded empty_mgmt_db)\<rparr>))) 4"
  using kind_list_mode_switch [of "fresh_store\<lparr>st_snap := Some (loaded empty_mgmt_db)\<rparr>" 4 1]
  by (simp add: synced_def fresh_store_def empty_mgmt_db_def)

text \<open>What an accepted NIP-98 header proves.\<close>

lemma nip98_accepted:
  assumes "ValidateNIP98Auth lib l98 now r admins = Inr pk"
  shows "\<exists>json ev. base64_decode l98 (TrimPrefix (rq_auth r) ''Nostr '') = Some json \<and> event_of_json l98 json = Some ev \<and>
    ev_kind ev = 27235 \<and> CheckSignature lib ev = Some True \<and> ev_pubkey ev = pk \<and> pk \<in> set admins \<and>
    \<bar>now - ev_created_at ev * ns_per_sec\<bar> \<le> 60 * ns_per_sec \<and>
    Tags_Find l98 (ev_tags ev) ''u'' ! 1 = getRequestURL r \<and>
    ToUpper l98 (Tags_Find l98 (ev_tags ev) ''method'' ! 1) = rq_method r"
  using assms by (auto simp: ValidateNIP98Auth_def Let_def split: if_splits option.splits)

text \<open>C6: The management endpoint changes the database only for a POST whose NIP-98 event is
  signed by one of the configured admins, at most a minute old or ahead, and names this
  request's URL and method.\<close>

theorem only_admins_change_state:
  assumes "snd (mgmt_ServeHTTP lib l98 jl admins now f r body s) \<noteq> s"
  shows "\<exists>json ev. base64_decode l98 (TrimPrefix (rq_auth r) ''Nostr '') = Some json \<and> event_of_json l98 json = Some ev \<and>
    ev_kind ev = 27235 \<and> CheckSignature lib ev = Some True \<and> ev_pubkey ev \<in> set admins \<and>
    \<bar>now - ev_created_at ev * ns_per_sec\<bar> \<le> 60 * ns_per_sec \<and>
    Tags_Find l98 (ev_tags ev) ''u'' ! 1 = getRequestURL r \<and>
    ToUpper l98 (Tags_Find l98 (ev_tags ev) ''method'' ! 1) = ''POST'' \<and> rq_method r = ''POST''"
proof -
  from assms obtain pk where "rq_method r = ''POST''" "ValidateNIP98Auth lib l98 now r admins = Inr pk"
    by (auto simp: mgmt_ServeHTTP_def split: if_splits sum.splits)
  with nip98_accepted [OF this(2)] show ?thesis by auto
qed

definition admin_event :: event where
  "admin_event = \<lparr>ev_id = ''e'', ev_pubkey = ''admin'', ev_created_at = 100, ev_kind = 27235,
     ev_tags = [[''u'', ''https://r/''], [''method'', ''POST'']], ev_content = ''''\<rparr>"

definition toy_l98 :: nip98_lib where
  "toy_l98 = \<lparr>base64_decode = Some, event_of_json = (\<lambda>_. Some admin_event),
     Tags_Find = (\<lambda>ts k. case find (\<lambda>t. t \<noteq> [] \<and> hd t = k) ts of Some t \<Rightarrow> t | None \<Rightarrow> []), ToUpper = id\<rparr>"

definition admin_post :: http_request where
  "admin_post = \<lparr>rq_method = ''POST'', rq_auth = ''Nostr x'', rq_content_type = ''application/nostr+json+rpc'', rq_tls = True,
     rq_fwd_proto = '''', rq_fwd_host = '''', rq_host = ''r'', rq_path = ''/''\<rparr>"

definition accepting_lib :: nostr_lib where
  "accepting_lib = \<lparr>CheckSignature = (\<lambda>_. Some True), GetID = ev_id, IsEphemeralKind = (\<lambda>k. 20000 \<le> k \<and> k < 30000),
     RejectEventsWithBase64Media = (\<lambda>_. Accept), NoComplexFilters = (\<lambda>_. Accept)\<rparr>"

lemma only_admins_change_state_witness:
  "ev_pubkey admin_event \<in> set [''admin'']"
proof -
  let ?s' = "snd (mgmt_ServeHTTP accepting_lib toy_l98 \<lparr>as_string = Some, as_int = (\<lambda>_. None)\<rparr> [''admin''] (100 * ns_per_sec)
      fine admin_post (Some (''banpubkey'', [''x''])) fresh_store)"
  have "IsPubkeyBanned ?s' ''x''"
    by (simp add: mgmt_ServeHTTP_def ValidateNIP98Auth_def admin_post_def toy_l98_def admin_event_def accepting_lib_def
        getRequestURL_def Dispatch_def parse_call_def string_param_def reason_param_def BanPubkey_def afterWrite_def fine_def
        IsPubkeyBanned_def access_def loaded_def TrimPrefix_def)
  then have "?s' \<noteq> fresh_store"
    by (auto simp: fresh_store_def IsPubkeyBanned_def access_def emptyAccess_def)
  from only_admins_change_state [OF this] show ?thesis
    by (auto simp: toy_l98_def)
qed

text \<open>An exemption given through the management API takes effect on the limiter at once for
  that author and changes nothing for anybody else.\<close>

theorem exemption_reaches_the_limiter:
  assumes "synced s"
  shows "buildRateLimitRejecter pks ks (Some (IsRateLimitExempt (snd (ExemptPubkeyFromRateLimit True no_faults pk '''' s)))) base ev b =
    (if ev_pubkey ev = pk then (Accept, b) else buildRateLimitRejecter pks ks (Some (IsRateLimitExempt s)) base ev b)"
  using assms by (cases "ev_pubkey ev = pk")
    (simp_all add: mgmt_exempt.exempt_author_passes mgmt_exempt.other_author_unchanged)

lemma exemption_reaches_the_limiter_witness:
  "buildRateLimitRejecter [] [] (Some (IsRateLimitExempt (snd (ExemptPubkeyFromRateLimit True no_faults ''a'' ''''
       (fresh_store\<lparr>st_snap := Some (loaded empty_mgmt_db)\<rparr>))))) (Some (\<lambda>b. (Reject ''slow'', b))) (note_by ''a'') (0 :: nat) = (Accept, 0)"
  by (subst exemption_reaches_the_limiter) (simp_all add: synced_def fresh_store_def note_by_def)

end
