(* ===== verification/Arbiter_Claims.thy ===== *)
theory Arbiter_Claims
  imports Nostr_Data
begin

text \<open>
  internal/arbiterclaim: claims of tasks by kind 30078 events in the \<open>arbiter:claim:\<close>
  namespace. claim.go recognises and checks them, store.go keeps one row per task in Postgres
  with a conditional insert, handler.go refuses the claims that lose.

  Times are the database's clock in milliseconds. Event ids are compared as Go compares them,
  bytewise; on the lowercase hexadecimal ids of real events Postgres orders them the same way.
\<close>

section \<open>Claims\<close>

abbreviation KindClaim :: int where "KindClaim \<equiv> 30078"
abbreviation DTagPrefix :: string where "DTagPrefix \<equiv> ''arbiter:claim:''"
abbreviation TagMarker :: string where "TagMarker \<equiv> ''arbiter-claim''"

record claim =
  TaskID :: string
  EventID :: string
  Claimant :: string
  At :: int

definition claim_tagValue :: "event \<Rightarrow> string \<Rightarrow> string" where
  "claim_tagValue ev name = first_tag (ev_tags ev) name"

fun hasTag_loop :: "tag list \<Rightarrow> string \<Rightarrow> string \<Rightarrow> bool" where
  "hasTag_loop [] name v = False"
| "hasTag_loop ((n # w # rest) # ts) name v = (if n = name \<and> w = v then True else hasTag_loop ts name v)"
| "hasTag_loop (_ # ts) name v = hasTag_loop ts name v"

definition IsClaim :: "event \<Rightarrow> bool" where
  "IsClaim ev = (if ev_kind ev \<noteq> KindClaim then False else HasPrefix (claim_tagValue ev ''d'') DTagPrefix)"

definition TaskIDOf :: "event \<Rightarrow> string" where
  "TaskIDOf ev = (if \<not> IsClaim ev then '''' else TrimSpace (TrimPrefix (claim_tagValue ev ''d'') DTagPrefix))"

text \<open>A malformed claim comes with its reason.\<close>

definition Validate :: "event \<Rightarrow> string + claim" where
  "Validate ev =
     (let taskID = TaskIDOf ev in
      if taskID = '''' then Inl (''empty task id after '' @ DTagPrefix)
      else if \<not> hasTag_loop (ev_tags ev) ''t'' TagMarker then Inl (''missing t='' @ TagMarker @ '' marker tag'')
      else if ev_id ev = '''' then Inl ''event has no id''
      else Inr \<lparr>TaskID = taskID, EventID = ev_id ev, Claimant = ev_pubkey ev, At = ev_created_at ev\<rparr>)"

definition Winner :: "claim list \<Rightarrow> claim option" where
  "Winner cs = (if cs = [] then None else Some (hd (sort_key EventID cs)))"

definition BuildClaimEvent :: "string \<Rightarrow> int \<Rightarrow> event" where
  "BuildClaimEvent taskID at =
     \<lparr>ev_id = '''', ev_pubkey = '''', ev_created_at = at, ev_kind = KindClaim,
      ev_tags = [[''d'', DTagPrefix @ taskID], [''t'', TagMarker]], ev_content = ''''\<rparr>"

section \<open>The store\<close>

record claim_row =
  row_event :: string
  row_claimant :: string
  row_at :: int

type_synonym claim_table = "string \<Rightarrow> claim_row option"

definition DefaultSettleWindow :: int where "DefaultSettleWindow = 10000"

definition NewStore :: "int \<Rightarrow> int" where
  "NewStore settleWindow = (if settleWindow \<le> 0 then DefaultSettleWindow else settleWindow)"

definition row_of :: "int \<Rightarrow> claim \<Rightarrow> claim_row" where
  "row_of now c = \<lparr>row_event = EventID c, row_claimant = Claimant c, row_at = now\<rparr>"

text \<open>The \<open>INSERT ... ON CONFLICT (task_id) DO UPDATE ... WHERE ... RETURNING event_id\<close>; no
  returned row is \<open>sql.ErrNoRows\<close>.\<close>

definition insert_claim :: "int \<Rightarrow> int \<Rightarrow> claim \<Rightarrow> claim_table \<Rightarrow> string option \<times> claim_table" where
  "insert_claim window now c tbl =
     (case tbl (TaskID c) of
        None \<Rightarrow> (Some (EventID c), tbl(TaskID c \<mapsto> row_of now c))
      | Some r \<Rightarrow>
          if row_event r > EventID c \<and> row_at r > now - window
          then (Some (EventID c), tbl(TaskID c \<mapsto> row_of now c))
          else (None, tbl))"

text \<open>
  A database failure on the insert may leave it committed all the same (an abandoned statement), here at
  once; one that commits later is, in a history, the same attempt made at that later moment.
\<close>

datatype insert_fault = Insert_ok | Insert_failed bool

record claim_faults =
  on_insert :: insert_fault
  read_ok :: bool

datatype claim_error = ErrLost string string | StoreUnavailable

definition holderOf :: "bool \<Rightarrow> string \<Rightarrow> claim_table \<Rightarrow> string" where
  "holderOf ok taskID tbl = (if \<not> ok then '''' else case tbl taskID of Some r \<Rightarrow> row_event r | None \<Rightarrow> '''')"

definition TryClaim :: "int \<Rightarrow> claim_faults \<Rightarrow> int \<Rightarrow> claim \<Rightarrow> claim_table \<Rightarrow> claim_error option \<times> claim_table" where
  "TryClaim window flt now c tbl =
     (case on_insert flt of
        Insert_failed committed \<Rightarrow> (Some StoreUnavailable, if committed then snd (insert_claim window now c tbl) else tbl)
      | Insert_ok \<Rightarrow>
          case insert_claim window now c tbl of
            (None, tbl') \<Rightarrow>
              (let winner = holderOf (read_ok flt) (TaskID c) tbl' in
               if winner = '''' then (Some StoreUnavailable, tbl') else (Some (ErrLost (TaskID c) winner), tbl'))
          | (Some holder, tbl') \<Rightarrow>
              if holder \<noteq> EventID c then (Some (ErrLost (TaskID c) holder), tbl') else (None, tbl'))"

section \<open>The handler\<close>

definition lost_message :: "string \<Rightarrow> string \<Rightarrow> string" where
  "lost_message task winner = ''task '' @ task @ '' already claimed by event '' @ winner"

definition reject_claim :: "int \<Rightarrow> claim_faults \<Rightarrow> int \<Rightarrow> event \<Rightarrow> claim_table gate" where
  "reject_claim window flt now ev tbl =
     (if \<not> IsClaim ev then (Accept, tbl)
      else case Validate ev of
        Inl reason \<Rightarrow> (Reject (''invalid: malformed arbiter claim: '' @ reason), tbl)
      | Inr c \<Rightarrow>
          (case TryClaim window flt now c tbl of
             (None, tbl') \<Rightarrow> (Accept, tbl')
           | (Some (ErrLost task winner), tbl') \<Rightarrow> (Reject (''conflict: '' @ lost_message task winner), tbl')
           | (Some StoreUnavailable, tbl') \<Rightarrow> (Reject ''error: claim store unavailable, retry'', tbl')))"

section \<open>Facts\<close>

lemma hasTag_loop_iff: "hasTag_loop ts name v \<longleftrightarrow> has_tag ts name v"
  by (induction ts name v rule: hasTag_loop.induct) (auto simp: has_tag_def)

text \<open>The only ways a row changes: an empty one is taken, or a lower id takes it in the window.\<close>

lemma insert_claim_row:
  "snd (insert_claim window now c tbl) t =
     (if t = TaskID c \<and> (case tbl t of None \<Rightarrow> True | Some r \<Rightarrow> EventID c < row_event r \<and> now - window < row_at r)
      then Some (row_of now c) else tbl t)"
  by (auto simp: insert_claim_def split: option.split)

lemma TryClaim_table:
  "snd (TryClaim window flt now c tbl) = tbl \<or> snd (TryClaim window flt now c tbl) = snd (insert_claim window now c tbl)"
  by (auto simp: TryClaim_def Let_def split: insert_fault.split prod.split option.split)

lemma TryClaim_ok:
  assumes "TryClaim window flt now c tbl = (None, tbl')"
  shows "tbl' (TaskID c) = Some (row_of now c) \<and> tbl' = snd (insert_claim window now c tbl)"
  using assms
  by (auto simp: TryClaim_def insert_claim_def Let_def split: insert_fault.splits prod.splits option.splits if_splits)

lemma TryClaim_lost:
  assumes "TryClaim window flt now c tbl = (Some (ErrLost t w), tbl')"
  shows "t = TaskID c \<and> tbl' = tbl \<and> (\<exists>r. tbl t = Some r \<and> row_event r = w)"
  using assms
  by (auto simp: TryClaim_def insert_claim_def holderOf_def Let_def
      split: insert_fault.splits prod.splits option.splits if_splits)

definition healthy_db :: claim_faults where
  "healthy_db = \<lparr>on_insert = Insert_ok, read_ok = True\<rparr>"

text \<open>A history of claim attempts, each with the clock and the faults it meets.\<close>

record claim_try =
  try_now :: int
  try_flt :: claim_faults
  try_claim :: claim

definition claim_run :: "int \<Rightarrow> claim_try list \<Rightarrow> claim_table \<Rightarrow> claim_table" where
  "claim_run window xs tbl = fold (\<lambda>x t. snd (TryClaim window (try_flt x) (try_now x) (try_claim x) t)) xs tbl"

lemma claim_run_simps [simp]:
  "claim_run window [] tbl = tbl"
  "claim_run window (x # xs) tbl = claim_run window xs (snd (TryClaim window (try_flt x) (try_now x) (try_claim x) tbl))"
  by (simp_all add: claim_run_def)

lemma claim_run_final:
  assumes "tbl t = Some r" "\<forall>x \<in> set xs. row_at r + window \<le> try_now x"
  shows "claim_run window xs tbl t = Some r"
  using assms
proof (induction xs arbitrary: tbl)
  case (Cons x xs)
  have "snd (insert_claim window (try_now x) (try_claim x) tbl) t = Some r"
    using Cons.prems by (auto simp: insert_claim_row)
  then have "snd (TryClaim window (try_flt x) (try_now x) (try_claim x) tbl) t = Some r"
    using TryClaim_table [of window "try_flt x" "try_now x" "try_claim x" tbl] Cons.prems(1) by auto
  with Cons show ?case by simp
qed simp

text \<open>Ownership moves only towards lower ids.\<close>

lemma TryClaim_row_mono:
  assumes "tbl t = Some r"
  shows "\<exists>r'. snd (TryClaim window flt now c tbl) t = Some r' \<and> row_event r' \<le> row_event r"
  using TryClaim_table [of window flt now c tbl] assms insert_claim_row [of window now c tbl t]
  by (auto simp: row_of_def split: if_splits option.splits)

lemma claim_run_mono:
  "tbl t = Some r \<Longrightarrow> \<exists>r'. claim_run window xs tbl t = Some r' \<and> row_event r' \<le> row_event r"
proof (induction xs arbitrary: tbl r)
  case (Cons x xs)
  from TryClaim_row_mono [of tbl t r window "try_flt x" "try_now x" "try_claim x"] Cons.prems
  obtain r1 where r1: "snd (TryClaim window (try_flt x) (try_now x) (try_claim x) tbl) t = Some r1"
    "row_event r1 \<le> row_event r" by blast
  from Cons.IH [of "snd (TryClaim window (try_flt x) (try_now x) (try_claim x) tbl)" r1] r1
  show ?case by (auto intro: order_trans)
qed simp

lemma TryClaim_healthy: "snd (TryClaim window healthy_db now c tbl) = snd (insert_claim window now c tbl)"
  by (auto simp: TryClaim_def healthy_db_def insert_claim_def holderOf_def Let_def split: option.split)

text \<open>Inside one window the holder is the lowest id that has tried.\<close>

lemma claim_run_min:
  assumes "\<forall>x \<in> set xs. try_flt x = healthy_db \<and> TaskID (try_claim x) = t \<and> t0 \<le> try_now x \<and> try_now x < t0 + window"
    and "tbl t = Some r" "t0 \<le> row_at r"
  shows "\<exists>r'. claim_run window xs tbl t = Some r' \<and>
    row_event r' = fold min (map (\<lambda>x. EventID (try_claim x)) xs) (row_event r)"
  using assms
proof (induction xs arbitrary: tbl r)
  case (Cons x xs)
  let ?tbl = "snd (insert_claim window (try_now x) (try_claim x) tbl)"
  let ?r = "if EventID (try_claim x) < row_event r then row_of (try_now x) (try_claim x) else r"
  have "try_now x - window < row_at r" using Cons.prems(1,3) by force
  then have "?tbl t = Some ?r" using Cons.prems(1,2) by (simp add: insert_claim_row)
  moreover have "t0 \<le> row_at ?r" using Cons.prems(1,3) by (simp add: row_of_def)
  moreover have "row_event ?r = min (EventID (try_claim x)) (row_event r)"
    by (auto simp: row_of_def min_def)
  ultimately show ?case
    using Cons.IH [of ?tbl ?r] Cons.prems(1) by (simp add: TryClaim_healthy)
qed simp

lemma fold_min_Min: "fold min xs (a :: string) = Min (insert a (set xs))"
  by (simp add: Min.set_eq_fold [symmetric])

lemma Winner_Min: "cs \<noteq> [] \<Longrightarrow> \<exists>c \<in> set cs. Winner cs = Some c \<and> EventID c = Min (EventID ` set cs)"
proof -
  assume cs: "cs \<noteq> []"
  let ?s = "sort_key EventID cs"
  have ne: "?s \<noteq> []" using cs by (metis length_0_conv length_sort)
  have mem: "hd ?s \<in> set cs" using ne hd_in_set [OF ne] by simp
  have "EventID (hd ?s) \<le> EventID c" if "c \<in> set cs" for c
  proof -
    have "sorted (map EventID ?s)" by (rule sorted_sort_key)
    moreover from that obtain i where "i < length ?s" "?s ! i = c"
      by (metis in_set_conv_nth set_sort)
    moreover have "map EventID ?s ! 0 = EventID (hd ?s)"
      using ne by (cases ?s) simp_all
    ultimately show ?thesis
      using sorted_nth_mono [of "map EventID ?s" 0 i] by simp
  qed
  then have "EventID (hd ?s) = Min (EventID ` set cs)"
    using mem by (intro Min_eqI [symmetric]) auto
  with cs mem show ?thesis by (auto simp: Winner_def)
qed

section \<open>Properties\<close>

text \<open>C17: Claims of one task that arrive within one settle window, in any order, end with the
  holder the reference tie-break names: the claim with the lowest event id.\<close>

theorem settle_window_picks_Winner:
  assumes "xs \<noteq> []" and "tbl t = None"
    and "\<forall>x \<in> set xs. try_flt x = healthy_db \<and> TaskID (try_claim x) = t \<and> t0 \<le> try_now x \<and> try_now x < t0 + window"
  shows "map_option row_event (claim_run window xs tbl t) = map_option EventID (Winner (map try_claim xs))"
proof -
  obtain x ys where xs: "xs = x # ys" using assms(1) by (cases xs) auto
  let ?r = "row_of (try_now x) (try_claim x)"
  let ?tbl = "snd (insert_claim window (try_now x) (try_claim x) tbl)"
  have "?tbl t = Some ?r" using assms(2,3) xs by (simp add: insert_claim_row)
  moreover have "t0 \<le> row_at ?r" using assms(3) xs by (simp add: row_of_def)
  ultimately obtain r' where r': "claim_run window ys ?tbl t = Some r'"
    "row_event r' = fold min (map (\<lambda>x. EventID (try_claim x)) ys) (row_event ?r)"
    using claim_run_min [of ys t t0 window ?tbl ?r] assms(3) xs by auto
  have "claim_run window xs tbl t = Some r'"
    using r'(1) assms(3) xs by (simp add: TryClaim_healthy)
  moreover have "row_event r' = Min (EventID ` set (map try_claim xs))"
    using r'(2) xs by (simp add: fold_min_Min row_of_def image_image)
  moreover obtain c where "Winner (map try_claim xs) = Some c" "EventID c = Min (EventID ` set (map try_claim xs))"
    using Winner_Min [of "map try_claim xs"] assms(1) by auto
  ultimately show ?thesis by simp
qed

definition claim_by :: "string \<Rightarrow> claim" where
  "claim_by e = \<lparr>TaskID = ''t'', EventID = e, Claimant = ''c'', At = 0\<rparr>"

lemma settle_window_picks_Winner_witness:
  "map_option row_event (claim_run 10000 [\<lparr>try_now = 5, try_flt = healthy_db, try_claim = claim_by ''b''\<rparr>,
      \<lparr>try_now = 9000, try_flt = healthy_db, try_claim = claim_by ''a''\<rparr>] Map.empty ''t'') =
   map_option EventID (Winner [claim_by ''b'', claim_by ''a''])"
  using settle_window_picks_Winner [of "[\<lparr>try_now = 5, try_flt = healthy_db, try_claim = claim_by ''b''\<rparr>,
      \<lparr>try_now = 9000, try_flt = healthy_db, try_claim = claim_by ''a''\<rparr>]" Map.empty "''t''" 0 10000]
  by (simp add: claim_by_def)

text \<open>C18: Once a claim has been held for the settle window it is final: no later attempt, whatever
  its id and whatever the database does, changes the row.\<close>

theorem settled_claim_is_final:
  assumes "TryClaim window flt now c tbl = (None, tbl')" and "\<forall>x \<in> set xs. now + window \<le> try_now x"
  shows "claim_run window xs tbl' (TaskID c) = Some (row_of now c)"
  using TryClaim_ok [OF assms(1)] assms(2) by (intro claim_run_final) (auto simp: row_of_def)

lemma settled_claim_is_final_witness:
  "claim_run 10000 [\<lparr>try_now = 10005, try_flt = healthy_db, try_claim = claim_by ''a''\<rparr>]
     [''t'' \<mapsto> row_of 5 (claim_by ''b'')] ''t'' = Some (row_of 5 (claim_by ''b''))"
  using settled_claim_is_final [of 10000 healthy_db 5 "claim_by ''b''" Map.empty "[''t'' \<mapsto> row_of 5 (claim_by ''b'')]"
      "[\<lparr>try_now = 10005, try_flt = healthy_db, try_claim = claim_by ''a''\<rparr>]"]
  by (simp add: TryClaim_def healthy_db_def insert_claim_def claim_by_def)

text \<open>What the handler tells a claimant is true of the table it leaves: an accepted claim holds
  its task, a conflict changes nothing and names the holder. Over any later history, faults
  included, the task is held and its holder's id never rises.\<close>

theorem claim_answers_are_true:
  "(case TryClaim window flt now c tbl of
      (None, tbl') \<Rightarrow> map_option row_event (tbl' (TaskID c)) = Some (EventID c) \<and>
        (case claim_run window xs tbl' (TaskID c) of None \<Rightarrow> False | Some r \<Rightarrow> row_event r \<le> EventID c)
    | (Some (ErrLost task w), tbl') \<Rightarrow> task = TaskID c \<and> tbl' = tbl \<and> map_option row_event (tbl task) = Some w
    | (Some StoreUnavailable, _) \<Rightarrow> True)"
proof (cases "TryClaim window flt now c tbl")
  case (Pair e tbl')
  show ?thesis
  proof (cases e)
    case None
    with Pair have "tbl' (TaskID c) = Some (row_of now c)" using TryClaim_ok by blast
    moreover from claim_run_mono [of tbl' "TaskID c" "row_of now c" window xs, OF this]
    obtain r' where "claim_run window xs tbl' (TaskID c) = Some r'" "row_event r' \<le> row_event (row_of now c)" by blast
    ultimately show ?thesis using None Pair by (simp add: row_of_def)
  next
    case (Some err)
    then show ?thesis
      using Pair TryClaim_lost [of window flt now c tbl _ _ tbl'] by (cases err) auto
  qed
qed

text \<open>An event outside the claim namespace passes without touching the store, whatever state
  the database is in; an event inside it that lacks the marker tag is refused, not waved
  through.\<close>

theorem only_claims_reach_the_store:
  "(if IsClaim ev
    then has_tag (ev_tags ev) ''t'' TagMarker \<or> (rejected (fst (reject_claim window flt now ev tbl)) \<and> snd (reject_claim window flt now ev tbl) = tbl)
    else reject_claim window flt now ev tbl = (Accept, tbl))"
  by (auto simp: reject_claim_def Validate_def Let_def hasTag_loop_iff split: sum.split)

text \<open>A claim event built for a task and signed validates as a claim of that task by its signer,
  for every task id that is not empty and has no white space at its ends.\<close>

theorem built_claim_validates:
  assumes "task \<noteq> ''''" "\<not> is_space (hd task)" "\<not> is_space (last task)" "i \<noteq> ''''"
  shows "Validate ((BuildClaimEvent task at)\<lparr>ev_id := i, ev_pubkey := pk\<rparr>) =
    Inr \<lparr>TaskID = task, EventID = i, Claimant = pk, At = at\<rparr>"
proof -
  let ?ev = "(BuildClaimEvent task at)\<lparr>ev_id := i, ev_pubkey := pk\<rparr>"
  have d: "claim_tagValue ?ev ''d'' = DTagPrefix @ task"
    by (simp add: claim_tagValue_def first_tag_def BuildClaimEvent_def)
  have "IsClaim ?ev" unfolding IsClaim_def d HasPrefix_append by (simp add: BuildClaimEvent_def)
  moreover have "TrimSpace (TrimPrefix (claim_tagValue ?ev ''d'') DTagPrefix) = task"
    unfolding d TrimPrefix_append using assms by (simp add: TrimSpace_id)
  ultimately have "TaskIDOf ?ev = task" by (simp add: TaskIDOf_def)
  with assms show ?thesis by (simp add: Validate_def Let_def BuildClaimEvent_def)
qed

lemma built_claim_validates_witness:
  "Validate ((BuildClaimEvent ''task-1'' 7)\<lparr>ev_id := ''e'', ev_pubkey := ''p''\<rparr>) =
    Inr \<lparr>TaskID = ''task-1'', EventID = ''e'', Claimant = ''p'', At = 7\<rparr>"
  by (rule built_claim_validates) (simp_all add: is_space_def)

end
