(* ===== verification/Trust_Gate.thy ===== *)
theory Trust_Gate
  imports Validation
begin

text \<open>
  internal/wot: trust levels from the follow graph (trust.go, store.go, pagerank.go), the trust
  gate with its token buckets, the follow-list hook, the per-user inbox filter
  (user_filter.go), and the configuration main builds for it.

  Token counts are floats in the code; the limit is a whole number per second and time is in
  nanoseconds, so the exact value is a whole number of billionths of a token, which is what the
  model keeps. Float rounding is not modelled.
\<close>

section \<open>Levels and policies\<close>

datatype TrustLevel = TrustLevelPaid | TrustLevelOwner | TrustLevelFollow | TrustLevelFollowOfFollow | TrustLevelUnknown

primrec level_String :: "TrustLevel \<Rightarrow> string" where
  "level_String TrustLevelPaid = ''paid''"
| "level_String TrustLevelOwner = ''owner''"
| "level_String TrustLevelFollow = ''follow''"
| "level_String TrustLevelFollowOfFollow = ''follow-of-follow''"
| "level_String TrustLevelUnknown = ''unknown''"

primrec level_number :: "TrustLevel \<Rightarrow> int" where
  "level_number TrustLevelPaid = -1"
| "level_number TrustLevelOwner = 0"
| "level_number TrustLevelFollow = 1"
| "level_number TrustLevelFollowOfFollow = 2"
| "level_number TrustLevelUnknown = 3"

text \<open>Levels are numbers in the code, the smaller the more trusted; the order of the type is that of the numbers.\<close>

instantiation TrustLevel :: linorder
begin

definition less_eq_TrustLevel :: "TrustLevel \<Rightarrow> TrustLevel \<Rightarrow> bool" where
  "less_eq_TrustLevel a b \<longleftrightarrow> level_number a \<le> level_number b"

definition less_TrustLevel :: "TrustLevel \<Rightarrow> TrustLevel \<Rightarrow> bool" where
  "less_TrustLevel a b \<longleftrightarrow> level_number a < level_number b"

instance
proof
  fix a b c :: TrustLevel
  show "a < b \<longleftrightarrow> a \<le> b \<and> \<not> b \<le> a" by (auto simp: less_eq_TrustLevel_def less_TrustLevel_def)
  show "a \<le> a" "a \<le> b \<or> b \<le> a" by (auto simp: less_eq_TrustLevel_def)
  show "a \<le> b \<Longrightarrow> b \<le> c \<Longrightarrow> a \<le> c" by (simp add: less_eq_TrustLevel_def)
  show "a \<le> b \<Longrightarrow> b \<le> a \<Longrightarrow> a = b" by (cases a; cases b) (simp_all add: less_eq_TrustLevel_def)
qed

end

record TrustPolicy =
  EventsPerSecond :: int
  RequirePoW :: bool
  tp_MinPoWDifficulty :: int

primrec DefaultPolicies :: "TrustLevel \<Rightarrow> TrustPolicy" where
  "DefaultPolicies TrustLevelPaid = \<lparr>EventsPerSecond = 50, RequirePoW = False, tp_MinPoWDifficulty = 0\<rparr>"
| "DefaultPolicies TrustLevelOwner = \<lparr>EventsPerSecond = 100, RequirePoW = False, tp_MinPoWDifficulty = 0\<rparr>"
| "DefaultPolicies TrustLevelFollow = \<lparr>EventsPerSecond = 50, RequirePoW = False, tp_MinPoWDifficulty = 0\<rparr>"
| "DefaultPolicies TrustLevelFollowOfFollow = \<lparr>EventsPerSecond = 20, RequirePoW = False, tp_MinPoWDifficulty = 0\<rparr>"
| "DefaultPolicies TrustLevelUnknown = \<lparr>EventsPerSecond = 5, RequirePoW = False, tp_MinPoWDifficulty = 0\<rparr>"

text \<open>The overrides main applies to the unknown level.\<close>

definition main_policies :: "wot_settings \<Rightarrow> TrustLevel \<Rightarrow> TrustPolicy" where
  "main_policies cfg =
     (let p0 = DefaultPolicies;
          p1 = (if WoTUnknownPoWBits cfg > 0
                then p0(TrustLevelUnknown := (p0 TrustLevelUnknown)\<lparr>RequirePoW := True, tp_MinPoWDifficulty := WoTUnknownPoWBits cfg\<rparr>)
                else p0)
      in if WoTUnknownRateLimit cfg > 0
         then p1(TrustLevelUnknown := (p1 TrustLevelUnknown)\<lparr>EventsPerSecond := WoTUnknownRateLimit cfg\<rparr>)
         else p1)"

definition wot_enabled :: "wot_settings \<Rightarrow> bool" where
  "wot_enabled cfg \<longleftrightarrow> WoTEnabled cfg \<and> (WoTOwnerPubkey cfg \<noteq> '''' \<or> WoTTrustRoots cfg \<noteq> [])"

text \<open>\<open>RegisterHandlers\<close> prefers the list, \<open>NewTrustCalculator\<close> drops empty roots.\<close>

definition trust_roots :: "wot_settings \<Rightarrow> string list" where
  "trust_roots cfg = filter (\<lambda>r. r \<noteq> '''')
     (if WoTTrustRoots cfg = [] \<and> WoTOwnerPubkey cfg \<noteq> '''' then [WoTOwnerPubkey cfg] else WoTTrustRoots cfg)"

section \<open>The follow graph and its cache\<close>

text \<open>
  \<open>wot_follows\<close> by follower; the in-memory cache of levels with their time; the external
  cache (Redis), absent when none is configured.
\<close>

record wot_store =
  follows :: "string \<Rightarrow> string list"
  memCache :: "string \<Rightarrow> (TrustLevel \<times> int) option"
  extCache :: "(string \<Rightarrow> TrustLevel option) option"

definition GetCachedTrust :: "bool \<Rightarrow> int \<Rightarrow> int \<Rightarrow> string \<Rightarrow> wot_store \<Rightarrow> TrustLevel option" where
  "GetCachedTrust ext_up ttl now pk s =
     (case (case extCache s of Some m \<Rightarrow> if ext_up then m pk else None | None \<Rightarrow> None) of
        Some l \<Rightarrow> Some l
      | None \<Rightarrow>
          case memCache s pk of
            None \<Rightarrow> None
          | Some (l, at) \<Rightarrow> if now - at > ttl then None else Some l)"

definition SetCachedTrust :: "bool \<Rightarrow> int \<Rightarrow> string \<Rightarrow> TrustLevel \<Rightarrow> wot_store \<Rightarrow> wot_store" where
  "SetCachedTrust ext_up now pk l s =
     s\<lparr>memCache := (memCache s)(pk \<mapsto> (l, now)),
       extCache := map_option (\<lambda>m. if ext_up then m(pk \<mapsto> l) else m) (extCache s)\<rparr>"

definition invalidateCache :: "bool \<Rightarrow> string \<Rightarrow> wot_store \<Rightarrow> wot_store" where
  "invalidateCache ext_up pk s =
     s\<lparr>memCache := (memCache s)(pk := None),
       extCache := map_option (\<lambda>m. if ext_up then m(pk := None) else m) (extCache s)\<rparr>"

definition ClearCache :: "bool \<Rightarrow> wot_store \<Rightarrow> wot_store" where
  "ClearCache ext_up s =
     s\<lparr>memCache := Map.empty, extCache := map_option (\<lambda>m. if ext_up then Map.empty else m) (extCache s)\<rparr>"

text \<open>One transaction: delete the follower's rows, insert the new ones, then forget the cached
  levels of the follower and the new followees.\<close>

definition UpdateFollows :: "bool \<Rightarrow> bool \<Rightarrow> string \<Rightarrow> string list \<Rightarrow> wot_store \<Rightarrow> bool \<times> wot_store" where
  "UpdateFollows tx_ok ext_up follower followees s =
     (if \<not> tx_ok then (False, s)
      else (True, fold (invalidateCache ext_up) (follower # followees)
                    (s\<lparr>follows := (follows s)(follower := remdups followees)\<rparr>)))"

text \<open>Queries with their faults: \<open>None\<close> is an error.\<close>

record graph_faults =
  edge_fails :: "string \<Rightarrow> string \<Rightarrow> bool"
  list_fails :: "string \<Rightarrow> bool"

definition IsFollowing :: "graph_faults \<Rightarrow> wot_store \<Rightarrow> string \<Rightarrow> string \<Rightarrow> bool option" where
  "IsFollowing flt s a b = (if edge_fails flt a b then None else Some (b \<in> set (follows s a)))"

definition GetFollows :: "graph_faults \<Rightarrow> wot_store \<Rightarrow> string \<Rightarrow> string list option" where
  "GetFollows flt s a = (if list_fails flt a then None else Some (follows s a))"

section \<open>Trust levels\<close>

fun followed_by_any :: "graph_faults \<Rightarrow> wot_store \<Rightarrow> string list \<Rightarrow> string \<Rightarrow> bool" where
  "followed_by_any flt s [] pk = False"
| "followed_by_any flt s (r # rs) pk =
     (case IsFollowing flt s r pk of
        None \<Rightarrow> followed_by_any flt s rs pk
      | Some yes \<Rightarrow> if yes then True else followed_by_any flt s rs pk)"

fun followed_at_two :: "graph_faults \<Rightarrow> wot_store \<Rightarrow> string list \<Rightarrow> string \<Rightarrow> bool" where
  "followed_at_two flt s [] pk = False"
| "followed_at_two flt s (r # rs) pk =
     (case GetFollows flt s r of
        None \<Rightarrow> followed_at_two flt s rs pk
      | Some fs \<Rightarrow> if followed_by_any flt s fs pk then True else followed_at_two flt s rs pk)"

definition calculateTrustLevel :: "graph_faults \<Rightarrow> wot_store \<Rightarrow> string list \<Rightarrow> int \<Rightarrow> string \<Rightarrow> TrustLevel" where
  "calculateTrustLevel flt s roots maxDepth pk =
     (if pk \<in> set roots then TrustLevelOwner
      else if followed_by_any flt s roots pk then TrustLevelFollow
      else if maxDepth \<ge> 2 \<and> followed_at_two flt s roots pk then TrustLevelFollowOfFollow
      else TrustLevelUnknown)"

text \<open>\<open>NewTrustCalculator\<close> defaults a non-positive depth.\<close>

definition effective_depth :: "int \<Rightarrow> int" where
  "effective_depth d = (if d \<le> 0 then 2 else d)"

record wot_env =
  we_now :: int
  we_ext_up :: bool
  we_faults :: graph_faults

definition calc_GetTrustLevel :: "wot_env \<Rightarrow> int \<Rightarrow> string list \<Rightarrow> int \<Rightarrow> string \<Rightarrow> wot_store \<Rightarrow> TrustLevel \<times> wot_store" where
  "calc_GetTrustLevel env ttl roots depth pk s =
     (case GetCachedTrust (we_ext_up env) ttl (we_now env) pk s of
        Some l \<Rightarrow> (l, s)
      | None \<Rightarrow>
          (let l = calculateTrustLevel (we_faults env) s roots (effective_depth depth) pk
           in (l, SetCachedTrust (we_ext_up env) (we_now env) pk l s)))"

text \<open>PageRank scores are only compared; the score is a parameter of any ordered type.\<close>

definition GetTrustLevelFromPageRank :: "string list \<Rightarrow> 'f :: {linorder, zero} \<Rightarrow> 'f \<Rightarrow> (string \<Rightarrow> 'f) \<Rightarrow> string \<Rightarrow> TrustLevel" where
  "GetTrustLevelFromPageRank roots follow_thr fof_thr score pk =
     (if pk \<in> set roots then TrustLevelOwner
      else if score pk = 0 then TrustLevelUnknown
      else if score pk \<ge> follow_thr then TrustLevelFollow
      else if score pk \<ge> fof_thr then TrustLevelFollowOfFollow
      else TrustLevelUnknown)"

text \<open>The handler's configuration; \<open>th_pagerank\<close> is the PageRank classification when enabled.\<close>

record trust_handler =
  th_roots :: "string list"
  th_depth :: int
  th_ttl :: int
  th_policies :: "TrustLevel \<Rightarrow> TrustPolicy"
  th_allowed :: "string list"
  th_collab_kinds :: "int list"
  th_collab_rate :: int
  th_paid :: "(string \<Rightarrow> bool) option"
  th_pagerank :: "(string \<Rightarrow> TrustLevel) option"

definition getTrustLevel :: "trust_handler \<Rightarrow> wot_env \<Rightarrow> string \<Rightarrow> wot_store \<Rightarrow> TrustLevel \<times> wot_store" where
  "getTrustLevel h env pk s =
     (if pk \<in> set (th_roots h) then (TrustLevelOwner, s)
      else if (case th_paid h of None \<Rightarrow> False | Some paid \<Rightarrow> paid pk) then (TrustLevelPaid, s)
      else case th_pagerank h of
        Some level \<Rightarrow> (level pk, s)
      | None \<Rightarrow> calc_GetTrustLevel env (th_ttl h) (th_roots h) (th_depth h) pk s)"

section \<open>Token buckets\<close>

record rateBucket =
  b_tokens :: int
  lastTime :: int
  b_limit :: int

definition bucket_allow :: "int \<Rightarrow> rateBucket \<Rightarrow> bool \<times> rateBucket" where
  "bucket_allow now b =
     (let elapsed = now - lastTime b;
          t = b_tokens b + elapsed * b_limit b;
          burst = b_limit b * 2 * ns_per_sec;
          t = (if t > burst then burst else t)
      in if t < ns_per_sec then (False, b\<lparr>b_tokens := t, lastTime := now\<rparr>)
         else (True, b\<lparr>b_tokens := t - ns_per_sec, lastTime := now\<rparr>))"

type_synonym buckets = "string \<Rightarrow> rateBucket option"

definition new_bucket :: "int \<Rightarrow> int \<Rightarrow> rateBucket" where
  "new_bucket now eventsPerSec = \<lparr>b_tokens = eventsPerSec * ns_per_sec, lastTime = now, b_limit = eventsPerSec\<rparr>"

definition getOrCreateBucket :: "int \<Rightarrow> string \<Rightarrow> int \<Rightarrow> buckets \<Rightarrow> rateBucket \<times> buckets" where
  "getOrCreateBucket now key eventsPerSec bs =
     (case bs key of
        Some b \<Rightarrow> (b, bs)
      | None \<Rightarrow> (let b = new_bucket now eventsPerSec in (b, bs(key \<mapsto> b))))"

definition spend :: "int \<Rightarrow> string \<Rightarrow> int \<Rightarrow> buckets \<Rightarrow> bool \<times> buckets" where
  "spend now key eventsPerSec bs =
     (case getOrCreateBucket now key eventsPerSec bs of
        (b, bs') \<Rightarrow> (case bucket_allow now b of (ok, b') \<Rightarrow> (ok, bs'(key \<mapsto> b'))))"

definition sweepStaleBuckets :: "int \<Rightarrow> int \<Rightarrow> buckets \<Rightarrow> buckets" where
  "sweepStaleBuckets now maxIdle bs =
     (\<lambda>k. case bs k of Some b \<Rightarrow> if lastTime b < now - maxIdle then None else Some b | None \<Rightarrow> None)"

section \<open>The trust gate\<close>

record wot_state =
  ws_store :: wot_store
  ws_buckets :: buckets

definition authorIsAuthenticated :: "string \<Rightarrow> string \<Rightarrow> bool" where
  "authorIsAuthenticated authed pk \<longleftrightarrow> authed \<noteq> '''' \<and> authed = pk"

definition collabBucketPrefix :: string where "collabBucketPrefix = ''collab:''"

definition wot_pow_check :: "TrustPolicy \<Rightarrow> event \<Rightarrow> verdict" where
  "wot_pow_check policy ev =
     (if RequirePoW policy \<and> tp_MinPoWDifficulty policy > 0
      then (let difficulty = int (countLeadingZeroBits (ev_id ev)) in
            if difficulty < tp_MinPoWDifficulty policy
            then Reject (''pow: low trust requires proof of work (got '' @ fmt_d difficulty @ '', need '' @ fmt_d (tp_MinPoWDifficulty policy) @ '')'')
            else Accept)
      else Accept)"

definition wot_rate_check :: "trust_handler \<Rightarrow> int \<Rightarrow> TrustLevel \<Rightarrow> TrustPolicy \<Rightarrow> event \<Rightarrow> buckets \<Rightarrow> verdict \<times> buckets" where
  "wot_rate_check h now level policy ev bs =
     (if ev_kind ev \<in> set (th_collab_kinds h) \<and> th_collab_rate h > 0 then
        (if EventsPerSecond policy > 0 then
           (let rate = max (EventsPerSecond policy) (th_collab_rate h) in
            case spend now (collabBucketPrefix @ ev_pubkey ev) rate bs of
              (True, bs') \<Rightarrow> (Accept, bs')
            | (False, bs') \<Rightarrow> (Reject (''rate-limited: trust level '' @ level_String level @ '' allows '' @ fmt_d rate @ '' collaboration events/sec''), bs'))
         else (Accept, bs))
      else if EventsPerSecond policy > 0 then
        (case spend now (ev_pubkey ev) (EventsPerSecond policy) bs of
           (True, bs') \<Rightarrow> (Accept, bs')
         | (False, bs') \<Rightarrow> (Reject (''rate-limited: trust level '' @ level_String level @ '' allows '' @ fmt_d (EventsPerSecond policy) @ '' events/sec''), bs'))
      else (Accept, bs))"

definition RejectEventByTrust :: "trust_handler \<Rightarrow> wot_env \<Rightarrow> reqctx \<Rightarrow> event \<Rightarrow> wot_state gate" where
  "RejectEventByTrust h env ctx ev s =
     (if ev_kind ev = 24133 then (Accept, s)
      else if ev_pubkey ev \<in> set (th_allowed h) then (Accept, s)
      else case getTrustLevel h env (ev_pubkey ev) (ws_store s) of
        (level, store') \<Rightarrow>
          (let policy = th_policies h level in
           case wot_rate_check h (we_now env) level policy ev (ws_buckets s) of
             (Reject m, bs') \<Rightarrow> (Reject m, s\<lparr>ws_store := store', ws_buckets := bs'\<rparr>)
           | (Accept, bs') \<Rightarrow>
               (if authorIsAuthenticated (ctx_authed ctx) (ev_pubkey ev) then Accept else wot_pow_check policy ev,
                s\<lparr>ws_store := store', ws_buckets := bs'\<rparr>)))"

definition wot_OnEventSaved :: "bool \<Rightarrow> bool \<Rightarrow> event \<Rightarrow> wot_state \<Rightarrow> wot_state" where
  "wot_OnEventSaved tx_ok ext_up ev s =
     (if ev_kind ev \<noteq> 3 then s
      else let followees = all_tags (ev_tags ev) ''p'' in
        if followees \<noteq> [] then s\<lparr>ws_store := snd (UpdateFollows tx_ok ext_up (ev_pubkey ev) followees (ws_store s))\<rparr>
        else s)"

section \<open>Per-user inbox filter\<close>

datatype FilterSource = FilterSourceUserBlock | FilterSourceUserTrust | FilterSourceDefault

record FilterResult =
  fr_allowed :: bool
  fr_reason :: string
  fr_source :: FilterSource

text \<open>The settings store answers or fails (\<open>None\<close>); the store itself may be absent.\<close>

record user_settings_api =
  IsBlockedBy :: "string \<Rightarrow> string \<Rightarrow> bool option"
  IsTrustedBy :: "string \<Rightarrow> string \<Rightarrow> bool option"

definition ShouldAllowToInbox :: "user_settings_api option \<Rightarrow> event option \<Rightarrow> string \<Rightarrow> FilterResult" where
  "ShouldAllowToInbox api mev recipient =
     (case mev of
        None \<Rightarrow> \<lparr>fr_allowed = True, fr_reason = '''', fr_source = FilterSourceDefault\<rparr>
      | Some ev \<Rightarrow>
          case api of
            None \<Rightarrow> \<lparr>fr_allowed = True, fr_reason = '''', fr_source = FilterSourceDefault\<rparr>
          | Some st \<Rightarrow>
              if IsBlockedBy st recipient (ev_pubkey ev) = Some True
              then \<lparr>fr_allowed = False, fr_reason = ''sender is on recipient's blocklist'', fr_source = FilterSourceUserBlock\<rparr>
              else if IsTrustedBy st recipient (ev_pubkey ev) = Some True
              then \<lparr>fr_allowed = True, fr_reason = '''', fr_source = FilterSourceUserTrust\<rparr>
              else \<lparr>fr_allowed = True, fr_reason = '''', fr_source = FilterSourceDefault\<rparr>)"

section \<open>Facts about levels\<close>

definition no_graph_faults :: graph_faults where
  "no_graph_faults = \<lparr>edge_fails = (\<lambda>_ _. False), list_fails = (\<lambda>_. False)\<rparr>"

lemma followed_by_any_iff:
  "followed_by_any flt s rs pk \<longleftrightarrow> (\<exists>r \<in> set rs. \<not> edge_fails flt r pk \<and> pk \<in> set (follows s r))"
  by (induction rs) (auto simp: IsFollowing_def)

lemma followed_at_two_iff:
  "followed_at_two flt s rs pk \<longleftrightarrow>
     (\<exists>r \<in> set rs. \<not> list_fails flt r \<and> (\<exists>f \<in> set (follows s r). \<not> edge_fails flt f pk \<and> pk \<in> set (follows s f)))"
  by (induction rs) (auto simp: GetFollows_def followed_by_any_iff)

text \<open>The follow graph as a relation.\<close>

definition follow_edges :: "wot_store \<Rightarrow> (string \<times> string) set" where
  "follow_edges s = {(a, b). b \<in> set (follows s a)}"

definition at_distance :: "wot_store \<Rightarrow> string list \<Rightarrow> nat \<Rightarrow> string \<Rightarrow> bool" where
  "at_distance s roots n pk \<longleftrightarrow> (\<exists>r \<in> set roots. (r, pk) \<in> follow_edges s ^^ n)"

lemma at_distance_simps:
  "at_distance s roots 0 pk \<longleftrightarrow> pk \<in> set roots"
  "at_distance s roots (Suc 0) pk \<longleftrightarrow> (\<exists>r \<in> set roots. pk \<in> set (follows s r))"
  "at_distance s roots 2 pk \<longleftrightarrow> (\<exists>r \<in> set roots. \<exists>f \<in> set (follows s r). pk \<in> set (follows s f))"
  by (auto simp: at_distance_def follow_edges_def numeral_2_eq_2 relcomp_unfold)

section \<open>Facts about buckets\<close>

text \<open>Admitted attempts of one bucket over a list of times.\<close>

fun bucket_run :: "int list \<Rightarrow> rateBucket \<Rightarrow> int" where
  "bucket_run [] b = 0"
| "bucket_run (t # ts) b = (case bucket_allow t b of (ok, b') \<Rightarrow> (if ok then 1 else 0) + bucket_run ts b')"

lemma bucket_allow_spends:
  assumes "bucket_allow t b = (ok, b')" "lastTime b \<le> t" "0 \<le> b_limit b" "0 \<le> b_tokens b"
  shows "(if ok then ns_per_sec else 0) + b_tokens b' \<le> b_tokens b + (t - lastTime b) * b_limit b \<and>
    lastTime b' = t \<and> b_limit b' = b_limit b \<and> 0 \<le> b_tokens b'"
proof -
  have "0 \<le> (t - lastTime b) * b_limit b" using assms(2,3) by simp
  then show ?thesis
    using assms by (auto simp: bucket_allow_def Let_def split: if_splits)
qed

lemma bucket_run_bound:
  assumes "sorted (lastTime b # ts)" "0 \<le> b_limit b" "0 \<le> b_tokens b"
  shows "bucket_run ts b * ns_per_sec \<le> b_tokens b + (last (lastTime b # ts) - lastTime b) * b_limit b"
  using assms
proof (induction ts arbitrary: b)
  case Nil
  then show ?case by simp
next
  case (Cons t ts)
  obtain ok b' where step: "bucket_allow t b = (ok, b')" by (cases "bucket_allow t b")
  note sp = bucket_allow_spends [OF step]
  from Cons.prems have le: "lastTime b \<le> t" by simp
  with sp Cons.prems have b': "lastTime b' = t" "b_limit b' = b_limit b" "0 \<le> b_tokens b'"
    and cost: "(if ok then ns_per_sec else 0) + b_tokens b' \<le> b_tokens b + (t - lastTime b) * b_limit b" by simp_all
  have "sorted (lastTime b' # ts)" using Cons.prems(1) b'(1) by simp
  from Cons.IH [OF this] b' Cons.prems(2)
  have "bucket_run ts b' * ns_per_sec \<le> b_tokens b' + (last (t # ts) - t) * b_limit b" by simp
  with cost have "((if ok then 1 else 0) + bucket_run ts b') * ns_per_sec
      \<le> b_tokens b + ((t - lastTime b) + (last (t # ts) - t)) * b_limit b"
    by (simp add: algebra_simps split: if_splits)
  then show ?case using step by simp
qed

section \<open>Properties\<close>

text \<open>C20: With the database answering and nothing cached, the computed level is the distance from
  the trust roots in the follow graph, up to two steps; a query that fails can only make a key
  less trusted, never more.\<close>

theorem trust_level_is_graph_distance:
  "(let l = calculateTrustLevel no_graph_faults s roots 2 pk in
      (l = TrustLevelOwner \<longleftrightarrow> at_distance s roots 0 pk) \<and>
      (l = TrustLevelFollow \<longleftrightarrow> \<not> at_distance s roots 0 pk \<and> at_distance s roots 1 pk) \<and>
      (l = TrustLevelFollowOfFollow \<longleftrightarrow> \<not> at_distance s roots 0 pk \<and> \<not> at_distance s roots 1 pk \<and> at_distance s roots 2 pk) \<and>
      l \<noteq> TrustLevelPaid) \<and>
   calculateTrustLevel no_graph_faults s roots depth pk \<le> calculateTrustLevel flt s roots depth pk"
proof
  show "(let l = calculateTrustLevel no_graph_faults s roots 2 pk in
      (l = TrustLevelOwner \<longleftrightarrow> at_distance s roots 0 pk) \<and>
      (l = TrustLevelFollow \<longleftrightarrow> \<not> at_distance s roots 0 pk \<and> at_distance s roots 1 pk) \<and>
      (l = TrustLevelFollowOfFollow \<longleftrightarrow> \<not> at_distance s roots 0 pk \<and> \<not> at_distance s roots 1 pk \<and> at_distance s roots 2 pk) \<and>
      l \<noteq> TrustLevelPaid)"
    by (simp add: Let_def calculateTrustLevel_def at_distance_simps followed_by_any_iff followed_at_two_iff no_graph_faults_def)
  show "calculateTrustLevel no_graph_faults s roots depth pk \<le> calculateTrustLevel flt s roots depth pk"
    by (auto simp: calculateTrustLevel_def followed_by_any_iff followed_at_two_iff no_graph_faults_def less_eq_TrustLevel_def)
qed

text \<open>A writer whose connection is authenticated as the event's author is never asked for proof
  of work by the trust gate, whatever its level: the only refusal it can get there is a rate
  limit.\<close>

theorem authed_author_never_asked_for_pow:
  assumes "ctx_authed ctx = ev_pubkey ev" "ev_pubkey ev \<noteq> ''''"
  shows "(case fst (RejectEventByTrust h env ctx ev s) of Accept \<Rightarrow> True | Reject m \<Rightarrow> HasPrefix m ''rate-limited: trust level '')"
proof -
  obtain level st where l: "getTrustLevel h env (ev_pubkey ev) (ws_store s) = (level, st)"
    by (cases "getTrustLevel h env (ev_pubkey ev) (ws_store s)")
  obtain v bs where r: "wot_rate_check h (we_now env) level (th_policies h level) ev (ws_buckets s) = (v, bs)"
    by (cases "wot_rate_check h (we_now env) level (th_policies h level) ev (ws_buckets s)")
  have "v = Accept \<or> (\<exists>m. v = Reject (''rate-limited: trust level '' @ m))"
    using r by (auto simp: wot_rate_check_def Let_def split: if_splits prod.splits bool.splits)
  moreover have "HasPrefix (''rate-limited: trust level '' @ m) ''rate-limited: trust level ''" for m
    by (rule HasPrefix_append)
  ultimately show ?thesis
    using assms l r by (auto simp: RejectEventByTrust_def authorIsAuthenticated_def Let_def simp del: append.simps HasPrefix.simps)
qed

definition demo_handler :: trust_handler where
  "demo_handler = \<lparr>th_roots = [''root''], th_depth = 2, th_ttl = 300 * ns_per_sec,
     th_policies = main_policies ((load_wot (\<lambda>_. ''''))\<lparr>WoTUnknownPoWBits := 8\<rparr>), th_allowed = [], th_collab_kinds = [25078],
     th_collab_rate = 20, th_paid = None, th_pagerank = None\<rparr>"

definition demo_env :: wot_env where
  "demo_env = \<lparr>we_now = 0, we_ext_up = False, we_faults = no_graph_faults\<rparr>"

definition demo_state :: wot_state where
  "demo_state = \<lparr>ws_store = \<lparr>follows = (\<lambda>p. if p = ''root'' then [''friend''] else []), memCache = Map.empty, extCache = None\<rparr>,
     ws_buckets = Map.empty\<rparr>"

lemma authed_author_never_asked_for_pow_witness:
  "(case fst (RejectEventByTrust demo_handler demo_env \<lparr>ctx_authed = ''x'', ctx_ip = '''', ctx_now = 0\<rparr>
      (pow_example\<lparr>ev_pubkey := ''x''\<rparr>) demo_state) of Accept \<Rightarrow> True | Reject m \<Rightarrow> HasPrefix m ''rate-limited: trust level '')"
  by (rule authed_author_never_asked_for_pow) simp_all

text \<open>A key's token bucket admits, over any run of attempts, at most what it holds plus its
  rate times the time that passes; a new bucket starts with one second's worth, so in its first
  \<open>T\<close> seconds a key gets at most \<open>limit * (1 + T)\<close> events.\<close>

theorem trust_bucket_bound:
  assumes "sorted (now # ts)" "0 \<le> lim"
  shows "bucket_run ts (new_bucket now lim) * ns_per_sec \<le> lim * (ns_per_sec + (last (now # ts) - now))"
  using bucket_run_bound [of "new_bucket now lim" ts] assms
  by (simp add: new_bucket_def algebra_simps)

lemma trust_bucket_bound_witness:
  "bucket_run [1, 2, 3, 500000000] (new_bucket 0 2) * ns_per_sec \<le> 2 * (ns_per_sec + (500000000 - 0))"
  using trust_bucket_bound [of 0 "[1, 2, 3, 500000000]" 2] by simp

text \<open>A contact list with nobody on it is skipped, so unfollowing everybody leaves the old
  follows, and with them the trust of the keys followed, in place.\<close>

theorem empty_contact_list_keeps_follows:
  "wot_OnEventSaved tx_ok ext_up (ev\<lparr>ev_kind := 3, ev_tags := []\<rparr>) s = s"
  by (simp add: wot_OnEventSaved_def)

text \<open>A new contact list forgets the cached levels of the keys on it, not of the keys dropped
  from it: a key a trust root has just unfollowed keeps its cached level until the cache expires.\<close>

theorem unfollowed_key_keeps_cached_level:
  "\<exists>s s'. UpdateFollows True True ''root'' [''other''] s = (True, s') \<and>
     ''friend'' \<in> set (follows s ''root'') \<and> ''friend'' \<notin> set (follows s' ''root'') \<and>
     calculateTrustLevel no_graph_faults s' [''root''] 2 ''friend'' = TrustLevelUnknown \<and>
     fst (calc_GetTrustLevel \<lparr>we_now = 1, we_ext_up = True, we_faults = no_graph_faults\<rparr> (300 * ns_per_sec) [''root''] 2 ''friend'' s')
       = TrustLevelFollow"
proof (intro exI conjI)
  let ?s = "\<lparr>follows = (\<lambda>p. if p = ''root'' then [''friend''] else []),
    memCache = [''friend'' \<mapsto> (TrustLevelFollow, 0)], extCache = None\<rparr>"
  let ?s' = "snd (UpdateFollows True True ''root'' [''other''] ?s)"
  show "UpdateFollows True True ''root'' [''other''] ?s = (True, ?s')" by (simp add: UpdateFollows_def)
  have f: "follows ?s' = (\<lambda>p. if p = ''root'' then [''other''] else [])" and m: "memCache ?s' ''friend'' = Some (TrustLevelFollow, 0)"
    and e: "extCache ?s' = None"
    by (auto simp: UpdateFollows_def invalidateCache_def)
  show "''friend'' \<in> set (follows ?s ''root'')" by simp
  show "''friend'' \<notin> set (follows ?s' ''root'')" by (simp add: f)
  show "calculateTrustLevel no_graph_faults ?s' [''root''] 2 ''friend'' = TrustLevelUnknown"
    by (simp add: calculateTrustLevel_def followed_by_any_iff followed_at_two_iff f no_graph_faults_def)
  show "fst (calc_GetTrustLevel \<lparr>we_now = 1, we_ext_up = True, we_faults = no_graph_faults\<rparr> (300 * ns_per_sec) [''root''] 2 ''friend'' ?s')
       = TrustLevelFollow"
    by (simp add: calc_GetTrustLevel_def GetCachedTrust_def m e)
qed

end
