(* ===== verification/Gift_Wrap.thy ===== *)
theory Gift_Wrap
  imports Nostr_Data
begin

text \<open>
  internal/giftwrap: who may query NIP-59 gift wraps; internal/zaps: the structural check of
  NIP-57 zap receipts. JSON decoding, \<open>fmt.Sscanf\<close> and \<open>strings.ToLower\<close> are
  parameters.
\<close>

section \<open>Gift wraps\<close>

abbreviation KindSeal :: int where "KindSeal \<equiv> 13"
abbreviation KindGiftWrap :: int where "KindGiftWrap \<equiv> 1059"

record giftwrap_config =
  gw_enabled :: bool
  gw_require_auth :: bool

definition giftwrap_DefaultConfig :: giftwrap_config where
  "giftwrap_DefaultConfig = \<lparr>gw_enabled = True, gw_require_auth = True\<rparr>"

definition RejectGiftWrapFilter :: "giftwrap_config \<Rightarrow> reqctx \<Rightarrow> nfilter \<Rightarrow> verdict" where
  "RejectGiftWrapFilter cfg ctx f =
     (if KindGiftWrap \<notin> set (f_kinds f) then Accept
      else if \<not> gw_require_auth cfg then Accept
      else if ctx_authed ctx = '''' then Reject ''auth-required: authentication required to query gift wrap events''
      else if tag_values f ''p'' = [] then Reject ''restricted: must filter by your pubkey when querying gift wrap events''
      else if ctx_authed ctx \<notin> set (tag_values f ''p'') then Reject ''restricted: can only query gift wrap events addressed to you''
      else Accept)"

definition OverwriteGiftWrapFilter :: "reqctx \<Rightarrow> nfilter \<Rightarrow> nfilter" where
  "OverwriteGiftWrapFilter ctx f =
     (if KindGiftWrap \<notin> set (f_kinds f) then f
      else if ctx_authed ctx = '''' then f
      else f\<lparr>f_tags := (f_tags f)(''p'' \<mapsto> [ctx_authed ctx])\<rparr>)"

text \<open>
  \<open>RegisterHandlers\<close> adds both or neither. The framework rewrites a filter first and
  judges what it became.
\<close>

definition giftwrap_pipeline :: "giftwrap_config \<Rightarrow> reqctx \<Rightarrow> nfilter \<Rightarrow> verdict \<times> nfilter" where
  "giftwrap_pipeline cfg ctx f =
     (if gw_require_auth cfg
      then (let f' = OverwriteGiftWrapFilter ctx f in (RejectGiftWrapFilter cfg ctx f', f'))
      else (Accept, f))"

text \<open>The meaning of a filter (NIP-01) as far as its fields go here: each non-empty field
  restricts.\<close>

definition filter_selects :: "nfilter \<Rightarrow> event \<Rightarrow> bool" where
  "filter_selects f ev \<longleftrightarrow>
     (f_ids f = [] \<or> ev_id ev \<in> set (f_ids f)) \<and>
     (f_authors f = [] \<or> ev_pubkey ev \<in> set (f_authors f)) \<and>
     (f_kinds f = [] \<or> ev_kind ev \<in> set (f_kinds f)) \<and>
     (\<forall>k vs. f_tags f k = Some vs \<longrightarrow> vs = [] \<or> (\<exists>v \<in> set vs. has_tag (ev_tags ev) k v))"

section \<open>Zap receipts\<close>

abbreviation KindZapRequest :: int where "KindZapRequest \<equiv> 9734"
abbreviation KindZapReceipt :: int where "KindZapReceipt \<equiv> 9735"

record zap_config =
  zap_enabled :: bool
  zap_validate :: bool
  zap_bolt11 :: bool

definition zap_DefaultConfig :: zap_config where
  "zap_DefaultConfig = \<lparr>zap_enabled = True, zap_validate = True, zap_bolt11 = False\<rparr>"

record zap_receipt =
  RecipientPubkey :: string
  SenderPubkey :: string
  zr_EventID :: string
  Bolt11 :: string
  Description :: string
  Preimage :: string
  AmountMsat :: int

record zap_lib =
  request_tags :: "string \<Rightarrow> tag list option"
  json_object :: "string \<Rightarrow> bool"
  Sscanf_d :: "string \<Rightarrow> int"
  profile_lud :: "string \<Rightarrow> (string \<times> string) option"
  ToLower :: "string \<Rightarrow> string"

fun zap_tag :: "tag \<Rightarrow> zap_receipt \<Rightarrow> zap_receipt" where
  "zap_tag (n # v # rest) zr =
     (if n = ''p'' then zr\<lparr>RecipientPubkey := v\<rparr>
      else if n = ''P'' then zr\<lparr>SenderPubkey := v\<rparr>
      else if n = ''e'' then zr\<lparr>zr_EventID := v\<rparr>
      else if n = ''bolt11'' then zr\<lparr>Bolt11 := v\<rparr>
      else if n = ''description'' then zr\<lparr>Description := v\<rparr>
      else if n = ''preimage'' then zr\<lparr>Preimage := v\<rparr>
      else zr)"
| "zap_tag _ zr = zr"

definition empty_receipt :: zap_receipt where
  "empty_receipt = \<lparr>RecipientPubkey = '''', SenderPubkey = '''', zr_EventID = '''', Bolt11 = '''', Description = '''',
     Preimage = '''', AmountMsat = 0\<rparr>"

definition parseAmountFromDescription :: "zap_lib \<Rightarrow> string \<Rightarrow> int" where
  "parseAmountFromDescription lib desc =
     (case request_tags lib desc of
        None \<Rightarrow> 0
      | Some ts \<Rightarrow> (case tag_scan ts ''amount'' of Some v \<Rightarrow> Sscanf_d lib v | None \<Rightarrow> 0))"

definition ParseZapReceipt :: "zap_lib \<Rightarrow> event \<Rightarrow> string + zap_receipt" where
  "ParseZapReceipt lib ev =
     (if ev_kind ev \<noteq> KindZapReceipt then Inl (''expected kind '' @ fmt_d KindZapReceipt @ '', got '' @ fmt_d (ev_kind ev))
      else let zr = fold zap_tag (ev_tags ev) empty_receipt in
        Inr (if Description zr \<noteq> '''' then zr\<lparr>AmountMsat := parseAmountFromDescription lib (Description zr)\<rparr> else zr))"

text \<open>The text of the JSON error is not kept.\<close>

definition zap_Validate :: "zap_lib \<Rightarrow> zap_receipt \<Rightarrow> string option" where
  "zap_Validate lib zr =
     (if RecipientPubkey zr = '''' then Some ''missing recipient pubkey (p tag)''
      else if length (RecipientPubkey zr) \<noteq> 64 then Some ''invalid recipient pubkey length''
      else if Description zr = '''' then Some ''missing description tag (zap request)''
      else if \<not> json_object lib (Description zr) then Some ''invalid zap request JSON in description''
      else None)"

definition RejectInvalidZapReceipt :: "zap_lib \<Rightarrow> zap_config \<Rightarrow> event \<Rightarrow> verdict" where
  "RejectInvalidZapReceipt lib cfg ev =
     (if ev_kind ev \<noteq> KindZapReceipt then Accept
      else if \<not> zap_validate cfg then Accept
      else case ParseZapReceipt lib ev of
        Inl err \<Rightarrow> Reject (''invalid: '' @ err)
      | Inr zr \<Rightarrow>
          case zap_Validate lib zr of
            Some err \<Rightarrow> Reject (''invalid: '' @ err)
          | None \<Rightarrow> if zap_bolt11 cfg \<and> Bolt11 zr = '''' then Reject ''invalid: missing bolt11 tag'' else Accept)"

definition IsZapReceipt :: "event \<Rightarrow> bool" where "IsZapReceipt ev \<longleftrightarrow> ev_kind ev = KindZapReceipt"
definition IsZapRequest :: "event \<Rightarrow> bool" where "IsZapRequest ev \<longleftrightarrow> ev_kind ev = KindZapRequest"

definition GetZappedEventID :: "event \<Rightarrow> string" where
  "GetZappedEventID ev = first_tag (ev_tags ev) ''e''"

definition GetZapAmount :: "zap_lib \<Rightarrow> event \<Rightarrow> int" where
  "GetZapAmount lib ev = (case ParseZapReceipt lib ev of Inl _ \<Rightarrow> 0 | Inr zr \<Rightarrow> AmountMsat zr)"

definition ExtractLNURLFromProfile :: "zap_lib \<Rightarrow> string \<Rightarrow> string" where
  "ExtractLNURLFromProfile lib content =
     (case profile_lud lib content of
        None \<Rightarrow> ''''
      | Some (lud06, lud16) \<Rightarrow>
          if lud06 \<noteq> '''' then lud06
          else if lud16 \<noteq> '''' then ''lightning:'' @ lud16
          else '''')"

definition ValidateBolt11Basic :: "zap_lib \<Rightarrow> string \<Rightarrow> bool" where
  "ValidateBolt11Basic lib bolt11 =
     (let lower = ToLower lib bolt11 in
      HasPrefix lower ''lnbc'' \<or> HasPrefix lower ''lntb'' \<or> HasPrefix lower ''lnbcrt'' \<or> HasPrefix lower ''lnsb'')"

section \<open>Facts\<close>

text \<open>Parsing keeps the last value of each tag.\<close>

lemma last_tag_snoc:
  "last_tag (ts @ [t]) name = (case t of n # v # _ \<Rightarrow> if n = name then v else last_tag ts name | _ \<Rightarrow> last_tag ts name)"
  by (cases t; cases "tl t") (auto simp: last_tag_def)

lemma fold_zap_tag:
  "RecipientPubkey (fold zap_tag ts empty_receipt) = last_tag ts ''p'' \<and>
   Bolt11 (fold zap_tag ts empty_receipt) = last_tag ts ''bolt11'' \<and>
   Description (fold zap_tag ts empty_receipt) = last_tag ts ''description'' \<and>
   zr_EventID (fold zap_tag ts empty_receipt) = last_tag ts ''e''"
proof (induction ts rule: rev_induct)
  case Nil
  then show ?case by (simp add: empty_receipt_def last_tag_def)
next
  case (snoc t ts)
  then show ?case by (cases t; cases "tl t") (auto simp: last_tag_snoc)
qed

section \<open>Properties\<close>

text \<open>C21: In the mode that requires a login for gift wraps (the default; the other mode serves them to
  everybody, see \<open>threads_mode_serves_everybody\<close>), a query that names the gift-wrap kind gets through
  exactly for an authenticated reader, whatever its \<open>#p\<close> filter said, and then selects no event but those
  tagged to that reader.\<close>

theorem gift_wraps_only_for_recipient:
  assumes "gw_require_auth cfg" "KindGiftWrap \<in> set (f_kinds f)" "giftwrap_pipeline cfg ctx f = (v, f')"
  shows "(v = Accept \<longleftrightarrow> ctx_authed ctx \<noteq> '''') \<and>
    (v = Accept \<longrightarrow> (\<forall>ev. filter_selects f' ev \<longrightarrow> has_tag (ev_tags ev) ''p'' (ctx_authed ctx)))"
  using assms
  by (auto simp: giftwrap_pipeline_def OverwriteGiftWrapFilter_def RejectGiftWrapFilter_def tag_values_def
      filter_selects_def Let_def split: if_splits)

definition any_filter :: nfilter where
  "any_filter = \<lparr>f_ids = [], f_authors = [], f_kinds = [], f_tags = Map.empty, f_search = ''''\<rparr>"

lemma gift_wraps_only_for_recipient_witness:
  "fst (giftwrap_pipeline giftwrap_DefaultConfig \<lparr>ctx_authed = ''me'', ctx_ip = '''', ctx_now = 0\<rparr>
     (any_filter\<lparr>f_kinds := [1059], f_tags := [''p'' \<mapsto> [''you'']]\<rparr>)) = Accept"
  using gift_wraps_only_for_recipient [of giftwrap_DefaultConfig "any_filter\<lparr>f_kinds := [1059], f_tags := [''p'' \<mapsto> [''you'']]\<rparr>"
      "\<lparr>ctx_authed = ''me'', ctx_ip = '''', ctx_now = 0\<rparr>"]
  by (simp add: giftwrap_DefaultConfig_def prod_eq_iff)

text \<open>In the mode for threads, documented in the source, gift wraps are an ordinary kind: every query passes
  unchanged, logged in or not.\<close>

theorem threads_mode_serves_everybody:
  assumes "\<not> gw_require_auth cfg"
  shows "giftwrap_pipeline cfg ctx f = (Accept, f) \<and> RejectGiftWrapFilter cfg ctx f = Accept"
  using assms by (simp add: giftwrap_pipeline_def RejectGiftWrapFilter_def)

lemma threads_mode_serves_everybody_witness:
  "fst (giftwrap_pipeline (giftwrap_DefaultConfig\<lparr>gw_require_auth := False\<rparr>) \<lparr>ctx_authed = '''', ctx_ip = '''', ctx_now = 0\<rparr>
     (any_filter\<lparr>f_kinds := [1059]\<rparr>)) = Accept"
  using threads_mode_serves_everybody [of "giftwrap_DefaultConfig\<lparr>gw_require_auth := False\<rparr>"
      "\<lparr>ctx_authed = '''', ctx_ip = '''', ctx_now = 0\<rparr>" "any_filter\<lparr>f_kinds := [1059]\<rparr>"] by simp

text \<open>A query that names no kind at all is not gated: an anonymous reader's empty filter passes
  unchanged and selects gift wraps addressed to anybody.\<close>

theorem kindless_filter_reads_gift_wraps:
  "giftwrap_pipeline giftwrap_DefaultConfig \<lparr>ctx_authed = '''', ctx_ip = ip, ctx_now = now\<rparr> any_filter = (Accept, any_filter) \<and>
   filter_selects any_filter (ev\<lparr>ev_kind := KindGiftWrap, ev_tags := [[''p'', bob]]\<rparr>)"
  by (simp add: giftwrap_pipeline_def giftwrap_DefaultConfig_def any_filter_def OverwriteGiftWrapFilter_def
      RejectGiftWrapFilter_def filter_selects_def)

text \<open>The zap gate accepts a receipt exactly when its last \<open>p\<close> tag has the length of a key and
  its last description is a JSON object, and a bolt11 tag is there if the relay asks for one.\<close>

theorem zap_receipt_accept_iff:
  assumes "zap_validate cfg"
  shows "RejectInvalidZapReceipt lib cfg ev = Accept \<longleftrightarrow>
    (if ev_kind ev = KindZapReceipt
     then length (last_tag (ev_tags ev) ''p'') = 64 \<and> last_tag (ev_tags ev) ''description'' \<noteq> '''' \<and>
          json_object lib (last_tag (ev_tags ev) ''description'') \<and> (zap_bolt11 cfg \<longrightarrow> last_tag (ev_tags ev) ''bolt11'' \<noteq> '''')
     else True)"
  using assms fold_zap_tag [of "ev_tags ev"]
  by (auto simp: RejectInvalidZapReceipt_def ParseZapReceipt_def zap_Validate_def Let_def)

definition zap_example :: event where
  "zap_example = \<lparr>ev_id = ''z'', ev_pubkey = ''w'', ev_created_at = 0, ev_kind = KindZapReceipt,
     ev_tags = [[''p'', replicate 64 (CHR ''a'')], [''description'', ''{}'']], ev_content = ''''\<rparr>"

definition zap_toy_lib :: zap_lib where
  "zap_toy_lib = \<lparr>request_tags = (\<lambda>_. Some []), json_object = (\<lambda>s. s = ''{}''), Sscanf_d = (\<lambda>_. 0), profile_lud = (\<lambda>_. None), ToLower = id\<rparr>"

lemma zap_receipt_accept_iff_witness:
  "RejectInvalidZapReceipt zap_toy_lib zap_DefaultConfig zap_example = Accept"
  using zap_receipt_accept_iff [of zap_DefaultConfig zap_toy_lib zap_example]
  by (simp add: zap_DefaultConfig_def zap_example_def zap_toy_lib_def last_tag_def)

text \<open>The two readers of the zapped event disagree on a receipt with several \<open>e\<close> tags: the parsed
  receipt keeps the last one, \<open>GetZappedEventID\<close> returns the first.\<close>

theorem zapped_event_readers_disagree:
  "\<exists>ev zr. ParseZapReceipt zap_toy_lib ev = Inr zr \<and> zr_EventID zr = ''two'' \<and> GetZappedEventID ev = ''one''"
proof -
  let ?ev = "zap_example\<lparr>ev_tags := [[''e'', ''one''], [''e'', ''two'']]\<rparr>"
  have "ParseZapReceipt zap_toy_lib ?ev = Inr (empty_receipt\<lparr>zr_EventID := ''two''\<rparr>)"
    by (simp add: ParseZapReceipt_def zap_example_def empty_receipt_def)
  moreover have "zr_EventID (empty_receipt\<lparr>zr_EventID := ''two''\<rparr>) = ''two''" by simp
  moreover have "GetZappedEventID ?ev = ''one''" by (simp add: GetZappedEventID_def first_tag_def)
  ultimately show ?thesis by (intro exI conjI)
qed

end
