(* ===== verification/Haven_Router.thy ===== *)
theory Haven_Router
  imports Nostr_Data
begin

text \<open>
  internal/haven/types.go and router.go: the four boxes, their policies, and the router that
  decides which box an event or a filter belongs to, for one owner or for every paid member.

  A lookup that fails and one that finds nothing are treated alike by the router, so the stores
  it asks are partial functions. \<open>RouteFilter\<close> collects boxes in a Go map, whose order is
  random; the model lists them in the order of the type. The order decides at most which
  refusal a client sees first.
\<close>

section \<open>Boxes and policies\<close>

datatype Box = BoxUnknown | BoxPrivate | BoxChat | BoxInbox | BoxOutbox

primrec Box_String :: "Box \<Rightarrow> string" where
  "Box_String BoxUnknown = ''unknown''"
| "Box_String BoxPrivate = ''private''"
| "Box_String BoxChat = ''chat''"
| "Box_String BoxInbox = ''inbox''"
| "Box_String BoxOutbox = ''outbox''"

definition DefaultPrivateKinds :: "int list" where
  "DefaultPrivateKinds = [30024, 31234, 7375, 7376, 30078, 10003, 30003, 10000, 10006, 30000, 30001]"

definition DefaultChatKinds :: "int list" where
  "DefaultChatKinds = [4, 13, 14, 15, 1059, 1060]"

definition DefaultInboxKinds :: "int list" where
  "DefaultInboxKinds = [1, 6, 7, 9735, 1111, 30023]"

definition DefaultOutboxKinds :: "int list" where
  "DefaultOutboxKinds = [0, 1, 3, 6, 7, 10002, 10050, 30023, 10001, 10004, 10005, 10007, 10015, 10030, 30002, 1985]"

record haven_config =
  hc_enabled :: bool
  hc_owner :: string
  hc_private_kinds :: "int list"
  hc_outbox_read :: bool
  hc_inbox_write :: bool
  hc_auth_chat :: bool
  hc_auth_private :: bool

definition haven_DefaultConfig :: haven_config where
  "haven_DefaultConfig = \<lparr>hc_enabled = False, hc_owner = '''', hc_private_kinds = [], hc_outbox_read = True,
     hc_inbox_write = True, hc_auth_chat = True, hc_auth_private = True\<rparr>"

record AccessPolicy =
  ReadRequiresAuth :: bool
  WriteRequiresAuth :: bool
  OwnerOnly :: bool
  WoTFiltered :: bool

definition BoxPolicies :: "haven_config \<Rightarrow> Box \<Rightarrow> AccessPolicy option" where
  "BoxPolicies cfg box =
     (case box of
        BoxPrivate \<Rightarrow> Some \<lparr>ReadRequiresAuth = hc_auth_private cfg, WriteRequiresAuth = hc_auth_private cfg, OwnerOnly = True, WoTFiltered = False\<rparr>
      | BoxChat \<Rightarrow> Some \<lparr>ReadRequiresAuth = hc_auth_chat cfg, WriteRequiresAuth = hc_auth_chat cfg, OwnerOnly = False, WoTFiltered = True\<rparr>
      | BoxInbox \<Rightarrow> Some \<lparr>ReadRequiresAuth = True, WriteRequiresAuth = \<not> hc_inbox_write cfg, OwnerOnly = False, WoTFiltered = False\<rparr>
      | BoxOutbox \<Rightarrow> Some \<lparr>ReadRequiresAuth = \<not> hc_outbox_read cfg, WriteRequiresAuth = True, OwnerOnly = False, WoTFiltered = False\<rparr>
      | BoxUnknown \<Rightarrow> None)"

section \<open>What the router asks\<close>

record MemberInfo =
  mi_Pubkey :: string
  mi_Tier :: string
  HasHavenBoxes :: bool
  HasBlastr :: bool
  HasImporter :: bool
  HasWoTControl :: bool
  MaxBlastrRelays :: int
  MaxImporterRelays :: int

record member_api =
  GetMemberInfo :: "string \<Rightarrow> MemberInfo option"
  IsMember :: "string \<Rightarrow> bool"

record UserSettings =
  PublicOutboxRead :: bool
  PublicInboxWrite :: bool

text \<open>The handler reads the settings once more after the router; either read may fail.\<close>

record Router =
  r_config :: haven_config
  r_lookup :: "(string \<Rightarrow> event option) option"
  r_members :: "member_api option"
  r_settings :: "(string \<Rightarrow> UserSettings option) option"
  r_settings_again :: "(string \<Rightarrow> UserSettings option) option"

abbreviation r_owner :: "Router \<Rightarrow> string" where "r_owner r \<equiv> hc_owner (r_config r)"

definition NewRouter :: "haven_config option \<Rightarrow> Router" where
  "NewRouter cfg = \<lparr>r_config = (case cfg of Some c \<Rightarrow> c | None \<Rightarrow> haven_DefaultConfig), r_lookup = None, r_members = None,
     r_settings = None, r_settings_again = None\<rparr>"

definition privateKinds :: "Router \<Rightarrow> int list" where
  "privateKinds r = DefaultPrivateKinds @ hc_private_kinds (r_config r)"

abbreviation is_private_kind :: "Router \<Rightarrow> int \<Rightarrow> bool" where "is_private_kind r k \<equiv> k \<in> set (privateKinds r)"
abbreviation is_chat_kind :: "int \<Rightarrow> bool" where "is_chat_kind k \<equiv> k \<in> set DefaultChatKinds"

section \<open>Routing for one owner\<close>

definition lookup_event :: "Router \<Rightarrow> string \<Rightarrow> event option" where
  "lookup_event r i = (case r_lookup r of None \<Rightarrow> None | Some f \<Rightarrow> f i)"

fun references_owner_loop :: "Router \<Rightarrow> string list \<Rightarrow> bool" where
  "references_owner_loop r [] = False"
| "references_owner_loop r (i # is) =
     (if i = '''' then references_owner_loop r is
      else case lookup_event r i of
        None \<Rightarrow> references_owner_loop r is
      | Some ev \<Rightarrow> if ev_pubkey ev = r_owner r then True else references_owner_loop r is)"

definition referencesOwnerEvent :: "Router \<Rightarrow> event \<Rightarrow> bool" where
  "referencesOwnerEvent r ev = (case r_lookup r of None \<Rightarrow> False | Some _ \<Rightarrow> references_owner_loop r (all_tags (ev_tags ev) ''e''))"

definition isAddressedToOwner :: "Router \<Rightarrow> event \<Rightarrow> bool" where
  "isAddressedToOwner r ev =
     (if r_owner r = '''' then False
      else if r_owner r \<in> set (all_tags (ev_tags ev) ''p'') then True
      else (ev_kind ev = 6 \<or> ev_kind ev = 7) \<and> r_lookup r \<noteq> None \<and> referencesOwnerEvent r ev)"

definition RouteEvent :: "Router \<Rightarrow> event \<Rightarrow> Box" where
  "RouteEvent r ev =
     (if \<not> hc_enabled (r_config r) then BoxUnknown
      else if is_private_kind r (ev_kind ev) then (if ev_pubkey ev = r_owner r then BoxPrivate else BoxUnknown)
      else if is_chat_kind (ev_kind ev) then BoxChat
      else if ev_pubkey ev = r_owner r then BoxOutbox
      else if isAddressedToOwner r ev then BoxInbox
      else BoxUnknown)"

text \<open>Whether \<open>RouteFilter\<close> puts a box into its map.\<close>

definition filter_hits :: "Router \<Rightarrow> nfilter \<Rightarrow> Box \<Rightarrow> bool" where
  "filter_hits r f box =
     (let author_owner = r_owner r \<in> set (f_authors f);
          p_owner = r_owner r \<in> set (tag_values f ''p'');
          io_kind = (\<exists>k \<in> set (f_kinds f). k \<in> set DefaultInboxKinds \<or> k \<in> set DefaultOutboxKinds)
      in case box of
           BoxPrivate \<Rightarrow> \<exists>k \<in> set (f_kinds f). is_private_kind r k
         | BoxChat \<Rightarrow> \<exists>k \<in> set (f_kinds f). is_chat_kind k
         | BoxInbox \<Rightarrow> (io_kind \<and> p_owner) \<or> p_owner
         | BoxOutbox \<Rightarrow> (io_kind \<and> author_owner) \<or> author_owner
         | BoxUnknown \<Rightarrow> False)"

definition RouteFilter :: "Router \<Rightarrow> nfilter \<Rightarrow> string \<Rightarrow> Box list" where
  "RouteFilter r f authed =
     (if \<not> hc_enabled (r_config r) then []
      else let result = filter (filter_hits r f) [BoxPrivate, BoxChat, BoxInbox, BoxOutbox] in
        if result = [] then
          (if f_authors f \<noteq> [] \<and> r_owner r \<notin> set (f_authors f) then []
           else if authed = r_owner r then [BoxPrivate, BoxChat, BoxInbox, BoxOutbox]
           else [BoxOutbox])
        else result)"

definition CanAccessBox :: "Router \<Rightarrow> Box \<Rightarrow> string \<Rightarrow> bool \<Rightarrow> bool" where
  "CanAccessBox r box pk isWrite =
     (case BoxPolicies (r_config r) box of
        None \<Rightarrow> False
      | Some policy \<Rightarrow>
          if OwnerOnly policy \<and> pk \<noteq> r_owner r then False
          else if isWrite \<and> WriteRequiresAuth policy \<and> pk = '''' then False
          else if \<not> isWrite \<and> ReadRequiresAuth policy \<and> pk = '''' then False
          else if box = BoxOutbox \<and> isWrite \<and> pk \<noteq> r_owner r then False
          else if box = BoxOutbox \<and> \<not> isWrite \<and> ReadRequiresAuth policy \<and> pk \<noteq> r_owner r then False
          else if box = BoxInbox \<and> \<not> isWrite \<and> pk \<noteq> r_owner r then False
          else True)"

definition GetBoxForKind :: "Router \<Rightarrow> int \<Rightarrow> Box" where
  "GetBoxForKind r k = (if is_private_kind r k then BoxPrivate else if is_chat_kind k then BoxChat else BoxUnknown)"

definition IsOwner :: "Router \<Rightarrow> string \<Rightarrow> bool" where
  "IsOwner r pk \<longleftrightarrow> pk = r_owner r \<and> pk \<noteq> ''''"

section \<open>Routing for every member\<close>

record RoutingResult =
  rr_box :: Box
  rr_owner :: string
  rr_tier :: string

definition routed :: "Box \<Rightarrow> string \<Rightarrow> string \<Rightarrow> RoutingResult" where
  "routed b owner tier = \<lparr>rr_box = b, rr_owner = owner, rr_tier = tier\<rparr>"

text \<open>The recurring test: the key's info is there and has HAVEN boxes; its tier.\<close>

definition haven_tier :: "member_api \<Rightarrow> string \<Rightarrow> string option" where
  "haven_tier m pk =
     (case GetMemberInfo m pk of None \<Rightarrow> None | Some info \<Rightarrow> if HasHavenBoxes info then Some (mi_Tier info) else None)"

fun first_member_target :: "member_api \<Rightarrow> string list \<Rightarrow> RoutingResult option" where
  "first_member_target m [] = None"
| "first_member_target m (p # ps) =
     (if p = '''' then first_member_target m ps
      else case haven_tier m p of
        Some tier \<Rightarrow> Some (routed BoxInbox p tier)
      | None \<Rightarrow> first_member_target m ps)"

fun referenced_member_loop :: "Router \<Rightarrow> member_api \<Rightarrow> string list \<Rightarrow> string" where
  "referenced_member_loop r m [] = ''''"
| "referenced_member_loop r m (i # is) =
     (if i = '''' then referenced_member_loop r m is
      else case lookup_event r i of
        None \<Rightarrow> referenced_member_loop r m is
      | Some ev \<Rightarrow> if IsMember m (ev_pubkey ev) then ev_pubkey ev else referenced_member_loop r m is)"

definition findReferencedMemberEvent :: "Router \<Rightarrow> member_api \<Rightarrow> event \<Rightarrow> string" where
  "findReferencedMemberEvent r m ev =
     (case r_lookup r of None \<Rightarrow> '''' | Some _ \<Rightarrow> referenced_member_loop r m (all_tags (ev_tags ev) ''e''))"

definition route_reaction :: "Router \<Rightarrow> member_api \<Rightarrow> event \<Rightarrow> RoutingResult" where
  "route_reaction r m ev =
     (if (ev_kind ev = 6 \<or> ev_kind ev = 7) \<and> r_lookup r \<noteq> None then
        (let target = findReferencedMemberEvent r m ev in
         if target \<noteq> '''' then
           (case haven_tier m target of Some tier \<Rightarrow> routed BoxInbox target tier | None \<Rightarrow> routed BoxUnknown '''' '''')
         else routed BoxUnknown '''' '''')
      else routed BoxUnknown '''' '''')"

definition route_addressed :: "Router \<Rightarrow> member_api \<Rightarrow> event \<Rightarrow> RoutingResult" where
  "route_addressed r m ev =
     (case first_member_target m (all_tags (ev_tags ev) ''p'') of Some res \<Rightarrow> res | None \<Rightarrow> route_reaction r m ev)"

definition RouteEventForUser :: "Router \<Rightarrow> event \<Rightarrow> string \<Rightarrow> RoutingResult" where
  "RouteEventForUser r ev authed =
     (if \<not> hc_enabled (r_config r) then routed BoxUnknown '''' ''''
      else case r_members r of
        None \<Rightarrow> routed (RouteEvent r ev) (r_owner r) ''''
      | Some m \<Rightarrow>
          if is_private_kind r (ev_kind ev) then
            (if authed \<noteq> '''' \<and> ev_pubkey ev = authed then
               (case haven_tier m authed of Some tier \<Rightarrow> routed BoxPrivate authed tier | None \<Rightarrow> routed BoxUnknown '''' '''')
             else routed BoxUnknown '''' '''')
          else if is_chat_kind (ev_kind ev) then
            (if authed \<noteq> '''' then
               (case haven_tier m authed of Some tier \<Rightarrow> routed BoxChat authed tier | None \<Rightarrow> routed BoxChat '''' '''')
             else routed BoxChat '''' '''')
          else if authed \<noteq> '''' \<and> ev_pubkey ev = authed then
            (case haven_tier m authed of Some tier \<Rightarrow> routed BoxOutbox authed tier | None \<Rightarrow> route_addressed r m ev)
          else route_addressed r m ev)"

definition targets :: "member_api \<Rightarrow> Box \<Rightarrow> string list \<Rightarrow> RoutingResult list" where
  "targets m box ps = List.map_filter (\<lambda>p. map_option (routed box p) (haven_tier m p)) ps"

definition RouteFilterForUser :: "Router \<Rightarrow> nfilter \<Rightarrow> string \<Rightarrow> RoutingResult list" where
  "RouteFilterForUser r f authed =
     (if \<not> hc_enabled (r_config r) then []
      else case r_members r of
        None \<Rightarrow> map (\<lambda>b. routed b (r_owner r) '''') (RouteFilter r f authed)
      | Some m \<Rightarrow>
          (let results = targets m BoxOutbox (f_authors f) @ targets m BoxInbox (tag_values f ''p'') in
           if results = [] \<and> authed \<noteq> '''' then
             (case haven_tier m authed of
                Some tier \<Rightarrow> map (\<lambda>b. routed b authed tier) [BoxOutbox, BoxInbox, BoxPrivate, BoxChat]
              | None \<Rightarrow> [])
           else results))"

definition CanAccessUserBox :: "Router \<Rightarrow> Box \<Rightarrow> string \<Rightarrow> string \<Rightarrow> bool \<Rightarrow> bool" where
  "CanAccessUserBox r box requester owner isWrite =
     (if owner = '''' then
        (case box of BoxInbox \<Rightarrow> isWrite | BoxChat \<Rightarrow> requester \<noteq> '''' | _ \<Rightarrow> False)
      else if requester = owner then True
      else case (case r_settings r of None \<Rightarrow> None | Some get \<Rightarrow> get owner) of
        Some settings \<Rightarrow>
          (case box of
             BoxOutbox \<Rightarrow> if isWrite then False else PublicOutboxRead settings
           | BoxInbox \<Rightarrow> if \<not> isWrite then False else PublicInboxWrite settings
           | BoxChat \<Rightarrow> requester \<noteq> ''''
           | _ \<Rightarrow> False)
      | None \<Rightarrow>
          (case box of
             BoxOutbox \<Rightarrow> \<not> isWrite
           | BoxInbox \<Rightarrow> isWrite
           | BoxChat \<Rightarrow> requester \<noteq> ''''
           | _ \<Rightarrow> False))"

section \<open>Facts\<close>

lemma haven_tier_Some: "haven_tier m pk = Some t \<longleftrightarrow> (\<exists>i. GetMemberInfo m pk = Some i \<and> HasHavenBoxes i \<and> mi_Tier i = t)"
  by (auto simp: haven_tier_def split: option.split)

lemma routed_sel [simp]: "rr_box (routed b u t) = b" "rr_owner (routed b u t) = u" "rr_tier (routed b u t) = t"
  by (simp_all add: routed_def)

lemma first_member_target_Some:
  "first_member_target m ps = Some res \<Longrightarrow> \<exists>p t. p \<in> set ps \<and> p \<noteq> '''' \<and> haven_tier m p = Some t \<and> res = routed BoxInbox p t"
  by (induction ps) (auto split: if_splits option.splits)

lemma route_reaction_owner:
  "route_reaction r m ev = res \<Longrightarrow> rr_owner res \<noteq> '''' \<Longrightarrow> rr_box res = BoxInbox \<and> haven_tier m (rr_owner res) = Some (rr_tier res)"
  by (auto simp: route_reaction_def Let_def split: if_splits option.splits)

lemma route_addressed_owner:
  "route_addressed r m ev = res \<Longrightarrow> rr_owner res \<noteq> '''' \<Longrightarrow> rr_box res = BoxInbox \<and> haven_tier m (rr_owner res) = Some (rr_tier res)"
  by (auto simp: route_addressed_def dest: first_member_target_Some route_reaction_owner [OF refl] split: option.splits)

lemma targets_iff: "res \<in> set (targets m box ps) \<longleftrightarrow> (\<exists>p t. p \<in> set ps \<and> haven_tier m p = Some t \<and> res = routed box p t)"
  by (auto simp: targets_def List.map_filter_def image_iff)

lemma references_owner_iff:
  "references_owner_loop r is \<longleftrightarrow> (\<exists>i \<in> set is. i \<noteq> '''' \<and> (\<exists>ev. lookup_event r i = Some ev \<and> ev_pubkey ev = r_owner r))"
  by (induction "is") (auto split: option.split)

text \<open>Who owns the box an event is routed to, in multi-user mode.\<close>

lemma RouteEventForUser_owner:
  assumes "r_members r = Some m" "RouteEventForUser r ev authed = res" "rr_owner res \<noteq> ''''"
  shows "haven_tier m (rr_owner res) = Some (rr_tier res) \<and>
    (rr_box res = BoxPrivate \<or> rr_box res = BoxOutbox \<longrightarrow> rr_owner res = authed \<and> ev_pubkey ev = authed) \<and>
    rr_box res \<noteq> BoxUnknown"
  using assms route_addressed_owner [of r m ev res]
  by (auto simp: RouteEventForUser_def split: if_splits option.splits)

text \<open>How an event comes to name the owner of an inbox or of a chat box.\<close>

definition addresses :: "Router \<Rightarrow> event \<Rightarrow> string \<Rightarrow> bool" where
  "addresses r ev pk \<longleftrightarrow> pk \<in> set (all_tags (ev_tags ev) ''p'') \<or>
     ((ev_kind ev = 6 \<or> ev_kind ev = 7) \<and> (\<exists>i \<in> set (all_tags (ev_tags ev) ''e''). \<exists>e. lookup_event r i = Some e \<and> ev_pubkey e = pk))"

lemma referenced_member_named:
  "referenced_member_loop r m is = pk \<Longrightarrow> pk \<noteq> '''' \<Longrightarrow> \<exists>i \<in> set is. \<exists>e. lookup_event r i = Some e \<and> ev_pubkey e = pk"
  by (induction "is") (auto split: if_splits option.splits)

lemma route_addressed_addresses:
  "route_addressed r m ev = res \<Longrightarrow> rr_owner res \<noteq> '''' \<Longrightarrow> addresses r ev (rr_owner res)"
  using referenced_member_named [of r m "all_tags (ev_tags ev) ''e''"]
  by (auto simp: route_addressed_def route_reaction_def findReferencedMemberEvent_def addresses_def Let_def
      dest!: first_member_target_Some split: if_splits option.splits)

lemma RouteEventForUser_addressed:
  assumes "r_members r = Some m" "RouteEventForUser r ev authed = res" "rr_owner res \<noteq> ''''"
  shows "(rr_box res = BoxInbox \<longrightarrow> addresses r ev (rr_owner res)) \<and> (rr_box res = BoxChat \<longrightarrow> rr_owner res = authed)"
  using assms route_addressed_addresses [of r m ev res] route_addressed_owner [of r m ev res]
  by (auto simp: RouteEventForUser_def split: if_splits option.splits)

section \<open>The member store interface\<close>

text \<open>
  \<open>haven.MemberStore\<close>: the router relies on two answers. The laws say what they mean:
  info carries the effective tier of the key asked for, only a paid tier has boxes, and a member
  has a tier.
\<close>

locale haven_member_store =
  fixes m :: member_api
    and tier_of :: "string \<Rightarrow> string option"
  assumes info_tier: "GetMemberInfo m pk = Some i \<Longrightarrow> tier_of pk = Some (mi_Tier i)"
    and boxes_paid: "GetMemberInfo m pk = Some i \<Longrightarrow> HasHavenBoxes i \<Longrightarrow> mi_Tier i \<noteq> ''free''"
    and member_tier: "IsMember m pk \<Longrightarrow> tier_of pk \<noteq> None"
begin

lemma haven_tier_paid: "haven_tier m pk = Some t \<Longrightarrow> tier_of pk = Some t \<and> t \<noteq> ''free''"
  by (auto simp: haven_tier_Some dest: info_tier boxes_paid)

lemma routed_owner_paid:
  assumes "r_members r = Some m" "RouteEventForUser r ev authed = res" "rr_owner res \<noteq> ''''"
  shows "tier_of (rr_owner res) = Some (rr_tier res) \<and> rr_tier res \<noteq> ''free''"
  using RouteEventForUser_owner [OF assms] haven_tier_paid by blast

lemma filter_owner_paid:
  assumes "r_members r = Some m" "res \<in> set (RouteFilterForUser r f authed)"
  shows "tier_of (rr_owner res) = Some (rr_tier res) \<and> rr_tier res \<noteq> ''free''"
proof -
  have "haven_tier m (rr_owner res) = Some (rr_tier res)"
    using assms by (auto simp: RouteFilterForUser_def Let_def targets_iff split: if_splits option.splits)
  then show ?thesis by (rule haven_tier_paid)
qed

end

end
