(* ===== verification/Haven_Gate.thy ===== *)
theory Haven_Gate
  imports Haven_Router Trust_Gate Gift_Wrap
begin

text \<open>
  internal/haven/handlers.go: the write and read gates of HAVEN mode and the filter rewriting,
  for one owner and for every paid member. The framework rewrites a filter before the read gate
  judges it.
\<close>

section \<open>One owner\<close>

definition haven_RejectEvent :: "Router \<Rightarrow> reqctx \<Rightarrow> event \<Rightarrow> verdict" where
  "haven_RejectEvent r ctx ev =
     (if \<not> hc_enabled (r_config r) then Accept
      else let box0 = RouteEvent r ev; authed = ctx_authed ctx in
        if box0 = BoxUnknown \<and> \<not> is_chat_kind (ev_kind ev) then Reject ''restricted: event does not belong to any HAVEN box''
        else let box = (if box0 = BoxUnknown then BoxChat else box0);
                 denied =
                   (if \<not> CanAccessBox r box authed True then
                      (case box of
                         BoxPrivate \<Rightarrow> Some (if authed = '''' then ''auth-required: authentication required for private box''
                                         else ''restricted: only owner can write to private box'')
                       | BoxChat \<Rightarrow> (if authed = '''' then Some ''auth-required: authentication required for chat'' else None)
                       | BoxOutbox \<Rightarrow> (if authed \<noteq> r_owner r then Some ''restricted: only owner can write to outbox'' else None)
                       | _ \<Rightarrow> None)
                    else None)
             in case denied of
                  Some m \<Rightarrow> Reject m
                | None \<Rightarrow> if authed \<noteq> '''' \<and> ev_pubkey ev \<noteq> authed then Reject ''restricted: can only publish events as yourself''
                          else Accept)"

text \<open>The answer for one box a filter targets; \<open>None\<close> goes on to the next.\<close>

definition haven_read_denied :: "Router \<Rightarrow> string \<Rightarrow> Box \<Rightarrow> string option" where
  "haven_read_denied r authed box =
     (if \<not> CanAccessBox r box authed False then
        (case box of
           BoxPrivate \<Rightarrow> Some (if authed = '''' then ''auth-required: authentication required for private box''
                           else ''restricted: only owner can read private box'')
         | BoxChat \<Rightarrow> (if authed = '''' then Some ''auth-required: authentication required for chat'' else None)
         | BoxInbox \<Rightarrow> (if authed \<noteq> r_owner r then Some ''auth-required: only owner can read inbox'' else None)
         | _ \<Rightarrow> None)
      else None)"

fun first_denied :: "('a \<Rightarrow> string option) \<Rightarrow> 'a list \<Rightarrow> verdict" where
  "first_denied d [] = Accept"
| "first_denied d (b # bs) = (case d b of Some m \<Rightarrow> Reject m | None \<Rightarrow> first_denied d bs)"

definition haven_RejectFilter :: "Router \<Rightarrow> reqctx \<Rightarrow> nfilter \<Rightarrow> verdict" where
  "haven_RejectFilter r ctx f =
     (if \<not> hc_enabled (r_config r) then Accept
      else first_denied (haven_read_denied r (ctx_authed ctx)) (RouteFilter r f (ctx_authed ctx)))"

definition strip_private :: "Router \<Rightarrow> nfilter \<Rightarrow> nfilter" where
  "strip_private r f = (if f_kinds f \<noteq> [] then f\<lparr>f_kinds := filter (\<lambda>k. \<not> is_private_kind r k) (f_kinds f)\<rparr> else f)"

definition haven_OverwriteFilter :: "Router \<Rightarrow> reqctx \<Rightarrow> nfilter \<Rightarrow> nfilter" where
  "haven_OverwriteFilter r ctx f =
     (if \<not> hc_enabled (r_config r) then f
      else if ctx_authed ctx \<noteq> r_owner r then strip_private r f else f)"

text \<open>What the framework does with a REQ: rewrite, judge.\<close>

definition haven_read :: "Router \<Rightarrow> reqctx \<Rightarrow> nfilter \<Rightarrow> verdict \<times> nfilter" where
  "haven_read r ctx f = (let f' = haven_OverwriteFilter r ctx f in (haven_RejectFilter r ctx f', f'))"

section \<open>Every member\<close>

definition settings_of :: "(string \<Rightarrow> UserSettings option) option \<Rightarrow> string \<Rightarrow> UserSettings option" where
  "settings_of st pk = (case st of None \<Rightarrow> None | Some get \<Rightarrow> get pk)"

definition multi_write_denied :: "Router \<Rightarrow> string \<Rightarrow> RoutingResult \<Rightarrow> string option" where
  "multi_write_denied r authed res =
     (if \<not> CanAccessUserBox r (rr_box res) authed (rr_owner res) True then
        (case rr_box res of
           BoxPrivate \<Rightarrow> Some (if authed = '''' then ''auth-required: authentication required for private box''
                           else ''restricted: only owner can write to private box'')
         | BoxChat \<Rightarrow> (if authed = '''' then Some ''auth-required: authentication required for chat'' else None)
         | BoxInbox \<Rightarrow>
             (if rr_owner res \<noteq> '''' \<and>
                 (case settings_of (r_settings_again r) (rr_owner res) of None \<Rightarrow> False | Some s \<Rightarrow> \<not> PublicInboxWrite s)
              then Some ''restricted: inbox write is disabled for this user'' else None)
         | BoxOutbox \<Rightarrow> (if authed \<noteq> rr_owner res then Some ''restricted: only owner can write to outbox'' else None)
         | BoxUnknown \<Rightarrow> None)
      else None)"

text \<open>\<open>wot\<close> is the per-user filter, \<open>None\<close> when not configured.\<close>

definition multi_RejectEvent :: "Router \<Rightarrow> (event \<Rightarrow> string \<Rightarrow> FilterResult) option \<Rightarrow> reqctx \<Rightarrow> event \<Rightarrow> verdict" where
  "multi_RejectEvent r wot ctx ev =
     (if \<not> hc_enabled (r_config r) then Accept
      else let authed = ctx_authed ctx; res0 = RouteEventForUser r ev authed in
        if rr_box res0 = BoxUnknown \<and> \<not> is_chat_kind (ev_kind ev) then Reject ''restricted: event does not belong to any HAVEN box''
        else let res = (if rr_box res0 = BoxUnknown then res0\<lparr>rr_box := BoxChat\<rparr> else res0) in
          case multi_write_denied r authed res of
            Some m \<Rightarrow> Reject m
          | None \<Rightarrow>
              if rr_box res = BoxInbox \<and> rr_owner res \<noteq> '''' \<and>
                 (case wot of None \<Rightarrow> False | Some flt \<Rightarrow> \<not> fr_allowed (flt ev (rr_owner res)))
              then Reject ''restricted: blocked by recipient's WoT settings''
              else if authed \<noteq> '''' \<and> ev_pubkey ev \<noteq> authed then Reject ''restricted: can only publish events as yourself''
              else Accept)"

definition multi_read_denied :: "Router \<Rightarrow> string \<Rightarrow> RoutingResult \<Rightarrow> string option" where
  "multi_read_denied r authed res =
     (if \<not> CanAccessUserBox r (rr_box res) authed (rr_owner res) False then
        (case rr_box res of
           BoxPrivate \<Rightarrow> Some (if authed = '''' then ''auth-required: authentication required for private box''
                           else ''restricted: only owner can read private box'')
         | BoxChat \<Rightarrow> (if authed = '''' then Some ''auth-required: authentication required for chat'' else None)
         | BoxInbox \<Rightarrow> (if authed \<noteq> rr_owner res then Some ''auth-required: only owner can read inbox'' else None)
         | BoxOutbox \<Rightarrow>
             (if rr_owner res \<noteq> '''' \<and> authed \<noteq> rr_owner res \<and>
                 (case settings_of (r_settings_again r) (rr_owner res) of None \<Rightarrow> False | Some s \<Rightarrow> \<not> PublicOutboxRead s)
              then Some ''auth-required: outbox read is restricted for this user'' else None)
         | BoxUnknown \<Rightarrow> None)
      else None)"

definition multi_RejectFilter :: "Router \<Rightarrow> reqctx \<Rightarrow> nfilter \<Rightarrow> verdict" where
  "multi_RejectFilter r ctx f =
     (if \<not> hc_enabled (r_config r) then Accept
      else first_denied (multi_read_denied r (ctx_authed ctx)) (RouteFilterForUser r f (ctx_authed ctx)))"

definition multi_OverwriteFilter :: "Router \<Rightarrow> reqctx \<Rightarrow> nfilter \<Rightarrow> nfilter" where
  "multi_OverwriteFilter r ctx f =
     (if \<not> hc_enabled (r_config r) then f
      else let results = RouteFilterForUser r f (ctx_authed ctx) in
        if results = [] then strip_private r f
        else if \<exists>res \<in> set results. rr_owner res = ctx_authed ctx then f
        else strip_private r f)"

definition multi_read :: "Router \<Rightarrow> reqctx \<Rightarrow> nfilter \<Rightarrow> verdict \<times> nfilter" where
  "multi_read r ctx f = (let f' = multi_OverwriteFilter r ctx f in (multi_RejectFilter r ctx f', f'))"

section \<open>Facts\<close>

lemma first_denied_Accept: "first_denied d bs = Accept \<longleftrightarrow> (\<forall>b \<in> set bs. d b = None)"
  by (induction bs) (auto split: option.split)

lemma CanAccess_private: "CanAccessBox r BoxPrivate pk w \<Longrightarrow> pk = r_owner r"
  by (auto simp: CanAccessBox_def BoxPolicies_def split: if_splits)

lemma CanAccess_outbox_write: "CanAccessBox r BoxOutbox pk True \<Longrightarrow> pk = r_owner r"
  by (auto simp: CanAccessBox_def BoxPolicies_def split: if_splits)

lemma CanAccess_inbox_read: "CanAccessBox r BoxInbox pk False \<Longrightarrow> pk = r_owner r"
  by (auto simp: CanAccessBox_def BoxPolicies_def split: if_splits)

section \<open>Properties\<close>

text \<open>C10: In single-owner mode the write gate lets an event in only where it belongs: a private-kind
  or outbox event only from the owner's own connection and key, any other event only if it is a
  chat kind or is addressed to the owner, and never under a key other than the one the
  connection proved.\<close>

theorem haven_write_belongs:
  assumes "hc_enabled (r_config r)" "haven_RejectEvent r ctx ev = Accept"
  shows "(case RouteEvent r ev of
      BoxPrivate \<Rightarrow> ctx_authed ctx = r_owner r \<and> ev_pubkey ev = r_owner r
    | BoxOutbox \<Rightarrow> ctx_authed ctx = r_owner r \<and> ev_pubkey ev = r_owner r
    | BoxInbox \<Rightarrow> has_tag (ev_tags ev) ''p'' (r_owner r) \<or>
        (\<exists>i e. has_tag (ev_tags ev) ''e'' i \<and> lookup_event r i = Some e \<and> ev_pubkey e = r_owner r)
    | _ \<Rightarrow> is_chat_kind (ev_kind ev)) \<and>
    (ctx_authed ctx = '''' \<or> ev_pubkey ev = ctx_authed ctx)"
proof -
  let ?b = "RouteEvent r ev"
  have same: "ctx_authed ctx = '''' \<or> ev_pubkey ev = ctx_authed ctx"
    and known: "?b = BoxUnknown \<Longrightarrow> is_chat_kind (ev_kind ev)"
    and priv: "?b = BoxPrivate \<Longrightarrow> CanAccessBox r BoxPrivate (ctx_authed ctx) True"
    and out: "?b = BoxOutbox \<Longrightarrow> ctx_authed ctx = r_owner r"
    using assms CanAccess_outbox_write [of r "ctx_authed ctx"]
    by (auto simp: haven_RejectEvent_def Let_def split: if_splits option.splits Box.splits)
  have from_owner: "?b = BoxPrivate \<or> ?b = BoxOutbox \<Longrightarrow> ev_pubkey ev = r_owner r"
    and chat: "?b = BoxChat \<Longrightarrow> is_chat_kind (ev_kind ev)"
    and inbox: "?b = BoxInbox \<Longrightarrow> isAddressedToOwner r ev"
    by (auto simp: RouteEvent_def split: if_splits)
  show ?thesis
  proof (cases ?b)
    case BoxInbox
    then have "isAddressedToOwner r ev" by (rule inbox)
    with BoxInbox same show ?thesis
      by (auto simp: isAddressedToOwner_def referencesOwnerEvent_def references_owner_iff has_tag_def split: if_splits option.splits)
  qed (use same known priv out from_owner chat CanAccess_private in auto)
qed

definition owner_cfg :: haven_config where
  "owner_cfg = haven_DefaultConfig\<lparr>hc_enabled := True, hc_owner := ''owner''\<rparr>"

definition anon :: reqctx where "anon = \<lparr>ctx_authed = '''', ctx_ip = '''', ctx_now = 0\<rparr>"

definition haven_note :: "string \<Rightarrow> int \<Rightarrow> tag list \<Rightarrow> event" where
  "haven_note pk k ts = \<lparr>ev_id = ''n'', ev_pubkey = pk, ev_created_at = 0, ev_kind = k, ev_tags = ts, ev_content = ''''\<rparr>"

lemmas haven_eval = haven_RejectEvent_def RouteEvent_def isAddressedToOwner_def privateKinds_def DefaultPrivateKinds_def
  DefaultChatKinds_def owner_cfg_def haven_DefaultConfig_def NewRouter_def anon_def haven_note_def CanAccessBox_def BoxPolicies_def

lemma haven_write_belongs_witness:
  "has_tag (ev_tags (haven_note ''bob'' 1 [[''p'', ''owner'']])) ''p'' ''owner''"
proof -
  let ?r = "NewRouter (Some owner_cfg)" and ?ev = "haven_note ''bob'' 1 [[''p'', ''owner'']]"
  have "haven_RejectEvent ?r anon ?ev = Accept" "RouteEvent ?r ?ev = BoxInbox"
    by (simp_all add: haven_eval)
  moreover have "hc_enabled (r_config ?r)" "r_owner ?r = ''owner''" "lookup_event ?r i = None" for i
    by (simp_all add: NewRouter_def owner_cfg_def lookup_event_def)
  ultimately show ?thesis
    using haven_write_belongs [of ?r anon ?ev] by simp
qed

text \<open>C9: An unauthenticated or foreign reader never gets a filter through that asks for the owner's
  inbox by its \<open>#p\<close> tag, and what is left of a filter that named kinds names no private
  kind.\<close>

theorem inbox_reads_owner_only:
  assumes "hc_enabled (r_config r)" "ctx_authed ctx \<noteq> r_owner r" "haven_read r ctx f = (Accept, f')"
  shows "r_owner r \<notin> set (tag_values f' ''p'') \<and> list_all (\<lambda>k. \<not> is_private_kind r k) (f_kinds f')"
proof -
  have f': "f' = strip_private r f" and acc: "haven_RejectFilter r ctx f' = Accept"
    using assms by (auto simp: haven_read_def haven_OverwriteFilter_def Let_def)
  have "list_all (\<lambda>k. \<not> is_private_kind r k) (f_kinds f')"
    by (auto simp: f' strip_private_def list_all_iff)
  moreover have "r_owner r \<notin> set (tag_values f' ''p'')"
  proof
    assume p: "r_owner r \<in> set (tag_values f' ''p'')"
    then have "BoxInbox \<in> set (RouteFilter r f' (ctx_authed ctx))"
      using assms(1) by (auto simp: RouteFilter_def filter_hits_def Let_def)
    with acc assms(1) have "haven_read_denied r (ctx_authed ctx) BoxInbox = None"
      by (simp add: haven_RejectFilter_def first_denied_Accept)
    with assms(2) CanAccess_inbox_read [of r "ctx_authed ctx"] show False
      by (auto simp: haven_read_denied_def split: if_splits)
  qed
  ultimately show ?thesis by simp
qed

lemma inbox_reads_owner_only_witness:
  "''owner'' \<notin> set (tag_values (any_filter\<lparr>f_authors := [''owner''], f_kinds := [1]\<rparr>) ''p'')"
proof -
  let ?r = "NewRouter (Some owner_cfg)" and ?f = "any_filter\<lparr>f_authors := [''owner''], f_kinds := [1]\<rparr>"
  have "haven_read ?r anon ?f = (Accept, ?f)"
    by (simp add: haven_read_def haven_OverwriteFilter_def strip_private_def haven_RejectFilter_def RouteFilter_def filter_hits_def
        haven_read_denied_def haven_eval any_filter_def tag_values_def DefaultInboxKinds_def DefaultOutboxKinds_def)
  from inbox_reads_owner_only [OF _ _ this] show ?thesis
    by (simp add: NewRouter_def owner_cfg_def anon_def)
qed

text \<open>The private box is not protected against filters that name no kinds: an anonymous query for
  the owner's events passes unchanged and selects the owner's private-kind events. A query for
  private kinds alone loses its kinds on the way and passes as a query for everything.\<close>

theorem private_kinds_readable_without_kinds:
  "hc_enabled (r_config (NewRouter (Some owner_cfg))) \<and>
   haven_read (NewRouter (Some owner_cfg)) anon (any_filter\<lparr>f_authors := [''owner'']\<rparr>) = (Accept, any_filter\<lparr>f_authors := [''owner'']\<rparr>) \<and>
   filter_selects (any_filter\<lparr>f_authors := [''owner'']\<rparr>) (haven_note ''owner'' 10000 []) \<and>
   RouteEvent (NewRouter (Some owner_cfg)) (haven_note ''owner'' 10000 []) = BoxPrivate \<and>
   haven_read (NewRouter (Some owner_cfg)) anon (any_filter\<lparr>f_kinds := [10000]\<rparr>) = (Accept, any_filter)"
proof (intro conjI)
  show "hc_enabled (r_config (NewRouter (Some owner_cfg)))" by (simp add: haven_eval)
  show "haven_read (NewRouter (Some owner_cfg)) anon (any_filter\<lparr>f_authors := [''owner'']\<rparr>) = (Accept, any_filter\<lparr>f_authors := [''owner'']\<rparr>)"
    "haven_read (NewRouter (Some owner_cfg)) anon (any_filter\<lparr>f_kinds := [10000]\<rparr>) = (Accept, any_filter)"
    by (simp_all add: haven_read_def haven_OverwriteFilter_def strip_private_def haven_RejectFilter_def RouteFilter_def filter_hits_def
        haven_read_denied_def haven_eval any_filter_def tag_values_def)
  show "filter_selects (any_filter\<lparr>f_authors := [''owner'']\<rparr>) (haven_note ''owner'' 10000 [])"
    by (simp add: filter_selects_def any_filter_def haven_note_def)
  show "RouteEvent (NewRouter (Some owner_cfg)) (haven_note ''owner'' 10000 []) = BoxPrivate" by (simp add: haven_eval)
qed

text \<open>Two switches have no effect on anonymous clients. With public outbox reads and public inbox
  writes both off, the policy denies them and the handlers let them through all the same.\<close>

theorem public_switches_not_enforced:
  "\<exists>r. \<not> hc_outbox_read (r_config r) \<and> \<not> hc_inbox_write (r_config r) \<and> hc_enabled (r_config r) \<and>
     \<not> CanAccessBox r BoxOutbox '''' False \<and> \<not> CanAccessBox r BoxInbox '''' True \<and>
     fst (haven_read r anon (any_filter\<lparr>f_authors := [''owner''], f_kinds := [1]\<rparr>)) = Accept \<and>
     haven_RejectEvent r anon (haven_note ''bob'' 1 [[''p'', ''owner'']]) = Accept"
proof (intro exI conjI)
  let ?r = "NewRouter (Some (owner_cfg\<lparr>hc_outbox_read := False, hc_inbox_write := False\<rparr>))"
  show "\<not> hc_outbox_read (r_config ?r)" "\<not> hc_inbox_write (r_config ?r)" "hc_enabled (r_config ?r)"
    "\<not> CanAccessBox ?r BoxOutbox '''' False" "\<not> CanAccessBox ?r BoxInbox '''' True"
    "haven_RejectEvent ?r anon (haven_note ''bob'' 1 [[''p'', ''owner'']]) = Accept"
    by (simp_all add: haven_eval)
  show "fst (haven_read ?r anon (any_filter\<lparr>f_authors := [''owner''], f_kinds := [1]\<rparr>)) = Accept"
    by (simp add: haven_read_def haven_OverwriteFilter_def strip_private_def haven_RejectFilter_def RouteFilter_def filter_hits_def
        haven_read_denied_def haven_eval any_filter_def tag_values_def DefaultInboxKinds_def DefaultOutboxKinds_def)
qed

text \<open>In multi-user mode a query gets through only if, for every paid member its \<open>#p\<close> tag
  names, the reader is that member: nobody reads another member's inbox by asking for it.\<close>

theorem member_inbox_reads_owner_only:
  assumes "hc_enabled (r_config r)" "r_members r = Some m" "multi_RejectFilter r ctx f = Accept"
    and "p \<in> set (tag_values f ''p'')" "haven_tier m p \<noteq> None" "p \<noteq> ''''"
  shows "ctx_authed ctx = p"
proof (rule ccontr)
  assume other: "ctx_authed ctx \<noteq> p"
  from assms(5) obtain t where t: "haven_tier m p = Some t" by auto
  then have "routed BoxInbox p t \<in> set (RouteFilterForUser r f (ctx_authed ctx))"
    using assms(1,2,4) targets_iff [of "routed BoxInbox p t" m BoxInbox "tag_values f ''p''"]
    by (auto simp: RouteFilterForUser_def Let_def)
  with assms(1,3) have "multi_read_denied r (ctx_authed ctx) (routed BoxInbox p t) = None"
    by (simp add: multi_RejectFilter_def first_denied_Accept)
  with other assms(6) show False
    by (auto simp: multi_read_denied_def CanAccessUserBox_def split: if_splits option.splits)
qed

definition paid_info :: "string \<Rightarrow> MemberInfo" where
  "paid_info pk = \<lparr>mi_Pubkey = pk, mi_Tier = ''premium'', HasHavenBoxes = True, HasBlastr = True, HasImporter = True,
     HasWoTControl = True, MaxBlastrRelays = 10, MaxImporterRelays = 10\<rparr>"

definition two_members :: member_api where
  "two_members = \<lparr>GetMemberInfo = (\<lambda>pk. if pk = ''alice'' \<or> pk = ''bob'' then Some (paid_info pk) else None),
     IsMember = (\<lambda>pk. pk = ''alice'' \<or> pk = ''bob'')\<rparr>"

definition multi_router :: Router where
  "multi_router = (NewRouter (Some (haven_DefaultConfig\<lparr>hc_enabled := True\<rparr>)))\<lparr>r_members := Some two_members\<rparr>"

definition as_alice :: reqctx where "as_alice = \<lparr>ctx_authed = ''alice'', ctx_ip = '''', ctx_now = 0\<rparr>"

lemmas multi_eval = multi_router_def two_members_def paid_info_def NewRouter_def haven_DefaultConfig_def as_alice_def
  RouteFilterForUser_def targets_def haven_tier_def tag_values_def any_filter_def List.map_filter_def

lemma member_inbox_reads_owner_only_witness: "ctx_authed as_alice = ''alice''"
proof (rule member_inbox_reads_owner_only)
  show "multi_RejectFilter multi_router as_alice (any_filter\<lparr>f_tags := [''p'' \<mapsto> [''alice'']]\<rparr>) = Accept"
    by (simp add: multi_RejectFilter_def multi_read_denied_def CanAccessUserBox_def multi_eval)
  show "''alice'' \<in> set (tag_values (any_filter\<lparr>f_tags := [''p'' \<mapsto> [''alice'']]\<rparr>) ''p'')"
    by (simp add: tag_values_def any_filter_def)
  show "haven_tier two_members ''alice'' \<noteq> None" by (simp add: two_members_def haven_tier_def paid_info_def)
qed (simp_all add: multi_router_def NewRouter_def haven_DefaultConfig_def)

text \<open>A member who adds her own key to the authors of a query keeps the private kinds in it, so
  the query selects another member's private-kind events and passes.\<close>

theorem own_author_unlocks_others_private_kinds:
  "(let f = any_filter\<lparr>f_authors := [''alice'', ''bob''], f_kinds := [10000]\<rparr> in
     multi_read multi_router as_alice f = (Accept, f) \<and>
     filter_selects f (haven_note ''bob'' 10000 []) \<and>
     rr_box (RouteEventForUser multi_router (haven_note ''bob'' 10000 []) ''bob'') = BoxPrivate \<and>
     \<not> CanAccessUserBox multi_router BoxPrivate ''alice'' ''bob'' False)"
proof -
  let ?f = "any_filter\<lparr>f_authors := [''alice'', ''bob''], f_kinds := [10000]\<rparr>"
  have "multi_read multi_router as_alice ?f = (Accept, ?f)"
    by (simp add: multi_read_def multi_OverwriteFilter_def multi_RejectFilter_def multi_read_denied_def CanAccessUserBox_def multi_eval)
  moreover have "filter_selects ?f (haven_note ''bob'' 10000 [])"
    by (simp add: filter_selects_def any_filter_def haven_note_def)
  moreover have "rr_box (RouteEventForUser multi_router (haven_note ''bob'' 10000 []) ''bob'') = BoxPrivate"
    by (simp add: RouteEventForUser_def multi_eval haven_note_def privateKinds_def DefaultPrivateKinds_def)
  moreover have "\<not> CanAccessUserBox multi_router BoxPrivate ''alice'' ''bob'' False"
    by (simp add: CanAccessUserBox_def multi_router_def NewRouter_def)
  ultimately show ?thesis unfolding Let_def by (intro conjI)
qed

end
