(* ===== verification/Membership.thy ===== *)
theory Membership
  imports Haven_Router
begin

text \<open>
  internal/membership: tiers and NIP-43 events (types.go), the members and invites tables
  (store.go), the join handler (handler.go). Times are nanoseconds; the zero time, and a NULL
  column, is \<open>None\<close>. Tables are maps by their primary key. Every operation takes whether its
  statement succeeds.
\<close>

section \<open>Tiers\<close>

type_synonym MemberTier = string

abbreviation TierFree :: MemberTier where "TierFree \<equiv> ''free''"
abbreviation TierHybrid :: MemberTier where "TierHybrid \<equiv> ''hybrid''"
abbreviation TierPremium :: MemberTier where "TierPremium \<equiv> ''premium''"
abbreviation TierEnterprise :: MemberTier where "TierEnterprise \<equiv> ''enterprise''"

record TierLimits =
  tl_HasHavenBoxes :: bool
  tl_HasBlastr :: bool
  tl_HasImporter :: bool
  tl_HasWoTControl :: bool
  tl_MaxBlastrRelays :: int
  tl_MaxImporterRelays :: int

definition tier_limits :: "bool \<Rightarrow> int \<Rightarrow> TierLimits" where
  "tier_limits paid relays = \<lparr>tl_HasHavenBoxes = paid, tl_HasBlastr = paid, tl_HasImporter = paid, tl_HasWoTControl = paid,
     tl_MaxBlastrRelays = relays, tl_MaxImporterRelays = relays\<rparr>"

definition TierConfig :: "MemberTier \<Rightarrow> TierLimits option" where
  "TierConfig t =
     (if t = TierFree then Some (tier_limits False 0)
      else if t = TierHybrid then Some (tier_limits True 3)
      else if t = TierPremium then Some (tier_limits True 10)
      else if t = TierEnterprise then Some (tier_limits True 0)
      else None)"

definition GetLimits :: "MemberTier \<Rightarrow> TierLimits" where
  "GetLimits t = (case TierConfig t of Some l \<Rightarrow> l | None \<Rightarrow> tier_limits False 0)"

definition tier_IsValid :: "MemberTier \<Rightarrow> bool" where
  "tier_IsValid t \<longleftrightarrow> TierConfig t \<noteq> None"

record Member =
  m_Pubkey :: string
  m_JoinedAt :: int
  m_InviteCode :: string
  m_AddedBy :: string
  m_Tier :: MemberTier
  m_TierExpiresAt :: "int option"
  m_LightningAddress :: string

definition GetEffectiveTier :: "int \<Rightarrow> Member \<Rightarrow> MemberTier" where
  "GetEffectiveTier now m =
     (if m_Tier m = '''' \<or> m_Tier m = TierFree then TierFree
      else case m_TierExpiresAt m of
        Some t \<Rightarrow> if now > t then TierFree else m_Tier m
      | None \<Rightarrow> m_Tier m)"

definition member_GetLimits :: "int \<Rightarrow> Member \<Rightarrow> TierLimits" where
  "member_GetLimits now m = GetLimits (GetEffectiveTier now m)"

record Invite =
  i_Code :: string
  i_CreatedAt :: int
  i_ExpiresAt :: "int option"
  i_MaxUses :: int
  i_Uses :: int
  i_CreatedBy :: string

definition IsValidInvite :: "int \<Rightarrow> Invite \<Rightarrow> bool" where
  "IsValidInvite now i =
     (if (case i_ExpiresAt i of Some t \<Rightarrow> now > t | None \<Rightarrow> False) then False
      else if i_MaxUses i > 0 \<and> i_Uses i \<ge> i_MaxUses i then False
      else True)"

section \<open>NIP-43 events\<close>

abbreviation KindMembershipList :: int where "KindMembershipList \<equiv> 13534"
abbreviation KindAddMember :: int where "KindAddMember \<equiv> 8000"
abbreviation KindRemoveMember :: int where "KindRemoveMember \<equiv> 8001"
abbreviation KindJoinRequest :: int where "KindJoinRequest \<equiv> 28934"
abbreviation KindInviteResponse :: int where "KindInviteResponse \<equiv> 28935"
abbreviation KindLeaveRequest :: int where "KindLeaveRequest \<equiv> 28936"

definition unsigned_event :: "int \<Rightarrow> string \<Rightarrow> int \<Rightarrow> tag list \<Rightarrow> event" where
  "unsigned_event kind pk at ts = \<lparr>ev_id = '''', ev_pubkey = pk, ev_created_at = at, ev_kind = kind, ev_tags = ts, ev_content = ''''\<rparr>"

definition CreateMembershipListEvent :: "int \<Rightarrow> string \<Rightarrow> Member list \<Rightarrow> event" where
  "CreateMembershipListEvent now relayPubkey ms =
     unsigned_event KindMembershipList relayPubkey now ([''-''] # map (\<lambda>m. [''member'', m_Pubkey m]) ms)"

definition CreateAddMemberEvent :: "int \<Rightarrow> string \<Rightarrow> string \<Rightarrow> event" where
  "CreateAddMemberEvent now relayPubkey pk = unsigned_event KindAddMember relayPubkey now [[''-''], [''p'', pk]]"

definition CreateRemoveMemberEvent :: "int \<Rightarrow> string \<Rightarrow> string \<Rightarrow> event" where
  "CreateRemoveMemberEvent now relayPubkey pk = unsigned_event KindRemoveMember relayPubkey now [[''-''], [''p'', pk]]"

definition CreateJoinRequestEvent :: "int \<Rightarrow> string \<Rightarrow> string \<Rightarrow> event" where
  "CreateJoinRequestEvent now pk inviteCode =
     unsigned_event KindJoinRequest pk now ([[''-''], [''p'', pk]] @ (if inviteCode \<noteq> '''' then [[''claim'', inviteCode]] else []))"

definition CreateInviteResponseEvent :: "int \<Rightarrow> string \<Rightarrow> string \<Rightarrow> string \<Rightarrow> event" where
  "CreateInviteResponseEvent now relayPubkey inviteCode pk =
     unsigned_event KindInviteResponse relayPubkey now [[''-''], [''p'', pk], [''claim'', inviteCode]]"

definition CreateLeaveRequestEvent :: "int \<Rightarrow> string \<Rightarrow> event" where
  "CreateLeaveRequestEvent now pk = unsigned_event KindLeaveRequest pk now [[''-''], [''p'', pk]]"

definition ParseJoinRequest :: "event \<Rightarrow> string \<times> string" where
  "ParseJoinRequest ev = (ev_pubkey ev, first_tag (ev_tags ev) ''claim'')"

definition IsMembershipKind :: "int \<Rightarrow> bool" where
  "IsMembershipKind k \<longleftrightarrow> k \<in> {KindMembershipList, KindAddMember, KindRemoveMember, KindJoinRequest, KindInviteResponse, KindLeaveRequest}"

definition HasProtectedTag :: "event \<Rightarrow> bool" where
  "HasProtectedTag ev = has_marker (ev_tags ev) ''-''"

section \<open>The tables\<close>

record member_db =
  members :: "string \<Rightarrow> Member option"
  invites :: "string \<Rightarrow> Invite option"

definition AddMember :: "bool \<Rightarrow> Member \<Rightarrow> member_db \<Rightarrow> bool \<times> member_db" where
  "AddMember ok m db =
     (if \<not> ok then (False, db)
      else let m' = (if m_Tier m = '''' then m\<lparr>m_Tier := TierFree\<rparr> else m)
           in (True, db\<lparr>members := (members db)(m_Pubkey m \<mapsto> m')\<rparr>))"

definition RemoveMember :: "bool \<Rightarrow> string \<Rightarrow> member_db \<Rightarrow> bool \<times> member_db" where
  "RemoveMember ok pk db = (if \<not> ok then (False, db) else (True, db\<lparr>members := (members db)(pk := None)\<rparr>))"

text \<open>\<open>None\<close> is a database error.\<close>

definition store_IsMember :: "bool \<Rightarrow> string \<Rightarrow> member_db \<Rightarrow> bool option" where
  "store_IsMember ok pk db = (if \<not> ok then None else Some (members db pk \<noteq> None))"

definition GetMember :: "bool \<Rightarrow> string \<Rightarrow> member_db \<Rightarrow> Member option option" where
  "GetMember ok pk db = (if \<not> ok then None
     else Some (map_option (\<lambda>m. if m_Tier m = '''' then m\<lparr>m_Tier := TierFree\<rparr> else m) (members db pk)))"

text \<open>A duplicate code violates the primary key.\<close>

definition CreateInvite :: "bool \<Rightarrow> Invite \<Rightarrow> member_db \<Rightarrow> bool \<times> member_db" where
  "CreateInvite ok i db =
     (if \<not> ok \<or> invites db (i_Code i) \<noteq> None then (False, db)
      else (True, db\<lparr>invites := (invites db)(i_Code i \<mapsto> i)\<rparr>))"

definition GetInvite :: "bool \<Rightarrow> string \<Rightarrow> member_db \<Rightarrow> Invite option option" where
  "GetInvite ok code db = (if \<not> ok then None else Some (invites db code))"

definition UseInvite :: "bool \<Rightarrow> string \<Rightarrow> member_db \<Rightarrow> bool \<times> member_db" where
  "UseInvite ok code db =
     (if \<not> ok then (False, db)
      else (True, db\<lparr>invites := (invites db)(code := map_option (\<lambda>i. i\<lparr>i_Uses := i_Uses i + 1\<rparr>) (invites db code))\<rparr>))"

definition DeleteInvite :: "bool \<Rightarrow> string \<Rightarrow> member_db \<Rightarrow> bool \<times> member_db" where
  "DeleteInvite ok code db = (if \<not> ok then (False, db) else (True, db\<lparr>invites := (invites db)(code := None)\<rparr>))"

definition keep_rows :: "('v \<Rightarrow> bool) \<Rightarrow> ('k \<Rightarrow> 'v option) \<Rightarrow> 'k \<Rightarrow> 'v option" where
  "keep_rows P t = (\<lambda>k. case t k of None \<Rightarrow> None | Some v \<Rightarrow> if P v then Some v else None)"

definition CleanupExpiredInvites :: "bool \<Rightarrow> int \<Rightarrow> member_db \<Rightarrow> bool \<times> member_db" where
  "CleanupExpiredInvites ok now db =
     (if \<not> ok then (False, db)
      else (True, db\<lparr>invites := keep_rows (\<lambda>i. case i_ExpiresAt i of Some t \<Rightarrow> \<not> t < now | None \<Rightarrow> True) (invites db)\<rparr>))"

definition CleanupUsedInvites :: "bool \<Rightarrow> member_db \<Rightarrow> bool \<times> member_db" where
  "CleanupUsedInvites ok db =
     (if \<not> ok then (False, db)
      else (True, db\<lparr>invites := keep_rows (\<lambda>i. \<not> (i_MaxUses i > 0 \<and> i_Uses i \<ge> i_MaxUses i)) (invites db)\<rparr>))"

text \<open>An update of a missing row is \<open>sql.ErrNoRows\<close>.\<close>

definition UpdateTier :: "bool \<Rightarrow> string \<Rightarrow> MemberTier \<Rightarrow> int option \<Rightarrow> member_db \<Rightarrow> bool \<times> member_db" where
  "UpdateTier ok pk tier expiresAt db =
     (if \<not> ok then (False, db)
      else case members db pk of
        None \<Rightarrow> (False, db)
      | Some m \<Rightarrow> (True, db\<lparr>members := (members db)(pk \<mapsto> m\<lparr>m_Tier := tier, m_TierExpiresAt := expiresAt\<rparr>)\<rparr>))"

definition SetLightningAddress :: "bool \<Rightarrow> string \<Rightarrow> string \<Rightarrow> member_db \<Rightarrow> bool \<times> member_db" where
  "SetLightningAddress ok pk addr db =
     (if \<not> ok then (False, db)
      else case members db pk of
        None \<Rightarrow> (False, db)
      | Some m \<Rightarrow> (True, db\<lparr>members := (members db)(pk \<mapsto> m\<lparr>m_LightningAddress := addr\<rparr>)\<rparr>))"

text \<open>The \<open>WHERE\<close> clause of \<open>ListExpiredTiers\<close> and \<open>ResetExpiredTiers\<close>.\<close>

definition tier_row_expired :: "int \<Rightarrow> Member \<Rightarrow> bool" where
  "tier_row_expired now m \<longleftrightarrow> m_Tier m \<noteq> TierFree \<and> (case m_TierExpiresAt m of Some t \<Rightarrow> t < now | None \<Rightarrow> False)"

definition ResetExpiredTiers :: "bool \<Rightarrow> int \<Rightarrow> member_db \<Rightarrow> bool \<times> member_db" where
  "ResetExpiredTiers ok now db =
     (if \<not> ok then (False, db)
      else (True, db\<lparr>members := (\<lambda>pk. map_option (\<lambda>m. if tier_row_expired now m then m\<lparr>m_Tier := TierFree\<rparr> else m) (members db pk))\<rparr>))"

definition store_GetMemberInfo :: "bool \<Rightarrow> int \<Rightarrow> string \<Rightarrow> member_db \<Rightarrow> MemberInfo option option" where
  "store_GetMemberInfo ok now pk db =
     (case GetMember ok pk db of
        None \<Rightarrow> None
      | Some None \<Rightarrow> Some None
      | Some (Some m) \<Rightarrow>
          (let tier = GetEffectiveTier now m; limits = GetLimits tier
           in Some (Some \<lparr>mi_Pubkey = m_Pubkey m, mi_Tier = tier, HasHavenBoxes = tl_HasHavenBoxes limits,
                HasBlastr = tl_HasBlastr limits, HasImporter = tl_HasImporter limits, HasWoTControl = tl_HasWoTControl limits,
                MaxBlastrRelays = tl_MaxBlastrRelays limits, MaxImporterRelays = tl_MaxImporterRelays limits\<rparr>)))"

section \<open>Join requests\<close>

record join_faults =
  jf_is_member :: bool
  jf_get_invite :: bool
  jf_recheck :: bool
  jf_use :: bool
  jf_add :: bool
  jf_sign :: bool

definition RejectJoinRequest :: "bool \<Rightarrow> join_faults \<Rightarrow> int \<Rightarrow> event \<Rightarrow> member_db \<Rightarrow> verdict" where
  "RejectJoinRequest requireInvite flt now ev db =
     (if ev_kind ev \<noteq> KindJoinRequest then Accept
      else if \<not> HasProtectedTag ev then Reject ''restricted: join requests require the NIP-70 protected tag''
      else case ParseJoinRequest ev of (pk, code) \<Rightarrow>
        if pk = '''' then Reject ''invalid: join request missing pubkey''
        else case store_IsMember (jf_is_member flt) pk db of
          None \<Rightarrow> Reject ''error: internal error checking membership''
        | Some True \<Rightarrow> Accept
        | Some False \<Rightarrow>
            if code \<noteq> '''' then
              (case GetInvite (jf_get_invite flt) code db of
                 None \<Rightarrow> Reject ''error: internal error validating invite''
               | Some None \<Rightarrow> Reject ''restricted: invalid invite code''
               | Some (Some i) \<Rightarrow> if \<not> IsValidInvite now i then Reject ''restricted: invite code expired or fully used'' else Accept)
            else if requireInvite then Reject ''restricted: an invite code is required to join this relay''
            else Accept)"

text \<open>The hook also publishes a kind 8000 event when it can be signed.\<close>

definition OnJoinRequestSaved :: "string \<Rightarrow> join_faults \<Rightarrow> int \<Rightarrow> event \<Rightarrow> member_db \<Rightarrow> member_db \<times> event option" where
  "OnJoinRequestSaved relayPubkey flt now ev db =
     (if ev_kind ev \<noteq> KindJoinRequest then (db, None)
      else case ParseJoinRequest ev of (pk, code) \<Rightarrow>
        case store_IsMember (jf_recheck flt) pk db of
          None \<Rightarrow> (db, None)
        | Some True \<Rightarrow> (db, None)
        | Some False \<Rightarrow>
            (let db1 = (if code \<noteq> '''' then snd (UseInvite (jf_use flt) code db) else db);
                 m = \<lparr>m_Pubkey = pk, m_JoinedAt = now, m_InviteCode = code, m_AddedBy = '''', m_Tier = TierFree,
                      m_TierExpiresAt = None, m_LightningAddress = ''''\<rparr>
             in case AddMember (jf_add flt) m db1 of
                  (False, db2) \<Rightarrow> (db2, None)
                | (True, db2) \<Rightarrow> (db2, if jf_sign flt then Some (CreateAddMemberEvent (now div ns_per_sec) relayPubkey pk) else None)))"

section \<open>Facts\<close>

lemma GetEffectiveTier_cases: "GetEffectiveTier now m = TierFree \<or> GetEffectiveTier now m = m_Tier m"
  by (simp add: GetEffectiveTier_def split: option.split)

lemma free_has_no_boxes: "tl_HasHavenBoxes (GetLimits t) \<Longrightarrow> t \<noteq> TierFree"
  by (auto simp: GetLimits_def TierConfig_def tier_limits_def)

lemma ResetExpiredTiers_row:
  "snd (ResetExpiredTiers ok now db) = db\<lparr>members := (\<lambda>pk. map_option (\<lambda>m. if ok \<and> tier_row_expired now m then m\<lparr>m_Tier := TierFree\<rparr> else m) (members db pk))\<rparr>"
  by (simp add: ResetExpiredTiers_def option.map_ident)

lemma sweep_keeps_effective_tier:
  "now \<le> later \<Longrightarrow> GetEffectiveTier later (if tier_row_expired now m then m\<lparr>m_Tier := TierFree\<rparr> else m) = GetEffectiveTier later m"
  by (auto simp: GetEffectiveTier_def tier_row_expired_def split: option.splits)

lemma sweep_row:
  "now \<le> later \<Longrightarrow> GetEffectiveTier later (if ok \<and> tier_row_expired now m then m\<lparr>m_Tier := TierFree\<rparr> else m) = GetEffectiveTier later m"
  using sweep_keeps_effective_tier [of now later m] by (cases ok) simp_all

lemma UseInvite_members [simp]: "members (snd (UseInvite ok code db)) = members db"
  by (simp add: UseInvite_def)

lemma OnJoin_existing: "members db pk = Some m \<Longrightarrow> members (fst (OnJoinRequestSaved relay flt now ev db)) pk = Some m"
  by (auto simp: OnJoinRequestSaved_def ParseJoinRequest_def store_IsMember_def AddMember_def Let_def
      split: option.split bool.split)

subsection \<open>One join after the other\<close>

text \<open>The pair of handlers: the check of the event and, if it passes, the hook after storing.\<close>

record join_try =
  jt_flt :: join_faults
  jt_now :: int
  jt_event :: event

definition join_once :: "bool \<Rightarrow> string \<Rightarrow> join_try \<Rightarrow> member_db \<Rightarrow> member_db" where
  "join_once req relay x db =
     (if RejectJoinRequest req (jt_flt x) (jt_now x) (jt_event x) db = Accept
      then fst (OnJoinRequestSaved relay (jt_flt x) (jt_now x) (jt_event x) db) else db)"

definition joined_with :: "string \<Rightarrow> member_db \<Rightarrow> string set" where
  "joined_with code db = {pk. \<exists>m. members db pk = Some m \<and> m_InviteCode m = code}"

text \<open>An invite's use count covers the members who came with it and respects its maximum.\<close>

definition invite_inv :: "string \<Rightarrow> member_db \<Rightarrow> bool" where
  "invite_inv code db \<longleftrightarrow> finite (joined_with code db) \<and>
     (case invites db code of None \<Rightarrow> True
      | Some i \<Rightarrow> int (card (joined_with code db)) \<le> i_Uses i \<and> (i_MaxUses i > 0 \<longrightarrow> i_Uses i \<le> i_MaxUses i))"

lemma OnJoin_effect:
  "fst (OnJoinRequestSaved relay flt now ev db) =
     (if ev_kind ev = KindJoinRequest \<and> jf_recheck flt \<and> members db (ev_pubkey ev) = None
      then (let code = first_tag (ev_tags ev) ''claim'';
                db1 = (if code \<noteq> '''' then snd (UseInvite (jf_use flt) code db) else db);
                m = \<lparr>m_Pubkey = ev_pubkey ev, m_JoinedAt = now, m_InviteCode = code, m_AddedBy = '''', m_Tier = TierFree,
                     m_TierExpiresAt = None, m_LightningAddress = ''''\<rparr>
            in snd (AddMember (jf_add flt) m db1))
      else db)"
  by (auto simp: OnJoinRequestSaved_def ParseJoinRequest_def store_IsMember_def AddMember_def Let_def
      split: option.split bool.split prod.split)

lemma join_once_inv:
  assumes "code \<noteq> ''''" "jf_use (jt_flt x)" "invite_inv code db"
  shows "invite_inv code (join_once req relay x db)"
proof -
  let ?ev = "jt_event x" and ?f = "jt_flt x"
  let ?c = "first_tag (ev_tags ?ev) ''claim''"
  show ?thesis
  proof (cases "RejectJoinRequest req ?f (jt_now x) ?ev db = Accept \<and> ev_kind ?ev = KindJoinRequest \<and> jf_recheck ?f
      \<and> members db (ev_pubkey ?ev) = None")
    case False
    then have "join_once req relay x db = db" by (auto simp: join_once_def OnJoin_effect)
    with assms(3) show ?thesis by simp
  next
    case True
    let ?db = "join_once req relay x db"
    have step: "members ?db = (if jf_add ?f then (members db)(ev_pubkey ?ev \<mapsto> \<lparr>m_Pubkey = ev_pubkey ?ev, m_JoinedAt = jt_now x,
        m_InviteCode = ?c, m_AddedBy = '''', m_Tier = TierFree, m_TierExpiresAt = None, m_LightningAddress = ''''\<rparr>) else members db)"
      "invites ?db = (if ?c \<noteq> '''' then (invites db)(?c := map_option (\<lambda>i. i\<lparr>i_Uses := i_Uses i + 1\<rparr>) (invites db ?c)) else invites db)"
      using True assms(2) by (auto simp: join_once_def OnJoin_effect Let_def AddMember_def UseInvite_def)
    show ?thesis
    proof (cases "?c = code")
      case False
      then have same: "joined_with code ?db = joined_with code db" "invites ?db code = invites db code"
        using True step by (auto simp: joined_with_def)
      show ?thesis using assms(3) unfolding invite_inv_def same .
    next
      case c: True
      have valid: "case invites db code of Some i \<Rightarrow> IsValidInvite (jt_now x) i | None \<Rightarrow> False"
        using True assms(1) c
        by (auto simp: RejectJoinRequest_def ParseJoinRequest_def store_IsMember_def GetInvite_def split: option.splits if_splits bool.splits)
      then obtain i where i: "invites db code = Some i" "IsValidInvite (jt_now x) i" by (auto split: option.splits)
      have sub: "joined_with code ?db \<subseteq> insert (ev_pubkey ?ev) (joined_with code db)"
        using step by (auto simp: joined_with_def)
      have fin: "finite (joined_with code db)" using assms(3) by (simp add: invite_inv_def)
      have "card (joined_with code ?db) \<le> card (insert (ev_pubkey ?ev) (joined_with code db))"
        using sub fin by (intro card_mono) auto
      also have "\<dots> \<le> Suc (card (joined_with code db))"
        using fin by (simp add: card_insert_if)
      finally have card: "card (joined_with code ?db) \<le> Suc (card (joined_with code db))" .
      have "finite (joined_with code ?db)" using sub fin by (meson finite_insert finite_subset)
      moreover have "invites ?db code = Some (i\<lparr>i_Uses := i_Uses i + 1\<rparr>)" using step(2) c assms(1) i(1) by simp
      ultimately show ?thesis
        using card assms(3) i by (auto simp: invite_inv_def IsValidInvite_def split: if_splits)
    qed
  qed
qed

lemma join_fold_inv:
  assumes "code \<noteq> ''''" "\<forall>x \<in> set xs. jf_use (jt_flt x)" "invite_inv code db"
  shows "invite_inv code (fold (join_once req relay) xs db)"
  using assms(2,3)
proof (induction xs arbitrary: db)
  case (Cons x xs)
  from Cons.IH [OF _ join_once_inv [OF assms(1) _ Cons.prems(2)]] Cons.prems(1) show ?case by simp
qed simp

section \<open>The member store of HAVEN\<close>

text \<open>The answers HAVEN sees: an error and a missing row look alike to it.\<close>

definition member_api_of :: "(string \<Rightarrow> bool) \<Rightarrow> int \<Rightarrow> member_db \<Rightarrow> member_api" where
  "member_api_of ok now db =
     \<lparr>GetMemberInfo = (\<lambda>pk. case store_GetMemberInfo (ok pk) now pk db of Some r \<Rightarrow> r | None \<Rightarrow> None),
      IsMember = (\<lambda>pk. store_IsMember (ok pk) pk db = Some True)\<rparr>"

definition effective_tier :: "int \<Rightarrow> member_db \<Rightarrow> string \<Rightarrow> MemberTier option" where
  "effective_tier now db pk = map_option (GetEffectiveTier now) (members db pk)"

lemma GetEffectiveTier_default: "GetEffectiveTier now (if m_Tier m = '''' then m\<lparr>m_Tier := TierFree\<rparr> else m) = GetEffectiveTier now m"
  by (simp add: GetEffectiveTier_def)

interpretation ms: haven_member_store "member_api_of ok now db" "effective_tier now db" for ok now db
proof
  fix pk i
  assume i: "GetMemberInfo (member_api_of ok now db) pk = Some i"
  then obtain m where m: "members db pk = Some m" "mi_Tier i = GetEffectiveTier now m"
    "HasHavenBoxes i = tl_HasHavenBoxes (GetLimits (mi_Tier i))"
    by (auto simp: member_api_of_def store_GetMemberInfo_def GetMember_def GetEffectiveTier_default Let_def
        split: if_splits option.splits)
  then show "effective_tier now db pk = Some (mi_Tier i)" by (simp add: effective_tier_def)
  show "mi_Tier i \<noteq> ''free''" if "HasHavenBoxes i"
    using that m(3) free_has_no_boxes by simp
next
  fix pk
  show "IsMember (member_api_of ok now db) pk \<Longrightarrow> effective_tier now db pk \<noteq> None"
    by (auto simp: member_api_of_def store_IsMember_def effective_tier_def split: if_splits)
qed

section \<open>Properties\<close>

text \<open>The expiry sweep is only housekeeping: whenever it runs, and whether or not it succeeds, the
  effective tier of every key at every later moment is what it would have been without it.\<close>

theorem expiry_sweep_unobservable:
  assumes "now \<le> later"
  shows "effective_tier later (snd (ResetExpiredTiers ok now db)) pk = effective_tier later db pk"
  unfolding effective_tier_def ResetExpiredTiers_row
  by (cases "members db pk") (simp_all add: sweep_row [OF assms] del: if_split)

definition lapsed_member :: Member where
  "lapsed_member = \<lparr>m_Pubkey = ''a'', m_JoinedAt = 0, m_InviteCode = '''', m_AddedBy = '''', m_Tier = TierPremium,
     m_TierExpiresAt = Some 5, m_LightningAddress = ''''\<rparr>"

lemma expiry_sweep_unobservable_witness:
  "effective_tier 11 (snd (ResetExpiredTiers True 10 \<lparr>members = [''a'' \<mapsto> lapsed_member], invites = Map.empty\<rparr>)) ''a'' = Some TierFree"
  using expiry_sweep_unobservable [of 10 11 True "\<lparr>members = [''a'' \<mapsto> lapsed_member], invites = Map.empty\<rparr>" "''a''"]
  by (simp add: effective_tier_def GetEffectiveTier_def lapsed_member_def)

text \<open>Join requests put through the two handlers as they are written, one after the other, admit at most as
  many members per invite code as the invite allows, as long as the use count can be written. (The framework
  runs the second handler for stored events only, and join requests are ephemeral.)\<close>

theorem invite_admits_at_most_max_uses:
  assumes "code \<noteq> ''''" "\<forall>x \<in> set xs. jf_use (jt_flt x)" "invite_inv code db"
    and "invites (fold (join_once req relay) xs db) code = Some i" "i_MaxUses i > 0"
  shows "int (card (joined_with code (fold (join_once req relay) xs db))) \<le> i_MaxUses i"
  using join_fold_inv [OF assms(1-3), of req relay] assms(4,5) by (simp add: invite_inv_def)

definition all_fine :: join_faults where
  "all_fine = \<lparr>jf_is_member = True, jf_get_invite = True, jf_recheck = True, jf_use = True, jf_add = True, jf_sign = True\<rparr>"

definition single_use :: Invite where
  "single_use = \<lparr>i_Code = ''c'', i_CreatedAt = 0, i_ExpiresAt = None, i_MaxUses = 1, i_Uses = 0, i_CreatedBy = ''op''\<rparr>"

definition one_invite :: member_db where
  "one_invite = \<lparr>members = Map.empty, invites = [''c'' \<mapsto> single_use]\<rparr>"

definition join_by :: "string \<Rightarrow> join_try" where
  "join_by pk = \<lparr>jt_flt = all_fine, jt_now = 1, jt_event = CreateJoinRequestEvent 0 pk ''c''\<rparr>"

lemmas join_eval = join_by_def CreateJoinRequestEvent_def unsigned_event_def all_fine_def RejectJoinRequest_def ParseJoinRequest_def
  first_tag_def HasProtectedTag_def store_IsMember_def GetInvite_def IsValidInvite_def one_invite_def single_use_def
  OnJoinRequestSaved_def UseInvite_def AddMember_def

lemma invite_admits_at_most_max_uses_witness:
  "int (card (joined_with ''c'' (fold (join_once True ''r'') [join_by ''a'', join_by ''b''] one_invite))) \<le> 1"
proof -
  have "invites (fold (join_once True ''r'') [join_by ''a'', join_by ''b''] one_invite) ''c'' = Some (single_use\<lparr>i_Uses := 1\<rparr>)"
    by (simp add: join_once_def join_eval)
  moreover have "invite_inv ''c'' one_invite" by (simp add: invite_inv_def joined_with_def one_invite_def single_use_def)
  ultimately show ?thesis
    using invite_admits_at_most_max_uses [of "''c''" "[join_by ''a'', join_by ''b'']" one_invite True "''r''" "single_use\<lparr>i_Uses := 1\<rparr>"]
    by (simp add: single_use_def join_by_def all_fine_def)
qed

text \<open>Two join requests that are both checked before either is processed both join on an invite of a
  single use: nothing in the update guards the count.\<close>

theorem concurrent_joins_exceed_max_uses:
  "RejectJoinRequest True all_fine 1 (jt_event (join_by ''a'')) one_invite = Accept \<and>
   RejectJoinRequest True all_fine 1 (jt_event (join_by ''b'')) one_invite = Accept \<and>
   (let db1 = fst (OnJoinRequestSaved ''r'' all_fine 1 (jt_event (join_by ''a'')) one_invite);
        db2 = fst (OnJoinRequestSaved ''r'' all_fine 1 (jt_event (join_by ''b'')) db1)
    in {''a'', ''b''} \<subseteq> joined_with ''c'' db2 \<and> i_MaxUses single_use = 1)"
  by (simp add: join_eval joined_with_def Let_def)

text \<open>A join request of an existing member, repeated or racing, never touches the member's row: it
  cannot reset a paid tier to free.\<close>

theorem join_never_downgrades:
  assumes "members db pk = Some m"
  shows "members (fold (join_once req relay) xs db) pk = Some m"
proof -
  have step: "members d pk = Some m \<Longrightarrow> members (join_once req relay x d) pk = Some m" for d x
    by (simp add: join_once_def OnJoin_existing)
  show ?thesis
    using assms
  proof (induction xs arbitrary: db)
    case (Cons x xs)
    from Cons.IH [OF step [OF Cons.prems]] show ?case by simp
  qed simp
qed

lemma join_never_downgrades_witness:
  "members (fold (join_once False ''r'') [join_by ''a''] \<lparr>members = [''a'' \<mapsto> lapsed_member], invites = Map.empty\<rparr>) ''a'' = Some lapsed_member"
  by (rule join_never_downgrades) simp

text \<open>C23: In multi-user HAVEN mode, whichever reads of the members table fail, an event is routed to an owner only if
  the owner's row holds, at that moment, a paid tier that has not expired, which is the tier the result carries.
  It reaches a private box or an outbox only as its authenticated owner's own event, a chat box only from the
  authenticated owner, and an inbox only if it names the owner in a \<open>p\<close> tag, or is a
  repost or a reaction that names an event the owner has signed.\<close>

theorem routed_owner_is_paid_member:
  assumes "r_members r = Some (member_api_of ok now db)" "RouteEventForUser r ev authed = res" "rr_owner res \<noteq> ''''"
  shows "(\<exists>m. members db (rr_owner res) = Some m \<and> m_Tier m = rr_tier res \<and> rr_tier res \<noteq> '''' \<and> rr_tier res \<noteq> TierFree \<and>
      (case m_TierExpiresAt m of None \<Rightarrow> True | Some t \<Rightarrow> now \<le> t)) \<and>
    (case rr_box res of
       BoxPrivate \<Rightarrow> rr_owner res = authed \<and> ev_pubkey ev = authed
     | BoxOutbox \<Rightarrow> rr_owner res = authed \<and> ev_pubkey ev = authed
     | BoxChat \<Rightarrow> rr_owner res = authed
     | BoxInbox \<Rightarrow> rr_owner res \<in> set (all_tags (ev_tags ev) ''p'') \<or>
         ((ev_kind ev = 6 \<or> ev_kind ev = 7) \<and>
          (\<exists>i \<in> set (all_tags (ev_tags ev) ''e''). \<exists>e. lookup_event r i = Some e \<and> ev_pubkey e = rr_owner res))
     | BoxUnknown \<Rightarrow> False)"
proof -
  have "effective_tier now db (rr_owner res) = Some (rr_tier res)" "rr_tier res \<noteq> TierFree"
    using ms.routed_owner_paid [OF assms] by blast+
  then have row: "\<exists>m. members db (rr_owner res) = Some m \<and> m_Tier m = rr_tier res \<and> rr_tier res \<noteq> '''' \<and> rr_tier res \<noteq> TierFree \<and>
      (case m_TierExpiresAt m of None \<Rightarrow> True | Some t \<Rightarrow> now \<le> t)"
    by (auto simp: effective_tier_def GetEffectiveTier_def split: if_splits option.splits)
  note own = RouteEventForUser_owner [OF assms] RouteEventForUser_addressed [OF assms]
  show ?thesis using row own by (cases "rr_box res") (auto simp: addresses_def)
qed

lemma routed_owner_is_paid_member_witness:
  "m_Tier lapsed_member = TierPremium \<and> (case m_TierExpiresAt lapsed_member of None \<Rightarrow> True | Some t \<Rightarrow> 4 \<le> t)"
proof -
  let ?db = "\<lparr>members = [''a'' \<mapsto> lapsed_member], invites = Map.empty\<rparr>"
  let ?m = "member_api_of (\<lambda>_. True) 4 ?db"
  let ?r = "(NewRouter (Some (haven_DefaultConfig\<lparr>hc_enabled := True\<rparr>)))\<lparr>r_members := Some ?m\<rparr>"
  let ?ev = "unsigned_event 1 ''b'' 0 [[''p'', ''a'']]"
  have "haven_tier ?m ''a'' = Some TierPremium"
    by (simp add: haven_tier_def member_api_of_def store_GetMemberInfo_def GetMember_def lapsed_member_def GetEffectiveTier_def
        GetLimits_def TierConfig_def tier_limits_def)
  then have "RouteEventForUser ?r ?ev '''' = routed BoxInbox ''a'' TierPremium"
    by (simp add: RouteEventForUser_def route_addressed_def unsigned_event_def NewRouter_def haven_DefaultConfig_def
        privateKinds_def DefaultPrivateKinds_def DefaultChatKinds_def)
  from routed_owner_is_paid_member [of _ "\<lambda>_. True" 4 ?db, OF _ this] show ?thesis by (simp add: unsigned_event_def)
qed

end
