(* ===== verification/Payments.thy ===== *)
theory Payments
  imports Membership Access_Control
begin

text \<open>
  Paid tiers: the pending_payments table (internal/membership/payments.go), the invoice and
  webhook endpoints (http.go), the expiry sweep (scheduler.go) and the cached paid-member check
  of cmd/relay/main.go. LNbits is a parameter: the invoice it creates and the state it reports.

  A webhook request is a small machine, because requests run concurrently and every database
  statement is a step of its own: \<open>webhook_step\<close> is one step, \<open>handleWebhook\<close> runs them in a row, and
  \<open>pay_world\<close> interleaves any number of requests with the sweep.
\<close>

section \<open>The table of payments\<close>

datatype PaymentStatus = PaymentPending | PaymentSettled | PaymentExpired

record PendingPayment =
  pp_Hash :: string
  pp_Pubkey :: string
  pp_Tier :: MemberTier
  pp_AmountSats :: int
  pp_PeriodDays :: int
  pp_Status :: PaymentStatus
  pp_CreatedAt :: int
  pp_SettledAt :: "int option"

type_synonym payment_table = "string \<Rightarrow> PendingPayment option"

datatype payment_error = EmptyHash | EmptyPubkey | BadTier | BadAmount | BadPeriod | StatementFailed

text \<open>\<open>INSERT\<close> fails on a hash that is already there. The status is always pending.\<close>

definition payment_Create :: "bool \<Rightarrow> int \<Rightarrow> PendingPayment \<Rightarrow> payment_table \<Rightarrow> payment_error option \<times> payment_table" where
  "payment_Create ok now p t =
     (if pp_Hash p = '''' then (Some EmptyHash, t)
      else if pp_Pubkey p = '''' then (Some EmptyPubkey, t)
      else if \<not> tier_IsValid (pp_Tier p) then (Some BadTier, t)
      else if pp_AmountSats p \<le> 0 then (Some BadAmount, t)
      else if pp_PeriodDays p \<le> 0 then (Some BadPeriod, t)
      else if \<not> ok \<or> t (pp_Hash p) \<noteq> None then (Some StatementFailed, t)
      else (None, t(pp_Hash p \<mapsto> p\<lparr>pp_Status := PaymentPending, pp_CreatedAt := now, pp_SettledAt := None\<rparr>)))"

definition GetByHash :: "bool \<Rightarrow> string \<Rightarrow> payment_table \<Rightarrow> PendingPayment option option" where
  "GetByHash ok h t = (if \<not> ok then None else Some (t h))"

definition MarkSettled :: "bool \<Rightarrow> int \<Rightarrow> string \<Rightarrow> payment_table \<Rightarrow> bool \<times> payment_table" where
  "MarkSettled ok now h t =
     (if \<not> ok then (False, t)
      else case t h of
        Some p \<Rightarrow> if pp_Status p = PaymentPending
                  then (True, t(h \<mapsto> p\<lparr>pp_Status := PaymentSettled, pp_SettledAt := Some now\<rparr>)) else (False, t)
      | None \<Rightarrow> (False, t))"

definition MarkExpired :: "bool \<Rightarrow> int \<Rightarrow> int \<Rightarrow> payment_table \<Rightarrow> payment_table" where
  "MarkExpired ok now olderThan t =
     (if \<not> ok then t
      else (\<lambda>h. map_option (\<lambda>p. if pp_Status p = PaymentPending \<and> pp_CreatedAt p < now - olderThan
                                 then p\<lparr>pp_Status := PaymentExpired\<rparr> else p) (t h)))"

section \<open>The endpoints\<close>

record pay_state =
  ps_members :: member_db
  ps_payments :: payment_table

datatype http_result = Status nat | Panic

text \<open>\<open>s[:8]\<close> of a shorter string panics; the HTTP server turns that into a dropped connection.\<close>

definition cut8 :: "string \<Rightarrow> http_result \<Rightarrow> http_result" where
  "cut8 s r = (if length s < 8 then Panic else r)"

text \<open>The auth check of the invoice endpoint: the admin check without the list of admins.\<close>

definition validateNIP98UserAuth :: "nostr_lib \<Rightarrow> nip98_lib \<Rightarrow> int \<Rightarrow> http_request \<Rightarrow> string option" where
  "validateNIP98UserAuth lib l98 now r =
     (if rq_auth r = '''' then None
      else if \<not> HasPrefix (rq_auth r) ''Nostr '' then None
      else case base64_decode l98 (TrimPrefix (rq_auth r) ''Nostr '') of
        None \<Rightarrow> None
      | Some json \<Rightarrow>
      case event_of_json l98 json of
        None \<Rightarrow> None
      | Some ev \<Rightarrow>
      if ev_kind ev \<noteq> 27235 then None
      else if now - ev_created_at ev * ns_per_sec > 60 * ns_per_sec \<or> ev_created_at ev * ns_per_sec - now > 60 * ns_per_sec
      then None
      else let uTag = Tags_Find l98 (ev_tags ev) ''u'' in
      if length uTag < 2 then None
      else if uTag ! 1 \<noteq> getRequestURL r then None
      else let methodTag = Tags_Find l98 (ev_tags ev) ''method'' in
      if length methodTag < 2 then None
      else if ToUpper l98 (methodTag ! 1) \<noteq> rq_method r then None
      else if CheckSignature lib ev \<noteq> Some True then None
      else Some (ev_pubkey ev))"

record pay_config =
  pc_tierPrices :: "MemberTier \<Rightarrow> int option"
  pc_periodDays :: int

record pay_faults =
  pf_is_member :: bool
  pf_create :: bool
  pf_lookup :: bool
  pf_settle :: bool
  pf_member :: bool
  pf_update :: bool

text \<open>
  internal/lightning: what the client makes of the answers of LNbits. An answer is \<open>None\<close> when the
  request fails, the status is not 2xx or the JSON is bad. Go's division truncates.
\<close>

record invoice_answer =
  ia_payment_hash :: string
  ia_payment_request :: string
  ia_bolt11 :: string

definition ln_CreateInvoice :: "(int \<Rightarrow> invoice_answer option) \<Rightarrow> int \<Rightarrow> (string \<times> string) option" where
  "ln_CreateInvoice ask sats =
     (if sats \<le> 0 then None
      else case ask sats of
        None \<Rightarrow> None
      | Some a \<Rightarrow>
          (let bolt11 = (if ia_payment_request a = '''' then ia_bolt11 a else ia_payment_request a)
           in if ia_payment_hash a = '''' \<or> bolt11 = '''' then None else Some (ia_payment_hash a, bolt11)))"

type_synonym lnbits = "string \<Rightarrow> (bool \<times> int) option"

definition CheckPayment :: "lnbits \<Rightarrow> string \<Rightarrow> (bool \<times> int) option" where
  "CheckPayment ln h =
     (if h = '''' then None
      else case ln h of None \<Rightarrow> None | Some (paid, msat) \<Rightarrow> Some (paid, \<bar>msat\<bar> div 1000))"

text \<open>
  \<open>handleInvoice\<close>: \<open>body\<close> is the tier of the decoded body (\<open>None\<close>: bad JSON), \<open>ask\<close> what
  LNbits answers to the request for an invoice of a given amount.
\<close>

definition handleInvoice ::
  "nostr_lib \<Rightarrow> nip98_lib \<Rightarrow> pay_config \<Rightarrow> (int \<Rightarrow> invoice_answer option) \<Rightarrow> pay_faults \<Rightarrow> int \<Rightarrow> http_request \<Rightarrow> MemberTier option \<Rightarrow>
   pay_state \<Rightarrow> http_result \<times> pay_state" where
  "handleInvoice lib l98 cfg ask flt now r body s =
     (if rq_method r \<noteq> ''POST'' then (Status 405, s)
      else case validateNIP98UserAuth lib l98 now r of
        None \<Rightarrow> (Status 401, s)
      | Some pk \<Rightarrow>
      case body of
        None \<Rightarrow> (Status 400, s)
      | Some tier \<Rightarrow>
      if \<not> tier_IsValid tier \<or> tier = TierFree then (Status 400, s)
      else case pc_tierPrices cfg tier of
        None \<Rightarrow> (Status 400, s)
      | Some price \<Rightarrow>
      if price \<le> 0 then (Status 400, s)
      else case store_IsMember (pf_is_member flt) pk (ps_members s) of
        None \<Rightarrow> (cut8 pk (Status 500), s)
      | Some False \<Rightarrow> (Status 403, s)
      | Some True \<Rightarrow>
      case ln_CreateInvoice ask price of
        None \<Rightarrow> (cut8 pk (Status 502), s)
      | Some (hash, bolt11) \<Rightarrow>
          (case payment_Create (pf_create flt) now
                  \<lparr>pp_Hash = hash, pp_Pubkey = pk, pp_Tier = tier, pp_AmountSats = price, pp_PeriodDays = pc_periodDays cfg,
                   pp_Status = PaymentPending, pp_CreatedAt = 0, pp_SettledAt = None\<rparr> (ps_payments s) of
             (Some e, _) \<Rightarrow> (cut8 pk (Status 500), s)
           | (None, t) \<Rightarrow> (cut8 pk (cut8 hash (Status 200)), s\<lparr>ps_payments := t\<rparr>)))"

datatype webhook =
    Received string
  | Checking string PendingPayment
  | Settling string PendingPayment
  | Reading string PendingPayment
  | Granting string PendingPayment int
  | Done http_result

text \<open>
  \<open>time.Duration(days) * 24 * time.Hour\<close> is an int64 product. \<open>member.TierExpiresAt.After(now)\<close>
  is only asked of an expiry that is set.
\<close>

definition grantExpiry :: "int \<Rightarrow> Member \<Rightarrow> int \<Rightarrow> int" where
  "grantExpiry now m days =
     (let base = (case m_TierExpiresAt m of Some t \<Rightarrow> if t > now then t else now | None \<Rightarrow> now)
      in base + i64 (days * 24 * 3600 * ns_per_sec))"

fun webhook_step :: "lnbits \<Rightarrow> pay_faults \<Rightarrow> int \<Rightarrow> webhook \<Rightarrow> pay_state \<Rightarrow> webhook \<times> pay_state" where
  "webhook_step ln flt now (Received h) s =
     (if h = '''' then (Done (Status 400), s)
      else case GetByHash (pf_lookup flt) h (ps_payments s) of
        None \<Rightarrow> (Done (cut8 h (Status 500)), s)
      | Some None \<Rightarrow> (Done (cut8 h (Status 200)), s)
      | Some (Some p) \<Rightarrow> if pp_Status p \<noteq> PaymentPending then (Done (Status 200), s) else (Checking h p, s))"
| "webhook_step ln flt now (Checking h p) s =
     (case CheckPayment ln h of
        None \<Rightarrow> (Done (cut8 h (Status 502)), s)
      | Some (paid, sats) \<Rightarrow>
          if \<not> paid then (Done (cut8 h (Status 200)), s)
          else if sats < pp_AmountSats p then (Done (cut8 h (Status 200)), s)
          else (Settling h p, s))"
| "webhook_step ln flt now (Settling h p) s =
     (case MarkSettled (pf_settle flt) now h (ps_payments s) of
        (False, t) \<Rightarrow> (Done (cut8 h (Status 200)), s\<lparr>ps_payments := t\<rparr>)
      | (True, t) \<Rightarrow> (Reading h p, s\<lparr>ps_payments := t\<rparr>))"
| "webhook_step ln flt now (Reading h p) s =
     (case GetMember (pf_member flt) (pp_Pubkey p) (ps_members s) of
        None \<Rightarrow> (Done (cut8 (pp_Pubkey p) (Status 200)), s)
      | Some None \<Rightarrow> (Done (cut8 (pp_Pubkey p) (Status 200)), s)
      | Some (Some m) \<Rightarrow> (Granting h p (grantExpiry now m (pp_PeriodDays p)), s))"
| "webhook_step ln flt now (Granting h p e) s =
     (case UpdateTier (pf_update flt) (pp_Pubkey p) (pp_Tier p) (Some e) (ps_members s) of
        (False, db) \<Rightarrow> (Done (cut8 (pp_Pubkey p) (Status 500)), s\<lparr>ps_members := db\<rparr>)
      | (True, db) \<Rightarrow> (Done (cut8 (pp_Pubkey p) (cut8 h (Status 200))), s\<lparr>ps_members := db\<rparr>))"
| "webhook_step ln flt now (Done r) s = (Done r, s)"

definition webhook_next :: "lnbits \<Rightarrow> pay_faults \<Rightarrow> int \<Rightarrow> webhook \<times> pay_state \<Rightarrow> webhook \<times> pay_state" where
  "webhook_next ln flt now x = webhook_step ln flt now (fst x) (snd x)"

text \<open>\<open>body\<close> is the payment hash of the decoded body, \<open>None\<close> when the JSON is bad. Five steps end
  every request.\<close>

definition handleWebhook :: "lnbits \<Rightarrow> pay_faults \<Rightarrow> int \<Rightarrow> string \<Rightarrow> string option \<Rightarrow> pay_state \<Rightarrow> webhook \<times> pay_state" where
  "handleWebhook ln flt now rmethod body s =
     (if rmethod \<noteq> ''POST'' then (Done (Status 405), s)
      else case body of
        None \<Rightarrow> (Done (Status 400), s)
      | Some h \<Rightarrow> (webhook_next ln flt now ^^ 5) (Received h, s))"

section \<open>The expiry sweep\<close>

definition defaulted :: "int \<Rightarrow> int \<Rightarrow> int" where
  "defaulted v d = (if v \<le> 0 then d else v)"

definition expiry_sweep :: "bool \<Rightarrow> bool \<Rightarrow> int \<Rightarrow> int \<Rightarrow> pay_state \<Rightarrow> pay_state" where
  "expiry_sweep ok_tiers ok_pay now invoiceMaxAge s =
     \<lparr>ps_members = snd (ResetExpiredTiers ok_tiers now (ps_members s)),
      ps_payments = MarkExpired ok_pay now (defaulted invoiceMaxAge (24 * 3600 * ns_per_sec)) (ps_payments s)\<rparr>"

section \<open>The paid-member check\<close>

record paid_entry =
  pe_paid :: bool
  pe_at :: int

definition paid_ttl :: int where
  "paid_ttl = 300 * ns_per_sec"

definition paid_now :: "bool \<Rightarrow> int \<Rightarrow> member_db \<Rightarrow> string \<Rightarrow> bool" where
  "paid_now ok now db pk = (case GetMember ok pk db of Some (Some m) \<Rightarrow> GetEffectiveTier now m \<noteq> TierFree | _ \<Rightarrow> False)"

definition PaidMemberChecker ::
  "bool \<Rightarrow> int \<Rightarrow> member_db \<Rightarrow> string \<Rightarrow> (string \<Rightarrow> paid_entry option) \<Rightarrow> bool \<times> (string \<Rightarrow> paid_entry option)" where
  "PaidMemberChecker ok now db pk cache =
     (case cache pk of
        Some e \<Rightarrow> if now - pe_at e < paid_ttl then (pe_paid e, cache)
                  else (paid_now ok now db pk, cache(pk \<mapsto> \<lparr>pe_paid = paid_now ok now db pk, pe_at = now\<rparr>))
      | None \<Rightarrow> (paid_now ok now db pk, cache(pk \<mapsto> \<lparr>pe_paid = paid_now ok now db pk, pe_at = now\<rparr>)))"

section \<open>Facts\<close>

lemmas pay_simps = GetByHash_def MarkSettled_def UpdateTier_def GetMember_def webhook_next_def

lemma five_steps: "(f ^^ 5) x = f (f (f (f (f x))))"
  by (simp add: eval_nat_numeral)

lemma grantExpiry_default: "grantExpiry now (if b then m\<lparr>m_Tier := t\<rparr> else m) days = grantExpiry now m days"
  by (simp add: grantExpiry_def)

lemma grantExpiry_ge:
  assumes "0 \<le> days" "days \<le> 106751"
  shows "grantExpiry now m days \<ge> now + days * 86400 * ns_per_sec"
    and "m_TierExpiresAt m = Some t \<Longrightarrow> grantExpiry now m days \<ge> t + days * 86400 * ns_per_sec"
proof -
  have "i64 (days * 24 * 3600 * ns_per_sec) = days * 86400 * ns_per_sec"
    using assms by (subst i64_id) (auto simp: in_i64_def)
  then show "grantExpiry now m days \<ge> now + days * 86400 * ns_per_sec"
    and "m_TierExpiresAt m = Some t \<Longrightarrow> grantExpiry now m days \<ge> t + days * 86400 * ns_per_sec"
    by (auto simp: grantExpiry_def split: option.split)
qed

text \<open>Every request is answered: a step brings it nearer to the end, and five are enough.\<close>

primrec webhook_rank :: "webhook \<Rightarrow> nat" where
  "webhook_rank (Received h) = 5"
| "webhook_rank (Checking h p) = 4"
| "webhook_rank (Settling h p) = 3"
| "webhook_rank (Reading h p) = 2"
| "webhook_rank (Granting h p e) = 1"
| "webhook_rank (Done r) = 0"

lemma webhook_rank_step: "webhook_rank (fst (webhook_step ln flt now wh s)) \<le> webhook_rank wh - 1"
  by (cases "(ln, flt, now, wh, s)" rule: webhook_step.cases) (auto split: option.split prod.split bool.split)

lemma webhook_rank_steps: "webhook_rank (fst ((webhook_next ln flt now ^^ n) x)) \<le> webhook_rank (fst x) - n"
proof (induction n)
  case (Suc n)
  have "webhook_rank (fst (webhook_next ln flt now y)) \<le> webhook_rank (fst y) - 1" for y
    unfolding webhook_next_def by (rule webhook_rank_step)
  from this [of "(webhook_next ln flt now ^^ n) x"] Suc show ?case by simp
qed simp

lemma handleWebhook_done: "\<exists>r. fst (handleWebhook ln flt now rm body s) = Done r"
proof -
  have five: "webhook_rank (fst ((webhook_next ln flt now ^^ 5) (Received h, s))) = 0" for h
    using webhook_rank_steps [where n = 5 and x = "(Received h, s)" and ln = ln and flt = flt and now = now] by simp
  have "webhook_rank (fst (handleWebhook ln flt now rm body s)) = 0"
    by (simp add: handleWebhook_def five split: option.split)
  then show ?thesis by (cases "fst (handleWebhook ln flt now rm body s)") simp_all
qed

text \<open>The whole request, when every statement succeeds.\<close>

lemma handleWebhook_success:
  assumes "h \<noteq> ''''" "ps_payments s h = Some p" "pp_Status p = PaymentPending"
    and "CheckPayment ln h = Some (True, sats)" "pp_AmountSats p \<le> sats"
    and "members (ps_members s) (pp_Pubkey p) = Some m"
    and "pf_lookup flt" "pf_settle flt" "pf_member flt" "pf_update flt"
  shows "snd (handleWebhook ln flt now ''POST'' (Some h) s) =
    \<lparr>ps_members = (ps_members s)\<lparr>members := (members (ps_members s))(pp_Pubkey p \<mapsto>
        m\<lparr>m_Tier := pp_Tier p, m_TierExpiresAt := Some (grantExpiry now m (pp_PeriodDays p))\<rparr>)\<rparr>,
     ps_payments = (ps_payments s)(h \<mapsto> p\<lparr>pp_Status := PaymentSettled, pp_SettledAt := Some now\<rparr>)\<rparr>"
  using assms by (simp add: handleWebhook_def five_steps pay_simps grantExpiry_default)

subsection \<open>Any number of requests at once\<close>

text \<open>\<open>pw_grants\<close> is a ghost: the hashes whose grant was written, newest first.\<close>

record pay_world =
  pw_state :: pay_state
  pw_flights :: "webhook list"
  pw_grants :: "string list"

definition grants_of :: "pay_faults \<Rightarrow> webhook \<Rightarrow> pay_state \<Rightarrow> string list" where
  "grants_of flt wh s =
     (case wh of
        Granting h p e \<Rightarrow> if fst (UpdateTier (pf_update flt) (pp_Pubkey p) (pp_Tier p) (Some e) (ps_members s)) then [h] else []
      | _ \<Rightarrow> [])"

inductive pay_step :: "pay_world \<Rightarrow> pay_world \<Rightarrow> bool" where
  arrive: "pay_step w (w\<lparr>pw_flights := Received h # pw_flights w\<rparr>)"
| advance: "i < length (pw_flights w) \<Longrightarrow> wh = pw_flights w ! i \<Longrightarrow> webhook_step ln flt now wh (pw_state w) = (wh', s') \<Longrightarrow>
    pay_step w \<lparr>pw_state = s', pw_flights = (pw_flights w)[i := wh'], pw_grants = grants_of flt wh (pw_state w) @ pw_grants w\<rparr>"
| invoice: "handleInvoice lib l98 cfg ask flt now r body (pw_state w) = (res, s') \<Longrightarrow> pay_step w (w\<lparr>pw_state := s'\<rparr>)"
| sweep: "pay_step w (w\<lparr>pw_state := expiry_sweep ok1 ok2 now age (pw_state w)\<rparr>)"
| membership: "pay_step w (w\<lparr>pw_state := (pw_state w)\<lparr>ps_members := db\<rparr>\<rparr>)"

inductive_cases pay_stepE: "pay_step w w'"

abbreviation pay_run :: "pay_world \<Rightarrow> pay_world \<Rightarrow> bool" where
  "pay_run \<equiv> pay_step\<^sup>*\<^sup>*"

definition is_settled :: "string \<Rightarrow> pay_state \<Rightarrow> nat" where
  "is_settled h s = (case ps_payments s h of Some p \<Rightarrow> if pp_Status p = PaymentSettled then 1 else 0 | None \<Rightarrow> 0)"

fun owes :: "string \<Rightarrow> webhook \<Rightarrow> nat" where
  "owes h (Reading h' p) = (if h' = h then 1 else 0)"
| "owes h (Granting h' p e) = (if h' = h then 1 else 0)"
| "owes h _ = 0"

definition owed :: "string \<Rightarrow> pay_world \<Rightarrow> nat" where
  "owed h w = sum_list (map (owes h) (pw_flights w)) + count_list (pw_grants w) h"

lemma is_settled_step:
  "webhook_step ln flt now wh s = (wh', s') \<Longrightarrow>
   owes h wh' + count_list (grants_of flt wh s) h + is_settled h s \<le> owes h wh + is_settled h s'"
  by (cases wh) (auto simp: pay_simps is_settled_def grants_of_def split: option.splits if_splits prod.splits)

lemma is_settled_invoice:
  "handleInvoice lib l98 cfg ask flt now r body s = (res, s') \<Longrightarrow> is_settled h s \<le> is_settled h s'"
  by (auto simp: handleInvoice_def payment_Create_def is_settled_def split: if_splits option.splits prod.splits bool.splits)

lemma is_settled_sweep: "is_settled h (expiry_sweep ok1 ok2 now age s) = is_settled h s"
  by (auto simp: expiry_sweep_def MarkExpired_def is_settled_def split: option.split)

lemma is_settled_members: "is_settled h (s\<lparr>ps_members := db\<rparr>) = is_settled h s"
  by (simp add: is_settled_def)

lemma owed_step:
  assumes "pay_step w w'" and le: "owed h w \<le> is_settled h (pw_state w)"
  shows "owed h w' \<le> is_settled h (pw_state w')"
  using assms(1)
proof cases
  case (advance i wh ln flt now wh' s')
  have "owes h wh \<le> sum_list (map (owes h) (pw_flights w))"
    using elem_le_sum_list [of i "map (owes h) (pw_flights w)"] advance(2,3) by simp
  moreover have "sum_list (map (owes h) ((pw_flights w)[i := wh'])) = sum_list (map (owes h) (pw_flights w)) + owes h wh' - owes h wh"
    using sum_list_update [of i "map (owes h) (pw_flights w)" "owes h wh'"] advance(2,3) by (simp add: map_update)
  ultimately show ?thesis
    using is_settled_step [OF advance(4), of h] le by (simp add: advance(1) owed_def)
next
  case invoice
  with le is_settled_invoice [where h = h] show ?thesis by (fastforce simp: owed_def)
qed (use le in \<open>simp_all add: owed_def is_settled_sweep is_settled_members\<close>)

lemma owed_run: "pay_run w w' \<Longrightarrow> owed h w \<le> is_settled h (pw_state w) \<Longrightarrow> owed h w' \<le> is_settled h (pw_state w')"
  by (induction rule: rtranclp_induct) (auto intro: owed_step)

text \<open>What a request that changes the members table has gone through.\<close>

lemma handleWebhook_changes:
  assumes "ps_members (snd (handleWebhook ln flt now rm body s)) \<noteq> ps_members s"
  obtains h p sats m where "body = Some h" "ps_payments s h = Some p" "pp_Status p = PaymentPending"
    "CheckPayment ln h = Some (True, sats)" "pp_AmountSats p \<le> sats" "members (ps_members s) (pp_Pubkey p) = Some m" "h \<noteq> ''''"
    "pf_lookup flt" "pf_settle flt" "pf_member flt" "pf_update flt" "rm = ''POST''"
  using assms
  by (auto simp: handleWebhook_def five_steps pay_simps split: if_splits option.splits prod.splits)

text \<open>A request that runs alone is a run of the world.\<close>

lemma advance_one:
  "webhook_step ln flt now wh s = (wh', s') \<Longrightarrow>
   pay_step \<lparr>pw_state = s, pw_flights = [wh], pw_grants = g\<rparr> \<lparr>pw_state = s', pw_flights = [wh'], pw_grants = grants_of flt wh s @ g\<rparr>"
  using advance [of 0 "\<lparr>pw_state = s, pw_flights = [wh], pw_grants = g\<rparr>" wh ln flt now wh' s'] by simp

definition alone :: "lnbits \<Rightarrow> pay_faults \<Rightarrow> int \<Rightarrow> pay_world \<Rightarrow> pay_world" where
  "alone ln flt now w =
     (case webhook_step ln flt now (hd (pw_flights w)) (pw_state w) of
        (wh', s') \<Rightarrow> \<lparr>pw_state = s', pw_flights = [wh'], pw_grants = grants_of flt (hd (pw_flights w)) (pw_state w) @ pw_grants w\<rparr>)"

lemma alone_flights [simp]: "length (pw_flights (alone ln flt now w)) = 1"
  by (simp add: alone_def split: prod.split)

lemma alone_step: "length (pw_flights w) = 1 \<Longrightarrow> pay_step w (alone ln flt now w)"
  by (cases w) (auto simp: alone_def length_Suc_conv intro: advance_one split: prod.split)

lemma alone_runs:
  assumes "length (pw_flights w) = 1" "pay_run w0 w"
  shows "pay_run w0 ((alone ln flt now ^^ n) w)"
proof (induction n)
  case (Suc n)
  have "length (pw_flights ((alone ln flt now ^^ n) w)) = 1" using assms(1) by (cases n) simp_all
  from alone_step [OF this] Suc show ?case by (auto intro: rtranclp.rtrancl_into_rtrancl)
qed (use assms(2) in simp)

section \<open>Properties\<close>

text \<open>C3: A webhook call changes the members table only for a pending payment that LNbits itself reports as
  paid in full, and then it changes exactly one row: the payer gets the tier that was paid for, until the end
  of the bought period counted from now or from the current expiry, and the payment is settled.\<close>

theorem webhook_grants_only_paid:
  assumes "ps_members (snd (handleWebhook ln flt now rm body s)) \<noteq> ps_members s"
  shows "\<exists>h p sats m. body = Some h \<and> ps_payments s h = Some p \<and> pp_Status p = PaymentPending \<and>
    CheckPayment ln h = Some (True, sats) \<and> pp_AmountSats p \<le> sats \<and> members (ps_members s) (pp_Pubkey p) = Some m \<and>
    snd (handleWebhook ln flt now rm body s) =
      \<lparr>ps_members = (ps_members s)\<lparr>members := (members (ps_members s))(pp_Pubkey p \<mapsto>
         m\<lparr>m_Tier := pp_Tier p, m_TierExpiresAt := Some (grantExpiry now m (pp_PeriodDays p))\<rparr>)\<rparr>,
       ps_payments = (ps_payments s)(h \<mapsto> p\<lparr>pp_Status := PaymentSettled, pp_SettledAt := Some now\<rparr>)\<rparr>"
  using assms
proof (rule handleWebhook_changes)
  fix h p sats m
  assume *: "body = Some h" "ps_payments s h = Some p" "pp_Status p = PaymentPending" "CheckPayment ln h = Some (True, sats)"
    "pp_AmountSats p \<le> sats" "members (ps_members s) (pp_Pubkey p) = Some m" "h \<noteq> ''''"
    "pf_lookup flt" "pf_settle flt" "pf_member flt" "pf_update flt" "rm = ''POST''"
  with handleWebhook_success [of h s p ln sats m flt now] show ?thesis by blast
qed

definition pay_ok :: pay_faults where
  "pay_ok = \<lparr>pf_is_member = True, pf_create = True, pf_lookup = True, pf_settle = True, pf_member = True, pf_update = True\<rparr>"

definition alice :: Member where
  "alice = \<lparr>m_Pubkey = ''alicekey'', m_JoinedAt = 0, m_InviteCode = '''', m_AddedBy = '''', m_Tier = TierFree,
     m_TierExpiresAt = None, m_LightningAddress = ''''\<rparr>"

definition month_of :: "string \<Rightarrow> PendingPayment" where
  "month_of h = \<lparr>pp_Hash = h, pp_Pubkey = ''alicekey'', pp_Tier = TierHybrid, pp_AmountSats = 100, pp_PeriodDays = 30,
     pp_Status = PaymentPending, pp_CreatedAt = 0, pp_SettledAt = None\<rparr>"

definition two_invoices :: pay_state where
  "two_invoices = \<lparr>ps_members = \<lparr>members = [''alicekey'' \<mapsto> alice], invites = Map.empty\<rparr>,
     ps_payments = [''hash-one'' \<mapsto> month_of ''hash-one'', ''hash-two'' \<mapsto> month_of ''hash-two'']\<rparr>"

definition all_paid :: lnbits where
  "all_paid h = Some (True, 100000)"

lemmas pay_eval = handleWebhook_def five_steps pay_simps CheckPayment_def pay_ok_def alice_def month_of_def two_invoices_def all_paid_def
  cut8_def grantExpiry_def

lemma webhook_grants_only_paid_witness:
  "\<exists>h. ps_payments two_invoices h = Some (month_of h) \<and> h = ''hash-one''"
proof -
  have "ps_members (snd (handleWebhook all_paid pay_ok 0 ''POST'' (Some ''hash-one'') two_invoices)) \<noteq> ps_members two_invoices"
    by (simp add: pay_eval fun_eq_iff)
  from webhook_grants_only_paid [OF this] show ?thesis by (auto simp: two_invoices_def split: if_splits)
qed

text \<open>C2: Whatever webhook requests, invoices, expiry sweeps and membership changes run at the same time, in
  whatever order their database statements interleave and whichever fail, no payment is granted twice; and
  a payment whose grant was written is settled.\<close>

theorem payment_granted_at_most_once:
  assumes "pay_run \<lparr>pw_state = s, pw_flights = [], pw_grants = []\<rparr> w"
  shows "count_list (pw_grants w) h \<le> is_settled h (pw_state w) \<and> is_settled h (pw_state w) \<le> 1"
  using owed_run [OF assms, of h] by (auto simp: owed_def is_settled_def split: option.splits)

lemma payment_granted_at_most_once_witness:
  "count_list [''hash-one''] ''hash-one'' \<le> (1::nat)"
proof -
  let ?w0 = "\<lparr>pw_state = two_invoices, pw_flights = [], pw_grants = []\<rparr>"
  let ?s = "snd (handleWebhook all_paid pay_ok 1 ''POST'' (Some ''hash-one'') two_invoices)"
  have "pay_run ?w0 \<lparr>pw_state = two_invoices, pw_flights = [Received ''hash-one''], pw_grants = []\<rparr>"
    using arrive [of ?w0] by auto
  from alone_runs [OF _ this, where ln = all_paid and flt = pay_ok and now = 1 and n = 5]
  have "pay_run ?w0 \<lparr>pw_state = ?s, pw_flights = [Done (Status 200)], pw_grants = [''hash-one'']\<rparr>"
    by (simp add: alone_def grants_of_def pay_eval)
  from payment_granted_at_most_once [OF this, of "''hash-one''"] show ?thesis by simp
qed

text \<open>Two payments of one member that are handled one after the other add up: the member's tier lasts
  for both periods from the first call, and for both periods beyond what was left of the tier before.\<close>

theorem sequential_payments_add_up:
  assumes "h1 \<noteq> ''''" "h2 \<noteq> ''''" "h1 \<noteq> h2" "t1 \<le> t2"
    and "ps_payments s h1 = Some p1" "pp_Status p1 = PaymentPending" "pp_Pubkey p1 = pk" "pp_PeriodDays p1 = d1"
    and "ps_payments s h2 = Some p2" "pp_Status p2 = PaymentPending" "pp_Pubkey p2 = pk" "pp_PeriodDays p2 = d2"
    and "CheckPayment ln h1 = Some (True, a1)" "pp_AmountSats p1 \<le> a1"
    and "CheckPayment ln h2 = Some (True, a2)" "pp_AmountSats p2 \<le> a2"
    and "members (ps_members s) pk = Some m" "0 \<le> d1" "d1 \<le> 106751" "0 \<le> d2" "d2 \<le> 106751"
    and "pf_lookup flt" "pf_settle flt" "pf_member flt" "pf_update flt"
  shows "\<exists>m' e. members (ps_members (snd (handleWebhook ln flt t2 ''POST'' (Some h2)
              (snd (handleWebhook ln flt t1 ''POST'' (Some h1) s))))) pk = Some m' \<and>
     m_Tier m' = pp_Tier p2 \<and> m_TierExpiresAt m' = Some e \<and> t1 + (d1 + d2) * 86400 * ns_per_sec \<le> e \<and>
     (case m_TierExpiresAt m of Some e0 \<Rightarrow> e0 + (d1 + d2) * 86400 * ns_per_sec \<le> e | None \<Rightarrow> True)"
proof -
  obtain s1 m1 e1 where s1: "s1 = snd (handleWebhook ln flt t1 ''POST'' (Some h1) s)"
    and e1: "e1 = grantExpiry t1 m d1" and m1: "m1 = m\<lparr>m_Tier := pp_Tier p1, m_TierExpiresAt := Some e1\<rparr>" by blast
  have s1': "members (ps_members s1) pk = Some m1" "ps_payments s1 h2 = Some p2"
    using handleWebhook_success [of h1 s p1 ln a1 m flt t1] assms by (simp_all add: s1 m1 e1)
  have "members (ps_members (snd (handleWebhook ln flt t2 ''POST'' (Some h2) s1))) pk
      = Some (m1\<lparr>m_Tier := pp_Tier p2, m_TierExpiresAt := Some (grantExpiry t2 m1 d2)\<rparr>)"
    using handleWebhook_success [of h2 s1 p2 ln a2 m1 flt t2] s1' assms by simp
  moreover have "e1 + d2 * 86400 * ns_per_sec \<le> grantExpiry t2 m1 d2"
    using grantExpiry_ge(2) [of d2 m1 e1 t2] assms by (simp add: m1)
  moreover have "t1 + d1 * 86400 * ns_per_sec \<le> e1" "\<And>e0. m_TierExpiresAt m = Some e0 \<Longrightarrow> e0 + d1 * 86400 * ns_per_sec \<le> e1"
    using grantExpiry_ge [of d1] assms by (auto simp: e1)
  ultimately show ?thesis unfolding s1
    by (intro exI conjI) (auto simp: algebra_simps split: option.split)
qed

lemma sequential_payments_add_up_witness:
  "\<exists>m' e. members (ps_members (snd (handleWebhook all_paid pay_ok 0 ''POST'' (Some ''hash-two'')
      (snd (handleWebhook all_paid pay_ok 0 ''POST'' (Some ''hash-one'') two_invoices))))) ''alicekey'' = Some m' \<and>
     m_TierExpiresAt m' = Some e \<and> 60 * 86400 * ns_per_sec \<le> e"
  using sequential_payments_add_up [of "''hash-one''" "''hash-two''" 0 0 two_invoices "month_of ''hash-one''" "''alicekey''" 30
      "month_of ''hash-two''" 30 all_paid 100 100 alice pay_ok]
  by (fastforce simp: two_invoices_def month_of_def all_paid_def CheckPayment_def pay_ok_def alice_def)

definition race :: "nat list \<Rightarrow> webhook list \<times> pay_state \<Rightarrow> webhook list \<times> pay_state" where
  "race sched = fold (\<lambda>i (ws, s). case webhook_step all_paid pay_ok 0 (ws ! i) s of (w', s') \<Rightarrow> (ws[i := w'], s')) sched"

text \<open>When the two webhooks of one member run at the same time, both read the same expiry, both payments
  are settled and granted, and the member keeps one period out of two.\<close>

theorem concurrent_payments_lose_a_period:
  "case race [0, 0, 0, 0, 1, 1, 1, 1, 0, 1] ([Received ''hash-one'', Received ''hash-two''], two_invoices) of
     (ws, s) \<Rightarrow> ws = [Done (Status 200), Done (Status 200)] \<and>
       is_settled ''hash-one'' s = 1 \<and> is_settled ''hash-two'' s = 1 \<and>
       map_option m_TierExpiresAt (members (ps_members s) ''alicekey'') = Some (Some (30 * 86400 * ns_per_sec))"
proof -
  have 1: "i64 (30 * 24 * 3600 * ns_per_sec) = 30 * 86400 * ns_per_sec"
    by (subst i64_id) (auto simp: in_i64_def)
  show ?thesis by (simp add: race_def pay_eval is_settled_def 1 [simplified])
qed

text \<open>A payment whose tier update fails is answered with 500 after it was settled, so the repeated call
  finds it settled, answers 200 and grants nothing: the paid tier is lost.\<close>

theorem failed_grant_is_never_retried:
  "case handleWebhook all_paid (pay_ok\<lparr>pf_update := False\<rparr>) 0 ''POST'' (Some ''hash-one'') two_invoices of
     (wh, s) \<Rightarrow> wh = Done (Status 500) \<and> is_settled ''hash-one'' s = 1 \<and>
       handleWebhook all_paid pay_ok 1 ''POST'' (Some ''hash-one'') s = (Done (Status 200), s) \<and>
       ps_members s = ps_members two_invoices"
  by (simp add: pay_eval is_settled_def)

text \<open>A webhook call with an unknown payment hash of fewer than eight bytes panics in the log line
  instead of being answered.\<close>

theorem short_payment_hash_panics:
  "handleWebhook all_paid pay_ok 0 ''POST'' (Some ''x'') two_invoices = (Done Panic, two_invoices)"
  by (simp add: pay_eval)

section \<open>The cached paid answer\<close>

record paid_query =
  pq_ok :: bool
  pq_now :: int
  pq_db :: member_db
  pq_pk :: string

definition paid_cache_after :: "paid_query list \<Rightarrow> string \<Rightarrow> paid_entry option" where
  "paid_cache_after qs = fold (\<lambda>q c. snd (PaidMemberChecker (pq_ok q) (pq_now q) (pq_db q) (pq_pk q) c)) qs Map.empty"

definition paid_cache_ok :: "paid_query list \<Rightarrow> (string \<Rightarrow> paid_entry option) \<Rightarrow> bool" where
  "paid_cache_ok qs c \<longleftrightarrow> (\<forall>pk e. c pk = Some e \<longrightarrow>
     (\<exists>q \<in> set qs. pq_pk q = pk \<and> pq_now q = pe_at e \<and> pe_paid e = paid_now (pq_ok q) (pq_now q) (pq_db q) pk))"

lemma paid_cache_step:
  "paid_cache_ok qs c \<Longrightarrow> paid_cache_ok (qs @ [q]) (snd (PaidMemberChecker (pq_ok q) (pq_now q) (pq_db q) (pq_pk q) c))"
  by (force simp: paid_cache_ok_def PaidMemberChecker_def split: option.split if_splits)

lemma paid_cache_reached: "paid_cache_ok qs (paid_cache_after qs)"
proof (induction qs rule: rev_induct)
  case (snoc q qs)
  then show ?case using paid_cache_step [of qs "paid_cache_after qs" q] by (simp add: paid_cache_after_def)
qed (simp add: paid_cache_after_def paid_cache_ok_def)

text \<open>The paid-member check answers what the member table said, at one of the queries asked for that key
  within the last five minutes or now.\<close>

theorem paid_answer_at_most_ttl_stale:
  "\<exists>q' \<in> set (qs @ [q]). pq_pk q' = pq_pk q \<and> pq_now q - pq_now q' < paid_ttl \<and>
     fst (PaidMemberChecker (pq_ok q) (pq_now q) (pq_db q) (pq_pk q) (paid_cache_after qs))
       = paid_now (pq_ok q') (pq_now q') (pq_db q') (pq_pk q')"
proof (cases "\<exists>e. paid_cache_after qs (pq_pk q) = Some e \<and> pq_now q - pe_at e < paid_ttl")
  case True
  then obtain e where e: "paid_cache_after qs (pq_pk q) = Some e" "pq_now q - pe_at e < paid_ttl" by blast
  with paid_cache_reached [of qs] obtain q' where "q' \<in> set qs" "pq_pk q' = pq_pk q" "pq_now q' = pe_at e"
    "pe_paid e = paid_now (pq_ok q') (pq_now q') (pq_db q') (pq_pk q)" unfolding paid_cache_ok_def by blast
  with e show ?thesis by (intro bexI [of _ q']) (auto simp: PaidMemberChecker_def)
next
  case False
  then show ?thesis by (intro bexI [of _ q]) (auto simp: PaidMemberChecker_def paid_ttl_def split: option.split)
qed

end
