(* ===== verification/Write_Gates.thy ===== *)
theory Write_Gates
  imports Validation Auth_Gate Tombstones Access_Control
begin

text \<open>
  cmd/relay/gates.go: \<open>registerWriteGates\<close>, the first checks of every event, in the order they
  are registered. The state they share is the per-address limiter's buckets, the Redis sets of
  the distributed limiter and, to speak of cost, how many tombstone lookups were started.
\<close>

section \<open>The chain\<close>

record write_state =
  ws_mem :: mem_buckets
  ws_redis :: redis
  ws_lookups :: nat

text \<open>What the process brings to the gates.\<close>

record write_env =
  wg_lib :: nostr_lib
  wg_limits :: limit_config
  wg_auth :: "auth_config option"
  wg_lookup :: lookup_env
  wg_tombstones :: tombstones
  wg_mgmt :: "mgmt_store option"
  wg_redis :: bool
  wg_score :: "int \<Rightarrow> int"
  wg_rl_faults :: rl_faults

definition on_mem :: "mem_buckets gate \<Rightarrow> write_state gate" where
  "on_mem g s = (case g (ws_mem s) of (v, b) \<Rightarrow> (v, s\<lparr>ws_mem := b\<rparr>))"

definition on_redis :: "redis gate \<Rightarrow> write_state gate" where
  "on_redis g s = (case g (ws_redis s) of (v, r) \<Rightarrow> (v, s\<lparr>ws_redis := r\<rparr>))"

definition useDistributedRateLimit :: "write_env \<Rightarrow> bool" where
  "useDistributedRateLimit e \<longleftrightarrow> wg_redis e \<and> RateLimitDistributed (wg_limits e)"

definition rate_limit_config :: "limit_config \<Rightarrow> rl_config" where
  "rate_limit_config l = \<lparr>rl_enabled = True, rl_events = RateLimitEventsPerSec l, rl_filters = RateLimitFiltersPerSec l,
     rl_connections = RateLimitConnectionsPerSec l, rl_burst = 5, rl_window = ns_per_sec\<rparr>"

definition exempt_checker_of :: "write_env \<Rightarrow> (string \<Rightarrow> bool) option" where
  "exempt_checker_of e = map_option IsRateLimitExempt (wg_mgmt e)"

definition tombstone_gate :: "write_env \<Rightarrow> event \<Rightarrow> write_state gate" where
  "tombstone_gate e ev s =
     (case RejectRepublishedDeletionEvent (wg_lib e) (wg_lookup e) (wg_tombstones e) ev of
        (v, n) \<Rightarrow> (v, s\<lparr>ws_lookups := ws_lookups s + n\<rparr>))"

definition before_auth :: "write_env \<Rightarrow> reqctx \<Rightarrow> event \<Rightarrow> write_state gate list" where
  "before_auth e ctx ev =
     map on_mem (handler_event_gates (wg_lib e) (wg_limits e) (useDistributedRateLimit e) (exempt_checker_of e) ctx ev)
     @ (if useDistributedRateLimit e
        then map on_redis (rl_event_handlers (wg_score e) (rate_limit_config (wg_limits e)) (wg_redis e) (wg_rl_faults e) ctx)
        else [])"

definition auth_gates :: "write_env \<Rightarrow> reqctx \<Rightarrow> event \<Rightarrow> write_state gate list" where
  "auth_gates e ctx ev = map (\<lambda>v. pure_gate (\<lambda>_. v)) (auth_event_gates (wg_auth e) ctx ev)"

definition after_auth :: "write_env \<Rightarrow> event \<Rightarrow> write_state gate list" where
  "after_auth e ev =
     tombstone_gate e ev # (case wg_mgmt e of None \<Rightarrow> [] | Some m \<Rightarrow> map (\<lambda>v. pure_gate (\<lambda>_. v)) (ban_gates m ev))"

definition registerWriteGates :: "write_env \<Rightarrow> reqctx \<Rightarrow> event \<Rightarrow> write_state gate list" where
  "registerWriteGates e ctx ev = before_auth e ctx ev @ auth_gates e ctx ev @ after_auth e ev"

definition judge_write :: "write_env \<Rightarrow> reqctx \<Rightarrow> event \<Rightarrow> write_state \<Rightarrow> verdict \<times> write_state" where
  "judge_write e ctx ev = first_rejection (registerWriteGates e ctx ev)"

section \<open>Facts\<close>

lemma on_mem_pure [simp]: "on_mem (pure_gate (\<lambda>_. v)) = pure_gate (\<lambda>_. v)"
  by (simp add: on_mem_def pure_gate_def fun_eq_iff)

lemma run_constant_gates:
  "first_rejection (map (\<lambda>v. pure_gate (\<lambda>_. v)) vs) s = (Accept, t) \<longleftrightarrow> t = s \<and> list_all accepted vs"
  by (induction vs) (auto split: verdict.splits)

text \<open>Gates that keep a part of the state keep it along the chain.\<close>

lemma run_keeps:
  assumes "\<And>g s. g \<in> set gs \<Longrightarrow> f (snd (g s)) = f s"
  shows "f (snd (first_rejection gs s)) = f s"
  using assms
proof (induction gs arbitrary: s)
  case (Cons g gs)
  obtain v t where g: "g s = (v, t)" by fastforce
  with Cons.prems [of g s] have "f t = f s" by simp
  moreover have "f (snd (first_rejection gs t)) = f t" using Cons by auto
  ultimately show ?case by (simp add: g split: verdict.split)
qed simp

lemma before_auth_lookups: "ws_lookups (snd (first_rejection (before_auth e ctx ev) s)) = ws_lookups s"
  by (rule run_keeps) (auto simp: before_auth_def on_mem_def on_redis_def split: prod.splits if_splits)

lemma tombstone_gate_lookups: "ws_lookups (snd (tombstone_gate e ev s)) \<le> ws_lookups s + 2"
  by (auto simp: tombstone_gate_def RejectRepublishedDeletionEvent_def RejectRepublishedDeletion_def Let_def split: sum.split)

lemma before_auth_validates:
  assumes "first_rejection (before_auth e ctx ev) s = (Accept, t)"
  shows "rejectInvalidEvents (wg_lib e) ev = Accept \<and> rejectTimestampOutOfRange (wg_limits e) ctx ev = Accept \<and>
    rejectExpiredEvents ctx ev = Accept \<and> (MinPoWDifficulty (wg_limits e) > 0 \<longrightarrow> requirePoW (wg_limits e) ev = Accept)"
proof -
  let ?rest = "\<lambda>b. (if b then [pure_gate (\<lambda>_. requirePoW (wg_limits e) ev)] else []) :: write_state gate list"
  have "\<exists>gs. before_auth e ctx ev = [pure_gate (\<lambda>_. rejectInvalidEvents (wg_lib e) ev),
      pure_gate (\<lambda>_. rejectTimestampOutOfRange (wg_limits e) ctx ev), pure_gate (\<lambda>_. rejectExpiredEvents ctx ev)]
      @ ?rest (MinPoWDifficulty (wg_limits e) > 0) @ gs"
    by (simp add: before_auth_def handler_event_gates_def)
  then obtain gs where "before_auth e ctx ev = [pure_gate (\<lambda>_. rejectInvalidEvents (wg_lib e) ev),
      pure_gate (\<lambda>_. rejectTimestampOutOfRange (wg_limits e) ctx ev), pure_gate (\<lambda>_. rejectExpiredEvents ctx ev)]
      @ ?rest (MinPoWDifficulty (wg_limits e) > 0) @ gs" ..
  with assms show ?thesis by (auto split: verdict.splits if_splits)
qed

lemma after_auth_checks:
  assumes "first_rejection (after_auth e ev) s = (Accept, t)"
  shows "fst (RejectRepublishedDeletionEvent (wg_lib e) (wg_lookup e) (wg_tombstones e) ev) = Accept \<and>
    (case wg_mgmt e of None \<Rightarrow> True | Some m \<Rightarrow> list_all accepted (ban_gates m ev)) \<and> ws_lookups t \<le> ws_lookups s + 2"
proof -
  obtain v u where v: "tombstone_gate e ev s = (v, u)" by fastforce
  then have "fst (RejectRepublishedDeletionEvent (wg_lib e) (wg_lookup e) (wg_tombstones e) ev) = v"
    by (auto simp: tombstone_gate_def split: prod.splits)
  with assms v tombstone_gate_lookups [of e ev s] show ?thesis
    by (auto simp: after_auth_def run_constant_gates split: verdict.splits option.splits)
qed

lemma judge_write_accept:
  "judge_write e ctx ev s = (Accept, t) \<longleftrightarrow>
     (\<exists>u. first_rejection (before_auth e ctx ev) s = (Accept, u) \<and> list_all accepted (auth_event_gates (wg_auth e) ctx ev) \<and>
          first_rejection (after_auth e ev) u = (Accept, t))"
  by (auto simp: judge_write_def registerWriteGates_def chain.run_accept_append auth_gates_def run_constant_gates)

lemma auth_refusal:
  assumes "wg_auth e = Some cfg" "auth_policy cfg = PolicyAuthWrite \<or> auth_policy cfg = PolicyAuthAll"
    and "ev_kind ev \<noteq> 22242" "ev_kind ev \<notin> set (auth_exempt cfg)" "ctx_authed ctx = ''''"
  shows "first_rejection (auth_gates e ctx ev @ gs) s = (Reject ''auth-required: authentication required to publish events'', s)"
  using assms by (auto simp: auth_gates_def auth_event_gates_def auth_config_of_def requireAuthForWrite_def evaluateWrite_def)

lemma judge_write_sound:
  assumes "judge_write e ctx ev s = (Accept, t)"
  shows "CheckSignature (wg_lib e) ev = Some True \<and> GetID (wg_lib e) ev = ev_id ev \<and>
    rejectTimestampOutOfRange (wg_limits e) ctx ev = Accept \<and> \<not> IsExpired ctx ev \<and>
    (MinPoWDifficulty (wg_limits e) \<le> int (countLeadingZeroBits (ev_id ev)) \<or> MinPoWDifficulty (wg_limits e) \<le> 0) \<and>
    list_all accepted (auth_event_gates (wg_auth e) ctx ev) \<and>
    (wg_tombstones e (ev_id ev) = None \<or> IsEphemeralKind (wg_lib e) (ev_kind ev)) \<and>
    (case wg_mgmt e of None \<Rightarrow> True
     | Some m \<Rightarrow> (IsPubkeyBanned m (ev_pubkey ev), IsEventBanned m (ev_id ev), IsKindAllowed m (ev_kind ev)) = (False, False, True)) \<and>
    ws_lookups t \<le> ws_lookups s + 2"
proof -
  from assms obtain u where u: "first_rejection (before_auth e ctx ev) s = (Accept, u)"
    "list_all accepted (auth_event_gates (wg_auth e) ctx ev)" "first_rejection (after_auth e ev) u = (Accept, t)"
    by (auto simp: judge_write_accept)
  have "ws_lookups u = ws_lookups s" using before_auth_lookups [of e ctx ev s] u(1) by simp
  with before_auth_validates [OF u(1)] after_auth_checks [OF u(3)] u(2) show ?thesis
    by (auto simp: rejectInvalidEvents_def rejectExpiredEvents_def requirePoW_def ban_gates_def RejectRepublishedDeletionEvent_def
        Republished_Accept_iff Let_def split: option.splits if_splits)
qed

definition demo_limits :: limit_config where
  "demo_limits = \<lparr>MaxCreatedAtFuture = 300, MaxCreatedAtPast = 0, MaxMessageSize = 65536, MinPoWDifficulty = 0,
     RateLimitEventsPerSec = 2, RateLimitFiltersPerSec = 20, RateLimitConnectionsPerSec = 5, RateLimitDistributed = True,
     RateLimitExemptKinds = [], RateLimitExemptPubkeys = [''vip''], FilterMaxAuthors = 100, FilterMaxIDs = 500, FilterMaxKinds = 20\<rparr>"

definition demo_write_env :: "bool \<Rightarrow> write_env" where
  "demo_write_env redis_up = \<lparr>wg_lib = plain_lib, wg_limits = demo_limits,
     wg_auth = Some \<lparr>auth_policy = PolicyAuthWrite, auth_whitelist = [], auth_exempt = []\<rparr>,
     wg_lookup = quiet_env, wg_tombstones = Map.empty, wg_mgmt = None, wg_redis = redis_up, wg_score = (\<lambda>n. n), wg_rl_faults = healthy\<rparr>"

definition vip_note :: event where
  "vip_note = \<lparr>ev_id = ''n1'', ev_pubkey = ''vip'', ev_created_at = 0, ev_kind = 1, ev_tags = [], ev_content = ''''\<rparr>"

definition vip_ctx :: "string \<Rightarrow> reqctx" where
  "vip_ctx who = \<lparr>ctx_authed = who, ctx_ip = ''10.0.0.1'', ctx_now = 5000000000\<rparr>"

definition empty_ws :: write_state where
  "empty_ws = \<lparr>ws_mem = Map.empty, ws_redis = (\<lambda>_. []), ws_lookups = 0\<rparr>"

lemmas write_eval = judge_write_def registerWriteGates_def before_auth_def auth_gates_def after_auth_def handler_event_gates_def
  useDistributedRateLimit_def demo_write_env_def demo_limits_def plain_lib_def quiet_env_def vip_note_def vip_ctx_def empty_ws_def
  rejectInvalidEvents_def rejectTimestampOutOfRange_def rejectExpiredEvents_def IsExpired_def GetExpiration_def now_unix_def
  auth_event_gates_def auth_config_of_def requireAuthForWrite_def evaluateWrite_def rl_event_handlers_def rate_limit_config_def
  RejectEventByRateLimit_def Allow_def allow_count_def allow_record_def burst_limit_def tombstone_gate_def exempt_checker_of_def
  RejectRepublishedDeletionEvent_def RejectRepublishedDeletion_def lookupWithDeadline_def IsTombstoned_def deleted_verdict_def

lemma small_i64: "- 1000000 < n \<Longrightarrow> n < 1000000 \<Longrightarrow> i64 n = n"
  by (rule i64_id) (simp add: in_i64_def)

section \<open>Properties\<close>

text \<open>C8: Under a policy that asks for authentication to write, an event of an unauthenticated connection is
  refused without any tombstone lookup, whatever the limiters and the database do; and unless validation or a
  limiter refuses it first, the answer is the auth-required message that makes a client authenticate.\<close>

theorem unauthenticated_write_costs_no_lookup:
  assumes "wg_auth e = Some cfg" "auth_policy cfg = PolicyAuthWrite \<or> auth_policy cfg = PolicyAuthAll"
    and "ev_kind ev \<noteq> 22242" "ev_kind ev \<notin> set (auth_exempt cfg)" "ctx_authed ctx = ''''"
  shows "rejected (fst (judge_write e ctx ev s)) \<and> ws_lookups (snd (judge_write e ctx ev s)) = ws_lookups s \<and>
    (case fst (first_rejection (before_auth e ctx ev) s) of
       Accept \<Rightarrow> fst (judge_write e ctx ev s) = Reject ''auth-required: authentication required to publish events''
     | Reject m \<Rightarrow> fst (judge_write e ctx ev s) = Reject m)"
  using before_auth_lookups [of e ctx ev s] auth_refusal [OF assms]
  by (auto simp: judge_write_def registerWriteGates_def chain.run_append split: prod.splits verdict.splits)

lemma unauthenticated_write_costs_no_lookup_witness:
  "rejected (fst (judge_write (demo_write_env True) (vip_ctx '''') vip_note empty_ws))"
  using unauthenticated_write_costs_no_lookup [of "demo_write_env True" "\<lparr>auth_policy = PolicyAuthWrite, auth_whitelist = [], auth_exempt = []\<rparr>"
      vip_note "vip_ctx ''''" empty_ws]
  by (simp add: demo_write_env_def vip_note_def vip_ctx_def)

definition used_up :: write_state where
  "used_up = \<lparr>ws_mem = [''10.0.0.1'' \<mapsto> 10],
     ws_redis = (\<lambda>_. map (\<lambda>n. (4900000000 + n, 4900000000 + n)) [1, 2, 3, 4, 5, 6, 7, 8, 9, 10]), ws_lookups = 0\<rparr>"

text \<open>A key on the exempt list is never limited by the in-memory limiter, but with the distributed limiter
  switched on the list is not consulted: the same key is refused once its address has used up the burst.\<close>

theorem distributed_limiter_ignores_exemptions:
  "''vip'' \<in> set (RateLimitExemptPubkeys (wg_limits (demo_write_env True))) \<and>
   fst (judge_write (demo_write_env False) (vip_ctx ''vip'') vip_note used_up) = Accept \<and>
   fst (judge_write (demo_write_env True) (vip_ctx ''vip'') vip_note used_up) = Reject ''rate-limited: too many events, slow down''"
proof (intro conjI)
  show "''vip'' \<in> set (RateLimitExemptPubkeys (wg_limits (demo_write_env True)))" by (simp add: demo_write_env_def demo_limits_def)
  show "fst (judge_write (demo_write_env False) (vip_ctx ''vip'') vip_note used_up) = Accept"
    by (simp add: write_eval on_mem_def buildRateLimitRejecter_def small_i64 Let_def used_up_def)
  show "fst (judge_write (demo_write_env True) (vip_ctx ''vip'') vip_note used_up) = Reject ''rate-limited: too many events, slow down''"
    by (simp add: write_eval on_redis_def small_i64 Let_def used_up_def zrem_upto_def)
qed

end
