(* ===== verification/Group_Ownership.thy ===== *)
theory Group_Ownership
  imports Nostr_Data
begin

text \<open>
  internal/groups: who owns a NIP-29 group and who may write its metadata (resolve.go,
  reject_metadata.go), and what a role may do (ownership.go). The event store is a parameter: the
  answer to a query by kind, d-tag and limit, \<open>None\<close> when it fails. \<open>GetD\<close> is go-nostr's reading of the
  d-tag. \<open>sort.Slice\<close> may order events with equal time and id either way; such events are equal
  copies, and the model keeps the first.
\<close>

section \<open>Group identifiers\<close>

definition is_lower_hex :: "char \<Rightarrow> bool" where
  "is_lower_hex c \<longleftrightarrow> (c \<ge> CHR ''0'' \<and> c \<le> CHR ''9'') \<or> (c \<ge> CHR ''a'' \<and> c \<le> CHR ''f'')"

definition is_slug_char :: "char \<Rightarrow> bool" where
  "is_slug_char c \<longleftrightarrow> (c \<ge> CHR ''a'' \<and> c \<le> CHR ''z'') \<or> (c \<ge> CHR ''0'' \<and> c \<le> CHR ''9'') \<or> c = CHR ''-''"

text \<open>\<open>ownerPattern\<close>: a slug, a dash, 16 hex digits (the submatch), a dash, 8 hex digits.\<close>

definition ownerPattern :: "string \<Rightarrow> string option" where
  "ownerPattern d =
     (if length d < 27 then None
      else let n = length d - 26; slug = take n d; rest = drop n d; prefix = take 16 (drop 1 rest) in
        if list_all is_slug_char slug \<and> rest ! 0 = CHR ''-'' \<and> list_all is_lower_hex prefix \<and>
           rest ! 17 = CHR ''-'' \<and> list_all is_lower_hex (drop 18 rest)
        then Some prefix else None)"

section \<open>The transfer chain\<close>

abbreviation KindGroupMetadata :: int where "KindGroupMetadata \<equiv> 39000"
abbreviation KindGroupAdmins :: int where "KindGroupAdmins \<equiv> 39001"
abbreviation KindGroupMembers :: int where "KindGroupMembers \<equiv> 39002"

definition IsGroupMetadataKind :: "int \<Rightarrow> bool" where
  "IsGroupMetadataKind k \<longleftrightarrow> k \<ge> 39000 \<and> k \<le> 39009"

definition getTagValue :: "event \<Rightarrow> string \<Rightarrow> string" where
  "getTagValue ev name = first_tag (ev_tags ev) name"

definition newer :: "event \<Rightarrow> event \<Rightarrow> bool" where
  "newer a b \<longleftrightarrow> (if ev_created_at a \<noteq> ev_created_at b then ev_created_at a > ev_created_at b else ev_id a > ev_id b)"

fun pick_latest :: "event list \<Rightarrow> event option" where
  "pick_latest [] = None"
| "pick_latest (e # es) = Some (fold (\<lambda>x best. if newer x best then x else best) es e)"

definition latestEventFrom :: "event list \<Rightarrow> string \<Rightarrow> event option" where
  "latestEventFrom evs pk = pick_latest (filter (\<lambda>e. ev_pubkey e = pk) evs)"

fun earliestEvent :: "event list \<Rightarrow> event option" where
  "earliestEvent [] = None"
| "earliestEvent (e # es) = Some (fold (\<lambda>x best.
     if ev_created_at x < ev_created_at best then x
     else if ev_created_at x = ev_created_at best \<and> ev_id x < ev_id best then x else best) es e)"

abbreviation maxTransferDepth :: nat where "maxTransferDepth \<equiv> 20"

fun transfer_loop :: "nat \<Rightarrow> event list \<Rightarrow> string set \<Rightarrow> string \<Rightarrow> string" where
  "transfer_loop 0 evs visited currentOwner = currentOwner"
| "transfer_loop (Suc n) evs visited currentOwner =
     (case latestEventFrom evs currentOwner of
        None \<Rightarrow> currentOwner
      | Some latest \<Rightarrow>
          (let successor = getTagValue latest ''transfer-to'' in
           if successor = '''' then currentOwner
           else if successor \<in> visited then currentOwner
           else transfer_loop n evs (insert successor visited) successor))"

definition walkTransferChain :: "event list \<Rightarrow> string \<Rightarrow> string" where
  "walkTransferChain evs currentOwner = transfer_loop maxTransferDepth evs {currentOwner} currentOwner"

section \<open>The owner and the writers\<close>

type_synonym querier = "int \<Rightarrow> string \<Rightarrow> nat \<Rightarrow> event list option"

definition queryGroupEvents :: "querier \<Rightarrow> int \<Rightarrow> string \<Rightarrow> event list option" where
  "queryGroupEvents q kind d = q kind d 100"

definition genesisOwner :: "event list \<Rightarrow> string \<Rightarrow> string option" where
  "genesisOwner evs prefix =
     map_option ev_pubkey (find (\<lambda>e. length (ev_pubkey e) \<ge> 16 \<and> take 16 (ev_pubkey e) = prefix) evs)"

text \<open>\<open>None\<close> is a store error.\<close>

definition ResolveOwner :: "querier \<Rightarrow> string \<Rightarrow> string option" where
  "ResolveOwner q d =
     (case queryGroupEvents q KindGroupMetadata d of
        None \<Rightarrow> None
      | Some evs \<Rightarrow>
          (case ownerPattern d of
             Some prefix \<Rightarrow>
               (case genesisOwner evs prefix of
                  None \<Rightarrow> Some (''prefix:'' @ prefix)
                | Some g \<Rightarrow> Some (walkTransferChain evs g))
           | None \<Rightarrow>
               (case earliestEvent evs of
                  None \<Rightarrow> Some ''''
                | Some genesis \<Rightarrow> Some (walkTransferChain evs (ev_pubkey genesis)))))"

definition memberWritePermissions :: "string set" where
  "memberWritePermissions = {''add-user'', ''remove-user''}"

fun grants_member_write :: "string \<Rightarrow> tag \<Rightarrow> bool" where
  "grants_member_write pk (n # p # perms) = (n = ''p'' \<and> p = pk \<and> list_ex (\<lambda>x. x \<in> memberWritePermissions) perms)"
| "grants_member_write pk _ = False"

definition isDelegatedMemberWriter :: "querier \<Rightarrow> string \<Rightarrow> string \<Rightarrow> string \<Rightarrow> bool option" where
  "isDelegatedMemberWriter q d pk owner =
     (case queryGroupEvents q KindGroupAdmins d of
        None \<Rightarrow> None
      | Some evs \<Rightarrow>
          (case latestEventFrom evs owner of
             None \<Rightarrow> Some False
           | Some adm \<Rightarrow> Some (list_ex (grants_member_write pk) (ev_tags adm))))"

definition IsAuthorizedMetadataWriter :: "querier \<Rightarrow> string \<Rightarrow> int \<Rightarrow> string \<Rightarrow> bool option" where
  "IsAuthorizedMetadataWriter q d kind pk =
     (case ResolveOwner q d of
        None \<Rightarrow> None
      | Some owner \<Rightarrow>
          if owner = '''' then Some False
          else if HasPrefix owner ''prefix:'' then Some (length pk \<ge> 16 \<and> take 16 pk = drop 7 owner)
          else if pk = owner then Some True
          else if kind = KindGroupMembers then isDelegatedMemberWriter q d pk owner
          else Some False)"

definition RejectExternalMetadata :: "(tag list \<Rightarrow> string) \<Rightarrow> string \<Rightarrow> querier option \<Rightarrow> event \<Rightarrow> verdict" where
  "RejectExternalMetadata GetD relayPubkey store ev =
     (if \<not> IsGroupMetadataKind (ev_kind ev) then Accept
      else if relayPubkey \<noteq> '''' \<and> ev_pubkey ev = relayPubkey then Accept
      else let d = GetD (ev_tags ev) in
      if d = '''' then Reject (''blocked: kind '' @ fmt_d (ev_kind ev) @ '' events require a d-tag'')
      else case store of
        Some q \<Rightarrow>
          (case IsAuthorizedMetadataWriter q d (ev_kind ev) (ev_pubkey ev) of
             None \<Rightarrow> Reject (''blocked: kind '' @ fmt_d (ev_kind ev) @ '' authorization check failed'')
           | Some authorized \<Rightarrow>
               if authorized then Accept
               else Reject (''blocked: kind '' @ fmt_d (ev_kind ev) @ '' can only be published by an authorized writer''))
      | None \<Rightarrow>
          (case ownerPattern d of
             None \<Rightarrow> Accept
           | Some ownerPrefix \<Rightarrow>
               if length (ev_pubkey ev) \<ge> 16 \<and> take 16 (ev_pubkey ev) = ownerPrefix then Accept
               else Reject (''blocked: kind '' @ fmt_d (ev_kind ev) @ '' can only be published by the group owner'')))"

section \<open>Roles\<close>

text \<open>relay29 compares role pointers: the relay's two roles, or another pointer (nil included).\<close>

datatype group_role = AdminRole | ModeratorRole | OtherRole

datatype group_action = PutUser | RemoveUser | DeleteEvent | OtherAction string

definition AllowAction :: "group_role \<Rightarrow> group_action \<Rightarrow> bool" where
  "AllowAction role action =
     (if role = AdminRole then True
      else if role = ModeratorRole \<and> (action = DeleteEvent \<or> action = RemoveUser) then True
      else action = PutUser)"

definition GroupCreationGate :: "string list \<Rightarrow> bool \<Rightarrow> event \<Rightarrow> verdict" where
  "GroupCreationGate adminPubkeys allowPublic ev =
     (if ev_kind ev \<noteq> 9007 then Accept
      else if allowPublic then Accept
      else if ev_pubkey ev \<in> set adminPubkeys then Accept
      else Reject ''restricted: only designated admins can create groups'')"

section \<open>Facts\<close>

definition successor_of :: "event list \<Rightarrow> string \<Rightarrow> string option" where
  "successor_of evs pk = (case latestEventFrom evs pk of
     None \<Rightarrow> None
   | Some e \<Rightarrow> if getTagValue e ''transfer-to'' = '''' then None else Some (getTagValue e ''transfer-to''))"

text \<open>The owners the walk passes, the given one first.\<close>

fun owners_from :: "nat \<Rightarrow> event list \<Rightarrow> string set \<Rightarrow> string \<Rightarrow> string list" where
  "owners_from 0 evs visited p = [p]"
| "owners_from (Suc n) evs visited p =
     (case successor_of evs p of
        None \<Rightarrow> [p]
      | Some s \<Rightarrow> if s \<in> visited then [p] else p # owners_from n evs (insert s visited) s)"

definition transfer_owners :: "event list \<Rightarrow> string \<Rightarrow> string list" where
  "transfer_owners evs g = owners_from maxTransferDepth evs {g} g"

lemma owners_from_ne [simp]: "owners_from n evs vis p \<noteq> []"
  by (cases n) (simp_all split: option.split)

lemma hd_owners_from [simp]: "hd (owners_from n evs vis p) = p"
  by (cases n) (simp_all split: option.split)

lemma transfer_loop_last: "transfer_loop n evs vis p = last (owners_from n evs vis p)"
  by (induction n arbitrary: vis p) (auto simp: successor_of_def Let_def split: option.split)

lemma walk_last: "walkTransferChain evs g = last (transfer_owners evs g)"
  by (simp add: walkTransferChain_def transfer_owners_def transfer_loop_last)

lemma owners_from_length: "length (owners_from n evs vis p) \<le> Suc n"
  by (induction n arbitrary: vis p) (auto split: option.split)

lemma owners_from_hops: "successively (\<lambda>a b. successor_of evs a = Some b) (owners_from n evs vis p)"
  by (induction n arbitrary: vis p) (auto simp: successively_Cons split: option.split)

lemma owners_from_distinct:
  "p \<in> vis \<Longrightarrow> distinct (owners_from n evs vis p) \<and> set (owners_from n evs vis p) \<inter> vis = {p}"
proof (induction n arbitrary: vis p)
  case (Suc n)
  show ?case
  proof (cases "\<exists>s. successor_of evs p = Some s \<and> s \<notin> vis")
    case True
    then obtain s where s: "successor_of evs p = Some s" "s \<notin> vis" by blast
    obtain r where r: "r = owners_from n evs (insert s vis) s" by simp
    have ih: "distinct r" "set r \<inter> insert s vis = {s}" using Suc.IH [of s "insert s vis", folded r] insertI1 [of s vis] by blast+
    have only: "x = s" if "x \<in> set r" "x \<in> vis" for x
      using that ih(2) by (metis IntI insertI2 singletonD)
    have "p \<notin> set r" "set r \<inter> vis = {}" using only s(2) Suc.prems by auto
    with ih(1) s Suc.prems show ?thesis by (auto simp flip: r)
  next
    case False
    with Suc.prems show ?thesis by (auto split: option.split)
  qed
qed simp

lemma owners_from_stops:
  "length (owners_from n evs vis p) \<le> n \<Longrightarrow>
   (case successor_of evs (last (owners_from n evs vis p)) of None \<Rightarrow> True | Some s \<Rightarrow> s \<in> vis \<union> set (owners_from n evs vis p))"
proof (induction n arbitrary: vis p)
  case (Suc n)
  show ?case
  proof (cases "successor_of evs p")
    case (Some s)
    show ?thesis
    proof (cases "s \<in> vis")
      case False
      with Suc.IH [of "insert s vis" s] Suc.prems Some hd_in_set [OF owners_from_ne [of n evs "insert s vis" s]]
      show ?thesis by (auto split: option.splits)
    qed (use Some in auto)
  qed auto
qed simp

lemma owners_from_cong:
  "(\<And>o'. o' \<in> set (owners_from n evs vis p) \<Longrightarrow> successor_of evs' o' = successor_of evs o') \<Longrightarrow>
   owners_from n evs' vis p = owners_from n evs vis p"
proof (induction n arbitrary: vis p)
  case (Suc n)
  have "p \<in> set (owners_from (Suc n) evs vis p)" by (metis hd_in_set hd_owners_from owners_from_ne)
  with Suc.prems have p: "successor_of evs' p = successor_of evs p" by blast
  with Suc show ?case by (auto split: option.split)
qed simp

lemma latest_outsider [simp]: "ev_pubkey e \<noteq> pk \<Longrightarrow> latestEventFrom (xs @ e # ys) pk = latestEventFrom (xs @ ys) pk"
  by (simp add: latestEventFrom_def)

lemma find_insert: "\<not> P e \<Longrightarrow> find P (xs @ e # ys) = find P (xs @ ys)"
  by (induction xs) simp_all

lemma newer_trans: "newer a b \<Longrightarrow> newer b c \<Longrightarrow> newer a c"
  by (auto simp: newer_def split: if_splits)

lemma newer_irrefl [simp]: "\<not> newer a a"
  by (simp add: newer_def)

lemma newer_total: "ev_id a \<noteq> ev_id b \<Longrightarrow> newer a b \<or> newer b a"
  by (auto simp: newer_def)

lemma not_newer_trans: "\<not> newer a b \<Longrightarrow> \<not> newer b c \<Longrightarrow> \<not> newer a c"
  by (auto simp: newer_def split: if_splits)

lemma fold_latest:
  "fold (\<lambda>x best. if newer x best then x else best) es e \<in> set (e # es) \<and>
   (\<forall>x \<in> set (e # es). \<not> newer x (fold (\<lambda>x best. if newer x best then x else best) es e))"
proof (induction es arbitrary: e)
  case (Cons a es)
  let ?b = "if newer a e then a else e"
  let ?m = "fold (\<lambda>x best. if newer x best then x else best) es ?b"
  have ih: "?m \<in> set (?b # es)" "\<forall>x \<in> set (?b # es). \<not> newer x ?m" using Cons.IH [of ?b] by blast+
  have "\<not> newer a ?b" "\<not> newer e ?b" using newer_trans [of e a e] by auto
  moreover have "\<not> newer ?b ?m" using ih(2) by auto
  ultimately have "\<not> newer a ?m" "\<not> newer e ?m" using not_newer_trans by blast+
  with ih show ?case by (auto split: if_splits)
qed simp

lemma pick_latest_Some: "pick_latest es = Some m \<Longrightarrow> m \<in> set es \<and> (\<forall>x \<in> set es. \<not> newer x m)"
  using fold_latest by (cases es) fastforce+

lemma pick_latest_None [simp]: "pick_latest es = None \<longleftrightarrow> es = []"
  by (cases es) simp_all

lemma pick_latest_set:
  assumes "set es = set es'" "inj_on ev_id (set es)"
  shows "pick_latest es = pick_latest es'"
proof (cases "es = []")
  case True
  with assms(1) show ?thesis by simp
next
  case False
  with assms(1) obtain m m' where m: "pick_latest es = Some m" "pick_latest es' = Some m'"
    by (metis not_None_eq pick_latest_None set_empty)
  then have "m \<in> set es" "m' \<in> set es" "\<not> newer m' m" "\<not> newer m m'"
    using pick_latest_Some [OF m(1)] pick_latest_Some [OF m(2)] assms(1) by auto
  then have "m = m'" using newer_total assms(2) by (meson inj_onD)
  with m show ?thesis by simp
qed

lemma latest_set: "set evs = set evs' \<Longrightarrow> inj_on ev_id (set evs) \<Longrightarrow> latestEventFrom evs pk = latestEventFrom evs' pk"
  unfolding latestEventFrom_def by (rule pick_latest_set) (auto intro: inj_on_subset)

lemma hex_prefix: "ownerPattern d = Some prefix \<Longrightarrow> length prefix = 16 \<and> list_all is_lower_hex prefix"
  by (auto simp: ownerPattern_def Let_def split: if_splits)

lemma genesis_prefix: "genesisOwner evs prefix = Some g \<Longrightarrow> take 16 g = prefix \<and> length g \<ge> 16"
  by (auto simp: genesisOwner_def find_Some_iff)

lemma HasPrefix_take: "HasPrefix s p \<longleftrightarrow> take (length p) s = p"
  by (induction s p rule: HasPrefix.induct) auto

lemma hex_not_sentinel:
  assumes "list_all is_lower_hex (take 16 g)"
  shows "\<not> HasPrefix g ''prefix:''"
proof
  assume "HasPrefix g ''prefix:''"
  then obtain r where "g = CHR ''p'' # r" by (cases g) (auto simp: HasPrefix_take)
  with assms show False by (simp add: is_lower_hex_def less_eq_char_def)
qed

text \<open>Every owner after the first is named by a transfer tag of some event.\<close>

lemma owners_named:
  "w \<in> set (owners_from n evs vis p) \<Longrightarrow> w = p \<or> (\<exists>e \<in> set evs. getTagValue e ''transfer-to'' = w)"
proof (induction n arbitrary: vis p)
  case (Suc n)
  show ?case
  proof (cases "successor_of evs p")
    case (Some s)
    then have "\<exists>e \<in> set evs. getTagValue e ''transfer-to'' = s"
      using pick_latest_Some by (fastforce simp: successor_of_def latestEventFrom_def split: option.splits if_splits)
    with Suc Some show ?thesis by (auto split: if_splits)
  qed (use Suc in auto)
qed simp

lemma walk_named: "walkTransferChain evs g = g \<or> (\<exists>e \<in> set evs. getTagValue e ''transfer-to'' = walkTransferChain evs g)"
  unfolding walk_last transfer_owners_def using owners_named last_in_set owners_from_ne by blast

lemma no_empty_owner: "p \<noteq> '''' \<Longrightarrow> '''' \<notin> set (owners_from n evs vis p)"
  by (induction n arbitrary: vis p) (auto simp: successor_of_def split: option.split if_splits)

section \<open>A store that answers with its newest events\<close>

text \<open>What the store promises: the matching events in the order of its query, newest first and then by id, up to
  the limit. Which tags the query looks at is left open (\<open>mt\<close>).\<close>

definition store_before :: "event \<Rightarrow> event \<Rightarrow> bool" where
  "store_before a b \<longleftrightarrow> ev_created_at a > ev_created_at b \<or> (ev_created_at a = ev_created_at b \<and> ev_id a < ev_id b)"

fun insert_newest :: "event \<Rightarrow> event list \<Rightarrow> event list" where
  "insert_newest e [] = [e]"
| "insert_newest e (x # xs) = (if store_before e x then e # x # xs else x # insert_newest e xs)"

definition store_order :: "event list \<Rightarrow> event list" where
  "store_order es = foldr insert_newest es []"

definition store_listing :: "(int \<Rightarrow> string \<Rightarrow> event \<Rightarrow> bool) \<Rightarrow> event list \<Rightarrow> int \<Rightarrow> string \<Rightarrow> event list" where
  "store_listing mt S kind d = store_order (filter (mt kind d) S)"

definition newest_store :: "(int \<Rightarrow> string \<Rightarrow> event \<Rightarrow> bool) \<Rightarrow> event list \<Rightarrow> querier" where
  "newest_store mt S = (\<lambda>kind d n. Some (take n (store_listing mt S kind d)))"

definition answers_newest :: "querier \<Rightarrow> (int \<Rightarrow> string \<Rightarrow> event \<Rightarrow> bool) \<Rightarrow> event list \<Rightarrow> bool" where
  "answers_newest q mt S \<longleftrightarrow> (\<forall>kind d n. q kind d n = Some (take n (store_listing mt S kind d)))"

definition group_owners :: "event list \<Rightarrow> string \<Rightarrow> string list" where
  "group_owners evs prefix = (case genesisOwner evs prefix of None \<Rightarrow> [] | Some g \<Rightarrow> transfer_owners evs g)"

definition insider :: "event list \<Rightarrow> string \<Rightarrow> event \<Rightarrow> bool" where
  "insider evs prefix e \<longleftrightarrow> take 16 (ev_pubkey e) = prefix \<or> ev_pubkey e \<in> set (group_owners evs prefix)"

definition same_insiders :: "event list \<Rightarrow> event list \<Rightarrow> string \<Rightarrow> bool" where
  "same_insiders evs' evs prefix \<longleftrightarrow> filter (insider evs prefix) evs' = filter (insider evs prefix) evs"

lemma newest_store_answers: "answers_newest (newest_store mt S) mt S"
  by (simp add: answers_newest_def newest_store_def)

lemma insert_newest_split: "\<exists>xs ys. es = xs @ ys \<and> insert_newest e es = xs @ e # ys"
proof (induction es)
  case (Cons x es)
  then obtain xs ys where "es = xs @ ys" "insert_newest e es = xs @ e # ys" by blast
  then have "x # es = (x # xs) @ ys \<and> x # insert_newest e es = (x # xs) @ e # ys" by simp
  moreover have "x # es = [] @ x # es \<and> e # x # es = [] @ e # x # es" by simp
  ultimately show ?case unfolding insert_newest.simps by (metis (full_types))
qed simp

lemma filter_insert_newest: "\<not> P e \<Longrightarrow> filter P (insert_newest e es) = filter P es"
  by (induction es) simp_all

lemma set_insert_newest [simp]: "set (insert_newest e es) = insert e (set es)"
  using insert_newest_split [of es e] by auto

lemma length_insert_newest [simp]: "length (insert_newest e es) = Suc (length es)"
  using insert_newest_split [of es e] by auto

lemma set_store_order [simp]: "set (store_order es) = set es"
  by (induction es) (simp_all add: store_order_def)

lemma length_store_order [simp]: "length (store_order es) = length es"
  by (induction es) (simp_all add: store_order_def)

lemma drop_insert_newest: "set (drop n es) \<subseteq> set (drop n (insert_newest e es))"
proof -
  obtain xs ys where s: "es = xs @ ys" "insert_newest e es = xs @ e # ys" using insert_newest_split by blast
  have "set (drop (Suc m) (e # ys)) \<subseteq> set (drop m (e # ys))" for m
    by (rule set_drop_subset_set_drop) simp
  from this [of "n - length xs"] show ?thesis unfolding s(2) unfolding s(1) by auto
qed

lemma store_order_append: "store_order (E @ S) = foldr insert_newest E (store_order S)"
  by (simp add: store_order_def)

lemma filter_foldr_insert: "list_all (\<lambda>e. \<not> P e) E \<Longrightarrow> filter P (foldr insert_newest E es) = filter P es"
  by (induction E) (simp_all add: filter_insert_newest)

lemma drop_foldr_insert: "set (drop n es) \<subseteq> set (drop n (foldr insert_newest E es))"
  by (induction E) (use drop_insert_newest in fastforce)+

lemma filter_store_listing_outsiders:
  "list_all (\<lambda>e. \<not> P e) E \<Longrightarrow> filter P (store_listing mt (E @ S) k d) = filter P (store_listing mt S k d)"
  by (simp add: store_listing_def store_order_append, rule filter_foldr_insert) (auto simp: list_all_iff)

lemma drop_store_listing_mono: "set (drop n (store_listing mt S k d)) \<subseteq> set (drop n (store_listing mt (E @ S) k d))"
  by (simp add: store_listing_def store_order_append drop_foldr_insert)

lemma filter_take_all: "list_all (\<lambda>e. \<not> P e) (drop n es) \<Longrightarrow> filter P (take n es) = filter P es"
  by (subst (2) append_take_drop_id [of n es, symmetric], unfold filter_append) (auto simp: list_all_iff filter_empty_conv)

lemma insert_newest_newer: "(\<forall>x \<in> set ys. ev_created_at x < ev_created_at e) \<Longrightarrow> insert_newest e (xs @ ys) = insert_newest e xs @ ys"
  by (induction xs) (cases ys, auto simp: store_before_def)

lemma store_order_newer:
  "\<forall>e \<in> set E. \<forall>x \<in> set S. ev_created_at x < ev_created_at e \<Longrightarrow> store_order (E @ S) = store_order E @ store_order S"
proof (induction E)
  case (Cons e E)
  have "store_order ((e # E) @ S) = insert_newest e (store_order E @ store_order S)"
    using Cons by (simp add: store_order_def)
  also have "\<dots> = insert_newest e (store_order E) @ store_order S"
    by (rule insert_newest_newer) (use Cons.prems in simp)
  finally show ?case by (simp add: store_order_def)
qed (simp add: store_order_def)

lemma filter_subpredicate: "filter P xs = filter P ys \<Longrightarrow> (\<And>x. Q x \<Longrightarrow> P x) \<Longrightarrow> filter Q xs = filter Q ys"
proof -
  assume f: "filter P xs = filter P ys" and q: "\<And>x. Q x \<Longrightarrow> P x"
  have "filter Q zs = filter Q (filter P zs)" for zs using q by (induction zs) auto
  with f show ?thesis by metis
qed

lemma find_filter: "find P xs = (case filter P xs of [] \<Rightarrow> None | x # _ \<Rightarrow> Some x)"
  by (induction xs) simp_all

lemma same_insiders_genesis: "same_insiders evs' evs prefix \<Longrightarrow> genesisOwner evs' prefix = genesisOwner evs prefix"
  unfolding genesisOwner_def find_filter same_insiders_def
  by (subst filter_subpredicate [of "insider evs prefix" evs' evs]) (auto simp: insider_def)

lemma same_insiders_walk:
  assumes "same_insiders evs' evs prefix" "genesisOwner evs prefix = Some g"
  shows "walkTransferChain evs' g = walkTransferChain evs g"
proof -
  have "owners_from maxTransferDepth evs' {g} g = owners_from maxTransferDepth evs {g} g"
  proof (rule owners_from_cong)
    fix o' assume "o' \<in> set (owners_from maxTransferDepth evs {g} g)"
    then have "insider evs prefix e" if "ev_pubkey e = o'" for e
      using that assms(2) by (simp add: insider_def group_owners_def transfer_owners_def)
    with assms(1) have "filter (\<lambda>e. ev_pubkey e = o') evs' = filter (\<lambda>e. ev_pubkey e = o') evs"
      unfolding same_insiders_def by (rule filter_subpredicate)
    then show "successor_of evs' o' = successor_of evs o'" by (simp add: successor_of_def latestEventFrom_def)
  qed
  then show ?thesis by (simp add: walk_last transfer_owners_def)
qed

definition owner_in :: "event list \<Rightarrow> string \<Rightarrow> string" where
  "owner_in evs prefix = (case genesisOwner evs prefix of None \<Rightarrow> ''prefix:'' @ prefix | Some g \<Rightarrow> walkTransferChain evs g)"

lemma same_insiders_owner:
  "same_insiders evs' evs prefix \<Longrightarrow>
   (case genesisOwner evs' prefix of None \<Rightarrow> Some (''prefix:'' @ prefix) | Some g \<Rightarrow> Some (walkTransferChain evs' g)) =
   Some (owner_in evs prefix)"
  by (auto simp: owner_in_def same_insiders_genesis same_insiders_walk split: option.split)

section \<open>Properties\<close>

text \<open>C14: The ownership walk follows only signed transfers: the owners it passes form a chain that starts at the
  genesis owner, in which each is named by the transfer tag of the latest metadata event its predecessor signed,
  none occurs twice and there are at most twenty transfers. Unless that limit is reached, the owner it ends
  with has passed the group on to nobody, or only to an owner the chain has already had.\<close>

theorem transfer_chain_spec:
  "successively (\<lambda>a b. successor_of evs a = Some b) (transfer_owners evs g) \<and>
   hd (transfer_owners evs g) = g \<and> last (transfer_owners evs g) = walkTransferChain evs g \<and>
   distinct (transfer_owners evs g) \<and> length (transfer_owners evs g) \<le> 21 \<and>
   (length (transfer_owners evs g) = 21 \<or>
    (case successor_of evs (walkTransferChain evs g) of None \<Rightarrow> True | Some s \<Rightarrow> s \<in> set (transfer_owners evs g)))"
proof -
  let ?os = "owners_from maxTransferDepth evs {g} g"
  have g: "g \<in> set ?os" by (metis hd_in_set hd_owners_from owners_from_ne)
  have len: "length ?os \<le> 21" using owners_from_length [of maxTransferDepth evs "{g}" g] by simp
  have "length ?os = 21 \<or> (case successor_of evs (last ?os) of None \<Rightarrow> True | Some s \<Rightarrow> s \<in> set ?os)"
  proof (cases "length ?os \<le> 20")
    case True
    from owners_from_stops [OF this] g show ?thesis by (auto split: option.splits)
  next
    case False
    with len show ?thesis by linarith
  qed
  with len owners_from_hops owners_from_distinct [of g "{g}" maxTransferDepth evs] show ?thesis
    unfolding walk_last transfer_owners_def by (simp del: owners_from.simps)
qed

text \<open>C12: Keys that have never owned a group cannot change its owner: whatever metadata events they get into a
  store that answers a query with the newest matching events up to its limit, in whatever number, with whatever
  time stamps and transfer tags, the owner of a group whose identifier embeds its founder is resolved as before,
  as long as the query's limit of a hundred cuts off no event of the founder's prefix or of an owner in the
  transfer chain. That proviso is needed: see \<open>founder_is_evicted\<close> below.\<close>

theorem outsider_cannot_change_owner:
  assumes "answers_newest q mt S" "answers_newest q' mt (E @ S)" "ownerPattern d = Some prefix"
    and "list_all (\<lambda>e. \<not> insider (store_listing mt S KindGroupMetadata d) prefix e) E"
    and "list_all (\<lambda>e. \<not> insider (store_listing mt S KindGroupMetadata d) prefix e)
      (drop 100 (store_listing mt (E @ S) KindGroupMetadata d))"
  shows "ResolveOwner q' d = ResolveOwner q d"
proof -
  let ?L = "store_listing mt S KindGroupMetadata d" and ?L' = "store_listing mt (E @ S) KindGroupMetadata d"
  let ?P = "insider ?L prefix"
  have "filter ?P ?L' = filter ?P ?L" by (rule filter_store_listing_outsiders [OF assms(4)])
  moreover have "filter ?P (take 100 ?L') = filter ?P ?L'" using assms(5) by (rule filter_take_all)
  moreover have "filter ?P (take 100 ?L) = filter ?P ?L"
    using assms(5) drop_store_listing_mono [of 100 mt S KindGroupMetadata d E]
    by (intro filter_take_all) (auto simp only: list_all_iff)
  ultimately have "same_insiders (take 100 ?L') ?L prefix" "same_insiders (take 100 ?L) ?L prefix"
    by (simp_all add: same_insiders_def)
  then show ?thesis
    using assms(1-3) by (simp add: ResolveOwner_def queryGroupEvents_def answers_newest_def same_insiders_owner)
qed

definition founder :: string where "founder = ''0123456789abcdef01''"

definition group_d :: string where "group_d = ''team-0123456789abcdef-00000001''"

definition meta_by :: "string \<Rightarrow> int \<Rightarrow> string \<Rightarrow> event" where
  "meta_by pk t successor = \<lparr>ev_id = ''m'', ev_pubkey = pk, ev_created_at = t, ev_kind = 39000,
     ev_tags = [[''d'', group_d]] @ (if successor = '''' then [] else [[''transfer-to'', successor]]), ev_content = ''''\<rparr>"

lemma group_d_pattern: "ownerPattern group_d = Some ''0123456789abcdef''"
  by code_simp

definition stored_in_group :: "int \<Rightarrow> string \<Rightarrow> event \<Rightarrow> bool" where
  "stored_in_group kind d e \<longleftrightarrow> ev_kind e = kind \<and> first_tag (ev_tags e) ''d'' = d"

lemma outsider_cannot_change_owner_witness:
  "ResolveOwner (newest_store stored_in_group ([meta_by ''eve'' 9 ''eve2'', meta_by ''eve2'' 10 ''eve''] @ [meta_by founder 1 ''bob''])) group_d
   = Some ''bob''"
proof -
  have "ResolveOwner (newest_store stored_in_group [meta_by founder 1 ''bob'']) group_d = Some ''bob''"
    "list_all (\<lambda>e. \<not> insider (store_listing stored_in_group [meta_by founder 1 ''bob''] KindGroupMetadata group_d) ''0123456789abcdef'' e)
       [meta_by ''eve'' 9 ''eve2'', meta_by ''eve2'' 10 ''eve'']"
    "drop 100 (store_listing stored_in_group ([meta_by ''eve'' 9 ''eve2'', meta_by ''eve2'' 10 ''eve''] @ [meta_by founder 1 ''bob''])
       KindGroupMetadata group_d) = []"
    by code_simp+
  with outsider_cannot_change_owner [OF newest_store_answers newest_store_answers group_d_pattern, of stored_in_group
      "[meta_by founder 1 ''bob'']" "[meta_by ''eve'' 9 ''eve2'', meta_by ''eve2'' 10 ''eve'']"]
  show ?thesis by simp
qed

text \<open>The proviso is needed: a hundred newer events of strangers that the query matches push the founder's events
  out of its answer, and the group is then treated as one that has no event of its founder yet.\<close>

theorem founder_is_evicted:
  assumes "answers_newest q mt (E @ S)" "ownerPattern d = Some prefix" "length E \<ge> 100"
    and "\<forall>e \<in> set E. mt KindGroupMetadata d e \<and> take 16 (ev_pubkey e) \<noteq> prefix \<and> (\<forall>x \<in> set S. ev_created_at x < ev_created_at e)"
  shows "ResolveOwner q d = Some (''prefix:'' @ prefix)"
proof -
  have "filter (mt KindGroupMetadata d) E = E" using assms(4) by (intro filter_True) blast
  then have "take 100 (store_listing mt (E @ S) KindGroupMetadata d) = take 100 (store_order E)"
    using store_order_newer [of E "filter (mt KindGroupMetadata d) S"] assms(3,4) by (simp add: store_listing_def)
  moreover have "genesisOwner (take 100 (store_order E)) prefix = None"
    using assms(4) by (auto simp: genesisOwner_def find_None_iff dest!: in_set_takeD)
  ultimately show ?thesis
    using assms(1,2) by (simp add: ResolveOwner_def queryGroupEvents_def answers_newest_def)
qed

lemma founder_is_evicted_witness:
  "ResolveOwner (newest_store stored_in_group (replicate 100 (meta_by ''eve'' 9 '''') @ [meta_by founder 1 ''bob''])) group_d
   = Some ''prefix:0123456789abcdef''"
proof -
  have "stored_in_group 39000 group_d (meta_by ''eve'' 9 '''')" by code_simp
  with founder_is_evicted [OF newest_store_answers [of stored_in_group "replicate 100 (meta_by ''eve'' 9 '''') @ [meta_by founder 1 ''bob'']"]
      group_d_pattern] show ?thesis by (simp add: meta_by_def)
qed

text \<open>C13: Who may write group metadata from outside, for a group whose identifier names its founder: before the
  founder's first metadata event, a key with the founder's prefix; after it, the current owner, and for a
  member list also a key that the owner's latest admin list allows to add or remove users. The one
  assumption is that transfer tags hold keys, not texts that begin with the resolver's own prefix marker.\<close>

theorem metadata_writers:
  assumes "IsGroupMetadataKind (ev_kind ev)" "relayPubkey = '''' \<or> ev_pubkey ev \<noteq> relayPubkey"
    and "GetD (ev_tags ev) = d" "ownerPattern d = Some prefix"
    and "queryGroupEvents q KindGroupMetadata d = Some evs" "queryGroupEvents q KindGroupAdmins d = Some adms"
    and "list_all (\<lambda>e. \<not> HasPrefix (getTagValue e ''transfer-to'') ''prefix:'') evs"
  shows "RejectExternalMetadata GetD relayPubkey (Some q) ev = Accept \<longleftrightarrow>
    (case genesisOwner evs prefix of
       None \<Rightarrow> take 16 (ev_pubkey ev) = prefix
     | Some g \<Rightarrow> ev_pubkey ev = walkTransferChain evs g \<or>
         (ev_kind ev = KindGroupMembers \<and>
          (case latestEventFrom adms (walkTransferChain evs g) of
             None \<Rightarrow> False
           | Some adm \<Rightarrow> list_ex (grants_member_write (ev_pubkey ev)) (ev_tags adm))))"
proof -
  have hex: "length prefix = 16" "list_all is_lower_hex prefix" using hex_prefix [OF assms(4)] by auto
  have d: "d \<noteq> ''''" using assms(4) by (auto simp: ownerPattern_def)
  show ?thesis
  proof (cases "genesisOwner evs prefix")
    case None
    have "drop 7 (''prefix:'' @ prefix) = prefix" by simp
    with None hex d assms show ?thesis
      by (auto simp: RejectExternalMetadata_def IsAuthorizedMetadataWriter_def ResolveOwner_def Let_def)
  next
    case (Some g)
    obtain w where w: "w = walkTransferChain evs g" by simp
    have g: "take 16 g = prefix" "length g \<ge> 16" using genesis_prefix [OF Some] by auto
    then have gne: "g \<noteq> []" by auto
    have "\<not> HasPrefix w ''prefix:''"
      using walk_named [of evs g] assms(7) hex_not_sentinel [of g] g hex by (auto simp: w list_all_iff)
    moreover have "w \<noteq> ''''"
    proof
      assume "w = ''''"
      with walk_last [of evs g] have "last (transfer_owners evs g) = ''''" by (simp add: w)
      moreover have "'''' \<notin> set (transfer_owners evs g)" using no_empty_owner [of g maxTransferDepth evs "{g}"] gne
        by (simp add: transfer_owners_def)
      ultimately show False by (metis last_in_set owners_from_ne transfer_owners_def)
    qed
    ultimately show ?thesis
      using Some d assms by (auto simp: RejectExternalMetadata_def IsAuthorizedMetadataWriter_def ResolveOwner_def
          isDelegatedMemberWriter_def Let_def w [symmetric] split: option.split if_splits)
  qed
qed

definition D_of :: "tag list \<Rightarrow> string" where
  "D_of ts = first_tag ts ''d''"

lemma metadata_writers_witness:
  "RejectExternalMetadata D_of ''relay'' (Some (\<lambda>k d n. if k = 39000 then Some [meta_by founder 1 ''bob''] else Some []))
     (meta_by ''bob'' 2 '''') = Accept"
proof -
  let ?q = "\<lambda>k d n. if k = 39000 then Some [meta_by founder 1 ''bob''] else Some []"
  have "genesisOwner [meta_by founder 1 ''bob''] ''0123456789abcdef'' = Some founder"
    "walkTransferChain [meta_by founder 1 ''bob''] founder = ''bob''"
    "IsGroupMetadataKind (ev_kind (meta_by ''bob'' 2 ''''))" "D_of (ev_tags (meta_by ''bob'' 2 '''')) = group_d"
    "ev_pubkey (meta_by ''bob'' 2 '''') = ''bob''"
    "list_all (\<lambda>e. \<not> HasPrefix (getTagValue e ''transfer-to'') ''prefix:'') [meta_by founder 1 ''bob'']"
    by code_simp+
  with metadata_writers [unfolded queryGroupEvents_def, of "meta_by ''bob'' 2 ''''" "''relay''" D_of group_d "''0123456789abcdef''" ?q "[meta_by founder 1 ''bob'']" "[]"]
    group_d_pattern show ?thesis by simp
qed

text \<open>The owner does not depend on the order in which the store lists the events of a legacy group or of a
  transfer chain: two lists of the same events with distinct ids give the same walk.\<close>

theorem walk_is_order_independent:
  assumes "set evs = set evs'" "inj_on ev_id (set evs)"
  shows "walkTransferChain evs g = walkTransferChain evs' g"
proof -
  have "successor_of evs' o' = successor_of evs o'" for o'
    using latest_set [OF assms] by (simp add: successor_of_def)
  then have "owners_from maxTransferDepth evs' {g} g = owners_from maxTransferDepth evs {g} g"
    by (intro owners_from_cong)
  then show ?thesis by (simp add: walk_last transfer_owners_def)
qed

lemma walk_is_order_independent_witness:
  "walkTransferChain [(meta_by ''a'' 1 ''b'')\<lparr>ev_id := ''x''\<rparr>, meta_by ''a'' 2 ''c''] ''a''
     = walkTransferChain [meta_by ''a'' 2 ''c'', (meta_by ''a'' 1 ''b'')\<lparr>ev_id := ''x''\<rparr>] ''a''"
  by (rule walk_is_order_independent) (auto simp: meta_by_def)

text \<open>The first metadata event of a legacy group, whose identifier names no founder, is refused once the store
  is wired, whoever signs it; without the store the same event passes.\<close>

theorem legacy_group_needs_an_owner:
  "rejected (RejectExternalMetadata D_of '''' (Some (\<lambda>k d n. Some [])) ((meta_by pk t '''')\<lparr>ev_tags := [[''d'', ''old-group'']]\<rparr>)) \<and>
   RejectExternalMetadata D_of '''' None ((meta_by pk t '''')\<lparr>ev_tags := [[''d'', ''old-group'']]\<rparr>) = Accept"
  by (simp add: RejectExternalMetadata_def D_of_def first_tag_def meta_by_def ownerPattern_def IsGroupMetadataKind_def
      IsAuthorizedMetadataWriter_def ResolveOwner_def queryGroupEvents_def Let_def)

end
