(* ===== verification/Group_Scope.thy ===== *)
theory Group_Scope
  imports Group_Ownership Gift_Wrap
begin

text \<open>
  internal/groups/scope.go: how \<open>Wire\<close> attaches relay29 to the shared relay. relay29's own
  handlers, the store's queries and its counts are parameters; the groups relay29 knows are an
  association list of the two fields this file reads (the table is a concurrent map, its order of
  iteration is arbitrary). A query answers with the list of its events, \<open>None\<close> on an error.
\<close>

section \<open>Groups and visibility\<close>

record group_info =
  gr_Private :: bool
  gr_Members :: "string set"

type_synonym groups = "(string \<times> group_info) list"

definition isMetadataKind :: "int \<Rightarrow> bool" where
  "isMetadataKind k \<longleftrightarrow> k \<ge> 39000 \<and> k \<le> 39003"

definition isGroupKind :: "int \<Rightarrow> bool" where
  "isGroupKind k \<longleftrightarrow> (k \<ge> 9000 \<and> k \<le> 9022) \<or> isMetadataKind k"

definition knownGroup :: "groups \<Rightarrow> string \<Rightarrow> group_info option" where
  "knownGroup st g = map_of st g"

definition knownGroupEvent :: "groups \<Rightarrow> event \<Rightarrow> bool" where
  "knownGroupEvent st ev \<longleftrightarrow> list_ex (\<lambda>g. knownGroup st g \<noteq> None) (all_tags (ev_tags ev) ''h'')"

definition isGroupEvent :: "groups \<Rightarrow> event \<Rightarrow> bool" where
  "isGroupEvent st ev \<longleftrightarrow> isGroupKind (ev_kind ev) \<or> knownGroupEvent st ev"

definition isGroupFilter :: "groups \<Rightarrow> nfilter \<Rightarrow> bool" where
  "isGroupFilter st f \<longleftrightarrow> list_ex isMetadataKind (f_kinds f) \<or> list_ex (\<lambda>g. knownGroup st g \<noteq> None) (tag_values f ''h'')"

definition canRead :: "groups \<Rightarrow> string \<Rightarrow> string \<Rightarrow> bool" where
  "canRead st g pk =
     (case knownGroup st g of
        None \<Rightarrow> True
      | Some i \<Rightarrow> if \<not> gr_Private i then True else if pk = '''' then False else pk \<in> gr_Members i)"

definition visible :: "groups \<Rightarrow> event \<Rightarrow> string \<Rightarrow> bool" where
  "visible st ev pk \<longleftrightarrow> list_all (\<lambda>g. canRead st g pk) (all_tags (ev_tags ev) ''h'')"

definition hiddenGroups :: "groups \<Rightarrow> string \<Rightarrow> string list" where
  "hiddenGroups st pk = map fst (filter (\<lambda>(g, i). gr_Private i \<and> \<not> (pk \<noteq> '''' \<and> pk \<in> gr_Members i)) st)"

section \<open>The wrapped handlers\<close>

definition groupEventOnly :: "groups \<Rightarrow> (event \<Rightarrow> verdict) \<Rightarrow> event \<Rightarrow> verdict" where
  "groupEventOnly st fn ev = (if \<not> isGroupEvent st ev then Accept else fn ev)"

definition savedGroupEventOnly :: "groups \<Rightarrow> (event \<Rightarrow> 's \<Rightarrow> 's) \<Rightarrow> event \<Rightarrow> 's \<Rightarrow> 's" where
  "savedGroupEventOnly st fn ev s = (if isGroupEvent st ev then fn ev s else s)"

definition groupFilterOnly :: "groups \<Rightarrow> (nfilter \<Rightarrow> verdict) \<Rightarrow> nfilter \<Rightarrow> verdict" where
  "groupFilterOnly st fn f = (if \<not> isGroupFilter st f then Accept else fn f)"

type_synonym query = "nfilter \<Rightarrow> event list option"
type_synonym counter = "nfilter \<Rightarrow> int option"

definition groupQuery :: "groups \<Rightarrow> query \<Rightarrow> query" where
  "groupQuery st q f = (if \<not> isGroupFilter st f then Some [] else q f)"

definition ordinaryQuery :: "groups \<Rightarrow> string \<Rightarrow> query \<Rightarrow> query" where
  "ordinaryQuery st reader q f =
     (if isGroupFilter st f then Some []
      else case q f of None \<Rightarrow> None | Some src \<Rightarrow> Some (filter (\<lambda>ev. visible st ev reader) src))"

text \<open>The counter runs up to twice; the second run may fail on its own.\<close>

definition privateAwareCount :: "groups \<Rightarrow> string \<Rightarrow> counter \<Rightarrow> counter \<Rightarrow> counter" where
  "privateAwareCount st reader c c2 f =
     (let hs = tag_values f ''h'' in
      if hs \<noteq> [] then (if list_ex (\<lambda>g. \<not> canRead st g reader) hs then Some 0 else c f)
      else case c f of
        None \<Rightarrow> None
      | Some n \<Rightarrow>
          (let hidden = hiddenGroups st reader in
           if hidden = [] then Some n
           else case c2 (f\<lparr>f_tags := (f_tags f)(''h'' \<mapsto> hidden)\<rparr>) of
             None \<Rightarrow> None
           | Some m \<Rightarrow> if m > n then Some 0 else Some (n - m)))"

text \<open>\<open>Wire\<close>: relay29's handlers, and what becomes of the relay's chains.\<close>

record 's relay29_hooks =
  RequireHTagForExistingGroup :: "event \<Rightarrow> verdict"
  RequireModerationEventsToBeRecent :: "event \<Rightarrow> verdict"
  RestrictWritesBasedOnGroupRules :: "event \<Rightarrow> verdict"
  RestrictInvalidModerationActions :: "event \<Rightarrow> verdict"
  PreventWritingOfEventsJustDeleted :: "event \<Rightarrow> verdict"
  CheckPreviousTag :: "event \<Rightarrow> verdict"
  RequireKindAndSingleGroupID :: "nfilter \<Rightarrow> verdict"
  groupQueries :: "query list"
  ApplyModerationAction :: "event \<Rightarrow> 's \<Rightarrow> 's"
  ReactToJoinRequest :: "event \<Rightarrow> 's \<Rightarrow> 's"
  ReactToLeaveRequest :: "event \<Rightarrow> 's \<Rightarrow> 's"
  AddToPreviousChecking :: "event \<Rightarrow> 's \<Rightarrow> 's"

definition wire_queries :: "groups \<Rightarrow> string \<Rightarrow> 's relay29_hooks \<Rightarrow> query list \<Rightarrow> query list" where
  "wire_queries st reader r29 base = map (ordinaryQuery st reader) base @ map (groupQuery st) (groupQueries r29)"

definition wire_counts :: "groups \<Rightarrow> string \<Rightarrow> counter list \<Rightarrow> counter list" where
  "wire_counts st reader base = map (\<lambda>c. privateAwareCount st reader c c) base"

definition wire_event_gates :: "groups \<Rightarrow> string list \<Rightarrow> bool \<Rightarrow> 's relay29_hooks \<Rightarrow> event \<Rightarrow> verdict list" where
  "wire_event_gates st admins allowPublic r29 ev =
     map (\<lambda>fn. groupEventOnly st fn ev)
       [RequireHTagForExistingGroup r29, RequireModerationEventsToBeRecent r29, RestrictWritesBasedOnGroupRules r29,
        GroupCreationGate admins allowPublic, RestrictInvalidModerationActions r29, PreventWritingOfEventsJustDeleted r29,
        CheckPreviousTag r29]"

definition wire_filter_gates :: "groups \<Rightarrow> 's relay29_hooks \<Rightarrow> nfilter \<Rightarrow> verdict list" where
  "wire_filter_gates st r29 f = [groupFilterOnly st (RequireKindAndSingleGroupID r29) f]"

definition wire_saved :: "groups \<Rightarrow> 's relay29_hooks \<Rightarrow> event \<Rightarrow> 's \<Rightarrow> 's" where
  "wire_saved st r29 ev s =
     (let s = savedGroupEventOnly st (ApplyModerationAction r29) ev s;
          s = savedGroupEventOnly st (ReactToJoinRequest r29) ev s;
          s = savedGroupEventOnly st (ReactToLeaveRequest r29) ev s
      in if knownGroupEvent st ev then AddToPreviousChecking r29 ev s else s)"

definition PreventBroadcast :: "groups \<Rightarrow> event \<Rightarrow> string \<Rightarrow> bool" where
  "PreventBroadcast st ev authed \<longleftrightarrow> \<not> visible st ev authed"

section \<open>Facts\<close>

text \<open>Who may see an event: whoever is a member of every private group its h tags name.\<close>

definition may_see :: "groups \<Rightarrow> string \<Rightarrow> event \<Rightarrow> bool" where
  "may_see st pk ev \<longleftrightarrow> (\<forall>(g, i) \<in> set st. gr_Private i \<and> has_tag (ev_tags ev) ''h'' g \<longrightarrow> pk \<noteq> '''' \<and> pk \<in> gr_Members i)"

lemma canRead_iff:
  assumes "distinct (map fst st)"
  shows "canRead st g pk \<longleftrightarrow> (\<forall>i. (g, i) \<in> set st \<and> gr_Private i \<longrightarrow> pk \<noteq> [] \<and> pk \<in> gr_Members i)"
proof (cases "map_of st g")
  case None
  then have "(g, i) \<notin> set st" for i using assms by (metis map_of_eq_Some_iff option.distinct(1))
  with None show ?thesis by (simp add: canRead_def knownGroup_def)
next
  case (Some j)
  then have "(g, i) \<in> set st \<longleftrightarrow> i = j" for i using assms by (metis map_of_eq_Some_iff option.inject)
  with Some show ?thesis by (simp add: canRead_def knownGroup_def)
qed

lemma visible_iff: "distinct (map fst st) \<Longrightarrow> visible st ev pk \<longleftrightarrow> may_see st pk ev"
  by (auto simp: visible_def may_see_def list_all_iff has_tag_def canRead_iff)

lemma visible_hidden:
  "distinct (map fst st) \<Longrightarrow> visible st ev pk \<longleftrightarrow> \<not> (\<exists>g \<in> set (hiddenGroups st pk). has_tag (ev_tags ev) ''h'' g)"
  by (auto simp: visible_iff may_see_def hiddenGroups_def)

lemma masked_selects:
  assumes "tag_values f ''h'' = []" "hidden \<noteq> []"
  shows "filter_selects (f\<lparr>f_tags := (f_tags f)(''h'' \<mapsto> hidden)\<rparr>) ev \<longleftrightarrow>
    filter_selects f ev \<and> (\<exists>g \<in> set hidden. has_tag (ev_tags ev) ''h'' g)"
  using assms by (auto simp: filter_selects_def tag_values_def split: option.splits if_splits)

lemma filter_split_length:
  "length (filter (\<lambda>x. P x \<and> \<not> Q x) xs) + length (filter (\<lambda>x. P x \<and> Q x) xs) = length (filter P xs)"
  by (induction xs) auto

section \<open>Properties\<close>

text \<open>C16: Reading ordinary traffic: an ordinary query answers with exactly the stored events that the reader may see,
  which is every one that names no private group the reader is not a member of, and the live broadcast
  goes to exactly the same readers.\<close>

theorem private_groups_stay_private:
  assumes "distinct (map fst st)" "\<not> isGroupFilter st f" "q f = Some src"
  shows "(\<exists>evs. ordinaryQuery st reader q f = Some evs \<and> set evs = {ev \<in> set src. may_see st reader ev}) \<and>
    (PreventBroadcast st ev reader \<longleftrightarrow> \<not> may_see st reader ev)"
  using assms by (auto simp: ordinaryQuery_def PreventBroadcast_def visible_iff)

definition club :: groups where
  "club = [(''club'', \<lparr>gr_Private = True, gr_Members = {''ann''}\<rparr>), (''hall'', \<lparr>gr_Private = False, gr_Members = {}\<rparr>)]"

definition club_note :: event where
  "club_note = \<lparr>ev_id = ''e'', ev_pubkey = ''ann'', ev_created_at = 0, ev_kind = 9, ev_tags = [[''h'', ''thread''], [''h'', ''club'']], ev_content = ''''\<rparr>"

definition plain_filter :: nfilter where
  "plain_filter = \<lparr>f_ids = [], f_authors = [], f_kinds = [9], f_tags = Map.empty, f_search = ''''\<rparr>"

lemma private_groups_stay_private_witness:
  "PreventBroadcast club club_note ''bob'' \<and> \<not> PreventBroadcast club club_note ''ann''"
proof -
  have d: "distinct (map fst club)" "\<not> isGroupFilter club plain_filter"
    by (simp_all add: club_def isGroupFilter_def plain_filter_def isMetadataKind_def tag_values_def)
  show ?thesis
    using private_groups_stay_private [OF d, of "\<lambda>_. Some []" "[]" "''bob''" club_note]
      private_groups_stay_private [OF d, of "\<lambda>_. Some []" "[]" "''ann''" club_note]
    by (simp add: may_see_def club_def club_note_def has_tag_def)
qed

text \<open>A count without an h tag counts exactly the stored events the reader may see: given a store that counts
  the events a filter selects, the second, masked count takes away precisely the hidden ones.\<close>

theorem count_is_visible_count:
  assumes "distinct (map fst st)" "tag_values f ''h'' = []"
    and "\<And>f. c f = Some (int (length (filter (filter_selects f) stored)))"
  shows "privateAwareCount st reader c c f = Some (int (length (filter (\<lambda>ev. filter_selects f ev \<and> may_see st reader ev) stored)))"
proof -
  let ?hid = "\<lambda>ev. \<exists>g \<in> set (hiddenGroups st reader). has_tag (ev_tags ev) ''h'' g"
  have see: "may_see st reader ev \<longleftrightarrow> \<not> ?hid ev" for ev
    using visible_iff [OF assms(1)] visible_hidden [OF assms(1)] by blast
  show ?thesis
  proof (cases "hiddenGroups st reader = []")
    case True
    with assms show ?thesis by (simp add: privateAwareCount_def see)
  next
    case False
    let ?m = "length (filter (\<lambda>ev. filter_selects f ev \<and> ?hid ev) stored)"
    have masked: "filter_selects (f\<lparr>f_tags := (f_tags f)(''h'' \<mapsto> hiddenGroups st reader)\<rparr>) = (\<lambda>ev. filter_selects f ev \<and> ?hid ev)"
      using masked_selects [OF assms(2) False] by (intro ext) auto
    have "length (filter (\<lambda>ev. filter_selects f ev \<and> \<not> ?hid ev) stored) + ?m = length (filter (filter_selects f) stored)"
      by (rule filter_split_length)
    then show ?thesis using False assms(2,3) by (simp add: privateAwareCount_def masked see)
  qed
qed

lemma count_is_visible_count_witness:
  "privateAwareCount club ''bob'' (\<lambda>f. Some (int (length (filter (filter_selects f) [club_note]))))
     (\<lambda>f. Some (int (length (filter (filter_selects f) [club_note])))) plain_filter = Some 0"
  using count_is_visible_count [of club plain_filter "\<lambda>f. Some (int (length (filter (filter_selects f) [club_note])))" "[club_note]" "''bob''"]
  by (simp add: club_def club_note_def plain_filter_def tag_values_def may_see_def has_tag_def)

definition thread_filter :: nfilter where
  "thread_filter = plain_filter\<lparr>f_tags := [''h'' \<mapsto> [''thread'']]\<rparr>"

text \<open>A count by an h tag that names no private group is not masked: it counts events that also carry the
  tag of a private group, which the same reader's query hides.\<close>

theorem count_by_thread_tag_counts_hidden:
  "ordinaryQuery club ''bob'' (\<lambda>f. Some (filter (filter_selects f) [club_note])) thread_filter = Some [] \<and>
   privateAwareCount club ''bob'' (\<lambda>f. Some (int (length (filter (filter_selects f) [club_note]))))
     (\<lambda>f. Some (int (length (filter (filter_selects f) [club_note])))) thread_filter = Some 1"
  by (simp add: ordinaryQuery_def privateAwareCount_def thread_filter_def plain_filter_def club_note_def club_def isGroupFilter_def
      isMetadataKind_def knownGroup_def tag_values_def visible_def canRead_def filter_selects_def has_tag_def)

end
