(* ===== verification/Relay_Queries.thy ===== *)
theory Relay_Queries
  imports Validation Auth_Gate
begin

text \<open>
  The read path of internal/relay/relay.go (the query handler of \<open>NewRelayWithOptions\<close>, and with no
  cache that of \<open>NewRelay\<close>) with internal/eventcache, and what the relay document (NIP-11) promises.
  The store and the search backend are parameters: the list of events of a query, \<open>None\<close> on an error.
  Redis is a map from keys to an event and the time it expires; JSON encoding of an event is taken to
  be invertible, so the map holds events. Every Redis command has a flag: whether it is answered.
\<close>

section \<open>The event cache\<close>

record cache_config =
  ec_Enabled :: bool
  ec_DefaultTTL :: int
  ec_ProfileTTL :: int
  ec_ContactsTTL :: int
  ec_KeyPrefix :: string

definition eventcache_DefaultConfig :: cache_config where
  "eventcache_DefaultConfig = \<lparr>ec_Enabled = True, ec_DefaultTTL = 300 * ns_per_sec, ec_ProfileTTL = 900 * ns_per_sec,
     ec_ContactsTTL = 600 * ns_per_sec, ec_KeyPrefix = ''event:''\<rparr>"

type_synonym event_kv = "string \<Rightarrow> (event \<times> int) option"

definition kv_get :: "int \<Rightarrow> string \<Rightarrow> event_kv \<Rightarrow> event option" where
  "kv_get now k kv = (case kv k of Some (e, t) \<Rightarrow> if now < t then Some e else None | None \<Rightarrow> None)"

definition eventKey :: "cache_config \<Rightarrow> string \<Rightarrow> string" where
  "eventKey c eid = ec_KeyPrefix c @ ''id:'' @ eid"

definition pubkeyKindKey :: "cache_config \<Rightarrow> string \<Rightarrow> int \<Rightarrow> string" where
  "pubkeyKindKey c pk kind = ec_KeyPrefix c @ ''pk:'' @ pk @ '':'' @ fmt_d kind"

definition getTTL :: "cache_config \<Rightarrow> int \<Rightarrow> int" where
  "getTTL c kind = (if kind = 0 then ec_ProfileTTL c else if kind = 3 then ec_ContactsTTL c else ec_DefaultTTL c)"

definition CacheableKinds :: "int list" where
  "CacheableKinds = [0, 3, 10002]"

definition IsCacheable :: "int \<Rightarrow> bool" where
  "IsCacheable kind \<longleftrightarrow> kind \<in> set CacheableKinds \<or> (kind \<ge> 30000 \<and> kind < 40000)"

definition isReplaceable :: "int \<Rightarrow> bool" where
  "isReplaceable kind \<longleftrightarrow> kind = 0 \<or> kind = 3 \<or> (kind \<ge> 10000 \<and> kind < 20000) \<or> (kind \<ge> 30000 \<and> kind < 40000)"

text \<open>A cache that is switched off, or has no client, does nothing.\<close>

record cache_link =
  cl_config :: cache_config
  cl_have :: bool

definition cache_on :: "cache_link \<Rightarrow> bool" where
  "cache_on l \<longleftrightarrow> cl_have l \<and> ec_Enabled (cl_config l)"

text \<open>\<open>Set\<close>: the entry by id, and for replaceable kinds the entry by author and kind.\<close>

definition cache_Set :: "cache_link \<Rightarrow> bool \<Rightarrow> bool \<Rightarrow> int \<Rightarrow> event \<Rightarrow> event_kv \<Rightarrow> event_kv" where
  "cache_Set l ok1 ok2 now ev kv =
     (if \<not> cache_on l then kv
      else let c = cl_config l; entry = (ev, now + getTTL c (ev_kind ev)) in
        if \<not> ok1 then kv
        else let kv1 = kv(eventKey c (ev_id ev) \<mapsto> entry) in
          if isReplaceable (ev_kind ev) \<and> ok2 then kv1(pubkeyKindKey c (ev_pubkey ev) (ev_kind ev) \<mapsto> entry) else kv1)"

definition cache_Get :: "cache_link \<Rightarrow> bool \<Rightarrow> int \<Rightarrow> string \<Rightarrow> event_kv \<Rightarrow> event option" where
  "cache_Get l ok now eid kv = (if \<not> cache_on l \<or> \<not> ok then None else kv_get now (eventKey (cl_config l) eid) kv)"

definition GetByPubkeyKind :: "cache_link \<Rightarrow> bool \<Rightarrow> int \<Rightarrow> string \<Rightarrow> int \<Rightarrow> event_kv \<Rightarrow> event option" where
  "GetByPubkeyKind l ok now pk kind kv =
     (if \<not> cache_on l then None
      else if \<not> isReplaceable kind then None
      else if \<not> ok then None
      else kv_get now (pubkeyKindKey (cl_config l) pk kind) kv)"

definition GetProfile :: "cache_link \<Rightarrow> bool \<Rightarrow> int \<Rightarrow> string \<Rightarrow> event_kv \<Rightarrow> event option" where
  "GetProfile l ok now pk kv = GetByPubkeyKind l ok now pk 0 kv"

definition GetContacts :: "cache_link \<Rightarrow> bool \<Rightarrow> int \<Rightarrow> string \<Rightarrow> event_kv \<Rightarrow> event option" where
  "GetContacts l ok now pk kv = GetByPubkeyKind l ok now pk 3 kv"

text \<open>\<open>Delete\<close>; the four flags are those of its commands in order.\<close>

definition cache_Delete :: "cache_link \<Rightarrow> bool \<times> bool \<times> bool \<times> bool \<Rightarrow> int \<Rightarrow> string \<Rightarrow> event_kv \<Rightarrow> event_kv" where
  "cache_Delete l oks now eid kv =
     (if \<not> cache_on l then kv
      else case oks of (ok_get, ok_del, ok_index, ok_del2) \<Rightarrow>
        let found = cache_Get l ok_get now eid kv;
            kv1 = (if ok_del then kv(eventKey (cl_config l) eid := None) else kv)
        in case found of
             None \<Rightarrow> kv1
           | Some ev \<Rightarrow>
               if isReplaceable (ev_kind ev) then
                 (case GetByPubkeyKind l ok_index now (ev_pubkey ev) (ev_kind ev) kv1 of
                    None \<Rightarrow> kv1
                  | Some ce \<Rightarrow> if ev_id ce = eid \<and> ok_del2
                               then kv1(pubkeyKindKey (cl_config l) (ev_pubkey ev) (ev_kind ev) := None) else kv1)
               else kv1)"

definition MultiGet :: "cache_link \<Rightarrow> bool \<Rightarrow> int \<Rightarrow> string list \<Rightarrow> event_kv \<Rightarrow> event list" where
  "MultiGet l ok now eids kv =
     (if \<not> cache_on l \<or> eids = [] \<or> \<not> ok then []
      else List.map_filter (\<lambda>eid. kv_get now (eventKey (cl_config l) eid) kv) eids)"

definition cache_Invalidate :: "cache_link \<Rightarrow> bool \<Rightarrow> string \<Rightarrow> int \<Rightarrow> event_kv \<Rightarrow> event_kv" where
  "cache_Invalidate l ok pk kind kv =
     (if \<not> cache_on l then kv
      else if isReplaceable kind \<and> ok then kv(pubkeyKindKey (cl_config l) pk kind := None) else kv)"

definition WarmCache :: "cache_link \<Rightarrow> bool \<Rightarrow> int \<Rightarrow> event list \<Rightarrow> event_kv \<Rightarrow> nat \<times> event_kv" where
  "WarmCache l ok now evs kv =
     (if \<not> cache_on l then (0, kv)
      else fold (\<lambda>ev (n, kv). if IsCacheable (ev_kind ev) then (Suc n, cache_Set l ok ok now ev kv) else (n, kv)) evs (0, kv))"

section \<open>The query handler\<close>

record query_env =
  qe_cache :: "cache_link option"
  qe_up :: bool
  qe_search :: "(nfilter \<Rightarrow> event list option) option"
  qe_db :: "nfilter \<Rightarrow> event list option"

definition cached_answer :: "query_env \<Rightarrow> reqctx \<Rightarrow> nfilter \<Rightarrow> event_kv \<Rightarrow> event option" where
  "cached_answer e ctx f kv =
     (case qe_cache e of
        None \<Rightarrow> None
      | Some l \<Rightarrow>
          (case (if length (f_ids f) = 1 \<and> f_authors f = [] \<and> f_kinds f = []
                 then cache_Get l (qe_up e) (ctx_now ctx) (hd (f_ids f)) kv else None) of
             Some ev \<Rightarrow> Some ev
           | None \<Rightarrow>
               if length (f_authors f) = 1 \<and> f_kinds f = [0]
               then GetProfile l (qe_up e) (ctx_now ctx) (hd (f_authors f)) kv else None))"

definition source_of :: "query_env \<Rightarrow> nfilter \<Rightarrow> event list option" where
  "source_of e f =
     (if f_search f \<noteq> '''' then (case qe_search e of None \<Rightarrow> Some [] | Some sb \<Rightarrow> sb f) else qe_db e f)"

definition keep_cacheable :: "query_env \<Rightarrow> reqctx \<Rightarrow> event \<Rightarrow> event_kv \<Rightarrow> event_kv" where
  "keep_cacheable e ctx ev kv =
     (case qe_cache e of
        None \<Rightarrow> kv
      | Some l \<Rightarrow> if IsCacheable (ev_kind ev) then cache_Set l (qe_up e) (qe_up e) (ctx_now ctx) ev kv else kv)"

text \<open>An answer that is read to its end.\<close>

definition relay_query :: "query_env \<Rightarrow> reqctx \<Rightarrow> nfilter \<Rightarrow> event_kv \<Rightarrow> event list option \<times> event_kv" where
  "relay_query e ctx f kv =
     (case cached_answer e ctx f kv of
        Some ev \<Rightarrow> (Some [ev], kv)
      | None \<Rightarrow>
          (case source_of e f of
             None \<Rightarrow> (None, kv)
           | Some src \<Rightarrow>
               (let live = filter (\<lambda>ev. \<not> IsExpired ctx ev) src
                in (Some live, fold (keep_cacheable e ctx) live kv))))"

section \<open>The relay document\<close>

definition supportedNIPs :: "group_config \<Rightarrow> feature_config \<Rightarrow> int list" where
  "supportedNIPs g feat =
     [1, 9, 11, 13, 17, 22] @ (if GroupsEnabled g \<and> GroupsSecretKey g \<noteq> '''' then [29] else [])
     @ [33, 40, 42, 45, 46] @ (if SearchEnabled feat then [50] else []) @ [57, 59]
     @ (if NIP66Enabled feat then [66] else []) @ [70, 77, 86, 94]"

record limitation =
  MaxMessageLength :: int
  MinPowDifficulty :: int
  AuthRequired :: bool
  CreatedAtUpperLimit :: int
  RestrictedWrites :: bool

definition buildLimitation :: "limit_config \<Rightarrow> access_config \<Rightarrow> limitation" where
  "buildLimitation l acc =
     \<lparr>MaxMessageLength = MaxMessageSize l, MinPowDifficulty = MinPoWDifficulty l,
      AuthRequired = (AuthPolicy acc = ''auth-write'' \<or> AuthPolicy acc = ''auth-read'' \<or> AuthPolicy acc = ''auth-all''),
      CreatedAtUpperLimit = (if MaxCreatedAtFuture l > 0 then MaxCreatedAtFuture l else 0),
      RestrictedWrites = (WriteWhitelistPubkeys acc \<noteq> [])\<rparr>"

section \<open>Facts\<close>

text \<open>Every entry of the cache is an event some answer has read from its source, kept at most 15 minutes.\<close>

type_synonym query_log = "(query_env \<times> reqctx \<times> nfilter) list"

definition kv_after :: "query_log \<Rightarrow> event_kv" where
  "kv_after qs = fold (\<lambda>(e, ctx, f) kv. snd (relay_query e ctx f kv)) qs Map.empty"

definition default_cache :: "query_env \<Rightarrow> bool" where
  "default_cache e \<longleftrightarrow> (case qe_cache e of None \<Rightarrow> True | Some l \<Rightarrow> cl_config l = eventcache_DefaultConfig)"

definition read_by :: "query_env \<times> reqctx \<times> nfilter \<Rightarrow> event \<Rightarrow> int \<Rightarrow> bool" where
  "read_by q ev t = (case q of (e, ctx, f) \<Rightarrow>
     (case source_of e f of None \<Rightarrow> False
      | Some src \<Rightarrow> ev \<in> set src \<and> \<not> IsExpired ctx ev \<and> t \<le> ctx_now ctx + 900 * ns_per_sec))"

definition kv_ok :: "query_log \<Rightarrow> event_kv \<Rightarrow> bool" where
  "kv_ok qs kv \<longleftrightarrow> (\<forall>k ev t. kv k = Some (ev, t) \<longrightarrow> (\<exists>q \<in> set qs. read_by q ev t))"

lemma cache_Set_cases:
  "cache_Set l ok1 ok2 now ev kv k = Some (x, t) \<Longrightarrow> cl_config l = eventcache_DefaultConfig \<Longrightarrow>
   kv k = Some (x, t) \<or> (x = ev \<and> t \<le> now + 900 * ns_per_sec)"
  by (auto simp: cache_Set_def Let_def getTTL_def eventcache_DefaultConfig_def split: if_splits)

lemma keep_cacheable_cases:
  "keep_cacheable e ctx ev kv k = Some (x, t) \<Longrightarrow> default_cache e \<Longrightarrow>
   kv k = Some (x, t) \<or> (x = ev \<and> t \<le> ctx_now ctx + 900 * ns_per_sec)"
  by (auto simp: keep_cacheable_def default_cache_def dest: cache_Set_cases split: option.splits if_splits)

lemma fold_keep_cases:
  "fold (keep_cacheable e ctx) evs kv k = Some (x, t) \<Longrightarrow> default_cache e \<Longrightarrow>
   kv k = Some (x, t) \<or> (x \<in> set evs \<and> t \<le> ctx_now ctx + 900 * ns_per_sec)"
  by (induction evs arbitrary: kv) (fastforce dest: keep_cacheable_cases)+

lemma relay_query_ok:
  assumes "kv_ok qs kv" "default_cache e"
  shows "kv_ok (qs @ [(e, ctx, f)]) (snd (relay_query e ctx f kv))"
proof (cases "cached_answer e ctx f kv")
  case (Some ev)
  with assms(1) show ?thesis by (auto simp: relay_query_def kv_ok_def)
next
  case None
  show ?thesis
  proof (cases "source_of e f")
    case None
    with \<open>cached_answer e ctx f kv = None\<close> assms(1) show ?thesis by (auto simp: relay_query_def kv_ok_def)
  next
    case (Some src)
    with None have kv: "snd (relay_query e ctx f kv) = fold (keep_cacheable e ctx) (filter (\<lambda>ev. \<not> IsExpired ctx ev) src) kv"
      by (simp add: relay_query_def Let_def)
    show ?thesis unfolding kv_ok_def kv
    proof (intro allI impI)
      fix k ev t assume "fold (keep_cacheable e ctx) (filter (\<lambda>ev. \<not> IsExpired ctx ev) src) kv k = Some (ev, t)"
      from fold_keep_cases [OF this assms(2)] assms(1) Some
      show "\<exists>q \<in> set (qs @ [(e, ctx, f)]). read_by q ev t" by (fastforce simp: kv_ok_def read_by_def)
    qed
  qed
qed

lemma kv_after_ok: "list_all (\<lambda>(e, _, _). default_cache e) qs \<Longrightarrow> kv_ok qs (kv_after qs)"
proof (induction qs rule: rev_induct)
  case (snoc q qs)
  obtain e ctx f where q: "q = (e, ctx, f)" using prod_cases3 by blast
  from snoc q have "kv_ok qs (kv_after qs)" "default_cache e" by auto
  from relay_query_ok [OF this] show ?case by (simp add: q kv_after_def)
qed (simp add: kv_after_def kv_ok_def)

lemma kv_get_entry: "kv_get now k kv = Some ev \<Longrightarrow> \<exists>k t. kv k = Some (ev, t) \<and> now < t"
  by (rule exI [of _ k]) (auto simp: kv_get_def split: option.splits if_splits)

lemma cached_answer_entry:
  "cached_answer e ctx f kv = Some ev \<Longrightarrow> \<exists>k t. kv k = Some (ev, t) \<and> ctx_now ctx < t"
  by (auto simp: cached_answer_def cache_Get_def GetProfile_def GetByPubkeyKind_def dest: kv_get_entry split: option.splits if_splits)

section \<open>Properties\<close>

text \<open>What a query answers: either the one cached event, or the events of its source in their order without
  the expired ones; and a cached event is one that the source of an earlier query held, unexpired then, at
  most fifteen minutes ago.\<close>

theorem query_answers_are_recent:
  assumes "list_all (\<lambda>(e, _, _). default_cache e) qs"
    and "relay_query e ctx f (kv_after qs) = (Some evs, kv')"
  shows "(\<exists>src. source_of e f = Some src \<and> evs = filter (\<lambda>ev. \<not> IsExpired ctx ev) src) \<or>
    (\<exists>ev. evs = [ev] \<and> (\<exists>(e0, ctx0, f0) \<in> set qs. \<exists>src. source_of e0 f0 = Some src \<and> ev \<in> set src \<and>
       \<not> IsExpired ctx0 ev \<and> ctx_now ctx < ctx_now ctx0 + 900 * ns_per_sec))"
proof (cases "cached_answer e ctx f (kv_after qs)")
  case None
  with assms(2) show ?thesis by (auto simp: relay_query_def Let_def split: option.splits)
next
  case (Some ev)
  from cached_answer_entry [OF this] obtain k t where "kv_after qs k = Some (ev, t)" "ctx_now ctx < t" by blast
  with kv_after_ok [OF assms(1)] obtain q where q: "q \<in> set qs" "read_by q ev t" unfolding kv_ok_def by blast
  obtain e0 ctx0 f0 where "q = (e0, ctx0, f0)" using prod_cases3 by blast
  with q \<open>ctx_now ctx < t\<close> have "\<exists>(e0, ctx0, f0) \<in> set qs. \<exists>src. source_of e0 f0 = Some src \<and> ev \<in> set src \<and>
       \<not> IsExpired ctx0 ev \<and> ctx_now ctx < ctx_now ctx0 + 900 * ns_per_sec"
    by (intro bexI [of _ q]) (auto simp: read_by_def split: option.splits)
  moreover have "evs = [ev]" using Some assms(2) by (simp add: relay_query_def)
  ultimately show ?thesis by blast
qed

definition cached_env :: "event list \<Rightarrow> query_env" where
  "cached_env stored = \<lparr>qe_cache = Some \<lparr>cl_config = eventcache_DefaultConfig, cl_have = True\<rparr>, qe_up = True, qe_search = None,
     qe_db = (\<lambda>_. Some stored)\<rparr>"

definition profile :: event where
  "profile = \<lparr>ev_id = ''p1'', ev_pubkey = ''ann'', ev_created_at = 0, ev_kind = 0, ev_tags = [[''expiration'', ''100'']], ev_content = ''''\<rparr>"

definition by_id :: "string \<Rightarrow> nfilter" where
  "by_id i = \<lparr>f_ids = [i], f_authors = [], f_kinds = [], f_tags = Map.empty, f_search = ''''\<rparr>"

definition read_at :: "int \<Rightarrow> reqctx" where
  "read_at secs = \<lparr>ctx_authed = '''', ctx_ip = '''', ctx_now = secs * ns_per_sec\<rparr>"

lemma profile_expiration: "expiration_scan (ev_tags profile) = 100"
  by (simp add: profile_def) code_simp

lemmas query_eval = relay_query_def cached_answer_def cached_env_def by_id_def read_at_def cache_Get_def cache_on_def source_of_def
  eventcache_DefaultConfig_def keep_cacheable_def IsCacheable_def CacheableKinds_def cache_Set_def kv_get_def getTTL_def eventKey_def
  pubkeyKindKey_def isReplaceable_def IsExpired_def GetExpiration_def now_unix_def profile_expiration Let_def

lemma query_answers_are_recent_witness:
  "\<exists>evs. fst (relay_query (cached_env []) (read_at 60) (by_id ''p1'') (kv_after [(cached_env [profile], read_at 10, by_id ''p1'')])) = Some evs
     \<and> (evs = [] \<or> evs = [profile])"
proof -
  let ?qs = "[(cached_env [profile], read_at 10, by_id ''p1'')]"
  let ?r = "relay_query (cached_env []) (read_at 60) (by_id ''p1'') (kv_after ?qs)"
  have ok: "list_all (\<lambda>(e, _, _). default_cache e) ?qs" by (simp add: default_cache_def cached_env_def)
  obtain evs kv' where r: "?r = (Some evs, kv')"
    by (cases "cached_answer (cached_env []) (read_at 60) (by_id ''p1'') (kv_after ?qs)")
      (auto simp: relay_query_def source_of_def cached_env_def by_id_def)
  from query_answers_are_recent [OF ok r] r show ?thesis
    by (auto simp: source_of_def cached_env_def by_id_def)
qed

text \<open>Deleting an event does not reach the cache: after the store has lost it, a query by its id is still answered
  with it.\<close>

theorem deleted_event_served_from_cache:
  "fst (relay_query (cached_env []) (read_at 60) (by_id ''p1'')
     (snd (relay_query (cached_env [profile]) (read_at 10) (by_id ''p1'') Map.empty))) = Some [profile]"
  by (simp add: query_eval) (simp add: profile_def)

text \<open>The expiration filter does not cover cached answers: an event whose expiration has passed is still served
  from the cache, while the store's own answer leaves it out.\<close>

theorem expired_event_served_from_cache:
  "IsExpired (read_at 200) profile \<and>
   fst (relay_query (cached_env [profile]) (read_at 200) (by_id ''p1'') Map.empty) = Some [] \<and>
   fst (relay_query (cached_env [profile]) (read_at 200) (by_id ''p1'')
     (snd (relay_query (cached_env [profile]) (read_at 10) (by_id ''p1'') Map.empty))) = Some [profile]"
proof (intro conjI)
  show "IsExpired (read_at 200) profile" by (simp add: query_eval)
  show "fst (relay_query (cached_env [profile]) (read_at 200) (by_id ''p1'') Map.empty) = Some []" by (simp add: query_eval)
  show "fst (relay_query (cached_env [profile]) (read_at 200) (by_id ''p1'')
     (snd (relay_query (cached_env [profile]) (read_at 10) (by_id ''p1'') Map.empty))) = Some [profile]"
    by (simp add: query_eval) (simp add: profile_def)
qed

text \<open>The relay document says that authentication is required exactly when the configuration puts an
  authentication gate on writing or on reading.\<close>

theorem auth_required_is_truthful:
  assumes "parseAuthConfig acc = Some cfg"
  shows "AuthRequired (buildLimitation l acc) \<longleftrightarrow>
    auth_event_gates (Some cfg) ctx ev \<noteq> [] \<or> auth_filter_gates (Some cfg) ctx f \<noteq> []"
  using assms by (auto simp: buildLimitation_def parseAuthConfig_def auth_event_gates_def auth_filter_gates_def auth_config_of_def
      Let_def split: if_splits)

lemma auth_required_is_truthful_witness: "AuthRequired (buildLimitation (load_limits (\<lambda>_. '''')) write_only)"
  using auth_required_is_truthful [of write_only "\<lparr>auth_policy = PolicyAuthWrite, auth_whitelist = [], auth_exempt = [24133]\<rparr>"
      "load_limits (\<lambda>_. '''')" "read_at 0" profile "by_id ''''"]
  by (simp add: parseAuthConfig_def write_only_def auth_event_gates_def auth_config_of_def)

text \<open>It also says that writes are restricted whenever a whitelist is set, although under the open policy and
  under the read policy nothing consults the whitelist.\<close>

theorem restricted_writes_without_a_gate:
  "RestrictedWrites (buildLimitation l (write_only\<lparr>AuthPolicy := ''auth-read'', WriteWhitelistPubkeys := [''a'']\<rparr>)) \<and>
   list_all accepted (auth_event_gates (parseAuthConfig (write_only\<lparr>AuthPolicy := ''auth-read'', WriteWhitelistPubkeys := [''a'']\<rparr>)) ctx ev)"
  by (simp add: buildLimitation_def parseAuthConfig_def write_only_def auth_event_gates_def auth_config_of_def)

end
