(* ===== verification/Write_Ahead.thy ===== *)
theory Write_Ahead
  imports Nostr_Data "HOL-Library.Multiset"
begin

text \<open>
  internal/writeahead: accepted events are pushed on a Redis list and drained into the store. The
  queue holds the decoded entries (JSON is taken to be invertible). The store's SaveEvent and every
  Redis command are parameters that succeed or fail; a command of Redis that fails may have taken effect
  all the same (its reply was lost). The fields after the counters are ghosts: what was saved from the
  queue by the drains, what they discarded, the entries lost between the list and the process, and what the
  shutdown saved and gave up.
\<close>

section \<open>State\<close>

record wal_config =
  wal_Enabled :: bool
  wal_BatchSize :: nat
  wal_MaxRetries :: int
  wal_EventTTL :: int

definition wal_DefaultConfig :: wal_config where
  "wal_DefaultConfig = \<lparr>wal_Enabled = True, wal_BatchSize = 100, wal_MaxRetries = 3, wal_EventTTL = 24 * 3600 * ns_per_sec\<rparr>"

record walEvent =
  wv_Event :: event
  wv_Timestamp :: int
  wv_Retries :: int

record wal_state =
  wal_queue :: "walEvent list"
  statsWritten :: int
  statsDrained :: int
  statsFailed :: int
  wal_saved :: "event list"
  wal_dropped :: "event list"
  wal_lost :: "event list"
  wal_flushed :: "event list"
  wal_abandoned :: "event list"

definition empty_wal :: wal_state where
  "empty_wal = \<lparr>wal_queue = [], statsWritten = 0, statsDrained = 0, statsFailed = 0, wal_saved = [], wal_dropped = [],
    wal_lost = [], wal_flushed = [], wal_abandoned = []\<rparr>"

text \<open>The answer of Redis to a command: done, or an error, with the command executed or not.\<close>

datatype redis_reply = Redis_ok | Redis_error bool

fun executed :: "redis_reply \<Rightarrow> bool" where
  "executed Redis_ok = True"
| "executed (Redis_error b) = b"

section \<open>Writing\<close>

text \<open>How a write ended: queued, written to the store directly, or an error.\<close>

datatype write_result = Queued | SavedDirectly | WriteError

definition rpush :: "redis_reply \<Rightarrow> walEvent \<Rightarrow> wal_state \<Rightarrow> wal_state" where
  "rpush r w s = (if executed r then s\<lparr>wal_queue := wal_queue s @ [w]\<rparr> else s)"

definition wal_Write :: "wal_config \<Rightarrow> bool \<Rightarrow> redis_reply \<Rightarrow> bool \<Rightarrow> int \<Rightarrow> event \<Rightarrow> wal_state \<Rightarrow> write_result \<times> wal_state" where
  "wal_Write cfg have_rdb push save_ok now ev s =
     (if \<not> have_rdb \<or> \<not> wal_Enabled cfg then (if save_ok then SavedDirectly else WriteError, s)
      else let s' = rpush push \<lparr>wv_Event = ev, wv_Timestamp = now, wv_Retries = 0\<rparr> s in
        if push \<noteq> Redis_ok then (if save_ok then SavedDirectly else WriteError, s')
        else (Queued, s'\<lparr>statsWritten := statsWritten s' + 1\<rparr>))"

section \<open>Draining\<close>

record drain_faults =
  df_now :: int
  df_pop :: redis_reply
  df_save :: bool
  df_requeue :: redis_reply

text \<open>
  One round of the loop is two steps: \<open>LPop\<close> takes the entry off the list, and only then is it
  saved, queued again or discarded.
\<close>

definition drain_pop :: "drain_faults \<Rightarrow> wal_state \<Rightarrow> walEvent option \<times> wal_state" where
  "drain_pop flt s =
     (case wal_queue s of
        [] \<Rightarrow> (None, s)
      | w # ws \<Rightarrow>
          (case df_pop flt of
             Redis_ok \<Rightarrow> (Some w, s\<lparr>wal_queue := ws\<rparr>)
           | Redis_error taken \<Rightarrow> (None, if taken then s\<lparr>wal_queue := ws, wal_lost := wal_lost s @ [wv_Event w]\<rparr> else s)))"

definition wal_discard :: "event \<Rightarrow> wal_state \<Rightarrow> wal_state" where
  "wal_discard ev s = s\<lparr>statsFailed := statsFailed s + 1, wal_dropped := wal_dropped s @ [ev]\<rparr>"

definition wal_drained :: "event \<Rightarrow> wal_state \<Rightarrow> wal_state" where
  "wal_drained ev s = s\<lparr>statsDrained := statsDrained s + 1, wal_saved := wal_saved s @ [ev]\<rparr>"

definition drain_finish :: "wal_config \<Rightarrow> drain_faults \<Rightarrow> walEvent \<Rightarrow> wal_state \<Rightarrow> wal_state" where
  "drain_finish cfg flt w s =
     (if df_now flt - wv_Timestamp w > wal_EventTTL cfg then wal_discard (wv_Event w) s
      else if \<not> df_save flt then
        (let w' = w\<lparr>wv_Retries := wv_Retries w + 1\<rparr> in
         if wv_Retries w' < wal_MaxRetries cfg
         then (let s' = rpush (df_requeue flt) w' s in
               if executed (df_requeue flt) then s' else s'\<lparr>wal_lost := wal_lost s' @ [wv_Event w]\<rparr>)
         else wal_discard (wv_Event w) s)
      else wal_drained (wv_Event w) s)"

text \<open>\<open>drainBatch\<close>: up to \<open>BatchSize\<close> rounds; \<open>flts i\<close> are the faults of round \<open>i\<close>.\<close>

fun drain_rounds :: "wal_config \<Rightarrow> (nat \<Rightarrow> drain_faults) \<Rightarrow> nat \<Rightarrow> nat \<Rightarrow> wal_state \<Rightarrow> wal_state" where
  "drain_rounds cfg flts i 0 s = s"
| "drain_rounds cfg flts i (Suc n) s =
     (case drain_pop (flts i) s of
        (None, s') \<Rightarrow> s'
      | (Some w, s') \<Rightarrow> drain_rounds cfg flts (Suc i) n (drain_finish cfg (flts i) w s'))"

definition drainBatch :: "wal_config \<Rightarrow> bool \<Rightarrow> (nat \<Rightarrow> drain_faults) \<Rightarrow> wal_state \<Rightarrow> wal_state" where
  "drainBatch cfg have flts s = (if \<not> have then s else drain_rounds cfg flts 0 (wal_BatchSize cfg) s)"

text \<open>\<open>drainAll\<close>, at shutdown: until the list is empty or a pop fails; a failed save is only
  logged.\<close>

function drain_all_rounds :: "(nat \<Rightarrow> drain_faults) \<Rightarrow> nat \<Rightarrow> nat \<Rightarrow> wal_state \<Rightarrow> nat \<times> wal_state" where
  "drain_all_rounds flts i n s =
     (case drain_pop (flts i) s of
        (None, s') \<Rightarrow> (n, s')
      | (Some w, s') \<Rightarrow>
          if df_save (flts i) then drain_all_rounds flts (Suc i) (Suc n) (s'\<lparr>wal_flushed := wal_flushed s' @ [wv_Event w]\<rparr>)
          else drain_all_rounds flts (Suc i) n (s'\<lparr>wal_abandoned := wal_abandoned s' @ [wv_Event w]\<rparr>))"
  by pat_completeness auto
termination
  by (relation "measure (\<lambda>(flts, i, n, s). length (wal_queue s))")
    (auto simp: drain_pop_def split: redis_reply.splits list.splits)

declare drain_all_rounds.simps [simp del]

definition drainAll :: "bool \<Rightarrow> (nat \<Rightarrow> drain_faults) \<Rightarrow> wal_state \<Rightarrow> nat \<times> wal_state" where
  "drainAll have flts s = (if \<not> have then (0, s) else drain_all_rounds flts 0 0 s)"

definition QueueLength :: "bool \<Rightarrow> bool \<Rightarrow> wal_state \<Rightarrow> int option" where
  "QueueLength have ok s = (if \<not> have then Some 0 else if \<not> ok then None else Some (int (length (wal_queue s))))"

definition IsHealthy :: "bool \<Rightarrow> bool \<Rightarrow> wal_state \<Rightarrow> bool" where
  "IsHealthy have ok s = (case QueueLength have ok s of None \<Rightarrow> False | Some n \<Rightarrow> n < 10000)"

text \<open>\<open>GetStats\<close>: a failed \<open>LLen\<close> reports an empty list.\<close>

record wal_stats =
  st_Written :: int
  st_Drained :: int
  st_Failed :: int
  st_QueueLength :: int

definition wal_GetStats :: "bool \<Rightarrow> bool \<Rightarrow> wal_state \<Rightarrow> wal_stats" where
  "wal_GetStats have ok s =
     \<lparr>st_Written = statsWritten s, st_Drained = statsDrained s, st_Failed = statsFailed s,
      st_QueueLength = (case QueueLength have ok s of None \<Rightarrow> 0 | Some l \<Rightarrow> l)\<rparr>"

section \<open>Facts\<close>

text \<open>The bookkeeping: every event put on the list is on it, or in one of the five ghosts.\<close>

definition accounted :: "wal_state \<Rightarrow> event multiset" where
  "accounted s = mset (map wv_Event (wal_queue s)) + mset (wal_saved s) + mset (wal_dropped s)
     + mset (wal_lost s) + mset (wal_flushed s) + mset (wal_abandoned s)"

definition wal_inv :: "wal_config \<Rightarrow> wal_state \<Rightarrow> bool" where
  "wal_inv cfg s \<longleftrightarrow> (\<forall>w \<in> set (wal_queue s). 0 \<le> wv_Retries w \<and> wv_Retries w < wal_MaxRetries cfg) \<and>
     statsFailed s = int (length (wal_dropped s)) \<and> statsDrained s = int (length (wal_saved s))"

text \<open>What a step that only moves entries keeps.\<close>

definition moves :: "wal_config \<Rightarrow> wal_state \<Rightarrow> wal_state \<Rightarrow> bool" where
  "moves cfg s s' \<longleftrightarrow> (wal_inv cfg s \<longrightarrow> wal_inv cfg s') \<and> accounted s' = accounted s \<and> statsWritten s' = statsWritten s"

lemma moves_refl [simp]: "moves cfg s s"
  by (simp add: moves_def)

lemma moves_trans [trans]: "moves cfg s t \<Longrightarrow> moves cfg t u \<Longrightarrow> moves cfg s u"
  by (simp add: moves_def)

lemma failed_pop_moves: "drain_pop flt s = (None, s') \<Longrightarrow> moves cfg s s'"
  by (auto simp: drain_pop_def moves_def wal_inv_def accounted_def split: list.splits redis_reply.splits if_splits)

lemma drain_round_moves:
  assumes "drain_pop flt s = (Some w, s')"
  shows "moves cfg s (drain_finish cfg flt w s')"
  using assms
  by (cases "df_requeue flt")
    (auto simp: drain_pop_def drain_finish_def moves_def wal_inv_def accounted_def wal_discard_def wal_drained_def rpush_def Let_def
      split: if_splits list.splits redis_reply.splits)

lemma drain_rounds_moves: "moves cfg s (drain_rounds cfg flts i n s)"
proof (induction n arbitrary: i s)
  case (Suc n)
  obtain r s' where p: "drain_pop (flts i) s = (r, s')" by fastforce
  show ?case
  proof (cases r)
    case None
    with p failed_pop_moves show ?thesis by simp
  next
    case (Some w)
    with p drain_round_moves [of "flts i" s w s' cfg] Suc.IH [of "drain_finish cfg (flts i) w s'" "Suc i"]
    show ?thesis by (auto intro: moves_trans)
  qed
qed simp

lemma drain_all_moves: "moves cfg s (snd (drain_all_rounds flts i c s))"
proof (induction flts i c s rule: drain_all_rounds.induct)
  case (1 flts i c s)
  obtain r s' where p: "drain_pop (flts i) s = (r, s')" by fastforce
  show ?case
  proof (cases r)
    case None
    with p failed_pop_moves show ?thesis by (subst drain_all_rounds.simps) simp
  next
    case (Some w)
    let ?t = "if df_save (flts i) then s'\<lparr>wal_flushed := wal_flushed s' @ [wv_Event w]\<rparr> else s'\<lparr>wal_abandoned := wal_abandoned s' @ [wv_Event w]\<rparr>"
    have "moves cfg s ?t" using p Some
      by (auto simp: drain_pop_def moves_def wal_inv_def accounted_def split: list.splits redis_reply.splits)
    moreover have "moves cfg ?t (snd (drain_all_rounds flts (Suc i) (if df_save (flts i) then Suc c else c) ?t))"
      using 1 p Some by (cases "df_save (flts i)") auto
    ultimately show ?thesis using p Some by (subst drain_all_rounds.simps) (auto intro: moves_trans)
  qed
qed

lemma drain_all_empties:
  "(\<And>j. df_pop (flts j) = Redis_ok) \<Longrightarrow> wal_queue (snd (drain_all_rounds flts i c s)) = [] \<and>
     wal_lost (snd (drain_all_rounds flts i c s)) = wal_lost s \<and>
     fst (drain_all_rounds flts i c s) + length (wal_flushed s) = c + length (wal_flushed (snd (drain_all_rounds flts i c s)))"
proof (induction flts i c s rule: drain_all_rounds.induct)
  case (1 flts i c s)
  show ?case
  proof (cases "wal_queue s")
    case Nil
    then show ?thesis by (subst (1 2 3 4) drain_all_rounds.simps) (simp add: drain_pop_def)
  next
    case (Cons w ws)
    then have pop: "drain_pop (flts i) s = (Some w, s\<lparr>wal_queue := ws\<rparr>)" using 1(3) by (simp add: drain_pop_def)
    show ?thesis
    proof (cases "df_save (flts i)")
      case True
      with 1(1) [OF pop [symmetric] refl True] 1(3) pop show ?thesis
        by (subst (1 2 3 4) drain_all_rounds.simps) simp
    next
      case False
      with 1(2) [OF pop [symmetric] refl False] 1(3) pop show ?thesis
        by (subst (1 2 3 4) drain_all_rounds.simps) simp
    qed
  qed
qed

text \<open>Any sequence of writes, drains and shutdowns.\<close>

datatype wal_op = WriteOp redis_reply bool int event | DrainOp "nat \<Rightarrow> drain_faults" | StopOp "nat \<Rightarrow> drain_faults"

fun wal_do :: "wal_config \<Rightarrow> wal_op \<Rightarrow> wal_state \<Rightarrow> wal_state" where
  "wal_do cfg (WriteOp push save_ok now ev) s = snd (wal_Write cfg True push save_ok now ev s)"
| "wal_do cfg (DrainOp flts) s = drainBatch cfg True flts s"
| "wal_do cfg (StopOp flts) s = snd (drainAll True flts s)"

definition wal_run :: "wal_config \<Rightarrow> wal_op list \<Rightarrow> wal_state" where
  "wal_run cfg ops = fold (wal_do cfg) ops empty_wal"

text \<open>The events a run puts on the list, and those whose push was acknowledged.\<close>

fun pushed_by :: "wal_op \<Rightarrow> event list" where
  "pushed_by (WriteOp push save_ok now ev) = (if executed push then [ev] else [])"
| "pushed_by _ = []"

fun acked_by :: "wal_op \<Rightarrow> event list" where
  "acked_by (WriteOp push save_ok now ev) = (if push = Redis_ok then [ev] else [])"
| "acked_by _ = []"

lemma wal_do_inv:
  assumes "wal_Enabled cfg" "wal_MaxRetries cfg > 0" "wal_inv cfg s"
  shows "wal_inv cfg (wal_do cfg op s) \<and> accounted (wal_do cfg op s) = accounted s + mset (pushed_by op) \<and>
    statsWritten (wal_do cfg op s) = statsWritten s + int (length (acked_by op))"
proof (cases op)
  case (WriteOp push save_ok now ev)
  with assms show ?thesis by (auto simp: wal_Write_def wal_inv_def accounted_def rpush_def Let_def)
next
  case (DrainOp flts)
  with assms drain_rounds_moves [of cfg s flts 0 "wal_BatchSize cfg"] show ?thesis by (simp add: drainBatch_def moves_def)
next
  case (StopOp flts)
  with assms drain_all_moves [of cfg s flts 0 0] show ?thesis by (simp add: drainAll_def moves_def)
qed

lemma wal_run_inv:
  assumes "wal_Enabled cfg" "wal_MaxRetries cfg > 0"
  shows "wal_inv cfg (wal_run cfg ops) \<and> accounted (wal_run cfg ops) = mset (concat (map pushed_by ops)) \<and>
    statsWritten (wal_run cfg ops) = int (length (concat (map acked_by ops)))"
proof (induction ops rule: rev_induct)
  case Nil
  then show ?case by (simp add: wal_run_def wal_inv_def accounted_def empty_wal_def)
next
  case (snoc op ops)
  with wal_do_inv [OF assms, of "wal_run cfg ops" op] show ?case by (simp add: wal_run_def)
qed

text \<open>Nothing is lost between list and process while Redis answers.\<close>

fun redis_answers :: "wal_op \<Rightarrow> bool" where
  "redis_answers (WriteOp push save_ok now ev) \<longleftrightarrow> push = Redis_ok"
| "redis_answers (DrainOp flts) \<longleftrightarrow> (\<forall>j. df_pop (flts j) = Redis_ok \<and> df_requeue (flts j) = Redis_ok)"
| "redis_answers (StopOp flts) \<longleftrightarrow> (\<forall>j. df_pop (flts j) = Redis_ok)"

lemma drain_rounds_lost:
  "(\<And>j. df_pop (flts j) = Redis_ok \<and> df_requeue (flts j) = Redis_ok) \<Longrightarrow> wal_lost (drain_rounds cfg flts i n s) = wal_lost s"
proof (induction n arbitrary: i s)
  case (Suc n)
  show ?case
  proof (cases "wal_queue s")
    case Nil
    then show ?thesis by (simp add: drain_pop_def)
  next
    case (Cons w ws)
    have "wal_lost (drain_finish cfg (flts i) w (s\<lparr>wal_queue := ws\<rparr>)) = wal_lost s"
      using Suc.prems by (simp add: drain_finish_def wal_discard_def wal_drained_def rpush_def Let_def)
    with Suc Cons show ?thesis by (simp add: drain_pop_def)
  qed
qed simp

lemma wal_run_lost: "list_all redis_answers ops \<Longrightarrow> wal_lost (wal_run cfg ops) = []"
proof (induction ops rule: rev_induct)
  case (snoc op ops)
  have "wal_lost (wal_do cfg op s) = wal_lost s" if "redis_answers op" for s
    using that drain_all_empties
    by (cases op) (auto simp: wal_Write_def drainBatch_def drainAll_def drain_rounds_lost rpush_def Let_def)
  with snoc show ?case by (simp add: wal_run_def)
qed (simp add: wal_run_def empty_wal_def)

lemma drain_rounds_healthy:
  assumes "\<And>j. df_pop (flts j) = Redis_ok \<and> df_save (flts j)"
  shows "(\<And>j w. w \<in> set (wal_queue s) \<Longrightarrow> df_now (flts j) - wv_Timestamp w \<le> wal_EventTTL cfg) \<Longrightarrow>
    wal_queue (drain_rounds cfg flts i n s) = drop n (wal_queue s) \<and>
    wal_saved (drain_rounds cfg flts i n s) = wal_saved s @ map wv_Event (take n (wal_queue s))"
proof (induction n arbitrary: i s)
  case (Suc n)
  show ?case
  proof (cases "wal_queue s")
    case Nil
    then show ?thesis by (simp add: drain_pop_def)
  next
    case (Cons w ws)
    obtain s' where s': "s' = wal_drained (wv_Event w) (s\<lparr>wal_queue := ws\<rparr>)" by simp
    have "df_now (flts i) - wv_Timestamp w \<le> wal_EventTTL cfg" using Suc.prems [of w i] Cons by simp
    then have "drain_rounds cfg flts i (Suc n) s = drain_rounds cfg flts (Suc i) n s'"
      using Cons assms [of i] by (simp add: drain_pop_def drain_finish_def s')
    moreover have "wal_queue s' = ws" "wal_saved s' = wal_saved s @ [wv_Event w]" by (simp_all add: s' wal_drained_def)
    ultimately show ?thesis using Suc.IH [of s' "Suc i"] Suc.prems Cons by simp
  qed
qed simp

section \<open>Properties\<close>

text \<open>C24: The log accounts for every event, whatever Redis, the store and the clock do, shutdowns included: the
  events put on the list are, as a multiset, those still on it, those the drains saved and those they
  discarded, those lost between the list and the process, and those the shutdown saved or gave up. The counters
  are the numbers of acknowledged pushes, of the drained and of the discarded events; the last three groups are
  counted nowhere. While Redis answers, nothing is lost between list and process; with no shutdown besides,
  the statistics add up to the events written.\<close>

theorem wal_accounts_for_every_event:
  assumes s: "s = wal_run wal_DefaultConfig ops"
  shows "mset (concat (map pushed_by ops)) = mset (map wv_Event (wal_queue s)) + mset (wal_saved s) + mset (wal_dropped s)
      + mset (wal_lost s) + mset (wal_flushed s) + mset (wal_abandoned s) \<and>
    wal_GetStats True True s = \<lparr>st_Written = int (length (concat (map acked_by ops))), st_Drained = int (length (wal_saved s)),
      st_Failed = int (length (wal_dropped s)), st_QueueLength = int (length (wal_queue s))\<rparr> \<and>
    (list_all redis_answers ops \<longrightarrow> wal_lost s = [] \<and>
      int (length (concat (map pushed_by ops))) = st_Written (wal_GetStats True True s) \<and>
      st_Written (wal_GetStats True True s) = st_Drained (wal_GetStats True True s) + st_Failed (wal_GetStats True True s)
        + st_QueueLength (wal_GetStats True True s) + int (length (wal_flushed s)) + int (length (wal_abandoned s)))"
proof -
  have "wal_Enabled wal_DefaultConfig" "wal_MaxRetries wal_DefaultConfig > 0" by (simp_all add: wal_DefaultConfig_def)
  from wal_run_inv [OF this, of ops] have inv: "wal_inv wal_DefaultConfig s"
    and acc: "accounted s = mset (concat (map pushed_by ops))"
    and wr: "statsWritten s = int (length (concat (map acked_by ops)))" by (simp_all add: s)
  have same: "concat (map pushed_by ops) = concat (map acked_by ops)" if "list_all redis_answers ops"
    using that by (induction ops) (auto elim!: redis_answers.elims)
  from acc have "size (accounted s) = length (concat (map pushed_by ops))" by (simp only: size_mset)
  with inv wr same have "int (length (concat (map acked_by ops))) = int (length (wal_saved s)) + int (length (wal_dropped s))
        + int (length (wal_queue s)) + int (length (wal_lost s)) + int (length (wal_flushed s)) + int (length (wal_abandoned s))"
    if "list_all redis_answers ops" using that by (simp add: accounted_def)
  with inv acc wr same wal_run_lost [of ops wal_DefaultConfig, folded s] show ?thesis
    by (simp add: wal_inv_def wal_GetStats_def QueueLength_def) (simp add: accounted_def)
qed

definition some_note :: event where
  "some_note = \<lparr>ev_id = ''n'', ev_pubkey = ''a'', ev_created_at = 0, ev_kind = 1, ev_tags = [], ev_content = ''''\<rparr>"

definition db_up :: "bool \<Rightarrow> nat \<Rightarrow> drain_faults" where
  "db_up ok i = \<lparr>df_now = 1, df_pop = Redis_ok, df_save = ok, df_requeue = Redis_ok\<rparr>"

lemma wal_accounts_for_every_event_witness:
  "st_Written (wal_GetStats True True (wal_run wal_DefaultConfig
     [WriteOp Redis_ok True 0 some_note, WriteOp Redis_ok True 1 some_note, DrainOp (db_up False), DrainOp (db_up True)])) = 2"
  using wal_accounts_for_every_event [OF refl, of "[WriteOp Redis_ok True 0 some_note, WriteOp Redis_ok True 1 some_note,
      DrainOp (db_up False), DrainOp (db_up True)]"]
  by (simp add: db_up_def)

text \<open>While the store works, one drain saves the first hundred events of the list in the order they were
  written and leaves the rest queued.\<close>

theorem healthy_drain_is_fifo:
  assumes "\<And>j. df_pop (flts j) = Redis_ok \<and> df_save (flts j)"
    and "\<And>j w. w \<in> set (wal_queue s) \<Longrightarrow> df_now (flts j) - wv_Timestamp w \<le> 24 * 3600 * ns_per_sec"
  shows "wal_queue (drainBatch wal_DefaultConfig True flts s) = drop 100 (wal_queue s) \<and>
    wal_saved (drainBatch wal_DefaultConfig True flts s) = wal_saved s @ map wv_Event (take 100 (wal_queue s))"
  using drain_rounds_healthy [of flts s wal_DefaultConfig 0 100] assms by (simp add: drainBatch_def wal_DefaultConfig_def)

lemma healthy_drain_is_fifo_witness:
  "wal_saved (drainBatch wal_DefaultConfig True (db_up True)
     (snd (wal_Write wal_DefaultConfig True Redis_ok True 0 some_note empty_wal))) = [some_note]"
  using healthy_drain_is_fifo [of "db_up True" "snd (wal_Write wal_DefaultConfig True Redis_ok True 0 some_note empty_wal)"]
  by (simp add: db_up_def wal_Write_def empty_wal_def wal_DefaultConfig_def rpush_def Let_def)

text \<open>The retries are not spread over time: one drain that finds the store down puts the entry back, pops it
  again at once and discards the acknowledged event after three rounds of the same drain.\<close>

theorem one_drain_burns_all_retries:
  "case wal_Write wal_DefaultConfig True Redis_ok True 0 some_note empty_wal of
     (r, s) \<Rightarrow> r = Queued \<and>
       wal_queue (drainBatch wal_DefaultConfig True (db_up False) s) = [] \<and>
       wal_saved (drainBatch wal_DefaultConfig True (db_up False) s) = [] \<and>
       wal_dropped (drainBatch wal_DefaultConfig True (db_up False) s) = [some_note]"
  by (simp add: wal_Write_def wal_DefaultConfig_def empty_wal_def drainBatch_def db_up_def drain_pop_def drain_finish_def
      wal_discard_def rpush_def Let_def eval_nat_numeral)

text \<open>An entry leaves the list before it is saved: a process that stops between the two steps has lost an
  event the client was told is stored, and nothing counts it.\<close>

theorem crash_after_pop_loses_event:
  "case wal_Write wal_DefaultConfig True Redis_ok True 0 some_note empty_wal of
     (r, s) \<Rightarrow> r = Queued \<and> accounted s = {#some_note#} \<and>
       accounted (snd (drain_pop (db_up True 0) s)) = {#} \<and> statsFailed (snd (drain_pop (db_up True 0) s)) = 0"
  by (simp add: wal_Write_def wal_DefaultConfig_def empty_wal_def db_up_def drain_pop_def accounted_def rpush_def Let_def)

text \<open>A failed save whose entry cannot be put back is lost as silently: the counters do not know of it.\<close>

theorem failed_requeue_loses_event:
  "case wal_Write wal_DefaultConfig True Redis_ok True 0 some_note empty_wal of
     (r, s) \<Rightarrow> (case drainBatch wal_DefaultConfig True (\<lambda>i. (db_up False i)\<lparr>df_requeue := Redis_error False\<rparr>) s of
       s' \<Rightarrow> wal_GetStats True True s' = \<lparr>st_Written = 1, st_Drained = 0, st_Failed = 0, st_QueueLength = 0\<rparr> \<and> wal_lost s' = [some_note])"
  by (simp add: wal_Write_def wal_DefaultConfig_def empty_wal_def drainBatch_def db_up_def drain_pop_def drain_finish_def rpush_def
      wal_GetStats_def QueueLength_def eval_nat_numeral Let_def)

text \<open>Shutdown empties the list: when the pops work, \<open>drainAll\<close> ends with nothing queued and nothing lost on
  the way, and the number it logs is that of the events it saved.\<close>

theorem shutdown_empties_the_log:
  assumes "\<And>j. df_pop (flts j) = Redis_ok"
  shows "wal_queue (snd (drainAll True flts s)) = [] \<and> wal_lost (snd (drainAll True flts s)) = wal_lost s \<and>
    accounted (snd (drainAll True flts s)) = accounted s \<and>
    length (wal_flushed (snd (drainAll True flts s))) = length (wal_flushed s) + fst (drainAll True flts s)"
  using drain_all_empties [of flts 0 0 s, OF assms] drain_all_moves [of wal_DefaultConfig s flts 0 0] by (simp add: drainAll_def moves_def)

lemma shutdown_empties_the_log_witness: "wal_queue (snd (drainAll True (db_up False) empty_wal)) = []"
  using shutdown_empties_the_log [of "db_up False" empty_wal] by (simp add: db_up_def)

end
