(* ===== verification/Event_Pipeline.thy ===== *)
theory Event_Pipeline
  imports Write_Gates Arbiter_Claims Trust_Gate Payments Haven_Gate Group_Scope
begin

text \<open>
  The whole chain of event checks that cmd/relay/main.go registers, in its order: the write gates,
  arbiter claims, the trust gate, zap receipts, join requests, protected events, relay discovery
  (internal/nip66), HAVEN, group metadata, relay29's group rules; and the two wrappers
  (internal/metrics, internal/middleware) that replace the chain by one handler. The arguments say
  which parts the configuration has switched on.
\<close>

section \<open>Relay discovery events\<close>

definition isValidRelayURL :: "string \<Rightarrow> bool" where
  "isValidRelayURL s \<longleftrightarrow> HasPrefix s ''wss://'' \<or> HasPrefix s ''ws://''"

definition isValidHexPubkey :: "string \<Rightarrow> bool" where
  "isValidHexPubkey s \<longleftrightarrow> length s = 64 \<and>
     list_all (\<lambda>c. (c \<ge> CHR ''0'' \<and> c \<le> CHR ''9'') \<or> (c \<ge> CHR ''a'' \<and> c \<le> CHR ''f'') \<or> (c \<ge> CHR ''A'' \<and> c \<le> CHR ''F'')) s"

definition validateRelayDiscovery :: "event \<Rightarrow> verdict" where
  "validateRelayDiscovery ev =
     (if ev_kind ev \<noteq> 30166 then Accept
      else let d = first_tag (ev_tags ev) ''d'' in
        if d = '''' then Reject ''invalid: kind 30166 requires 'd' tag with relay URL''
        else if \<not> isValidRelayURL d \<and> \<not> isValidHexPubkey d then Reject ''invalid: 'd' tag must be relay URL or hex pubkey''
        else Accept)"

section \<open>The chain\<close>

record pipeline_state =
  pl_write :: write_state
  pl_claims :: claim_table
  pl_wot :: wot_state

datatype haven_mode = NoHaven | SingleOwner Router | MultiUser Router "(event \<Rightarrow> string \<Rightarrow> FilterResult) option"

record 's pipeline =
  px_write :: write_env
  px_claim_faults :: claim_faults
  px_wot :: "(trust_handler \<times> wot_env) option"
  px_zaps :: "(zap_lib \<times> zap_config) option"
  px_join :: "(join_faults \<times> member_db) option"
  px_protected :: "protected_config option"
  px_nip66 :: bool
  px_haven :: haven_mode
  px_GetD :: "tag list \<Rightarrow> string"
  px_relay_pubkey :: string
  px_store :: querier
  px_groups :: "(groups \<times> string list \<times> bool \<times> 's relay29_hooks) option"

definition on_write :: "write_state gate \<Rightarrow> pipeline_state gate" where
  "on_write g s = (case g (pl_write s) of (v, w) \<Rightarrow> (v, s\<lparr>pl_write := w\<rparr>))"

definition on_claims :: "claim_table gate \<Rightarrow> pipeline_state gate" where
  "on_claims g s = (case g (pl_claims s) of (v, t) \<Rightarrow> (v, s\<lparr>pl_claims := t\<rparr>))"

definition on_wot :: "wot_state gate \<Rightarrow> pipeline_state gate" where
  "on_wot g s = (case g (pl_wot s) of (v, w) \<Rightarrow> (v, s\<lparr>pl_wot := w\<rparr>))"

definition claim_gate :: "'s pipeline \<Rightarrow> reqctx \<Rightarrow> event \<Rightarrow> pipeline_state gate" where
  "claim_gate p ctx ev = on_claims (reject_claim (NewStore DefaultSettleWindow) (px_claim_faults p) (ctx_now ctx div 1000000) ev)"

definition wot_gates :: "'s pipeline \<Rightarrow> reqctx \<Rightarrow> event \<Rightarrow> pipeline_state gate list" where
  "wot_gates p ctx ev = (case px_wot p of None \<Rightarrow> [] | Some (h, env) \<Rightarrow> [on_wot (RejectEventByTrust h env ctx ev)])"

definition haven_verdicts :: "haven_mode \<Rightarrow> reqctx \<Rightarrow> event \<Rightarrow> verdict list" where
  "haven_verdicts m ctx ev =
     (case m of NoHaven \<Rightarrow> [] | SingleOwner r \<Rightarrow> [haven_RejectEvent r ctx ev] | MultiUser r wot \<Rightarrow> [multi_RejectEvent r wot ctx ev])"

text \<open>The gates after the trust gate keep no state. The join handler is built with \<open>RequireInvite: false\<close>.\<close>

definition late_verdicts :: "'s pipeline \<Rightarrow> reqctx \<Rightarrow> event \<Rightarrow> verdict list" where
  "late_verdicts p ctx ev =
     (case px_zaps p of None \<Rightarrow> [] | Some (lib, cfg) \<Rightarrow> [RejectInvalidZapReceipt lib cfg ev])
     @ (case px_join p of None \<Rightarrow> [] | Some (flt, db) \<Rightarrow> [RejectJoinRequest False flt (ctx_now ctx) ev db])
     @ (case px_protected p of None \<Rightarrow> [] | Some cfg \<Rightarrow> [RejectProtectedEvent cfg ctx ev])
     @ (if px_nip66 p then [validateRelayDiscovery ev] else [])
     @ haven_verdicts (px_haven p) ctx ev
     @ [RejectExternalMetadata (px_GetD p) (px_relay_pubkey p) (Some (px_store p)) ev]
     @ (case px_groups p of None \<Rightarrow> [] | Some (st, admins, allow, r29) \<Rightarrow> wire_event_gates st admins allow r29 ev)"

definition main_gates :: "'s pipeline \<Rightarrow> reqctx \<Rightarrow> event \<Rightarrow> pipeline_state gate list" where
  "main_gates p ctx ev =
     map on_write (registerWriteGates (px_write p) ctx ev) @ [claim_gate p ctx ev] @ wot_gates p ctx ev
     @ map (\<lambda>v. pure_gate (\<lambda>_. v)) (late_verdicts p ctx ev)"

text \<open>\<open>RegisterRelayMetrics\<close> and then \<open>RegisterObservability\<close> each leave one handler.\<close>

definition wrapped :: "'s gate list \<Rightarrow> 's gate list" where
  "wrapped gs = [first_rejection gs]"

definition judge_event :: "'s pipeline \<Rightarrow> reqctx \<Rightarrow> event \<Rightarrow> pipeline_state \<Rightarrow> verdict \<times> pipeline_state" where
  "judge_event p ctx ev = first_rejection (wrapped (wrapped (main_gates p ctx ev)))"

section \<open>Facts\<close>

lemma wrapped_transparent: "first_rejection (wrapped gs) s = first_rejection gs s"
  by (simp add: wrapped_def split: prod.split verdict.split)

lemma judge_event_eq: "judge_event p ctx ev s = first_rejection (main_gates p ctx ev) s"
  by (simp add: judge_event_def wrapped_transparent)

lemma run_on_write:
  "first_rejection (map on_write gs) s = (case first_rejection gs (pl_write s) of (v, w) \<Rightarrow> (v, s\<lparr>pl_write := w\<rparr>))"
  by (induction gs arbitrary: s) (auto simp: on_write_def split: prod.split verdict.split)



lemma wot_gates_claims: "pl_claims (snd (first_rejection (wot_gates p ctx ev) s)) = pl_claims s"
  by (rule run_keeps) (auto simp: wot_gates_def on_wot_def split: option.splits prod.splits)


lemma judge_event_after_claim:
  assumes "judge_write (px_write p) ctx ev (pl_write s) = (Accept, w)" "claim_gate p ctx ev (s\<lparr>pl_write := w\<rparr>) = (Accept, u)"
  shows "judge_event p ctx ev s =
    (case first_rejection (wot_gates p ctx ev) u of
       (Reject m, x) \<Rightarrow> (Reject m, x)
     | (Accept, x) \<Rightarrow> first_rejection (map (\<lambda>v. pure_gate (\<lambda>_. v)) (late_verdicts p ctx ev)) x)"
  using assms by (simp add: judge_event_eq main_gates_def chain.run_append run_on_write judge_write_def split: prod.split verdict.split)

lemma late_gates_keep: "snd (first_rejection (map (\<lambda>v. pure_gate (\<lambda>_. v)) vs) x) = x"
  by (induction vs) (auto simp: pure_gate_def split: verdict.split)

lemma late_gates_reject:
  "\<not> list_all accepted vs \<Longrightarrow> \<exists>m. first_rejection (map (\<lambda>v. pure_gate (\<lambda>_. v)) vs) x = (Reject m, x)"
  by (induction vs) (auto simp: pure_gate_def split: verdict.split)

lemma claim_gate_takes_row:
  assumes "claim_gate p ctx ev s = (Accept, u)" "IsClaim ev" "Validate ev = Inr c"
  shows "pl_claims u (TaskID c) = Some (row_of (ctx_now ctx div 1000000) c)"
  using assms TryClaim_ok
  by (auto simp: claim_gate_def on_claims_def reject_claim_def split: prod.splits sum.splits option.splits claim_error.splits)

lemma Validate_id: "Validate ev = Inr c \<Longrightarrow> EventID c = ev_id ev \<and> ev_id ev \<noteq> ''''"
  by (auto simp: Validate_def Let_def split: if_splits)

lemma claim_gate_refuses_higher:
  assumes "pl_claims t (TaskID c) = Some r" "IsClaim ev" "Validate ev = Inr c" "row_event r \<le> ev_id ev" "row_event r \<noteq> ''''"
    and "px_claim_faults p = healthy_db"
  shows "fst (claim_gate p ctx ev t) = Reject (''conflict: '' @ lost_message (TaskID c) (row_event r))"
  using assms Validate_id [OF assms(3)]
  by (auto simp: claim_gate_def on_claims_def reject_claim_def TryClaim_def insert_claim_def holderOf_def healthy_db_def Let_def
      split: prod.splits)

section \<open>Properties\<close>


definition bare_pipeline :: "haven_mode \<Rightarrow> unit pipeline" where
  "bare_pipeline haven = \<lparr>px_write = (demo_write_env False)\<lparr>wg_auth := None\<rparr>, px_claim_faults = \<lparr>on_insert = Insert_ok, read_ok = True\<rparr>,
     px_wot = None, px_zaps = None, px_join = None, px_protected = Some protected_DefaultConfig, px_nip66 = True, px_haven = haven,
     px_GetD = D_of, px_relay_pubkey = '''', px_store = (\<lambda>_ _ _. Some []), px_groups = None\<rparr>"

definition idle :: pipeline_state where
  "idle = \<lparr>pl_write = empty_ws, pl_claims = Map.empty, pl_wot = demo_state\<rparr>"

definition claim_note :: "string \<Rightarrow> event" where
  "claim_note i = (BuildClaimEvent ''t1'' 0)\<lparr>ev_id := i, ev_pubkey := ''vip''\<rparr>"

lemma claim_note_simps:
  "IsClaim (claim_note i)" "i \<noteq> '''' \<Longrightarrow> Validate (claim_note i) = Inr \<lparr>TaskID = ''t1'', EventID = i, Claimant = ''vip'', At = 0\<rparr>"
  "ev_kind (claim_note i) = 30078" "ev_id (claim_note i) = i" "ev_pubkey (claim_note i) = ''vip''" "ev_created_at (claim_note i) = 0"
  "expiration_scan (ev_tags (claim_note i)) = 0" "\<not> IsProtected (claim_note i)"
  by (simp_all add: claim_note_def BuildClaimEvent_def IsClaim_def Validate_def TaskIDOf_def IsProtected_def TrimPrefix_def TrimSpace_def
      is_space_def claim_tagValue_def first_tag_def Let_def)

lemma claim_write_ok:
  "judge_write ((demo_write_env False)\<lparr>wg_auth := None\<rparr>) (vip_ctx '''') (claim_note i) empty_ws = (Accept, empty_ws\<lparr>ws_lookups := 1\<rparr>)"
  by (simp add: write_eval claim_note_simps on_mem_def buildRateLimitRejecter_def small_i64 Let_def)


definition boss_router :: Router where
  "boss_router = NewRouter (Some (haven_DefaultConfig\<lparr>hc_enabled := True, hc_owner := ''boss''\<rparr>))"

text \<open>C19: The claim is taken before the later policies judge the event. When a claim event passes the write gates and
  the claim gate and a later policy (the trust gate, or the zap, join, protected-event, discovery, HAVEN,
  metadata or group rules) refuses it, it is not stored, yet the table holds its task for it; while the row
  stands and the database works, every claim of that task with the same or a higher event id is refused as lost
  to it, its own resubmission included; and no later history of attempts and faults frees the task: it stays
  held by this event or by one with a lower id.\<close>

theorem refused_event_keeps_its_claim:
  assumes "IsClaim ev" "Validate ev = Inr c"
    and "judge_write (px_write p) ctx ev (pl_write s) = (Accept, w)" "claim_gate p ctx ev (s\<lparr>pl_write := w\<rparr>) = (Accept, u)"
    and "rejected (fst (first_rejection (wot_gates p ctx ev) u)) \<or> \<not> list_all accepted (late_verdicts p ctx ev)"
  shows "\<exists>m t. judge_event p ctx ev s = (Reject m, t) \<and> map_option row_event (pl_claims t (TaskID c)) = Some (ev_id ev) \<and>
    (\<forall>p' ctx' ev' c'. px_claim_faults p' = healthy_db \<and> IsClaim ev' \<and> Validate ev' = Inr c' \<and> TaskID c' = TaskID c \<and> ev_id ev \<le> ev_id ev' \<longrightarrow>
       fst (claim_gate (p' :: 's pipeline) ctx' ev' t) = Reject (''conflict: '' @ lost_message (TaskID c) (ev_id ev))) \<and>
    (\<forall>window xs. \<exists>r. claim_run window xs (pl_claims t) (TaskID c) = Some r \<and> row_event r \<le> ev_id ev)"
proof -
  obtain t where t: "t = snd (judge_event p ctx ev s)" by simp
  have ju: "judge_event p ctx ev s =
      (case first_rejection (wot_gates p ctx ev) u of
         (Reject m, x) \<Rightarrow> (Reject m, x)
       | (Accept, x) \<Rightarrow> first_rejection (map (\<lambda>v. pure_gate (\<lambda>_. v)) (late_verdicts p ctx ev)) x)"
    by (rule judge_event_after_claim [OF assms(3,4)])
  obtain v x where vx: "first_rejection (wot_gates p ctx ev) u = (v, x)" by (cases "first_rejection (wot_gates p ctx ev) u")
  obtain m where m: "judge_event p ctx ev s = (Reject m, t)"
  proof (cases v)
    case Accept
    with assms(5) vx late_gates_reject [of "late_verdicts p ctx ev" x] that show thesis by (auto simp: t ju)
  next
    case (Reject m)
    with vx that show thesis by (simp add: t ju)
  qed
  have "pl_claims t = pl_claims x" using vx late_gates_keep [of "late_verdicts p ctx ev" x] by (auto simp: t ju split: verdict.split)
  moreover have "pl_claims x = pl_claims u" using wot_gates_claims [of p ctx ev u] vx by simp
  ultimately have "pl_claims t = pl_claims u" by simp
  with claim_gate_takes_row [OF assms(4,1,2)] have row: "pl_claims t (TaskID c) = Some (row_of (ctx_now ctx div 1000000) c)" by simp
  have rid: "row_event (row_of (ctx_now ctx div 1000000) c) = ev_id ev" "ev_id ev \<noteq> ''''"
    using Validate_id [OF assms(2)] by (simp_all add: row_of_def)
  have "fst (claim_gate (p' :: 's pipeline) ctx' ev' t) = Reject (''conflict: '' @ lost_message (TaskID c) (ev_id ev))"
    if "px_claim_faults p' = healthy_db" "IsClaim ev'" "Validate ev' = Inr c'" "TaskID c' = TaskID c" "ev_id ev \<le> ev_id ev'"
    for p' :: "'s pipeline" and ctx' ev' c'
    using claim_gate_refuses_higher [of t c' _ ev' p' ctx', OF _ that(2,3) _ _ that(1)] that(4,5) row rid by simp
  moreover have "\<exists>r. claim_run window xs (pl_claims t) (TaskID c) = Some r \<and> row_event r \<le> ev_id ev" for window xs
    using claim_run_mono [of "pl_claims t" "TaskID c" _ window xs, OF row] rid by simp
  ultimately show ?thesis using m row rid by (intro exI [of _ m] exI [of _ t]) simp
qed

lemma refused_event_keeps_its_claim_witness:
  "\<exists>m s1. judge_event (bare_pipeline (SingleOwner boss_router)) (vip_ctx []) (claim_note ''e1'') idle = (Reject m, s1) \<and>
     map_option row_event (pl_claims s1 ''t1'') = Some ''e1'' \<and>
     fst (claim_gate (bare_pipeline (SingleOwner boss_router)) (vip_ctx []) (claim_note ''e1'') s1)
       = Reject ''conflict: task t1 already claimed by event e1''"
proof -
  let ?p = "bare_pipeline (SingleOwner boss_router)"
  have wr: "judge_write (px_write ?p) (vip_ctx []) (claim_note ''e1'') (pl_write idle) = (Accept, empty_ws\<lparr>ws_lookups := 1\<rparr>)"
    using claim_write_ok [of "''e1''"] by (simp add: bare_pipeline_def idle_def)
  obtain u where u: "claim_gate ?p (vip_ctx []) (claim_note ''e1'') (idle\<lparr>pl_write := empty_ws\<lparr>ws_lookups := 1\<rparr>\<rparr>) = (Accept, u)"
    by (simp add: claim_gate_def on_claims_def reject_claim_def bare_pipeline_def claim_note_simps TryClaim_def insert_claim_def idle_def)
  have box: "RouteEvent boss_router (claim_note ''e1'') = BoxUnknown" "\<not> is_chat_kind 30078" "hc_enabled (r_config boss_router)"
    by code_simp+
  then have "haven_RejectEvent boss_router (vip_ctx []) (claim_note ''e1'') \<noteq> Accept"
    by (simp add: haven_RejectEvent_def claim_note_simps Let_def)
  then have late: "\<not> list_all accepted (late_verdicts ?p (vip_ctx []) (claim_note ''e1''))"
    by (simp add: late_verdicts_def bare_pipeline_def haven_verdicts_def)
  have v: "Validate (claim_note ''e1'') = Inr \<lparr>TaskID = ''t1'', EventID = ''e1'', Claimant = ''vip'', At = 0\<rparr>"
    by (rule claim_note_simps) simp
  have h: "px_claim_faults ?p = healthy_db" by (simp add: bare_pipeline_def healthy_db_def)
  obtain m t where t: "judge_event ?p (vip_ctx []) (claim_note ''e1'') idle = (Reject m, t)"
    "map_option row_event (pl_claims t ''t1'') = Some ''e1''"
    "\<forall>p' ctx' ev' c'. px_claim_faults p' = healthy_db \<and> IsClaim ev' \<and> Validate ev' = Inr c' \<and> TaskID c' = ''t1'' \<and> ''e1'' \<le> ev_id ev' \<longrightarrow>
       fst (claim_gate (p' :: unit pipeline) ctx' ev' t) = Reject (''conflict: '' @ lost_message ''t1'' ''e1'')"
    using refused_event_keeps_its_claim [OF claim_note_simps(1) v wr u disjI2 [OF late]] by (auto simp: claim_note_simps)
  have "fst (claim_gate ?p (vip_ctx []) (claim_note ''e1'') t) = Reject (''conflict: '' @ lost_message ''t1'' ''e1'')"
    using t(3) h v claim_note_simps(1) by (simp add: claim_note_simps(4))
  with t(1,2) show ?thesis by (intro exI [of _ m] exI [of _ t]) (simp add: lost_message_def)
qed

end
