(* ===== verification/Expiry_Sweep.thy ===== *)
theory Expiry_Sweep
  imports Validation "HOL-Library.Multiset"
begin

text \<open>
  internal/expiry/sweeper.go: the NIP-40 sweep that deletes expired events from the table in batches. The event
  table is a list of rows with distinct ids. The \<open>DELETE\<close> has a \<open>LIMIT\<close> and no \<open>ORDER BY\<close>, so which rows
  a batch takes is up to the order in which the database visits them: \<open>sw_scan\<close>, a parameter. A batch may
  be rolled back, or be committed although the client is told of an error. Between the batches the relay's
  connections go on inserting and deleting rows; those changes are parameters too.

  The grace period is taken in whole seconds, as the configuration sets it (the code goes through a float).
\<close>

section \<open>Which rows are due\<close>

text \<open>The condition \<open>t->>1 ~ '^\d{1,18}$'\<close> and the cast that follows it, over ASCII digits.\<close>

definition sweep_number :: "string \<Rightarrow> int option" where
  "sweep_number v = (if length v \<le> 18 then map_option int (parse_unsigned v) else None)"

definition due_tag :: "int \<Rightarrow> tag \<Rightarrow> bool" where
  "due_tag limit t =
     (case t of n # v # rest \<Rightarrow> n = ''expiration'' \<and> (case sweep_number v of Some x \<Rightarrow> x < limit | None \<Rightarrow> False)
      | _ \<Rightarrow> False)"

definition kindGiftWrap :: int where
  "kindGiftWrap = 1059"

definition due :: "int \<Rightarrow> int \<Rightarrow> event \<Rightarrow> bool" where
  "due now grace e = list_ex (due_tag (if ev_kind e = kindGiftWrap then grace else now)) (ev_tags e)"

text \<open>The second count: an expiration that is not such a number, and none that is. A tag without a
  value has no \<open>t->>1\<close> and is neither.\<close>

definition malformed :: "event \<Rightarrow> bool" where
  "malformed e \<longleftrightarrow>
     list_ex (\<lambda>t. case t of n # v # rest \<Rightarrow> n = ''expiration'' \<and> sweep_number v = None | _ \<Rightarrow> False) (ev_tags e) \<and>
     \<not> list_ex (\<lambda>t. case t of n # v # rest \<Rightarrow> n = ''expiration'' \<and> sweep_number v \<noteq> None | _ \<Rightarrow> False) (ev_tags e)"

section \<open>Operations\<close>

record expiry_config =
  xs_DryRun :: bool
  xs_Interval :: int
  xs_BatchSize :: int
  xs_BatchPause :: int
  xs_GiftWrapGrace :: int

definition expiry_DefaultConfig :: expiry_config where
  "expiry_DefaultConfig = \<lparr>xs_DryRun = True, xs_Interval = 3600 * ns_per_sec, xs_BatchSize = 1000,
     xs_BatchPause = ns_per_sec, xs_GiftWrapGrace = 30 * 24 * 3600 * ns_per_sec\<rparr>"

text \<open>The two counts of one read-only transaction; \<open>None\<close> when any of its statements fails. Kinds with
  the same count may come in any order.\<close>

definition countExpired :: "bool \<Rightarrow> int \<Rightarrow> int \<Rightarrow> event list \<Rightarrow> ((int \<times> int) list \<times> int) option" where
  "countExpired ok now grace t =
     (if \<not> ok then None
      else let ds = filter (due now grace) t in
        Some (sort_key (\<lambda>(k, c). - c) (map (\<lambda>k. (k, int (length (filter (\<lambda>e. ev_kind e = k) ds)))) (remdups (map ev_kind ds))),
              int (length (filter malformed t))))"

datatype batch_outcome = Committed | RolledBack | CommitLost

definition deleteBatch :: "batch_outcome \<Rightarrow> (event list \<Rightarrow> event list) \<Rightarrow> int \<Rightarrow> int \<Rightarrow> int \<Rightarrow> event list \<Rightarrow> int option \<times> event list" where
  "deleteBatch out scan now grace limit t =
     (if limit < 0 then (None, t)
      else let ids = map ev_id (take (nat limit) (filter (due now grace) (scan t)));
               t' = filter (\<lambda>e. ev_id e \<notin> set ids) t
        in case out of
             Committed \<Rightarrow> (Some (int (length t) - int (length t')), t')
           | RolledBack \<Rightarrow> (None, t)
           | CommitLost \<Rightarrow> (None, t'))"

text \<open>What the world does during a sweep: the clock, whether the counting transaction works, and per batch
  how it ends, in which order the rows are visited, whether the context is cancelled before it, and which events
  other connections have inserted (a known id is ignored) and deleted since the batch before.\<close>

record sweep_env =
  sw_now :: int
  sw_count :: bool
  sw_batch :: "nat \<Rightarrow> batch_outcome"
  sw_scan :: "nat \<Rightarrow> event list \<Rightarrow> event list"
  sw_gone :: "nat \<Rightarrow> bool"
  sw_arrivals :: "nat \<Rightarrow> event list"
  sw_removed :: "nat \<Rightarrow> event \<Rightarrow> bool"

definition insert_row :: "event \<Rightarrow> event list \<Rightarrow> event list" where
  "insert_row e t = (if ev_id e \<in> ev_id ` set t then t else t @ [e])"

definition others :: "sweep_env \<Rightarrow> nat \<Rightarrow> event list \<Rightarrow> event list" where
  "others env i t = fold insert_row (sw_arrivals env i) (filter (\<lambda>e. \<not> sw_removed env i e) t)"

text \<open>The loop of \<open>liveRun\<close>: an error flag, the total and the table. It has no bound in the code.\<close>

partial_function (option) sweep_batches ::
  "sweep_env \<Rightarrow> int \<Rightarrow> int \<Rightarrow> int \<Rightarrow> nat \<Rightarrow> int \<Rightarrow> event list \<Rightarrow> (bool \<times> int \<times> event list) option" where
  "sweep_batches env now grace limit i tot t =
     (if sw_gone env i then Some (False, tot, t)
      else case deleteBatch (sw_batch env i) (sw_scan env i) now grace limit (others env i t) of
             (res, t') \<Rightarrow>
               (case res of
                  None \<Rightarrow> Some (True, tot, t')
                | Some n \<Rightarrow> if n = 0 then Some (False, tot, t')
                            else sweep_batches env now grace limit (Suc i) (tot + n) t'))"

record sweep_result =
  sr_Deleted :: int
  sr_WouldDelete :: int
  sr_Counts :: "(int \<times> int) list"
  sr_Malformed :: int
  sr_failed :: bool

definition no_result :: sweep_result where
  "no_result = \<lparr>sr_Deleted = 0, sr_WouldDelete = 0, sr_Counts = [], sr_Malformed = 0, sr_failed = False\<rparr>"

definition dryRun :: "sweep_env \<Rightarrow> int \<Rightarrow> int \<Rightarrow> event list \<Rightarrow> sweep_result" where
  "dryRun env now grace t =
     (case countExpired (sw_count env) now grace t of
        None \<Rightarrow> no_result\<lparr>sr_failed := True\<rparr>
      | Some (counts, mal) \<Rightarrow> no_result\<lparr>sr_Counts := counts, sr_Malformed := mal, sr_WouldDelete := sum_list (map snd counts)\<rparr>)"

definition liveRun :: "expiry_config \<Rightarrow> sweep_env \<Rightarrow> int \<Rightarrow> int \<Rightarrow> event list \<Rightarrow> (sweep_result \<times> event list) option" where
  "liveRun cfg env now grace t =
     (case countExpired (sw_count env) now grace t of
        None \<Rightarrow> Some (no_result\<lparr>sr_failed := True\<rparr>, t)
      | Some (counts, mal) \<Rightarrow>
          map_option (\<lambda>(bad, tot, t'). (no_result\<lparr>sr_Counts := counts, sr_Malformed := mal, sr_Deleted := tot, sr_failed := bad\<rparr>, t'))
            (sweep_batches env now grace (xs_BatchSize cfg) 0 0 t))"

definition Sweep :: "expiry_config \<Rightarrow> sweep_env \<Rightarrow> event list \<Rightarrow> (sweep_result \<times> event list) option" where
  "Sweep cfg env t =
     (let now = sw_now env; grace = sw_now env - xs_GiftWrapGrace cfg div ns_per_sec in
      if xs_DryRun cfg then Some (dryRun env now grace t, t) else liveRun cfg env now grace t)"

text \<open>main.go hands the loaded settings over.\<close>

definition expiry_config_of :: "sweep_config \<Rightarrow> expiry_config option" where
  "expiry_config_of c =
     (if ExpirySweepEnabled c
      then Some \<lparr>xs_DryRun = ExpirySweepDryRun c, xs_Interval = ExpirySweepInterval c, xs_BatchSize = ExpirySweepBatchSize c,
                 xs_BatchPause = ExpirySweepBatchPause c, xs_GiftWrapGrace = ExpirySweepGiftWrapGrace c\<rparr>
      else None)"

section \<open>Facts\<close>

text \<open>What is asked of the database: a batch visits exactly the rows of the table, in any order.\<close>

definition visits_rows :: "sweep_env \<Rightarrow> bool" where
  "visits_rows env \<longleftrightarrow> (\<forall>i t. set (sw_scan env i t) = set t)"

text \<open>A sweep during which nobody else touches the table.\<close>

definition alone :: "sweep_env \<Rightarrow> bool" where
  "alone env \<longleftrightarrow> (\<forall>i. sw_arrivals env i = [] \<and> (\<forall>e. \<not> sw_removed env i e))"

lemma others_alone [simp]: "alone env \<Longrightarrow> others env i t = t"
  by (simp add: alone_def others_def)

lemma insert_row_distinct: "distinct (map ev_id t) \<Longrightarrow> distinct (map ev_id (insert_row e t))"
  by (simp add: insert_row_def)

lemma fold_insert_row_distinct: "distinct (map ev_id t) \<Longrightarrow> distinct (map ev_id (fold insert_row es t))"
  by (induction es arbitrary: t) (simp_all add: insert_row_distinct)

lemma others_distinct: "distinct (map ev_id t) \<Longrightarrow> distinct (map ev_id (others env i t))"
  by (simp add: others_def fold_insert_row_distinct distinct_map_filter)

abbreviation alive :: "int \<Rightarrow> int \<Rightarrow> event list \<Rightarrow> event list" where
  "alive now grace t \<equiv> filter (\<lambda>e. \<not> due now grace e) t"

lemma deleteBatch_shrinks: "deleteBatch out scan now grace limit t = (Some n, t') \<Longrightarrow> n \<noteq> 0 \<Longrightarrow> length t' < length t"
proof -
  assume "deleteBatch out scan now grace limit t = (Some n, t')" "n \<noteq> 0"
  moreover have "length (filter P t) \<le> length t" for P by simp
  ultimately show ?thesis
    by (auto simp: deleteBatch_def Let_def le_neq_implies_less split: batch_outcome.splits if_splits)
qed

lemma deleteBatch_spec:
  assumes "distinct (map ev_id t)" "set (scan t) \<subseteq> set t" "deleteBatch out scan now grace limit t = (res, t')"
  shows "set t' \<subseteq> set t" "distinct (map ev_id t')" "alive now grace t' = alive now grace t" "length t' \<le> length t"
    "res = Some n \<Longrightarrow> n = int (length t) - int (length t')" "length t' = length t \<Longrightarrow> t' = t"
proof -
  define ids where "ids = map ev_id (take (nat limit) (filter (due now grace) (scan t)))"
  have from_due: "due now grace e" if "e \<in> set t" "ev_id e \<in> set ids" for e
  proof -
    obtain d where d: "d \<in> set (take (nat limit) (filter (due now grace) (scan t)))" "ev_id d = ev_id e"
      using \<open>ev_id e \<in> set ids\<close> by (auto simp: ids_def)
    then have "d \<in> set (filter (due now grace) (scan t))" by (blast dest: in_set_takeD)
    then have "d \<in> set t" "due now grace d" using assms(2) by auto
    moreover have "d = e" using assms(1) d(2) \<open>d \<in> set t\<close> \<open>e \<in> set t\<close> by (auto simp: distinct_map dest: inj_onD)
    ultimately show ?thesis by simp
  qed
  have t': "t' = t \<or> t' = filter (\<lambda>e. ev_id e \<notin> set ids) t"
    using assms(3) by (auto simp: deleteBatch_def Let_def ids_def split: batch_outcome.splits if_splits)
  then show "set t' \<subseteq> set t" "distinct (map ev_id t')" "length t' \<le> length t"
    using assms(1) by (auto simp: distinct_map_filter)
  show "length t' = length t \<Longrightarrow> t' = t"
    using t' by (metis filter_True length_filter_less less_irrefl)
  have "filter (\<lambda>e. ev_id e \<notin> set ids \<and> \<not> due now grace e) t = alive now grace t"
    using from_due by (intro filter_cong) auto
  with t' show "alive now grace t' = alive now grace t" by (auto simp: conj_commute)
  show "res = Some n \<Longrightarrow> n = int (length t) - int (length t')"
    using assms(3) by (auto simp: deleteBatch_def Let_def split: batch_outcome.splits if_splits)
qed

lemma deleteBatch_due_shrinks:
  assumes "distinct (map ev_id t)" "set (scan t) \<subseteq> set t" "deleteBatch out scan now grace limit t = (Some n, t')" "n \<noteq> 0"
  shows "length (filter (due now grace) t') < length (filter (due now grace) t)"
proof -
  have "length (filter (due now grace) x) + length (alive now grace x) = length x" for x
    by (rule sum_length_filter_compl)
  from this [of t] this [of t'] deleteBatch_spec(3) [OF assms(1-3)] deleteBatch_shrinks [OF assms(3,4)] show ?thesis
    by simp
qed

lemma fold_insert_row_due:
  "\<forall>e \<in> set es. \<not> P e \<Longrightarrow> filter P (fold insert_row es t) = filter P t"
  by (induction es arbitrary: t) (auto simp: insert_row_def)

lemma others_due:
  assumes "\<forall>e \<in> set (sw_arrivals env i). \<not> P e"
  shows "length (filter P (others env i t)) \<le> length (filter P t)"
proof -
  have "filter P (others env i t) = filter P (filter (\<lambda>e. \<not> sw_removed env i e) t)"
    unfolding others_def by (rule fold_insert_row_due [OF assms])
  also have "\<dots> = filter (\<lambda>e. \<not> sw_removed env i e) (filter P t)"
    by (simp only: filter_filter conj_commute)
  finally show ?thesis by (simp only: length_filter_le)
qed

text \<open>One round either ends the loop or goes on with the next one.\<close>

lemma sweep_batches_step:
  assumes "\<nexists>r. sweep_batches env now grace limit i tot t = Some r"
  shows "\<not> sw_gone env i \<and> sw_batch env i = Committed \<and> 0 < limit \<and>
    (\<exists>n t'. deleteBatch Committed (sw_scan env i) now grace limit (others env i t) = (Some n, t') \<and> n \<noteq> 0 \<and>
      (\<nexists>r. sweep_batches env now grace limit (Suc i) (tot + n) t' = Some r))"
proof -
  obtain res t' where step: "deleteBatch (sw_batch env i) (sw_scan env i) now grace limit (others env i t) = (res, t')" by force
  with assms obtain n where n: "\<not> sw_gone env i" "res = Some n" "n \<noteq> 0"
      "\<nexists>r. sweep_batches env now grace limit (Suc i) (tot + n) t' = Some r"
    by (subst (asm) sweep_batches.simps) (auto split: if_splits option.splits)
  moreover from step n(2) have "sw_batch env i = Committed"
    by (cases "sw_batch env i") (auto simp: deleteBatch_def Let_def split: if_splits)
  moreover have "0 < limit"
  proof (rule ccontr)
    assume "\<not> 0 < limit"
    then have "limit < 0 \<or> limit = 0" by linarith
    with step n(2,3) show False by (auto simp: deleteBatch_def Let_def split: batch_outcome.splits)
  qed
  ultimately show ?thesis using step by auto
qed

lemma sweep_batches_quiet:
  assumes "visits_rows env" "\<And>j e. i \<le> j \<Longrightarrow> e \<in> set (sw_arrivals env j) \<Longrightarrow> \<not> due now grace e" "distinct (map ev_id t)"
  shows "\<exists>r. sweep_batches env now grace limit i tot t = Some r"
  using assms(2,3)
proof (induction "length (filter (due now grace) t)" arbitrary: i tot t rule: less_induct)
  case less
  show ?case
  proof (rule ccontr)
    assume never: "\<nexists>r. sweep_batches env now grace limit i tot t = Some r"
    from sweep_batches_step [OF never] obtain n t' where step: "n \<noteq> 0"
        "deleteBatch Committed (sw_scan env i) now grace limit (others env i t) = (Some n, t')"
        "\<nexists>r. sweep_batches env now grace limit (Suc i) (tot + n) t' = Some r" by blast
    have vis: "set (sw_scan env i (others env i t)) \<subseteq> set (others env i t)" using assms(1) by (simp add: visits_rows_def)
    note od = others_distinct [OF less.prems(2), of env i]
    have arr: "\<not> due now grace e" if "Suc i \<le> j" "e \<in> set (sw_arrivals env j)" for j e
      using less.prems(1) [of j e] that by simp
    have "length (filter (due now grace) t') < length (filter (due now grace) (others env i t))"
      by (rule deleteBatch_due_shrinks [OF od vis step(2,1)])
    also have "\<dots> \<le> length (filter (due now grace) t)" using less.prems(1) by (intro others_due) auto
    finally have "\<exists>r. sweep_batches env now grace limit (Suc i) (tot + n) t' = Some r"
      using arr deleteBatch_spec(2) [OF od vis step(2)] by (intro less.hyps)
    with step(3) show False by blast
  qed
qed

lemma sweep_batches_finite_arrivals:
  assumes "visits_rows env" "\<And>j e. k \<le> j \<Longrightarrow> e \<in> set (sw_arrivals env j) \<Longrightarrow> \<not> due now grace e" "distinct (map ev_id t)"
  shows "\<exists>r. sweep_batches env now grace limit i tot t = Some r"
  using assms(3)
proof (induction "k - i" arbitrary: i tot t)
  case 0
  then have "\<not> due now grace e" if "i \<le> j" "e \<in> set (sw_arrivals env j)" for j e
    using assms(2) [of j e] that by simp
  with 0 show ?case by (intro sweep_batches_quiet [OF assms(1)])
next
  case (Suc d)
  show ?case
  proof (rule ccontr)
    assume never: "\<nexists>r. sweep_batches env now grace limit i tot t = Some r"
    from sweep_batches_step [OF never] obtain n t' where step:
        "deleteBatch Committed (sw_scan env i) now grace limit (others env i t) = (Some n, t')"
        "\<nexists>r. sweep_batches env now grace limit (Suc i) (tot + n) t' = Some r" by blast
    have vis: "set (sw_scan env i (others env i t)) \<subseteq> set (others env i t)" using assms(1) by (simp add: visits_rows_def)
    have "distinct (map ev_id t')" by (rule deleteBatch_spec(2) [OF others_distinct [OF Suc.prems] vis step(1)])
    with Suc.hyps(1) [of "Suc i" t' "tot + n"] Suc.hyps(2) step(2) show False by auto
  qed
qed

lemma sweep_batches_interrupted:
  assumes "sw_gone env k \<or> sw_batch env k \<noteq> Committed" "i \<le> k"
  shows "\<exists>r. sweep_batches env now grace limit i tot t = Some r"
  using assms(2)
proof (induction "k - i" arbitrary: i tot t)
  case 0
  then have "i = k" by simp
  with assms(1) sweep_batches_step [of env now grace limit i tot t] show ?case by blast
next
  case (Suc d)
  show ?case
  proof (rule ccontr)
    assume never: "\<nexists>r. sweep_batches env now grace limit i tot t = Some r"
    from sweep_batches_step [OF never] obtain n t' where "\<nexists>r. sweep_batches env now grace limit (Suc i) (tot + n) t' = Some r" by blast
    with Suc.hyps(1) [of "Suc i" "tot + n" t'] Suc.hyps(2) show False by auto
  qed
qed

lemma sweep_batches_safe:
  assumes "sweep_batches env now grace limit i tot t = Some (bad, tot', t')" "distinct (map ev_id t)" "visits_rows env" "alone env"
  shows "set t' \<subseteq> set t \<and> alive now grace t' = alive now grace t \<and> length t' \<le> length t \<and>
    tot' - tot \<le> int (length t) - int (length t') \<and> (\<not> bad \<longrightarrow> tot' - tot = int (length t) - int (length t'))"
  using assms
proof (induction "length t" arbitrary: i tot t rule: less_induct)
  case less
  obtain res u where step: "deleteBatch (sw_batch env i) (sw_scan env i) now grace limit t = (res, u)" by force
  note [simp] = others_alone [OF less.prems(4)]
  have vis: "set (sw_scan env i t) \<subseteq> set t" using less.prems(3) by (simp add: visits_rows_def)
  note sp = deleteBatch_spec [OF less.prems(2) vis step]
  show ?case
  proof (cases "sw_gone env i")
    case True
    then show ?thesis using less.prems(1) by (simp add: sweep_batches.simps)
  next
    case False
    show ?thesis
    proof (cases res)
      case None
      with False step less.prems(1) have "bad" "tot' = tot" "t' = u" by (auto simp: sweep_batches.simps)
      then show ?thesis using sp by simp
    next
      case (Some n)
      note n = sp(5) [OF Some]
      show ?thesis
      proof (cases "n = 0")
        case True
        with False step Some less.prems(1) have "tot' = tot" "t' = u" by (auto simp: sweep_batches.simps)
        then show ?thesis using sp n True by simp
      next
        case rest: False
        with False step Some less.prems(1)
        have "sweep_batches env now grace limit (Suc i) (tot + n) u = Some (bad, tot', t')" by (simp add: sweep_batches.simps)
        moreover have "length u < length t" using deleteBatch_shrinks step Some rest by blast
        ultimately have "set t' \<subseteq> set u \<and> alive now grace t' = alive now grace u \<and> length t' \<le> length u \<and>
            tot' - (tot + n) \<le> int (length u) - int (length t') \<and> (\<not> bad \<longrightarrow> tot' - (tot + n) = int (length u) - int (length t'))"
          using less.hyps less.prems(3,4) sp(2) by blast
        moreover have "int (length u) = int (length t) - n" using n by simp
        ultimately show ?thesis using sp(1,3,4) by fastforce
      qed
    qed
  qed
qed

lemma batch_takes_one:
  assumes "set (scan t) = set t" "0 < limit" "d \<in> set t" "due now grace d"
  shows "\<exists>n t'. deleteBatch Committed scan now grace limit t = (Some n, t') \<and> n \<noteq> 0"
proof -
  have "filter (due now grace) (scan t) \<noteq> []" using assms by (auto simp: filter_empty_conv)
  then obtain e where e: "e \<in> set (take (nat limit) (filter (due now grace) (scan t)))"
    using assms(2) by (cases "filter (due now grace) (scan t)") (auto simp: take_Cons' split: if_splits)
  then have "e \<in> set t" using assms(1) by (auto dest: in_set_takeD)
  with e have "length (filter (\<lambda>x. ev_id x \<notin> ev_id ` set (take (nat limit) (filter (due now grace) (scan t)))) t) < length t"
    by (intro length_filter_less [of e]) auto
  then show ?thesis using assms(2) by (simp add: deleteBatch_def Let_def)
qed

lemma sweep_batches_complete:
  assumes "sweep_batches env now grace limit i tot t = Some (bad, tot', t')" "distinct (map ev_id t)" "visits_rows env"
    and "0 < limit" "\<And>j. sw_batch env j = Committed" "\<And>j. \<not> sw_gone env j" "alone env"
  shows "t' = alive now grace t \<and> \<not> bad"
  using assms(1,2)
proof (induction "length t" arbitrary: i tot t rule: less_induct)
  case less
  obtain res u where step: "deleteBatch Committed (sw_scan env i) now grace limit t = (res, u)" by force
  note [simp] = others_alone [OF assms(7)]
  have vis: "set (sw_scan env i t) = set t" using assms(3) by (simp add: visits_rows_def)
  note sp = deleteBatch_spec [OF less.prems(2) _ step, unfolded vis, OF order.refl]
  obtain n where n: "res = Some n" using step assms(4) by (auto simp: deleteBatch_def Let_def)
  show ?case
  proof (cases "n = 0")
    case True
    with n step have "list_all (\<lambda>e. \<not> due now grace e) t"
      using batch_takes_one [where scan = "sw_scan env i" and t = t and limit = limit, OF vis assms(4)]
      by (fastforce simp: list_all_iff)
    then have all: "alive now grace t = t" by (simp add: list_all_iff)
    have "u = t" using sp(5) [OF n] True by (intro sp(6)) simp
    with True n step less.prems(1) all show ?thesis by (simp add: sweep_batches.simps assms(5,6))
  next
    case False
    with n step less.prems(1) have "sweep_batches env now grace limit (Suc i) (tot + n) u = Some (bad, tot', t')"
      by (simp add: sweep_batches.simps assms(5,6))
    moreover have "length u < length t" using deleteBatch_shrinks step n False by blast
    ultimately show ?thesis using less.hyps sp(2,3) by metis
  qed
qed

lemma parse_unsigned_nat: "parse_unsigned (nat_digits n) = Some n"
  by (simp add: parse_unsigned_def nat_digits_value)

lemma length_nat_digits: "n < 10 ^ Suc k \<Longrightarrow> length (nat_digits n) \<le> Suc k"
proof (induction k arbitrary: n)
  case 0
  then show ?case by (simp add: nat_digits.simps [of n])
next
  case (Suc k)
  from Suc.prems have "n div 10 < 10 ^ Suc k" by (intro less_mult_imp_div_less) simp
  from Suc.IH [OF this] show ?case by (cases "n < 10") (simp_all add: nat_digits.simps [of n])
qed

lemma sweep_number_fmt_d:
  assumes "0 \<le> n" "n < 10 ^ 18"
  shows "sweep_number (fmt_d n) = Some n"
proof -
  have "nat n < 10 ^ Suc 17" using assms by (simp add: nat_less_iff)
  from length_nat_digits [OF this] assms show ?thesis by (simp add: sweep_number_def fmt_d_def parse_unsigned_nat)
qed

lemma no_tag: "all_tags ts name = [] \<Longrightarrow> (name # v # rest) \<notin> set ts"
  using all_tags_iff [of v ts name] by auto

lemma due_tag_iff: "due_tag l t \<longleftrightarrow> (\<exists>v rest x. t = ''expiration'' # v # rest \<and> sweep_number v = Some x \<and> x < l)"
  by (cases t; cases "tl t") (simp_all add: due_tag_def split: option.split)

lemma not_due: "all_tags ts ''expiration'' = [] \<Longrightarrow> \<not> list_ex (due_tag l) ts"
  unfolding list_ex_iff due_tag_iff using no_tag by metis

lemma one_expiration:
  assumes "0 < n" "n < 10 ^ 18" "ev_tags e = before @ [''expiration'', fmt_d n] # after"
    and "all_tags (before @ after) ''expiration'' = []"
  shows "expiration_scan (ev_tags e) = n" "list_ex (due_tag l) (ev_tags e) \<longleftrightarrow> n < l"
proof -
  have none: "all_tags before ''expiration'' = []" "all_tags after ''expiration'' = []" using assms(4) by simp_all
  note no = no_tag [OF none(1)] no_tag [OF none(2)]
  have num: "sweep_number (fmt_d n) = Some n" using assms(1,2) by (simp add: sweep_number_fmt_d)
  have "in_i64 n" using assms(1,2) by (simp add: in_i64_def)
  then show "expiration_scan (ev_tags e) = n"
    using no by (simp add: assms(3) expiration_scan_skip ParseInt64_fmt_d)
  show "list_ex (due_tag l) (ev_tags e) \<longleftrightarrow> n < l"
    using num not_due [OF none(1)] not_due [OF none(2)] by (simp add: assms(3) due_tag_def)
qed

text \<open>No expiration, or one that both sides read alike.\<close>

definition plain_expiration :: "event \<Rightarrow> bool" where
  "plain_expiration e \<longleftrightarrow> all_tags (ev_tags e) ''expiration'' = [] \<or>
     (\<exists>n before after. 0 < n \<and> n < 10 ^ 18 \<and> ev_tags e = before @ [''expiration'', fmt_d n] # after \<and>
        all_tags (before @ after) ''expiration'' = [])"

lemma accepted_is_not_due:
  assumes "plain_expiration e" "now \<le> now_unix ctx" "rejectExpiredEvents ctx e = Accept" "grace \<le> now"
  shows "\<not> due now grace e"
  using assms(1) unfolding plain_expiration_def
proof (elim disjE exE conjE)
  assume "all_tags (ev_tags e) ''expiration'' = []"
  then show ?thesis by (simp add: due_def not_due)
next
  fix n before after
  assume one: "0 < n" "n < 10 ^ 18" "ev_tags e = before @ [''expiration'', fmt_d n] # after" "all_tags (before @ after) ''expiration'' = []"
  from one_expiration(1) [OF one] one(1) assms(3) have "\<not> n < now_unix ctx"
    by (auto simp: rejectExpiredEvents_def IsExpired_def GetExpiration_def Let_def split: if_splits)
  with one_expiration(2) [OF one] assms(2,4) show ?thesis by (simp add: due_def)
qed

section \<open>Properties\<close>

text \<open>C34: A sweep comes to an end although its loop has no counter: while other connections go on inserting and
  deleting rows between its batches and the database visits the rows in any order, it suffices that from some
  batch on the arriving events have passed the relay's expiry gate since the sweep began and carry no
  expiration or exactly one, written as a positive number. A sweep also ends when any batch fails, the context
  is cancelled, the batch size is not positive or the run is dry. The proviso is needed: see
  \<open>sweep_can_run_forever\<close> below.\<close>

theorem sweep_terminates:
  assumes "distinct (map ev_id t)" "visits_rows env" "0 \<le> xs_GiftWrapGrace cfg"
    and "(\<exists>k. \<forall>j \<ge> k. \<forall>e \<in> set (sw_arrivals env j). plain_expiration e \<and>
        (\<exists>ctx. sw_now env \<le> now_unix ctx \<and> rejectExpiredEvents ctx e = Accept)) \<or>
      (\<exists>k. sw_gone env k \<or> sw_batch env k \<noteq> Committed) \<or> xs_BatchSize cfg \<le> 0 \<or> xs_DryRun cfg"
  shows "\<exists>r. Sweep cfg env t = Some r"
proof -
  let ?now = "sw_now env" and ?grace = "sw_now env - xs_GiftWrapGrace cfg div ns_per_sec"
  have g: "?grace \<le> ?now" using assms(3) by (simp add: pos_imp_zdiv_nonneg_iff)
  have "\<exists>r. sweep_batches env ?now ?grace (xs_BatchSize cfg) 0 0 t = Some r" if "\<not> xs_DryRun cfg"
    using assms(4)
  proof (elim disjE exE)
    fix k assume "\<forall>j \<ge> k. \<forall>e \<in> set (sw_arrivals env j). plain_expiration e \<and>
        (\<exists>ctx. sw_now env \<le> now_unix ctx \<and> rejectExpiredEvents ctx e = Accept)"
    then show ?thesis using accepted_is_not_due [OF _ _ _ g] by (intro sweep_batches_finite_arrivals [OF assms(2) _ assms(1)]) blast
  next
    assume "xs_BatchSize cfg \<le> 0"
    then show ?thesis using sweep_batches_step [of env ?now ?grace "xs_BatchSize cfg" 0 0 t] by fastforce
  qed (use that in \<open>blast intro: sweep_batches_interrupted\<close>)+
  then show ?thesis by (auto simp: Sweep_def liveRun_def Let_def split: option.split)
qed

text \<open>While nobody else touches the table: whatever fails or is cancelled, a sweep removes only due rows, leaves all others in their order, removes
  nothing in a dry run, and never reports more deletions than there were; without an error it reports them
  exactly.\<close>

theorem sweep_deletes_only_due:
  assumes "distinct (map ev_id t)" "visits_rows env" "alone env" "Sweep cfg env t = Some (r, t')"
    and "now = sw_now env" "grace = sw_now env - xs_GiftWrapGrace cfg div ns_per_sec"
  shows "set t' \<subseteq> set t \<and> alive now grace t' = alive now grace t \<and> (xs_DryRun cfg \<longrightarrow> t' = t) \<and>
    sr_Deleted r \<le> int (length t) - int (length t') \<and> (\<not> sr_failed r \<longrightarrow> sr_Deleted r = int (length t) - int (length t'))"
proof -
  have "set t' \<subseteq> set t \<and> alive now grace t' = alive now grace t \<and> length t' \<le> length t \<and>
      tot \<le> int (length t) - int (length t') \<and> (\<not> bad \<longrightarrow> tot = int (length t) - int (length t'))"
    if "sweep_batches env now grace (xs_BatchSize cfg) 0 0 t = Some (bad, tot, t')" for bad tot t'
    using sweep_batches_safe [OF that assms(1-3)] by simp
  with assms(4-6) show ?thesis
    by (auto simp: Sweep_def liveRun_def dryRun_def no_result_def Let_def split: if_splits option.splits)
qed

text \<open>When nothing fails and nobody else touches the table, one sweep removes every due row, in as many batches as it takes and however the database
  picks their rows, and reports their number.\<close>

theorem healthy_sweep_deletes_all_due:
  assumes "distinct (map ev_id t)" "visits_rows env" "alone env" "\<not> xs_DryRun cfg" "0 < xs_BatchSize cfg"
    and "sw_count env" "\<And>j. sw_batch env j = Committed" "\<And>j. \<not> sw_gone env j"
    and "now = sw_now env" "grace = sw_now env - xs_GiftWrapGrace cfg div ns_per_sec"
  shows "\<exists>r. Sweep cfg env t = Some (r, alive now grace t) \<and> \<not> sr_failed r \<and>
    sr_Deleted r = int (length (filter (due now grace) t))"
proof -
  obtain bad tot t' where run: "sweep_batches env now grace (xs_BatchSize cfg) 0 0 t = Some (bad, tot, t')"
    using sweep_batches_quiet [OF assms(2) _ assms(1), of 0 now grace "xs_BatchSize cfg" 0] assms(3) by (auto simp: alone_def)
  have swept: "t' = alive now grace t" "\<not> bad"
    using sweep_batches_complete [OF run assms(1,2,5,7,8,3)] by simp_all
  have "tot = int (length t) - int (length t')"
    using sweep_batches_safe [OF run assms(1-3)] swept(2) by simp
  moreover have "length t = length (filter (due now grace) t) + length (alive now grace t)"
    by (rule sum_length_filter_compl [symmetric])
  ultimately have "tot = int (length (filter (due now grace) t))" using swept(1) by simp
  with run swept assms(4,6,9,10) show ?thesis
    by (simp add: Sweep_def liveRun_def countExpired_def no_result_def Let_def)
qed

text \<open>C35: For an event with one readable expiration the sweep and the relay agree: outside gift wraps, which get the
  grace period, exactly the events the relay already refuses and hides are due.\<close>

theorem sweep_agrees_with_gate:
  assumes "0 < n" "n < 10 ^ 18" "ev_tags e = before @ [''expiration'', fmt_d n] # after"
    and "all_tags (before @ after) ''expiration'' = []"
  shows "due (now_unix ctx) grace e \<longleftrightarrow> (if ev_kind e = kindGiftWrap then n < grace else IsExpired ctx e)"
  using one_expiration [OF assms] assms(1) by (auto simp: due_def IsExpired_def GetExpiration_def Let_def)

definition short_note :: "string \<Rightarrow> int \<Rightarrow> event" where
  "short_note i t = \<lparr>ev_id = i, ev_pubkey = ''alice'', ev_created_at = 0, ev_kind = 1, ev_tags = [[''expiration'', fmt_d t]], ev_content = ''''\<rparr>"

definition quiet_sweep :: sweep_env where
  "quiet_sweep = \<lparr>sw_now = 100, sw_count = True, sw_batch = (\<lambda>_. Committed), sw_scan = (\<lambda>_ t. t), sw_gone = (\<lambda>_. False),
    sw_arrivals = (\<lambda>_. []), sw_removed = (\<lambda>_ _. False)\<rparr>"

lemma short_note_due: "0 < t \<Longrightarrow> t < 10 ^ 18 \<Longrightarrow> due 100 g (short_note i t) \<longleftrightarrow> t < 100"
  by (simp add: due_def short_note_def due_tag_def sweep_number_fmt_d kindGiftWrap_def)

lemma healthy_sweep_deletes_all_due_witness:
  "\<exists>r. Sweep (expiry_DefaultConfig\<lparr>xs_DryRun := False\<rparr>) quiet_sweep [short_note ''a'' 50, short_note ''b'' 200]
     = Some (r, [short_note ''b'' 200]) \<and> \<not> sr_failed r \<and> sr_Deleted r = 1"
  using healthy_sweep_deletes_all_due [of "[short_note ''a'' 50, short_note ''b'' 200]" quiet_sweep
      "expiry_DefaultConfig\<lparr>xs_DryRun := False\<rparr>" 100 "100 - 30 * 24 * 3600"]
  by (simp add: short_note_due) (simp add: short_note_def quiet_sweep_def visits_rows_def alone_def expiry_DefaultConfig_def)

lemma sweep_deletes_only_due_witness:
  "\<exists>r t'. Sweep expiry_DefaultConfig quiet_sweep [short_note ''a'' 50] = Some (r, t') \<and> t' = [short_note ''a'' 50]"
proof -
  obtain r t' where run: "Sweep expiry_DefaultConfig quiet_sweep [short_note ''a'' 50] = Some (r, t')"
    by (auto simp: Sweep_def expiry_DefaultConfig_def Let_def)
  have "distinct (map ev_id [short_note ''a'' 50])" "visits_rows quiet_sweep" "alone quiet_sweep"
    by (simp_all add: visits_rows_def quiet_sweep_def alone_def)
  from sweep_deletes_only_due [OF this run refl refl] run show ?thesis by (auto simp: expiry_DefaultConfig_def)
qed

lemma sweep_agrees_with_gate_witness:
  "due (now_unix \<lparr>ctx_authed = '''', ctx_ip = '''', ctx_now = 100 * ns_per_sec\<rparr>) 0 (short_note ''a'' 50) \<longleftrightarrow>
   IsExpired \<lparr>ctx_authed = '''', ctx_ip = '''', ctx_now = 100 * ns_per_sec\<rparr> (short_note ''a'' 50)"
  using sweep_agrees_with_gate [of 50 "short_note ''a'' 50" "[]" "[]"
      "\<lparr>ctx_authed = '''', ctx_ip = '''', ctx_now = 100 * ns_per_sec\<rparr>" 0]
  by (simp add: short_note_def kindGiftWrap_def)

lemma sweep_terminates_witness:
  "\<exists>r. Sweep (expiry_DefaultConfig\<lparr>xs_DryRun := False\<rparr>) (quiet_sweep\<lparr>sw_arrivals := \<lambda>i. [short_note (replicate i (CHR ''n'')) 150]\<rparr>)
     [short_note ''a'' 50] = Some r"
proof (rule sweep_terminates [OF _ _ _ disjI1])
  let ?env = "quiet_sweep\<lparr>sw_arrivals := \<lambda>i. [short_note (replicate i (CHR ''n'')) 150]\<rparr>"
  let ?ctx = "\<lparr>ctx_authed = '''', ctx_ip = '''', ctx_now = 100 * ns_per_sec\<rparr>"
  have plain: "plain_expiration (short_note i 150)" for i
    unfolding plain_expiration_def
    by (rule disjI2, intro exI [of _ 150] exI [of _ "[]"]) (simp add: short_note_def)
  have acc: "rejectExpiredEvents ?ctx (short_note i 150) = Accept" for i
    by (simp add: rejectExpiredEvents_def short_note_def IsExpired_def GetExpiration_def Let_def ParseInt64_fmt_d in_i64_def now_unix_def)
  have now: "sw_now ?env \<le> now_unix ?ctx" by (simp add: quiet_sweep_def now_unix_def)
  show "\<exists>k. \<forall>j \<ge> k. \<forall>e \<in> set (sw_arrivals ?env j). plain_expiration e \<and>
      (\<exists>ctx. sw_now ?env \<le> now_unix ctx \<and> rejectExpiredEvents ctx e = Accept)"
    using plain acc now by (intro exI [of _ 0]) auto
qed (simp_all add: visits_rows_def quiet_sweep_def expiry_DefaultConfig_def)

text \<open>The proviso is needed: an event that expires at zero is accepted by the relay and due for the sweep, and
  while one arrives between any two batches (the same one will do) the sweep never ends.\<close>

theorem sweep_can_run_forever:
  assumes "0 < now_unix ctx" "sw_now env = now_unix ctx" "sw_count env" "\<not> xs_DryRun cfg" "0 < xs_BatchSize cfg"
    and "\<And>i. sw_batch env i = Committed \<and> \<not> sw_gone env i \<and> sw_scan env i = id \<and> sw_arrivals env i = [short_note ''a'' 0]"
  shows "rejectExpiredEvents ctx (short_note ''a'' 0) = Accept \<and> Sweep cfg env [] = None"
proof
  show "rejectExpiredEvents ctx (short_note ''a'' 0) = Accept"
    by (simp add: rejectExpiredEvents_def short_note_def IsExpired_def GetExpiration_def Let_def ParseInt64_fmt_d in_i64_def)
  let ?now = "sw_now env" and ?grace = "sw_now env - xs_GiftWrapGrace cfg div ns_per_sec"
  have d: "due ?now ?grace (short_note ''a'' 0)"
    using assms(1,2) by (simp add: due_def short_note_def kindGiftWrap_def due_tag_def sweep_number_fmt_d)
  have rows: "others env i [] = [short_note ''a'' 0]" for i using assms(6) by (simp add: others_def insert_row_def)
  have batch: "deleteBatch Committed id ?now ?grace (xs_BatchSize cfg) [short_note ''a'' 0] = (Some 1, [])"
    using d assms(5) by (simp add: deleteBatch_def Let_def take_Cons')
  have never: "e' = env \<and> n = ?now \<and> g = ?grace \<and> l = xs_BatchSize cfg \<and> t = [] \<longrightarrow> False"
    if "sweep_batches e' n g l i tot t = Some r" for e' n g l i tot t r
    by (rule sweep_batches.raw_induct [OF _ that, of "\<lambda>e' n g l i tot t r. e' = env \<and> n = ?now \<and> g = ?grace \<and>
        l = xs_BatchSize cfg \<and> t = [] \<longrightarrow> False"]) (auto simp: assms(6) rows batch, blast)
  then have "sweep_batches env ?now ?grace (xs_BatchSize cfg) 0 0 [] = None" by (metis (no_types) not_None_eq)
  with assms(3,4) show "Sweep cfg env [] = None" by (simp add: Sweep_def liveRun_def countExpired_def Let_def)
qed

lemma sweep_can_run_forever_witness:
  "Sweep (expiry_DefaultConfig\<lparr>xs_DryRun := False\<rparr>)
     (quiet_sweep\<lparr>sw_scan := \<lambda>_. id, sw_arrivals := \<lambda>_. [short_note ''a'' 0]\<rparr>) [] = None"
  using sweep_can_run_forever [of "\<lparr>ctx_authed = '''', ctx_ip = '''', ctx_now = 100 * ns_per_sec\<rparr>"
      "quiet_sweep\<lparr>sw_scan := \<lambda>_. id, sw_arrivals := \<lambda>_. [short_note ''a'' 0]\<rparr>" "expiry_DefaultConfig\<lparr>xs_DryRun := False\<rparr>"]
  by (simp add: now_unix_def quiet_sweep_def expiry_DefaultConfig_def)

text \<open>With several expiration tags they disagree: the relay goes by the first that reads, the sweep by any. An
  event the relay still accepts and serves is deleted.\<close>

theorem sweep_deletes_unexpired_event:
  "\<exists>e ctx. rejectExpiredEvents ctx e = Accept \<and> \<not> IsExpired ctx e \<and> due (now_unix ctx) grace e"
proof (intro exI conjI)
  let ?e = "(short_note ''a'' 200)\<lparr>ev_tags := [[''expiration'', ''200''], [''expiration'', ''50'']]\<rparr>"
  let ?ctx = "\<lparr>ctx_authed = '''', ctx_ip = '''', ctx_now = 100 * ns_per_sec\<rparr>"
  show "\<not> IsExpired ?ctx ?e" and "rejectExpiredEvents ?ctx ?e = Accept"
    by (simp_all add: rejectExpiredEvents_def IsExpired_def GetExpiration_def Let_def ParseInt64_def parse_unsigned_def digit_of_def
        now_unix_def in_i64_def)
  show "due (now_unix ?ctx) grace ?e"
    by (simp add: due_def short_note_def kindGiftWrap_def due_tag_def sweep_number_def parse_unsigned_def digit_of_def now_unix_def)
qed

text \<open>An expiration of zero means no expiration to the relay, and an expiration long past to the sweep.\<close>

theorem sweep_deletes_zero_expiration:
  assumes "0 < now_unix ctx"
  shows "\<not> IsExpired ctx (short_note i 0) \<and> due (now_unix ctx) grace (short_note i 0)"
  using assms by (simp add: short_note_def IsExpired_def GetExpiration_def Let_def ParseInt64_fmt_d in_i64_def due_def kindGiftWrap_def
      due_tag_def sweep_number_fmt_d)

end
