(* ===== verification/Pod_Broadcast.thy ===== *)
theory Pod_Broadcast
  imports Nostr_Data "HOL-Library.Sublist"
begin

text \<open>
  internal/pubsub/pubsub.go: relay processes (pods) hand the events they store, and ephemeral events, to one
  another over a Redis channel. A pod has a bounded buffer of events to publish, a subscription with the messages
  that wait on it, and an identifier by which it skips its own messages. JSON is taken to be invertible,
  so a message is either decoded or garbled.

  \<open>pb_accepted\<close> (events taken into the buffer) and the sender in \<open>pb_shown\<close> (events given to
  \<open>BroadcastEvent\<close>) are ghosts: the code keeps neither.
\<close>

section \<open>One pod\<close>

definition PublishBufferSize :: nat where
  "PublishBufferSize = 1000"

record pubsub_config =
  pb_Enabled :: bool

definition pubsub_DefaultConfig :: pubsub_config where
  "pubsub_DefaultConfig = \<lparr>pb_Enabled = True\<rparr>"

datatype message = Garbled | Message string "event option"

record pod =
  pb_podID :: string
  pb_publishCh :: "event list"
  pb_dropped :: nat
  pb_subscribed :: bool
  pb_inbox :: "message list"
  pb_shown :: "(string \<times> event) list"
  pb_accepted :: "event list"

text \<open>The identifier is made of two readings of the clock: \<open>UnixNano\<close> and the nanoseconds of the
  second.\<close>

definition New :: "int \<Rightarrow> int \<Rightarrow> pod" where
  "New now now' = \<lparr>pb_podID = fmt_d now @ ''-'' @ fmt_d (now' mod ns_per_sec), pb_publishCh = [], pb_dropped = 0,
     pb_subscribed = False, pb_inbox = [], pb_shown = [], pb_accepted = []\<rparr>"

text \<open>\<open>Publish\<close>, which both hooks call: never blocks, drops when the buffer is full.\<close>

definition Publish :: "bool \<Rightarrow> pubsub_config \<Rightarrow> event \<Rightarrow> pod \<Rightarrow> pod" where
  "Publish have cfg ev p =
     (if \<not> have \<or> \<not> pb_Enabled cfg then p
      else if length (pb_publishCh p) < PublishBufferSize
      then p\<lparr>pb_publishCh := pb_publishCh p @ [ev], pb_accepted := pb_accepted p @ [ev]\<rparr>
      else p\<lparr>pb_dropped := pb_dropped p + 1\<rparr>)"

definition handleMessage :: "message \<Rightarrow> pod \<Rightarrow> pod" where
  "handleMessage m p =
     (case m of
        Garbled \<Rightarrow> p
      | Message sender body \<Rightarrow>
          if sender = pb_podID p then p
          else case body of None \<Rightarrow> p | Some ev \<Rightarrow> p\<lparr>pb_shown := pb_shown p @ [(sender, ev)]\<rparr>)"

text \<open>One turn of \<open>subscribe\<close>'s loop.\<close>

definition receive :: "pod \<Rightarrow> pod" where
  "receive p = (case pb_inbox p of [] \<Rightarrow> p | m # ms \<Rightarrow> handleMessage m (p\<lparr>pb_inbox := ms\<rparr>))"

section \<open>All pods\<close>

text \<open>Redis hands a message to every subscriber, the sender included, in the order of the channel.\<close>

definition doPublish :: "bool \<Rightarrow> string \<Rightarrow> event \<Rightarrow> pod list \<Rightarrow> pod list" where
  "doPublish ok sender ev ps =
     (if ok then map (\<lambda>p. if pb_subscribed p then p\<lparr>pb_inbox := pb_inbox p @ [Message sender (Some ev)]\<rparr> else p) ps else ps)"

text \<open>One turn of \<open>publishLoop\<close> of pod \<open>i\<close>.\<close>

definition publish_turn :: "bool \<Rightarrow> nat \<Rightarrow> pod list \<Rightarrow> pod list" where
  "publish_turn ok i ps =
     (case pb_publishCh (ps ! i) of
        [] \<Rightarrow> ps
      | ev # evs \<Rightarrow> doPublish ok (pb_podID (ps ! i)) ev (ps[i := (ps ! i)\<lparr>pb_publishCh := evs\<rparr>]))"

text \<open>What can happen: a hook runs, a loop takes a turn, a subscription starts or ends (and loses
  what waits on it), a waiting message is lost.\<close>

datatype pod_event = Hook nat event | PublishTurn bool nat | ReceiveTurn nat | Subscribe nat | Hangup nat | Lose nat

fun pod_step :: "pubsub_config \<Rightarrow> pod_event \<Rightarrow> pod list \<Rightarrow> pod list" where
  "pod_step cfg (Hook i ev) ps = (if i < length ps then ps[i := Publish True cfg ev (ps ! i)] else ps)"
| "pod_step cfg (PublishTurn ok i) ps = (if i < length ps then publish_turn ok i ps else ps)"
| "pod_step cfg (ReceiveTurn i) ps = (if i < length ps then ps[i := receive (ps ! i)] else ps)"
| "pod_step cfg (Subscribe i) ps = (if i < length ps then ps[i := (ps ! i)\<lparr>pb_subscribed := True\<rparr>] else ps)"
| "pod_step cfg (Hangup i) ps = (if i < length ps then ps[i := (ps ! i)\<lparr>pb_subscribed := False, pb_inbox := []\<rparr>] else ps)"
| "pod_step cfg (Lose i) ps = (if i < length ps then ps[i := (ps ! i)\<lparr>pb_inbox := tl (pb_inbox (ps ! i))\<rparr>] else ps)"

definition pod_run :: "pubsub_config \<Rightarrow> pod_event list \<Rightarrow> pod list \<Rightarrow> pod list" where
  "pod_run cfg xs ps = fold (pod_step cfg) xs ps"

section \<open>Facts\<close>

subsection \<open>Identifiers\<close>

lemma nat_digits_no_dash: "CHR ''-'' \<notin> set (nat_digits n)"
proof (induction n rule: nat_digits.induct)
  case (1 n)
  have dash: "(of_char CHR ''-'' :: nat) = 45" by simp
  have "CHR ''-'' \<noteq> char_of (48 + d)" if "d < 10" for d :: nat
  proof
    assume "CHR ''-'' = char_of (48 + d)"
    then have "(of_char CHR ''-'' :: nat) = of_char (char_of (48 + d) :: char)" by simp
    with that dash show False by simp
  qed
  with 1 show ?case by (cases "n < 10") (simp_all add: nat_digits.simps [of n])
qed

lemma fmt_d_inj: "in_i64 a \<Longrightarrow> in_i64 b \<Longrightarrow> fmt_d a = fmt_d b \<Longrightarrow> a = b"
  by (metis ParseInt64_fmt_d option.inject)

lemma pod_id_inj:
  assumes "pb_podID (New a a') = pb_podID (New b b')" "0 \<le> a" "0 \<le> b" "in_i64 a" "in_i64 b"
  shows "a = b"
proof -
  have "CHR ''-'' \<notin> set (fmt_d a)" "CHR ''-'' \<notin> set (fmt_d b)"
    using assms(2,3) nat_digits_no_dash by (simp_all add: fmt_d_def)
  then have cut: "takeWhile (\<lambda>c. c \<noteq> CHR ''-'') (fmt_d x @ ''-'' @ r) = fmt_d x" if "x = a \<or> x = b" for x r
    using that by (subst takeWhile_append2) auto
  have "fmt_d a = fmt_d b" using assms(1) cut [of a] cut [of b] by (simp add: New_def) metis
  then show ?thesis using fmt_d_inj assms(4,5) by blast
qed

subsection \<open>What comes from one sender\<close>

fun from_in :: "string \<Rightarrow> message list \<Rightarrow> event list" where
  "from_in s [] = []"
| "from_in s (Message t (Some ev) # ms) = (if t = s then ev # from_in s ms else from_in s ms)"
| "from_in s (_ # ms) = from_in s ms"

lemma from_in_append [simp]: "from_in s (ms @ ns) = from_in s ms @ from_in s ns"
  by (induction s ms rule: from_in.induct) auto

definition heard_from :: "string \<Rightarrow> pod \<Rightarrow> event list" where
  "heard_from s p = map snd (filter (\<lambda>(t, ev). t = s) (pb_shown p))"

text \<open>Between pods \<open>i\<close> and \<open>j\<close>: heard, waiting and not yet published, a subsequence of what \<open>j\<close> accepted.\<close>

definition channel_ok :: "pod \<Rightarrow> pod \<Rightarrow> bool" where
  "channel_ok p q \<longleftrightarrow> subseq (heard_from (pb_podID q) p @ from_in (pb_podID q) (pb_inbox p) @ pb_publishCh q) (pb_accepted q)"

definition pods_ok :: "pod list \<Rightarrow> bool" where
  "pods_ok ps \<longleftrightarrow> distinct (map pb_podID ps) \<and>
     (\<forall>i < length ps. heard_from (pb_podID (ps ! i)) (ps ! i) = [] \<and>
       (\<forall>j < length ps. i \<noteq> j \<longrightarrow> channel_ok (ps ! i) (ps ! j)))"


lemma pods_ok_update:
  assumes "pods_ok ps" "i < length ps" "pb_podID p = pb_podID (ps ! i)" "heard_from (pb_podID p) p = []"
    and reads: "\<And>q. pb_podID q \<noteq> pb_podID p \<Longrightarrow> channel_ok (ps ! i) q \<Longrightarrow> channel_ok p q"
    and writes: "\<And>q. channel_ok q (ps ! i) \<Longrightarrow> channel_ok q p"
  shows "pods_ok (ps[i := p])"
proof -
  have ids: "map pb_podID (ps[i := p]) = map pb_podID ps"
    using assms(2,3) by (simp add: map_update list_update_same_conv)
  have apart: "pb_podID (ps ! j) \<noteq> pb_podID (ps ! k)" if "j < length ps" "k < length ps" "j \<noteq> k" for j k
    using assms(1) that by (auto simp: pods_ok_def distinct_conv_nth)
  show ?thesis
    unfolding pods_ok_def ids
  proof (intro conjI allI impI)
    show "distinct (map pb_podID ps)" using assms(1) by (simp add: pods_ok_def)
    fix j assume j: "j < length (ps[i := p])"
    then show "heard_from (pb_podID (ps[i := p] ! j)) (ps[i := p] ! j) = []"
      using assms by (cases "j = i") (auto simp: pods_ok_def)
    fix k assume k: "k < length (ps[i := p])" "j \<noteq> k"
    have ch: "channel_ok (ps ! j) (ps ! k)" using assms(1) j k by (simp add: pods_ok_def)
    show "channel_ok (ps[i := p] ! j) (ps[i := p] ! k)"
    proof (cases "j = i")
      case True
      with ch reads [of "ps ! k"] apart [of k i] assms(2,3) k show ?thesis by simp
    next
      case False
      with ch writes [of "ps ! j"] assms(2) show ?thesis by (cases "k = i") auto
    qed
  qed
qed

lemma channel_ok_shrink:
  assumes "channel_ok p q" "subseq xs (from_in (pb_podID q) (pb_inbox p))"
    "heard_from (pb_podID q) p' = heard_from (pb_podID q) p" "from_in (pb_podID q) (pb_inbox p') = xs"
  shows "channel_ok p' q"
proof -
  have "subseq (h @ xs @ c) (h @ from_in (pb_podID q) (pb_inbox p) @ c)" for h c
    using assms(2) by (intro list_emb_append_mono) simp_all
  then show ?thesis using assms(1,3,4) unfolding channel_ok_def by (metis subseq_order.trans)
qed

lemma from_in_tl: "subseq (from_in s (tl ms)) (from_in s ms)"
  by (cases "(s, ms)" rule: from_in.cases) auto

lemma channel_ok_receive:
  assumes "channel_ok p q" "pb_podID q \<noteq> pb_podID p"
  shows "channel_ok (receive p) q"
  using assms by (auto simp: receive_def handleMessage_def channel_ok_def heard_from_def split: list.split message.split option.split)

lemma receive_self: "heard_from (pb_podID p) p = [] \<Longrightarrow> heard_from (pb_podID (receive p)) (receive p) = []"
  by (auto simp: receive_def handleMessage_def heard_from_def split: list.split message.split option.split)

lemma channel_ok_publish:
  assumes "channel_ok q p" shows "channel_ok q (Publish have cfg ev p)"
proof -
  have "subseq ((heard_from (pb_podID p) q @ from_in (pb_podID p) (pb_inbox q) @ pb_publishCh p) @ [ev]) (pb_accepted p @ [ev])"
    using assms by (intro list_emb_append_mono) (simp_all add: channel_ok_def)
  then show ?thesis using assms by (simp add: channel_ok_def Publish_def)
qed

lemma pods_ok_publish_turn:
  assumes "pods_ok ps" "i < length ps"
  shows "pods_ok (publish_turn ok i ps)"
proof (cases "pb_publishCh (ps ! i)")
  case Nil
  then show ?thesis using assms by (simp add: publish_turn_def)
next
  case (Cons ev evs)
  let ?s = "pb_podID (ps ! i)" and ?p = "(ps ! i)\<lparr>pb_publishCh := evs\<rparr>"
  define got where "got = (\<lambda>p :: pod. if ok \<and> pb_subscribed p then p\<lparr>pb_inbox := pb_inbox p @ [Message ?s (Some ev)]\<rparr> else p)"
  have turn: "publish_turn ok i ps = map got (ps[i := ?p])"
    by (simp add: publish_turn_def Cons doPublish_def got_def)
  have same: "pb_podID (got p) = pb_podID p" "heard_from s (got p) = heard_from s p" "pb_publishCh (got p) = pb_publishCh p"
    "pb_accepted (got p) = pb_accepted p" "pb_shown (got p) = pb_shown p" for p s by (simp_all add: got_def heard_from_def)
  have nth: "publish_turn ok i ps ! j = got (if j = i then ?p else ps ! j)" if "j < length ps" for j
    using that assms(2) by (simp add: turn nth_list_update)
  have len: "length (publish_turn ok i ps) = length ps" by (simp add: turn)
  have ids: "map pb_podID (publish_turn ok i ps) = map pb_podID ps"
    using assms(2) by (intro nth_equalityI) (auto simp: len nth same)
  have chan: "channel_ok (got p) q'"
    if "channel_ok p q" "if q = ps ! i then q' = got ?p else pb_podID q \<noteq> ?s \<and> q' = got q" for p q q'
  proof (cases "q = ps ! i")
    case True
    have "subseq (heard_from ?s p @ from_in ?s (pb_inbox p) @ ev # evs) (pb_accepted (ps ! i))"
      using that(1) True Cons by (simp add: channel_ok_def)
    moreover have "subseq (heard_from ?s p @ from_in ?s (pb_inbox p) @ evs) (heard_from ?s p @ from_in ?s (pb_inbox p) @ ev # evs)"
      by (intro list_emb_append_mono) auto
    ultimately have "subseq (heard_from ?s p @ from_in ?s (pb_inbox p) @ evs) (pb_accepted (ps ! i))"
      "subseq (heard_from ?s p @ (from_in ?s (pb_inbox p) @ [ev]) @ evs) (pb_accepted (ps ! i))"
      using subseq_order.trans by auto
    then show ?thesis using that(2) True by (simp add: channel_ok_def same) (simp add: got_def)
  next
    case False
    then have "from_in (pb_podID q) (pb_inbox (got p)) = from_in (pb_podID q) (pb_inbox p)"
      using that(2) by (auto simp: got_def)
    then show ?thesis using that False by (simp add: channel_ok_def same)
  qed
  have apart: "pb_podID (ps ! j) \<noteq> pb_podID (ps ! k)" if "j < length ps" "k < length ps" "j \<noteq> k" for j k
    using assms(1) that by (auto simp: pods_ok_def distinct_conv_nth)
  show ?thesis
    unfolding pods_ok_def ids len
  proof (intro conjI allI impI)
    show "distinct (map pb_podID ps)" using assms(1) by (simp add: pods_ok_def)
    fix j assume j: "j < length ps"
    then show "heard_from (pb_podID (publish_turn ok i ps ! j)) (publish_turn ok i ps ! j) = []"
      using assms(1) by (cases "j = i") (auto simp: nth same pods_ok_def heard_from_def)
    fix k assume k: "k < length ps" "j \<noteq> k"
    have "channel_ok (ps ! j) (ps ! k)" using assms(1) j k by (simp add: pods_ok_def)
    then have "channel_ok (if j = i then ?p else ps ! j) (ps ! k)" by (auto simp: channel_ok_def heard_from_def)
    moreover have "ps ! k = ps ! i \<longleftrightarrow> k = i" using apart assms(2) k(1) by metis
    ultimately show "channel_ok (publish_turn ok i ps ! j) (publish_turn ok i ps ! k)"
      using chan [of "if j = i then ?p else ps ! j" "ps ! k" "publish_turn ok i ps ! k"] j k apart [of k i] assms(2)
      by (cases "k = i") (simp_all add: nth)
  qed
qed

lemma pods_ok_step: "pods_ok ps \<Longrightarrow> pods_ok (pod_step cfg x ps)"
proof (cases x)
  case (Hook i ev)
  assume ok: "pods_ok ps"
  show ?thesis
  proof (cases "i < length ps")
    case True
    have "pods_ok (ps[i := Publish True cfg ev (ps ! i)])"
      using ok True by (intro pods_ok_update channel_ok_publish) (auto simp: pods_ok_def Publish_def channel_ok_def heard_from_def)
    with True Hook show ?thesis by simp
  qed (simp add: Hook ok)
next
  case (PublishTurn b i)
  then show "pods_ok ps \<Longrightarrow> ?thesis" by (simp add: pods_ok_publish_turn)
next
  case (ReceiveTurn i)
  assume ok: "pods_ok ps"
  have keep: "pb_podID (receive p) = pb_podID p" "pb_publishCh (receive p) = pb_publishCh p" "pb_accepted (receive p) = pb_accepted p" for p
    by (auto simp: receive_def handleMessage_def split: list.split message.split option.split)
  show ?thesis
  proof (cases "i < length ps")
    case True
    have "pods_ok (ps[i := receive (ps ! i)])"
      using ok True receive_self channel_ok_receive
      by (intro pods_ok_update) (auto simp: keep pods_ok_def channel_ok_def)
    with True ReceiveTurn show ?thesis by simp
  qed (simp add: ReceiveTurn ok)
next
  case (Subscribe i)
  assume ok: "pods_ok ps"
  show ?thesis
  proof (cases "i < length ps")
    case True
    have "pods_ok (ps[i := (ps ! i)\<lparr>pb_subscribed := True\<rparr>])"
      using ok True by (intro pods_ok_update) (auto simp: pods_ok_def channel_ok_def heard_from_def)
    with True Subscribe show ?thesis by simp
  qed (simp add: Subscribe ok)
next
  case (Hangup i)
  assume ok: "pods_ok ps"
  show ?thesis
  proof (cases "i < length ps")
    case True
    have "pods_ok (ps[i := (ps ! i)\<lparr>pb_subscribed := False, pb_inbox := []\<rparr>])"
      using ok True channel_ok_shrink [where xs = "[]" and p = "ps ! i" and p' = "(ps ! i)\<lparr>pb_subscribed := False, pb_inbox := []\<rparr>"]
      by (intro pods_ok_update) (auto simp: pods_ok_def heard_from_def channel_ok_def)
    with True Hangup show ?thesis by simp
  qed (simp add: Hangup ok)
next
  case (Lose i)
  assume ok: "pods_ok ps"
  let ?p = "(ps ! i)\<lparr>pb_inbox := tl (pb_inbox (ps ! i))\<rparr>"
  show ?thesis
  proof (cases "i < length ps")
    case True
    have "channel_ok ?p q" if "channel_ok (ps ! i) q" for q
      using that from_in_tl by (rule channel_ok_shrink) (simp_all add: heard_from_def)
    with ok True have "pods_ok (ps[i := ?p])"
      by (intro pods_ok_update) (auto simp: pods_ok_def heard_from_def channel_ok_def)
    with True Lose show ?thesis by simp
  qed (simp add: Lose ok)
qed

lemma pods_ok_run: "pods_ok ps \<Longrightarrow> pods_ok (pod_run cfg xs ps)"
  unfolding pod_run_def by (induction xs arbitrary: ps) (simp_all add: pods_ok_step)


subsection \<open>Starting up\<close>

definition boot :: "(int \<times> int) list \<Rightarrow> pod list" where
  "boot starts = map (\<lambda>(a, b). New a b) starts"

lemma pods_ok_boot:
  assumes "distinct (map fst starts)" "list_all (\<lambda>(a, b). 0 \<le> a \<and> in_i64 a) starts"
  shows "pods_ok (boot starts)"
proof -
  have "x = y" if "x \<in> set starts" "y \<in> set starts" "pb_podID (case x of (a, b) \<Rightarrow> New a b) = pb_podID (case y of (a, b) \<Rightarrow> New a b)" for x y
  proof -
    obtain a b c d where xy: "x = (a, b)" "y = (c, d)" by (cases x; cases y)
    have "0 \<le> a \<and> in_i64 a" "0 \<le> c \<and> in_i64 c" using assms(2) that xy by (auto simp: list_all_iff)
    with pod_id_inj [of a b c d] that(3) xy have "fst x = fst y" by simp
    with assms(1) that(1,2) show ?thesis by (auto simp: distinct_map dest: inj_onD)
  qed
  then have "distinct (map pb_podID (boot starts))"
    using assms(1) by (auto simp: boot_def distinct_map inj_on_def)
  moreover have "pb_shown p = [] \<and> pb_inbox p = [] \<and> pb_publishCh p = []" if "p \<in> set (boot starts)" for p
    using that by (auto simp: boot_def New_def)
  ultimately show ?thesis by (auto simp: pods_ok_def channel_ok_def heard_from_def)
qed

lemma length_pod_step [simp]: "length (pod_step cfg x ps) = length ps"
  by (cases x) (simp_all add: publish_turn_def doPublish_def split: list.split)

lemma length_pod_run [simp]: "length (pod_run cfg xs ps) = length ps"
  unfolding pod_run_def by (induction xs arbitrary: ps) simp_all

lemma buffer_bounded_step:
  "\<forall>i < length ps. length (pb_publishCh (ps ! i)) \<le> PublishBufferSize \<Longrightarrow> j < length ps \<Longrightarrow>
   length (pb_publishCh (pod_step cfg x ps ! j)) \<le> PublishBufferSize"
  by (cases x)
    (auto simp: nth_list_update Publish_def publish_turn_def doPublish_def receive_def handleMessage_def
      dest: spec [of _ j] split: list.split message.split option.split)

lemma buffer_bounded_run:
  "\<forall>i < length ps. length (pb_publishCh (ps ! i)) \<le> PublishBufferSize \<Longrightarrow> j < length ps \<Longrightarrow>
   length (pb_publishCh (pod_run cfg xs ps ! j)) \<le> PublishBufferSize"
  unfolding pod_run_def
proof (induction xs arbitrary: ps)
  case (Cons x xs)
  then show ?case using buffer_bounded_step [of ps _ cfg x] by simp
qed simp

subsection \<open>Delivery from pod \<open>i\<close> to pod \<open>j\<close>\<close>

text \<open>What Redis and the two pods must not do: fail a publication of \<open>i\<close>, end \<open>j\<close>'s subscription, lose what
  waits on it. All else may happen, at any time.\<close>

definition undisturbed :: "nat \<Rightarrow> nat \<Rightarrow> pod_event \<Rightarrow> bool" where
  "undisturbed i j x \<longleftrightarrow> x \<noteq> PublishTurn False i \<and> x \<noteq> Hangup j \<and> x \<noteq> Lose j"

definition linked :: "nat \<Rightarrow> nat \<Rightarrow> pod list \<Rightarrow> bool" where
  "linked i j ps \<longleftrightarrow> i < length ps \<and> j < length ps \<and> i \<noteq> j \<and> distinct (map pb_podID ps) \<and> pb_subscribed (ps ! j)"

text \<open>What \<open>j\<close> has of \<open>i\<close>, shown or waiting.\<close>

definition arrived :: "nat \<Rightarrow> nat \<Rightarrow> pod list \<Rightarrow> event list" where
  "arrived i j ps = heard_from (pb_podID (ps ! i)) (ps ! j) @ from_in (pb_podID (ps ! i)) (pb_inbox (ps ! j))"

lemma receive_keeps [simp]: "pb_podID (receive p) = pb_podID p" "pb_publishCh (receive p) = pb_publishCh p"
  "pb_subscribed (receive p) = pb_subscribed p"
  by (auto simp: receive_def handleMessage_def split: list.split message.split option.split)

lemma Publish_keeps [simp]: "pb_podID (Publish have cfg ev p) = pb_podID p" "pb_subscribed (Publish have cfg ev p) = pb_subscribed p"
  "pb_inbox (Publish have cfg ev p) = pb_inbox p" "heard_from s (Publish have cfg ev p) = heard_from s p"
  by (auto simp: Publish_def heard_from_def)

lemma pod_step_ids: "map pb_podID (pod_step cfg x ps) = map pb_podID ps"
  by (cases x)
    (auto simp: map_update publish_turn_def doPublish_def comp_def list_update_same_conv cong: map_cong split: list.split
      intro!: nth_equalityI simp: nth_list_update)

lemma pod_step_id: "k < length ps \<Longrightarrow> pb_podID (pod_step cfg x ps ! k) = pb_podID (ps ! k)"
  using pod_step_ids [of cfg x ps] by (metis length_pod_step nth_map)

lemma linked_step: "linked i j ps \<Longrightarrow> undisturbed i j x \<Longrightarrow> linked i j (pod_step cfg x ps)"
  unfolding linked_def pod_step_ids
  by (cases x) (auto simp: undisturbed_def nth_list_update publish_turn_def doPublish_def split: list.split)

lemma receive_flow:
  "s \<noteq> pb_podID p \<Longrightarrow> heard_from s (receive p) @ from_in s (pb_inbox (receive p)) = heard_from s p @ from_in s (pb_inbox p)"
  by (auto simp: receive_def handleMessage_def heard_from_def split: list.split message.split option.split)

lemma publish_turn_other:
  assumes "j < length ps" "k < length ps" "pb_podID (ps ! k) \<noteq> s"
  shows "heard_from s (publish_turn ok k ps ! j) = heard_from s (ps ! j)"
    "from_in s (pb_inbox (publish_turn ok k ps ! j)) = from_in s (pb_inbox (ps ! j))"
    "i < length ps \<Longrightarrow> i \<noteq> k \<Longrightarrow> pb_publishCh (publish_turn ok k ps ! i) = pb_publishCh (ps ! i)"
  using assms by (auto simp: publish_turn_def doPublish_def nth_list_update heard_from_def split: list.split)

text \<open>One step moves \<open>mv\<close> from the buffer to the other pod and adds \<open>new\<close> to the buffer.\<close>

lemma channel_step:
  assumes "linked i j ps" "undisturbed i j x"
  shows "\<exists>new mv. arrived i j (pod_step cfg x ps) = arrived i j ps @ mv \<and>
    pb_publishCh (ps ! i) @ new = mv @ pb_publishCh (pod_step cfg x ps ! i) \<and>
    (x = PublishTurn True i \<and> pb_publishCh (ps ! i) \<noteq> [] \<longrightarrow> mv \<noteq> [])"
proof -
  have ij: "i < length ps" "j < length ps" "i \<noteq> j" "pb_subscribed (ps ! j)" using assms(1) by (simp_all add: linked_def)
  have apart: "pb_podID (ps ! k) \<noteq> pb_podID (ps ! i)" if "k < length ps" "k \<noteq> i" for k
    using assms(1) that ij(1) by (auto simp: linked_def distinct_conv_nth)
  note id = pod_step_id [OF ij(1), of cfg x]
  show ?thesis
  proof (cases x)
    case (Hook k ev)
    then show ?thesis using ij id by (auto simp: arrived_def nth_list_update) (auto simp: Publish_def)
  next
    case (PublishTurn ok k)
    show ?thesis
    proof (cases "k < length ps \<and> k = i")
      case True
      with PublishTurn assms(2) have ok by (auto simp: undisturbed_def)
      show ?thesis
      proof (cases "pb_publishCh (ps ! i)")
        case Nil
        then show ?thesis using PublishTurn True by (auto simp: publish_turn_def)
      next
        case (Cons ev evs)
        then show ?thesis using PublishTurn True ij \<open>ok\<close>
          by (intro exI [of _ "[]"] exI [of _ "[ev]"])
            (simp add: publish_turn_def doPublish_def arrived_def heard_from_def nth_list_update)
      qed
    next
      case False
      then show ?thesis
        using PublishTurn ij id publish_turn_other [OF ij(2), of k "pb_podID (ps ! i)"] apart [of k]
        by (cases "k < length ps") (auto simp: arrived_def)
    qed
  next
    case (ReceiveTurn k)
    then show ?thesis
      using ij id receive_flow [of "pb_podID (ps ! i)" "ps ! j"] apart [of j]
      by (auto simp: arrived_def nth_list_update)
  next
    case (Subscribe k)
    then show ?thesis using ij id by (auto simp: arrived_def nth_list_update heard_from_def)
  next
    case (Hangup k)
    then show ?thesis using ij id assms(2) by (auto simp: undisturbed_def arrived_def nth_list_update heard_from_def)
  next
    case (Lose k)
    then show ?thesis using ij id assms(2) by (auto simp: undisturbed_def arrived_def nth_list_update heard_from_def)
  qed
qed

lemma publish_phase:
  assumes "linked i j ps" "list_all (undisturbed i j) xs" "prefix d (arrived i j ps @ pb_publishCh (ps ! i))"
    and "length d \<le> length (arrived i j ps) + count_list xs (PublishTurn True i)"
  shows "linked i j (pod_run cfg xs ps) \<and> prefix d (arrived i j (pod_run cfg xs ps))"
  using assms
proof (induction xs arbitrary: ps)
  case Nil
  then show ?case by (simp add: pod_run_def) (metis prefix_append prefix_length_prefix prefix_def)
next
  case (Cons x xs)
  let ?qs = "pod_step cfg x ps"
  from channel_step [OF Cons.prems(1), of x cfg] Cons.prems(2) obtain new mv where
    st: "arrived i j ?qs = arrived i j ps @ mv" "pb_publishCh (ps ! i) @ new = mv @ pb_publishCh (?qs ! i)"
      "x = PublishTurn True i \<and> pb_publishCh (ps ! i) \<noteq> [] \<longrightarrow> mv \<noteq> []" by auto
  have d: "prefix d (arrived i j ?qs @ pb_publishCh (?qs ! i))"
    using Cons.prems(3) st(1,2) by (metis append.assoc prefix_prefix)
  have "length d \<le> length (arrived i j ?qs) + count_list xs (PublishTurn True i)"
  proof (cases "x = PublishTurn True i \<and> pb_publishCh (ps ! i) = []")
    case True
    with Cons.prems(3) have "length d \<le> length (arrived i j ps)" by (auto dest: prefix_length_le)
    with st(1) show ?thesis by simp
  next
    case False
    with st Cons.prems(4) show ?thesis by (cases mv) (auto split: if_splits)
  qed
  with Cons.IH [of ?qs] linked_step [OF Cons.prems(1)] Cons.prems(2) d show ?case by (simp add: pod_run_def)
qed

text \<open>The messages that wait on \<open>j\<close> are worked off first, whatever is added behind them.\<close>

definition worked_off :: "string \<Rightarrow> event list \<Rightarrow> nat \<Rightarrow> pod \<Rightarrow> bool" where
  "worked_off s d n p \<longleftrightarrow> prefix d (heard_from s p) \<or>
     (\<exists>rest behind. pb_inbox p = rest @ behind \<and> length rest \<le> n \<and> heard_from s p @ from_in s rest = d)"

lemma worked_off_receive:
  assumes "s \<noteq> pb_podID p" "worked_off s d n p"
  shows "worked_off s d (n - 1) (receive p)"
proof (cases "prefix d (heard_from s p)")
  case True
  moreover have "prefix (heard_from s p) (heard_from s (receive p))"
    by (auto simp: receive_def handleMessage_def heard_from_def split: list.split message.split option.split)
  ultimately show ?thesis unfolding worked_off_def using prefix_order.trans by blast
next
  case False
  with assms(2) obtain rest behind where rb: "pb_inbox p = rest @ behind" "length rest \<le> n" "heard_from s p @ from_in s rest = d"
    by (auto simp: worked_off_def)
  with False obtain m ms where ms: "rest = m # ms" by (cases rest) auto
  have "heard_from s (receive p) @ from_in s ms = d" "pb_inbox (receive p) = ms @ behind"
    using rb ms assms(1)
    by (auto simp: receive_def handleMessage_def heard_from_def split: list.splits message.splits option.splits)
  moreover have "length ms \<le> n - 1" using rb(2) ms by simp
  ultimately show ?thesis unfolding worked_off_def by blast
qed

lemma worked_off_more:
  assumes "worked_off s d n p" "heard_from s q = heard_from s p" "\<exists>ms. pb_inbox q = pb_inbox p @ ms"
  shows "worked_off s d n q"
  using assms unfolding worked_off_def by (metis append.assoc)

lemma pod_step_inbox:
  assumes "linked i j ps" "undisturbed i j x" "x \<noteq> ReceiveTurn j"
  shows "heard_from s (pod_step cfg x ps ! j) = heard_from s (ps ! j) \<and> (\<exists>ms. pb_inbox (pod_step cfg x ps ! j) = pb_inbox (ps ! j) @ ms)"
proof (cases x)
  case (PublishTurn ok k)
  with assms show ?thesis
    by (auto simp: linked_def publish_turn_def doPublish_def nth_list_update heard_from_def split: list.split)
qed (use assms in \<open>auto simp: linked_def undisturbed_def nth_list_update, auto simp: heard_from_def\<close>)

lemma receive_phase:
  assumes "linked i j ps" "list_all (undisturbed i j) xs" "s = pb_podID (ps ! i)" "worked_off s d n (ps ! j)"
    and "n \<le> count_list xs (ReceiveTurn j)"
  shows "prefix d (heard_from s (pod_run cfg xs ps ! j))"
  using assms
proof (induction xs arbitrary: ps n)
  case Nil
  then show ?case by (auto simp: pod_run_def worked_off_def)
next
  case (Cons x xs)
  let ?qs = "pod_step cfg x ps"
  have ij: "i < length ps" "j < length ps" using Cons.prems(1) by (simp_all add: linked_def)
  have ne: "s \<noteq> pb_podID (ps ! j)" using Cons.prems(1,3) by (auto simp: linked_def distinct_conv_nth)
  have l: "linked i j ?qs" "s = pb_podID (?qs ! i)"
    using linked_step Cons.prems(1-3) pod_step_id [OF ij(1)] by auto
  have "\<exists>m. worked_off s d m (?qs ! j) \<and> m \<le> count_list xs (ReceiveTurn j)"
  proof (cases "x = ReceiveTurn j")
    case True
    with worked_off_receive [OF ne Cons.prems(4)] ij Cons.prems(5) show ?thesis by (intro exI [of _ "n - 1"]) auto
  next
    case False
    with pod_step_inbox [OF Cons.prems(1) _ False, of s cfg] Cons.prems(2,4,5) show ?thesis
      by (intro exI [of _ n]) (auto intro: worked_off_more split: if_splits)
  qed
  with Cons.IH l Cons.prems(2) show ?case by (auto simp: pod_run_def)
qed

section \<open>Properties\<close>

text \<open>C36: Events cross between pods without echo, loop, duplicate or reordering: whatever order the hooks and loops run
  in, and whatever messages and subscriptions are lost, a pod never shows its clients an event of its own again, and
  what it shows of another pod is a subsequence of what that pod took into its buffer. The buffers stay within their
  bound. The identifiers are told apart by the pods' start times.\<close>

theorem events_cross_at_most_once:
  assumes "distinct (map fst starts)" "list_all (\<lambda>(a, b). 0 \<le> a \<and> in_i64 a) starts"
    and "i < length starts" "j < length starts" "i \<noteq> j" "ps = pod_run cfg xs (boot starts)"
  shows "heard_from (pb_podID (ps ! i)) (ps ! i) = [] \<and>
    subseq (heard_from (pb_podID (ps ! j)) (ps ! i)) (pb_accepted (ps ! j)) \<and>
    length (pb_publishCh (ps ! i)) \<le> PublishBufferSize"
proof -
  have len: "length ps = length starts" by (simp add: assms(6) boot_def)
  have "pods_ok ps" unfolding assms(6) by (intro pods_ok_run pods_ok_boot assms(1,2))
  then have "heard_from (pb_podID (ps ! i)) (ps ! i) = []" "channel_ok (ps ! i) (ps ! j)"
    using assms(3-5) len by (simp_all add: pods_ok_def)
  moreover have "length (pb_publishCh (ps ! i)) \<le> PublishBufferSize"
    unfolding assms(6) using assms(3) by (intro buffer_bounded_run) (auto simp: boot_def New_def split: prod.split)
  ultimately show ?thesis unfolding channel_ok_def by (meson list_emb_prefix subseq_order.trans subseq_append_le_same_iff
      subseq_order.order_refl subseq_rev_drop_many)
qed

text \<open>C37: An event a hook hands to one pod reaches every other subscribed pod, after all that was on its way to it
  from that pod and in that order: if the first pod's buffer has room, its publications succeed and the other
  pod's subscription neither ends nor loses a message, then in any interleaving with whatever else happens on any
  pod, once the first pod has had as many publishing turns as its buffer held events, the new one included, and the
  other pod then as many receiving turns as messages wait on it, the event has been shown there. A full buffer
  drops the event (see \<open>full_buffer_drops\<close> below).\<close>

theorem published_event_reaches_every_pod:
  assumes "pb_Enabled cfg" "i < length ps" "j < length ps" "i \<noteq> j" "distinct (map pb_podID ps)" "s = pb_podID (ps ! i)"
    and "pb_subscribed (ps ! j)" "length (pb_publishCh (ps ! i)) < PublishBufferSize" "list_all (undisturbed i j) (xs @ ys)"
    and "length (pb_publishCh (ps ! i)) < count_list xs (PublishTurn True i)" "us = pod_run cfg (Hook i ev # xs) ps"
    and "length (pb_inbox (us ! j)) \<le> count_list ys (ReceiveTurn j)" "qs = pod_run cfg ys us"
  shows "prefix (heard_from s (ps ! j) @ from_in s (pb_inbox (ps ! j)) @ pb_publishCh (ps ! i) @ [ev]) (heard_from s (qs ! j))"
proof -
  let ?d = "heard_from s (ps ! j) @ from_in s (pb_inbox (ps ! j)) @ pb_publishCh (ps ! i) @ [ev]"
  let ?hs = "pod_step cfg (Hook i ev) ps"
  have hook: "?hs ! i = (ps ! i)\<lparr>pb_publishCh := pb_publishCh (ps ! i) @ [ev], pb_accepted := pb_accepted (ps ! i) @ [ev]\<rparr>"
    "?hs ! j = ps ! j" using assms(1,2,4,8) by (simp_all add: Publish_def)
  have l: "linked i j ps" using assms(2-5,7) by (simp add: linked_def)
  then have lh: "linked i j ?hs" by (rule linked_step) (simp add: undisturbed_def)
  have arr: "arrived i j ?hs = heard_from s (ps ! j) @ from_in s (pb_inbox (ps ! j))"
    using hook assms(6) by (simp add: arrived_def)
  have us: "us = pod_run cfg xs ?hs" by (simp add: assms(11) pod_run_def)
  have ph: "linked i j us \<and> prefix ?d (arrived i j us)"
    unfolding us using assms(9,10) hook arr by (intro publish_phase lh) simp_all
  have run_id: "pb_podID (pod_run cfg zs qs' ! i) = pb_podID (qs' ! i)" if "i < length qs'" for zs qs'
    using that unfolding pod_run_def by (induction zs arbitrary: qs') (simp_all add: pod_step_id)
  have s: "s = pb_podID (us ! i)" using run_id [of ps "Hook i ev # xs"] assms(2,6,11) by simp
  have "worked_off s (arrived i j us) (length (pb_inbox (us ! j))) (us ! j)"
    unfolding worked_off_def arrived_def s by auto
  with receive_phase [of i j us ys s _ _ cfg] ph s assms(9,12,13) have "prefix (arrived i j us) (heard_from s (qs ! j))" by simp
  with ph show ?thesis using prefix_order.trans by blast
qed

text \<open>A full buffer drops the event: it is counted, and nothing else of the pod changes, so that no other pod ever
  hears of it.\<close>

theorem full_buffer_drops:
  assumes "pb_Enabled cfg" "length (pb_publishCh p) = PublishBufferSize"
  shows "Publish True cfg ev p = p\<lparr>pb_dropped := pb_dropped p + 1\<rparr>"
  using assms by (simp add: Publish_def)

lemma full_buffer_drops_witness:
  "pb_accepted (Publish True pubsub_DefaultConfig ev ((New 1 1)\<lparr>pb_publishCh := replicate 1000 ev\<rparr>)) = []"
  using full_buffer_drops [of pubsub_DefaultConfig "(New 1 1)\<lparr>pb_publishCh := replicate 1000 ev\<rparr>" ev]
  by (simp add: pubsub_DefaultConfig_def PublishBufferSize_def New_def)

definition hello :: event where
  "hello = \<lparr>ev_id = ''h'', ev_pubkey = ''alice'', ev_created_at = 0, ev_kind = 1, ev_tags = [], ev_content = ''hi''\<rparr>"

definition two_pods :: "pod list" where
  "two_pods = map (\<lambda>p. p\<lparr>pb_subscribed := True\<rparr>) (boot [(1, 1), (2, 2)])"

lemma two_pod_ids: "pb_podID (New 1 1) \<noteq> pb_podID (New 2 2)"
  using pod_id_inj [of 1 1 2 2] by (auto simp: in_i64_def)

lemma events_cross_at_most_once_witness:
  "\<exists>ps. ps = pod_run pubsub_DefaultConfig [Subscribe 0, Hook 0 hello, PublishTurn True 0, ReceiveTurn 0] (boot [(1, 1), (2, 2)]) \<and>
     heard_from (pb_podID (ps ! 0)) (ps ! 0) = []"
  using events_cross_at_most_once [of "[(1, 1), (2, 2)]" 0 1 _ pubsub_DefaultConfig
      "[Subscribe 0, Hook 0 hello, PublishTurn True 0, ReceiveTurn 0]", OF _ _ _ _ _ refl]
  by (simp add: in_i64_def)

lemma published_event_reaches_every_pod_witness:
  "prefix [hello] (heard_from (pb_podID (New 1 1))
     (pod_run pubsub_DefaultConfig [ReceiveTurn 1, Hook 1 hello, ReceiveTurn 1]
       (pod_run pubsub_DefaultConfig [Hook 0 hello, ReceiveTurn 0, Hook 0 hello, PublishTurn True 0] two_pods) ! 1))"
proof -
  let ?us = "pod_run pubsub_DefaultConfig [Hook 0 hello, ReceiveTurn 0, Hook 0 hello, PublishTurn True 0] two_pods"
  let ?qs = "pod_run pubsub_DefaultConfig [ReceiveTurn 1, Hook 1 hello, ReceiveTurn 1] ?us"
  have pods: "length two_pods = 2" "pb_podID (two_pods ! 0) = pb_podID (New 1 1)" "pb_subscribed (two_pods ! 1)"
    "pb_publishCh (two_pods ! 0) = []" "pb_inbox (two_pods ! 1) = []" "heard_from s (two_pods ! 1) = []" for s
    by (simp_all add: two_pods_def boot_def New_def heard_from_def)
  have dist: "distinct (map pb_podID two_pods)" using two_pod_ids by (simp add: two_pods_def boot_def)
  have inbox: "length (pb_inbox (?us ! 1)) \<le> count_list [ReceiveTurn 1, Hook 1 hello, ReceiveTurn 1] (ReceiveTurn 1)"
    by (simp add: pod_run_def two_pods_def boot_def pubsub_DefaultConfig_def Publish_def PublishBufferSize_def New_def receive_def
        publish_turn_def doPublish_def)
  have und: "list_all (undisturbed 0 1) ([ReceiveTurn 0, Hook 0 hello, PublishTurn True 0] @ [ReceiveTurn 1, Hook 1 hello, ReceiveTurn 1])"
    by (simp add: undisturbed_def)
  have en: "pb_Enabled pubsub_DefaultConfig" by (simp add: pubsub_DefaultConfig_def)
  have room: "length (pb_publishCh (two_pods ! 0)) < PublishBufferSize"
    "length (pb_publishCh (two_pods ! 0)) < count_list [ReceiveTurn 0, Hook 0 hello, PublishTurn True 0] (PublishTurn True 0)"
    by (simp_all add: pods PublishBufferSize_def)
  have "prefix (heard_from (pb_podID (New 1 1)) (two_pods ! 1) @ from_in (pb_podID (New 1 1)) (pb_inbox (two_pods ! 1)) @
      pb_publishCh (two_pods ! 0) @ [hello]) (heard_from (pb_podID (New 1 1)) (?qs ! 1))"
    by (rule published_event_reaches_every_pod [OF en _ _ _ dist pods(2) [symmetric] pods(3) room(1) und room(2) refl inbox refl])
      (simp_all add: pods)
  then show ?thesis unfolding pods append_Nil from_in.simps .
qed

text \<open>Two pods that read the same clock take each other's messages for their own.\<close>

theorem pods_of_one_instant_hear_nothing:
  "handleMessage (Message (pb_podID (New t u)) (Some ev)) (New t u) = New t u"
  by (simp add: handleMessage_def)

end
