(* ===== verification/Blastr_Retry.thy ===== *)
theory Blastr_Retry
  imports Haven_Router Relay_Config "HOL-Library.AList" "HOL-Library.Multiset"
begin

text \<open>
  internal/haven/blastr.go and blastr_manager.go: what the relay stores is sent on to other relays, for one owner from a
  queue with retries in a Redis sorted set, for paid members from a queue of jobs. The network is a parameter: which
  connections are up, whom one can reach, what a relay answers. Goroutines that publish to several relays take
  the connection pool one after the other; they do so here in the order of the list. A sorted set is an association
  list from members to scores; a member is an entry in JSON, which is read back as it was written, or junk.
  Counters grow by one below 64 bits, and the queue's channel is a list with the code's capacity.
\<close>

section \<open>Connections\<close>

type_synonym conn_pool = "(string \<times> nat) list"

record network =
  net_up :: "nat \<Rightarrow> bool"
  net_dial :: "string \<Rightarrow> string + nat"
  net_send :: "nat \<Rightarrow> event \<Rightarrow> string option"

text \<open>\<open>Connect\<close> and \<open>Publish\<close> of the pool; an error is its text.\<close>

definition pool_Connect :: "network \<Rightarrow> string \<Rightarrow> conn_pool \<Rightarrow> (string + nat) \<times> conn_pool" where
  "pool_Connect net url p =
     (case map_of p url of
        Some c \<Rightarrow> if net_up net c then (Inr c, p)
                  else let p' = AList.delete url p in
                    (case net_dial net url of Inl err \<Rightarrow> (Inl err, p') | Inr c' \<Rightarrow> (Inr c', AList.update url c' p'))
      | None \<Rightarrow> (case net_dial net url of Inl err \<Rightarrow> (Inl err, p) | Inr c' \<Rightarrow> (Inr c', AList.update url c' p)))"

definition pool_Publish :: "network \<Rightarrow> string \<Rightarrow> event \<Rightarrow> conn_pool \<Rightarrow> string option \<times> conn_pool" where
  "pool_Publish net url ev p =
     (case pool_Connect net url p of (Inl err, p') \<Rightarrow> (Some err, p') | (Inr c, p') \<Rightarrow> (net_send net c ev, p'))"

definition ConnectedCount :: "network \<Rightarrow> conn_pool \<Rightarrow> int" where
  "ConnectedCount net p = int (length (filter (net_up net) (map snd p)))"

text \<open>The loop over relays of \<open>broadcastEvent\<close> and \<open>processJob\<close>: how many took the event, and which did not.\<close>

fun publish_all :: "network \<Rightarrow> event \<Rightarrow> string list \<Rightarrow> conn_pool \<Rightarrow> nat \<times> string list \<times> conn_pool" where
  "publish_all net ev [] p = (0, [], p)"
| "publish_all net ev (url # urls) p =
     (case pool_Publish net url ev p of (err, p') \<Rightarrow>
        case publish_all net ev urls p' of (n, bad, p'') \<Rightarrow>
          (case err of None \<Rightarrow> (Suc n, bad, p'') | Some _ \<Rightarrow> (n, url # bad, p'')))"

section \<open>The single owner's broadcaster\<close>

text \<open>\<open>30 * (1 << (attempt - 1))\<close> in 64 bits; a shift of 64 or more gives zero.\<close>

definition retryBackoff :: "int \<Rightarrow> int" where
  "retryBackoff attempt =
     (let k = nat ((if attempt \<le> 0 then 1 else attempt) - 1);
          seconds = i64 (30 * (if k < 64 then i64 (2 ^ k) else 0));
          capped = (if seconds > 960 then 960 else seconds)
      in i64 (capped * ns_per_sec))"

record blastr_config =
  bc_Enabled :: bool
  bc_Relays :: "string list"
  bc_RetryEnabled :: bool
  bc_MaxRetries :: int
  bc_RetryInterval :: int

record RetryEntry =
  re_EventID :: string
  re_Event :: "event option"
  re_RelayURL :: string
  re_Attempts :: int
  re_AddedAt :: int
  re_LastError :: string

text \<open>\<open>re_Event\<close> is \<open>None\<close> for an event that does not decode.\<close>

datatype queued = Junk string | Entry RetryEntry

record blastr =
  bl_queue :: "event list"
  bl_closed :: bool
  bl_worker :: bool
  bl_retryWorker :: bool
  bl_redis :: bool
  bl_pool :: conn_pool
  bl_retries :: "(queued \<times> int) list"
  bl_EventsBroadcast :: int
  bl_EventsFailed :: int
  bl_RelaysConnected :: int
  bl_LastBroadcast :: "int option"
  bl_RetryQueueSize :: int
  bl_EventsRetried :: int
  bl_RetriesExhausted :: int

definition NewBlastr :: blastr where
  "NewBlastr = \<lparr>bl_queue = [], bl_closed = False, bl_worker = False, bl_retryWorker = False, bl_redis = False, bl_pool = [],
     bl_retries = [], bl_EventsBroadcast = 0, bl_EventsFailed = 0, bl_RelaysConnected = 0, bl_LastBroadcast = None,
     bl_RetryQueueSize = 0, bl_EventsRetried = 0, bl_RetriesExhausted = 0\<rparr>"

text \<open>The sorted set outlives the process: \<open>shared\<close> is what it holds when the client is handed over.\<close>

definition SetRedisClient :: "(queued \<times> int) list \<Rightarrow> blastr \<Rightarrow> blastr" where
  "SetRedisClient shared b = b\<lparr>bl_redis := True, bl_retries := shared\<rparr>"

definition blastr_Start :: "blastr_config \<Rightarrow> blastr \<Rightarrow> blastr" where
  "blastr_Start cfg b =
     (if \<not> bc_Enabled cfg \<or> bc_Relays cfg = [] then b
      else b\<lparr>bl_worker := True, bl_retryWorker := bl_redis b \<and> bc_RetryEnabled cfg\<rparr>)"

text \<open>\<open>None\<close> is the panic of a send on a closed channel.\<close>

definition Broadcast :: "blastr_config \<Rightarrow> Router \<Rightarrow> event \<Rightarrow> blastr \<Rightarrow> blastr option" where
  "Broadcast cfg r ev b =
     (if \<not> bc_Enabled cfg then Some b
      else if RouteEvent r ev \<noteq> BoxOutbox then Some b
      else if bl_closed b then None
      else if length (bl_queue b) < 100 then Some (b\<lparr>bl_queue := bl_queue b @ [ev]\<rparr>)
      else Some (b\<lparr>bl_EventsFailed := bl_EventsFailed b + 1\<rparr>))"

text \<open>What a step meets: the network, whether each Redis command works, the clock at each reading (nanoseconds).\<close>

record blastr_env =
  be_net :: network
  be_list :: bool
  be_rem :: "nat \<Rightarrow> bool"
  be_add :: "nat \<Rightarrow> bool"
  be_card :: bool
  be_clock :: "nat \<Rightarrow> int"

definition retry_score :: "blastr_env \<Rightarrow> nat \<Rightarrow> int \<Rightarrow> int" where
  "retry_score env i attempts = (be_clock env i + retryBackoff attempts) div ns_per_sec"

text \<open>\<open>queueForRetry\<close> and \<open>requeue\<close> add an entry with the time it is due.\<close>

definition add_retry :: "blastr_env \<Rightarrow> nat \<Rightarrow> RetryEntry \<Rightarrow> (queued \<times> int) list \<Rightarrow> (queued \<times> int) list" where
  "add_retry env i e q = (if be_add env i then AList.update (Entry e) (retry_score env i (re_Attempts e)) q else q)"

definition queueForRetry :: "blastr_env \<Rightarrow> nat \<Rightarrow> event \<Rightarrow> string \<Rightarrow> string \<Rightarrow> blastr \<Rightarrow> blastr" where
  "queueForRetry env i ev url err b =
     (if \<not> bl_redis b then b
      else b\<lparr>bl_retries := add_retry env i \<lparr>re_EventID = ev_id ev, re_Event = Some ev, re_RelayURL = url, re_Attempts = 1,
                re_AddedAt = be_clock env i div ns_per_sec, re_LastError = err\<rparr> (bl_retries b)\<rparr>)"

fun queue_failed :: "blastr_env \<Rightarrow> nat \<Rightarrow> event \<Rightarrow> string list \<Rightarrow> blastr \<Rightarrow> blastr" where
  "queue_failed env i ev [] b = b"
| "queue_failed env i ev (url # urls) b =
     queue_failed env (Suc i) ev urls (queueForRetry env i ev url ''initial broadcast failed'' b)"

definition broadcastEvent :: "blastr_config \<Rightarrow> blastr_env \<Rightarrow> event \<Rightarrow> blastr \<Rightarrow> blastr" where
  "broadcastEvent cfg env ev b =
     (case publish_all (be_net env) ev (bc_Relays cfg) (bl_pool b) of (n, bad, p) \<Rightarrow>
        let b1 = b\<lparr>bl_pool := p\<rparr>;
            b2 = (if bad \<noteq> [] \<and> bl_redis b \<and> bc_RetryEnabled cfg then queue_failed env 1 ev bad b1 else b1);
            b3 = (if n > 0 then b2\<lparr>bl_EventsBroadcast := bl_EventsBroadcast b2 + 1, bl_LastBroadcast := Some (be_clock env 0)\<rparr>
                  else if bad = [] then b2\<lparr>bl_EventsFailed := bl_EventsFailed b2 + 1\<rparr> else b2)
        in b3\<lparr>bl_RelaysConnected := ConnectedCount (be_net env) p\<rparr>)"

text \<open>One turn of the worker, and \<open>Stop\<close>.\<close>

definition worker_turn :: "blastr_config \<Rightarrow> blastr_env \<Rightarrow> blastr \<Rightarrow> blastr" where
  "worker_turn cfg env b =
     (if \<not> bl_worker b then b
      else case bl_queue b of [] \<Rightarrow> b | ev # evs \<Rightarrow> broadcastEvent cfg env ev (b\<lparr>bl_queue := evs\<rparr>))"

definition blastr_Stop :: "blastr \<Rightarrow> blastr" where
  "blastr_Stop b = b\<lparr>bl_closed := True, bl_worker := False, bl_retryWorker := False, bl_pool := []\<rparr>"

text \<open>One entry of \<open>processRetryQueue\<close>: taken out first, published, and put back if that fails too early to give up.\<close>

definition retry_one :: "int \<Rightarrow> blastr_env \<Rightarrow> nat \<Rightarrow> queued \<Rightarrow> blastr \<Rightarrow> blastr" where
  "retry_one maxRetries env i m b =
     (let b1 = b\<lparr>bl_retries := (if be_rem env i then AList.delete m (bl_retries b) else bl_retries b)\<rparr> in
      case m of
        Junk _ \<Rightarrow> b1
      | Entry e \<Rightarrow>
          (case re_Event e of
             None \<Rightarrow> b1
           | Some ev \<Rightarrow>
               (case pool_Publish (be_net env) (re_RelayURL e) ev (bl_pool b1) of
                  (None, p) \<Rightarrow> b1\<lparr>bl_pool := p, bl_EventsRetried := bl_EventsRetried b1 + 1\<rparr>
                | (Some err, p) \<Rightarrow>
                    let e' = e\<lparr>re_Attempts := i64 (re_Attempts e + 1), re_LastError := err\<rparr> in
                    if re_Attempts e' \<ge> maxRetries
                    then b1\<lparr>bl_pool := p, bl_RetriesExhausted := bl_RetriesExhausted b1 + 1\<rparr>
                    else b1\<lparr>bl_pool := p, bl_retries := add_retry env i e' (bl_retries b1)\<rparr>)))"

fun retry_all :: "int \<Rightarrow> blastr_env \<Rightarrow> nat \<Rightarrow> queued list \<Rightarrow> blastr \<Rightarrow> blastr" where
  "retry_all maxRetries env i [] b = b"
| "retry_all maxRetries env i (m # ms) b = retry_all maxRetries env (Suc i) ms (retry_one maxRetries env i m b)"

text \<open>The entries due, earliest first, at most fifty. Redis orders equal scores by their text, here by the list.\<close>

definition due_entries :: "blastr_env \<Rightarrow> (queued \<times> int) list \<Rightarrow> queued list" where
  "due_entries env q = take 50 (map fst (sort_key snd (filter (\<lambda>(_, s). s \<le> be_clock env 0 div ns_per_sec) q)))"

definition retry_limit :: "blastr_config \<Rightarrow> int" where
  "retry_limit cfg = (if bc_MaxRetries cfg \<le> 0 then 6 else bc_MaxRetries cfg)"

definition processRetryQueue :: "blastr_config \<Rightarrow> blastr_env \<Rightarrow> blastr \<Rightarrow> blastr" where
  "processRetryQueue cfg env b =
     (if \<not> bl_redis b \<or> \<not> be_list env then b
      else let ms = due_entries env (bl_retries b) in
        if ms = [] then b
        else let b' = retry_all (retry_limit cfg) env 1 ms b in
          if be_card env then b'\<lparr>bl_RetryQueueSize := int (length (bl_retries b'))\<rparr> else b')"

definition retry_tick :: "blastr_config \<Rightarrow> blastr_env \<Rightarrow> blastr \<Rightarrow> blastr" where
  "retry_tick cfg env b = (if bl_retryWorker b then processRetryQueue cfg env b else b)"

definition ClearRetryQueue :: "bool \<Rightarrow> blastr \<Rightarrow> blastr" where
  "ClearRetryQueue ok b = (if bl_redis b \<and> ok then b\<lparr>bl_retries := []\<rparr> else b)"

text \<open>How main.go sets the broadcaster up: \<open>RegisterFullSystem\<close> makes and starts it, and only afterwards is the Redis
  client handed over.\<close>

definition blastr_config_of :: "haven_settings \<Rightarrow> bool \<Rightarrow> blastr_config" where
  "blastr_config_of s have_cache = \<lparr>bc_Enabled = HavenBlastrEnabled s, bc_Relays = HavenBlastrRelays s,
     bc_RetryEnabled = HavenBlastrRetryEnabled s \<and> have_cache, bc_MaxRetries = HavenBlastrMaxRetries s,
     bc_RetryInterval = HavenBlastrRetryInterval s\<rparr>"

definition wired_blastr :: "haven_settings \<Rightarrow> bool \<Rightarrow> (queued \<times> int) list \<Rightarrow> blastr option" where
  "wired_blastr s have_cache shared =
     (let cfg = blastr_config_of s have_cache in
      if \<not> bc_Enabled cfg \<or> bc_Relays cfg = [] then None
      else let b = blastr_Start cfg NewBlastr in
        Some (if have_cache \<and> HavenBlastrRetryEnabled s then SetRedisClient shared b else b))"

section \<open>Facts\<close>

subsection \<open>The delay\<close>

lemma retryBackoff_exact:
  assumes "1 \<le> a" "a \<le> 59"
  shows "retryBackoff a = min 960 (30 * 2 ^ nat (a - 1)) * ns_per_sec"
proof -
  define x where "x = (2::int) ^ nat (a - 1)"
  have k: "nat (a - 1) \<le> 58" using assms by simp
  then have "x \<le> 2 ^ 58" unfolding x_def by (rule power_increasing) simp
  moreover have "1 \<le> x" by (simp add: x_def)
  ultimately have w: "i64 x = x" "i64 (30 * x) = 30 * x" "i64 (min 960 (30 * x) * ns_per_sec) = min 960 (30 * x) * ns_per_sec"
    by (intro i64_id; simp add: in_i64_def min_def)+
  have "retryBackoff a = i64 ((if 30 * x > 960 then 960 else 30 * x) * ns_per_sec)"
    using assms k w(1,2) by (simp add: retryBackoff_def Let_def x_def [symmetric])
  also have "(if 30 * x > 960 then 960 else 30 * x) = min 960 (30 * x)" by (simp add: min_def)
  finally show ?thesis using w(3) by (simp add: x_def)
qed

text \<open>The delay before the next attempt doubles from thirty seconds up to sixteen minutes, for up to 59 attempts.\<close>

theorem retry_delay_bounds:
  assumes "1 \<le> a" "a \<le> 59"
  shows "retryBackoff a = min 960 (30 * 2 ^ nat (a - 1)) * ns_per_sec \<and>
    30 * ns_per_sec \<le> retryBackoff a \<and> retryBackoff a \<le> 960 * ns_per_sec"
proof -
  have "(1::int) \<le> 2 ^ nat (a - 1)" by simp
  then show ?thesis using retryBackoff_exact [OF assms] by simp
qed

lemma retry_delay_bounds_witness: "retryBackoff 3 = 120 * ns_per_sec \<and> retryBackoff 6 = 960 * ns_per_sec"
  using retry_delay_bounds [of 3] retry_delay_bounds [of 6] by simp

lemma i64_down: "in_i64 (x - 2 ^ 64) \<Longrightarrow> i64 x = x - 2 ^ 64"
proof -
  assume "in_i64 (x - 2 ^ 64)"
  moreover have "i64 x = i64 (x - 2 ^ 64)" using mod_add_self2 [of "x - 2 ^ 64 + 2 ^ 63" "2 ^ 64"] by (simp add: i64_def add.commute)
  ultimately show ?thesis by simp
qed

lemma i64_multiple: "i64 (k * 2 ^ 64) = 0"
  by (simp add: i64_def)

text \<open>From the sixtieth on the product has overflowed and there is no delay at all.\<close>

theorem sixtieth_delay_is_zero: "retryBackoff 60 = 0 \<and> retryBackoff 100 = 0"
proof
  have "i64 (2 ^ 59) = 2 ^ 59" by (rule i64_id) (simp add: in_i64_def)
  moreover have "i64 (30 * 2 ^ 59) = 30 * 2 ^ 59 - 2 ^ 64" by (rule i64_down) (simp add: in_i64_def)
  moreover have "(30 * 2 ^ 59 - 2 ^ 64) * ns_per_sec = (- 62500000) * 2 ^ 64" by simp
  ultimately show "retryBackoff 60 = 0"
    using i64_multiple [of "- 62500000"] by (simp add: retryBackoff_def Let_def)
  show "retryBackoff 100 = 0" using i64_multiple [of 0] by (simp add: retryBackoff_def Let_def)
qed

subsection \<open>How much retrying is left\<close>

definition entry_ok :: "int \<Rightarrow> queued \<Rightarrow> bool" where
  "entry_ok maxr m =
     (case m of Junk _ \<Rightarrow> True | Entry e \<Rightarrow> 1 \<le> re_Attempts e \<and> (re_Attempts e = 1 \<or> re_Attempts e < maxr))"

definition entry_weight :: "int \<Rightarrow> queued \<Rightarrow> nat" where
  "entry_weight maxr m = (case m of Junk _ \<Rightarrow> 1 | Entry e \<Rightarrow> max 1 (nat (maxr - re_Attempts e)))"

definition retries_left :: "int \<Rightarrow> (queued \<times> int) list \<Rightarrow> nat" where
  "retries_left maxr q = sum_list (map (\<lambda>(m, _). entry_weight maxr m) q)"

definition queue_ok :: "int \<Rightarrow> (queued \<times> int) list \<Rightarrow> bool" where
  "queue_ok maxr q \<longleftrightarrow> distinct (map fst q) \<and> list_all (\<lambda>(m, _). entry_ok maxr m) q"

lemma entry_weight_pos: "0 < entry_weight maxr m"
  by (auto simp: entry_weight_def less_max_iff_disj split: queued.split)

lemma keys_delete: "fst ` set (AList.delete k q) = fst ` set q - {k}"
  by (induction q) auto

lemma keys_update: "fst ` set (AList.update k v q) = insert k (fst ` set q)"
  by (induction q) auto

lemma left_delete: "m \<in> fst ` set q \<Longrightarrow> retries_left maxr (AList.delete m q) + entry_weight maxr m \<le> retries_left maxr q"
proof -
  have le: "retries_left maxr (AList.delete m q) \<le> retries_left maxr q" for q
    by (induction q) (auto simp: retries_left_def)
  show "m \<in> fst ` set q \<Longrightarrow> ?thesis"
  proof (induction q)
    case (Cons x q)
    then show ?case using le [of q] by (cases x; cases "fst x = m") (auto simp: retries_left_def)
  qed simp
qed

lemma left_update: "retries_left maxr (AList.update m s q) \<le> retries_left maxr q + entry_weight maxr m"
  by (induction q) (auto simp: retries_left_def)

lemma ok_delete: "queue_ok maxr q \<Longrightarrow> queue_ok maxr (AList.delete m q)"
proof -
  have "list_all P q \<Longrightarrow> list_all P (AList.delete m q)" for P by (induction q) auto
  then show "queue_ok maxr q \<Longrightarrow> ?thesis" by (simp add: queue_ok_def AList.distinct_delete)
qed

lemma ok_update: "queue_ok maxr q \<Longrightarrow> entry_ok maxr m \<Longrightarrow> queue_ok maxr (AList.update m s q)"
proof -
  have "list_all (\<lambda>(m, _). entry_ok maxr m) q \<Longrightarrow> entry_ok maxr m \<Longrightarrow> list_all (\<lambda>(m, _). entry_ok maxr m) (AList.update m s q)"
    by (induction q) auto
  then show "queue_ok maxr q \<Longrightarrow> entry_ok maxr m \<Longrightarrow> ?thesis" by (simp add: queue_ok_def AList.distinct_update)
qed

lemma next_attempt:
  assumes "entry_ok maxr (Entry e)" "in_i64 maxr" "i64 (re_Attempts e + 1) < maxr"
  shows "entry_ok maxr (Entry (e\<lparr>re_Attempts := i64 (re_Attempts e + 1), re_LastError := err\<rparr>)) \<and>
    Suc (entry_weight maxr (Entry (e\<lparr>re_Attempts := i64 (re_Attempts e + 1), re_LastError := err\<rparr>))) \<le> entry_weight maxr (Entry e)"
proof -
  have "in_i64 (re_Attempts e + 1)" using assms(1,2) by (auto simp: entry_ok_def in_i64_def)
  with assms show ?thesis by (auto simp: entry_ok_def entry_weight_def)
qed

lemma retry_one_left:
  assumes q: "queue_ok maxr (bl_retries b)" and m: "m \<in> fst ` set (bl_retries b)" and maxr: "in_i64 maxr" and rem: "be_rem env i"
  shows "queue_ok maxr (bl_retries (retry_one maxr env i m b)) \<and>
    Suc (retries_left maxr (bl_retries (retry_one maxr env i m b))) \<le> retries_left maxr (bl_retries b) \<and>
    fst ` set (bl_retries b) - {m} \<subseteq> fst ` set (bl_retries (retry_one maxr env i m b))"
proof -
  let ?d = "AList.delete m (bl_retries b)"
  have d: "queue_ok maxr ?d" "Suc (retries_left maxr ?d) \<le> retries_left maxr (bl_retries b)" "fst ` set ?d = fst ` set (bl_retries b) - {m}"
    using ok_delete [OF q] left_delete [OF m, of maxr] entry_weight_pos [of maxr m] by (simp_all add: keys_delete)
  show ?thesis
  proof (cases "\<exists>e ev err p. m = Entry e \<and> re_Event e = Some ev \<and> pool_Publish (be_net env) (re_RelayURL e) ev (bl_pool b) = (Some err, p)
      \<and> i64 (re_Attempts e + 1) < maxr \<and> be_add env i")
    case True
    then obtain e ev err p where e: "m = Entry e" "re_Event e = Some ev"
      "pool_Publish (be_net env) (re_RelayURL e) ev (bl_pool b) = (Some err, p)" "i64 (re_Attempts e + 1) < maxr" "be_add env i"
      by blast
    let ?e = "e\<lparr>re_Attempts := i64 (re_Attempts e + 1), re_LastError := err\<rparr>"
    have new: "bl_retries (retry_one maxr env i m b) = AList.update (Entry ?e) (retry_score env i (re_Attempts ?e)) ?d"
      using e rem by (simp add: retry_one_def Let_def add_retry_def)
    have "entry_ok maxr (Entry e)" using q m e(1) by (auto simp: queue_ok_def list_all_iff)
    from next_attempt [OF this maxr e(4), of err]
    have n: "entry_ok maxr (Entry ?e)" "Suc (entry_weight maxr (Entry ?e)) \<le> entry_weight maxr m" by (simp_all add: e(1))
    show ?thesis
      unfolding new using ok_update [OF d(1) n(1)] n(2) left_delete [OF m, of maxr]
        left_update [of maxr "Entry ?e" "retry_score env i (re_Attempts ?e)" ?d]
      by (auto simp: keys_update d(3))
  next
    case False
    then have "bl_retries (retry_one maxr env i m b) = ?d"
      using rem by (auto simp: retry_one_def Let_def add_retry_def split: queued.split option.split prod.split)
    then show ?thesis using d by simp
  qed
qed

lemma retry_all_left:
  assumes "queue_ok maxr (bl_retries b)" "distinct ms" "set ms \<subseteq> fst ` set (bl_retries b)" "in_i64 maxr" "\<And>i. be_rem env i"
  shows "queue_ok maxr (bl_retries (retry_all maxr env i ms b)) \<and>
    retries_left maxr (bl_retries (retry_all maxr env i ms b)) + length ms \<le> retries_left maxr (bl_retries b)"
  using assms(1-3)
proof (induction ms arbitrary: b i)
  case (Cons m ms)
  have one: "queue_ok maxr (bl_retries (retry_one maxr env i m b))"
    "Suc (retries_left maxr (bl_retries (retry_one maxr env i m b))) \<le> retries_left maxr (bl_retries b)"
    "fst ` set (bl_retries b) - {m} \<subseteq> fst ` set (bl_retries (retry_one maxr env i m b))"
    using retry_one_left [OF Cons.prems(1) _ assms(4,5), of m i] Cons.prems(3) by auto
  then have "set ms \<subseteq> fst ` set (bl_retries (retry_one maxr env i m b))" using Cons.prems(2,3) by auto
  from Cons.IH [OF one(1) _ this, of "Suc i"] Cons.prems(2)
  have "queue_ok maxr (bl_retries (retry_all maxr env (Suc i) ms (retry_one maxr env i m b)))"
    "retries_left maxr (bl_retries (retry_all maxr env (Suc i) ms (retry_one maxr env i m b))) + length ms
      \<le> retries_left maxr (bl_retries (retry_one maxr env i m b))" by simp_all
  with one(2) show ?case by simp
qed simp

lemma due_entries_from:
  assumes "distinct (map fst q)"
  shows "distinct (due_entries env q) \<and> set (due_entries env q) \<subseteq> fst ` set q"
proof -
  let ?s = "sort_key snd (filter (\<lambda>(_, s). s \<le> be_clock env 0 div ns_per_sec) q)"
  have "mset (map fst ?s) = mset (map fst (filter (\<lambda>(_, s). s \<le> be_clock env 0 div ns_per_sec) q))" by simp
  moreover have "distinct (map fst (filter (\<lambda>(_, s). s \<le> be_clock env 0 div ns_per_sec) q))" using assms by (rule distinct_map_filter)
  ultimately have dis: "distinct (map fst ?s)" using mset_eq_imp_distinct_iff by blast
  have "set (map fst ?s) \<subseteq> fst ` set q" by auto
  then have "set (take 50 (map fst ?s)) \<subseteq> fst ` set q" by (rule order_trans [OF set_take_subset])
  with distinct_take [OF dis, of 50] show ?thesis unfolding due_entries_def by (rule conjI)
qed

lemma due_entries_all:
  "list_all (\<lambda>(_, s). s \<le> be_clock env 0 div ns_per_sec) q \<Longrightarrow> q \<noteq> [] \<Longrightarrow> due_entries env q \<noteq> []"
proof -
  assume "list_all (\<lambda>(_, s). s \<le> be_clock env 0 div ns_per_sec) q" "q \<noteq> []"
  then have "length (due_entries env q) = min 50 (length q)"
    by (simp add: due_entries_def list_all_iff)
  with \<open>q \<noteq> []\<close> show ?thesis by (auto simp: min_def split: if_splits)
qed

subsection \<open>Runs\<close>

datatype blastr_step = Send Router event | WorkerTurn blastr_env | RetryTick blastr_env | Halt

fun blastr_do :: "blastr_config \<Rightarrow> blastr_step \<Rightarrow> blastr \<Rightarrow> blastr option" where
  "blastr_do cfg (Send r ev) b = Broadcast cfg r ev b"
| "blastr_do cfg (WorkerTurn env) b = Some (worker_turn cfg env b)"
| "blastr_do cfg (RetryTick env) b = Some (retry_tick cfg env b)"
| "blastr_do cfg Halt b = Some (blastr_Stop b)"

fun blastr_run :: "blastr_config \<Rightarrow> blastr_step list \<Rightarrow> blastr \<Rightarrow> blastr option" where
  "blastr_run cfg [] b = Some b"
| "blastr_run cfg (x # xs) b = (case blastr_do cfg x b of None \<Rightarrow> None | Some b' \<Rightarrow> blastr_run cfg xs b')"

lemma queue_failed_keeps:
  "fst ` set (bl_retries b) \<subseteq> fst ` set (bl_retries (queue_failed env i ev urls b))"
  "queue_ok maxr (bl_retries b) \<Longrightarrow> queue_ok maxr (bl_retries (queue_failed env i ev urls b))"
  "bl_retryWorker (queue_failed env i ev urls b) = bl_retryWorker b" "bl_EventsRetried (queue_failed env i ev urls b) = bl_EventsRetried b"
proof (induction env i ev urls b rule: queue_failed.induct)
  case (2 env i ev url urls b)
  let ?b = "queueForRetry env i ev url ''initial broadcast failed'' b"
  have sub: "fst ` set (bl_retries b) \<subseteq> fst ` set (bl_retries ?b)"
    by (auto simp: queueForRetry_def add_retry_def keys_update)
  have ok: "queue_ok maxr (bl_retries b) \<Longrightarrow> queue_ok maxr (bl_retries ?b)"
    by (auto simp: queueForRetry_def add_retry_def entry_ok_def intro: ok_update)
  have same: "bl_retryWorker ?b = bl_retryWorker b" "bl_EventsRetried ?b = bl_EventsRetried b"
    by (simp_all add: queueForRetry_def)
  { case 1 then show ?case using sub 2(1) by simp
  next case 2 then show ?case using ok \<open>queue_ok maxr (bl_retries ?b) \<Longrightarrow> _\<close> by simp
  next case 3 then show ?case using same 2(3) by simp
  next case 4 then show ?case using same 2(4) by simp }
qed simp_all

lemma worker_turn_keeps:
  "fst ` set (bl_retries b) \<subseteq> fst ` set (bl_retries (worker_turn cfg env b))"
  "queue_ok maxr (bl_retries b) \<Longrightarrow> queue_ok maxr (bl_retries (worker_turn cfg env b))"
  "bl_retryWorker (worker_turn cfg env b) = bl_retryWorker b" "bl_EventsRetried (worker_turn cfg env b) = bl_EventsRetried b"
proof -
  have all: "fst ` set (bl_retries b) \<subseteq> fst ` set (bl_retries (broadcastEvent cfg env ev b)) \<and>
      (queue_ok maxr (bl_retries b) \<longrightarrow> queue_ok maxr (bl_retries (broadcastEvent cfg env ev b))) \<and>
      bl_retryWorker (broadcastEvent cfg env ev b) = bl_retryWorker b \<and> bl_EventsRetried (broadcastEvent cfg env ev b) = bl_EventsRetried b"
    for ev b
  proof -
    obtain n bad p where p: "publish_all (be_net env) ev (bc_Relays cfg) (bl_pool b) = (n, bad, p)" by (cases rule: prod_cases3)
    show ?thesis
      using queue_failed_keeps(1) [where b = "b\<lparr>bl_pool := p\<rparr>" and env = env and i = 1 and ev = ev and urls = bad]
        queue_failed_keeps(2) [where b = "b\<lparr>bl_pool := p\<rparr>" and env = env and i = 1 and ev = ev and urls = bad and maxr = maxr]
        queue_failed_keeps(3,4) [where b = "b\<lparr>bl_pool := p\<rparr>" and env = env and i = 1 and ev = ev and urls = bad]
      by (simp add: broadcastEvent_def p Let_def)
  qed
  have turn: "fst ` set (bl_retries b) \<subseteq> fst ` set (bl_retries (broadcastEvent cfg env ev (b\<lparr>bl_queue := evs\<rparr>)))"
    "queue_ok maxr (bl_retries b) \<Longrightarrow> queue_ok maxr (bl_retries (broadcastEvent cfg env ev (b\<lparr>bl_queue := evs\<rparr>)))"
    "bl_retryWorker (broadcastEvent cfg env ev (b\<lparr>bl_queue := evs\<rparr>)) = bl_retryWorker b"
    "bl_EventsRetried (broadcastEvent cfg env ev (b\<lparr>bl_queue := evs\<rparr>)) = bl_EventsRetried b" for ev evs
    using all [of "b\<lparr>bl_queue := evs\<rparr>" ev] by simp_all
  show "fst ` set (bl_retries b) \<subseteq> fst ` set (bl_retries (worker_turn cfg env b))"
    "queue_ok maxr (bl_retries b) \<Longrightarrow> queue_ok maxr (bl_retries (worker_turn cfg env b))"
    "bl_retryWorker (worker_turn cfg env b) = bl_retryWorker b" "bl_EventsRetried (worker_turn cfg env b) = bl_EventsRetried b"
    by (simp_all add: worker_turn_def turn split: list.split)
qed

lemma Broadcast_keeps:
  "Broadcast cfg r ev b = Some b' \<Longrightarrow> bl_retries b' = bl_retries b \<and> bl_retryWorker b' = bl_retryWorker b \<and> bl_EventsRetried b' = bl_EventsRetried b"
  by (auto simp: Broadcast_def split: if_splits)

lemma retry_one_ok:
  assumes "queue_ok maxr (bl_retries b)" "entry_ok maxr m" "in_i64 maxr"
  shows "queue_ok maxr (bl_retries (retry_one maxr env i m b))"
  using assms next_attempt [OF _ assms(3)]
  by (auto simp: retry_one_def Let_def add_retry_def ok_delete split: queued.split option.split prod.split intro!: ok_update ok_delete)

lemma retry_all_ok:
  "queue_ok maxr (bl_retries b) \<Longrightarrow> list_all (entry_ok maxr) ms \<Longrightarrow> in_i64 maxr \<Longrightarrow>
   queue_ok maxr (bl_retries (retry_all maxr env i ms b))"
  by (induction ms arbitrary: b i) (simp_all add: retry_one_ok)

lemma processRetryQueue_ok:
  assumes "queue_ok (retry_limit cfg) (bl_retries b)" "in_i64 (retry_limit cfg)"
  shows "queue_ok (retry_limit cfg) (bl_retries (processRetryQueue cfg env b))"
proof -
  have "list_all (entry_ok (retry_limit cfg)) (due_entries env (bl_retries b))"
    using due_entries_from [of "bl_retries b" env] assms(1) by (fastforce simp: queue_ok_def list_all_iff)
  then show ?thesis using assms by (simp add: processRetryQueue_def Let_def retry_all_ok)
qed

lemma blastr_do_ok:
  assumes "blastr_do cfg x b = Some b'" "queue_ok (retry_limit cfg) (bl_retries b)" "in_i64 (retry_limit cfg)"
  shows "queue_ok (retry_limit cfg) (bl_retries b')"
  using assms Broadcast_keeps [of cfg _ _ b b']
  by (cases x) (auto simp: worker_turn_keeps(2) retry_tick_def processRetryQueue_ok blastr_Stop_def)

lemma blastr_run_ok:
  "blastr_run cfg xs b = Some b' \<Longrightarrow> queue_ok (retry_limit cfg) (bl_retries b) \<Longrightarrow> in_i64 (retry_limit cfg) \<Longrightarrow>
   queue_ok (retry_limit cfg) (bl_retries b')"
  by (induction cfg xs b rule: blastr_run.induct) (auto split: option.splits intro: blastr_do_ok)

section \<open>Properties\<close>

text \<open>However the broadcaster runs and whatever fails, no queued entry has been tried as often as the limit allows.\<close>

theorem retry_attempts_stay_below_limit:
  assumes "blastr_run cfg xs b = Some b'" "bl_retries b = []" "in_i64 (bc_MaxRetries cfg)" "(Entry e, s) \<in> set (bl_retries b')"
  shows "1 \<le> re_Attempts e \<and> (re_Attempts e = 1 \<or> re_Attempts e < retry_limit cfg)"
proof -
  have "in_i64 (retry_limit cfg)" using assms(3) by (auto simp: retry_limit_def in_i64_def)
  moreover have "queue_ok (retry_limit cfg) (bl_retries b)" by (simp add: assms(2) queue_ok_def)
  ultimately have "queue_ok (retry_limit cfg) (bl_retries b')" using blastr_run_ok [OF assms(1)] by blast
  with assms(4) show ?thesis by (fastforce simp: queue_ok_def list_all_iff entry_ok_def)
qed

text \<open>Passes over the retry queue in which everything queued is due and Redis answers.\<close>

fun passes_due :: "blastr_config \<Rightarrow> blastr_env list \<Rightarrow> blastr \<Rightarrow> bool" where
  "passes_due cfg [] b = True"
| "passes_due cfg (env # envs) b =
     (list_all (\<lambda>(_, s). s \<le> be_clock env 0 div ns_per_sec) (bl_retries b) \<and> be_list env \<and> (\<forall>i. be_rem env i) \<and>
      passes_due cfg envs (processRetryQueue cfg env b))"

lemma pass_shrinks:
  assumes "queue_ok (retry_limit cfg) (bl_retries b)" "in_i64 (retry_limit cfg)" "bl_redis b" "passes_due cfg (env # envs) b"
  shows "retries_left (retry_limit cfg) (bl_retries (processRetryQueue cfg env b)) \<le> retries_left (retry_limit cfg) (bl_retries b) - 1 \<and>
    bl_redis (processRetryQueue cfg env b)"
proof (cases "bl_retries b = []")
  case True
  then show ?thesis using assms(3) by (simp add: processRetryQueue_def due_entries_def retries_left_def)
next
  case False
  let ?ms = "due_entries env (bl_retries b)"
  have redis: "bl_redis (retry_one m' env i m c) = bl_redis c" for m' i m c
    by (simp add: retry_one_def Let_def split: queued.split option.split prod.split)
  have redis_all: "bl_redis (retry_all m' env i ms c) = bl_redis c" for m' i ms c
    by (induction ms arbitrary: i c) (simp_all add: redis)
  have ms: "?ms \<noteq> []" using due_entries_all [OF _ False] assms(4) by simp
  have from_queue: "distinct ?ms" "set ?ms \<subseteq> fst ` set (bl_retries b)"
    using due_entries_from [of "bl_retries b" env] assms(1) by (simp_all add: queue_ok_def)
  have "retries_left (retry_limit cfg) (bl_retries (retry_all (retry_limit cfg) env 1 ?ms b)) + length ?ms
      \<le> retries_left (retry_limit cfg) (bl_retries b)"
    using retry_all_left [OF assms(1) from_queue assms(2), of env 1] assms(4) by simp
  moreover have "1 \<le> length ?ms" using ms by (cases ?ms) simp_all
  ultimately have "retries_left (retry_limit cfg) (bl_retries (retry_all (retry_limit cfg) env 1 ?ms b))
      \<le> retries_left (retry_limit cfg) (bl_retries b) - 1" by linarith
  then show ?thesis using assms(3,4) ms by (simp add: processRetryQueue_def Let_def redis_all)
qed

text \<open>C38: The retry queue runs empty, whatever the relays answer: as many due passes as there are attempts left suffice.\<close>

theorem retry_queue_drains:
  assumes "queue_ok (retry_limit cfg) (bl_retries b)" "in_i64 (bc_MaxRetries cfg)" "bl_redis b" "passes_due cfg envs b"
    and "retries_left (retry_limit cfg) (bl_retries b) \<le> length envs"
  shows "bl_retries (fold (processRetryQueue cfg) envs b) = []"
proof -
  have lim: "in_i64 (retry_limit cfg)" using assms(2) by (auto simp: retry_limit_def in_i64_def)
  show ?thesis
    using assms(1,3-5)
  proof (induction envs arbitrary: b)
    case Nil
    then show ?case
      using entry_weight_pos [of "retry_limit cfg" "fst (hd (bl_retries b))"]
      by (cases "bl_retries b") (auto simp: retries_left_def split: prod.splits)
  next
    case (Cons env envs)
    let ?b = "processRetryQueue cfg env b"
    from pass_shrinks [OF Cons.prems(1) lim Cons.prems(2,3)]
    have "bl_redis ?b" by simp
    moreover from pass_shrinks [OF Cons.prems(1) lim Cons.prems(2,3)] have "retries_left (retry_limit cfg) (bl_retries ?b) \<le> length envs"
      using Cons.prems(4) unfolding list.size by linarith
    ultimately show ?case using Cons.IH [OF processRetryQueue_ok [OF Cons.prems(1) lim]] Cons.prems(3) by simp
  qed
qed

text \<open>As main.go sets the broadcaster up, the retry worker is never started: whatever happens, every entry the sorted
  set holds stays there, and nothing is ever retried.\<close>

theorem wired_retries_are_never_sent:
  assumes "wired_blastr s True shared = Some b" "HavenBlastrRetryEnabled s" "blastr_run cfg xs b = Some b'"
  shows "fst ` set shared \<subseteq> fst ` set (bl_retries b') \<and> bl_EventsRetried b' = 0"
proof -
  have step: "blastr_do cfg x c = Some c' \<Longrightarrow> \<not> bl_retryWorker c \<Longrightarrow>
      fst ` set (bl_retries c) \<subseteq> fst ` set (bl_retries c') \<and> \<not> bl_retryWorker c' \<and> bl_EventsRetried c' = bl_EventsRetried c" for x c c'
  proof (cases x)
    case (WorkerTurn env)
    then show "blastr_do cfg x c = Some c' \<Longrightarrow> \<not> bl_retryWorker c \<Longrightarrow>
      fst ` set (bl_retries c) \<subseteq> fst ` set (bl_retries c') \<and> \<not> bl_retryWorker c' \<and> bl_EventsRetried c' = bl_EventsRetried c"
      using worker_turn_keeps(1,3,4) [where b = c and env = env and cfg = cfg] by auto
  next
    case (Send r ev)
    then show "blastr_do cfg x c = Some c' \<Longrightarrow> \<not> bl_retryWorker c \<Longrightarrow>
      fst ` set (bl_retries c) \<subseteq> fst ` set (bl_retries c') \<and> \<not> bl_retryWorker c' \<and> bl_EventsRetried c' = bl_EventsRetried c"
      using Broadcast_keeps [of cfg r ev c c'] by simp
  qed (auto simp: retry_tick_def blastr_Stop_def)
  have "blastr_run cfg xs c = Some b' \<Longrightarrow> \<not> bl_retryWorker c \<Longrightarrow>
      fst ` set (bl_retries c) \<subseteq> fst ` set (bl_retries b') \<and> bl_EventsRetried b' = bl_EventsRetried c" for c
  proof (induction xs arbitrary: c)
    case (Cons x xs)
    from Cons.prems(1) obtain c' where c': "blastr_do cfg x c = Some c'" "blastr_run cfg xs c' = Some b'"
      by (auto split: option.splits)
    with step [OF c'(1) Cons.prems(2)] Cons.IH [of c'] show ?case by auto
  qed simp
  moreover have "bl_retries b = shared \<and> \<not> bl_retryWorker b \<and> bl_EventsRetried b = 0"
    using assms(1,2) by (auto simp: wired_blastr_def Let_def blastr_Start_def NewBlastr_def SetRedisClient_def split: if_splits)
  ultimately show ?thesis using assms(3) by metis
qed

subsection \<open>Concrete runs\<close>

definition dead_world :: "int \<Rightarrow> blastr_env" where
  "dead_world t = \<lparr>be_net = \<lparr>net_up = (\<lambda>_. False), net_dial = (\<lambda>_. Inl ''refused''), net_send = (\<lambda>_ _. None)\<rparr>,
     be_list = True, be_rem = (\<lambda>_. True), be_add = (\<lambda>_. True), be_card = True, be_clock = (\<lambda>_. t)\<rparr>"

definition one_relay :: blastr_config where
  "one_relay = \<lparr>bc_Enabled = True, bc_Relays = [''wss://r''], bc_RetryEnabled = True, bc_MaxRetries = 2, bc_RetryInterval = 30\<rparr>"

definition owner_note :: event where
  "owner_note = \<lparr>ev_id = ''n'', ev_pubkey = ''owner'', ev_created_at = 0, ev_kind = 1, ev_tags = [], ev_content = ''''\<rparr>"

definition pending_note :: queued where
  "pending_note = Entry \<lparr>re_EventID = ''n'', re_Event = Some owner_note, re_RelayURL = ''wss://r'', re_Attempts = 1, re_AddedAt = 0,
     re_LastError = ''initial broadcast failed''\<rparr>"

definition broadcaster :: blastr where
  "broadcaster = NewBlastr\<lparr>bl_queue := [owner_note], bl_worker := True, bl_redis := True\<rparr>"

lemmas dead_run = dead_world_def one_relay_def broadcaster_def NewBlastr_def worker_turn_def broadcastEvent_def pool_Publish_def
  pool_Connect_def queueForRetry_def add_retry_def retry_score_def Let_def

lemma one_retry_queued:
  "blastr_run one_relay [WorkerTurn (dead_world 0)] broadcaster
     = Some (broadcaster\<lparr>bl_queue := [], bl_retries := [(pending_note, 30)]\<rparr>)"
  using retryBackoff_exact [of 1] by (simp add: dead_run owner_note_def pending_note_def ConnectedCount_def)

lemma retry_attempts_stay_below_limit_witness:
  "1 \<le> re_Attempts \<lparr>re_EventID = ''n'', re_Event = Some owner_note, re_RelayURL = ''wss://r'', re_Attempts = 1, re_AddedAt = 0,
     re_LastError = ''initial broadcast failed''\<rparr>"
  using retry_attempts_stay_below_limit [OF one_retry_queued, of _ 30]
  by (simp add: pending_note_def broadcaster_def NewBlastr_def one_relay_def in_i64_def)

lemma retry_queue_drains_witness:
  "bl_retries (fold (processRetryQueue one_relay) [dead_world (30 * ns_per_sec)] (broadcaster\<lparr>bl_retries := [(pending_note, 30)]\<rparr>)) = []"
  by (rule retry_queue_drains)
    (simp_all add: queue_ok_def entry_ok_def pending_note_def broadcaster_def NewBlastr_def one_relay_def in_i64_def dead_world_def
      retries_left_def entry_weight_def retry_limit_def)

definition owner_settings :: haven_settings where
  "owner_settings = \<lparr>HavenEnabled = True, HavenOwnerPubkey = ''owner'', HavenPrivateKinds = [], HavenAllowPublicOutboxRead = True,
     HavenAllowPublicInboxWrite = True, HavenRequireAuthForChat = True, HavenRequireAuthForPrivate = True, HavenBlastrEnabled = True,
     HavenBlastrRelays = [''wss://r''], HavenBlastrRetryEnabled = True, HavenBlastrMaxRetries = 2, HavenBlastrRetryInterval = 30,
     HavenImporterEnabled = False, HavenImporterRelays = [], HavenImporterRealtimeEnabled = False, HavenMultiUserEnabled = False\<rparr>"

lemma wired_retries_are_never_sent_witness:
  "\<exists>b. blastr_run (blastr_config_of owner_settings True) [RetryTick (dead_world (60 * ns_per_sec))]
        (SetRedisClient [(pending_note, 30)] (blastr_Start (blastr_config_of owner_settings True) NewBlastr)) = Some b \<and>
      pending_note \<in> fst ` set (bl_retries b)"
proof -
  let ?cfg = "blastr_config_of owner_settings True"
  let ?b = "SetRedisClient [(pending_note, 30)] (blastr_Start ?cfg NewBlastr)"
  have w: "wired_blastr owner_settings True [(pending_note, 30)] = Some ?b"
    by (simp add: wired_blastr_def Let_def blastr_config_of_def owner_settings_def)
  obtain b where b: "blastr_run ?cfg [RetryTick (dead_world (60 * ns_per_sec))] ?b = Some b" by simp
  from wired_retries_are_never_sent [OF w _ b] have "pending_note \<in> fst ` set (bl_retries b)" by (simp add: owner_settings_def)
  with b show ?thesis by blast
qed

text \<open>An event that no relay takes is neither counted as broadcast nor as failed, even when nothing is retried.\<close>

theorem undelivered_event_is_not_counted:
  assumes "publish_all (be_net env) ev (bc_Relays cfg) (bl_pool b) = (0, bad, p)" "bad \<noteq> []" "\<not> bc_RetryEnabled cfg"
  shows "bl_EventsFailed (broadcastEvent cfg env ev b) = bl_EventsFailed b \<and>
    bl_EventsBroadcast (broadcastEvent cfg env ev b) = bl_EventsBroadcast b \<and> bl_retries (broadcastEvent cfg env ev b) = bl_retries b"
  using assms by (simp add: broadcastEvent_def Let_def)

text \<open>A broadcast after \<open>Stop\<close> sends on a closed channel.\<close>

theorem broadcast_after_stop_panics:
  assumes "bc_Enabled cfg" "RouteEvent r ev = BoxOutbox"
  shows "Broadcast cfg r ev (blastr_Stop b) = None"
  using assms by (simp add: Broadcast_def blastr_Stop_def)

section \<open>The members' broadcaster\<close>

record BlastrJob =
  bj_Event :: event
  bj_UserPubkey :: string
  bj_Relays :: "string list"
  bj_Tier :: string
  bj_Priority :: int

record UserRetryEntry =
  ue_EventID :: string
  ue_Event :: event
  ue_UserPubkey :: string
  ue_RelayURL :: string
  ue_Tier :: string
  ue_Attempts :: int
  ue_AddedAt :: int
  ue_LastError :: string

record blastr_manager_config =
  mc_WorkerCount :: int
  mc_QueueSize :: nat
  mc_RetryEnabled :: bool
  mc_RetryKey :: string
  mc_MaxRetries :: int
  mc_RetryIntervalSec :: int

definition DefaultBlastrManagerConfig :: blastr_manager_config where
  "DefaultBlastrManagerConfig = \<lparr>mc_WorkerCount = 10, mc_QueueSize = 1000, mc_RetryEnabled = False,
     mc_RetryKey = ''haven:blastr:user:'', mc_MaxRetries = 6, mc_RetryIntervalSec = 30\<rparr>"

record blastr_manager =
  bm_queue :: "BlastrJob list"
  bm_pool :: conn_pool
  bm_redis :: bool
  bm_retries :: "string \<Rightarrow> (UserRetryEntry \<times> int) list"
  bm_JobsQueued :: int
  bm_JobsProcessed :: int
  bm_JobsFailed :: int
  bm_JobsDropped :: int
  bm_RelaysConnected :: int

definition tierPriority :: "string \<Rightarrow> int" where
  "tierPriority t = (if t = ''enterprise'' then 100 else if t = ''premium'' then 75 else if t = ''hybrid'' then 50
     else if t = ''free'' then 25 else 10)"

definition queueJob :: "blastr_manager_config \<Rightarrow> BlastrJob \<Rightarrow> blastr_manager \<Rightarrow> blastr_manager" where
  "queueJob mc job m =
     (if length (bm_queue m) < mc_QueueSize mc then m\<lparr>bm_queue := bm_queue m @ [job], bm_JobsQueued := bm_JobsQueued m + 1\<rparr>
      else m\<lparr>bm_JobsDropped := bm_JobsDropped m + 1\<rparr>)"

text \<open>\<open>handleEvent\<close>: the member's record, \<open>None\<close> for an error or no member; the member's settings likewise: whether the
  broadcaster is on, and the relays. Stores that are nil are \<open>None\<close>.\<close>

definition manager_job :: "(string \<Rightarrow> MemberInfo option) option \<Rightarrow> (string \<Rightarrow> (bool \<times> string list) option) option \<Rightarrow> event \<Rightarrow> BlastrJob option" where
  "manager_job members settings ev =
     (case members of None \<Rightarrow> None
      | Some get \<Rightarrow> (case get (ev_pubkey ev) of None \<Rightarrow> None
        | Some info \<Rightarrow>
            if \<not> HasBlastr info then None
            else case settings of None \<Rightarrow> None
              | Some s \<Rightarrow> (case s (ev_pubkey ev) of None \<Rightarrow> None
                | Some (on, relays) \<Rightarrow>
                    if \<not> on \<or> relays = [] then None
                    else Some \<lparr>bj_Event = ev, bj_UserPubkey = ev_pubkey ev,
                      bj_Relays = (if MaxBlastrRelays info > 0 \<and> int (length relays) > MaxBlastrRelays info
                                   then take (nat (MaxBlastrRelays info)) relays else relays),
                      bj_Tier = mi_Tier info, bj_Priority = tierPriority (mi_Tier info)\<rparr>)))"

definition handleEvent :: "blastr_manager_config \<Rightarrow> (string \<Rightarrow> MemberInfo option) option \<Rightarrow> (string \<Rightarrow> (bool \<times> string list) option) option \<Rightarrow> event
    \<Rightarrow> blastr_manager \<Rightarrow> blastr_manager" where
  "handleEvent mc members settings ev m =
     (case manager_job members settings ev of None \<Rightarrow> m | Some job \<Rightarrow> queueJob mc job m)"

definition user_retry :: "blastr_manager_config \<Rightarrow> blastr_env \<Rightarrow> nat \<Rightarrow> BlastrJob \<Rightarrow> string \<Rightarrow> blastr_manager \<Rightarrow> blastr_manager" where
  "user_retry mc env i job url m =
     (let key = mc_RetryKey mc @ bj_UserPubkey job;
          e = \<lparr>ue_EventID = ev_id (bj_Event job), ue_Event = bj_Event job, ue_UserPubkey = bj_UserPubkey job, ue_RelayURL = url,
               ue_Tier = bj_Tier job, ue_Attempts = 1, ue_AddedAt = be_clock env i div ns_per_sec, ue_LastError = ''broadcast failed''\<rparr>
      in if \<not> bm_redis m \<or> \<not> be_add env i then m
         else m\<lparr>bm_retries := (bm_retries m)(key := AList.update e (retry_score env i 1) (bm_retries m key))\<rparr>)"

fun user_retry_all :: "blastr_manager_config \<Rightarrow> blastr_env \<Rightarrow> nat \<Rightarrow> BlastrJob \<Rightarrow> string list \<Rightarrow> blastr_manager \<Rightarrow> blastr_manager" where
  "user_retry_all mc env i job [] m = m"
| "user_retry_all mc env i job (url # urls) m = user_retry_all mc env (Suc i) job urls (user_retry mc env i job url m)"

definition processJob :: "blastr_manager_config \<Rightarrow> blastr_env \<Rightarrow> BlastrJob \<Rightarrow> blastr_manager \<Rightarrow> blastr_manager" where
  "processJob mc env job m =
     (case publish_all (be_net env) (bj_Event job) (bj_Relays job) (bm_pool m) of (n, bad, p) \<Rightarrow>
        let m1 = m\<lparr>bm_pool := p\<rparr>;
            m2 = (if n > 0 then m1\<lparr>bm_JobsProcessed := bm_JobsProcessed m1 + 1\<rparr>
                  else if length bad = length (bj_Relays job) then m1\<lparr>bm_JobsFailed := bm_JobsFailed m1 + 1\<rparr> else m1);
            m3 = m2\<lparr>bm_RelaysConnected := ConnectedCount (be_net env) p\<rparr>
        in user_retry_all mc env 0 job bad m3)"

definition manager_turn :: "blastr_manager_config \<Rightarrow> blastr_env \<Rightarrow> blastr_manager \<Rightarrow> blastr_manager" where
  "manager_turn mc env m =
     (case bm_queue m of [] \<Rightarrow> m | job # jobs \<Rightarrow> processJob mc env job (m\<lparr>bm_queue := jobs\<rparr>))"

definition BroadcastForUser :: "blastr_manager_config \<Rightarrow> event \<Rightarrow> string \<Rightarrow> string list \<Rightarrow> blastr_manager \<Rightarrow> blastr_manager" where
  "BroadcastForUser mc ev pk relays m =
     queueJob mc \<lparr>bj_Event = ev, bj_UserPubkey = pk, bj_Relays = relays, bj_Tier = ''manual'', bj_Priority = 100\<rparr> m"

text \<open>A job exists only for a member whose tier has the broadcaster and who has switched it on, and it never sends to more
  relays than the tier allows.\<close>

theorem manager_job_within_tier:
  assumes "manager_job members settings ev = Some job"
  shows "\<exists>get info s relays. members = Some get \<and> get (ev_pubkey ev) = Some info \<and> HasBlastr info \<and>
    settings = Some s \<and> s (ev_pubkey ev) = Some (True, relays) \<and> set (bj_Relays job) \<subseteq> set relays \<and>
    (MaxBlastrRelays info > 0 \<longrightarrow> int (length (bj_Relays job)) \<le> MaxBlastrRelays info)"
  using assms by (auto simp: manager_job_def split: option.splits if_splits dest!: in_set_takeD)

text \<open>What the workers queue for a retry under the members' keys is never taken out again: no code reads these keys.\<close>

datatype manager_step = JobFor "(string \<Rightarrow> MemberInfo option) option" "(string \<Rightarrow> (bool \<times> string list) option) option" event
  | JobTurn blastr_env | JobByHand event string "string list"

fun manager_do :: "blastr_manager_config \<Rightarrow> manager_step \<Rightarrow> blastr_manager \<Rightarrow> blastr_manager" where
  "manager_do mc (JobFor members settings ev) m = handleEvent mc members settings ev m"
| "manager_do mc (JobTurn env) m = manager_turn mc env m"
| "manager_do mc (JobByHand ev pk relays) m = BroadcastForUser mc ev pk relays m"

lemma user_retry_all_keeps: "fst ` set (bm_retries m k) \<subseteq> fst ` set (bm_retries (user_retry_all mc env i job urls m) k)"
proof (induction mc env i job urls m rule: user_retry_all.induct)
  case (2 mc env i job url urls m)
  have "fst ` set (bm_retries m k) \<subseteq> fst ` set (bm_retries (user_retry mc env i job url m) k)"
    by (auto simp: user_retry_def Let_def keys_update)
  with 2 show ?case by simp
qed simp

theorem manager_retries_only_grow:
  "fst ` set (bm_retries m k) \<subseteq> fst ` set (bm_retries (fold (manager_do mc) xs m) k)"
proof -
  have step: "fst ` set (bm_retries m k) \<subseteq> fst ` set (bm_retries (manager_do mc x m) k)" for x m
  proof (cases x)
    case (JobTurn env)
    show ?thesis
    proof (cases "bm_queue m")
      case (Cons job jobs)
      obtain n bad p where p: "publish_all (be_net env) (bj_Event job) (bj_Relays job) (bm_pool m) = (n, bad, p)"
        by (cases rule: prod_cases3)
      show ?thesis
        by (simp add: JobTurn manager_turn_def Cons processJob_def p Let_def)
          (intro conjI impI; rule order_trans [OF _ user_retry_all_keeps]; simp)
    qed (simp add: JobTurn manager_turn_def)
  qed (auto simp: handleEvent_def queueJob_def BroadcastForUser_def split: option.split)
  then show ?thesis by (induction xs arbitrary: m) (simp_all, blast)
qed

end
