(* ===== verification/Haven_Import.thy ===== *)
theory Haven_Import
  imports Blastr_Retry
begin

text \<open>
  internal/haven/importer.go, importer_manager.go and subscriber.go: events that other relays hold for the owner or for paid
  members are fetched on a timer, or received over open subscriptions, and stored. The network and the
  answers to queries are parameters; go-nostr checks that an answer matches the query. \<open>stored\<close> lists what
  the store took, a ghost. Relays that the code polls in parallel are polled one after the other. Times are
  nanoseconds; a time that was never set is \<open>None\<close>.
\<close>

section \<open>The owner's importer\<close>

record importer =
  im_pool :: conn_pool
  im_lastFetch :: "string \<Rightarrow> int option"
  im_seenEvents :: "string list"
  im_EventsImported :: int
  im_EventsSkipped :: int
  im_FetchErrors :: int
  im_RelaysPolled :: int
  im_LastImport :: "int option"
  im_LastPollTime :: "int option"
  im_stored :: "event list"

definition NewImporter :: importer where
  "NewImporter = \<lparr>im_pool = [], im_lastFetch = (\<lambda>_. None), im_seenEvents = [], im_EventsImported = 0, im_EventsSkipped = 0,
     im_FetchErrors = 0, im_RelaysPolled = 0, im_LastImport = None, im_LastPollTime = None, im_stored = []\<rparr>"

text \<open>The answer to a query by connection, recipient and earliest second; whether the \<open>k\<close>-th store succeeds.\<close>

record import_env =
  ie_net :: network
  ie_query :: "nat \<Rightarrow> string \<Rightarrow> int \<Rightarrow> event list option"
  ie_store :: "nat \<Rightarrow> bool"
  ie_clock :: "nat \<Rightarrow> int"

text \<open>The loop over the events of an answer, with its local counts of imported and skipped events.\<close>

fun import_events :: "Router \<Rightarrow> import_env \<Rightarrow> nat \<Rightarrow> event list \<Rightarrow> int \<times> int \<times> importer \<Rightarrow> int \<times> int \<times> importer" where
  "import_events r env k [] acc = acc"
| "import_events r env k (ev # evs) (imported, skipped, st) =
     (if ev_id ev \<in> set (im_seenEvents st) \<or> ev_pubkey ev = r_owner r \<or> (RouteEvent r ev \<noteq> BoxInbox \<and> RouteEvent r ev \<noteq> BoxChat)
      then import_events r env k evs (imported, skipped + 1, st)
      else if \<not> ie_store env k then import_events r env (Suc k) evs (imported, skipped, st)
      else import_events r env (Suc k) evs
        (imported + 1, skipped, st\<lparr>im_seenEvents := ev_id ev # im_seenEvents st, im_stored := im_stored st @ [ev]\<rparr>))"

definition day :: int where
  "day = 24 * 3600 * ns_per_sec"

definition fetch_since :: "import_env \<Rightarrow> string \<Rightarrow> importer \<Rightarrow> int" where
  "fetch_since env url st = (case im_lastFetch st url of Some t \<Rightarrow> t | None \<Rightarrow> ie_clock env 0 - day)"

definition pollRelay :: "Router \<Rightarrow> import_env \<Rightarrow> string \<Rightarrow> importer \<Rightarrow> importer" where
  "pollRelay r env url st =
     (case pool_Connect (ie_net env) url (im_pool st) of
        (Inl _, p) \<Rightarrow> st\<lparr>im_pool := p, im_FetchErrors := im_FetchErrors st + 1\<rparr>
      | (Inr c, p) \<Rightarrow>
          (case ie_query env c (r_owner r) (fetch_since env url st div ns_per_sec) of
             None \<Rightarrow> st\<lparr>im_pool := p, im_FetchErrors := im_FetchErrors st + 1\<rparr>
           | Some evs \<Rightarrow>
               (case import_events r env 0 evs (0, 0, st\<lparr>im_pool := p\<rparr>) of (imported, skipped, st') \<Rightarrow>
                  st'\<lparr>im_lastFetch := (im_lastFetch st')(url \<mapsto> ie_clock env 1),
                    im_EventsImported := im_EventsImported st' + imported, im_EventsSkipped := im_EventsSkipped st' + skipped,
                    im_LastImport := (if imported > 0 then Some (ie_clock env 2) else im_LastImport st')\<rparr>)))"

definition importer_cleanupSeenEvents :: "importer \<Rightarrow> importer" where
  "importer_cleanupSeenEvents st = (if length (im_seenEvents st) > 1000 then st\<lparr>im_seenEvents := []\<rparr> else st)"

text \<open>\<open>envs\<close> is what each relay meets.\<close>

definition pollAllRelays :: "Router \<Rightarrow> (string \<Rightarrow> import_env) \<Rightarrow> int \<Rightarrow> string list \<Rightarrow> importer \<Rightarrow> importer" where
  "pollAllRelays r envs now relays st =
     (let st' = importer_cleanupSeenEvents (fold (\<lambda>url. pollRelay r (envs url) url) relays (st\<lparr>im_LastPollTime := Some now\<rparr>))
      in st'\<lparr>im_RelaysPolled := int (length relays)\<rparr>)"

section \<open>The members' importer\<close>

record ImporterJob =
  ij_UserPubkey :: string
  ij_Relays :: "string list"
  ij_Since :: int
  ij_Tier :: string

record importer_manager_config =
  imc_WorkerCount :: int
  imc_QueueSize :: nat
  imc_PollInterval :: int
  imc_LookbackDefault :: int
  imc_MaxEventsPerJob :: int

definition DefaultImporterManagerConfig :: importer_manager_config where
  "DefaultImporterManagerConfig = \<lparr>imc_WorkerCount = 5, imc_QueueSize = 500, imc_PollInterval = 300 * ns_per_sec,
     imc_LookbackDefault = day, imc_MaxEventsPerJob = 100\<rparr>"

text \<open>\<open>mm_lastImport\<close> is the column the settings table keeps of it.\<close>

record importer_manager =
  mm_queue :: "ImporterJob list"
  mm_pool :: conn_pool
  mm_seenEvents :: "string list"
  mm_lastImport :: "string \<Rightarrow> int option"
  mm_JobsQueued :: int
  mm_JobsProcessed :: int
  mm_EventsImported :: int
  mm_EventsSkipped :: int
  mm_FetchErrors :: int
  mm_UsersWithImporter :: int
  mm_stored :: "(string \<times> event) list"

definition import_queueJob :: "importer_manager_config \<Rightarrow> ImporterJob \<Rightarrow> importer_manager \<Rightarrow> importer_manager" where
  "import_queueJob mc job m =
     (if length (mm_queue m) < imc_QueueSize mc then m\<lparr>mm_queue := mm_queue m @ [job], mm_JobsQueued := mm_JobsQueued m + 1\<rparr> else m)"

text \<open>The job of one row of \<open>GetUsersForImport\<close>: a key and its relays.\<close>

definition import_job :: "(string \<Rightarrow> MemberInfo option) \<Rightarrow> int \<Rightarrow> (string \<Rightarrow> int option) \<Rightarrow> string \<times> string list \<Rightarrow> ImporterJob option" where
  "import_job members now lastImport u =
     (case members (fst u) of None \<Rightarrow> None
      | Some info \<Rightarrow>
          if \<not> HasImporter info then None
          else let relays = (if MaxImporterRelays info > 0 \<and> int (length (snd u)) > MaxImporterRelays info
                             then take (nat (MaxImporterRelays info)) (snd u) else snd u) in
            if relays = [] then None
            else Some \<lparr>ij_UserPubkey = fst u, ij_Relays = relays,
                       ij_Since = (case lastImport (fst u) of Some t \<Rightarrow> t | None \<Rightarrow> now - day), ij_Tier = mi_Tier info\<rparr>)"

definition scheduleAllUsers :: "importer_manager_config \<Rightarrow> (string \<Rightarrow> MemberInfo option) \<Rightarrow> int \<Rightarrow> (string \<times> string list) list option \<Rightarrow>
    importer_manager \<Rightarrow> importer_manager" where
  "scheduleAllUsers mc members now users m =
     (case users of None \<Rightarrow> m
      | Some us \<Rightarrow>
          fold (\<lambda>u m. case import_job members now (mm_lastImport m) u of None \<Rightarrow> m | Some job \<Rightarrow> import_queueJob mc job m) us
            (m\<lparr>mm_UsersWithImporter := int (length us)\<rparr>))"

fun import_for :: "import_env \<Rightarrow> string \<Rightarrow> nat \<Rightarrow> event list \<Rightarrow> int \<times> int \<times> int \<times> importer_manager \<Rightarrow> int \<times> int \<times> int \<times> importer_manager" where
  "import_for env user k [] acc = acc"
| "import_for env user k (ev # evs) (imported, skipped, errors, m) =
     (if ev_id ev \<in> set (mm_seenEvents m) \<or> ev_pubkey ev = user then import_for env user k evs (imported, skipped + 1, errors, m)
      else if \<not> ie_store env k then import_for env user (Suc k) evs (imported, skipped, errors + 1, m)
      else import_for env user (Suc k) evs
        (imported + 1, skipped, errors, m\<lparr>mm_seenEvents := ev_id ev # mm_seenEvents m, mm_stored := mm_stored m @ [(user, ev)]\<rparr>))"

definition importFromRelay :: "import_env \<Rightarrow> ImporterJob \<Rightarrow> string \<Rightarrow> importer_manager \<Rightarrow> int \<times> int \<times> int \<times> importer_manager" where
  "importFromRelay env job url m =
     (case pool_Connect (ie_net env) url (mm_pool m) of
        (Inl _, p) \<Rightarrow> (0, 0, 1, m\<lparr>mm_pool := p\<rparr>)
      | (Inr c, p) \<Rightarrow>
          (case ie_query env c (ij_UserPubkey job) (ij_Since job div ns_per_sec) of
             None \<Rightarrow> (0, 0, 1, m\<lparr>mm_pool := p\<rparr>)
           | Some evs \<Rightarrow> import_for env (ij_UserPubkey job) 0 evs (0, 0, 0, m\<lparr>mm_pool := p\<rparr>)))"

fun import_relays :: "(string \<Rightarrow> import_env) \<Rightarrow> ImporterJob \<Rightarrow> string list \<Rightarrow> int \<times> int \<times> int \<times> importer_manager \<Rightarrow> int \<times> int \<times> int \<times> importer_manager" where
  "import_relays envs job [] acc = acc"
| "import_relays envs job (url # urls) (imported, skipped, errors, m) =
     (case importFromRelay (envs url) job url m of (i, s, e, m') \<Rightarrow>
        import_relays envs job urls (imported + i, skipped + s, errors + e, m'))"

text \<open>\<open>saved\<close> says whether the update of the last import time works.\<close>

definition import_processJob :: "(string \<Rightarrow> import_env) \<Rightarrow> int \<Rightarrow> bool \<Rightarrow> ImporterJob \<Rightarrow> importer_manager \<Rightarrow> importer_manager" where
  "import_processJob envs now saved job m =
     (case import_relays envs job (ij_Relays job) (0, 0, 0, m) of (imported, skipped, errors, m') \<Rightarrow>
        m'\<lparr>mm_JobsProcessed := mm_JobsProcessed m' + 1, mm_EventsImported := mm_EventsImported m' + imported,
          mm_EventsSkipped := mm_EventsSkipped m' + skipped, mm_FetchErrors := mm_FetchErrors m' + errors,
          mm_lastImport := (if imported > 0 \<and> saved then (mm_lastImport m')(ij_UserPubkey job \<mapsto> now) else mm_lastImport m')\<rparr>)"

definition import_turn :: "(string \<Rightarrow> import_env) \<Rightarrow> int \<Rightarrow> bool \<Rightarrow> importer_manager \<Rightarrow> importer_manager" where
  "import_turn envs now saved m =
     (case mm_queue m of [] \<Rightarrow> m | job # jobs \<Rightarrow> import_processJob envs now saved job (m\<lparr>mm_queue := jobs\<rparr>))"

definition CleanupSeenEvents :: "importer_manager \<Rightarrow> importer_manager" where
  "CleanupSeenEvents m = (if length (mm_seenEvents m) > 10000 then m\<lparr>mm_seenEvents := []\<rparr> else m)"

definition ImportForUser :: "importer_manager_config \<Rightarrow> string \<Rightarrow> string list \<Rightarrow> int \<Rightarrow> importer_manager \<Rightarrow> importer_manager" where
  "ImportForUser mc pk relays since m =
     import_queueJob mc \<lparr>ij_UserPubkey = pk, ij_Relays = relays, ij_Since = since, ij_Tier = ''manual''\<rparr> m"

section \<open>Open subscriptions\<close>

record relay_subscription =
  rs_connected :: bool
  rs_lastConnected :: "int option"
  rs_lastEvent :: "int option"
  rs_reconnectAt :: "int option"
  rs_backoffSecs :: int
  rs_eventsRecv :: int
  rs_errors :: int

definition new_subscription :: relay_subscription where
  "new_subscription = \<lparr>rs_connected = False, rs_lastConnected = None, rs_lastEvent = None, rs_reconnectAt = None,
     rs_backoffSecs = 1, rs_eventsRecv = 0, rs_errors = 0\<rparr>"

definition scheduleReconnect :: "int \<Rightarrow> relay_subscription \<Rightarrow> relay_subscription" where
  "scheduleReconnect now rs =
     (let doubled = rs_backoffSecs rs * 2; b = (if doubled > 60 then 60 else doubled)
      in rs\<lparr>rs_backoffSecs := b, rs_reconnectAt := Some (now + b * ns_per_sec)\<rparr>)"

text \<open>One round of \<open>manageRelay\<close>: connecting or subscribing fails at a time, or the subscription starts at one
  time and ends at another.\<close>

datatype subscription_round = Unreachable int | Refused int | Lived int int

fun manage_round :: "subscription_round \<Rightarrow> relay_subscription \<Rightarrow> relay_subscription" where
  "manage_round (Unreachable t) rs = scheduleReconnect t (rs\<lparr>rs_errors := rs_errors rs + 1\<rparr>)"
| "manage_round (Refused t) rs = scheduleReconnect t (rs\<lparr>rs_errors := rs_errors rs + 1\<rparr>)"
| "manage_round (Lived t t') rs =
     scheduleReconnect t' ((rs\<lparr>rs_backoffSecs := 1, rs_connected := True, rs_lastConnected := Some t\<rparr>)\<lparr>rs_connected := False\<rparr>)"

record subscriber =
  sb_seenEvents :: "(string \<times> int) list"
  sb_EventsReceived :: int
  sb_EventsImported :: int
  sb_EventsSkipped :: int
  sb_LastEventTime :: "int option"
  sb_stored :: "(int \<times> event) list"

definition no_subscriber :: subscriber where
  "no_subscriber = \<lparr>sb_seenEvents = [], sb_EventsReceived = 0, sb_EventsImported = 0, sb_EventsSkipped = 0, sb_LastEventTime = None,
     sb_stored = []\<rparr>"

definition processEvent :: "Router \<Rightarrow> bool \<Rightarrow> int \<Rightarrow> event \<Rightarrow> subscriber \<Rightarrow> subscriber" where
  "processEvent r stores now ev s =
     (let s1 = s\<lparr>sb_EventsReceived := sb_EventsReceived s + 1, sb_LastEventTime := Some now\<rparr> in
      if map_of (sb_seenEvents s1) (ev_id ev) \<noteq> None \<or> ev_pubkey ev = r_owner r \<or> (RouteEvent r ev \<noteq> BoxInbox \<and> RouteEvent r ev \<noteq> BoxChat)
      then s1\<lparr>sb_EventsSkipped := sb_EventsSkipped s1 + 1\<rparr>
      else if \<not> stores then s1
      else s1\<lparr>sb_seenEvents := AList.update (ev_id ev) now (sb_seenEvents s1), sb_EventsImported := sb_EventsImported s1 + 1,
              sb_stored := sb_stored s1 @ [(now, ev)]\<rparr>)"

definition hour :: int where
  "hour = 3600 * ns_per_sec"

definition subscriber_cleanup :: "int \<Rightarrow> subscriber \<Rightarrow> subscriber" where
  "subscriber_cleanup now s = s\<lparr>sb_seenEvents := filter (\<lambda>(_, t). \<not> t < now - hour) (sb_seenEvents s)\<rparr>"

section \<open>Facts and properties\<close>

subsection \<open>The owner's importer\<close>

definition importable :: "Router \<Rightarrow> event \<Rightarrow> bool" where
  "importable r ev \<longleftrightarrow> ev_pubkey ev \<noteq> r_owner r \<and> (RouteEvent r ev = BoxInbox \<or> RouteEvent r ev = BoxChat)"

lemma import_events_stored:
  "import_events r env k evs (i, s, st) = (i', s', st') \<Longrightarrow>
   \<exists>new. im_stored st' = im_stored st @ new \<and> list_all (importable r) new \<and> i' = i + int (length new) \<and>
     im_EventsImported st' = im_EventsImported st \<and> im_lastFetch st' = im_lastFetch st \<and> set new \<subseteq> set evs"
proof (induction evs arbitrary: k i s st)
  case (Cons ev evs)
  let ?st = "st\<lparr>im_seenEvents := ev_id ev # im_seenEvents st, im_stored := im_stored st @ [ev]\<rparr>"
  from Cons.prems consider "import_events r env k evs (i, s + 1, st) = (i', s', st')"
    | "import_events r env (Suc k) evs (i, s, st) = (i', s', st')"
    | "importable r ev" "import_events r env (Suc k) evs (i + 1, s, ?st) = (i', s', st')"
    by (auto simp: importable_def split: if_splits)
  then show ?case
  proof cases
    case 3
    from Cons.IH [OF 3(2)] obtain new where "im_stored st' = im_stored st @ ev # new" "list_all (importable r) new"
      "i' = i + 1 + int (length new)" "im_EventsImported st' = im_EventsImported st" "im_lastFetch st' = im_lastFetch st" "set new \<subseteq> set evs"
      by auto
    with 3(1) show ?thesis by (intro exI [of _ "ev # new"]) auto
  qed (use Cons.IH in \<open>(fastforce dest: Cons.IH)+\<close>)
qed simp

definition importer_ok :: "Router \<Rightarrow> importer \<Rightarrow> bool" where
  "importer_ok r st \<longleftrightarrow> list_all (importable r) (im_stored st) \<and> im_EventsImported st = int (length (im_stored st))"

lemma pollRelay_ok:
  assumes "importer_ok r st"
  shows "importer_ok r (pollRelay r env url st)"
proof -
  obtain res p where c: "pool_Connect (ie_net env) url (im_pool st) = (res, p)" by (cases rule: prod.exhaust)
  show ?thesis
  proof (cases "\<exists>conn evs. res = Inr conn \<and> ie_query env conn (r_owner r) (fetch_since env url st div ns_per_sec) = Some evs")
    case True
    then obtain conn evs where q: "res = Inr conn" "ie_query env conn (r_owner r) (fetch_since env url st div ns_per_sec) = Some evs" by blast
    obtain i s st' where e: "import_events r env 0 evs (0, 0, st\<lparr>im_pool := p\<rparr>) = (i, s, st')" by (cases rule: prod_cases3)
    from import_events_stored [OF e] assms show ?thesis
      by (auto simp: pollRelay_def c q e importer_ok_def)
  next
    case False
    then show ?thesis using assms by (auto simp: pollRelay_def c importer_ok_def split: sum.split option.split)
  qed
qed

lemma pollAllRelays_ok:
  assumes "importer_ok r st"
  shows "importer_ok r (pollAllRelays r envs now relays st)"
proof -
  have "importer_ok r st \<Longrightarrow> importer_ok r (fold (\<lambda>url. pollRelay r (envs url) url) urls st)" for urls st
    by (induction urls arbitrary: st) (simp_all add: pollRelay_ok)
  from this [of "st\<lparr>im_LastPollTime := Some now\<rparr>" relays] assms show ?thesis
    by (simp add: pollAllRelays_def Let_def importer_cleanupSeenEvents_def importer_ok_def)
qed

definition importer_after :: "Router \<Rightarrow> string list \<Rightarrow> ((string \<Rightarrow> import_env) \<times> int) list \<Rightarrow> importer" where
  "importer_after r relays polls = fold (\<lambda>(envs, now). pollAllRelays r envs now relays) polls NewImporter"

text \<open>Whatever other relays answer, only events by others that the router puts in the inbox or the chat are stored, and
  the counter counts them.\<close>

theorem importer_stores_only_inbox:
  "list_all (importable r) (im_stored (importer_after r relays polls)) \<and>
   im_EventsImported (importer_after r relays polls) = int (length (im_stored (importer_after r relays polls)))"
proof -
  have "importer_ok r st \<Longrightarrow> importer_ok r (fold (\<lambda>(envs, now). pollAllRelays r envs now relays) polls st)" for st
    by (induction polls arbitrary: st) (auto simp: pollAllRelays_ok)
  then show ?thesis by (simp add: importer_after_def importer_ok_def NewImporter_def)
qed

text \<open>When every store fails, the next query still starts at the time of this poll: what could not be stored is not
  asked for again.\<close>

theorem unstored_events_are_not_fetched_again:
  assumes "pool_Connect (ie_net env) url (im_pool st) = (Inr c, p)"
    and "ie_query env c (r_owner r) (fetch_since env url st div ns_per_sec) = Some evs" "\<And>k. \<not> ie_store env k"
  shows "im_stored (pollRelay r env url st) = im_stored st \<and> fetch_since env' url (pollRelay r env url st) = ie_clock env 1"
proof -
  have none: "im_stored (snd (snd (import_events r env k evs (i, s, st)))) = im_stored st" for k evs i s st
    using assms(3) by (induction evs arbitrary: k i s) simp_all
  obtain i s st' where e: "import_events r env 0 evs (0, 0, st\<lparr>im_pool := p\<rparr>) = (i, s, st')" by (cases rule: prod_cases3)
  have "im_lastFetch (pollRelay r env url st) url = Some (ie_clock env 1)" "im_stored (pollRelay r env url st) = im_stored st'"
    by (simp_all add: pollRelay_def assms(1,2) e)
  with none [of 0 evs 0 0 "st\<lparr>im_pool := p\<rparr>"] e show ?thesis
    unfolding fetch_since_def by simp
qed

subsection \<open>Reconnecting\<close>

fun failed_round :: "subscription_round \<Rightarrow> bool" where
  "failed_round (Lived _ _) = False"
| "failed_round _ = True"

lemma min_pow: "1 \<le> a \<Longrightarrow> 0 < b \<Longrightarrow> min 60 (a * min 60 (2 * b)) = min 60 (a * (2 * b))" for a b :: int
proof (cases "2 * b \<le> 60")
  case False
  assume ab: "1 \<le> a" "0 < b"
  have "1 * (2 * b) \<le> a * (2 * b)" "1 * 60 \<le> a * (60::int)" using ab by (intro mult_right_mono; simp)+
  with False have "60 \<le> 2 * b" "60 \<le> a * (2 * b)" "60 \<le> a * (60::int)" by linarith+
  then show ?thesis by (simp only: min.absorb1)
qed simp

text \<open>After a subscription that lived, the first wait is two seconds, and every failure doubles it up to sixty.\<close>

theorem reconnect_delay:
  assumes "list_all failed_round fails"
  shows "rs_backoffSecs (fold manage_round (Lived t t' # fails) rs) = min 60 (2 ^ Suc (length fails))"
proof -
  have step: "rs_backoffSecs (manage_round x rs) = min 60 (2 * rs_backoffSecs rs)" if "failed_round x" for x rs
    using that by (cases x) (simp_all add: scheduleReconnect_def Let_def min_def mult.commute)
  have "rs_backoffSecs (fold manage_round fails rs) = min 60 (2 ^ length fails * rs_backoffSecs rs)" if "0 < rs_backoffSecs rs" "rs_backoffSecs rs \<le> 60" for rs
    using assms that
  proof (induction fails arbitrary: rs)
    case (Cons x xs)
    have m: "rs_backoffSecs (manage_round x rs) = min 60 (2 * rs_backoffSecs rs)" using step Cons.prems(1) by simp
    with Cons.IH [of "manage_round x rs"] Cons.prems
    have "rs_backoffSecs (fold manage_round xs (manage_round x rs)) = min 60 (2 ^ length xs * min 60 (2 * rs_backoffSecs rs))" by simp
    also have "\<dots> = min 60 (2 ^ length xs * (2 * rs_backoffSecs rs))" using Cons.prems(2) by (intro min_pow) simp_all
    finally show ?case by (simp add: mult.left_commute mult.assoc)
  qed simp
  from this [of "manage_round (Lived t t') rs"] show ?thesis by (simp add: scheduleReconnect_def Let_def)
qed

lemma reconnect_delay_witness: "rs_backoffSecs (fold manage_round [Lived 0 1, Unreachable 2, Refused 3] new_subscription) = 8"
proof -
  have "rs_backoffSecs (fold manage_round [Lived 0 1, Unreachable 2, Refused 3] new_subscription) = min 60 (2 ^ Suc (length [Unreachable 2, Refused 3]))"
    by (rule reconnect_delay) simp
  then show ?thesis by (simp only: list.size) simp
qed

subsection \<open>Received events\<close>

datatype subscriber_step = Received bool int event | Swept int

fun step_time :: "subscriber_step \<Rightarrow> int" where
  "step_time (Received ok t ev) = t"
| "step_time (Swept t) = t"

fun subscriber_do :: "Router \<Rightarrow> subscriber_step \<Rightarrow> subscriber \<Rightarrow> subscriber" where
  "subscriber_do r (Received ok t ev) s = processEvent r ok t ev s"
| "subscriber_do r (Swept t) s = subscriber_cleanup t s"

definition hour_apart :: "int \<times> event \<Rightarrow> int \<times> event \<Rightarrow> bool" where
  "hour_apart = (\<lambda>(t, e) (t', e'). ev_id e = ev_id e' \<longrightarrow> t + hour < t')"

definition remembered :: "int \<Rightarrow> subscriber \<Rightarrow> bool" where
  "remembered now s \<longleftrightarrow> distinct (map fst (sb_seenEvents s)) \<and> sorted_wrt hour_apart (sb_stored s) \<and>
     (\<forall>(t, e) \<in> set (sb_stored s). t + hour < now \<or> (\<exists>t'. map_of (sb_seenEvents s) (ev_id e) = Some t' \<and> t \<le> t'))"

lemma map_of_filter_val:
  "distinct (map fst al) \<Longrightarrow> map_of (filter (\<lambda>(_, v). P v) al) k = (case map_of al k of Some v \<Rightarrow> if P v then Some v else None | None \<Rightarrow> None)"
proof (induction al)
  case (Cons x al)
  have "k \<notin> fst ` set al \<Longrightarrow> map_of al k = None" by (simp add: map_of_eq_None_iff)
  with Cons show ?case by (cases x) (auto split: option.split)
qed simp

lemma remembered_row:
  "remembered now s \<Longrightarrow> (t, e) \<in> set (sb_stored s) \<Longrightarrow> t + hour < now \<or> (\<exists>t'. map_of (sb_seenEvents s) (ev_id e) = Some t' \<and> t \<le> t')"
  unfolding remembered_def by blast

lemma rememberedI:
  assumes "distinct (map fst (sb_seenEvents s))" "sorted_wrt hour_apart (sb_stored s)"
    and "\<And>t e. (t, e) \<in> set (sb_stored s) \<Longrightarrow> t + hour < now \<or> (\<exists>t'. map_of (sb_seenEvents s) (ev_id e) = Some t' \<and> t \<le> t')"
  shows "remembered now s"
  unfolding remembered_def using assms by blast

lemma remembered_later: "remembered now s \<Longrightarrow> now \<le> now' \<Longrightarrow> remembered now' s"
  by (rule rememberedI) (simp_all add: remembered_def, use remembered_row in fastforce)

lemma remembered_receive:
  assumes "remembered now s"
  shows "remembered now (processEvent r ok now ev s)"
proof (cases "map_of (sb_seenEvents s) (ev_id ev) = None \<and> importable r ev \<and> ok")
  case True
  then have new: "sb_stored (processEvent r ok now ev s) = sb_stored s @ [(now, ev)]"
    "sb_seenEvents (processEvent r ok now ev s) = AList.update (ev_id ev) now (sb_seenEvents s)"
    by (auto simp: processEvent_def Let_def importable_def)
  show ?thesis
  proof (rule rememberedI)
    show "distinct (map fst (sb_seenEvents (processEvent r ok now ev s)))"
      using assms by (simp add: new remembered_def AList.distinct_update)
    have "hour_apart x (now, ev)" if "x \<in> set (sb_stored s)" for x
      using remembered_row [OF assms, of "fst x" "snd x"] that True by (cases x) (auto simp: hour_apart_def)
    then show "sorted_wrt hour_apart (sb_stored (processEvent r ok now ev s))"
      using assms by (simp add: new remembered_def sorted_wrt_append)
  next
    fix t e
    assume "(t, e) \<in> set (sb_stored (processEvent r ok now ev s))"
    then consider "(t, e) \<in> set (sb_stored s)" | "t = now" "e = ev" by (auto simp: new)
    then show "t + hour < now \<or> (\<exists>t'. map_of (sb_seenEvents (processEvent r ok now ev s)) (ev_id e) = Some t' \<and> t \<le> t')"
    proof cases
      case 1
      with remembered_row [OF assms 1] True show ?thesis
        unfolding new by (cases "ev_id e = ev_id ev") (simp_all add: AList.update_conv')
    qed (unfold new, simp add: AList.update_conv')
  qed
next
  case False
  then have same: "sb_stored (processEvent r ok now ev s) = sb_stored s" "sb_seenEvents (processEvent r ok now ev s) = sb_seenEvents s"
    by (auto simp: processEvent_def Let_def importable_def)
  show ?thesis using assms unfolding remembered_def same .
qed

lemma remembered_sweep:
  assumes "remembered now s"
  shows "remembered now (subscriber_cleanup now s)"
proof (rule rememberedI)
  have d: "distinct (map fst (sb_seenEvents s))" using assms by (simp add: remembered_def)
  then show "distinct (map fst (sb_seenEvents (subscriber_cleanup now s)))" by (simp add: subscriber_cleanup_def distinct_map_filter)
  show "sorted_wrt hour_apart (sb_stored (subscriber_cleanup now s))" using assms by (simp add: remembered_def subscriber_cleanup_def)
  fix t e
  assume "(t, e) \<in> set (sb_stored (subscriber_cleanup now s))"
  then have "(t, e) \<in> set (sb_stored s)" by (simp add: subscriber_cleanup_def)
  from remembered_row [OF assms this] consider "t + hour < now" | t' where "map_of (sb_seenEvents s) (ev_id e) = Some t'" "t \<le> t'" by blast
  then show "t + hour < now \<or> (\<exists>t'. map_of (sb_seenEvents (subscriber_cleanup now s)) (ev_id e) = Some t' \<and> t \<le> t')"
  proof cases
    case 2
    then show ?thesis by (cases "t' < now - hour") (simp_all add: subscriber_cleanup_def map_of_filter_val [OF d])
  qed simp
qed

text \<open>An open subscription stores an event again only when more than an hour has passed since it stored it before.\<close>

theorem subscriber_stores_once_per_hour:
  assumes "sorted (map step_time xs)"
  shows "sorted_wrt hour_apart (sb_stored (fold (subscriber_do r) xs no_subscriber))"
proof -
  have "remembered now s \<Longrightarrow> sorted (now # map step_time xs) \<Longrightarrow> \<exists>now'. remembered now' (fold (subscriber_do r) xs s)" for now s
    using assms
  proof (induction xs arbitrary: now s)
    case (Cons x xs)
    have "remembered (step_time x) s" using Cons.prems(1,2) by (auto intro: remembered_later)
    then have "remembered (step_time x) (subscriber_do r x s)" by (cases x) (simp_all add: remembered_receive remembered_sweep)
    from Cons.IH [OF this] Cons.prems(2) show ?case by simp
  qed auto
  moreover have "remembered (case xs of [] \<Rightarrow> 0 | x # _ \<Rightarrow> step_time x) no_subscriber"
    by (simp add: remembered_def no_subscriber_def)
  moreover have "sorted ((case xs of [] \<Rightarrow> 0 | x # _ \<Rightarrow> step_time x) # map step_time xs)"
    using assms by (cases xs) auto
  ultimately show ?thesis unfolding remembered_def by blast
qed

lemma subscriber_stores_once_per_hour_witness:
  "sorted_wrt hour_apart (sb_stored (fold (subscriber_do (NewRouter None)) [Received True 5 owner_note, Swept 6] no_subscriber))"
  by (rule subscriber_stores_once_per_hour) simp

subsection \<open>The members' importer\<close>

text \<open>A job is scheduled only for a member whose tier has the importer, with at least one of the member's relays and no more
  than the tier allows.\<close>

theorem import_jobs_within_tier:
  assumes "import_job members now lastImport u = Some job"
  shows "\<exists>info. members (fst u) = Some info \<and> HasImporter info \<and> ij_UserPubkey job = fst u \<and> ij_Relays job \<noteq> [] \<and>
    set (ij_Relays job) \<subseteq> set (snd u) \<and> (MaxImporterRelays info > 0 \<longrightarrow> int (length (ij_Relays job)) \<le> MaxImporterRelays info)"
  using assms by (auto simp: import_job_def Let_def split: option.splits if_splits dest!: in_set_takeD)

datatype import_step = Schedule "string \<Rightarrow> MemberInfo option" int "(string \<times> string list) list option"
  | ImportTurn "string \<Rightarrow> import_env" int bool | ByHand string "string list" int

fun import_do :: "importer_manager_config \<Rightarrow> import_step \<Rightarrow> importer_manager \<Rightarrow> importer_manager" where
  "import_do mc (Schedule members now users) m = scheduleAllUsers mc members now users m"
| "import_do mc (ImportTurn envs now saved) m = import_turn envs now saved m"
| "import_do mc (ByHand pk relays since) m = ImportForUser mc pk relays since m"

text \<open>What the manager stored is remembered, and nothing is stored twice or for its own author.\<close>

definition import_ok :: "importer_manager \<Rightarrow> bool" where
  "import_ok m \<longleftrightarrow> distinct (map (ev_id \<circ> snd) (mm_stored m)) \<and> set (map (ev_id \<circ> snd) (mm_stored m)) \<subseteq> set (mm_seenEvents m) \<and>
     list_all (\<lambda>(user, ev). ev_pubkey ev \<noteq> user) (mm_stored m)"

definition import_grows :: "importer_manager \<Rightarrow> importer_manager \<Rightarrow> bool" where
  "import_grows m m' \<longleftrightarrow> (import_ok m \<longrightarrow> import_ok m') \<and> set (mm_seenEvents m) \<subseteq> set (mm_seenEvents m')"

lemma import_grows_refl [simp]: "import_grows m m"
  by (simp add: import_grows_def)

lemma import_grows_trans: "import_grows m m' \<Longrightarrow> import_grows m' m'' \<Longrightarrow> import_grows m m''"
  by (auto simp: import_grows_def)

lemma import_grows_cong: "mm_stored m' = mm_stored m \<Longrightarrow> mm_seenEvents m' = mm_seenEvents m \<Longrightarrow> import_grows m m'"
  by (simp add: import_grows_def import_ok_def)

lemma import_grows_other [simp]:
  "import_grows (m\<lparr>mm_pool := p\<rparr>) m' = import_grows m m'" "import_grows (m\<lparr>mm_queue := q\<rparr>) m' = import_grows m m'"
  "import_grows (m\<lparr>mm_UsersWithImporter := n\<rparr>) m' = import_grows m m'"
  "import_grows m (m'\<lparr>mm_JobsProcessed := n\<rparr>) = import_grows m m'" "import_grows m (m'\<lparr>mm_EventsImported := n\<rparr>) = import_grows m m'"
  "import_grows m (m'\<lparr>mm_EventsSkipped := n\<rparr>) = import_grows m m'" "import_grows m (m'\<lparr>mm_FetchErrors := n\<rparr>) = import_grows m m'"
  "import_grows m (m'\<lparr>mm_lastImport := l\<rparr>) = import_grows m m'"
  by (simp_all add: import_grows_def import_ok_def)

lemma import_for_grows: "import_grows m (snd (snd (snd (import_for env user k evs (i, s, e, m)))))"
proof (induction evs arbitrary: k i s e m)
  case (Cons ev evs)
  let ?m = "m\<lparr>mm_seenEvents := ev_id ev # mm_seenEvents m, mm_stored := mm_stored m @ [(user, ev)]\<rparr>"
  have "ev_id ev \<notin> set (mm_seenEvents m) \<Longrightarrow> ev_pubkey ev \<noteq> user \<Longrightarrow> import_grows m ?m"
    by (auto simp: import_grows_def import_ok_def)
  then show ?case using Cons.IH import_grows_trans by (simp) blast
qed simp

lemma import_relays_grows: "import_grows m (snd (snd (snd (import_relays envs job urls (i, s, e, m)))))"
proof (induction urls arbitrary: i s e m)
  case (Cons url urls)
  obtain i' s' e' m' where f: "importFromRelay (envs url) job url m = (i', s', e', m')" by (cases rule: prod_cases4)
  obtain res p where c: "pool_Connect (ie_net (envs url)) url (mm_pool m) = (res, p)" by (cases rule: prod.exhaust)
  have "import_grows m (snd (snd (snd (importFromRelay (envs url) job url m))))"
    using import_for_grows [of "m\<lparr>mm_pool := p\<rparr>"]
    by (auto simp: importFromRelay_def c split: sum.split option.split intro: import_grows_cong import_grows_trans)
  then show ?case using Cons.IH [of m'] by (auto simp: f intro: import_grows_trans)
qed simp

lemma import_do_grows: "import_grows m (import_do mc x m)"
proof (cases x)
  case (Schedule members now users)
  have "import_grows m (fold (\<lambda>u m. case import_job members now (mm_lastImport m) u of None \<Rightarrow> m | Some job \<Rightarrow> import_queueJob mc job m) us m)"
    for us m
  proof (induction us arbitrary: m)
    case (Cons u us)
    have "import_grows m (case import_job members now (mm_lastImport m) u of None \<Rightarrow> m | Some job \<Rightarrow> import_queueJob mc job m)"
      by (auto simp: import_queueJob_def split: option.split intro: import_grows_cong)
    with Cons.IH show ?case by (auto intro: import_grows_trans)
  qed simp
  from this [of "m\<lparr>mm_UsersWithImporter := n\<rparr>" for n] show ?thesis
    by (auto simp: Schedule scheduleAllUsers_def split: option.split intro: import_grows_trans import_grows_cong)
next
  case (ImportTurn envs now saved)
  have "import_grows m (import_processJob envs now saved job m)" for job m
  proof -
    obtain i s e m' where r: "import_relays envs job (ij_Relays job) (0, 0, 0, m) = (i, s, e, m')" by (cases rule: prod_cases4)
    have "import_grows m m'" using import_relays_grows [of m envs job "ij_Relays job" 0 0 0] by (simp add: r)
    then show ?thesis unfolding import_processJob_def r by (auto intro: import_grows_trans import_grows_cong)
  qed
  from this [of "m\<lparr>mm_queue := jobs\<rparr>" for jobs] show ?thesis by (auto simp: ImportTurn import_turn_def split: list.split)
qed (auto simp: ImportForUser_def import_queueJob_def intro: import_grows_cong)

definition no_imports :: importer_manager where
  "no_imports = \<lparr>mm_queue = [], mm_pool = [], mm_seenEvents = [], mm_lastImport = (\<lambda>_. None), mm_JobsQueued = 0, mm_JobsProcessed = 0,
     mm_EventsImported = 0, mm_EventsSkipped = 0, mm_FetchErrors = 0, mm_UsersWithImporter = 0, mm_stored = []\<rparr>"

lemma import_run_grows: "import_grows m (fold (import_do mc) xs m)"
  by (induction xs arbitrary: m) (auto intro: import_grows_trans import_do_grows)

text \<open>The members' importer stores every event at most once, and none for its own author.\<close>

theorem members_import_once:
  "distinct (map (ev_id \<circ> snd) (mm_stored (fold (import_do mc) xs no_imports))) \<and>
   list_all (\<lambda>(user, ev). ev_pubkey ev \<noteq> user) (mm_stored (fold (import_do mc) xs no_imports))"
  using import_run_grows [of no_imports mc xs] by (simp add: import_grows_def import_ok_def no_imports_def)

text \<open>The set of seen events only grows while the process runs: what would clear it is not called.\<close>

theorem seen_events_only_grow: "set (mm_seenEvents m) \<subseteq> set (mm_seenEvents (fold (import_do mc) xs m))"
  using import_run_grows [of m mc xs] by (simp add: import_grows_def)

end
