(* ===== verification/User_Settings.thy ===== *)
theory User_Settings
  imports Rate_Limit Trust_Gate Haven_Router "HOL-Library.AList"
begin

text \<open>
  The settings members keep: internal/wot/user_settings.go and settings_watcher.go (whom a member blocks and trusts),
  internal/haven/user_settings.go and settings_watcher.go (boxes, broadcasting, importing). Members publish them as
  kind 30078 events, which watchers copy into two tables. A table is an association list by key. Go slices are
  \<open>None\<close> when nil, and so are array columns when NULL, which is what a nil slice is stored as; a column of type
  INT takes 32 bits. JSON is a parameter. A failing statement has no effect.
\<close>

text \<open>The zero \<open>time.Time\<close>, in nanoseconds from the epoch; a save overwrites both times.\<close>

definition go_zero_time :: int where "go_zero_time = -62135596800 * ns_per_sec"

section \<open>Web-of-trust settings\<close>

record wot_user_settings =
  ws_Pubkey :: string
  ws_TrustAnchor :: string
  ws_MaxTrustDepth :: "int option"
  ws_MinPowBits :: "int option"
  ws_BlockedPubkeys :: "string list option"
  ws_TrustedPubkeys :: "string list option"
  ws_CreatedAt :: int
  ws_UpdatedAt :: int

definition slice :: "'a list option \<Rightarrow> 'a list" where
  "slice s = (case s of None \<Rightarrow> [] | Some xs \<Rightarrow> xs)"

definition settings_IsBlocked :: "wot_user_settings \<Rightarrow> string \<Rightarrow> bool" where
  "settings_IsBlocked s pk \<longleftrightarrow> pk \<in> set (slice (ws_BlockedPubkeys s))"

definition settings_IsTrusted :: "wot_user_settings \<Rightarrow> string \<Rightarrow> bool" where
  "settings_IsTrusted s pk \<longleftrightarrow> pk \<in> set (slice (ws_TrustedPubkeys s))"

definition GetEffectiveMaxTrustDepth :: "wot_user_settings \<Rightarrow> int \<Rightarrow> int" where
  "GetEffectiveMaxTrustDepth s relayDefault = (case ws_MaxTrustDepth s of Some d \<Rightarrow> d | None \<Rightarrow> relayDefault)"

definition GetEffectiveMinPowBits :: "wot_user_settings \<Rightarrow> int \<Rightarrow> int" where
  "GetEffectiveMinPowBits s relayDefault = (case ws_MinPowBits s of Some d \<Rightarrow> d | None \<Rightarrow> relayDefault)"

text \<open>A row: a column that is NULL is \<open>None\<close>.\<close>

record wot_row =
  wr_trust_anchor :: "string option"
  wr_max_trust_depth :: "int option"
  wr_min_pow_bits :: "int option"
  wr_blocked :: "string list option"
  wr_trusted :: "string list option"
  wr_created_at :: int
  wr_updated_at :: int

type_synonym wot_table = "(string \<times> wot_row) list"

definition fits_int :: "int option \<Rightarrow> bool" where
  "fits_int x = (case x of None \<Rightarrow> True | Some v \<Rightarrow> in_i32 v)"

text \<open>\<open>None\<close> is an error, \<open>Some None\<close> is nil.\<close>

definition wot_GetSettings :: "bool \<Rightarrow> string \<Rightarrow> wot_table \<Rightarrow> wot_user_settings option option" where
  "wot_GetSettings ok pk t =
     (if \<not> ok then None
      else Some (map_option (\<lambda>r. \<lparr>ws_Pubkey = pk, ws_TrustAnchor = (case wr_trust_anchor r of Some a \<Rightarrow> a | None \<Rightarrow> ''''),
          ws_MaxTrustDepth = wr_max_trust_depth r, ws_MinPowBits = wr_min_pow_bits r, ws_BlockedPubkeys = wr_blocked r,
          ws_TrustedPubkeys = wr_trusted r, ws_CreatedAt = wr_created_at r, ws_UpdatedAt = wr_updated_at r\<rparr>) (map_of t pk)))"

text \<open>Whether the statement worked, and the table.\<close>

definition wot_SaveSettings :: "bool \<Rightarrow> int \<Rightarrow> wot_user_settings \<Rightarrow> wot_table \<Rightarrow> bool \<times> wot_table" where
  "wot_SaveSettings ok now s t =
     (if \<not> ok \<or> \<not> fits_int (ws_MaxTrustDepth s) \<or> \<not> fits_int (ws_MinPowBits s) then (False, t)
      else (True, AList.update (ws_Pubkey s)
        \<lparr>wr_trust_anchor = Some (ws_TrustAnchor s), wr_max_trust_depth = ws_MaxTrustDepth s, wr_min_pow_bits = ws_MinPowBits s,
         wr_blocked = ws_BlockedPubkeys s, wr_trusted = ws_TrustedPubkeys s,
         wr_created_at = (case map_of t (ws_Pubkey s) of Some r \<Rightarrow> wr_created_at r | None \<Rightarrow> now), wr_updated_at = now\<rparr> t))"

definition wot_DeleteSettings :: "bool \<Rightarrow> string \<Rightarrow> wot_table \<Rightarrow> bool \<times> wot_table" where
  "wot_DeleteSettings ok pk t = (if \<not> ok then (False, t) else (True, AList.delete pk t))"

text \<open>\<open>array_remove\<close> of NULL is NULL; \<open>array_append\<close> to NULL makes an array of one.\<close>

definition array_remove :: "string \<Rightarrow> string list option \<Rightarrow> string list option" where
  "array_remove x a = map_option (removeAll x) a"

definition array_append :: "string list option \<Rightarrow> string \<Rightarrow> string list option" where
  "array_append a x = Some (slice a @ [x])"

definition empty_wot_row :: "int \<Rightarrow> wot_row" where
  "empty_wot_row now = \<lparr>wr_trust_anchor = None, wr_max_trust_depth = None, wr_min_pow_bits = None, wr_blocked = Some [],
     wr_trusted = Some [], wr_created_at = now, wr_updated_at = now\<rparr>"

definition AddBlocked :: "bool \<Rightarrow> int \<Rightarrow> string \<Rightarrow> string \<Rightarrow> wot_table \<Rightarrow> wot_table" where
  "AddBlocked ok now user pk t =
     (if \<not> ok then t
      else AList.update user
        (case map_of t user of
           None \<Rightarrow> (empty_wot_row now)\<lparr>wr_blocked := Some [pk]\<rparr>
         | Some r \<Rightarrow> r\<lparr>wr_blocked := array_append (array_remove pk (wr_blocked r)) pk, wr_updated_at := now\<rparr>) t)"

definition RemoveBlocked :: "bool \<Rightarrow> int \<Rightarrow> string \<Rightarrow> string \<Rightarrow> wot_table \<Rightarrow> wot_table" where
  "RemoveBlocked ok now user pk t =
     (if \<not> ok then t else AList.map_entry user (\<lambda>r. r\<lparr>wr_blocked := array_remove pk (wr_blocked r), wr_updated_at := now\<rparr>) t)"

definition AddTrusted :: "bool \<Rightarrow> int \<Rightarrow> string \<Rightarrow> string \<Rightarrow> wot_table \<Rightarrow> wot_table" where
  "AddTrusted ok now user pk t =
     (if \<not> ok then t
      else AList.update user
        (case map_of t user of
           None \<Rightarrow> (empty_wot_row now)\<lparr>wr_trusted := Some [pk]\<rparr>
         | Some r \<Rightarrow> r\<lparr>wr_trusted := array_append (array_remove pk (wr_trusted r)) pk, wr_updated_at := now\<rparr>) t)"

definition RemoveTrusted :: "bool \<Rightarrow> int \<Rightarrow> string \<Rightarrow> string \<Rightarrow> wot_table \<Rightarrow> wot_table" where
  "RemoveTrusted ok now user pk t =
     (if \<not> ok then t else AList.map_entry user (\<lambda>r. r\<lparr>wr_trusted := array_remove pk (wr_trusted r), wr_updated_at := now\<rparr>) t)"

text \<open>\<open>$2 = ANY(column)\<close> is NULL for a NULL array, and a NULL does not scan into a bool: \<open>None\<close>, an error.\<close>

definition any_of :: "string \<Rightarrow> string list option \<Rightarrow> bool option" where
  "any_of x a = map_option (\<lambda>xs. x \<in> set xs) a"

definition wot_IsBlockedBy :: "bool \<Rightarrow> string \<Rightarrow> string \<Rightarrow> wot_table \<Rightarrow> bool option" where
  "wot_IsBlockedBy ok user sender t =
     (if \<not> ok then None else case map_of t user of None \<Rightarrow> Some False | Some r \<Rightarrow> any_of sender (wr_blocked r))"

definition wot_IsTrustedBy :: "bool \<Rightarrow> string \<Rightarrow> string \<Rightarrow> wot_table \<Rightarrow> bool option" where
  "wot_IsTrustedBy ok user sender t =
     (if \<not> ok then None else case map_of t user of None \<Rightarrow> Some False | Some r \<Rightarrow> any_of sender (wr_trusted r))"

definition CountUsersWithBlocklist :: "wot_table \<Rightarrow> int" where
  "CountUsersWithBlocklist t = int (length (filter (\<lambda>(_, r). slice (wr_blocked r) \<noteq> []) t))"

definition CountUsersWithTrustedlist :: "wot_table \<Rightarrow> int" where
  "CountUsersWithTrustedlist t = int (length (filter (\<lambda>(_, r). slice (wr_trusted r) \<noteq> []) t))"

definition ListUsersWithSettings :: "wot_table \<Rightarrow> string list" where
  "ListUsersWithSettings t = map fst t"

text \<open>The filter's own statistics: nothing without a store, otherwise each of three reads may fail.\<close>

record user_filter_stats =
  uf_UsersWithSettings :: int
  uf_UsersWithBlocklist :: int
  uf_UsersWithTrustedList :: int

definition user_filter_GetStats :: "bool \<Rightarrow> bool \<Rightarrow> bool \<Rightarrow> wot_table option \<Rightarrow> user_filter_stats option" where
  "user_filter_GetStats ok1 ok2 ok3 mt =
     (case mt of None \<Rightarrow> Some \<lparr>uf_UsersWithSettings = 0, uf_UsersWithBlocklist = 0, uf_UsersWithTrustedList = 0\<rparr>
      | Some t \<Rightarrow>
          if \<not> ok1 then None else if \<not> ok2 then None else if \<not> ok3 then None
          else Some \<lparr>uf_UsersWithSettings = int (length (ListUsersWithSettings t)), uf_UsersWithBlocklist = CountUsersWithBlocklist t,
            uf_UsersWithTrustedList = CountUsersWithTrustedlist t\<rparr>)"

text \<open>What the user filter asks the store, with both reads working.\<close>

definition wot_settings_api :: "wot_table \<Rightarrow> user_settings_api" where
  "wot_settings_api t = \<lparr>IsBlockedBy = (\<lambda>user sender. wot_IsBlockedBy True user sender t),
     IsTrustedBy = (\<lambda>user sender. wot_IsTrustedBy True user sender t)\<rparr>"

subsection \<open>The watcher\<close>

definition KindAppSpecificData :: int where "KindAppSpecificData = 30078"

record wot_content =
  wc_BlockedPubkeys :: "string list option"
  wc_TrustedPubkeys :: "string list option"
  wc_MaxTrustDepth :: "int option"
  wc_MinPowBits :: "int option"
  wc_TrustAnchor :: string

definition IsWoTSettingsEvent :: "event \<Rightarrow> bool" where
  "IsWoTSettingsEvent ev \<longleftrightarrow> ev_kind ev = KindAppSpecificData \<and> first_tag (ev_tags ev) ''d'' = ''cloistr-wot-settings''"

definition wot_parseSettingsEvent :: "(string \<Rightarrow> wot_content option) \<Rightarrow> event \<Rightarrow> wot_user_settings option" where
  "wot_parseSettingsEvent decode ev =
     map_option (\<lambda>c. \<lparr>ws_Pubkey = ev_pubkey ev,
         ws_TrustAnchor = (if wc_TrustAnchor c = '''' then ev_pubkey ev else wc_TrustAnchor c),
         ws_MaxTrustDepth = wc_MaxTrustDepth c, ws_MinPowBits = wc_MinPowBits c, ws_BlockedPubkeys = wc_BlockedPubkeys c,
         ws_TrustedPubkeys = wc_TrustedPubkeys c, ws_CreatedAt = go_zero_time, ws_UpdatedAt = go_zero_time\<rparr>)
       (decode (ev_content ev))"

definition wot_settings_OnEventSaved :: "(string \<Rightarrow> wot_content option) \<Rightarrow> bool \<Rightarrow> int \<Rightarrow> event \<Rightarrow> wot_table \<Rightarrow> wot_table" where
  "wot_settings_OnEventSaved decode ok now ev t =
     (if \<not> IsWoTSettingsEvent ev then t
      else case wot_parseSettingsEvent decode ev of None \<Rightarrow> t | Some s \<Rightarrow> snd (wot_SaveSettings ok now s t))"

definition wot_settings_content :: "wot_user_settings \<Rightarrow> wot_content" where
  "wot_settings_content s = \<lparr>wc_BlockedPubkeys = ws_BlockedPubkeys s, wc_TrustedPubkeys = ws_TrustedPubkeys s,
     wc_MaxTrustDepth = ws_MaxTrustDepth s, wc_MinPowBits = ws_MinPowBits s, wc_TrustAnchor = ws_TrustAnchor s\<rparr>"

definition CreateSettingsEvent :: "(wot_content \<Rightarrow> string) \<Rightarrow> int \<Rightarrow> wot_user_settings \<Rightarrow> event" where
  "CreateSettingsEvent encode now s =
     \<lparr>ev_id = '''', ev_pubkey = ws_Pubkey s, ev_created_at = now, ev_kind = KindAppSpecificData,
      ev_tags = [[''d'', ''cloistr-wot-settings'']], ev_content = encode (wot_settings_content s)\<rparr>"

section \<open>HAVEN settings\<close>

record haven_user_settings =
  us_Pubkey :: string
  us_BlastrEnabled :: bool
  us_BlastrRelays :: "string list option"
  us_ImporterEnabled :: bool
  us_ImporterRelays :: "string list option"
  us_ImporterRealtime :: bool
  us_LastImportTime :: "int option"
  us_PublicOutboxRead :: bool
  us_PublicInboxWrite :: bool
  us_RequireAuthChat :: bool
  us_RequireAuthPrivate :: bool
  us_CreatedAt :: int
  us_UpdatedAt :: int

text \<open>A row holds the same columns; its key is the pubkey.\<close>

type_synonym haven_table = "(string \<times> haven_user_settings) list"

definition haven_default_row :: "int \<Rightarrow> string \<Rightarrow> haven_user_settings" where
  "haven_default_row now pk = \<lparr>us_Pubkey = pk, us_BlastrEnabled = False, us_BlastrRelays = Some [], us_ImporterEnabled = False,
     us_ImporterRelays = Some [], us_ImporterRealtime = False, us_LastImportTime = None, us_PublicOutboxRead = True,
     us_PublicInboxWrite = True, us_RequireAuthChat = True, us_RequireAuthPrivate = True, us_CreatedAt = now, us_UpdatedAt = now\<rparr>"

definition haven_GetSettings :: "bool \<Rightarrow> string \<Rightarrow> haven_table \<Rightarrow> haven_user_settings option option" where
  "haven_GetSettings ok pk t = (if \<not> ok then None else Some (map_of t pk))"

definition haven_SaveSettings :: "bool \<Rightarrow> int \<Rightarrow> haven_user_settings \<Rightarrow> haven_table \<Rightarrow> bool \<times> haven_table" where
  "haven_SaveSettings ok now s t =
     (if \<not> ok then (False, t)
      else (True, AList.update (us_Pubkey s)
        (s\<lparr>us_CreatedAt := (case map_of t (us_Pubkey s) of Some r \<Rightarrow> us_CreatedAt r | None \<Rightarrow> now), us_UpdatedAt := now\<rparr>) t))"

definition haven_DeleteSettings :: "bool \<Rightarrow> string \<Rightarrow> haven_table \<Rightarrow> bool \<times> haven_table" where
  "haven_DeleteSettings ok pk t = (if \<not> ok then (False, t) else (True, AList.delete pk t))"

text \<open>The four setters: insert a default row with one column given, or update that column.\<close>

definition upsert :: "(haven_user_settings \<Rightarrow> haven_user_settings) \<Rightarrow> int \<Rightarrow> string \<Rightarrow> haven_table \<Rightarrow> haven_table" where
  "upsert f now pk t =
     AList.update pk ((f (case map_of t pk of Some r \<Rightarrow> r | None \<Rightarrow> haven_default_row now pk))\<lparr>us_UpdatedAt := now\<rparr>) t"

definition SetBlastrEnabled :: "bool \<Rightarrow> int \<Rightarrow> string \<Rightarrow> bool \<Rightarrow> haven_table \<Rightarrow> bool \<times> haven_table" where
  "SetBlastrEnabled ok now pk e t = (if \<not> ok then (False, t) else (True, upsert (us_BlastrEnabled_update (\<lambda>_. e)) now pk t))"

definition SetBlastrRelays :: "bool \<Rightarrow> int \<Rightarrow> string \<Rightarrow> string list option \<Rightarrow> haven_table \<Rightarrow> bool \<times> haven_table" where
  "SetBlastrRelays ok now pk rs t = (if \<not> ok then (False, t) else (True, upsert (us_BlastrRelays_update (\<lambda>_. rs)) now pk t))"

definition SetImporterEnabled :: "bool \<Rightarrow> int \<Rightarrow> string \<Rightarrow> bool \<Rightarrow> haven_table \<Rightarrow> bool \<times> haven_table" where
  "SetImporterEnabled ok now pk e t = (if \<not> ok then (False, t) else (True, upsert (us_ImporterEnabled_update (\<lambda>_. e)) now pk t))"

definition SetImporterRelays :: "bool \<Rightarrow> int \<Rightarrow> string \<Rightarrow> string list option \<Rightarrow> haven_table \<Rightarrow> bool \<times> haven_table" where
  "SetImporterRelays ok now pk rs t = (if \<not> ok then (False, t) else (True, upsert (us_ImporterRelays_update (\<lambda>_. rs)) now pk t))"

definition UpdateLastImportTime :: "bool \<Rightarrow> int \<Rightarrow> string \<Rightarrow> int \<Rightarrow> haven_table \<Rightarrow> bool \<times> haven_table" where
  "UpdateLastImportTime ok now pk at_time t =
     (if \<not> ok then (False, t)
      else (True, AList.map_entry pk (\<lambda>r. r\<lparr>us_LastImportTime := Some at_time, us_UpdatedAt := now\<rparr>) t))"

definition ListUsersWithBlastr :: "haven_table \<Rightarrow> string list" where
  "ListUsersWithBlastr t = map fst (filter (\<lambda>(_, r). us_BlastrEnabled r) t)"

definition ListUsersWithImporter :: "haven_table \<Rightarrow> string list" where
  "ListUsersWithImporter t = map fst (filter (\<lambda>(_, r). us_ImporterEnabled r) t)"

definition GetUsersForImport :: "haven_table \<Rightarrow> haven_user_settings list" where
  "GetUsersForImport t = map snd (filter (\<lambda>(_, r). us_ImporterEnabled r) t)"

definition CountUsersWithBlastr :: "haven_table \<Rightarrow> int" where
  "CountUsersWithBlastr t = int (length (filter (\<lambda>(_, r). us_BlastrEnabled r) t))"

definition CountUsersWithImporter :: "haven_table \<Rightarrow> int" where
  "CountUsersWithImporter t = int (length (filter (\<lambda>(_, r). us_ImporterEnabled r) t))"

subsection \<open>The watcher\<close>

text \<open>The part \<open>wot\<close> of the content is decoded as well; nothing reads it.\<close>

record haven_content =
  hv_BlastrEnabled :: bool
  hv_BlastrRelays :: "string list option"
  hv_ImporterEnabled :: bool
  hv_ImporterRelays :: "string list option"
  hv_ImporterRealtime :: bool
  hv_PublicOutboxRead :: "bool option"
  hv_PublicInboxWrite :: "bool option"
  hv_RequireAuthChat :: "bool option"
  hv_RequireAuthPrivate :: "bool option"
  hv_WoT :: "wot_content option"

definition or_true :: "bool option \<Rightarrow> bool" where
  "or_true b = (case b of Some v \<Rightarrow> v | None \<Rightarrow> True)"

definition if_not :: "bool \<Rightarrow> bool option" where
  "if_not b = (if b then None else Some False)"

definition IsHavenSettingsEvent :: "event \<Rightarrow> bool" where
  "IsHavenSettingsEvent ev \<longleftrightarrow> ev_kind ev = 30078 \<and> first_tag (ev_tags ev) ''d'' = ''cloistr-haven-settings''"

definition haven_parseSettingsEvent :: "(string \<Rightarrow> haven_content option) \<Rightarrow> event \<Rightarrow> haven_user_settings option" where
  "haven_parseSettingsEvent decode ev =
     map_option (\<lambda>c. \<lparr>us_Pubkey = ev_pubkey ev, us_BlastrEnabled = hv_BlastrEnabled c, us_BlastrRelays = hv_BlastrRelays c,
         us_ImporterEnabled = hv_ImporterEnabled c, us_ImporterRelays = hv_ImporterRelays c,
         us_ImporterRealtime = hv_ImporterRealtime c, us_LastImportTime = None,
         us_PublicOutboxRead = or_true (hv_PublicOutboxRead c), us_PublicInboxWrite = or_true (hv_PublicInboxWrite c),
         us_RequireAuthChat = or_true (hv_RequireAuthChat c), us_RequireAuthPrivate = or_true (hv_RequireAuthPrivate c),
         us_CreatedAt = go_zero_time, us_UpdatedAt = go_zero_time\<rparr>) (decode (ev_content ev))"

definition haven_OnEventSaved :: "(string \<Rightarrow> haven_content option) \<Rightarrow> bool \<Rightarrow> int \<Rightarrow> event \<Rightarrow> haven_table \<Rightarrow> haven_table" where
  "haven_OnEventSaved decode ok now ev t =
     (if ev_kind ev \<noteq> 30078 then t
      else if first_tag (ev_tags ev) ''d'' \<noteq> ''cloistr-haven-settings'' then t
      else case haven_parseSettingsEvent decode ev of None \<Rightarrow> t | Some s \<Rightarrow> snd (haven_SaveSettings ok now s t))"

definition haven_settings_content :: "haven_user_settings \<Rightarrow> haven_content" where
  "haven_settings_content s = \<lparr>hv_BlastrEnabled = us_BlastrEnabled s, hv_BlastrRelays = us_BlastrRelays s,
     hv_ImporterEnabled = us_ImporterEnabled s, hv_ImporterRelays = us_ImporterRelays s,
     hv_ImporterRealtime = us_ImporterRealtime s, hv_PublicOutboxRead = if_not (us_PublicOutboxRead s),
     hv_PublicInboxWrite = if_not (us_PublicInboxWrite s), hv_RequireAuthChat = if_not (us_RequireAuthChat s),
     hv_RequireAuthPrivate = if_not (us_RequireAuthPrivate s), hv_WoT = None\<rparr>"

definition CreateHavenSettingsEvent :: "(haven_content \<Rightarrow> string) \<Rightarrow> int \<Rightarrow> haven_user_settings \<Rightarrow> event" where
  "CreateHavenSettingsEvent encode now s =
     \<lparr>ev_id = '''', ev_pubkey = us_Pubkey s, ev_created_at = now, ev_kind = 30078,
      ev_tags = [[''d'', ''cloistr-haven-settings'']], ev_content = encode (haven_settings_content s)\<rparr>"

text \<open>The bundle a user exports; the tier is never filled in, and the time of the export is left out.\<close>

record settings_export =
  se_Pubkey :: string
  se_Haven :: "haven_content option"
  se_Tier :: string
  se_TierExpires :: string

definition ExportUserSettings :: "bool \<Rightarrow> string \<Rightarrow> haven_table \<Rightarrow> settings_export option" where
  "ExportUserSettings ok pk t =
     (case haven_GetSettings ok pk t of
        None \<Rightarrow> None
      | Some ms \<Rightarrow> Some \<lparr>se_Pubkey = pk,
          se_Haven = map_option (\<lambda>s. \<lparr>hv_BlastrEnabled = us_BlastrEnabled s, hv_BlastrRelays = us_BlastrRelays s,
            hv_ImporterEnabled = us_ImporterEnabled s, hv_ImporterRelays = us_ImporterRelays s,
            hv_ImporterRealtime = us_ImporterRealtime s, hv_PublicOutboxRead = if_not (us_PublicOutboxRead s),
            hv_PublicInboxWrite = if_not (us_PublicInboxWrite s), hv_RequireAuthChat = None, hv_RequireAuthPrivate = None,
            hv_WoT = None\<rparr>) ms,
          se_Tier = '''', se_TierExpires = ''''\<rparr>)"

text \<open>What the router reads.\<close>

definition router_settings :: "haven_table \<Rightarrow> string \<Rightarrow> UserSettings option" where
  "router_settings t pk =
     map_option (\<lambda>s. \<lparr>PublicOutboxRead = us_PublicOutboxRead s, PublicInboxWrite = us_PublicInboxWrite s\<rparr>) (map_of t pk)"

section \<open>The lists are sets\<close>

text \<open>
  A member's list, as its users know it: \<open>add\<close> and \<open>remove\<close> one key, and ask whether a key is \<open>listed\<close>. The laws
  say that each call changes the answer about that key alone; they make the table a set of pairs (member, key), whatever
  is done to it in whatever order.
\<close>

locale key_list =
  fixes add :: "string \<Rightarrow> string \<Rightarrow> 't \<Rightarrow> 't"
    and remove :: "string \<Rightarrow> string \<Rightarrow> 't \<Rightarrow> 't"
    and listed :: "string \<Rightarrow> string \<Rightarrow> 't \<Rightarrow> bool"
  assumes listed_add: "listed u k (add u' k' t) \<longleftrightarrow> (u = u' \<and> k = k') \<or> listed u k t"
    and listed_remove: "listed u k (remove u' k' t) \<longleftrightarrow> \<not> (u = u' \<and> k = k') \<and> listed u k t"
begin

definition pairs :: "'t \<Rightarrow> (string \<times> string) set" where
  "pairs t = {(u, k). listed u k t}"

lemma pairs_add: "pairs (add u k t) = insert (u, k) (pairs t)"
  by (auto simp: pairs_def listed_add)

lemma pairs_remove: "pairs (remove u k t) = pairs t - {(u, k)}"
  by (auto simp: pairs_def listed_remove)

end

definition is_blocked :: "string \<Rightarrow> string \<Rightarrow> wot_table \<Rightarrow> bool" where
  "is_blocked user sender t \<longleftrightarrow> wot_IsBlockedBy True user sender t = Some True"

definition is_trusted :: "string \<Rightarrow> string \<Rightarrow> wot_table \<Rightarrow> bool" where
  "is_trusted user sender t \<longleftrightarrow> wot_IsTrustedBy True user sender t = Some True"

lemma any_of_add: "any_of x (array_append (array_remove y a) y) = Some True \<longleftrightarrow> x = y \<or> any_of x a = Some True"
  by (cases a) (auto simp: any_of_def array_append_def array_remove_def slice_def)

lemma any_of_remove: "any_of x (array_remove y a) = Some True \<longleftrightarrow> x \<noteq> y \<and> any_of x a = Some True"
  by (cases a) (auto simp: any_of_def array_remove_def)

lemma any_of_single [simp]: "any_of x (Some [y]) = Some (x = y)" "any_of x (Some []) = Some False"
  by (simp_all add: any_of_def)

lemmas list_defs = is_blocked_def is_trusted_def wot_IsBlockedBy_def wot_IsTrustedBy_def AddBlocked_def RemoveBlocked_def
  AddTrusted_def RemoveTrusted_def empty_wot_row_def update_conv map_of_map_entry

interpretation blocklist: key_list "AddBlocked True now" "RemoveBlocked True now" is_blocked for now
  by unfold_locales (auto simp: list_defs any_of_add any_of_remove split: option.splits if_splits)

interpretation trustlist: key_list "AddTrusted True now" "RemoveTrusted True now" is_trusted for now
  by unfold_locales (auto simp: list_defs any_of_add any_of_remove split: option.splits if_splits)

lemma other_list [simp]:
  "is_trusted u k (AddBlocked b now u' k' t) = is_trusted u k t"
  "is_trusted u k (RemoveBlocked b now u' k' t) = is_trusted u k t"
  "is_blocked u k (AddTrusted b now u' k' t) = is_blocked u k t"
  "is_blocked u k (RemoveTrusted b now u' k' t) = is_blocked u k t"
  by (auto simp: list_defs split: option.splits if_splits)

lemma failed_list [simp]:
  "AddBlocked False now u k t = t" "RemoveBlocked False now u k t = t" "AddTrusted False now u k t = t" "RemoveTrusted False now u k t = t"
  by (simp_all add: AddBlocked_def RemoveBlocked_def AddTrusted_def RemoveTrusted_def)

text \<open>A call: whether its statement works, when, whose list, which key.\<close>

datatype key_call =
    Block bool int string string
  | Unblock bool int string string
  | Trust bool int string string
  | Untrust bool int string string

fun do_call :: "key_call \<Rightarrow> wot_table \<Rightarrow> wot_table" where
  "do_call (Block ok now u k) = AddBlocked ok now u k"
| "do_call (Unblock ok now u k) = RemoveBlocked ok now u k"
| "do_call (Trust ok now u k) = AddTrusted ok now u k"
| "do_call (Untrust ok now u k) = RemoveTrusted ok now u k"

text \<open>The specification: two sets, and what each call does to them.\<close>

type_synonym key_sets = "(string \<times> string) set \<times> (string \<times> string) set"

fun spec_call :: "key_call \<Rightarrow> key_sets \<Rightarrow> key_sets" where
  "spec_call (Block ok now u k) (B, T) = (if ok then insert (u, k) B else B, T)"
| "spec_call (Unblock ok now u k) (B, T) = (if ok then B - {(u, k)} else B, T)"
| "spec_call (Trust ok now u k) (B, T) = (B, if ok then insert (u, k) T else T)"
| "spec_call (Untrust ok now u k) (B, T) = (B, if ok then T - {(u, k)} else T)"

definition listed_sets :: "wot_table \<Rightarrow> key_sets" where
  "listed_sets t = ({(u, k). is_blocked u k t}, {(u, k). is_trusted u k t})"

lemma do_call_spec: "listed_sets (do_call c t) = spec_call c (listed_sets t)"
proof (cases c)
  case (Block ok now u k)
  then show ?thesis using blocklist.pairs_add [of now u k t] by (cases ok) (simp_all add: listed_sets_def blocklist.pairs_def)
next
  case (Unblock ok now u k)
  then show ?thesis using blocklist.pairs_remove [of now u k t] by (cases ok) (simp_all add: listed_sets_def blocklist.pairs_def)
next
  case (Trust ok now u k)
  then show ?thesis using trustlist.pairs_add [of now u k t] by (cases ok) (simp_all add: listed_sets_def trustlist.pairs_def)
next
  case (Untrust ok now u k)
  then show ?thesis using trustlist.pairs_remove [of now u k t] by (cases ok) (simp_all add: listed_sets_def trustlist.pairs_def)
qed

text \<open>C28: The calls on members' lists refine sets: after any sequence of them, some of which fail, the pairs (member, key)
  that \<open>IsBlockedBy\<close> and \<open>IsTrustedBy\<close> affirm are the two sets the specification computes from those affirmed before:
  adding twice is adding once, a removal undoes every addition, blocking and trusting do not touch each other, no
  member's calls change another's lists, and a failing statement changes nothing.
\<close>

theorem user_lists_refine_sets: "listed_sets (fold do_call cs t) = fold spec_call cs (listed_sets t)"
  by (induction cs arbitrary: t) (simp_all add: do_call_spec)

section \<open>Settings events and the inbox\<close>

lemma wot_settings_saved:
  assumes "IsWoTSettingsEvent se" "decode (ev_content se) = Some c" "fits_int (wc_MaxTrustDepth c)" "fits_int (wc_MinPowBits c)"
  shows "wot_IsBlockedBy True u k (wot_settings_OnEventSaved decode True now se t) =
      (if u = ev_pubkey se then any_of k (wc_BlockedPubkeys c) else wot_IsBlockedBy True u k t)"
    "wot_IsTrustedBy True u k (wot_settings_OnEventSaved decode True now se t) =
      (if u = ev_pubkey se then any_of k (wc_TrustedPubkeys c) else wot_IsTrustedBy True u k t)"
  using assms by (auto simp: wot_settings_OnEventSaved_def wot_parseSettingsEvent_def wot_SaveSettings_def wot_IsBlockedBy_def
      wot_IsTrustedBy_def update_conv split: option.splits)

lemma any_of_True: "any_of k a = Some True \<longleftrightarrow> k \<in> set (slice a)"
  by (cases a) (simp_all add: any_of_def slice_def)

lemma inbox_allows: "fr_allowed (ShouldAllowToInbox (Some (wot_settings_api t)) (Some ev) u) \<longleftrightarrow> wot_IsBlockedBy True u (ev_pubkey ev) t \<noteq> Some True"
  by (simp add: ShouldAllowToInbox_def wot_settings_api_def)

text \<open>Publishing settings takes effect: when the relay stores a member's settings event whose content parses and whose
  two numbers fit their columns, and the statement works, then from then on an event for that member's inbox is let
  through by the personal filter exactly when its author is not on the event's blocklist, whatever the member's lists
  were before; and for every other member the filter answers as before.
\<close>

theorem settings_event_rules_the_inbox:
  assumes "IsWoTSettingsEvent se" "decode (ev_content se) = Some c" "fits_int (wc_MaxTrustDepth c)" "fits_int (wc_MinPowBits c)"
  shows "(fr_allowed (ShouldAllowToInbox (Some (wot_settings_api (wot_settings_OnEventSaved decode True now se t))) (Some ev) (ev_pubkey se))
      \<longleftrightarrow> ev_pubkey ev \<notin> set (slice (wc_BlockedPubkeys c))) \<and>
    (u \<noteq> ev_pubkey se \<longrightarrow>
      ShouldAllowToInbox (Some (wot_settings_api (wot_settings_OnEventSaved decode True now se t))) (Some ev) u =
      ShouldAllowToInbox (Some (wot_settings_api t)) (Some ev) u)"
proof (intro conjI impI)
  show "fr_allowed (ShouldAllowToInbox (Some (wot_settings_api (wot_settings_OnEventSaved decode True now se t))) (Some ev) (ev_pubkey se))
      \<longleftrightarrow> ev_pubkey ev \<notin> set (slice (wc_BlockedPubkeys c))"
    using wot_settings_saved(1) [of se decode c, OF assms(1-4), of "ev_pubkey se" _ now t] by (simp add: inbox_allows any_of_True)
next
  assume "u \<noteq> ev_pubkey se"
  then show "ShouldAllowToInbox (Some (wot_settings_api (wot_settings_OnEventSaved decode True now se t))) (Some ev) u =
      ShouldAllowToInbox (Some (wot_settings_api t)) (Some ev) u"
    using wot_settings_saved [of se decode c, OF assms(1-4), of u _ now t] by (simp add: ShouldAllowToInbox_def wot_settings_api_def)
qed

lemma settings_event_rules_the_inbox_witness:
  "\<not> fr_allowed (ShouldAllowToInbox (Some (wot_settings_api (wot_settings_OnEventSaved
      (\<lambda>_. Some \<lparr>wc_BlockedPubkeys = Some [''spam''], wc_TrustedPubkeys = None, wc_MaxTrustDepth = Some 2, wc_MinPowBits = None, wc_TrustAnchor = ''''\<rparr>)
      True 5 \<lparr>ev_id = ''1'', ev_pubkey = ''m'', ev_created_at = 1, ev_kind = 30078, ev_tags = [[''d'', ''cloistr-wot-settings'']], ev_content = ''c''\<rparr> [])))
      (Some \<lparr>ev_id = ''2'', ev_pubkey = ''spam'', ev_created_at = 1, ev_kind = 1, ev_tags = [], ev_content = ''buy''\<rparr>) ''m'')"
  using settings_event_rules_the_inbox [where decode = "\<lambda>_. Some \<lparr>wc_BlockedPubkeys = Some [''spam''], wc_TrustedPubkeys = None, wc_MaxTrustDepth = Some 2, wc_MinPowBits = None, wc_TrustAnchor = ''''\<rparr>"
      and se = "\<lparr>ev_id = ''1'', ev_pubkey = ''m'', ev_created_at = 1, ev_kind = 30078, ev_tags = [[''d'', ''cloistr-wot-settings'']], ev_content = ''c''\<rparr>"
      and ev = "\<lparr>ev_id = ''2'', ev_pubkey = ''spam'', ev_created_at = 1, ev_kind = 1, ev_tags = [], ev_content = ''buy''\<rparr>" and now = 5 and t = "[]" and u = "''n''"]
  by (simp add: IsWoTSettingsEvent_def KindAppSpecificData_def first_tag_def fits_int_def in_i32_def slice_def)

text \<open>
  A settings event that names no blocked key stores NULL, so that from then on the relay cannot read the member's
  blocklist: the query answers NULL, which is an error, logged for every event to that member, until a key is added.
\<close>

theorem empty_blocklist_is_unreadable:
  assumes "IsWoTSettingsEvent se" "decode (ev_content se) = Some c" "fits_int (wc_MaxTrustDepth c)" "fits_int (wc_MinPowBits c)"
    and "wc_BlockedPubkeys c = None"
  shows "wot_IsBlockedBy True (ev_pubkey se) k (wot_settings_OnEventSaved decode True now se t) = None"
  using wot_settings_saved(1) [of se decode c, OF assms(1-4), of _ _ now t] assms(5) by (simp add: any_of_def)

section \<open>HAVEN settings events\<close>

text \<open>
  encoding/json with \<open>omitempty\<close> writes no empty list, which then reads as nil; everything else reads back.
\<close>

definition omit_empty :: "'a list option \<Rightarrow> 'a list option" where
  "omit_empty a = (if slice a = [] then None else a)"

lemma slice_omit_empty [simp]: "slice (omit_empty a) = slice a"
  by (cases a) (simp_all add: omit_empty_def slice_def)

definition json_reads_back :: "(haven_content \<Rightarrow> string) \<Rightarrow> (string \<Rightarrow> haven_content option) \<Rightarrow> haven_content \<Rightarrow> bool" where
  "json_reads_back encode decode c \<longleftrightarrow> decode (encode c) =
     Some (c\<lparr>hv_BlastrRelays := omit_empty (hv_BlastrRelays c), hv_ImporterRelays := omit_empty (hv_ImporterRelays c)\<rparr>)"

lemma or_true_if_not [simp]: "or_true (if_not b) = b"
  by (simp add: or_true_def if_not_def)

lemma saved_haven_row:
  "IsHavenSettingsEvent se \<Longrightarrow> decode (ev_content se) = Some c \<Longrightarrow>
   \<exists>r. map_of (haven_OnEventSaved decode True now se t) (ev_pubkey se) = Some r \<and> us_LastImportTime r = None \<and>
     us_BlastrEnabled r = hv_BlastrEnabled c \<and> us_BlastrRelays r = hv_BlastrRelays c \<and>
     us_ImporterEnabled r = hv_ImporterEnabled c \<and> us_ImporterRelays r = hv_ImporterRelays c \<and>
     us_ImporterRealtime r = hv_ImporterRealtime c \<and>
     us_PublicOutboxRead r = or_true (hv_PublicOutboxRead c) \<and> us_PublicInboxWrite r = or_true (hv_PublicInboxWrite c) \<and>
     us_RequireAuthChat r = or_true (hv_RequireAuthChat c) \<and> us_RequireAuthPrivate r = or_true (hv_RequireAuthPrivate c)"
  by (simp add: haven_OnEventSaved_def IsHavenSettingsEvent_def haven_parseSettingsEvent_def haven_SaveSettings_def update_conv)

lemma unsaved_haven_row: "u \<noteq> ev_pubkey se \<Longrightarrow> map_of (haven_OnEventSaved decode ok now se t) u = map_of t u"
  by (auto simp: haven_OnEventSaved_def haven_parseSettingsEvent_def haven_SaveSettings_def update_conv split: option.splits)

text \<open>HAVEN settings survive export and import: the event made from a member's settings, stored by a relay (with JSON
  that reads what it writes), leaves that member a row with the same switches, the same relay lists and the same four
  privacy settings, and leaves everyone else's row alone.
\<close>

theorem haven_settings_roundtrip:
  assumes "json_reads_back encode decode (haven_settings_content s)"
  shows "(\<exists>r. map_of (haven_OnEventSaved decode True now (CreateHavenSettingsEvent encode made s) t) (us_Pubkey s) = Some r \<and>
      us_BlastrEnabled r = us_BlastrEnabled s \<and> slice (us_BlastrRelays r) = slice (us_BlastrRelays s) \<and>
      us_ImporterEnabled r = us_ImporterEnabled s \<and> slice (us_ImporterRelays r) = slice (us_ImporterRelays s) \<and>
      us_ImporterRealtime r = us_ImporterRealtime s \<and> us_PublicOutboxRead r = us_PublicOutboxRead s \<and>
      us_PublicInboxWrite r = us_PublicInboxWrite s \<and> us_RequireAuthChat r = us_RequireAuthChat s \<and>
      us_RequireAuthPrivate r = us_RequireAuthPrivate s) \<and>
    (u \<noteq> us_Pubkey s \<longrightarrow> map_of (haven_OnEventSaved decode True now (CreateHavenSettingsEvent encode made s) t) u = map_of t u)"
proof -
  let ?e = "CreateHavenSettingsEvent encode made s" and ?c = "haven_settings_content s"
  have e: "IsHavenSettingsEvent ?e" "ev_pubkey ?e = us_Pubkey s" "ev_content ?e = encode ?c"
    by (simp_all add: IsHavenSettingsEvent_def CreateHavenSettingsEvent_def first_tag_def)
  have d: "decode (ev_content ?e) = Some (?c\<lparr>hv_BlastrRelays := omit_empty (hv_BlastrRelays ?c), hv_ImporterRelays := omit_empty (hv_ImporterRelays ?c)\<rparr>)"
    using assms e(3) by (simp add: json_reads_back_def)
  show ?thesis
    using saved_haven_row [of ?e decode, OF e(1) d, of now t] unsaved_haven_row [of u ?e decode True now t] e(2)
    by (auto simp: haven_settings_content_def)
qed

lemma haven_settings_roundtrip_witness:
  "map_option us_RequireAuthChat (map_of (haven_OnEventSaved (\<lambda>_. Some ((haven_settings_content
      ((haven_default_row 0 ''m'')\<lparr>us_RequireAuthChat := False\<rparr>))\<lparr>hv_BlastrRelays := None, hv_ImporterRelays := None\<rparr>)) True 9
      (CreateHavenSettingsEvent (\<lambda>_. ''json'') 5 ((haven_default_row 0 ''m'')\<lparr>us_RequireAuthChat := False\<rparr>)) []) ''m'') = Some False"
proof -
  let ?s = "(haven_default_row 0 ''m'')\<lparr>us_RequireAuthChat := False\<rparr>"
  have "json_reads_back (\<lambda>_. ''json'') (\<lambda>_. Some ((haven_settings_content ?s)\<lparr>hv_BlastrRelays := None, hv_ImporterRelays := None\<rparr>))
      (haven_settings_content ?s)"
    by (simp add: json_reads_back_def haven_settings_content_def haven_default_row_def omit_empty_def slice_def)
  from haven_settings_roundtrip [OF this, of 9 5 "[]" "''n''"] show ?thesis by (auto simp: haven_default_row_def)
qed

text \<open>The router with this table as its settings store, both reads working.\<close>

definition with_settings :: "haven_table \<Rightarrow> Router \<Rightarrow> Router" where
  "with_settings t r = r\<lparr>r_settings := Some (router_settings t), r_settings_again := Some (router_settings t)\<rparr>"



text \<open>A settings event forgets when the member's events were last imported: the next round looks back a day.\<close>

theorem settings_event_forgets_last_import:
  assumes "IsHavenSettingsEvent se" "decode (ev_content se) = Some c"
  shows "map_option us_LastImportTime (map_of (haven_OnEventSaved decode True now se t) (ev_pubkey se)) = Some None"
  using saved_haven_row [of se decode c, OF assms, of now t] by auto

text \<open>The web-of-trust part of a combined settings event has no effect, on either table.\<close>

theorem combined_settings_ignore_wot:
  "(IsHavenSettingsEvent se \<longrightarrow> wot_settings_OnEventSaved dw ok now se tw = tw) \<and>
   haven_OnEventSaved (\<lambda>s. map_option (hv_WoT_update (\<lambda>_. w)) (decode s)) ok now se t = haven_OnEventSaved decode ok now se t"
  by (auto simp: IsHavenSettingsEvent_def wot_settings_OnEventSaved_def IsWoTSettingsEvent_def haven_OnEventSaved_def
      haven_parseSettingsEvent_def option.map_comp comp_def)

text \<open>The two settings about authentication are stored, and access never depends on them.\<close>

theorem auth_settings_have_no_effect:
  "CanAccessUserBox (with_settings (map (\<lambda>(k, s). (k, s\<lparr>us_RequireAuthChat := a, us_RequireAuthPrivate := b\<rparr>)) t) r) box requester owner isWrite =
   CanAccessUserBox (with_settings t r) box requester owner isWrite"
proof -
  have "router_settings (map (\<lambda>(k, s). (k, s\<lparr>us_RequireAuthChat := a, us_RequireAuthPrivate := b\<rparr>)) t) = router_settings t"
    by (rule ext) (simp add: router_settings_def map_of_map option.map_comp comp_def)
  then show ?thesis by (simp add: with_settings_def)
qed

text \<open>An export leaves the authentication settings out, so a bundle does not restore what was exported.\<close>

theorem export_forgets_auth_settings:
  "ExportUserSettings ok pk t = Some x \<Longrightarrow> se_Haven x = Some c \<Longrightarrow> hv_RequireAuthChat c = None \<and> hv_RequireAuthPrivate c = None"
  by (auto simp: ExportUserSettings_def split: option.splits)

end
