(* ===== verification/Organizations.thy ===== *)
theory Organizations
  imports User_Settings
begin

text \<open>
  Organizations: internal/haven/organization.go. Three tables, each an association list by its primary key; the lists'
  order stands for the order the database answers in, which only the queries with ORDER BY promise. The foreign keys of
  members and settings are checked on insertion and cascade on deletion. A failing statement has no effect. The process
  creates the tables and nothing else calls the store.
\<close>

section \<open>The tables\<close>

type_synonym OrgRole = string

definition OrgRoleAdmin :: OrgRole where "OrgRoleAdmin = ''admin''"
definition OrgRoleMember :: OrgRole where "OrgRoleMember = ''member''"

record Organization =
  og_ID :: string
  og_Name :: string
  og_OwnerPubkey :: string
  og_Tier :: string
  og_MemberLimit :: int
  og_LightningAddress :: string
  og_CreatedAt :: int
  og_UpdatedAt :: int

record OrgMember =
  om_OrgID :: string
  om_Pubkey :: string
  om_Role :: OrgRole
  om_InheritsTier :: bool
  om_JoinedAt :: int

record OrgSettings =
  ot_OrgID :: string
  ot_InternalRelayOnly :: bool
  ot_SharedOutbox :: bool
  ot_WoTBaseline :: "wot_content option"

record org_settings_row =
  os_internal_relay_only :: bool
  os_shared_outbox :: bool
  os_blocked :: "string list option"
  os_trusted :: "string list option"
  os_max_trust_depth :: "int option"

record org_db =
  db_orgs :: "(string \<times> Organization) list"
  db_members :: "((string \<times> string) \<times> OrgMember) list"
  db_settings :: "(string \<times> org_settings_row) list"

definition empty_org_db :: org_db where
  "empty_org_db = \<lparr>db_orgs = [], db_members = [], db_settings = []\<rparr>"

text \<open>A call succeeds, fails with a message of its own, or fails in the database.\<close>

datatype org_result = Done | Refused string | DbError

section \<open>Organizations\<close>

definition CreateOrganization :: "bool \<Rightarrow> int \<Rightarrow> Organization \<Rightarrow> org_db \<Rightarrow> org_result \<times> org_db" where
  "CreateOrganization ok now org d =
     (if og_ID org = '''' then (Refused ''organization ID is required'', d)
      else if og_Name org = '''' then (Refused ''organization name is required'', d)
      else if og_OwnerPubkey org = '''' then (Refused ''owner pubkey is required'', d)
      else if \<not> ok \<or> \<not> in_i32 (og_MemberLimit org) \<or> map_of (db_orgs d) (og_ID org) \<noteq> None then (DbError, d)
      else (Done, d\<lparr>db_orgs := db_orgs d @ [(og_ID org, org\<lparr>og_CreatedAt := now, og_UpdatedAt := now\<rparr>)]\<rparr>))"

definition GetOrganization :: "bool \<Rightarrow> string \<Rightarrow> org_db \<Rightarrow> Organization option option" where
  "GetOrganization ok oid d = (if \<not> ok then None else Some (map_of (db_orgs d) oid))"

definition GetOrganizationByOwner :: "bool \<Rightarrow> string \<Rightarrow> org_db \<Rightarrow> Organization list option" where
  "GetOrganizationByOwner ok owner d =
     (if \<not> ok then None
      else Some (sort_key (\<lambda>o'. - og_CreatedAt o') (filter (\<lambda>o'. og_OwnerPubkey o' = owner) (map snd (db_orgs d)))))"

definition UpdateOrganization :: "bool \<Rightarrow> int \<Rightarrow> Organization \<Rightarrow> org_db \<Rightarrow> org_result \<times> org_db" where
  "UpdateOrganization ok now org d =
     (if \<not> ok \<or> \<not> in_i32 (og_MemberLimit org) then (DbError, d)
      else case map_of (db_orgs d) (og_ID org) of
        None \<Rightarrow> (Refused ''organization not found'', d)
      | Some old \<Rightarrow> (Done, d\<lparr>db_orgs := AList.update (og_ID org)
            (old\<lparr>og_Name := og_Name org, og_Tier := og_Tier org, og_MemberLimit := og_MemberLimit org,
                 og_LightningAddress := og_LightningAddress org, og_UpdatedAt := now\<rparr>) (db_orgs d)\<rparr>))"

definition DeleteOrganization :: "bool \<Rightarrow> string \<Rightarrow> org_db \<Rightarrow> org_result \<times> org_db" where
  "DeleteOrganization ok oid d =
     (if \<not> ok then (DbError, d)
      else (Done, \<lparr>db_orgs = AList.delete oid (db_orgs d), db_members = filter (\<lambda>(k, _). fst k \<noteq> oid) (db_members d),
                   db_settings = AList.delete oid (db_settings d)\<rparr>))"

section \<open>Members\<close>

definition GetMemberCount :: "bool \<Rightarrow> string \<Rightarrow> org_db \<Rightarrow> int option" where
  "GetMemberCount ok oid d = (if \<not> ok then None else Some (int (length (filter (\<lambda>(k, _). fst k = oid) (db_members d)))))"

text \<open>
  \<open>org_AddMember\<close> reads, then writes; another call may come in between. \<open>may_add\<close> is its reading half: the refusal, if any.
\<close>

definition may_add :: "bool \<Rightarrow> bool \<Rightarrow> OrgMember \<Rightarrow> org_db \<Rightarrow> org_result" where
  "may_add ok1 ok2 m d =
     (case GetOrganization ok1 (om_OrgID m) d of
        None \<Rightarrow> DbError
      | Some None \<Rightarrow> Refused ''organization not found''
      | Some (Some org) \<Rightarrow>
          if og_MemberLimit org > 0 then
            (case GetMemberCount ok2 (om_OrgID m) d of
               None \<Rightarrow> DbError
             | Some n \<Rightarrow> if n \<ge> og_MemberLimit org then Refused ''organization member limit reached'' else Done)
          else Done)"

definition insert_member :: "bool \<Rightarrow> int \<Rightarrow> OrgMember \<Rightarrow> org_db \<Rightarrow> org_result \<times> org_db" where
  "insert_member ok now m d =
     (if \<not> ok \<or> map_of (db_orgs d) (om_OrgID m) = None then (DbError, d)
      else (Done, d\<lparr>db_members := AList.update (om_OrgID m, om_Pubkey m)
        (case map_of (db_members d) (om_OrgID m, om_Pubkey m) of
           None \<Rightarrow> m\<lparr>om_JoinedAt := now\<rparr>
         | Some old \<Rightarrow> old\<lparr>om_Role := om_Role m, om_InheritsTier := om_InheritsTier m\<rparr>) (db_members d)\<rparr>))"

definition org_AddMember :: "bool \<Rightarrow> bool \<Rightarrow> bool \<Rightarrow> int \<Rightarrow> OrgMember \<Rightarrow> org_db \<Rightarrow> org_result \<times> org_db" where
  "org_AddMember ok1 ok2 ok3 now m d =
     (case may_add ok1 ok2 m d of Done \<Rightarrow> insert_member ok3 now m d | refusal \<Rightarrow> (refusal, d))"

definition org_RemoveMember :: "bool \<Rightarrow> string \<Rightarrow> string \<Rightarrow> org_db \<Rightarrow> org_result \<times> org_db" where
  "org_RemoveMember ok oid pk d =
     (if \<not> ok then (DbError, d) else (Done, d\<lparr>db_members := AList.delete (oid, pk) (db_members d)\<rparr>))"

definition org_GetMember :: "bool \<Rightarrow> string \<Rightarrow> string \<Rightarrow> org_db \<Rightarrow> OrgMember option option" where
  "org_GetMember ok oid pk d = (if \<not> ok then None else Some (map_of (db_members d) (oid, pk)))"

definition GetMembership :: "bool \<Rightarrow> string \<Rightarrow> org_db \<Rightarrow> OrgMember list option" where
  "GetMembership ok pk d = (if \<not> ok then None else Some (filter (\<lambda>m. om_Pubkey m = pk) (map snd (db_members d))))"

definition GetOrgMembers :: "bool \<Rightarrow> string \<Rightarrow> org_db \<Rightarrow> OrgMember list option" where
  "GetOrgMembers ok oid d =
     (if \<not> ok then None else Some (sort_key om_JoinedAt (filter (\<lambda>m. om_OrgID m = oid) (map snd (db_members d)))))"

section \<open>Settings\<close>

text \<open>Go's \<open>int32(x)\<close> is \<open>i32\<close>: it keeps the low 32 bits.\<close>

definition GetOrgSettings :: "bool \<Rightarrow> string \<Rightarrow> org_db \<Rightarrow> OrgSettings option option" where
  "GetOrgSettings ok oid d =
     (if \<not> ok then None
      else Some (map_option (\<lambda>r. \<lparr>ot_OrgID = oid, ot_InternalRelayOnly = os_internal_relay_only r, ot_SharedOutbox = os_shared_outbox r,
        ot_WoTBaseline = Some \<lparr>wc_BlockedPubkeys = os_blocked r, wc_TrustedPubkeys = os_trusted r,
          wc_MaxTrustDepth = os_max_trust_depth r, wc_MinPowBits = None, wc_TrustAnchor = ''''\<rparr>\<rparr>) (map_of (db_settings d) oid)))"

definition SaveOrgSettings :: "bool \<Rightarrow> OrgSettings \<Rightarrow> org_db \<Rightarrow> org_result \<times> org_db" where
  "SaveOrgSettings ok s d =
     (if \<not> ok \<or> map_of (db_orgs d) (ot_OrgID s) = None then (DbError, d)
      else (Done, d\<lparr>db_settings := AList.update (ot_OrgID s)
        \<lparr>os_internal_relay_only = ot_InternalRelayOnly s, os_shared_outbox = ot_SharedOutbox s,
         os_blocked = (case ot_WoTBaseline s of None \<Rightarrow> None | Some w \<Rightarrow> wc_BlockedPubkeys w),
         os_trusted = (case ot_WoTBaseline s of None \<Rightarrow> None | Some w \<Rightarrow> wc_TrustedPubkeys w),
         os_max_trust_depth = (case ot_WoTBaseline s of None \<Rightarrow> None | Some w \<Rightarrow> map_option i32 (wc_MaxTrustDepth w))\<rparr> (db_settings d)\<rparr>))"

section \<open>Questions\<close>

text \<open>\<open>fails oid\<close> says that reading organization \<open>oid\<close> fails.\<close>

fun effective_tier_loop :: "(string \<Rightarrow> bool) \<Rightarrow> org_db \<Rightarrow> OrgMember list \<Rightarrow> (string \<times> string) option" where
  "effective_tier_loop fails d [] = None"
| "effective_tier_loop fails d (m # ms) =
     (if \<not> om_InheritsTier m then effective_tier_loop fails d ms
      else case GetOrganization (\<not> fails (om_OrgID m)) (om_OrgID m) d of
        Some (Some org) \<Rightarrow> if og_Tier org = ''enterprise'' then Some (og_Tier org, og_ID org) else effective_tier_loop fails d ms
      | _ \<Rightarrow> effective_tier_loop fails d ms)"

definition GetEffectiveTierForPubkey :: "bool \<Rightarrow> (string \<Rightarrow> bool) \<Rightarrow> string \<Rightarrow> string \<Rightarrow> org_db \<Rightarrow> string \<times> string" where
  "GetEffectiveTierForPubkey ok fails pk personalTier d =
     (case GetMembership ok pk d of
        None \<Rightarrow> (personalTier, '''')
      | Some ms \<Rightarrow> (case effective_tier_loop fails d ms of Some r \<Rightarrow> r | None \<Rightarrow> (personalTier, '''')))"

definition IsOrgAdmin :: "bool \<Rightarrow> bool \<Rightarrow> string \<Rightarrow> string \<Rightarrow> org_db \<Rightarrow> bool option" where
  "IsOrgAdmin ok1 ok2 oid pk d =
     (case GetOrganization ok1 oid d of
        None \<Rightarrow> None
      | Some None \<Rightarrow> Some False
      | Some (Some org) \<Rightarrow>
          if og_OwnerPubkey org = pk then Some True
          else case org_GetMember ok2 oid pk d of
            None \<Rightarrow> None
          | Some None \<Rightarrow> Some False
          | Some (Some m) \<Rightarrow> Some (om_Role m = OrgRoleAdmin))"

fun common_org :: "OrgMember list \<Rightarrow> OrgMember list \<Rightarrow> string option" where
  "common_org [] ms2 = None"
| "common_org (m1 # ms1) ms2 = (if om_OrgID m1 \<in> om_OrgID ` set ms2 then Some (om_OrgID m1) else common_org ms1 ms2)"

definition IsSameOrg :: "bool \<Rightarrow> bool \<Rightarrow> string \<Rightarrow> string \<Rightarrow> org_db \<Rightarrow> (bool \<times> string) option" where
  "IsSameOrg ok1 ok2 pk1 pk2 d =
     (case GetMembership ok1 pk1 d of
        None \<Rightarrow> None
      | Some ms1 \<Rightarrow>
          (case GetMembership ok2 pk2 d of
             None \<Rightarrow> None
           | Some ms2 \<Rightarrow> Some (case common_org ms1 ms2 of Some oid \<Rightarrow> (True, oid) | None \<Rightarrow> (False, ''''))))"

section \<open>The tables keep their schema\<close>

datatype org_call =
    Create bool int Organization
  | Update bool int Organization
  | Delete bool string
  | Add bool bool bool int OrgMember
  | Remove bool string string
  | Configure bool OrgSettings

fun org_do :: "org_call \<Rightarrow> org_db \<Rightarrow> org_db" where
  "org_do (Create ok now org) d = snd (CreateOrganization ok now org d)"
| "org_do (Update ok now org) d = snd (UpdateOrganization ok now org d)"
| "org_do (Delete ok oid) d = snd (DeleteOrganization ok oid d)"
| "org_do (Add ok1 ok2 ok3 now m) d = snd (org_AddMember ok1 ok2 ok3 now m d)"
| "org_do (Remove ok oid pk) d = snd (org_RemoveMember ok oid pk d)"
| "org_do (Configure ok s) d = snd (SaveOrgSettings ok s d)"

text \<open>A table: no key twice, and every row satisfies \<open>P\<close>.\<close>

definition table_ok :: "('k \<times> 'v \<Rightarrow> bool) \<Rightarrow> ('k \<times> 'v) list \<Rightarrow> bool" where
  "table_ok P t \<longleftrightarrow> distinct (map fst t) \<and> (\<forall>p \<in> set t. P p)"

lemma table_ok_Nil [simp]: "table_ok P []"
  by (simp add: table_ok_def)

lemma set_update: "p \<in> set (AList.update k v xs) \<Longrightarrow> p = (k, v) \<or> p \<in> set xs"
  by (induction xs) (auto split: if_splits)

lemma table_ok_update: "table_ok P t \<Longrightarrow> P (k, v) \<Longrightarrow> table_ok P (AList.update k v t)"
  using set_update [of _ k v t] by (auto simp: table_ok_def distinct_update)

lemma table_ok_filter: "table_ok P t \<Longrightarrow> table_ok P (filter Q t)"
  by (auto simp: table_ok_def distinct_map_filter)

lemma table_ok_restrict: "table_ok P t \<Longrightarrow> (\<And>p. P p \<Longrightarrow> Q p \<Longrightarrow> R p) \<Longrightarrow> table_ok R (filter Q t)"
  by (auto simp: table_ok_def distinct_map_filter)

lemma table_ok_delete: "table_ok P t \<Longrightarrow> table_ok P (AList.delete k t)"
  by (simp add: AList.delete_eq table_ok_filter)

lemma table_ok_snoc: "table_ok P t \<Longrightarrow> map_of t k = None \<Longrightarrow> P (k, v) \<Longrightarrow> table_ok P (t @ [(k, v)])"
  by (auto simp: table_ok_def map_of_eq_None_iff)

lemma table_ok_weaken: "table_ok P t \<Longrightarrow> (\<And>p. p \<in> set t \<Longrightarrow> P p \<Longrightarrow> Q p) \<Longrightarrow> table_ok Q t"
  by (auto simp: table_ok_def)

lemma table_ok_row: "table_ok P t \<Longrightarrow> map_of t k = Some v \<Longrightarrow> P (k, v)"
  by (auto simp: table_ok_def dest: map_of_SomeD)

definition known :: "org_db \<Rightarrow> string \<Rightarrow> bool" where
  "known d oid \<longleftrightarrow> map_of (db_orgs d) oid \<noteq> None"

definition org_row_ok :: "string \<times> Organization \<Rightarrow> bool" where
  "org_row_ok p \<longleftrightarrow> og_ID (snd p) = fst p \<and> in_i32 (og_MemberLimit (snd p))"

definition member_row_ok :: "(string \<Rightarrow> bool) \<Rightarrow> (string \<times> string) \<times> OrgMember \<Rightarrow> bool" where
  "member_row_ok kn p \<longleftrightarrow> om_OrgID (snd p) = fst (fst p) \<and> om_Pubkey (snd p) = snd (fst p) \<and> kn (fst (fst p))"

definition settings_row_ok :: "(string \<Rightarrow> bool) \<Rightarrow> string \<times> org_settings_row \<Rightarrow> bool" where
  "settings_row_ok kn p \<longleftrightarrow> kn (fst p) \<and> fits_int (os_max_trust_depth (snd p))"

definition org_schema :: "org_db \<Rightarrow> bool" where
  "org_schema d \<longleftrightarrow> table_ok org_row_ok (db_orgs d) \<and> table_ok (member_row_ok (known d)) (db_members d) \<and>
     table_ok (settings_row_ok (known d)) (db_settings d)"

lemma in_i32_i32: "in_i32 (i32 x)"
proof -
  have "0 \<le> (x + 2147483648) mod 4294967296" "(x + 2147483648) mod 4294967296 < 4294967296"
    by simp_all
  then show ?thesis by (simp add: in_i32_def i32_def)
qed

text \<open>Rows stay good when the organizations only grow.\<close>

lemma org_schema_orgs:
  assumes "org_schema d" "table_ok org_row_ok os" "\<And>oid. map_of (db_orgs d) oid \<noteq> None \<Longrightarrow> map_of os oid \<noteq> None"
  shows "org_schema (d\<lparr>db_orgs := os\<rparr>)"
proof -
  have k: "known d oid \<Longrightarrow> known (d\<lparr>db_orgs := os\<rparr>) oid" for oid using assms(3) by (simp add: known_def)
  then show ?thesis
    using assms(1,2) unfolding org_schema_def
    by (auto elim!: table_ok_weaken simp: member_row_ok_def settings_row_ok_def)
qed

lemma schema_Create: "org_schema d \<Longrightarrow> org_schema (snd (CreateOrganization ok now org d))"
  by (auto simp: CreateOrganization_def org_row_ok_def org_schema_def [of d] intro!: org_schema_orgs table_ok_snoc)

lemma schema_Update: "org_schema d \<Longrightarrow> org_schema (snd (UpdateOrganization ok now org d))"
  by (auto simp: UpdateOrganization_def update_conv org_schema_def [of d] org_row_ok_def dest: table_ok_row
      intro!: org_schema_orgs table_ok_update split: option.split)

lemma schema_Delete:
  assumes "org_schema d"
  shows "org_schema (snd (DeleteOrganization ok oid d))"
proof (cases ok)
  case True
  let ?d = "snd (DeleteOrganization ok oid d)"
  have k: "known ?d x \<longleftrightarrow> known d x \<and> x \<noteq> oid" for x
    using True by (simp add: known_def DeleteOrganization_def AList.delete_conv')
  have "table_ok (member_row_ok (known d)) (db_members d)" "table_ok (settings_row_ok (known d)) (db_settings d)"
    using assms by (simp_all add: org_schema_def)
  then have "table_ok (member_row_ok (known ?d)) (filter (\<lambda>(x, _). fst x \<noteq> oid) (db_members d))"
      "table_ok (settings_row_ok (known ?d)) (AList.delete oid (db_settings d))"
    unfolding AList.delete_eq by (auto elim!: table_ok_restrict simp: member_row_ok_def settings_row_ok_def k)
  then show ?thesis
    using assms True by (simp add: org_schema_def DeleteOrganization_def table_ok_delete)
qed (simp add: DeleteOrganization_def assms)

lemma known_cong [simp]: "known (d\<lparr>db_members := ms\<rparr>) = known d" "known (d\<lparr>db_settings := ss\<rparr>) = known d"
  by (simp_all add: known_def fun_eq_iff)

lemma org_schema_members: "org_schema d \<Longrightarrow> table_ok (member_row_ok (known d)) ms \<Longrightarrow> org_schema (d\<lparr>db_members := ms\<rparr>)"
  by (simp add: org_schema_def)

lemma org_schema_settings: "org_schema d \<Longrightarrow> table_ok (settings_row_ok (known d)) ss \<Longrightarrow> org_schema (d\<lparr>db_settings := ss\<rparr>)"
  by (simp add: org_schema_def)

lemma schema_Remove: "org_schema d \<Longrightarrow> org_schema (snd (org_RemoveMember ok oid pk d))"
  by (simp add: org_RemoveMember_def org_schema_members table_ok_delete org_schema_def [of d])

lemma schema_insert:
  assumes "org_schema d"
  shows "org_schema (snd (insert_member ok now m d))"
proof -
  have "table_ok (member_row_ok (known d)) (db_members d)" using assms by (simp add: org_schema_def)
  then show ?thesis
    using assms by (auto simp: insert_member_def member_row_ok_def known_def dest: table_ok_row
        intro!: org_schema_members table_ok_update split: option.split)
qed

lemma schema_Add: "org_schema d \<Longrightarrow> org_schema (snd (org_AddMember ok1 ok2 ok3 now m d))"
  by (simp add: org_AddMember_def schema_insert split: org_result.split)

lemma schema_Configure: "org_schema d \<Longrightarrow> org_schema (snd (SaveOrgSettings ok s d))"
  by (auto simp: SaveOrgSettings_def settings_row_ok_def known_def fits_int_def in_i32_i32 org_schema_def [of d]
      intro!: org_schema_settings table_ok_update split: option.split)

lemma schema_org_do: "org_schema d \<Longrightarrow> org_schema (org_do c d)"
  by (cases c) (simp_all add: schema_Create schema_Update schema_Delete schema_Add schema_Remove schema_Configure)

text \<open>Whatever sequence of calls is made, with whatever failures, the three tables keep their schema: keys are unique, a
  row's key is the key its record carries, every membership and every settings row belongs to an organization that
  exists, and member limits and trust depths are 32-bit integers.
\<close>

theorem organization_tables_keep_schema: "org_schema (fold org_do cs empty_org_db)"
proof -
  have "org_schema d \<Longrightarrow> org_schema (fold org_do cs d)" for d
    by (induction cs arbitrary: d) (simp_all add: schema_org_do)
  then show ?thesis by (simp add: org_schema_def empty_org_db_def)
qed

section \<open>Limits\<close>

definition member_count :: "org_db \<Rightarrow> string \<Rightarrow> int" where
  "member_count d oid = int (length (filter (\<lambda>(k, _). fst k = oid) (db_members d)))"

lemma length_filter_update:
  "length (filter (\<lambda>(k, _). Q k) (AList.update x v t)) \<le> length (filter (\<lambda>(k, _). Q k) t) + (if Q x \<and> map_of t x = None then 1 else 0)"
  by (induction t) auto

lemma length_filter_delete: "length (filter Q (AList.delete k t)) \<le> length (filter Q t)"
  by (induction t) auto

lemma length_filter_cascade:
  "length (filter (\<lambda>(k, _). fst k = oid) (filter (\<lambda>(k, _). fst k \<noteq> x) t)) \<le>
   (if x = oid then 0 else length (filter (\<lambda>(k, _). fst k = oid) t))"
  by (induction t) auto

lemma count_insert: "member_count (snd (insert_member ok now m d)) oid \<le> member_count d oid + (if om_OrgID m = oid then 1 else 0)"
  using length_filter_update [where t = "db_members d" and x = "(om_OrgID m, om_Pubkey m)" and Q = "\<lambda>k. fst k = oid"
      and v = "case map_of (db_members d) (om_OrgID m, om_Pubkey m) of None \<Rightarrow> m\<lparr>om_JoinedAt := now\<rparr>
         | Some old \<Rightarrow> old\<lparr>om_Role := om_Role m, om_InheritsTier := om_InheritsTier m\<rparr>"]
  by (auto simp: insert_member_def member_count_def split: if_splits)

lemma orgs_kept [simp]:
  "db_orgs (snd (insert_member ok now m d)) = db_orgs d" "db_orgs (snd (org_AddMember ok1 ok2 ok3 now m d)) = db_orgs d"
  "db_orgs (snd (org_RemoveMember ok oid pk d)) = db_orgs d" "db_orgs (snd (SaveOrgSettings ok s d)) = db_orgs d"
  by (auto simp: insert_member_def org_AddMember_def org_RemoveMember_def SaveOrgSettings_def split: org_result.split)

lemma members_kept [simp]:
  "db_members (snd (SaveOrgSettings ok s d)) = db_members d" "db_members (snd (CreateOrganization ok now org d)) = db_members d"
  "db_members (snd (UpdateOrganization ok now org d)) = db_members d"
  by (auto simp: SaveOrgSettings_def CreateOrganization_def UpdateOrganization_def split: option.split)

text \<open>An organization with a member limit is within it; one that does not exist has no members.\<close>

definition within_limit :: "string \<Rightarrow> org_db \<Rightarrow> bool" where
  "within_limit oid d \<longleftrightarrow>
     (case map_of (db_orgs d) oid of
        None \<Rightarrow> member_count d oid = 0
      | Some org \<Rightarrow> og_MemberLimit org > 0 \<longrightarrow> member_count d oid \<le> og_MemberLimit org)"

fun updates_org :: "string \<Rightarrow> org_call \<Rightarrow> bool" where
  "updates_org oid (Update _ _ org) \<longleftrightarrow> og_ID org = oid"
| "updates_org oid _ \<longleftrightarrow> False"

lemma limit_Add:
  assumes "within_limit oid d"
  shows "within_limit oid (snd (org_AddMember ok1 ok2 ok3 now m d))"
proof (cases "may_add ok1 ok2 m d = Done \<and> om_OrgID m = oid")
  case True
  then obtain org where org: "map_of (db_orgs d) oid = Some org"
    by (auto simp: may_add_def GetOrganization_def split: if_splits option.splits)
  have "member_count d oid < og_MemberLimit org" if "og_MemberLimit org > 0"
    using True org that by (auto simp: may_add_def GetOrganization_def GetMemberCount_def member_count_def split: if_splits)
  then show ?thesis
    using count_insert [of ok3 now m d oid] True org by (auto simp: within_limit_def org_AddMember_def)
next
  case False
  then have "member_count (snd (org_AddMember ok1 ok2 ok3 now m d)) oid \<le> member_count d oid"
    using count_insert [of ok3 now m d oid] by (auto simp: org_AddMember_def split: org_result.splits)
  moreover have "0 \<le> member_count (snd (org_AddMember ok1 ok2 ok3 now m d)) oid" by (simp add: member_count_def)
  ultimately show ?thesis using assms by (auto simp: within_limit_def split: option.splits)
qed

lemma limit_org_do: "within_limit oid d \<Longrightarrow> \<not> updates_org oid c \<Longrightarrow> within_limit oid (org_do c d)"
proof (cases c)
  case (Create ok now org)
  assume "within_limit oid d"
  with Create show ?thesis
    by (auto simp: within_limit_def member_count_def CreateOrganization_def map_add_def split: option.splits)
next
  case (Update ok now org)
  assume "within_limit oid d" "\<not> updates_org oid c"
  with Update show ?thesis by (auto simp: within_limit_def member_count_def UpdateOrganization_def update_conv split: option.split)
next
  case (Delete ok x)
  assume w: "within_limit oid d"
  have "length (filter (\<lambda>(k, _). fst k = oid) (filter (\<lambda>(k, _). fst k \<noteq> x) (db_members d))) \<le>
      (if x = oid then 0 else length (filter (\<lambda>(k, _). fst k = oid) (db_members d)))"
    by (rule length_filter_cascade)
  with w Delete show ?thesis
    by (auto simp: within_limit_def member_count_def DeleteOrganization_def AList.delete_conv' split: option.splits if_splits)
next
  case (Add ok1 ok2 ok3 now m)
  assume "within_limit oid d"
  with Add show ?thesis by (simp add: limit_Add)
next
  case (Remove ok x pk)
  assume "within_limit oid d"
  with Remove show ?thesis
    using length_filter_delete [of "\<lambda>(k, _). fst k = oid" "(x, pk)" "db_members d"]
    by (auto simp: within_limit_def member_count_def org_RemoveMember_def split: option.splits)
next
  case (Configure ok s)
  assume "within_limit oid d"
  with Configure show ?thesis by (auto simp: within_limit_def member_count_def split: option.split)
qed

text \<open>C32: Member limits hold: after any sequence of calls of the organization store made one after the other, with
  whatever failures, creations, deletions and changes of roles, an organization with a member limit has at most
  that many members and a deleted one has none, unless an update gave it another limit after its creation. (Calls
  that overlap can pass the limit: see \<open>concurrent_adds_pass_the_limit\<close> below.)
\<close>

theorem organization_limit_holds:
  assumes "\<forall>c \<in> set cs. \<not> updates_org oid c" "d = fold org_do cs empty_org_db"
  shows "case map_of (db_orgs d) oid of
      None \<Rightarrow> member_count d oid = 0
    | Some org \<Rightarrow> og_MemberLimit org > 0 \<longrightarrow> member_count d oid \<le> og_MemberLimit org"
proof -
  have "within_limit oid d'" if "within_limit oid d0" "d' = fold org_do cs d0" for d0 d'
    using that assms(1) by (induction cs arbitrary: d0) (simp_all add: limit_org_do)
  moreover have "within_limit oid empty_org_db" by (simp add: within_limit_def empty_org_db_def member_count_def)
  ultimately show ?thesis using assms(2) unfolding within_limit_def by blast
qed

definition sample_org :: Organization where
  "sample_org = \<lparr>og_ID = ''acme'', og_Name = ''Acme'', og_OwnerPubkey = ''boss'', og_Tier = ''enterprise'', og_MemberLimit = 1,
     og_LightningAddress = '''', og_CreatedAt = 0, og_UpdatedAt = 0\<rparr>"

definition sample_member :: "string \<Rightarrow> OrgMember" where
  "sample_member pk = \<lparr>om_OrgID = ''acme'', om_Pubkey = pk, om_Role = OrgRoleMember, om_InheritsTier = True, om_JoinedAt = 0\<rparr>"

definition acme :: org_db where
  "acme = \<lparr>db_orgs = [(''acme'', sample_org)], db_members = [], db_settings = []\<rparr>"

lemma organization_limit_holds_witness:
  "member_count (fold org_do [Create True 1 sample_org, Add True True True 2 (sample_member ''a''),
     Add True True True 3 (sample_member ''b'')] empty_org_db) ''acme'' \<le> 1"
proof -
  let ?cs = "[Create True 1 sample_org, Add True True True 2 (sample_member ''a''), Add True True True 3 (sample_member ''b'')]"
  have "\<forall>c \<in> set ?cs. \<not> updates_org ''acme'' c" by simp
  moreover have "map_of (db_orgs (fold org_do ?cs empty_org_db)) ''acme'' = Some (sample_org\<lparr>og_CreatedAt := 1, og_UpdatedAt := 1\<rparr>)"
    by (simp add: CreateOrganization_def sample_org_def empty_org_db_def in_i32_def)
  ultimately show ?thesis using organization_limit_holds [of ?cs "''acme''", OF _ refl] by (simp add: sample_org_def)
qed

text \<open>Two calls that read before either writes both pass: the organization then has more members than its limit.\<close>

theorem concurrent_adds_pass_the_limit:
  "may_add True True (sample_member ''a'') acme = Done \<and> may_add True True (sample_member ''b'') acme = Done \<and>
   member_count (snd (insert_member True 2 (sample_member ''b'') (snd (insert_member True 1 (sample_member ''a'') acme)))) ''acme'' = 2 \<and>
   og_MemberLimit sample_org = 1"
  by (simp add: may_add_def GetOrganization_def GetMemberCount_def insert_member_def member_count_def acme_def sample_org_def sample_member_def)

text \<open>In a full organization a member's role cannot be changed: the update goes through the same check.\<close>

theorem full_organization_freezes_roles:
  assumes "map_of (db_orgs d) (om_OrgID m) = Some org" "og_MemberLimit org > 0" "member_count d (om_OrgID m) \<ge> og_MemberLimit org"
  shows "org_AddMember True True ok3 now m d = (Refused ''organization member limit reached'', d)"
  using assms by (simp add: org_AddMember_def may_add_def GetOrganization_def GetMemberCount_def member_count_def)

section \<open>Authority and tier\<close>

text \<open>Who administers an organization: with the reads working, \<open>IsOrgAdmin\<close> affirms exactly the owner of an
  organization that exists and its members of role admin; a removed member who is not the owner is not among them.
\<close>

theorem organization_admins:
  "(IsOrgAdmin True True oid pk d = Some True \<longleftrightarrow>
      (\<exists>org. map_of (db_orgs d) oid = Some org \<and>
        (og_OwnerPubkey org = pk \<or> (\<exists>m. map_of (db_members d) (oid, pk) = Some m \<and> om_Role m = OrgRoleAdmin)))) \<and>
   (IsOrgAdmin True True oid pk (snd (org_RemoveMember True oid pk d)) = Some True \<longleftrightarrow>
      (\<exists>org. map_of (db_orgs d) oid = Some org \<and> og_OwnerPubkey org = pk))"
  by (auto simp: IsOrgAdmin_def GetOrganization_def org_GetMember_def org_RemoveMember_def AList.delete_conv' split: option.splits)

definition inherits_from :: "org_db \<Rightarrow> string \<Rightarrow> string \<Rightarrow> bool" where
  "inherits_from d pk oid \<longleftrightarrow> (\<exists>m org. map_of (db_members d) (oid, pk) = Some m \<and> om_InheritsTier m \<and>
     map_of (db_orgs d) oid = Some org \<and> og_Tier org = ''enterprise'')"

lemma effective_tier_loop_iff:
  "effective_tier_loop (\<lambda>_. False) d ms = Some r \<Longrightarrow>
     \<exists>m org. m \<in> set ms \<and> om_InheritsTier m \<and> map_of (db_orgs d) (om_OrgID m) = Some org \<and> og_Tier org = ''enterprise'' \<and> r = (''enterprise'', og_ID org)"
  "effective_tier_loop (\<lambda>_. False) d ms = None \<Longrightarrow> m \<in> set ms \<Longrightarrow> om_InheritsTier m \<Longrightarrow>
     map_of (db_orgs d) (om_OrgID m) = Some org \<Longrightarrow> og_Tier org \<noteq> ''enterprise''"
  by (induction ms) (auto simp: GetOrganization_def split: if_splits option.splits)

lemma membership_rows:
  assumes "org_schema d"
  shows "m \<in> set (filter (\<lambda>m. om_Pubkey m = pk) (map snd (db_members d))) \<longleftrightarrow>
    map_of (db_members d) (om_OrgID m, pk) = Some m \<and> om_Pubkey m = pk"
proof -
  have t: "distinct (map fst (db_members d))" "\<forall>p \<in> set (db_members d). member_row_ok (known d) p"
    using assms by (simp_all add: org_schema_def table_ok_def)
  have "m \<in> set (map snd (db_members d)) \<Longrightarrow> ((om_OrgID m, om_Pubkey m), m) \<in> set (db_members d)"
    using t(2) by (force simp: member_row_ok_def)
  then show ?thesis using t(1) by (auto simp: map_of_eq_Some_iff) (force)
qed

text \<open>The effective tier: with the reads working, a key gets enterprise, together with an organization it inherits from,
  exactly when it is an inheriting member of some enterprise organization; otherwise it keeps its personal tier.
\<close>

theorem effective_tier_is_enterprise_or_personal:
  assumes "org_schema d"
  shows "(\<exists>oid. inherits_from d pk oid \<and> GetEffectiveTierForPubkey True (\<lambda>_. False) pk personalTier d = (''enterprise'', oid)) \<or>
    ((\<nexists>oid. inherits_from d pk oid) \<and> GetEffectiveTierForPubkey True (\<lambda>_. False) pk personalTier d = (personalTier, ''''))"
proof -
  let ?ms = "filter (\<lambda>m. om_Pubkey m = pk) (map snd (db_members d))"
  have ids: "map_of (db_orgs d) oid = Some org \<Longrightarrow> og_ID org = oid" for oid org
    using assms table_ok_row by (fastforce simp: org_schema_def org_row_ok_def)
  have rows: "map_of (db_members d) (oid, pk) = Some m \<Longrightarrow> om_OrgID m = oid \<and> om_Pubkey m = pk" for oid m
    using assms table_ok_row by (fastforce simp: org_schema_def member_row_ok_def)
  show ?thesis
  proof (cases "effective_tier_loop (\<lambda>_. False) d ?ms")
    case None
    have "\<not> inherits_from d pk oid" for oid
      using effective_tier_loop_iff(2) [OF None] rows membership_rows [OF assms] by (fastforce simp: inherits_from_def)
    then show ?thesis by (simp add: GetEffectiveTierForPubkey_def GetMembership_def None)
  next
    case (Some r)
    then obtain m org where "m \<in> set ?ms" "om_InheritsTier m" "map_of (db_orgs d) (om_OrgID m) = Some org"
        "og_Tier org = ''enterprise''" "r = (''enterprise'', og_ID org)"
      using effective_tier_loop_iff(1) by blast
    then show ?thesis
      using membership_rows [OF assms] ids
      by (auto simp: GetEffectiveTierForPubkey_def GetMembership_def Some inherits_from_def)
  qed
qed

lemma effective_tier_is_enterprise_or_personal_witness:
  "GetEffectiveTierForPubkey True (\<lambda>_. False) ''a'' ''free'' (acme\<lparr>db_members := [((''acme'', ''a''), sample_member ''a'')]\<rparr>) = (''enterprise'', ''acme'')"
proof -
  let ?d = "acme\<lparr>db_members := [((''acme'', ''a''), sample_member ''a'')]\<rparr>"
  have "org_schema ?d"
    by (simp add: org_schema_def table_ok_def org_row_ok_def member_row_ok_def acme_def sample_org_def sample_member_def known_def in_i32_def)
  moreover have "inherits_from ?d ''a'' oid \<longleftrightarrow> oid = ''acme''" for oid
    by (auto simp: inherits_from_def acme_def sample_org_def sample_member_def)
  ultimately show ?thesis using effective_tier_is_enterprise_or_personal [of ?d "''a''" "''free''"] by auto
qed

text \<open>An organization of any other tier passes nothing on, although its members inherit its tier.\<close>

theorem lower_tiers_are_not_inherited:
  assumes "\<forall>p \<in> set (db_orgs d). og_Tier (snd p) \<noteq> ''enterprise''"
  shows "GetEffectiveTierForPubkey ok fails pk personalTier d = (personalTier, '''')"
proof -
  have "effective_tier_loop fails d ms = None" for ms
    using assms by (induction ms) (fastforce simp: GetOrganization_def dest: map_of_SomeD split: option.splits)+
  then show ?thesis by (simp add: GetEffectiveTierForPubkey_def split: option.split)
qed

lemma common_org_iff:
  "common_org ms1 ms2 = Some oid \<Longrightarrow> oid \<in> om_OrgID ` set ms1 \<inter> om_OrgID ` set ms2"
  "common_org ms1 ms2 = None \<longleftrightarrow> om_OrgID ` set ms1 \<inter> om_OrgID ` set ms2 = {}"
  by (induction ms1) (auto split: if_splits)

text \<open>Two keys are in the same organization, says \<open>IsSameOrg\<close> with its reads working, exactly when one organization has
  a membership of each, and the organization it names has both; so the answer is the same either way round.
\<close>

theorem same_org_is_a_common_membership:
  assumes "org_schema d"
  shows "(\<exists>oid. IsSameOrg True True pk1 pk2 d = Some (True, oid) \<and>
      map_of (db_members d) (oid, pk1) \<noteq> None \<and> map_of (db_members d) (oid, pk2) \<noteq> None) \<or>
    (IsSameOrg True True pk1 pk2 d = Some (False, '''') \<and>
      (\<forall>oid. map_of (db_members d) (oid, pk1) = None \<or> map_of (db_members d) (oid, pk2) = None))"
proof -
  have rows: "map_of (db_members d) (oid, pk) = Some m \<Longrightarrow> om_OrgID m = oid \<and> om_Pubkey m = pk" for oid pk m
    using assms table_ok_row by (fastforce simp: org_schema_def member_row_ok_def)
  define ms where "ms = (\<lambda>pk. filter (\<lambda>m. om_Pubkey m = pk) (map snd (db_members d)))"
  have orgs: "oid \<in> om_OrgID ` set (ms pk) \<longleftrightarrow> map_of (db_members d) (oid, pk) \<noteq> None" for oid pk
  proof -
    have "oid \<in> om_OrgID ` set (ms pk) \<longleftrightarrow> (\<exists>m. m \<in> set (ms pk) \<and> om_OrgID m = oid)" by auto
    also have "\<dots> \<longleftrightarrow> (\<exists>m. map_of (db_members d) (oid, pk) = Some m)"
      unfolding ms_def membership_rows [OF assms] using rows by metis
    finally show ?thesis by simp
  qed
  have same: "IsSameOrg True True pk1 pk2 d = Some (case common_org (ms pk1) (ms pk2) of Some oid \<Rightarrow> (True, oid) | None \<Rightarrow> (False, ''''))"
    by (simp add: IsSameOrg_def GetMembership_def ms_def)
  show ?thesis
  proof (cases "common_org (ms pk1) (ms pk2)")
    case None
    then have "om_OrgID ` set (ms pk1) \<inter> om_OrgID ` set (ms pk2) = {}" by (simp add: common_org_iff(2))
    then have "map_of (db_members d) (oid, pk1) = None \<or> map_of (db_members d) (oid, pk2) = None" for oid
      using orgs [of oid pk1] orgs [of oid pk2] by blast
    then show ?thesis using same None by simp
  next
    case (Some oid)
    then show ?thesis using common_org_iff(1) [OF Some] orgs [of oid] same by auto
  qed
qed

lemma same_org_is_a_common_membership_witness:
  "\<exists>oid. IsSameOrg True True ''a'' ''b'' (acme\<lparr>db_members := [((''acme'', ''a''), sample_member ''a''), ((''acme'', ''b''), sample_member ''b'')]\<rparr>) = Some (True, oid)"
proof -
  let ?d = "acme\<lparr>db_members := [((''acme'', ''a''), sample_member ''a''), ((''acme'', ''b''), sample_member ''b'')]\<rparr>"
  have "org_schema ?d"
    by (simp add: org_schema_def table_ok_def org_row_ok_def member_row_ok_def acme_def sample_org_def sample_member_def known_def in_i32_def)
  from same_org_is_a_common_membership [OF this, of "''a''" "''b''"] show ?thesis
  proof (elim disjE exE conjE)
    assume "\<forall>oid. map_of (db_members ?d) (oid, ''a'') = None \<or> map_of (db_members ?d) (oid, ''b'') = None"
    from spec [OF this, of "''acme''"] show ?thesis by simp
  qed blast
qed

text \<open>A trust depth of \<open>2^32 + 3\<close> is stored as 3: the conversion to 32 bits drops the rest.\<close>

theorem organization_depth_wraps:
  "map_option os_max_trust_depth (map_of (db_settings (snd (SaveOrgSettings True \<lparr>ot_OrgID = ''acme'', ot_InternalRelayOnly = False,
     ot_SharedOutbox = False, ot_WoTBaseline = Some \<lparr>wc_BlockedPubkeys = None, wc_TrustedPubkeys = None,
     wc_MaxTrustDepth = Some 4294967299, wc_MinPowBits = None, wc_TrustAnchor = ''''\<rparr>\<rparr> acme))) ''acme'') = Some (Some 3)"
  by (simp add: SaveOrgSettings_def acme_def i32_def)

end
