(* ===== verification/Nip_Formats.thy ===== *)
theory Nip_Formats
  imports Complex_Main Relay_Config Haven_Router
begin

text \<open>
  Readers and writers of small event formats: labels (internal/labels, NIP-32), polls (internal/polls, NIP-88),
  trusted assertions (internal/trust, NIP-85), external references (internal/external, NIP-73) and the kinds of lists
  (internal/lists, NIP-51). A reader walks the tags and updates a record; a writer lists tags. The clock
  is an argument of the writers, and what they leave to the signer (id and signature) is empty.
\<close>

section \<open>Shared pieces\<close>

definition new_event :: "int \<Rightarrow> string \<Rightarrow> int \<Rightarrow> string \<Rightarrow> tag list \<Rightarrow> event" where
  "new_event kind pk created content ts = \<lparr>ev_id = '''', ev_pubkey = pk, ev_created_at = created, ev_kind = kind, ev_tags = ts, ev_content = content\<rparr>"

text \<open>\<open>if v != "" { tags = append(tags, Tag{name, v}) }\<close>\<close>

definition opt_tag :: "string \<Rightarrow> string \<Rightarrow> tag list" where
  "opt_tag name v = (if v \<noteq> '''' then [[name, v]] else [])"

text \<open>A reader: one switch on the name of every tag with a value, folded over the tags.\<close>

definition read_tags :: "(string \<Rightarrow> string \<Rightarrow> string list \<Rightarrow> 'r \<Rightarrow> 'r) \<Rightarrow> tag list \<Rightarrow> 'r \<Rightarrow> 'r" where
  "read_tags switch ts r = fold (\<lambda>t r. case t of n # v # rest \<Rightarrow> switch n v rest r | _ \<Rightarrow> r) ts r"

lemma read_tags_simps [simp]:
  "read_tags sw [] r = r"
  "read_tags sw ((n # v # rest) # ts) r = read_tags sw ts (sw n v rest r)"
  "read_tags sw ([n] # ts) r = read_tags sw ts r"
  "read_tags sw ([] # ts) r = read_tags sw ts r"
  "read_tags sw (ts @ us) r = read_tags sw us (read_tags sw ts r)"
  by (simp_all add: read_tags_def)

lemma read_opt_tag: "read_tags sw (opt_tag n v) r = (if v \<noteq> '''' then sw n v [] r else r)"
  by (simp add: opt_tag_def)

text \<open>A list of values written one tag each, read by a switch that appends.\<close>

lemma read_tag_list:
  assumes "\<And>x r. x \<in> set xs \<Longrightarrow> sw (fst (f x)) (fst (snd (f x))) (snd (snd (f x))) r = add (g x) r"
    and "\<And>y z r. add z (add y r) = add (y @ z) r" "\<And>r. add [] r = r"
  shows "read_tags sw (map (\<lambda>x. fst (f x) # fst (snd (f x)) # snd (snd (f x))) xs) r = add (concat (map g xs)) r"
  using assms(1)
proof (induction xs arbitrary: r)
  case Nil
  then show ?case by (simp add: assms(3))
next
  case (Cons x xs)
  from Cons.IH [of "add (g x) r"] Cons.prems show ?case by (simp add: assms(2))
qed

section \<open>Labels\<close>

record Label =
  lb_Value :: string
  lb_Namespace :: string

record label_target =
  tg_Type :: string
  tg_ID :: string
  tg_RelayHint :: string

definition KindLabel :: int where "KindLabel = 1985"

definition IsLabelEvent :: "event \<Rightarrow> bool" where
  "IsLabelEvent ev \<longleftrightarrow> ev_kind ev = KindLabel"

definition GetNamespaces :: "tag list \<Rightarrow> string list" where
  "GetNamespaces ts = all_tags ts ''L''"

fun GetLabels :: "tag list \<Rightarrow> Label list" where
  "GetLabels [] = []"
| "GetLabels ((n # v # rest) # ts) =
     (if n = ''l'' then \<lparr>lb_Value = v, lb_Namespace = (case rest of [] \<Rightarrow> '''' | ns # _ \<Rightarrow> ns)\<rparr> # GetLabels ts else GetLabels ts)"
| "GetLabels (_ # ts) = GetLabels ts"

definition target_names :: "string list" where
  "target_names = [''e'', ''p'', ''a'', ''r'', ''t'']"

fun GetTargets :: "tag list \<Rightarrow> label_target list" where
  "GetTargets [] = []"
| "GetTargets ((n # v # rest) # ts) =
     (if n \<in> set target_names
      then \<lparr>tg_Type = n, tg_ID = v,
            tg_RelayHint = (case rest of [] \<Rightarrow> '''' | h # _ \<Rightarrow> if n \<noteq> ''t'' then h else '''')\<rparr> # GetTargets ts
      else GetTargets ts)"
| "GetTargets (_ # ts) = GetTargets ts"

fun HasLabel :: "tag list \<Rightarrow> string \<Rightarrow> string \<Rightarrow> bool" where
  "HasLabel [] v ns = False"
| "HasLabel ((n # x # y # rest) # ts) v ns = ((n = ''l'' \<and> x = v \<and> y = ns) \<or> HasLabel ts v ns)"
| "HasLabel (_ # ts) v ns = HasLabel ts v ns"

definition HasNamespace :: "tag list \<Rightarrow> string \<Rightarrow> bool" where
  "HasNamespace ts ns = has_tag ts ''L'' ns"

definition IsModerationLabel :: "tag list \<Rightarrow> bool" where
  "IsModerationLabel ts \<longleftrightarrow> HasNamespace ts ''relay/moderation'' \<or> HasNamespace ts ''ugc''"

definition GetModerationLabels :: "tag list \<Rightarrow> string list" where
  "GetModerationLabels ts =
     filter (\<lambda>v. v \<in> set [''spam'', ''nsfw'', ''adult'', ''gore'', ''abuse'', ''illegal'', ''impersonation'', ''bot'']) (map lb_Value (GetLabels ts))"

definition TargetsEvent :: "tag list \<Rightarrow> string \<Rightarrow> bool" where
  "TargetsEvent ts i = list_ex (\<lambda>t. tg_Type t = ''e'' \<and> tg_ID t = i) (GetTargets ts)"

definition TargetsPubkey :: "tag list \<Rightarrow> string \<Rightarrow> bool" where
  "TargetsPubkey ts pk = list_ex (\<lambda>t. tg_Type t = ''p'' \<and> tg_ID t = pk) (GetTargets ts)"

text \<open>The namespaces in the order in which the labels first use them.\<close>

fun first_uses :: "string list \<Rightarrow> string list \<Rightarrow> string list" where
  "first_uses seen [] = []"
| "first_uses seen (n # ns) = (if n \<noteq> '''' \<and> n \<notin> set seen then n # first_uses (n # seen) ns else first_uses seen ns)"

definition label_tag :: "Label \<Rightarrow> tag" where
  "label_tag l = (if lb_Namespace l \<noteq> '''' then [''l'', lb_Value l, lb_Namespace l] else [''l'', lb_Value l])"

definition target_tag :: "label_target \<Rightarrow> tag" where
  "target_tag t = (if tg_RelayHint t \<noteq> '''' then [tg_Type t, tg_ID t, tg_RelayHint t] else [tg_Type t, tg_ID t])"

definition CreateLabelEvent :: "int \<Rightarrow> string \<Rightarrow> Label list \<Rightarrow> label_target list \<Rightarrow> event" where
  "CreateLabelEvent now pk ls tgs =
     new_event KindLabel pk now '''' (map (\<lambda>n. [''L'', n]) (first_uses [] (map lb_Namespace ls)) @ map label_tag ls @ map target_tag tgs)"

section \<open>Polls\<close>

record PollOption =
  po_Index :: int
  po_Label :: string

record Poll =
  pl_ID :: string
  pl_Question :: string
  pl_Options :: "PollOption list"
  pl_ClosedAt :: int
  pl_MinChoices :: int
  pl_MaxChoices :: int

definition KindPoll :: int where "KindPoll = 1068"
definition KindPollResponse :: int where "KindPollResponse = 1018"

definition poll_switch :: "string \<Rightarrow> string \<Rightarrow> string list \<Rightarrow> Poll \<Rightarrow> Poll" where
  "poll_switch n v rest p =
     (if n = ''poll_option''
      then (case rest of [] \<Rightarrow> p
            | l # _ \<Rightarrow> (case Atoi v of None \<Rightarrow> p | Some i \<Rightarrow> p\<lparr>pl_Options := pl_Options p @ [\<lparr>po_Index = i, po_Label = l\<rparr>]\<rparr>))
      else if n = ''closed_at'' then (case ParseInt64 v of None \<Rightarrow> p | Some t \<Rightarrow> p\<lparr>pl_ClosedAt := t\<rparr>)
      else if n = ''min_choices'' then (case Atoi v of None \<Rightarrow> p | Some i \<Rightarrow> p\<lparr>pl_MinChoices := i\<rparr>)
      else if n = ''max_choices'' then (case Atoi v of None \<Rightarrow> p | Some i \<Rightarrow> p\<lparr>pl_MaxChoices := i\<rparr>)
      else p)"

definition ParsePoll :: "event \<Rightarrow> Poll option" where
  "ParsePoll ev =
     (if ev_kind ev \<noteq> KindPoll then None
      else Some (read_tags poll_switch (ev_tags ev)
        \<lparr>pl_ID = ev_id ev, pl_Question = ev_content ev, pl_Options = [], pl_ClosedAt = 0, pl_MinChoices = 1, pl_MaxChoices = 1\<rparr>))"

definition CreatePollEvent :: "int \<Rightarrow> string \<Rightarrow> Poll \<Rightarrow> event" where
  "CreatePollEvent now pk p =
     new_event KindPoll pk now (pl_Question p)
       (map (\<lambda>c. [''poll_option'', fmt_d (po_Index c), po_Label c]) (pl_Options p)
        @ (if pl_ClosedAt p > 0 then [[''closed_at'', fmt_d (pl_ClosedAt p)]] else [])
        @ (if pl_MinChoices p \<noteq> 1 then [[''min_choices'', fmt_d (pl_MinChoices p)]] else [])
        @ (if pl_MaxChoices p \<noteq> 1 then [[''max_choices'', fmt_d (pl_MaxChoices p)]] else []))"

record PollResponse =
  pr_PollID :: string
  pr_PollRef :: string
  pr_Selections :: "int list"

definition response_switch :: "string \<Rightarrow> string \<Rightarrow> string list \<Rightarrow> PollResponse \<Rightarrow> PollResponse" where
  "response_switch n v rest r =
     (if n = ''e'' then r\<lparr>pr_PollID := v\<rparr>
      else if n = ''a'' then r\<lparr>pr_PollRef := v\<rparr>
      else if n = ''response'' then (case Atoi v of None \<Rightarrow> r | Some i \<Rightarrow> r\<lparr>pr_Selections := pr_Selections r @ [i]\<rparr>)
      else r)"

definition ParsePollResponse :: "event \<Rightarrow> PollResponse option" where
  "ParsePollResponse ev =
     (if ev_kind ev \<noteq> KindPollResponse then None
      else Some (read_tags response_switch (ev_tags ev) \<lparr>pr_PollID = '''', pr_PollRef = '''', pr_Selections = []\<rparr>))"

definition CreatePollResponseEvent :: "int \<Rightarrow> string \<Rightarrow> PollResponse \<Rightarrow> event" where
  "CreatePollResponseEvent now pk r =
     new_event KindPollResponse pk now ''''
       (opt_tag ''e'' (pr_PollID r) @ opt_tag ''a'' (pr_PollRef r) @ map (\<lambda>i. [''response'', fmt_d i]) (pr_Selections r))"

definition IsPollKind :: "int \<Rightarrow> bool" where
  "IsPollKind k \<longleftrightarrow> k = KindPoll \<or> k = KindPollResponse"

definition ValidateResponse :: "Poll \<Rightarrow> PollResponse \<Rightarrow> bool" where
  "ValidateResponse p r =
     (if int (length (pr_Selections r)) < pl_MinChoices p then False
      else if int (length (pr_Selections r)) > pl_MaxChoices p then False
      else list_all (\<lambda>s. s \<in> set (map po_Index (pl_Options p))) (pr_Selections r))"

section \<open>Trusted assertions\<close>

text \<open>The kinds and tags a provider is trusted for and the confidence of an assertion (a \<open>float64\<close>, here a rational) are
  fields that no function of the package reads or writes.\<close>

record TrustProvider =
  tp_Pubkey :: string
  tp_RelayHint :: string
  tp_Kinds :: "int list"
  tp_Tags :: "string list"

record TrustAssertion =
  ta_ProviderPubkey :: string
  ta_TargetPubkey :: string
  ta_TargetEventID :: string
  ta_AssertionType :: string
  ta_Confidence :: rat
  ta_Reason :: string

definition KindTrustedProviders :: int where "KindTrustedProviders = 10040"
definition KindTrustAssertion :: int where "KindTrustAssertion = 30040"

definition provider_switch :: "string \<Rightarrow> string \<Rightarrow> string list \<Rightarrow> TrustProvider list \<Rightarrow> TrustProvider list" where
  "provider_switch n v rest ps =
     (if n = ''p'' then ps @ [\<lparr>tp_Pubkey = v, tp_RelayHint = (case rest of [] \<Rightarrow> '''' | h # _ \<Rightarrow> h), tp_Kinds = [], tp_Tags = []\<rparr>] else ps)"

text \<open>\<open>None\<close> is the nil slice an event of another kind gives.\<close>

definition ParseTrustedProviders :: "event \<Rightarrow> TrustProvider list option" where
  "ParseTrustedProviders ev = (if ev_kind ev \<noteq> KindTrustedProviders then None else Some (read_tags provider_switch (ev_tags ev) []))"

definition CreateTrustedProvidersEvent :: "int \<Rightarrow> string \<Rightarrow> TrustProvider list \<Rightarrow> event" where
  "CreateTrustedProvidersEvent now pk ps =
     new_event KindTrustedProviders pk now ''''
       (map (\<lambda>p. if tp_RelayHint p \<noteq> '''' then [''p'', tp_Pubkey p, tp_RelayHint p] else [''p'', tp_Pubkey p]) ps)"

definition assertion_switch :: "string \<Rightarrow> string \<Rightarrow> string list \<Rightarrow> TrustAssertion \<Rightarrow> TrustAssertion" where
  "assertion_switch n v rest a =
     (if n = ''p'' then a\<lparr>ta_TargetPubkey := v\<rparr>
      else if n = ''e'' then a\<lparr>ta_TargetEventID := v\<rparr>
      else if n = ''d'' then a\<lparr>ta_AssertionType := v\<rparr>
      else if n = ''assertion'' then a\<lparr>ta_AssertionType := v\<rparr>
      else if n = ''reason'' then a\<lparr>ta_Reason := v\<rparr>
      else a)"

definition ParseTrustAssertion :: "event \<Rightarrow> TrustAssertion option" where
  "ParseTrustAssertion ev =
     (if ev_kind ev \<noteq> KindTrustAssertion then None
      else Some (read_tags assertion_switch (ev_tags ev)
        \<lparr>ta_ProviderPubkey = ev_pubkey ev, ta_TargetPubkey = '''', ta_TargetEventID = '''', ta_AssertionType = '''', ta_Confidence = 0, ta_Reason = ''''\<rparr>))"

definition CreateTrustAssertionEvent :: "int \<Rightarrow> string \<Rightarrow> TrustAssertion \<Rightarrow> event" where
  "CreateTrustAssertionEvent now pk a =
     new_event KindTrustAssertion pk now ''''
       (opt_tag ''d'' (ta_AssertionType a) @ opt_tag ''p'' (ta_TargetPubkey a) @ opt_tag ''e'' (ta_TargetEventID a)
        @ opt_tag ''assertion'' (ta_AssertionType a) @ opt_tag ''reason'' (ta_Reason a))"

definition IsTrustKind :: "int \<Rightarrow> bool" where
  "IsTrustKind k \<longleftrightarrow> k = KindTrustedProviders \<or> k = KindTrustAssertion"

definition IsTrustedProvider :: "TrustProvider list \<Rightarrow> string \<Rightarrow> bool" where
  "IsTrustedProvider ps pk = list_ex (\<lambda>p. tp_Pubkey p = pk) ps"

section \<open>External references\<close>

record ExternalRef =
  xr_Type :: string
  xr_ID :: string
  xr_Platform :: string

definition CommonExternalTypes :: "string list" where
  "CommonExternalTypes = [''isbn'', ''doi'', ''isan'', ''podcast:guid'', ''podcast:item:guid'', ''imdb'', ''tmdb'', ''spotify'',
     ''musicbrainz'', ''openlibrary'']"

text \<open>\<open>strings.SplitN(value, ":", 2)\<close> has two parts exactly when there is a colon.\<close>

definition parseITag :: "string \<Rightarrow> ExternalRef option" where
  "parseITag v =
     (case dropWhile (\<lambda>c. c \<noteq> CHR '':'') v of
        [] \<Rightarrow> None
      | _ # i \<Rightarrow> Some \<lparr>xr_Type = takeWhile (\<lambda>c. c \<noteq> CHR '':'') v, xr_ID = i, xr_Platform = ''''\<rparr>)"

definition FormatITag :: "ExternalRef \<Rightarrow> string" where
  "FormatITag r = xr_Type r @ '':'' @ xr_ID r"

definition ParseExternalRefs :: "event \<Rightarrow> ExternalRef list" where
  "ParseExternalRefs ev = List.map_filter parseITag (all_tags (ev_tags ev) ''i'')"

definition AddExternalRef :: "event \<Rightarrow> ExternalRef \<Rightarrow> event" where
  "AddExternalRef ev r = ev\<lparr>ev_tags := ev_tags ev @ [[''i'', FormatITag r]]\<rparr>"

definition ParseKTags :: "event \<Rightarrow> string list" where
  "ParseKTags ev = all_tags (ev_tags ev) ''k''"

definition IsValidISBN :: "string \<Rightarrow> bool" where
  "IsValidISBN s \<longleftrightarrow> (let cleaned = filter (\<lambda>c. c \<noteq> CHR '' '') (filter (\<lambda>c. c \<noteq> CHR ''-'') s) in length cleaned = 10 \<or> length cleaned = 13)"

definition IsValidDOI :: "string \<Rightarrow> bool" where
  "IsValidDOI s \<longleftrightarrow> HasPrefix s ''10.'' \<and> CHR ''/'' \<in> set s"

fun IsExternalRefTag :: "tag \<Rightarrow> bool" where
  "IsExternalRefTag (n # v # rest) = (n = ''i'')"
| "IsExternalRefTag _ = False"

definition GetRefsOfType :: "ExternalRef list \<Rightarrow> string \<Rightarrow> ExternalRef list" where
  "GetRefsOfType rs ty = filter (\<lambda>r. xr_Type r = ty) rs"

section \<open>Kinds of lists\<close>

definition lists_PrivateKinds :: "int list" where
  "lists_PrivateKinds = [10000, 10003, 10006, 30000, 30001, 30003]"

definition lists_PublicKinds :: "int list" where
  "lists_PublicKinds = [10001, 10002, 10004, 10005, 10007, 10015, 10030, 30002]"

definition lists_AllKinds :: "int list" where
  "lists_AllKinds = lists_PrivateKinds @ lists_PublicKinds"

definition IsListKind :: "int \<Rightarrow> bool" where
  "IsListKind k \<longleftrightarrow> k \<in> {10000, 10001, 10002, 10003, 10004, 10005, 10006, 10007, 10015, 10030, 30000, 30001, 30002, 30003}"

definition IsPrivateListKind :: "int \<Rightarrow> bool" where
  "IsPrivateListKind k \<longleftrightarrow> k \<in> {10000, 10003, 10006, 30000, 30001, 30003}"

definition IsReplaceableListKind :: "int \<Rightarrow> bool" where
  "IsReplaceableListKind k \<longleftrightarrow> k \<ge> 10000 \<and> k < 20000 \<and> IsListKind k"

definition IsParameterizedListKind :: "int \<Rightarrow> bool" where
  "IsParameterizedListKind k \<longleftrightarrow> k \<ge> 30000 \<and> k < 40000 \<and> IsListKind k"

definition KindName :: "int \<Rightarrow> string" where
  "KindName k =
     (if k = 10000 then ''Mute List'' else if k = 10001 then ''Pin List'' else if k = 10002 then ''Relay List''
      else if k = 10003 then ''Bookmark List'' else if k = 10004 then ''Communities List'' else if k = 10005 then ''Public Chats List''
      else if k = 10006 then ''Blocked Relays List'' else if k = 10007 then ''Search Relays List''
      else if k = 10015 then ''Interests List'' else if k = 10030 then ''Emoji List'' else if k = 30000 then ''Categorized People List''
      else if k = 30001 then ''Categorized Bookmark List'' else if k = 30002 then ''Relay Sets'' else if k = 30003 then ''Bookmark Sets''
      else ''Unknown List'')"


section \<open>Facts\<close>

lemma GetLabels_append [simp]: "GetLabels (ts @ us) = GetLabels ts @ GetLabels us"
  by (induction ts rule: GetLabels.induct) simp_all

lemma GetTargets_append [simp]: "GetTargets (ts @ us) = GetTargets ts @ GetTargets us"
  by (induction ts rule: GetTargets.induct) simp_all

lemma GetLabels_written:
  "GetLabels (map (\<lambda>n. [''L'', n]) ns) = []" "GetLabels (map label_tag ls) = ls"
proof -
  show "GetLabels (map (\<lambda>n. [''L'', n]) ns) = []" by (induction ns) simp_all
  show "GetLabels (map label_tag ls) = ls" by (induction ls) (simp_all add: label_tag_def)
qed

lemma label_tags_name: "GetTargets (map (\<lambda>n. [''L'', n]) ns) = []" "GetTargets (map label_tag ls) = []"
  "all_tags (map (\<lambda>n. [''L'', n]) ns) ''L'' = ns" "all_tags (map label_tag ls) ''L'' = []"
proof -
  show "GetTargets (map (\<lambda>n. [''L'', n]) ns) = []" by (induction ns) (simp_all add: target_names_def)
  show "GetTargets (map label_tag ls) = []" by (induction ls) (simp_all add: label_tag_def target_names_def)
  show "all_tags (map (\<lambda>n. [''L'', n]) ns) ''L'' = ns" by (induction ns) simp_all
  show "all_tags (map label_tag ls) ''L'' = []" by (induction ls) (simp_all add: label_tag_def)
qed

definition target_ok :: "label_target \<Rightarrow> bool" where
  "target_ok t \<longleftrightarrow> tg_Type t \<in> set target_names \<and> (tg_Type t = ''t'' \<longrightarrow> tg_RelayHint t = '''')"

lemma target_tags:
  assumes "list_all target_ok tgs"
  shows "GetLabels (map target_tag tgs) = []" "GetTargets (map target_tag tgs) = tgs" "all_tags (map target_tag tgs) ''L'' = []"
  using assms
proof (induction tgs)
  case (Cons t tgs)
  {
    case 1
    with Cons show ?case by (auto simp: target_tag_def target_ok_def target_names_def)
  next
    case 2
    with Cons show ?case by (cases t) (auto simp: target_tag_def target_ok_def)
  next
    case 3
    with Cons show ?case by (auto simp: target_tag_def target_ok_def target_names_def)
  }
qed simp_all

lemma first_uses_spec: "set (first_uses seen ns) = set ns - set seen - {''''} \<and> distinct (first_uses seen ns) \<and> set (first_uses seen ns) \<inter> set seen = {}"
  by (induction seen ns rule: first_uses.induct) auto

lemma read_options:
  assumes "list_all (\<lambda>c. in_i64 (po_Index c)) cs"
  shows "read_tags poll_switch (map (\<lambda>c. [''poll_option'', fmt_d (po_Index c), po_Label c]) cs) p = p\<lparr>pl_Options := pl_Options p @ cs\<rparr>"
  using assms
proof (induction cs arbitrary: p)
  case (Cons c cs)
  then show ?case by (cases c) (simp add: poll_switch_def ParseInt64_fmt_d)
qed simp

lemma read_selections:
  assumes "list_all in_i64 is"
  shows "read_tags response_switch (map (\<lambda>i. [''response'', fmt_d i]) is) r = r\<lparr>pr_Selections := pr_Selections r @ is\<rparr>"
  using assms
proof (induction "is" arbitrary: r)
  case (Cons i "is")
  then show ?case by (simp add: response_switch_def ParseInt64_fmt_d)
qed simp

section \<open>Properties\<close>

text \<open>A label event that the writer makes is read back as it was meant: the same labels, the same targets, and
  as namespaces exactly those of the labels, each once. The proviso is that targets are of the five kinds the reader
  knows and topics carry no relay hint.\<close>

theorem label_roundtrip:
  assumes "list_all target_ok tgs" "ev = CreateLabelEvent now pk ls tgs"
  shows "IsLabelEvent ev \<and> GetLabels (ev_tags ev) = ls \<and> GetTargets (ev_tags ev) = tgs \<and>
    distinct (GetNamespaces (ev_tags ev)) \<and> set (GetNamespaces (ev_tags ev)) = set (map lb_Namespace ls) - {''''}"
  using first_uses_spec [of "[]" "map lb_Namespace ls"] target_tags [OF assms(1)] assms(2)
  by (simp add: CreateLabelEvent_def new_event_def IsLabelEvent_def GetNamespaces_def GetLabels_written label_tags_name)

lemma label_roundtrip_witness:
  "GetLabels (ev_tags (CreateLabelEvent 0 ''alice'' [\<lparr>lb_Value = ''spam'', lb_Namespace = ''ugc''\<rparr>]
     [\<lparr>tg_Type = ''e'', tg_ID = ''x'', tg_RelayHint = ''''\<rparr>])) = [\<lparr>lb_Value = ''spam'', lb_Namespace = ''ugc''\<rparr>]"
  using label_roundtrip [of "[\<lparr>tg_Type = ''e'', tg_ID = ''x'', tg_RelayHint = ''''\<rparr>]" _ 0 "''alice''" "[\<lparr>lb_Value = ''spam'', lb_Namespace = ''ugc''\<rparr>]", OF _ refl]
  by (simp add: target_ok_def target_names_def)

text \<open>A poll that the writer makes is read back unchanged, options in their order and numbers in decimal, up to the
  identifier, which is the event's own; so is a response to it.\<close>

theorem poll_roundtrip:
  assumes "list_all (\<lambda>c. in_i64 (po_Index c)) (pl_Options p)" "0 \<le> pl_ClosedAt p" "in_i64 (pl_ClosedAt p)"
    and "in_i64 (pl_MinChoices p)" "in_i64 (pl_MaxChoices p)" "list_all in_i64 (pr_Selections r)"
  shows "ParsePoll (CreatePollEvent now pk p) = Some (p\<lparr>pl_ID := ''''\<rparr>) \<and>
    ParsePollResponse (CreatePollResponseEvent now pk r) = Some r"
proof
  show "ParsePoll (CreatePollEvent now pk p) = Some (p\<lparr>pl_ID := ''''\<rparr>)"
    using assms(1-5) by (cases p) (simp add: ParsePoll_def CreatePollEvent_def new_event_def read_options poll_switch_def ParseInt64_fmt_d)
  show "ParsePollResponse (CreatePollResponseEvent now pk r) = Some r"
    using assms(6) by (cases r) (simp add: ParsePollResponse_def CreatePollResponseEvent_def new_event_def read_opt_tag
        read_selections response_switch_def)
qed


definition lunch_poll :: Poll where
  "lunch_poll = \<lparr>pl_ID = '''', pl_Question = ''lunch?'', pl_Options = [\<lparr>po_Index = 0, po_Label = ''soup''\<rparr>, \<lparr>po_Index = 1, po_Label = ''rice''\<rparr>],
     pl_ClosedAt = 0, pl_MinChoices = 2, pl_MaxChoices = 2\<rparr>"

lemma poll_roundtrip_witness:
  "ParsePoll (CreatePollEvent 5 ''alice'' lunch_poll) = Some lunch_poll \<and>
   ParsePollResponse (CreatePollResponseEvent 6 ''bob'' \<lparr>pr_PollID = ''p'', pr_PollRef = '''', pr_Selections = [0, 1]\<rparr>)
     = Some \<lparr>pr_PollID = ''p'', pr_PollRef = '''', pr_Selections = [0, 1]\<rparr>"
  using poll_roundtrip [of lunch_poll "\<lparr>pr_PollID = ''p'', pr_PollRef = '''', pr_Selections = [0, 1]\<rparr>"]
  by (simp add: lunch_poll_def in_i64_def)

text \<open>A valid response need not make as many different choices as the poll asks for: a repeated choice counts
  again.\<close>

theorem repeated_choice_counts_twice:
  "pl_MinChoices lunch_poll = 2 \<and> ValidateResponse lunch_poll \<lparr>pr_PollID = ''p'', pr_PollRef = '''', pr_Selections = [0, 0]\<rparr>"
  by (simp add: lunch_poll_def ValidateResponse_def)

text \<open>Provider lists and assertions are read back as written, save what a provider is trusted for and the confidence of an
  assertion, which are not written.\<close>

theorem trust_roundtrip:
  "ParseTrustedProviders (CreateTrustedProvidersEvent now pk ps) = Some (map (\<lambda>p. p\<lparr>tp_Kinds := [], tp_Tags := []\<rparr>) ps) \<and>
   ParseTrustAssertion (CreateTrustAssertionEvent now (ta_ProviderPubkey a) a) = Some (a\<lparr>ta_Confidence := 0\<rparr>)"
proof
  have "read_tags provider_switch (map (\<lambda>p. if tp_RelayHint p \<noteq> '''' then [''p'', tp_Pubkey p, tp_RelayHint p] else [''p'', tp_Pubkey p]) ps) qs
      = qs @ map (\<lambda>p. p\<lparr>tp_Kinds := [], tp_Tags := []\<rparr>) ps" for qs
    by (induction ps arbitrary: qs) (simp_all add: provider_switch_def)
  then show "ParseTrustedProviders (CreateTrustedProvidersEvent now pk ps) = Some (map (\<lambda>p. p\<lparr>tp_Kinds := [], tp_Tags := []\<rparr>) ps)"
    by (simp add: ParseTrustedProviders_def CreateTrustedProvidersEvent_def new_event_def)
  show "ParseTrustAssertion (CreateTrustAssertionEvent now (ta_ProviderPubkey a) a) = Some (a\<lparr>ta_Confidence := 0\<rparr>)"
    by (cases a) (simp add: ParseTrustAssertion_def CreateTrustAssertionEvent_def new_event_def read_opt_tag assertion_switch_def)
qed

text \<open>An external reference is read back as written, without its platform, exactly when its type has no colon.\<close>

theorem external_ref_roundtrip:
  "parseITag (FormatITag r) = Some (r\<lparr>xr_Platform := ''''\<rparr>) \<longleftrightarrow> CHR '':'' \<notin> set (xr_Type r)"
proof (cases "CHR '':'' \<in> set (xr_Type r)")
  case False
  then have colon: "\<And>x. x \<in> set (xr_Type r) \<Longrightarrow> x \<noteq> CHR '':''" by auto
  have "takeWhile (\<lambda>c. c \<noteq> CHR '':'') (FormatITag r) = xr_Type r"
    unfolding FormatITag_def by (subst takeWhile_append2) (simp_all add: colon)
  moreover have "dropWhile (\<lambda>c. c \<noteq> CHR '':'') (FormatITag r) = '':'' @ xr_ID r"
    unfolding FormatITag_def by (subst dropWhile_append2) (simp_all add: colon)
  ultimately show ?thesis using False by (cases r) (simp add: parseITag_def)
next
  case True
  have "CHR '':'' \<notin> set (takeWhile (\<lambda>c. c \<noteq> CHR '':'') (FormatITag r))"
    by (metis (mono_tags, lifting) set_takeWhileD)
  with True show ?thesis by (cases r) (auto simp: parseITag_def split: list.split)
qed

text \<open>Two of the package's own types have one, so its own filter by type never finds a podcast it has written.\<close>

theorem podcasts_are_never_found:
  "''podcast:guid'' \<in> set CommonExternalTypes \<and>
   GetRefsOfType (ParseExternalRefs (AddExternalRef (new_event 1 pk now '''' []) \<lparr>xr_Type = ''podcast:guid'', xr_ID = ''42'', xr_Platform = ''''\<rparr>)) ''podcast:guid'' = []"
  by (simp add: CommonExternalTypes_def GetRefsOfType_def ParseExternalRefs_def AddExternalRef_def new_event_def FormatITag_def
      parseITag_def List.map_filter_def)

text \<open>The lists of kinds and the predicates on kinds agree, the kinds are either replaceable or addressable, and every list
  that is meant to be private is a private kind of HAVEN.\<close>

theorem list_kinds_consistent:
  "(IsListKind k \<longleftrightarrow> k \<in> set lists_AllKinds) \<and> (IsPrivateListKind k \<longleftrightarrow> k \<in> set lists_PrivateKinds) \<and>
   (IsListKind k \<longleftrightarrow> KindName k \<noteq> ''Unknown List'') \<and> (IsListKind k \<longleftrightarrow> IsReplaceableListKind k \<noteq> IsParameterizedListKind k) \<and>
   set lists_PrivateKinds \<subseteq> set DefaultPrivateKinds \<and> set lists_PublicKinds \<inter> set lists_PrivateKinds = {}"
  by (auto simp: IsListKind_def lists_AllKinds_def lists_PrivateKinds_def lists_PublicKinds_def IsPrivateListKind_def
      KindName_def IsReplaceableListKind_def IsParameterizedListKind_def DefaultPrivateKinds_def)

end
