(* ===== verification/Calendar_Communities.thy ===== *)
theory Calendar_Communities
  imports Nip_Formats
begin

text \<open>
  internal/calendar (NIP-52) and internal/communities (NIP-72): calendar events, RSVPs and collections; community
  definitions and approvals. A \<open>time.Time\<close> is either a date at midnight UTC, as \<open>time.Parse\<close> makes it from
  a date, or an instant of the local zone, as \<open>time.Unix\<close> makes it; the zone is a parameter, the local
  date of an instant. The zero time is the first of January of the year 1.
\<close>

section \<open>Dates\<close>

datatype gotime = Date nat nat nat | Instant int

definition zero_time :: gotime where
  "zero_time = Date 1 1 1"

fun IsZero :: "gotime \<Rightarrow> bool" where
  "IsZero (Date y m d) = (y = 1 \<and> m = 1 \<and> d = 1)"
| "IsZero (Instant s) = (s = -62135596800)"

definition leap :: "nat \<Rightarrow> bool" where
  "leap y \<longleftrightarrow> y mod 4 = 0 \<and> (y mod 100 \<noteq> 0 \<or> y mod 400 = 0)"

definition days_in :: "nat \<Rightarrow> nat \<Rightarrow> nat" where
  "days_in y m = (if m = 2 then (if leap y then 29 else 28) else if m \<in> {4, 6, 9, 11} then 30 else 31)"

text \<open>Days from the first of January 1970.\<close>

definition day_number :: "nat \<Rightarrow> nat \<Rightarrow> nat \<Rightarrow> int" where
  "day_number y m d =
     (let p = int y - 1 in 365 * p + p div 4 - p div 100 + p div 400 - 719162 + (\<Sum>k \<leftarrow> [1..<m]. int (days_in y k)) + int d - 1)"

fun go_Unix :: "gotime \<Rightarrow> int" where
  "go_Unix (Date y m d) = day_number y m d * 86400"
| "go_Unix (Instant s) = s"

type_synonym zone = "int \<Rightarrow> nat \<times> nat \<times> nat"

fun civil :: "zone \<Rightarrow> gotime \<Rightarrow> nat \<times> nat \<times> nat" where
  "civil z (Date y m d) = (y, m, d)"
| "civil z (Instant s) = z s"

text \<open>The layout \<open>2006-01-02\<close>, for years of at most four digits.\<close>

definition digit :: "nat \<Rightarrow> char" where
  "digit n = char_of (48 + n mod 10)"

definition FormatDate :: "zone \<Rightarrow> gotime \<Rightarrow> string" where
  "FormatDate z t = (case civil z t of (y, m, d) \<Rightarrow>
     [digit (y div 1000), digit (y div 100), digit (y div 10), digit y, CHR ''-'', digit (m div 10), digit m, CHR ''-'',
      digit (d div 10), digit d])"

definition ParseDate :: "string \<Rightarrow> gotime option" where
  "ParseDate s =
     (case s of
        [a, b, c, e, x, f, g, x', h, i] \<Rightarrow>
          if x = CHR ''-'' \<and> x' = CHR ''-'' then
            (case (digits_value 0 [a, b, c, e], digits_value 0 [f, g], digits_value 0 [h, i]) of
               (Some y, Some m, Some d) \<Rightarrow> if 1 \<le> m \<and> m \<le> 12 \<and> 1 \<le> d \<and> d \<le> days_in y m then Some (Date y m d) else None
             | _ \<Rightarrow> None)
          else None
      | _ \<Rightarrow> None)"

section \<open>Calendar\<close>

definition KindDateEvent :: int where "KindDateEvent = 31922"
definition KindTimeEvent :: int where "KindTimeEvent = 31923"
definition KindCalendar :: int where "KindCalendar = 31924"
definition KindRSVP :: int where "KindRSVP = 31925"

record CalendarEvent =
  ce_ID :: string
  ce_Title :: string
  ce_Summary :: string
  ce_Image :: string
  ce_Location :: string
  ce_Geohash :: string
  ce_Start :: gotime
  ce_End :: gotime
  ce_StartTzid :: string
  ce_EndTzid :: string
  ce_Participants :: "string list"
  ce_Hashtags :: "string list"
  ce_References :: "string list"
  ce_IsDateBased :: bool

definition parse_when :: "bool \<Rightarrow> string \<Rightarrow> gotime option" where
  "parse_when date v = (if date then ParseDate v else map_option Instant (ParseInt64 v))"

definition calendar_switch :: "string \<Rightarrow> string \<Rightarrow> string list \<Rightarrow> CalendarEvent \<Rightarrow> CalendarEvent" where
  "calendar_switch n v rest e =
     (if n = ''d'' then e\<lparr>ce_ID := v\<rparr>
      else if n = ''title'' then e\<lparr>ce_Title := v\<rparr>
      else if n = ''summary'' then e\<lparr>ce_Summary := v\<rparr>
      else if n = ''image'' then e\<lparr>ce_Image := v\<rparr>
      else if n = ''location'' then e\<lparr>ce_Location := v\<rparr>
      else if n = ''g'' then e\<lparr>ce_Geohash := v\<rparr>
      else if n = ''start'' then (case parse_when (ce_IsDateBased e) v of None \<Rightarrow> e | Some t \<Rightarrow> e\<lparr>ce_Start := t\<rparr>)
      else if n = ''end'' then (case parse_when (ce_IsDateBased e) v of None \<Rightarrow> e | Some t \<Rightarrow> e\<lparr>ce_End := t\<rparr>)
      else if n = ''start_tzid'' then e\<lparr>ce_StartTzid := v\<rparr>
      else if n = ''end_tzid'' then e\<lparr>ce_EndTzid := v\<rparr>
      else if n = ''p'' then e\<lparr>ce_Participants := ce_Participants e @ [v]\<rparr>
      else if n = ''t'' then e\<lparr>ce_Hashtags := ce_Hashtags e @ [v]\<rparr>
      else if n = ''r'' then e\<lparr>ce_References := ce_References e @ [v]\<rparr>
      else e)"

definition no_calendar_event :: "bool \<Rightarrow> CalendarEvent" where
  "no_calendar_event date = \<lparr>ce_ID = '''', ce_Title = '''', ce_Summary = '''', ce_Image = '''', ce_Location = '''', ce_Geohash = '''',
     ce_Start = zero_time, ce_End = zero_time, ce_StartTzid = '''', ce_EndTzid = '''', ce_Participants = [], ce_Hashtags = [],
     ce_References = [], ce_IsDateBased = date\<rparr>"

definition ParseCalendarEvent :: "event \<Rightarrow> CalendarEvent option" where
  "ParseCalendarEvent ev =
     (if ev_kind ev \<noteq> KindDateEvent \<and> ev_kind ev \<noteq> KindTimeEvent then None
      else Some (read_tags calendar_switch (ev_tags ev) (no_calendar_event (ev_kind ev = KindDateEvent))))"

definition appendOptionalTags :: "CalendarEvent \<Rightarrow> tag list" where
  "appendOptionalTags e =
     opt_tag ''summary'' (ce_Summary e) @ opt_tag ''image'' (ce_Image e) @ opt_tag ''location'' (ce_Location e)
     @ opt_tag ''g'' (ce_Geohash e) @ map (\<lambda>p. [''p'', p]) (ce_Participants e) @ map (\<lambda>t. [''t'', t]) (ce_Hashtags e)
     @ map (\<lambda>r. [''r'', r]) (ce_References e)"

definition CreateDateEventTags :: "zone \<Rightarrow> CalendarEvent \<Rightarrow> tag list" where
  "CreateDateEventTags z e =
     [[''d'', ce_ID e], [''title'', ce_Title e]]
     @ (if IsZero (ce_Start e) then [] else [[''start'', FormatDate z (ce_Start e)]])
     @ (if IsZero (ce_End e) then [] else [[''end'', FormatDate z (ce_End e)]])
     @ appendOptionalTags e"

definition CreateTimeEventTags :: "zone \<Rightarrow> CalendarEvent \<Rightarrow> tag list" where
  "CreateTimeEventTags z e =
     [[''d'', ce_ID e], [''title'', ce_Title e]]
     @ (if IsZero (ce_Start e) then []
        else [[''start'', fmt_d (go_Unix (ce_Start e))],
              [''D'', fmt_d (case civil z (ce_Start e) of (y, m, d) \<Rightarrow> go_Unix (Date y m d))]])
     @ (if IsZero (ce_End e) then [] else [[''end'', fmt_d (go_Unix (ce_End e))]])
     @ opt_tag ''start_tzid'' (ce_StartTzid e) @ opt_tag ''end_tzid'' (ce_EndTzid e)
     @ appendOptionalTags e"

record RSVP =
  rv_EventRef :: string
  rv_Status :: string
  rv_FreeBusy :: string
  rv_EventID :: string

definition rsvp_switch :: "string \<Rightarrow> string \<Rightarrow> string list \<Rightarrow> RSVP \<Rightarrow> RSVP" where
  "rsvp_switch n v rest r =
     (if n = ''a'' then r\<lparr>rv_EventRef := v\<rparr> else if n = ''e'' then r\<lparr>rv_EventID := v\<rparr>
      else if n = ''status'' then r\<lparr>rv_Status := v\<rparr> else if n = ''fb'' then r\<lparr>rv_FreeBusy := v\<rparr> else r)"

definition ParseRSVP :: "event \<Rightarrow> RSVP option" where
  "ParseRSVP ev =
     (if ev_kind ev \<noteq> KindRSVP then None
      else Some (read_tags rsvp_switch (ev_tags ev) \<lparr>rv_EventRef = '''', rv_Status = '''', rv_FreeBusy = '''', rv_EventID = ''''\<rparr>))"

definition CreateRSVPEvent :: "int \<Rightarrow> string \<Rightarrow> RSVP \<Rightarrow> event" where
  "CreateRSVPEvent now pk r =
     new_event KindRSVP pk now ''''
       ([[''d'', rv_EventRef r]] @ opt_tag ''a'' (rv_EventRef r) @ opt_tag ''e'' (rv_EventID r) @ opt_tag ''status'' (rv_Status r)
        @ opt_tag ''fb'' (rv_FreeBusy r))"

record Calendar =
  cl_ID :: string
  cl_Title :: string
  cl_Summary :: string
  cl_EventRefs :: "string list"

definition collection_switch :: "string \<Rightarrow> string \<Rightarrow> string list \<Rightarrow> Calendar \<Rightarrow> Calendar" where
  "collection_switch n v rest c =
     (if n = ''d'' then c\<lparr>cl_ID := v\<rparr> else if n = ''title'' then c\<lparr>cl_Title := v\<rparr>
      else if n = ''summary'' then c\<lparr>cl_Summary := v\<rparr> else if n = ''a'' then c\<lparr>cl_EventRefs := cl_EventRefs c @ [v]\<rparr> else c)"

definition ParseCalendar :: "event \<Rightarrow> Calendar option" where
  "ParseCalendar ev =
     (if ev_kind ev \<noteq> KindCalendar then None
      else Some (read_tags collection_switch (ev_tags ev) \<lparr>cl_ID = '''', cl_Title = '''', cl_Summary = '''', cl_EventRefs = []\<rparr>))"

definition IsCalendarKind :: "int \<Rightarrow> bool" where
  "IsCalendarKind k \<longleftrightarrow> k \<in> {KindDateEvent, KindTimeEvent, KindCalendar, KindRSVP}"

definition IsValidRSVPStatus :: "string \<Rightarrow> bool" where
  "IsValidRSVPStatus s \<longleftrightarrow> s \<in> {''accepted'', ''declined'', ''tentative''}"

definition IsValidFreeBusy :: "string \<Rightarrow> bool" where
  "IsValidFreeBusy s \<longleftrightarrow> s \<in> {''free'', ''busy''}"

section \<open>Communities\<close>

definition KindCommunityDefinition :: int where "KindCommunityDefinition = 34550"
definition KindCommunityPost :: int where "KindCommunityPost = 1111"
definition KindApproval :: int where "KindApproval = 4550"

record Moderator =
  mo_Pubkey :: string
  mo_RelayHint :: string
  mo_Role :: string

record Community =
  cm_ID :: string
  cm_OwnerPubkey :: string
  cm_Name :: string
  cm_Description :: string
  cm_Image :: string
  cm_ImageDimensions :: string
  cm_Rules :: string
  cm_Moderators :: "Moderator list"
  cm_RelayURLs :: "string list"

text \<open>The loop over a \<open>p\<close> tag: the marker anywhere, the hint at position 2, the last other word from position
  3 on.\<close>

definition read_moderator :: "string \<Rightarrow> string list \<Rightarrow> Moderator option" where
  "read_moderator v rest =
     (if v = ''moderator'' \<or> ''moderator'' \<in> set rest
      then Some \<lparr>mo_Pubkey = v, mo_RelayHint = (case rest of [] \<Rightarrow> '''' | h # _ \<Rightarrow> h),
             mo_Role = fold (\<lambda>w role. if w \<noteq> ''moderator'' \<and> w \<noteq> '''' then w else role) (tl rest) ''''\<rparr>
      else None)"

definition community_switch :: "string \<Rightarrow> string \<Rightarrow> string list \<Rightarrow> Community \<Rightarrow> Community" where
  "community_switch n v rest c =
     (if n = ''d'' then c\<lparr>cm_ID := v\<rparr>
      else if n = ''name'' then c\<lparr>cm_Name := v\<rparr>
      else if n = ''description'' then c\<lparr>cm_Description := v\<rparr>
      else if n = ''image'' then (case rest of [] \<Rightarrow> c\<lparr>cm_Image := v\<rparr> | x # _ \<Rightarrow> c\<lparr>cm_Image := v, cm_ImageDimensions := x\<rparr>)
      else if n = ''rules'' then c\<lparr>cm_Rules := v\<rparr>
      else if n = ''relay'' then c\<lparr>cm_RelayURLs := cm_RelayURLs c @ [v]\<rparr>
      else if n = ''p'' then (case read_moderator v rest of None \<Rightarrow> c | Some m \<Rightarrow> c\<lparr>cm_Moderators := cm_Moderators c @ [m]\<rparr>)
      else c)"

definition ParseCommunityDefinition :: "event \<Rightarrow> Community option" where
  "ParseCommunityDefinition ev =
     (if ev_kind ev \<noteq> KindCommunityDefinition then None
      else Some (read_tags community_switch (ev_tags ev)
        \<lparr>cm_ID = '''', cm_OwnerPubkey = ev_pubkey ev, cm_Name = '''', cm_Description = '''', cm_Image = '''', cm_ImageDimensions = '''',
         cm_Rules = '''', cm_Moderators = [], cm_RelayURLs = []\<rparr>))"

definition moderator_tag :: "Moderator \<Rightarrow> tag" where
  "moderator_tag m = [''p'', mo_Pubkey m, mo_RelayHint m, ''moderator''] @ (if mo_Role m \<noteq> '''' then [mo_Role m] else [])"

definition CreateCommunityDefinitionEvent :: "int \<Rightarrow> Community \<Rightarrow> event" where
  "CreateCommunityDefinitionEvent now c =
     new_event KindCommunityDefinition (cm_OwnerPubkey c) now ''''
       ([[''d'', cm_ID c]] @ opt_tag ''name'' (cm_Name c) @ opt_tag ''description'' (cm_Description c)
        @ (if cm_Image c \<noteq> ''''
           then [if cm_ImageDimensions c \<noteq> '''' then [''image'', cm_Image c, cm_ImageDimensions c] else [''image'', cm_Image c]]
           else [])
        @ opt_tag ''rules'' (cm_Rules c) @ map (\<lambda>u. [''relay'', u]) (cm_RelayURLs c) @ map moderator_tag (cm_Moderators c))"

definition IsCommunityPost :: "event \<Rightarrow> bool" where
  "IsCommunityPost ev \<longleftrightarrow> ev_kind ev = KindCommunityPost \<and> tag_scan (ev_tags ev) ''A'' \<noteq> None"

definition GetCommunityRef :: "event \<Rightarrow> string" where
  "GetCommunityRef ev = first_tag (ev_tags ev) ''A''"

record Approval =
  ap_CommunityRef :: string
  ap_PostID :: string
  ap_PostRef :: string
  ap_AuthorPubkey :: string
  ap_PostKind :: int
  ap_PostJSON :: string

text \<open>The decimal digits of the value, anything else skipped.\<close>

definition loose_number :: "string \<Rightarrow> int" where
  "loose_number v = fold (\<lambda>c k. case digit_of c of None \<Rightarrow> k | Some d \<Rightarrow> i64 (k * 10 + int d)) v 0"

definition approval_switch :: "string \<Rightarrow> string \<Rightarrow> string list \<Rightarrow> Approval \<Rightarrow> Approval" where
  "approval_switch n v rest a =
     (if n = ''a'' then (if length v > 5 \<and> take 5 v = ''34550'' then a\<lparr>ap_CommunityRef := v\<rparr> else a\<lparr>ap_PostRef := v\<rparr>)
      else if n = ''e'' then a\<lparr>ap_PostID := v\<rparr>
      else if n = ''p'' then a\<lparr>ap_AuthorPubkey := v\<rparr>
      else if n = ''k'' then a\<lparr>ap_PostKind := loose_number v\<rparr>
      else a)"

definition ParseApproval :: "event \<Rightarrow> Approval option" where
  "ParseApproval ev =
     (if ev_kind ev \<noteq> KindApproval then None
      else Some (read_tags approval_switch (ev_tags ev)
        \<lparr>ap_CommunityRef = '''', ap_PostID = '''', ap_PostRef = '''', ap_AuthorPubkey = '''', ap_PostKind = 0, ap_PostJSON = ev_content ev\<rparr>))"

text \<open>\<open>string(rune(x))\<close>: the low 32 bits as a signed number, in UTF-8; what is no code point is the replacement
  character.\<close>

definition rune_bytes :: "int \<Rightarrow> string" where
  "rune_bytes x =
     (let r = (x + 2 ^ 31) mod 2 ^ 32 - 2 ^ 31;
          n = (if r < 0 \<or> r > 1114111 \<or> (55296 \<le> r \<and> r \<le> 57343) then 65533 else nat r);
          low = (\<lambda>k. char_of (128 + (n div 64 ^ k) mod 64))
      in if n < 128 then [char_of n]
         else if n < 2048 then [char_of (192 + n div 64), low 0]
         else if n < 65536 then [char_of (224 + n div 64 ^ 2), low 1, low 0]
         else [char_of (240 + n div 64 ^ 3), low 2, low 1, low 0])"

text \<open>\<open>post_json\<close> is the post event as JSON, when there is one.\<close>

definition CreateApprovalEvent :: "int \<Rightarrow> string \<Rightarrow> Approval \<Rightarrow> string option \<Rightarrow> event" where
  "CreateApprovalEvent now pk a post_json =
     new_event KindApproval pk now (case post_json of Some j \<Rightarrow> j | None \<Rightarrow> ap_PostJSON a)
       (opt_tag ''a'' (ap_CommunityRef a) @ opt_tag ''e'' (ap_PostID a) @ opt_tag ''a'' (ap_PostRef a) @ opt_tag ''p'' (ap_AuthorPubkey a)
        @ (if ap_PostKind a > 0 then [[''k'', rune_bytes (i64 (ap_PostKind a + 48))]] else []))"

definition IsCommunityKind :: "int \<Rightarrow> bool" where
  "IsCommunityKind k \<longleftrightarrow> k \<in> {KindCommunityDefinition, KindCommunityPost, KindApproval}"

definition IsModerator :: "Community \<Rightarrow> string \<Rightarrow> bool" where
  "IsModerator c pk \<longleftrightarrow> cm_OwnerPubkey c = pk \<or> list_ex (\<lambda>m. mo_Pubkey m = pk) (cm_Moderators c)"

section \<open>Facts\<close>

lemma read_strings:
  assumes "\<And>v r. sw n v [] r = upd v r"
  shows "read_tags sw (map (\<lambda>v. [n, v]) vs) r = fold upd vs r"
  using assms by (induction vs arbitrary: r) simp_all

lemma fold_participants: "fold (\<lambda>v e. e\<lparr>ce_Participants := ce_Participants e @ [v]\<rparr>) vs e = e\<lparr>ce_Participants := ce_Participants e @ vs\<rparr>"
  by (induction vs arbitrary: e) simp_all

lemma fold_hashtags: "fold (\<lambda>v e. e\<lparr>ce_Hashtags := ce_Hashtags e @ [v]\<rparr>) vs e = e\<lparr>ce_Hashtags := ce_Hashtags e @ vs\<rparr>"
  by (induction vs arbitrary: e) simp_all

lemma fold_references: "fold (\<lambda>v e. e\<lparr>ce_References := ce_References e @ [v]\<rparr>) vs e = e\<lparr>ce_References := ce_References e @ vs\<rparr>"
  by (induction vs arbitrary: e) simp_all

lemma fold_relays: "fold (\<lambda>v c. c\<lparr>cm_RelayURLs := cm_RelayURLs c @ [v]\<rparr>) vs c = c\<lparr>cm_RelayURLs := cm_RelayURLs c @ vs\<rparr>"
  by (induction vs arbitrary: c) simp_all

lemma read_optional_tags:
  "read_tags calendar_switch (appendOptionalTags e) r =
     r\<lparr>ce_Summary := (if ce_Summary e \<noteq> '''' then ce_Summary e else ce_Summary r),
       ce_Image := (if ce_Image e \<noteq> '''' then ce_Image e else ce_Image r),
       ce_Location := (if ce_Location e \<noteq> '''' then ce_Location e else ce_Location r),
       ce_Geohash := (if ce_Geohash e \<noteq> '''' then ce_Geohash e else ce_Geohash r),
       ce_Participants := ce_Participants r @ ce_Participants e, ce_Hashtags := ce_Hashtags r @ ce_Hashtags e,
       ce_References := ce_References r @ ce_References e\<rparr>"
proof -
  have p: "read_tags calendar_switch (map (\<lambda>p. [''p'', p]) vs) r = r\<lparr>ce_Participants := ce_Participants r @ vs\<rparr>" for vs r
    by (subst read_strings [where upd = "\<lambda>v e. e\<lparr>ce_Participants := ce_Participants e @ [v]\<rparr>"]) (simp_all add: calendar_switch_def fold_participants)
  have t: "read_tags calendar_switch (map (\<lambda>p. [''t'', p]) vs) r = r\<lparr>ce_Hashtags := ce_Hashtags r @ vs\<rparr>" for vs r
    by (subst read_strings [where upd = "\<lambda>v e. e\<lparr>ce_Hashtags := ce_Hashtags e @ [v]\<rparr>"]) (simp_all add: calendar_switch_def fold_hashtags)
  have rf: "read_tags calendar_switch (map (\<lambda>p. [''r'', p]) vs) r = r\<lparr>ce_References := ce_References r @ vs\<rparr>" for vs r
    by (subst read_strings [where upd = "\<lambda>v e. e\<lparr>ce_References := ce_References e @ [v]\<rparr>"]) (simp_all add: calendar_switch_def fold_references)
  have o4: "calendar_switch ''summary'' v rest r = r\<lparr>ce_Summary := v\<rparr>" "calendar_switch ''image'' v rest r = r\<lparr>ce_Image := v\<rparr>"
    "calendar_switch ''location'' v rest r = r\<lparr>ce_Location := v\<rparr>" "calendar_switch ''g'' v rest r = r\<lparr>ce_Geohash := v\<rparr>" for v rest r
    by (simp_all add: calendar_switch_def)
  show ?thesis
    by (simp add: appendOptionalTags_def read_opt_tag p t rf o4)
qed

lemma digit_of_digit: "digit_of (digit n) = Some (n mod 10)"
  by (simp add: digit_def)

lemma last_digit: "n div 10 * 10 + n mod 10 = (n::nat)"
  by simp

lemma digits4: "n < 10000 \<Longrightarrow> digits_value 0 [digit (n div 1000), digit (n div 100), digit (n div 10), digit n] = Some n"
proof -
  assume "n < 10000"
  then have "n div 1000 mod 10 = n div 1000" by simp
  moreover have "n div 1000 = n div 100 div 10" "n div 100 = n div 10 div 10" by (simp_all add: div_mult2_eq [symmetric])
  ultimately show ?thesis
    using last_digit [of n] last_digit [of "n div 10"] last_digit [of "n div 100"] by (simp add: digit_of_digit)
qed

lemma digits2: "n < 100 \<Longrightarrow> digits_value 0 [digit (n div 10), digit n] = Some n"
  by (simp add: digit_of_digit)

definition valid_date :: "nat \<Rightarrow> nat \<Rightarrow> nat \<Rightarrow> bool" where
  "valid_date y m d \<longleftrightarrow> y < 10000 \<and> 1 \<le> m \<and> m \<le> 12 \<and> 1 \<le> d \<and> d \<le> days_in y m"

lemma ParseDate_FormatDate: "valid_date y m d \<Longrightarrow> ParseDate (FormatDate z (Date y m d)) = Some (Date y m d)"
proof -
  assume v: "valid_date y m d"
  moreover from v have "d < 100" by (auto simp: valid_date_def days_in_def split: if_splits)
  ultimately show ?thesis
    unfolding FormatDate_def ParseDate_def using digits4 [of y] digits2 [of m] digits2 [of d]
    by (simp add: valid_date_def del: digits_value.simps)
qed

text \<open>The times a calendar event keeps through its tags: dates of years below 10000 for an event by date; for an event
  by time, instants, and the absent time.\<close>

fun exact_time :: "bool \<Rightarrow> gotime \<Rightarrow> bool" where
  "exact_time True (Date y m d) = valid_date y m d"
| "exact_time True (Instant s) = False"
| "exact_time False (Date y m d) = IsZero (Date y m d)"
| "exact_time False (Instant s) = (in_i64 s \<and> \<not> IsZero (Instant s))"

definition calendar_event_of :: "zone \<Rightarrow> CalendarEvent \<Rightarrow> event" where
  "calendar_event_of z e =
     (if ce_IsDateBased e then new_event KindDateEvent '''' 0 '''' (CreateDateEventTags z e)
      else new_event KindTimeEvent '''' 0 '''' (CreateTimeEventTags z e))"

lemma read_start:
  "calendar_switch ''start'' v rest e = (case parse_when (ce_IsDateBased e) v of None \<Rightarrow> e | Some t \<Rightarrow> e\<lparr>ce_Start := t\<rparr>)"
  "calendar_switch ''end'' v rest e = (case parse_when (ce_IsDateBased e) v of None \<Rightarrow> e | Some t \<Rightarrow> e\<lparr>ce_End := t\<rparr>)"
  "calendar_switch ''d'' v rest e = e\<lparr>ce_ID := v\<rparr>" "calendar_switch ''title'' v rest e = e\<lparr>ce_Title := v\<rparr>"
  "calendar_switch ''D'' v rest e = e" "calendar_switch ''start_tzid'' v rest e = e\<lparr>ce_StartTzid := v\<rparr>"
  "calendar_switch ''end_tzid'' v rest e = e\<lparr>ce_EndTzid := v\<rparr>"
  by (simp_all add: calendar_switch_def)

lemma zero_date: "IsZero (Date y m d) \<Longrightarrow> Date y m d = zero_time"
  by (simp add: zero_time_def)

lemma write_date: "exact_time True t \<Longrightarrow> parse_when True (FormatDate z t) = Some t"
  by (cases t) (simp_all add: parse_when_def ParseDate_FormatDate)

lemma write_time: "exact_time False t \<Longrightarrow> \<not> IsZero t \<Longrightarrow> parse_when False (fmt_d (go_Unix t)) = Some t"
  by (cases t) (simp_all add: parse_when_def ParseInt64_fmt_d)

lemma exact_zero: "exact_time date t \<Longrightarrow> IsZero t \<Longrightarrow> zero_time = t"
  by (cases date; cases t) (simp_all add: zero_time_def)

text \<open>A calendar event is read back from its tags as it was written; events by date lose their time zones.\<close>

theorem calendar_roundtrip:
  assumes "exact_time (ce_IsDateBased e) (ce_Start e)" "exact_time (ce_IsDateBased e) (ce_End e)"
  shows "ParseCalendarEvent (calendar_event_of z e)
    = Some (if ce_IsDateBased e then e\<lparr>ce_StartTzid := '''', ce_EndTzid := ''''\<rparr> else e)"
proof (cases "ce_IsDateBased e")
  case True
  have w: "parse_when True (FormatDate z (ce_Start e)) = Some (ce_Start e)" "parse_when True (FormatDate z (ce_End e)) = Some (ce_End e)"
    using assms True by (simp_all add: write_date)
  have zz: "IsZero (ce_Start e) \<Longrightarrow> zero_time = ce_Start e" "IsZero (ce_End e) \<Longrightarrow> zero_time = ce_End e"
    using assms by (simp_all add: exact_zero)
  show ?thesis
    using True w zz
    by (cases e) (simp add: ParseCalendarEvent_def calendar_event_of_def new_event_def CreateDateEventTags_def read_start
        read_optional_tags no_calendar_event_def KindDateEvent_def KindTimeEvent_def)
next
  case False
  have w: "\<not> IsZero (ce_Start e) \<Longrightarrow> parse_when False (fmt_d (go_Unix (ce_Start e))) = Some (ce_Start e)"
    "\<not> IsZero (ce_End e) \<Longrightarrow> parse_when False (fmt_d (go_Unix (ce_End e))) = Some (ce_End e)"
    using assms False by (simp_all add: write_time)
  have zz: "IsZero (ce_Start e) \<Longrightarrow> zero_time = ce_Start e" "IsZero (ce_End e) \<Longrightarrow> zero_time = ce_End e"
    using assms by (simp_all add: exact_zero)
  show ?thesis
    using False w zz
    by (cases e) (simp add: ParseCalendarEvent_def calendar_event_of_def new_event_def CreateTimeEventTags_def read_start
        read_optional_tags read_opt_tag no_calendar_event_def KindDateEvent_def KindTimeEvent_def)
qed

definition leap_day_fair :: CalendarEvent where
  "leap_day_fair = (no_calendar_event True)\<lparr>ce_ID := ''fair'', ce_Title := ''Fair'', ce_Start := Date 2024 2 29, ce_End := Date 2024 3 1,
     ce_Participants := [''alice'', ''bob'']\<rparr>"

lemma calendar_roundtrip_witness:
  "ParseCalendarEvent (calendar_event_of (\<lambda>_. (1970, 1, 1)) leap_day_fair) = Some leap_day_fair"
  using calendar_roundtrip [of leap_day_fair "\<lambda>_. (1970, 1, 1)"]
  by (simp add: leap_day_fair_def no_calendar_event_def valid_date_def days_in_def leap_def)

text \<open>An answer to an invitation is read back as written.\<close>

theorem rsvp_roundtrip: "ParseRSVP (CreateRSVPEvent now pk r) = Some r"
  by (cases r) (simp add: ParseRSVP_def CreateRSVPEvent_def new_event_def read_opt_tag rsvp_switch_def)

section \<open>Communities and approvals through their tags\<close>

lemma read_moderators:
  assumes "list_all (\<lambda>m. mo_Role m \<noteq> ''moderator'') ms"
  shows "read_tags community_switch (map moderator_tag ms) c = c\<lparr>cm_Moderators := cm_Moderators c @ ms\<rparr>"
  using assms
proof (induction ms arbitrary: c)
  case (Cons m ms)
  have "read_moderator (mo_Pubkey m) (mo_RelayHint m # ''moderator'' # (if mo_Role m \<noteq> '''' then [mo_Role m] else [])) = Some m"
    using Cons.prems by (cases m) (simp add: read_moderator_def)
  then have "read_tags community_switch [moderator_tag m] c = c\<lparr>cm_Moderators := cm_Moderators c @ [m]\<rparr>"
    by (simp add: moderator_tag_def community_switch_def)
  with Cons.IH [of "c\<lparr>cm_Moderators := cm_Moderators c @ [m]\<rparr>"] Cons.prems show ?case
    using read_tags_simps(5) [of community_switch "[moderator_tag m]" "map moderator_tag ms" c] by simp
qed simp

lemma read_relays: "read_tags community_switch (map (\<lambda>u. [''relay'', u]) us) c = c\<lparr>cm_RelayURLs := cm_RelayURLs c @ us\<rparr>"
  by (subst read_strings [where upd = "\<lambda>v c. c\<lparr>cm_RelayURLs := cm_RelayURLs c @ [v]\<rparr>"]) (simp_all add: community_switch_def fold_relays)

lemma community_names:
  "community_switch ''d'' v rest c = c\<lparr>cm_ID := v\<rparr>" "community_switch ''name'' v rest c = c\<lparr>cm_Name := v\<rparr>"
  "community_switch ''description'' v rest c = c\<lparr>cm_Description := v\<rparr>" "community_switch ''rules'' v rest c = c\<lparr>cm_Rules := v\<rparr>"
  "community_switch ''image'' v [] c = c\<lparr>cm_Image := v\<rparr>"
  "community_switch ''image'' v (x # xs) c = c\<lparr>cm_Image := v, cm_ImageDimensions := x\<rparr>"
  by (simp_all add: community_switch_def)

text \<open>A community definition is read back as written, when no moderator's role is the marker word itself and there are no
  dimensions without an image.\<close>

theorem community_roundtrip:
  assumes "list_all (\<lambda>m. mo_Role m \<noteq> ''moderator'') (cm_Moderators c)" "cm_Image c = '''' \<Longrightarrow> cm_ImageDimensions c = ''''"
  shows "ParseCommunityDefinition (CreateCommunityDefinitionEvent now c) = Some c"
  using assms
  by (cases c) (simp add: ParseCommunityDefinition_def CreateCommunityDefinitionEvent_def new_event_def read_opt_tag read_relays
      read_moderators community_names)

lemma community_roundtrip_witness:
  "ParseCommunityDefinition (CreateCommunityDefinitionEvent 7
     \<lparr>cm_ID = ''c'', cm_OwnerPubkey = ''alice'', cm_Name = ''n'', cm_Description = '''', cm_Image = '''', cm_ImageDimensions = '''',
      cm_Rules = ''be nice'', cm_Moderators = [\<lparr>mo_Pubkey = ''bob'', mo_RelayHint = '''', mo_Role = ''chair''\<rparr>],
      cm_RelayURLs = [''wss://r'']\<rparr>) \<noteq> None"
  by (subst community_roundtrip) simp_all

text \<open>What is not a digit is skipped, so a text without digits counts as zero.\<close>

lemma loose_number_none: "list_all (\<lambda>c. digit_of c = None) v \<Longrightarrow> loose_number v = 0"
proof -
  have "list_all (\<lambda>c. digit_of c = None) v \<Longrightarrow> fold (\<lambda>c k. case digit_of c of None \<Rightarrow> k | Some d \<Rightarrow> i64 (k * 10 + int d)) v a = a" for a
    by (induction v arbitrary: a) simp_all
  then show "list_all (\<lambda>c. digit_of c = None) v \<Longrightarrow> loose_number v = 0" by (simp add: loose_number_def)
qed

lemma digit_of_high: "58 \<le> n \<Longrightarrow> n < 256 \<Longrightarrow> digit_of (char_of (n::nat)) = None"
  by (simp add: digit_of_def)

lemma rune_bytes_high: "58 \<le> x \<Longrightarrow> x < 2 ^ 31 \<Longrightarrow> list_all (\<lambda>c. digit_of c = None) (rune_bytes x)"
proof -
  assume x: "58 \<le> x" "x < 2 ^ 31"
  define n where "n = (if x > 1114111 \<or> (55296 \<le> x \<and> x \<le> 57343) then 65533 else nat x)"
  from x have n: "58 \<le> n" "n \<le> 1114111" by (auto simp: n_def split: if_splits)
  have r: "(x + 2 ^ 31) mod 2 ^ 32 - 2 ^ 31 = x" using x by simp
  have low: "digit_of (char_of (128 + k mod 64)) = None" for k :: nat
    by (rule digit_of_high) simp_all
  have "n div 64 < 32" if "n < 2048" using that by simp
  moreover have "n div 64 ^ 2 < 16" if "n < 65536" using that by simp
  moreover have "n div 64 ^ 3 < 8" using n by simp
  ultimately have hd: "n < 2048 \<Longrightarrow> digit_of (char_of (192 + n div 64)) = None" "n < 65536 \<Longrightarrow> digit_of (char_of (224 + n div 64 ^ 2)) = None"
    "digit_of (char_of (240 + n div 64 ^ 3)) = None" "n < 128 \<Longrightarrow> digit_of (char_of n) = None"
    using n by (simp_all add: digit_of_high)
  have eq: "rune_bytes x = (let low = (\<lambda>k. char_of (128 + (n div 64 ^ k) mod 64)) in
      if n < 128 then [char_of n] else if n < 2048 then [char_of (192 + n div 64), low 0]
      else if n < 65536 then [char_of (224 + n div 64 ^ 2), low 1, low 0] else [char_of (240 + n div 64 ^ 3), low 2, low 1, low 0])"
    using x by (simp only: rune_bytes_def r Let_def n_def) simp
  show ?thesis unfolding eq Let_def using hd low by (simp del: power_numeral)
qed

definition approval_of_kind :: "int \<Rightarrow> Approval" where
  "approval_of_kind k = \<lparr>ap_CommunityRef = ''34550:owner:c'', ap_PostID = ''post'', ap_PostRef = '''', ap_AuthorPubkey = ''bob'',
     ap_PostKind = k, ap_PostJSON = ''''\<rparr>"

text \<open>An approval keeps the kind of the post it approves only when that is a single digit: a kind of two digits or more,
  kind 1111 of community posts among them, is written as one character and read back as 0.\<close>

theorem approval_loses_the_post_kind:
  assumes "10 \<le> k" "k < 65536"
  shows "map_option ap_PostKind (ParseApproval (CreateApprovalEvent now pk (approval_of_kind k) None)) = Some 0"
proof -
  have "loose_number (rune_bytes (k + 48)) = 0" using assms by (intro loose_number_none rune_bytes_high) simp_all
  moreover have "i64 (k + 48) = k + 48" using assms by (intro i64_id) (simp add: in_i64_def)
  ultimately show ?thesis
    using assms by (simp add: ParseApproval_def CreateApprovalEvent_def new_event_def read_opt_tag approval_switch_def approval_of_kind_def)
qed

lemma approval_loses_the_post_kind_witness:
  "map_option ap_PostKind (ParseApproval (CreateApprovalEvent 1 ''m'' (approval_of_kind KindCommunityPost) None)) = Some 0"
  by (rule approval_loses_the_post_kind) (simp_all add: KindCommunityPost_def)

end
