(* ===== verification/Legacy_Groups.thy ===== *)
theory Legacy_Groups
  imports Group_Ownership "HOL-Library.AList"
begin

text \<open>
  internal/groups, the handler and store that manage NIP-29 groups in three tables and a cache (types.go, store.go,
  handler.go). The process registers relay29 in their place, so nothing calls them today. Tables are association
  lists by their primary key (a NULL text reads as the empty string); the cache is a map to groups. \<open>gw_ok\<close> says
  which statements of an operation succeed, in the order in which the operation makes them; a failed
  statement has no effect. Random identifiers and the clock come with it. Log lines cut identifiers
  at eight bytes, which panics for shorter ones.
\<close>

section \<open>Kinds, privacy, configuration\<close>

abbreviation "KindGroupJoin \<equiv> 9021 :: int"
abbreviation "KindGroupLeave \<equiv> 9022 :: int"
abbreviation "KindAddUser \<equiv> 9000 :: int"
abbreviation "KindRemoveUser \<equiv> 9001 :: int"
abbreviation "KindEditMetadata \<equiv> 9002 :: int"
abbreviation "KindCreateGroup \<equiv> 9007 :: int"
abbreviation "KindDeleteGroup \<equiv> 9008 :: int"
abbreviation "KindCreateInvite \<equiv> 9009 :: int"

definition IsModeratorKind :: "int \<Rightarrow> bool" where
  "IsModeratorKind k \<longleftrightarrow> k \<ge> 9000 \<and> k \<le> 9020"

definition IsGroupManagementKind :: "int \<Rightarrow> bool" where
  "IsGroupManagementKind k \<longleftrightarrow> k = KindGroupJoin \<or> k = KindGroupLeave"

definition privacy_CanRead :: "string \<Rightarrow> bool \<Rightarrow> bool" where
  "privacy_CanRead p member =
     (if p \<in> {''open'', ''restricted''} then True else if p \<in> {''private'', ''hidden'', ''closed''} then member else True)"

definition privacy_CanWrite :: "string \<Rightarrow> bool \<Rightarrow> bool" where
  "privacy_CanWrite p member = (if p = ''open'' then True else member)"

definition privacy_CanJoin :: "string \<Rightarrow> bool" where
  "privacy_CanJoin p \<longleftrightarrow> p \<noteq> ''closed''"

definition privacy_ShowMetadata :: "string \<Rightarrow> bool \<Rightarrow> bool" where
  "privacy_ShowMetadata p member = (if p = ''hidden'' then member else True)"

record legacy_group_config =
  gc_Enabled :: bool
  gc_RelayURL :: string
  gc_AdminPubkeys :: "string list"
  gc_AllowPublicGroupCreation :: bool
  gc_MaxGroupsPerUser :: int
  gc_DefaultPrivacy :: string
  gc_InviteCodeExpiry :: int

definition group_DefaultConfig :: legacy_group_config where
  "group_DefaultConfig = \<lparr>gc_Enabled = False, gc_RelayURL = '''', gc_AdminPubkeys = [], gc_AllowPublicGroupCreation = False,
     gc_MaxGroupsPerUser = 10, gc_DefaultPrivacy = ''restricted'', gc_InviteCodeExpiry = 7 * 24 * 3600 * ns_per_sec\<rparr>"

section \<open>The store\<close>

text \<open>The cached group; its invite codes are never filled in.\<close>

record Group =
  g_ID :: string
  g_Name :: string
  g_Picture :: string
  g_About :: string
  g_Privacy :: string
  g_CreatedAt :: int
  g_CreatedBy :: string
  g_RelayURL :: string
  g_Admins :: "string \<Rightarrow> string option"
  g_Members :: "string \<Rightarrow> bool"

record group_row =
  gr_name :: string
  gr_picture :: string
  gr_about :: string
  gr_privacy :: string
  gr_created_at :: int
  gr_created_by :: string
  gr_relay_url :: string

record group_member =
  gm_role :: string
  gm_joined_at :: int
  gm_added_by :: string

record group_invite =
  gi_group_id :: string
  gi_created_by :: string
  gi_created_at :: int
  gi_expires_at :: "int option"
  gi_max_uses :: int
  gi_uses :: int

record group_store =
  gs_groups :: "(string \<times> group_row) list"
  gs_members :: "((string \<times> string) \<times> group_member) list"
  gs_invites :: "(string \<times> group_invite) list"
  gs_cache :: "string \<Rightarrow> Group option"

datatype group_error = ErrGroupNotFound | ErrGroupExists | ErrNotMember | ErrNotAdmin | ErrInvalidInvite | ErrJoinNotAllowed
  | ErrPermissionDenied | ErrGroupLimitReached | DBError

datatype 'a group_result = Value 'a | Failure group_error | Panic

record group_world =
  gw_ok :: "nat \<Rightarrow> bool"
  gw_now :: int
  gw_random :: string

definition short :: "string \<Rightarrow> bool" where
  "short s \<longleftrightarrow> length s < 8"

text \<open>\<open>loadCache\<close> builds a cached group from its row and its member rows; when it fails half way, the groups read before
  stay. \<open>loaded\<close> says which.\<close>

definition cached_group :: "group_store \<Rightarrow> string \<Rightarrow> group_row \<Rightarrow> Group" where
  "cached_group st gid r =
     \<lparr>g_ID = gid, g_Name = gr_name r, g_Picture = gr_picture r, g_About = gr_about r, g_Privacy = gr_privacy r,
      g_CreatedAt = gr_created_at r, g_CreatedBy = gr_created_by r, g_RelayURL = gr_relay_url r,
      g_Admins = (\<lambda>p. case map_of (gs_members st) (gid, p) of None \<Rightarrow> None
                    | Some m \<Rightarrow> if gm_role m \<noteq> '''' then Some (gm_role m) else None),
      g_Members = (\<lambda>p. map_of (gs_members st) (gid, p) \<noteq> None)\<rparr>"

definition loadCache :: "(string \<Rightarrow> bool) \<Rightarrow> group_store \<Rightarrow> group_store" where
  "loadCache loaded st =
     st\<lparr>gs_cache := (\<lambda>gid. if loaded gid then map_option (cached_group st gid) (map_of (gs_groups st) gid) else None)\<rparr>"

definition CountGroupsByCreator :: "group_store \<Rightarrow> string \<Rightarrow> int" where
  "CountGroupsByCreator st pk = int (length (filter (\<lambda>(_, r). gr_created_by r = pk) (gs_groups st)))"

text \<open>Statements: the count, the group, its creator.\<close>

definition gs_CreateGroup :: "legacy_group_config \<Rightarrow> group_world \<Rightarrow> string \<Rightarrow> string \<Rightarrow> string \<Rightarrow> group_store \<Rightarrow> Group group_result \<times> group_store" where
  "gs_CreateGroup cfg w creator name privacy st =
     (if gc_MaxGroupsPerUser cfg > 0 \<and> \<not> gw_ok w 0 then (Failure DBError, st)
      else if gc_MaxGroupsPerUser cfg > 0 \<and> CountGroupsByCreator st creator \<ge> gc_MaxGroupsPerUser cfg
      then (Failure ErrGroupLimitReached, st)
      else
        let gid = gw_random w;
            group = \<lparr>g_ID = gid, g_Name = name, g_Picture = '''', g_About = '''', g_Privacy = privacy, g_CreatedAt = gw_now w,
                     g_CreatedBy = creator, g_RelayURL = gc_RelayURL cfg, g_Admins = [creator \<mapsto> ''admin''],
                     g_Members = (\<lambda>p. p = creator)\<rparr>;
            row = \<lparr>gr_name = name, gr_picture = '''', gr_about = '''', gr_privacy = privacy, gr_created_at = gw_now w,
                   gr_created_by = creator, gr_relay_url = gc_RelayURL cfg\<rparr>;
            member = \<lparr>gm_role = ''admin'', gm_joined_at = gw_now w, gm_added_by = creator\<rparr>;
            st1 = st\<lparr>gs_groups := (gid, row) # gs_groups st\<rparr>
        in if \<not> gw_ok w 1 \<or> map_of (gs_groups st) gid \<noteq> None then (Failure DBError, st)
           else if \<not> gw_ok w 2 \<or> map_of (gs_members st) (gid, creator) \<noteq> None then (Failure DBError, st1)
           else (if short gid \<or> short creator then Panic else Value group,
                 st1\<lparr>gs_members := ((gid, creator), member) # gs_members st, gs_cache := (gs_cache st)(gid \<mapsto> group)\<rparr>))"

definition GetGroup :: "group_store \<Rightarrow> string \<Rightarrow> Group group_result" where
  "GetGroup st gid = (case gs_cache st gid of Some g \<Rightarrow> Value g | None \<Rightarrow> Failure ErrGroupNotFound)"

text \<open>The foreign keys delete the members and invites of the group with it.\<close>

definition gs_DeleteGroup :: "group_world \<Rightarrow> string \<Rightarrow> group_store \<Rightarrow> unit group_result \<times> group_store" where
  "gs_DeleteGroup w gid st =
     (if \<not> gw_ok w 0 then (Failure DBError, st)
      else if map_of (gs_groups st) gid = None then (Failure ErrGroupNotFound, st)
      else (if short gid then Panic else Value (),
            st\<lparr>gs_groups := AList.delete gid (gs_groups st), gs_members := filter (\<lambda>(k, _). fst k \<noteq> gid) (gs_members st),
               gs_invites := filter (\<lambda>(_, i). gi_group_id i \<noteq> gid) (gs_invites st), gs_cache := (gs_cache st)(gid := None)\<rparr>))"

definition gs_UpdateGroupMetadata :: "group_world \<Rightarrow> string \<Rightarrow> string \<Rightarrow> string \<Rightarrow> string \<Rightarrow> string \<Rightarrow> group_store \<Rightarrow> unit group_result \<times> group_store" where
  "gs_UpdateGroupMetadata w gid name picture about privacy st =
     (if \<not> gw_ok w 0 then (Failure DBError, st)
      else (Value (),
            st\<lparr>gs_groups := AList.map_entry gid (\<lambda>r. r\<lparr>gr_name := name, gr_picture := picture, gr_about := about, gr_privacy := privacy\<rparr>)
                             (gs_groups st),
               gs_cache := (case gs_cache st gid of
                    None \<Rightarrow> gs_cache st
                  | Some g \<Rightarrow> (gs_cache st)(gid \<mapsto> g\<lparr>g_Name := name, g_Picture := picture, g_About := about, g_Privacy := privacy\<rparr>))\<rparr>))"

text \<open>An upsert; the foreign key wants the group to exist. The statement's number is an argument, since \<open>UseInvite\<close> makes
  two before it.\<close>

definition gs_AddMember :: "nat \<Rightarrow> group_world \<Rightarrow> string \<Rightarrow> string \<Rightarrow> string \<Rightarrow> string \<Rightarrow> group_store \<Rightarrow> unit group_result \<times> group_store" where
  "gs_AddMember k w gid pk role by st =
     (if \<not> gw_ok w k \<or> map_of (gs_groups st) gid = None then (Failure DBError, st)
      else
        let row = (case map_of (gs_members st) (gid, pk) of
               Some m \<Rightarrow> m\<lparr>gm_role := role\<rparr>
             | None \<Rightarrow> \<lparr>gm_role = role, gm_joined_at = gw_now w, gm_added_by = by\<rparr>)
        in (if short pk \<or> short gid then Panic else Value (),
            st\<lparr>gs_members := AList.update (gid, pk) row (gs_members st),
               gs_cache := (case gs_cache st gid of
                    None \<Rightarrow> gs_cache st
                  | Some g \<Rightarrow> (gs_cache st)(gid \<mapsto> g\<lparr>g_Members := (g_Members g)(pk := True),
                      g_Admins := (if role \<noteq> '''' then (g_Admins g)(pk \<mapsto> role) else g_Admins g)\<rparr>))\<rparr>))"

definition gs_RemoveMember :: "group_world \<Rightarrow> string \<Rightarrow> string \<Rightarrow> group_store \<Rightarrow> unit group_result \<times> group_store" where
  "gs_RemoveMember w gid pk st =
     (if \<not> gw_ok w 0 then (Failure DBError, st)
      else if map_of (gs_members st) (gid, pk) = None then (Failure ErrNotMember, st)
      else (if short pk \<or> short gid then Panic else Value (),
            st\<lparr>gs_members := AList.delete (gid, pk) (gs_members st),
               gs_cache := (case gs_cache st gid of
                    None \<Rightarrow> gs_cache st
                  | Some g \<Rightarrow> (gs_cache st)(gid \<mapsto> g\<lparr>g_Members := (g_Members g)(pk := False), g_Admins := (g_Admins g)(pk := None)\<rparr>))\<rparr>))"

definition gs_IsMember :: "group_store \<Rightarrow> string \<Rightarrow> string \<Rightarrow> bool" where
  "gs_IsMember st gid pk = (case gs_cache st gid of Some g \<Rightarrow> g_Members g pk | None \<Rightarrow> False)"

definition gs_IsAdmin :: "group_store \<Rightarrow> string \<Rightarrow> string \<Rightarrow> bool" where
  "gs_IsAdmin st gid pk = (case gs_cache st gid of Some g \<Rightarrow> g_Admins g pk \<noteq> None | None \<Rightarrow> False)"

definition GetMemberRole :: "group_store \<Rightarrow> string \<Rightarrow> string \<Rightarrow> string" where
  "GetMemberRole st gid pk =
     (case gs_cache st gid of Some g \<Rightarrow> (case g_Admins g pk of Some r \<Rightarrow> r | None \<Rightarrow> '''') | None \<Rightarrow> '''')"

definition gs_CreateInvite :: "group_world \<Rightarrow> string \<Rightarrow> string \<Rightarrow> int \<Rightarrow> int \<Rightarrow> group_store \<Rightarrow> string group_result \<times> group_store" where
  "gs_CreateInvite w gid creator maxUses expiresAt st =
     (if \<not> gw_ok w 0 \<or> map_of (gs_invites st) (gw_random w) \<noteq> None \<or> map_of (gs_groups st) gid = None then (Failure DBError, st)
      else (if short (gw_random w) \<or> short gid then Panic else Value (gw_random w),
            st\<lparr>gs_invites := (gw_random w, \<lparr>gi_group_id = gid, gi_created_by = creator, gi_created_at = gw_now w,
                 gi_expires_at = Some expiresAt, gi_max_uses = maxUses, gi_uses = 0\<rparr>) # gs_invites st\<rparr>))"

definition invite_usable :: "int \<Rightarrow> group_invite \<Rightarrow> bool" where
  "invite_usable now i \<longleftrightarrow>
     \<not> (case gi_expires_at i of Some t \<Rightarrow> now > t | None \<Rightarrow> False) \<and> \<not> (gi_max_uses i > 0 \<and> gi_uses i \<ge> gi_max_uses i)"

definition gs_UseInvite :: "group_world \<Rightarrow> string \<Rightarrow> string \<Rightarrow> group_store \<Rightarrow> string group_result \<times> group_store" where
  "gs_UseInvite w code pk st =
     (if \<not> gw_ok w 0 then (Failure DBError, st)
      else case map_of (gs_invites st) code of
        None \<Rightarrow> (Failure ErrInvalidInvite, st)
      | Some i \<Rightarrow>
          if \<not> invite_usable (gw_now w) i then (Failure ErrInvalidInvite, st)
          else if \<not> gw_ok w 1 then (Failure DBError, st)
          else
            (case gs_AddMember 2 w (gi_group_id i) pk '''' (''invite:'' @ code)
                    (st\<lparr>gs_invites := AList.map_entry code (\<lambda>i. i\<lparr>gi_uses := gi_uses i + 1\<rparr>) (gs_invites st)\<rparr>) of
               (Value _, st') \<Rightarrow> (Value (gi_group_id i), st')
             | (Failure e, st') \<Rightarrow> (Failure e, st')
             | (Panic, st') \<Rightarrow> (Panic, st')))"

section \<open>The handler\<close>

definition getGroupIDFromEvent :: "event \<Rightarrow> string" where
  "getGroupIDFromEvent ev = first_tag (ev_tags ev) ''h''"

definition getGroupIDFromFilter :: "nfilter \<Rightarrow> string" where
  "getGroupIDFromFilter f = (case tag_values f ''h'' of [] \<Rightarrow> '''' | h # _ \<Rightarrow> h)"

definition handleCreateGroupEvent :: "legacy_group_config \<Rightarrow> event \<Rightarrow> string \<Rightarrow> verdict" where
  "handleCreateGroupEvent cfg ev authed =
     (if \<not> gc_AllowPublicGroupCreation cfg \<and> ev_pubkey ev \<notin> set (gc_AdminPubkeys cfg) then Reject ''restricted: group creation not allowed''
      else if authed = '''' \<or> authed \<noteq> ev_pubkey ev then Reject ''auth-required: authentication required to create groups''
      else Accept)"

definition handleModerationEvent :: "group_store \<Rightarrow> event \<Rightarrow> Group \<Rightarrow> string \<Rightarrow> verdict" where
  "handleModerationEvent st ev g authed =
     (if authed = '''' \<or> authed \<noteq> ev_pubkey ev then Reject ''auth-required: authentication required for moderation''
      else if \<not> gs_IsAdmin st (g_ID g) (ev_pubkey ev) then Reject ''restricted: only admins can perform moderation actions''
      else Accept)"

definition handleManagementEvent :: "event \<Rightarrow> Group \<Rightarrow> string \<Rightarrow> verdict" where
  "handleManagementEvent ev g authed =
     (if authed = '''' \<or> authed \<noteq> ev_pubkey ev then Reject ''auth-required: authentication required''
      else if ev_kind ev = KindGroupJoin \<and> \<not> privacy_CanJoin (g_Privacy g) then Reject ''restricted: this group does not accept join requests''
      else Accept)"

definition groups_RejectEvent :: "legacy_group_config \<Rightarrow> group_store \<Rightarrow> string \<Rightarrow> event \<Rightarrow> verdict" where
  "groups_RejectEvent cfg st authed ev =
     (let gid = getGroupIDFromEvent ev in
      if \<not> gc_Enabled cfg then Accept
      else if gid = '''' then Accept
      else if ev_kind ev = KindCreateGroup then handleCreateGroupEvent cfg ev authed
      else case GetGroup st gid of
        Failure ErrGroupNotFound \<Rightarrow> Reject ''restricted: group not found''
      | Value g \<Rightarrow>
          if IsModeratorKind (ev_kind ev) then handleModerationEvent st ev g authed
          else if IsGroupManagementKind (ev_kind ev) then handleManagementEvent ev g authed
          else if \<not> privacy_CanWrite (g_Privacy g) (gs_IsMember st gid (ev_pubkey ev))
          then (if authed = '''' then Reject ''auth-required: authentication required to post to this group''
                else Reject ''restricted: only members can post to this group'')
          else Accept
      | _ \<Rightarrow> Reject ''error: internal server error'')"

definition groups_RejectFilter :: "legacy_group_config \<Rightarrow> group_store \<Rightarrow> string \<Rightarrow> nfilter \<Rightarrow> verdict" where
  "groups_RejectFilter cfg st authed f =
     (let gid = getGroupIDFromFilter f in
      if \<not> gc_Enabled cfg then Accept
      else if gid = '''' then Accept
      else case GetGroup st gid of
        Failure ErrGroupNotFound \<Rightarrow> Reject ''restricted: group not found''
      | Value g \<Rightarrow>
          let member = gs_IsMember st gid authed in
          if \<not> privacy_CanRead (g_Privacy g) member
          then (if authed = '''' then Reject ''auth-required: authentication required to read this group''
                else Reject ''restricted: only members can read this group'')
          else if \<not> privacy_ShowMetadata (g_Privacy g) member \<and> list_ex IsGroupMetadataKind (f_kinds f)
          then Reject ''restricted: group metadata is hidden''
          else Accept
      | _ \<Rightarrow> Reject ''error: internal server error'')"

text \<open>What an accepted event does. Each returns whether it panics, and the store.\<close>

definition publishMemberList :: "nat \<Rightarrow> group_world \<Rightarrow> string \<Rightarrow> bool" where
  "publishMemberList k w gid \<longleftrightarrow> gw_ok w k \<and> short gid"

definition publishGroupMetadata :: "Group \<Rightarrow> bool" where
  "publishGroupMetadata g \<longleftrightarrow> short (g_ID g)"

definition processCreateGroup :: "legacy_group_config \<Rightarrow> group_world \<Rightarrow> event \<Rightarrow> group_store \<Rightarrow> bool \<times> group_store" where
  "processCreateGroup cfg w ev st =
     (let name = (case tag_scan (ev_tags ev) ''name'' of Some v \<Rightarrow> v | None \<Rightarrow> ''Unnamed Group'');
          privacy = (case tag_scan (ev_tags ev) ''privacy'' of Some v \<Rightarrow> v | None \<Rightarrow> gc_DefaultPrivacy cfg)
      in case gs_CreateGroup cfg w (ev_pubkey ev) name privacy st of
           (Failure _, st') \<Rightarrow> (False, st')
         | (Panic, st') \<Rightarrow> (True, st')
         | (Value g, st') \<Rightarrow> (publishGroupMetadata g, st'))"

definition processDeleteGroup :: "group_world \<Rightarrow> string \<Rightarrow> group_store \<Rightarrow> bool \<times> group_store" where
  "processDeleteGroup w gid st = (case gs_DeleteGroup w gid st of (r, st') \<Rightarrow> (r = Panic, st'))"

text \<open>After a change of members: stop on an error, else publish the list.\<close>

definition then_publish :: "nat \<Rightarrow> group_world \<Rightarrow> string \<Rightarrow> 'a group_result \<times> group_store \<Rightarrow> bool \<times> group_store" where
  "then_publish k w gid r =
     (case r of (Failure _, st') \<Rightarrow> (False, st') | (Panic, st') \<Rightarrow> (True, st') | (Value _, st') \<Rightarrow> (publishMemberList k w gid, st'))"

definition processAddUser :: "group_world \<Rightarrow> event \<Rightarrow> string \<Rightarrow> group_store \<Rightarrow> bool \<times> group_store" where
  "processAddUser w ev gid st =
     (let pk = last_tag (ev_tags ev) ''p''; role = last_tag (ev_tags ev) ''role''
      in if pk = '''' then (False, st) else then_publish 1 w gid (gs_AddMember 0 w gid pk role (ev_pubkey ev) st))"

definition processRemoveUser :: "group_world \<Rightarrow> event \<Rightarrow> string \<Rightarrow> group_store \<Rightarrow> bool \<times> group_store" where
  "processRemoveUser w ev gid st =
     (let pk = first_tag (ev_tags ev) ''p''
      in if pk = '''' then (False, st) else then_publish 1 w gid (gs_RemoveMember w gid pk st))"

definition processEditMetadata :: "group_world \<Rightarrow> event \<Rightarrow> string \<Rightarrow> group_store \<Rightarrow> bool \<times> group_store" where
  "processEditMetadata w ev gid st =
     (let v = last_tag (ev_tags ev) in
      case gs_UpdateGroupMetadata w gid (v ''name'') (v ''picture'') (v ''about'') (v ''privacy'') st of
        (Value _, st') \<Rightarrow> (case GetGroup st' gid of Value g \<Rightarrow> (publishGroupMetadata g, st') | _ \<Rightarrow> (False, st'))
      | (_, st') \<Rightarrow> (False, st'))"

definition processJoinRequest :: "group_world \<Rightarrow> event \<Rightarrow> string \<Rightarrow> group_store \<Rightarrow> bool \<times> group_store" where
  "processJoinRequest w ev gid st =
     (let code = first_tag (ev_tags ev) ''code'' in
      if code \<noteq> '''' then then_publish 3 w gid (gs_UseInvite w code (ev_pubkey ev) st)
      else case GetGroup st gid of
        Value g \<Rightarrow>
          if g_Privacy g = ''open'' \<or> g_Privacy g = ''restricted''
          then then_publish 1 w gid (gs_AddMember 0 w gid (ev_pubkey ev) '''' ''self'' st)
          else (publishMemberList 0 w gid, st)
      | _ \<Rightarrow> (False, st))"

definition processLeaveRequest :: "group_world \<Rightarrow> event \<Rightarrow> string \<Rightarrow> group_store \<Rightarrow> bool \<times> group_store" where
  "processLeaveRequest w ev gid st = then_publish 1 w gid (gs_RemoveMember w gid (ev_pubkey ev) st)"

text \<open>\<open>fmt.Sscanf(v, "%d", &n)\<close> on ASCII text: skip blanks, read a signed number, ignore the rest.\<close>

definition Sscanf_d :: "string \<Rightarrow> int option" where
  "Sscanf_d v =
     (let s = dropWhile (\<lambda>c. of_char c \<in> {9, 11, 12, 13, 32 :: nat}) v;
          sign = takeWhile (\<lambda>c. c \<in> {CHR ''-'', CHR ''+''}) (take 1 s);
          ds = takeWhile (\<lambda>c. digit_of c \<noteq> None) (drop (length sign) s)
      in ParseInt64 (sign @ ds))"

text \<open>\<open>rfc3339\<close> is \<open>time.Parse(time.RFC3339, v)\<close> in nanoseconds, \<open>None\<close> for the zero time that an error leaves.\<close>

definition invite_tags :: "(string \<Rightarrow> int option) \<Rightarrow> tag list \<Rightarrow> int \<times> int option" where
  "invite_tags rfc3339 ts =
     fold (\<lambda>t (uses, expires). case t of
         n # v # _ \<Rightarrow> if n = ''max_uses'' then (case Sscanf_d v of Some k \<Rightarrow> (k, expires) | None \<Rightarrow> (uses, expires))
                     else if n = ''expires'' then (uses, rfc3339 v) else (uses, expires)
       | _ \<Rightarrow> (uses, expires)) ts (0, None)"

definition processCreateInvite :: "legacy_group_config \<Rightarrow> (string \<Rightarrow> int option) \<Rightarrow> group_world \<Rightarrow> event \<Rightarrow> string \<Rightarrow> group_store \<Rightarrow> bool \<times> group_store" where
  "processCreateInvite cfg rfc3339 w ev gid st =
     (case invite_tags rfc3339 (ev_tags ev) of (uses, expires) \<Rightarrow>
        (let t = (case expires of Some t \<Rightarrow> t | None \<Rightarrow> gw_now w + gc_InviteCodeExpiry cfg) in
         case gs_CreateInvite w gid (ev_pubkey ev) uses t st of (r, st') \<Rightarrow> (r = Panic, st')))"

definition groups_OnEventSaved :: "legacy_group_config \<Rightarrow> (string \<Rightarrow> int option) \<Rightarrow> group_world \<Rightarrow> event \<Rightarrow> group_store \<Rightarrow> bool \<times> group_store" where
  "groups_OnEventSaved cfg rfc3339 w ev st =
     (let gid = getGroupIDFromEvent ev; k = ev_kind ev in
      if \<not> gc_Enabled cfg then (False, st)
      else if gid = '''' then (False, st)
      else if k = KindCreateGroup then processCreateGroup cfg w ev st
      else if k = KindDeleteGroup then processDeleteGroup w gid st
      else if k = KindAddUser then processAddUser w ev gid st
      else if k = KindRemoveUser then processRemoveUser w ev gid st
      else if k = KindEditMetadata then processEditMetadata w ev gid st
      else if k = KindGroupJoin then processJoinRequest w ev gid st
      else if k = KindGroupLeave then processLeaveRequest w ev gid st
      else if k = KindCreateInvite then processCreateInvite cfg rfc3339 w ev gid st
      else (False, st))"

section \<open>Facts\<close>

text \<open>The store as the rest of the process drives it: saved events and restarts.\<close>

datatype group_step = Saved group_world event | Restart "string \<Rightarrow> bool"

fun group_do :: "legacy_group_config \<Rightarrow> (string \<Rightarrow> int option) \<Rightarrow> group_step \<Rightarrow> group_store \<Rightarrow> group_store" where
  "group_do cfg rfc3339 (Saved w ev) st = snd (groups_OnEventSaved cfg rfc3339 w ev st)"
| "group_do cfg rfc3339 (Restart loaded) st = loadCache loaded st"

definition empty_group_store :: group_store where
  "empty_group_store = \<lparr>gs_groups = [], gs_members = [], gs_invites = [], gs_cache = (\<lambda>_. None)\<rparr>"

text \<open>A cached group agrees with its rows: members exactly, and every role a row holds.\<close>

definition cached_ok :: "group_store \<Rightarrow> string \<Rightarrow> Group \<Rightarrow> bool" where
  "cached_ok st gid g \<longleftrightarrow>
     g_ID g = gid \<and>
     (\<forall>p. g_Members g p \<longleftrightarrow> map_of (gs_members st) (gid, p) \<noteq> None) \<and>
     (\<forall>p m. map_of (gs_members st) (gid, p) = Some m \<longrightarrow> gm_role m \<noteq> '''' \<longrightarrow> g_Admins g p = Some (gm_role m)) \<and>
     (\<forall>p r. g_Admins g p = Some r \<longrightarrow> map_of (gs_members st) (gid, p) \<noteq> None)"

definition group_store_ok :: "group_store \<Rightarrow> bool" where
  "group_store_ok st \<longleftrightarrow>
     (\<forall>gid p. map_of (gs_groups st) gid = None \<longrightarrow> map_of (gs_members st) (gid, p) = None \<and> gs_cache st gid = None) \<and>
     (\<forall>gid g. gs_cache st gid = Some g \<longrightarrow> cached_ok st gid g)"

lemma map_of_filter_key: "map_of (filter (\<lambda>(k, _). P k) xs) k = (if P k then map_of xs k else None)"
  by (induction xs) (auto split: if_splits)

lemmas group_rows = map_of_filter_key AList.delete_conv' AList.update_conv' AList.map_of_map_entry

lemma ok_CreateGroup: "group_store_ok st \<Longrightarrow> group_store_ok (snd (gs_CreateGroup cfg w creator name privacy st))"
  by (auto simp: gs_CreateGroup_def Let_def group_store_ok_def cached_ok_def split: if_splits)

lemma ok_DeleteGroup: "group_store_ok st \<Longrightarrow> group_store_ok (snd (gs_DeleteGroup w gid st))"
  by (auto simp: gs_DeleteGroup_def group_store_ok_def cached_ok_def group_rows split: if_splits)

lemma ok_UpdateGroupMetadata: "group_store_ok st \<Longrightarrow> group_store_ok (snd (gs_UpdateGroupMetadata w gid name picture about privacy st))"
  by (auto simp: gs_UpdateGroupMetadata_def group_store_ok_def cached_ok_def group_rows split: if_splits option.splits)

lemma ok_AddMember: "group_store_ok st \<Longrightarrow> group_store_ok (snd (gs_AddMember k w gid pk role by st))"
  by (auto simp: gs_AddMember_def Let_def group_store_ok_def cached_ok_def group_rows split: if_splits option.splits)

lemma ok_RemoveMember: "group_store_ok st \<Longrightarrow> group_store_ok (snd (gs_RemoveMember w gid pk st))"
  by (auto simp: gs_RemoveMember_def group_store_ok_def cached_ok_def group_rows split: if_splits option.splits)

lemma ok_invites: "group_store_ok (st\<lparr>gs_invites := is\<rparr>) = group_store_ok st"
  by (simp add: group_store_ok_def cached_ok_def)

lemma ok_CreateInvite: "group_store_ok st \<Longrightarrow> group_store_ok (snd (gs_CreateInvite w gid pk uses t st))"
  by (simp add: gs_CreateInvite_def ok_invites)

text \<open>The store an operation leaves does not depend on what its caller makes of the answer.\<close>

lemma snd_then_publish [simp]: "snd (then_publish k w gid r) = snd r"
  by (cases r; cases "fst r") (simp_all add: then_publish_def)

lemma snd_UseInvite:
  "snd (gs_UseInvite w code pk st) = st \<or>
   (\<exists>i is by. map_of (gs_invites st) code = Some i \<and>
      snd (gs_UseInvite w code pk st) = snd (gs_AddMember 2 w (gi_group_id i) pk '''' by (st\<lparr>gs_invites := is\<rparr>)))"
proof -
  have snd_case: "snd (case x of (Value _, st') \<Rightarrow> (a, st') | (Failure e, st') \<Rightarrow> (f e, st') | (Panic, st') \<Rightarrow> (c, st')) = snd x"
    for x :: "unit group_result \<times> group_store" and a c :: "string group_result" and f
    by (cases x; cases "fst x") simp_all
  show ?thesis
    by (cases "map_of (gs_invites st) code") (auto simp add: gs_UseInvite_def snd_case)
qed

lemma ok_UseInvite: "group_store_ok st \<Longrightarrow> group_store_ok (snd (gs_UseInvite w code pk st))"
  using snd_UseInvite [of w code pk st] ok_AddMember [of "st\<lparr>gs_invites := is\<rparr>" for "is"] by (metis ok_invites)

lemma ok_loadCache: "group_store_ok st \<Longrightarrow> group_store_ok (loadCache loaded st)"
  by (auto simp: group_store_ok_def loadCache_def cached_ok_def cached_group_def split: option.splits if_splits)

lemma snd_processed:
  "snd (processCreateGroup cfg w ev st) = snd (gs_CreateGroup cfg w (ev_pubkey ev)
     (case tag_scan (ev_tags ev) ''name'' of Some v \<Rightarrow> v | None \<Rightarrow> ''Unnamed Group'')
     (case tag_scan (ev_tags ev) ''privacy'' of Some v \<Rightarrow> v | None \<Rightarrow> gc_DefaultPrivacy cfg) st)"
  "snd (processDeleteGroup w gid st) = snd (gs_DeleteGroup w gid st)"
  "\<exists>n p a v. snd (processEditMetadata w ev gid st) = snd (gs_UpdateGroupMetadata w gid n p a v st)"
  "\<exists>u t. snd (processCreateInvite cfg rfc3339 w ev gid st) = snd (gs_CreateInvite w gid (ev_pubkey ev) u t st)"
proof -
  show "snd (processCreateGroup cfg w ev st) = snd (gs_CreateGroup cfg w (ev_pubkey ev)
     (case tag_scan (ev_tags ev) ''name'' of Some v \<Rightarrow> v | None \<Rightarrow> ''Unnamed Group'')
     (case tag_scan (ev_tags ev) ''privacy'' of Some v \<Rightarrow> v | None \<Rightarrow> gc_DefaultPrivacy cfg) st)"
    unfolding processCreateGroup_def Let_def by (split prod.split, split group_result.split) auto
  show "snd (processDeleteGroup w gid st) = snd (gs_DeleteGroup w gid st)"
    unfolding processDeleteGroup_def by (split prod.split) simp
  have "snd (case x of (Value _, st') \<Rightarrow> (case GetGroup st' gid of Value g \<Rightarrow> (publishGroupMetadata g, st') | _ \<Rightarrow> (False, st'))
      | (_, st') \<Rightarrow> (False, st')) = snd x" for x :: "unit group_result \<times> group_store"
    by (cases x; cases "fst x") (auto split: group_result.split)
  then show "\<exists>n p a v. snd (processEditMetadata w ev gid st) = snd (gs_UpdateGroupMetadata w gid n p a v st)"
    unfolding processEditMetadata_def Let_def by blast
  have "snd (case x of (r, st') \<Rightarrow> (r = Panic, st')) = snd x" for x :: "string group_result \<times> group_store"
    by (cases x) simp
  then show "\<exists>u t. snd (processCreateInvite cfg rfc3339 w ev gid st) = snd (gs_CreateInvite w gid (ev_pubkey ev) u t st)"
    unfolding processCreateInvite_def Let_def by (cases "invite_tags rfc3339 (ev_tags ev)") auto
qed

lemma snd_processJoin:
  "snd (processJoinRequest w ev gid st) \<in>
     {st, snd (gs_UseInvite w (first_tag (ev_tags ev) ''code'') (ev_pubkey ev) st),
      snd (gs_AddMember 0 w gid (ev_pubkey ev) '''' ''self'' st)}"
  by (simp add: processJoinRequest_def Let_def split: group_result.split)

lemma ok_group_do: "group_store_ok st \<Longrightarrow> group_store_ok (group_do cfg rfc3339 x st)"
proof (cases x)
  case (Saved w ev)
  assume st: "group_store_ok st"
  have "group_store_ok (snd (processJoinRequest w ev gid st))" for gid
    using snd_processJoin [of w ev gid st] st ok_UseInvite ok_AddMember by auto
  moreover have "group_store_ok (snd (processEditMetadata w ev gid st))" "group_store_ok (snd (processCreateInvite cfg rfc3339 w ev gid st))"
    for gid
    using snd_processed(3,4) st ok_UpdateGroupMetadata ok_CreateInvite by metis+
  ultimately show ?thesis
    using Saved st by (simp add: groups_OnEventSaved_def Let_def snd_processed(1,2) processAddUser_def processRemoveUser_def
      processLeaveRequest_def ok_AddMember ok_RemoveMember ok_CreateGroup ok_DeleteGroup)
qed (simp add: ok_loadCache)

definition groups_after :: "legacy_group_config \<Rightarrow> (string \<Rightarrow> int option) \<Rightarrow> group_step list \<Rightarrow> group_store" where
  "groups_after cfg rfc3339 xs = fold (group_do cfg rfc3339) xs empty_group_store"

lemma groups_after_ok: "group_store_ok (groups_after cfg rfc3339 xs)"
proof -
  have "group_store_ok st \<Longrightarrow> group_store_ok (fold (group_do cfg rfc3339) xs st)" for st
    by (induction xs arbitrary: st) (simp_all add: ok_group_do)
  then show ?thesis by (simp add: groups_after_def empty_group_store_def group_store_ok_def)
qed

subsection \<open>Which rows an operation touches\<close>

abbreviation member_row :: "group_store \<Rightarrow> string \<Rightarrow> string \<Rightarrow> group_member option" where
  "member_row st gid p \<equiv> map_of (gs_members st) (gid, p)"

lemma rows_CreateGroup: "p \<noteq> creator \<Longrightarrow> member_row (snd (gs_CreateGroup cfg w creator n pr st)) gid p = member_row st gid p"
  by (simp add: gs_CreateGroup_def Let_def)

lemma rows_DeleteGroup: "gid' \<noteq> gid \<Longrightarrow> member_row (snd (gs_DeleteGroup w gid st)) gid' p = member_row st gid' p"
  by (simp add: gs_DeleteGroup_def group_rows)

lemma rows_UpdateGroupMetadata: "member_row (snd (gs_UpdateGroupMetadata w gid n pi a pr st)) gid' p = member_row st gid' p"
  by (simp add: gs_UpdateGroupMetadata_def)

lemma rows_AddMember: "(gid', p) \<noteq> (gid, pk) \<Longrightarrow> member_row (snd (gs_AddMember k w gid pk role by st)) gid' p = member_row st gid' p"
  by (auto simp: gs_AddMember_def Let_def group_rows)

lemma rows_RemoveMember: "(gid', p) \<noteq> (gid, pk) \<Longrightarrow> member_row (snd (gs_RemoveMember w gid pk st)) gid' p = member_row st gid' p"
  by (auto simp: gs_RemoveMember_def group_rows)

lemma rows_CreateInvite: "member_row (snd (gs_CreateInvite w gid pk u t st)) gid' p = member_row st gid' p"
  by (simp add: gs_CreateInvite_def)

lemma rows_UseInvite: "p \<noteq> pk \<Longrightarrow> member_row (snd (gs_UseInvite w code pk st)) gid' p = member_row st gid' p"
  using snd_UseInvite [of w code pk st] rows_AddMember [of gid' p _ pk 2 w "''''" _ "st\<lparr>gs_invites := is\<rparr>" for "is"]
  by (elim disjE exE conjE) (simp_all add: rows_AddMember)

lemma rows_processJoin: "p \<noteq> ev_pubkey ev \<Longrightarrow> member_row (snd (processJoinRequest w ev gid st)) gid' p = member_row st gid' p"
  using snd_processJoin [of w ev gid st] by (auto simp: rows_UseInvite rows_AddMember)

text \<open>Which kinds change the row of somebody else, and where.\<close>

lemma rows_OnEventSaved:
  assumes "member_row (snd (groups_OnEventSaved cfg rfc3339 w ev st)) gid p \<noteq> member_row st gid p" "p \<noteq> ev_pubkey ev"
  shows "gc_Enabled cfg \<and> gid = getGroupIDFromEvent ev \<and> gid \<noteq> '''' \<and> ev_kind ev \<in> {KindDeleteGroup, KindAddUser, KindRemoveUser}"
proof -
  define h where "h = getGroupIDFromEvent ev"
  have edit: "member_row (snd (processEditMetadata w ev h st)) gid p = member_row st gid p"
    and inv: "member_row (snd (processCreateInvite cfg rfc3339 w ev h st)) gid p = member_row st gid p"
    using snd_processed(3) [of w ev h st] snd_processed(4) [of cfg rfc3339 w ev h st] by (auto simp: rows_UpdateGroupMetadata rows_CreateInvite)
  show ?thesis
  proof (cases "gid = h")
    case True
    with assms edit inv show ?thesis
      by (auto simp: groups_OnEventSaved_def h_def [symmetric] Let_def snd_processed(1) rows_CreateGroup rows_processJoin
          processLeaveRequest_def rows_RemoveMember split: if_splits)
  next
    case False
    with assms edit inv show ?thesis
      by (auto simp: groups_OnEventSaved_def h_def [symmetric] Let_def snd_processed(1,2) rows_CreateGroup rows_processJoin
          processAddUser_def processRemoveUser_def processLeaveRequest_def rows_DeleteGroup rows_AddMember rows_RemoveMember split: if_splits)
  qed
qed

section \<open>Properties\<close>

text \<open>After any saved events, restarts and failing statements, the members of a cached group are exactly its rows, whoever
  has a role in the table has it in the cache, and only members are admins.\<close>

theorem group_cache_tracks_members:
  assumes "gs_cache (groups_after cfg rfc3339 xs) gid = Some g"
  shows "(gs_IsMember (groups_after cfg rfc3339 xs) gid p \<longleftrightarrow> member_row (groups_after cfg rfc3339 xs) gid p \<noteq> None) \<and>
    (\<forall>m. member_row (groups_after cfg rfc3339 xs) gid p = Some m \<longrightarrow> gm_role m \<noteq> '''' \<longrightarrow>
       GetMemberRole (groups_after cfg rfc3339 xs) gid p = gm_role m) \<and>
    (gs_IsAdmin (groups_after cfg rfc3339 xs) gid p \<longrightarrow> gs_IsMember (groups_after cfg rfc3339 xs) gid p)"
  using groups_after_ok [of cfg rfc3339 xs] assms
  by (auto simp: group_store_ok_def cached_ok_def gs_IsMember_def gs_IsAdmin_def GetMemberRole_def)

text \<open>An accepted event changes the membership of another key only in the group it names, and only if its author has
  authenticated and is an admin of that group.\<close>

theorem others_membership_needs_an_admin:
  assumes "st = groups_after cfg rfc3339 xs" "groups_RejectEvent cfg st authed ev = Accept" "p \<noteq> ev_pubkey ev"
    and "member_row (snd (groups_OnEventSaved cfg rfc3339 w ev st)) gid p \<noteq> member_row st gid p"
  shows "gid = getGroupIDFromEvent ev \<and> authed = ev_pubkey ev \<and> gs_IsAdmin st gid (ev_pubkey ev)"
proof -
  from rows_OnEventSaved [OF assms(4,3)]
  have k: "gc_Enabled cfg" "gid = getGroupIDFromEvent ev" "gid \<noteq> ''''" "ev_kind ev \<in> {KindDeleteGroup, KindAddUser, KindRemoveUser}"
    by blast+
  then have "IsModeratorKind (ev_kind ev)" "ev_kind ev \<noteq> KindCreateGroup" by (auto simp: IsModeratorKind_def)
  with assms(2) k obtain g where g: "gs_cache st gid = Some g" "handleModerationEvent st ev g authed = Accept"
    by (auto simp: groups_RejectEvent_def Let_def GetGroup_def split: option.splits)
  moreover have "g_ID g = gid" using groups_after_ok g(1) by (simp add: assms(1) group_store_ok_def cached_ok_def)
  ultimately show ?thesis using k(2) by (simp add: handleModerationEvent_def split: if_splits)
qed

text \<open>No key comes to own more groups than the limit.\<close>

theorem group_limit_holds:
  assumes "gc_MaxGroupsPerUser cfg > 0"
  shows "CountGroupsByCreator (groups_after cfg rfc3339 xs) pk \<le> gc_MaxGroupsPerUser cfg"
proof -
  let ?n = "\<lambda>st. CountGroupsByCreator st pk"
  have del: "length (filter P (AList.delete k al)) \<le> length (filter P al)" for P and k :: string and al :: "(string \<times> group_row) list"
    by (induction al) simp_all
  have ent: "length (filter (\<lambda>(_, r). gr_created_by r = pk) (AList.map_entry k f al)) = length (filter (\<lambda>(_, r). gr_created_by r = pk) al)"
    if "\<And>r. gr_created_by (f r) = gr_created_by r" for k :: string and f al
    using that by (induction al) auto
  have create: "?n (snd (gs_CreateGroup cfg w c n p st)) \<le> max (?n st) (gc_MaxGroupsPerUser cfg)" for w c n p st
    using assms by (auto simp: gs_CreateGroup_def Let_def CountGroupsByCreator_def)
  have delete: "?n (snd (gs_DeleteGroup w gid st)) \<le> ?n st" for w gid st
    by (simp add: gs_DeleteGroup_def CountGroupsByCreator_def del)
  have edit: "?n (snd (gs_UpdateGroupMetadata w gid n p a v st)) = ?n st" for w gid n p a v st
    by (simp add: gs_UpdateGroupMetadata_def CountGroupsByCreator_def ent)
  have rest: "?n (snd (gs_AddMember k w gid q r b st)) = ?n st" "?n (snd (gs_RemoveMember w gid q st)) = ?n st"
    "?n (snd (gs_CreateInvite w gid q u t st)) = ?n st" "?n (st\<lparr>gs_invites := is\<rparr>) = ?n st" for k w gid q r b st u t "is"
    by (simp_all add: gs_AddMember_def Let_def gs_RemoveMember_def gs_CreateInvite_def CountGroupsByCreator_def)
  have invite: "?n (snd (gs_UseInvite w code q st)) = ?n st" for w code q st
    using snd_UseInvite [of w code q st] rest by (metis (no_types, lifting))
  have join: "?n (snd (processJoinRequest w ev gid st)) = ?n st" for w ev gid st
    using snd_processJoin [of w ev gid st] by (auto simp: invite rest)
  have edit': "?n (snd (processEditMetadata w ev gid st)) = ?n st" and inv: "?n (snd (processCreateInvite cfg rfc3339 w ev gid st)) = ?n st"
    for w ev gid st
    using snd_processed(3,4) edit rest(3) by metis+
  have le: "?n (snd (gs_DeleteGroup w gid st)) \<le> max (?n st) m" for w gid st m
    using delete [of w gid st] by (simp add: max_def)
  have load: "?n (loadCache l st) = ?n st" for l st
    by (simp add: loadCache_def CountGroupsByCreator_def)
  have step: "?n (group_do cfg rfc3339 x st) \<le> max (?n st) (gc_MaxGroupsPerUser cfg)" for x st
    by (cases x) (auto simp: groups_OnEventSaved_def Let_def snd_processed(1,2) processAddUser_def processRemoveUser_def
        processLeaveRequest_def create le edit' inv join rest load)
  have "?n st \<le> gc_MaxGroupsPerUser cfg \<Longrightarrow> ?n (fold (group_do cfg rfc3339) xs st) \<le> gc_MaxGroupsPerUser cfg" for st
  proof (induction xs arbitrary: st)
    case (Cons x xs)
    from Cons.prems step [of x st] have "?n (group_do cfg rfc3339 x st) \<le> gc_MaxGroupsPerUser cfg" by simp
    from Cons.IH [OF this] show ?case by simp
  qed simp
  then show ?thesis using assms by (simp add: groups_after_def CountGroupsByCreator_def empty_group_store_def)
qed

section \<open>Concrete runs\<close>

definition sample_groups :: legacy_group_config where
  "sample_groups = group_DefaultConfig\<lparr>gc_Enabled := True, gc_AdminPubkeys := [''founder1'']\<rparr>"

definition sample_world :: "string \<Rightarrow> group_world" where
  "sample_world random = \<lparr>gw_ok = (\<lambda>_. True), gw_now = 0, gw_random = random\<rparr>"

definition group_event :: "int \<Rightarrow> string \<Rightarrow> tag list \<Rightarrow> event" where
  "group_event kind pk ts = \<lparr>ev_id = '''', ev_pubkey = pk, ev_created_at = 0, ev_kind = kind, ev_tags = ts, ev_content = ''''\<rparr>"

definition founded :: "string \<Rightarrow> string \<Rightarrow> group_step" where
  "founded gid privacy = Saved (sample_world gid) (group_event KindCreateGroup ''founder1'' [[''h'', ''any''], [''privacy'', privacy]])"

definition then_saved :: "int \<Rightarrow> string \<Rightarrow> tag list \<Rightarrow> group_step" where
  "then_saved kind pk ts = Saved (sample_world ''code1234'') (group_event kind pk ts)"

abbreviation sample_after :: "group_step list \<Rightarrow> group_store" where
  "sample_after xs \<equiv> groups_after sample_groups (\<lambda>_. None) xs"

definition about_group :: "string list \<Rightarrow> nfilter" where
  "about_group hs = \<lparr>f_ids = [], f_authors = [], f_kinds = [], f_tags = [''h'' \<mapsto> hs], f_search = ''''\<rparr>"

lemmas group_run = groups_after_def empty_group_store_def founded_def then_saved_def sample_world_def sample_groups_def
  group_DefaultConfig_def group_event_def groups_OnEventSaved_def getGroupIDFromEvent_def first_tag_def last_tag_def Let_def
  processCreateGroup_def gs_CreateGroup_def CountGroupsByCreator_def publishGroupMetadata_def short_def

lemmas group_run_more = processAddUser_def processEditMetadata_def processJoinRequest_def then_publish_def gs_AddMember_def
  gs_UpdateGroupMetadata_def gs_RemoveMember_def GetGroup_def publishMemberList_def gs_IsAdmin_def gs_IsMember_def loadCache_def cached_group_def

lemma founded_group:
  "gs_IsAdmin (sample_after [founded ''deadbeef'' p]) ''deadbeef'' ''founder1''"
  "map_option g_Privacy (gs_cache (sample_after [founded ''deadbeef'' p]) ''deadbeef'') = Some p"
  by (simp_all add: group_run gs_IsAdmin_def)

lemma group_cache_tracks_members_witness:
  "gs_IsMember (sample_after [founded ''deadbeef'' ''open'']) ''deadbeef'' ''founder1''"
proof -
  obtain g where "gs_cache (sample_after [founded ''deadbeef'' ''open'']) ''deadbeef'' = Some g"
    using founded_group(2) by blast
  from group_cache_tracks_members [OF this, of "''founder1''"] show ?thesis using founded_group(1) by blast
qed

lemma group_limit_holds_witness:
  "CountGroupsByCreator (sample_after [founded ''deadbeef'' ''open'', founded ''cafebabe'' ''open'']) ''founder1'' \<le> 10"
  using group_limit_holds [of sample_groups "\<lambda>_. None" "[founded ''deadbeef'' ''open'', founded ''cafebabe'' ''open'']" "''founder1''"]
  by (simp add: sample_groups_def group_DefaultConfig_def)

text \<open>An edit of the name alone clears the privacy of a private group, and then anybody may read it.\<close>

theorem edit_of_name_opens_private_group:
  "groups_RejectFilter sample_groups (sample_after [founded ''deadbeef'' ''private'']) '''' (about_group [''deadbeef''])
     = Reject ''auth-required: authentication required to read this group'' \<and>
   groups_RejectFilter sample_groups (sample_after [founded ''deadbeef'' ''private'',
       then_saved KindEditMetadata ''founder1'' [[''h'', ''deadbeef''], [''name'', ''New'']]]) '''' (about_group [''deadbeef'']) = Accept"
  by (simp add: group_run group_run_more groups_RejectFilter_def getGroupIDFromFilter_def tag_values_def about_group_def
      privacy_CanRead_def privacy_ShowMetadata_def)

text \<open>The role of an ordinary member makes an admin.\<close>

theorem member_role_makes_an_admin:
  "gs_IsAdmin (sample_after [founded ''deadbeef'' ''open'',
      then_saved KindAddUser ''founder1'' [[''h'', ''deadbeef''], [''p'', ''newcomer''], [''role'', ''member'']]]) ''deadbeef'' ''newcomer''"
  by (simp add: group_run group_run_more)

text \<open>A filter is judged by its first group only.\<close>

theorem second_group_of_a_filter_unchecked:
  "groups_RejectFilter sample_groups (sample_after [founded ''deadbeef'' ''private'', founded ''cafebabe'' ''open'']) ''''
     (about_group [''cafebabe'', ''deadbeef'']) = Accept"
  by (simp add: group_run group_run_more groups_RejectFilter_def getGroupIDFromFilter_def tag_values_def about_group_def
      privacy_CanRead_def privacy_ShowMetadata_def)

text \<open>An admin who asks to join again is an admin until the next restart.\<close>

theorem rejoining_admin_lost_at_restart:
  "let joined = [founded ''deadbeef'' ''open'', then_saved KindGroupJoin ''founder1'' [[''h'', ''deadbeef'']]] in
   gs_IsAdmin (sample_after joined) ''deadbeef'' ''founder1'' \<and>
   \<not> gs_IsAdmin (sample_after (joined @ [Restart (\<lambda>_. True)])) ''deadbeef'' ''founder1''"
  by (simp add: group_run group_run_more AList.update.simps)

text \<open>A name of fewer than eight bytes in an admin's event panics in a log line, after the member is stored.\<close>

theorem short_name_panics:
  "let r = groups_OnEventSaved sample_groups (\<lambda>_. None) (sample_world ''code1234'')
       (group_event KindAddUser ''founder1'' [[''h'', ''deadbeef''], [''p'', ''bob'']]) (sample_after [founded ''deadbeef'' ''open'']) in
   fst r \<and> gs_IsMember (snd r) ''deadbeef'' ''bob''"
  by (simp add: group_run group_run_more)

text \<open>A closed group refuses join requests that name it, and takes one with an invite of its own that names another group.\<close>

theorem closed_group_joined_through_another:
  "let xs = [founded ''deadbeef'' ''closed'', founded ''cafebabe'' ''open'', then_saved KindCreateInvite ''founder1'' [[''h'', ''deadbeef'']]];
       join = (\<lambda>h. group_event KindGroupJoin ''newcomer'' [[''h'', h], [''code'', ''code1234'']]);
       verdict = (\<lambda>h. groups_RejectEvent sample_groups (sample_after xs) ''newcomer'' (join h)) in
   verdict ''deadbeef'' = Reject ''restricted: this group does not accept join requests'' \<and> verdict ''cafebabe'' = Accept \<and>
   gs_IsMember (sample_after (xs @ [Saved (sample_world ''unused00'') (join ''cafebabe'')])) ''deadbeef'' ''newcomer''"
  by (simp add: group_run group_run_more processCreateInvite_def invite_tags_def gs_CreateInvite_def gs_UseInvite_def invite_usable_def
      AList.map_entry.simps groups_RejectEvent_def handleManagementEvent_def privacy_CanJoin_def IsModeratorKind_def IsGroupManagementKind_def)

lemma others_membership_needs_an_admin_witness:
  "gs_IsAdmin (sample_after [founded ''deadbeef'' ''open'']) ''deadbeef'' ''founder1''"
proof -
  let ?st = "sample_after [founded ''deadbeef'' ''open'']"
  let ?ev = "group_event KindAddUser ''founder1'' [[''h'', ''deadbeef''], [''p'', ''newcomer'']]"
  have "groups_RejectEvent sample_groups ?st ''founder1'' ?ev = Accept"
    by (simp add: group_run group_run_more groups_RejectEvent_def handleModerationEvent_def IsModeratorKind_def)
  moreover have "member_row (snd (groups_OnEventSaved sample_groups (\<lambda>_. None) (sample_world ''x'') ?ev ?st)) ''deadbeef'' ''newcomer''
      \<noteq> member_row ?st ''deadbeef'' ''newcomer''"
    by (simp add: group_run group_run_more)
  ultimately show ?thesis
    using others_membership_needs_an_admin [of ?st sample_groups "\<lambda>_. None" "[founded ''deadbeef'' ''open'']" "''founder1''" ?ev
        "''newcomer''" "sample_world ''x''" "''deadbeef''"]
    by (simp add: group_event_def)
qed

end
