(* ===== verification/Admin_Console.thy ===== *)
theory Admin_Console
  imports Access_Control Relay_Config "HOL-Library.AList"
begin

text \<open>
  The admin console: internal/admin (sessions, authentication, the forms and paged lists) and cmd/admin, which serves it
  as a process of its own. HTML templates are left out: an answer is its status and message. A Redis command takes a
  flag that says whether Redis answers; sessions in it expire by themselves. \<open>net.ParseIP\<close>, \<open>net.ParseCIDR\<close> and
  \<open>strings.ToLower\<close> are parameters.
\<close>

section \<open>Sessions\<close>

record admin_session =
  as_Token :: string
  as_Pubkey :: string
  as_CreatedAt :: int
  as_ExpiresAt :: int

definition SessionTTL :: int where "SessionTTL = 24 * 3600 * ns_per_sec"

text \<open>A value in Redis with its deadline; \<open>None\<close> is a value that does not decode.\<close>

type_synonym redis_sessions = "(string \<times> (admin_session option \<times> int)) list"

record sessionStore =
  ss_sessions :: "(string \<times> admin_session) list"
  ss_rdb :: "redis_sessions option"

record redis_answers =
  set_answers :: bool
  get_answers :: bool
  del_answers :: bool

definition redis_up :: redis_answers where
  "redis_up = \<lparr>set_answers = True, get_answers = True, del_answers = True\<rparr>"

text \<open>\<open>rnd\<close> is the token drawn, \<open>None\<close> when the random source fails; the result \<open>None\<close> is that error.\<close>

definition createSession :: "string option \<Rightarrow> redis_answers \<Rightarrow> int \<Rightarrow> string \<Rightarrow> sessionStore \<Rightarrow> string option \<times> sessionStore" where
  "createSession rnd ra now pubkey s =
     (case rnd of None \<Rightarrow> (None, s)
      | Some token \<Rightarrow>
          let session = \<lparr>as_Token = token, as_Pubkey = pubkey, as_CreatedAt = now, as_ExpiresAt = now + SessionTTL\<rparr>;
              in_memory = (Some token, s\<lparr>ss_sessions := AList.update token session (ss_sessions s)\<rparr>) in
          case ss_rdb s of
            None \<Rightarrow> in_memory
          | Some rdb \<Rightarrow>
              if set_answers ra
              then (Some token, s\<lparr>ss_rdb := Some (AList.update token (Some session, now + SessionTTL) rdb)\<rparr>)
              else in_memory)"

definition deleteSession :: "redis_answers \<Rightarrow> string \<Rightarrow> sessionStore \<Rightarrow> sessionStore" where
  "deleteSession ra token s =
     s\<lparr>ss_rdb := map_option (\<lambda>rdb. if del_answers ra then AList.delete token rdb else rdb) (ss_rdb s),
       ss_sessions := AList.delete token (ss_sessions s)\<rparr>"

definition memory_session :: "redis_answers \<Rightarrow> int \<Rightarrow> string \<Rightarrow> sessionStore \<Rightarrow> admin_session option \<times> sessionStore" where
  "memory_session ra now token s =
     (case map_of (ss_sessions s) token of
        None \<Rightarrow> (None, s)
      | Some session \<Rightarrow> if now > as_ExpiresAt session then (None, deleteSession ra token s) else (Some session, s))"

definition redis_value :: "int \<Rightarrow> string \<Rightarrow> redis_sessions \<Rightarrow> admin_session option option" where
  "redis_value now token rdb = (case map_of rdb token of Some (v, deadline) \<Rightarrow> if now < deadline then Some v else None | None \<Rightarrow> None)"

definition getSession :: "redis_answers \<Rightarrow> int \<Rightarrow> string \<Rightarrow> sessionStore \<Rightarrow> admin_session option \<times> sessionStore" where
  "getSession ra now token s =
     (case ss_rdb s of
        None \<Rightarrow> memory_session ra now token s
      | Some rdb \<Rightarrow>
          if \<not> get_answers ra then memory_session ra now token s
          else case redis_value now token rdb of
            None \<Rightarrow> (None, s)
          | Some None \<Rightarrow> memory_session ra now token s
          | Some (Some session) \<Rightarrow> if now > as_ExpiresAt session then (None, deleteSession ra token s) else (Some session, s))"

definition cleanupExpired :: "int \<Rightarrow> sessionStore \<Rightarrow> sessionStore" where
  "cleanupExpired now s = s\<lparr>ss_sessions := filter (\<lambda>(_, session). \<not> now > as_ExpiresAt session) (ss_sessions s)\<rparr>"

section \<open>Authentication\<close>

text \<open>
  A request: the HTTP part that NIP-98 signs, its path without the query, the session cookie, the form (if it parses)
  and query values (the empty string when absent), and whether htmx sent it.
\<close>

record admin_request =
  ar_http :: http_request
  ar_path :: string
  ar_cookie :: "string option"
  ar_form_ok :: bool
  ar_form :: "string \<Rightarrow> string"
  ar_query :: "string \<Rightarrow> string"
  ar_htmx :: bool

record admin_lib =
  al_nostr :: nostr_lib
  al_nip98 :: nip98_lib
  al_ToLower :: "string \<Rightarrow> string"
  al_ParseIP :: "string \<Rightarrow> bool"
  al_ParseCIDR :: "string \<Rightarrow> bool"

record admin_env =
  ae_now :: int
  ae_rnd :: "string option"
  ae_redis :: redis_answers
  ae_calls :: call_faults

datatype admin_reply =
    Shown string
  | Toast string
  | Failed string int
  | RedirectTo string
  | LoggedIn string string bool
  | LoggedOut
  | Static string

definition cookie_session :: "admin_env \<Rightarrow> admin_request \<Rightarrow> sessionStore \<Rightarrow> admin_session option \<times> sessionStore" where
  "cookie_session env r s =
     (case ar_cookie r of
        None \<Rightarrow> (None, s)
      | Some token \<Rightarrow> if token = '''' then (None, s) else getSession (ae_redis env) (ae_now env) token s)"

text \<open>The key a request is authenticated as: by its NIP-98 header, else by its session.\<close>

definition authenticated :: "admin_lib \<Rightarrow> string list \<Rightarrow> admin_env \<Rightarrow> admin_request \<Rightarrow> sessionStore \<Rightarrow> string \<times> sessionStore" where
  "authenticated lib admins env r s =
     (case ValidateNIP98Auth (al_nostr lib) (al_nip98 lib) (ae_now env) (ar_http r) admins of
        Inr pk \<Rightarrow> (pk, s)
      | Inl _ \<Rightarrow>
          (case cookie_session env r s of
             (Some session, s') \<Rightarrow> (if as_Pubkey session \<in> set admins then as_Pubkey session else '''', s')
           | (None, s') \<Rightarrow> ('''', s')))"

record admin_state =
  ad_sessions :: sessionStore
  ad_store :: mgmt_store

definition requireAuth ::
  "admin_lib \<Rightarrow> string list \<Rightarrow> (admin_env \<Rightarrow> admin_request \<Rightarrow> mgmt_store \<Rightarrow> admin_reply \<times> mgmt_store) \<Rightarrow>
   admin_env \<Rightarrow> admin_request \<Rightarrow> admin_state \<Rightarrow> admin_reply \<times> admin_state" where
  "requireAuth lib admins next_handler env r st =
     (case authenticated lib admins env r (ad_sessions st) of (pk, s') \<Rightarrow>
        if pk = '''' then ((if ar_htmx r then Failed ''Authentication required'' 401 else RedirectTo ''/login''), st\<lparr>ad_sessions := s'\<rparr>)
        else (case next_handler env r (ad_store st) of (reply, d) \<Rightarrow> (reply, \<lparr>ad_sessions = s', ad_store = d\<rparr>)))"

definition handleLoginPage :: "string list \<Rightarrow> admin_env \<Rightarrow> admin_request \<Rightarrow> sessionStore \<Rightarrow> admin_reply \<times> sessionStore" where
  "handleLoginPage admins env r s =
     (case cookie_session env r s of
        (Some session, s') \<Rightarrow> (if as_Pubkey session \<in> set admins then RedirectTo ''/'' else Shown ''login.html'', s')
      | (None, s') \<Rightarrow> (Shown ''login.html'', s'))"

text \<open>A login sets a cookie with the token, marked secure over TLS or behind a proxy that says https.\<close>

definition handleLoginVerify :: "admin_lib \<Rightarrow> string list \<Rightarrow> admin_env \<Rightarrow> admin_request \<Rightarrow> sessionStore \<Rightarrow> admin_reply \<times> sessionStore" where
  "handleLoginVerify lib admins env r s =
     (case ValidateNIP98Auth (al_nostr lib) (al_nip98 lib) (ae_now env) (ar_http r) admins of
        Inl _ \<Rightarrow> (Failed ''Authentication failed'' 401, s)
      | Inr pk \<Rightarrow>
          (case createSession (ae_rnd env) (ae_redis env) (ae_now env) pk s of
             (None, s') \<Rightarrow> (Failed ''Failed to create session'' 500, s')
           | (Some token, s') \<Rightarrow> (LoggedIn token pk (rq_tls (ar_http r) \<or> rq_fwd_proto (ar_http r) = ''https''), s')))"

definition handleLogout :: "admin_env \<Rightarrow> admin_request \<Rightarrow> sessionStore \<Rightarrow> admin_reply \<times> sessionStore" where
  "handleLogout env r s =
     (LoggedOut, case ar_cookie r of
        None \<Rightarrow> s
      | Some token \<Rightarrow> if token = '''' then s else deleteSession (ae_redis env) token s)"

section \<open>The forms\<close>

definition normalizeHexInput :: "admin_lib \<Rightarrow> string \<Rightarrow> string" where
  "normalizeHexInput lib s = al_ToLower lib (TrimSpace s)"

definition admin_isValidHexPubkey :: "string \<Rightarrow> bool" where
  "admin_isValidHexPubkey s \<longleftrightarrow> length s = 64 \<and>
     list_all (\<lambda>c. (c \<ge> CHR ''0'' \<and> c \<le> CHR ''9'') \<or> (c \<ge> CHR ''a'' \<and> c \<le> CHR ''f'') \<or> (c \<ge> CHR ''A'' \<and> c \<le> CHR ''F'')) s"

definition isValidHexEventID :: "string \<Rightarrow> bool" where
  "isValidHexEventID s = admin_isValidHexPubkey s"

definition isValidIP :: "admin_lib \<Rightarrow> string \<Rightarrow> bool" where
  "isValidIP lib s \<longleftrightarrow> al_ParseIP lib s \<or> al_ParseCIDR lib s"

definition admin_truncatePubkey :: "string \<Rightarrow> string" where
  "admin_truncatePubkey pk = (if length pk \<le> 16 then pk else take 8 pk @ ''...'' @ drop (length pk - 8) pk)"

type_synonym admin_handler = "admin_env \<Rightarrow> admin_request \<Rightarrow> mgmt_store \<Rightarrow> admin_reply \<times> mgmt_store"

text \<open>Every form begins with the method and the parse of the form.\<close>

definition posted :: "(admin_env \<Rightarrow> (string \<Rightarrow> string) \<Rightarrow> mgmt_store \<Rightarrow> admin_reply \<times> mgmt_store) \<Rightarrow> admin_handler" where
  "posted k env r s =
     (if rq_method (ar_http r) \<noteq> ''POST'' then (Failed ''Method not allowed'' 405, s)
      else if \<not> ar_form_ok r then (Failed ''Invalid form data'' 400, s)
      else k env (ar_form r) s)"

text \<open>And ends with a call of the store: a failure is reported, a success is a toast.\<close>

definition stored :: "string \<Rightarrow> string \<Rightarrow> bool \<times> mgmt_store \<Rightarrow> admin_reply \<times> mgmt_store" where
  "stored what done_text res = (if fst res then Toast done_text else Failed (''Failed to '' @ what) 500, snd res)"

definition handleBanPubkey :: "admin_lib \<Rightarrow> admin_handler" where
  "handleBanPubkey lib = posted (\<lambda>env form s.
     let pubkey = normalizeHexInput lib (form ''pubkey''); reason = form ''reason'' in
     if pubkey = '''' then (Failed ''Pubkey is required'' 400, s)
     else if \<not> admin_isValidHexPubkey pubkey then (Failed ''Invalid pubkey format (must be 64 hex characters)'' 400, s)
     else stored ''ban pubkey'' (''Banned pubkey '' @ admin_truncatePubkey pubkey)
       (BanPubkey (stmt_ok (ae_calls env)) (reload_faults (ae_calls env)) pubkey reason s))"

definition handleUnbanPubkey :: "admin_lib \<Rightarrow> admin_handler" where
  "handleUnbanPubkey lib = posted (\<lambda>env form s.
     let pubkey = normalizeHexInput lib (form ''pubkey'') in
     if pubkey = '''' then (Failed ''Pubkey is required'' 400, s)
     else stored ''unban pubkey'' (''Unbanned pubkey '' @ admin_truncatePubkey pubkey)
       (UnbanPubkey (stmt_ok (ae_calls env)) (reload_faults (ae_calls env)) pubkey s))"

definition handleAllowPubkey :: "admin_lib \<Rightarrow> admin_handler" where
  "handleAllowPubkey lib = posted (\<lambda>env form s.
     let pubkey = normalizeHexInput lib (form ''pubkey'') in
     if pubkey = '''' then (Failed ''Pubkey is required'' 400, s)
     else if \<not> admin_isValidHexPubkey pubkey then (Failed ''Invalid pubkey format (must be 64 hex characters)'' 400, s)
     else stored ''allow pubkey'' (''Allowed pubkey '' @ admin_truncatePubkey pubkey) (AllowPubkey (stmt_ok (ae_calls env)) pubkey s))"

definition handleDisallowPubkey :: "admin_lib \<Rightarrow> admin_handler" where
  "handleDisallowPubkey lib = posted (\<lambda>env form s.
     let pubkey = normalizeHexInput lib (form ''pubkey'') in
     if pubkey = '''' then (Failed ''Pubkey is required'' 400, s)
     else stored ''disallow pubkey'' (''Removed pubkey '' @ admin_truncatePubkey pubkey @ '' from allowed list'')
       (RemoveAllowedPubkey (stmt_ok (ae_calls env)) pubkey s))"

definition handleBanEvent :: "admin_lib \<Rightarrow> admin_handler" where
  "handleBanEvent lib = posted (\<lambda>env form s.
     let eventID = normalizeHexInput lib (form ''event_id''); reason = form ''reason'' in
     if eventID = '''' then (Failed ''Event ID is required'' 400, s)
     else if \<not> isValidHexEventID eventID then (Failed ''Invalid event ID format (must be 64 hex characters)'' 400, s)
     else stored ''ban event'' (''Banned event '' @ admin_truncatePubkey eventID)
       (BanEvent (stmt_ok (ae_calls env)) (reload_faults (ae_calls env)) eventID reason s))"

definition handleUnbanEvent :: "admin_lib \<Rightarrow> admin_handler" where
  "handleUnbanEvent lib = posted (\<lambda>env form s.
     let eventID = normalizeHexInput lib (form ''event_id'') in
     if eventID = '''' then (Failed ''Event ID is required'' 400, s)
     else stored ''unban event'' (''Unbanned event '' @ admin_truncatePubkey eventID)
       (UnbanEvent (stmt_ok (ae_calls env)) (reload_faults (ae_calls env)) eventID s))"

definition handleApproveEvent :: "admin_lib \<Rightarrow> admin_handler" where
  "handleApproveEvent lib = posted (\<lambda>env form s.
     let eventID = normalizeHexInput lib (form ''event_id'') in
     if eventID = '''' then (Failed ''Event ID is required'' 400, s)
     else stored ''approve event'' (''Approved event '' @ admin_truncatePubkey eventID)
       (UpdateModerationStatus (stmt_ok (ae_calls env)) eventID Approved s))"

text \<open>Rejecting also bans; that the ban fails is only printed.\<close>

definition handleRejectEvent :: "admin_lib \<Rightarrow> admin_handler" where
  "handleRejectEvent lib = posted (\<lambda>env form s.
     let eventID = normalizeHexInput lib (form ''event_id''); reason = form ''reason'' in
     if eventID = '''' then (Failed ''Event ID is required'' 400, s)
     else case UpdateModerationStatus (stmt_ok (ae_calls env)) eventID Rejected_status s of
       (False, s') \<Rightarrow> (Failed ''Failed to reject event'' 500, s')
     | (True, s') \<Rightarrow> (Toast (''Rejected event '' @ admin_truncatePubkey eventID),
         snd (BanEvent (second_ok (ae_calls env)) (reload_faults (ae_calls env)) eventID reason s')))"

definition handleBlockIP :: "admin_lib \<Rightarrow> admin_handler" where
  "handleBlockIP lib = posted (\<lambda>env form s.
     let ip = form ''ip''; reason = form ''reason'' in
     if ip = '''' then (Failed ''IP address is required'' 400, s)
     else if \<not> isValidIP lib ip then (Failed ''Invalid IP address or CIDR format'' 400, s)
     else stored ''block IP'' (''Blocked IP '' @ ip) (BlockIP (stmt_ok (ae_calls env)) ip reason s))"

definition handleUnblockIP :: "admin_handler" where
  "handleUnblockIP = posted (\<lambda>env form s.
     let ip = form ''ip'' in
     if ip = '''' then (Failed ''IP address is required'' 400, s)
     else stored ''unblock IP'' (''Unblocked IP '' @ ip) (UnblockIP (stmt_ok (ae_calls env)) ip s))"

definition handleAllowKind :: "admin_handler" where
  "handleAllowKind = posted (\<lambda>env form s.
     let kindStr = form ''kind'' in
     if kindStr = '''' then (Failed ''Kind number is required'' 400, s)
     else case Atoi kindStr of
       None \<Rightarrow> (Failed ''Kind must be a valid integer'' 400, s)
     | Some kind \<Rightarrow>
         if kind < 0 \<or> kind > 65535 then (Failed ''Kind must be between 0 and 65535'' 400, s)
         else stored ''allow kind'' (''Allowed kind '' @ fmt_d kind) (AllowKind (stmt_ok (ae_calls env)) (reload_faults (ae_calls env)) kind s))"

definition handleDisallowKind :: "admin_handler" where
  "handleDisallowKind = posted (\<lambda>env form s.
     let kindStr = form ''kind'' in
     if kindStr = '''' then (Failed ''Kind number is required'' 400, s)
     else case Atoi kindStr of
       None \<Rightarrow> (Failed ''Kind must be a valid integer'' 400, s)
     | Some kind \<Rightarrow>
         stored ''disallow kind'' (''Disallowed kind '' @ fmt_d kind) (DisallowKind (stmt_ok (ae_calls env)) (reload_faults (ae_calls env)) kind s))"

definition setting_key :: "string \<Rightarrow> string option" where
  "setting_key field =
     (if field = ''name'' then Some ''relay_name''
      else if field = ''description'' then Some ''relay_description''
      else if field = ''icon'' then Some ''relay_icon'' else None)"

definition handleUpdateSettings :: "admin_handler" where
  "handleUpdateSettings = posted (\<lambda>env form s.
     case setting_key (form ''field'') of
       None \<Rightarrow> (Failed ''Unknown setting field'' 400, s)
     | Some key \<Rightarrow> stored ''update setting'' (''Updated '' @ form ''field'') (SetSetting (stmt_ok (ae_calls env)) key (form ''value'') s))"

section \<open>Paged lists\<close>

definition admin_parseListParams :: "admin_request \<Rightarrow> int \<times> int" where
  "admin_parseListParams r =
     (case Atoi (ar_query r ''limit'') of Some v \<Rightarrow> if v > 0 \<and> v \<le> 200 then v else 50 | None \<Rightarrow> 50,
      case Atoi (ar_query r ''offset'') of Some v \<Rightarrow> if v \<ge> 0 then v else 0 | None \<Rightarrow> 0)"

text \<open>The store's list queries: \<open>rows\<close> is the table in the order of the query.\<close>

definition list_rows :: "'a list \<Rightarrow> int \<Rightarrow> int \<Rightarrow> 'a list" where
  "list_rows rows limit offset = take (nat (if limit \<le> 0 then 100 else limit)) (drop (nat offset) rows)"

record 'a list_data =
  ld_Items :: "'a list"
  ld_Limit :: int
  ld_Offset :: int
  ld_HasMore :: bool
  ld_TotalCount :: int

text \<open>One row more than asked for tells whether there are more; the total is counted by a second query, whose error is ignored.\<close>

definition handleListBannedPubkeys :: "bool \<Rightarrow> bool \<Rightarrow> 'a list \<Rightarrow> admin_request \<Rightarrow> 'a list_data option" where
  "handleListBannedPubkeys ok1 ok2 rows r =
     (case admin_parseListParams r of (limit, offset) \<Rightarrow>
        if \<not> ok1 then None
        else let items = list_rows rows (limit + 1) offset; hasMore = int (length items) > limit in
          Some \<lparr>ld_Items = (if hasMore then take (nat limit) items else items), ld_Limit = limit, ld_Offset = offset,
            ld_HasMore = hasMore, ld_TotalCount = int (length (if ok2 then list_rows rows 10000 0 else []))\<rparr>)"

section \<open>Routes\<close>

text \<open>A page that only reads: its rendering is not modelled.\<close>

definition read_page :: "string \<Rightarrow> admin_handler" where
  "read_page name env r s = (Shown name, s)"

definition protected_route :: "admin_lib \<Rightarrow> string \<Rightarrow> admin_handler" where
  "protected_route lib path =
     (if path = ''/pubkeys/ban'' then handleBanPubkey lib
      else if path = ''/pubkeys/unban'' then handleUnbanPubkey lib
      else if path = ''/pubkeys/allow'' then handleAllowPubkey lib
      else if path = ''/pubkeys/disallow'' then handleDisallowPubkey lib
      else if path = ''/events/ban'' then handleBanEvent lib
      else if path = ''/events/unban'' then handleUnbanEvent lib
      else if path = ''/moderation/approve'' then handleApproveEvent lib
      else if path = ''/moderation/reject'' then handleRejectEvent lib
      else if path = ''/ips/block'' then handleBlockIP lib
      else if path = ''/ips/unblock'' then handleUnblockIP
      else if path = ''/kinds/allow'' then handleAllowKind
      else if path = ''/kinds/disallow'' then handleDisallowKind
      else if path = ''/settings/update'' then handleUpdateSettings
      else if path \<in> set [''/pubkeys'', ''/pubkeys/banned'', ''/pubkeys/allowed'', ''/events'', ''/events/banned'', ''/moderation'',
        ''/moderation/queue'', ''/ips'', ''/ips/blocked'', ''/kinds'', ''/kinds/allowed'', ''/settings'', ''/haven'', ''/haven/stats'',
        ''/browser'', ''/browser/list'', ''/browser/event'', ''/stats'', ''/stats/refresh'', ''/wot'', ''/wot/stats'', ''/wot/graph'']
      then read_page path
      else read_page ''/'')"

text \<open>The mux: three public routes and the static files; everything else asks for authentication.\<close>

definition admin_serve :: "admin_lib \<Rightarrow> string list \<Rightarrow> admin_env \<Rightarrow> admin_request \<Rightarrow> admin_state \<Rightarrow> admin_reply \<times> admin_state" where
  "admin_serve lib admins env r st =
     (if HasPrefix (ar_path r) ''/static/'' then (Static (ar_path r), st)
      else if ar_path r = ''/login'' then
        (case handleLoginPage admins env r (ad_sessions st) of (reply, s) \<Rightarrow> (reply, st\<lparr>ad_sessions := s\<rparr>))
      else if ar_path r = ''/login/verify'' then
        (case handleLoginVerify lib admins env r (ad_sessions st) of (reply, s) \<Rightarrow> (reply, st\<lparr>ad_sessions := s\<rparr>))
      else if ar_path r = ''/logout'' then
        (case handleLogout env r (ad_sessions st) of (reply, s) \<Rightarrow> (reply, st\<lparr>ad_sessions := s\<rparr>))
      else requireAuth lib admins (protected_route lib (ar_path r)) env r st)"

section \<open>The admin process\<close>

definition admin_envBool :: "(string \<Rightarrow> string) \<Rightarrow> env \<Rightarrow> string \<Rightarrow> bool" where
  "admin_envBool lower e key = (lower (e key) \<in> {''true'', ''1'', ''yes''})"

definition envOrDefault :: "env \<Rightarrow> string \<Rightarrow> string \<Rightarrow> string" where
  "envOrDefault e key fallback = (if e key \<noteq> '''' then e key else fallback)"

record admin_haven =
  ah_OwnerPubkey :: string
  ah_AllowPublicOutboxRead :: bool
  ah_AllowPublicInboxWrite :: bool
  ah_RequireAuthForChat :: bool
  ah_RequireAuthForPrivate :: bool
  ah_BlastrEnabled :: bool
  ah_BlastrRelays :: "string list"
  ah_ImporterEnabled :: bool
  ah_ImporterRelays :: "string list"
  ah_ImporterRealtimeEnabled :: bool

datatype admin_boot =
    Fatal string
  | Panic
  | Serving int "string list" "admin_haven option"

text \<open>\<open>Sprintf\<close> of the connection string.\<close>

definition admin_dsn :: "env \<Rightarrow> string" where
  "admin_dsn e = ''host='' @ envOrDefault e ''DB_HOST'' ''localhost'' @ '' port='' @ envOrDefault e ''DB_PORT'' ''5432'' @
     '' dbname='' @ envOrDefault e ''DB_NAME'' ''nostr'' @ '' user='' @ envOrDefault e ''DB_USER'' ''postgres'' @
     '' password='' @ e ''DB_PASSWORD'' @ '' sslmode=disable''"

definition admin_haven_of :: "(string \<Rightarrow> string) \<Rightarrow> env \<Rightarrow> admin_haven" where
  "admin_haven_of lower e = \<lparr>ah_OwnerPubkey = e ''HAVEN_OWNER_PUBKEY'',
     ah_AllowPublicOutboxRead = admin_envBool lower e ''HAVEN_ALLOW_PUBLIC_OUTBOX_READ'',
     ah_AllowPublicInboxWrite = admin_envBool lower e ''HAVEN_ALLOW_PUBLIC_INBOX_WRITE'',
     ah_RequireAuthForChat = admin_envBool lower e ''HAVEN_REQUIRE_AUTH_FOR_CHAT'',
     ah_RequireAuthForPrivate = admin_envBool lower e ''HAVEN_REQUIRE_AUTH_FOR_PRIVATE'',
     ah_BlastrEnabled = admin_envBool lower e ''HAVEN_BLASTR_ENABLED'',
     ah_BlastrRelays = parseCommaSeparated (e ''HAVEN_BLASTR_RELAYS''),
     ah_ImporterEnabled = admin_envBool lower e ''HAVEN_IMPORTER_ENABLED'',
     ah_ImporterRelays = parseCommaSeparated (e ''HAVEN_IMPORTER_RELAYS''),
     ah_ImporterRealtimeEnabled = admin_envBool lower e ''HAVEN_IMPORTER_REALTIME''\<rparr>"

text \<open>\<open>opens\<close>, \<open>pings\<close> and \<open>inits\<close> say whether the database can be opened and reached and the tables created.\<close>

definition admin_main :: "(string \<Rightarrow> string) \<Rightarrow> (string \<Rightarrow> bool) \<Rightarrow> bool \<Rightarrow> bool \<Rightarrow> env \<Rightarrow> admin_boot" where
  "admin_main lower opens pings inits e =
     (let port = env_int any_int e ''ADMIN_PORT'' 8080;
          admins = parseCommaSeparated (e ''ADMIN_PUBKEYS'') in
      if admins = [] then Fatal ''ADMIN_PUBKEYS is required''
      else if \<not> opens (admin_dsn e) then Fatal ''Failed to connect to database''
      else if \<not> pings then Fatal ''Database unreachable''
      else if \<not> inits then Fatal ''Failed to initialize management store''
      else if admin_envBool lower e ''HAVEN_ENABLED'' then
        (if length (e ''HAVEN_OWNER_PUBKEY'') < 16 then Panic else Serving port admins (Some (admin_haven_of lower e)))
      else Serving port admins None)"

section \<open>Sessions come from logins\<close>

datatype admin_step = Request admin_env admin_request | Cleanup int

fun admin_do :: "admin_lib \<Rightarrow> string list \<Rightarrow> admin_step \<Rightarrow> admin_state \<Rightarrow> admin_state" where
  "admin_do lib admins (Request env r) st = snd (admin_serve lib admins env r st)"
| "admin_do lib admins (Cleanup now) st = st\<lparr>ad_sessions := cleanupExpired now (ad_sessions st)\<rparr>"

text \<open>A login that succeeds: its token, the key that signed the request, and when.\<close>

definition logged_in :: "admin_lib \<Rightarrow> string list \<Rightarrow> admin_step list \<Rightarrow> string \<Rightarrow> string \<Rightarrow> int \<Rightarrow> bool" where
  "logged_in lib admins xs token pk t \<longleftrightarrow> (\<exists>env r. Request env r \<in> set xs \<and> ar_path r = ''/login/verify'' \<and>
     ValidateNIP98Auth (al_nostr lib) (al_nip98 lib) (ae_now env) (ar_http r) admins = Inr pk \<and> ae_rnd env = Some token \<and> ae_now env = t)"

type_synonym login_set = "string \<Rightarrow> string \<Rightarrow> int \<Rightarrow> bool"

definition from_login :: "login_set \<Rightarrow> string \<Rightarrow> admin_session \<Rightarrow> bool" where
  "from_login L token session \<longleftrightarrow> L token (as_Pubkey session) (as_ExpiresAt session - SessionTTL)"

definition redis_rows :: "sessionStore \<Rightarrow> redis_sessions" where
  "redis_rows s = (case ss_rdb s of Some rdb \<Rightarrow> rdb | None \<Rightarrow> [])"

definition row_from_login :: "login_set \<Rightarrow> string \<times> (admin_session option \<times> int) \<Rightarrow> bool" where
  "row_from_login L p \<longleftrightarrow> (\<forall>session. fst (snd p) = Some session \<longrightarrow> from_login L (fst p) session)"

lemma row_from_login_Some [simp]: "row_from_login L (token, Some session, deadline) \<longleftrightarrow> from_login L token session"
  by (simp add: row_from_login_def)

definition sessions_ok :: "login_set \<Rightarrow> sessionStore \<Rightarrow> bool" where
  "sessions_ok L s \<longleftrightarrow> (\<forall>p \<in> set (ss_sessions s). from_login L (fst p) (snd p)) \<and> (\<forall>p \<in> set (redis_rows s). row_from_login L p)"

lemma set_AList_update: "p \<in> set (AList.update k v xs) \<Longrightarrow> p = (k, v) \<or> p \<in> set xs"
  by (induction xs) (auto split: if_splits)

lemma sessions_ok_delete: "sessions_ok L s \<Longrightarrow> sessions_ok L (deleteSession ra token s)"
  by (cases "ss_rdb s") (auto simp: sessions_ok_def deleteSession_def redis_rows_def AList.delete_eq)

lemma sessions_ok_cleanup: "sessions_ok L s \<Longrightarrow> sessions_ok L (cleanupExpired now s)"
  by (auto simp: sessions_ok_def cleanupExpired_def redis_rows_def)

lemma sessions_ok_mono: "sessions_ok L s \<Longrightarrow> (\<And>token pk t. L token pk t \<Longrightarrow> L' token pk t) \<Longrightarrow> sessions_ok L' s"
  by (auto simp: sessions_ok_def from_login_def row_from_login_def)

lemma sessions_ok_create:
  assumes "sessions_ok L s" "\<And>token. rnd = Some token \<Longrightarrow> L token pk now"
  shows "sessions_ok L (snd (createSession rnd ra now pk s))"
  using assms by (auto simp: createSession_def sessions_ok_def from_login_def redis_rows_def Let_def dest!: set_AList_update split: option.splits)

text \<open>Looking a session up: what it finds is from a login no more than a day old.\<close>

lemma memory_session_ok:
  assumes "sessions_ok L s"
  shows "sessions_ok L (snd (memory_session ra now token s)) \<and>
    (\<forall>session. fst (memory_session ra now token s) = Some session \<longrightarrow> from_login L token session \<and> now \<le> as_ExpiresAt session)"
  using assms by (auto simp: memory_session_def sessions_ok_delete split: option.split)
    (fastforce simp: sessions_ok_def dest!: map_of_SomeD)

lemma getSession_ok:
  assumes "sessions_ok L s"
  shows "sessions_ok L (snd (getSession ra now token s)) \<and>
    (\<forall>session. fst (getSession ra now token s) = Some session \<longrightarrow> from_login L token session \<and> now \<le> as_ExpiresAt session)"
proof -
  have "from_login L token session" if "ss_rdb s = Some rdb" "redis_value now token rdb = Some (Some session)" for rdb session
    using assms that by (fastforce simp: redis_value_def sessions_ok_def redis_rows_def dest!: map_of_SomeD split: option.splits if_splits)
  then show ?thesis
    using memory_session_ok [OF assms] assms
    by (auto simp: getSession_def sessions_ok_delete split: option.split)
qed

lemma cookie_session_ok:
  assumes "sessions_ok L s"
  shows "sessions_ok L (snd (cookie_session env r s)) \<and>
    (\<forall>session. fst (cookie_session env r s) = Some session \<longrightarrow>
      (\<exists>token. ar_cookie r = Some token \<and> from_login L token session \<and> ae_now env \<le> as_ExpiresAt session))"
  using assms getSession_ok [OF assms] by (auto simp: cookie_session_def split: option.split)

lemma sessions_ok_serve:
  assumes "sessions_ok L (ad_sessions st)"
    and "\<And>token pk. ar_path r = ''/login/verify'' \<Longrightarrow> ae_rnd env = Some token \<Longrightarrow>
      ValidateNIP98Auth (al_nostr lib) (al_nip98 lib) (ae_now env) (ar_http r) admins = Inr pk \<Longrightarrow> L token pk (ae_now env)"
  shows "sessions_ok L (ad_sessions (snd (admin_serve lib admins env r st)))"
proof -
  have c: "sessions_ok L (snd (cookie_session env r (ad_sessions st)))" using cookie_session_ok [OF assms(1)] by simp
  have v: "sessions_ok L (snd (handleLoginVerify lib admins env r (ad_sessions st)))" if "ar_path r = ''/login/verify''"
    using assms(1) sessions_ok_create [OF assms(1)] assms(2) [OF that]
    by (auto simp: handleLoginVerify_def split: sum.split option.split prod.split) (metis snd_conv)+
  have a: "sessions_ok L (snd (authenticated lib admins env r (ad_sessions st)))"
    using c assms(1) by (auto simp: authenticated_def split: sum.split option.split prod.split)
  have p: "sessions_ok L (snd (handleLoginPage admins env r (ad_sessions st)))"
    using c by (auto simp: handleLoginPage_def split: option.split prod.split)
  have q: "sessions_ok L (ad_sessions (snd (requireAuth lib admins h env r st)))" for h
    using a by (auto simp: requireAuth_def split: prod.split)
  have o': "sessions_ok L (snd (handleLogout env r (ad_sessions st)))"
    using assms(1) by (auto simp: handleLogout_def sessions_ok_delete split: option.split)
  show ?thesis
    using assms(1) p q v o' by (auto simp: admin_serve_def split: prod.split)
qed

lemma sessions_ok_do:
  "sessions_ok (logged_in lib admins xs) (ad_sessions st) \<Longrightarrow> sessions_ok (logged_in lib admins (xs @ [x])) (ad_sessions (admin_do lib admins x st))"
proof (cases x)
  case (Request env r)
  assume "sessions_ok (logged_in lib admins xs) (ad_sessions st)"
  then have "sessions_ok (logged_in lib admins (xs @ [x])) (ad_sessions st)"
    by (rule sessions_ok_mono) (auto simp: logged_in_def)
  then show ?thesis unfolding Request admin_do.simps
    by (rule sessions_ok_serve) (auto simp: logged_in_def)
next
  case (Cleanup now)
  assume "sessions_ok (logged_in lib admins xs) (ad_sessions st)"
  then show ?thesis unfolding Cleanup
    by (auto intro: sessions_ok_cleanup sessions_ok_mono simp: logged_in_def)
qed

section \<open>Properties\<close>

lemma store_unchanged:
  assumes "ad_store (snd (admin_serve lib admins env r st)) \<noteq> ad_store st"
  shows "rq_method (ar_http r) = ''POST'' \<and> ar_form_ok r \<and> fst (authenticated lib admins env r (ad_sessions st)) \<noteq> ''''"
proof -
  have "snd (admin_serve lib admins env r st) = snd (requireAuth lib admins (protected_route lib (ar_path r)) env r st)"
    using assms by (auto simp: admin_serve_def split: if_splits prod.splits)
  then have d: "ad_store (snd (requireAuth lib admins (protected_route lib (ar_path r)) env r st)) \<noteq> ad_store st"
    using assms by auto
  then have a: "fst (authenticated lib admins env r (ad_sessions st)) \<noteq> ''''"
    by (auto simp: requireAuth_def split: if_splits prod.splits)
  with d have h: "snd (protected_route lib (ar_path r) env r (ad_store st)) \<noteq> ad_store st"
    by (auto simp: requireAuth_def split: if_splits prod.splits)
  have p: "snd (posted k env r (ad_store st)) \<noteq> ad_store st \<Longrightarrow> rq_method (ar_http r) = ''POST'' \<and> ar_form_ok r" for k
    by (auto simp: posted_def split: if_splits)
  have "rq_method (ar_http r) = ''POST'' \<and> ar_form_ok r"
  proof (rule ccontr)
    assume n: "\<not> (rq_method (ar_http r) = ''POST'' \<and> ar_form_ok r)"
    then have "snd (posted k env r (ad_store st)) = ad_store st" for k using p by blast
    then have "snd (protected_route lib (ar_path r) env r (ad_store st)) = ad_store st"
      unfolding protected_route_def
      by (simp add: handleBanPubkey_def handleUnbanPubkey_def handleAllowPubkey_def handleDisallowPubkey_def handleBanEvent_def
          handleUnbanEvent_def handleApproveEvent_def handleRejectEvent_def handleBlockIP_def handleUnblockIP_def handleAllowKind_def
          handleDisallowKind_def handleUpdateSettings_def read_page_def)
    with h show False by simp
  qed
  with a show ?thesis by simp
qed

definition no_admin_sessions :: "bool \<Rightarrow> mgmt_store \<Rightarrow> admin_state" where
  "no_admin_sessions redis d = \<lparr>ad_sessions = \<lparr>ss_sessions = [], ss_rdb = (if redis then Some [] else None)\<rparr>, ad_store = d\<rparr>"

lemma console_sessions_ok:
  "sessions_ok (logged_in lib admins xs) (ad_sessions (fold (admin_do lib admins) xs (no_admin_sessions redis d)))"
proof (induction xs rule: rev_induct)
  case Nil
  show ?case by (simp add: no_admin_sessions_def sessions_ok_def redis_rows_def)
next
  case (snoc x xs)
  then show ?case by (simp add: sessions_ok_do)
qed

text \<open>C15: The console changes the management tables only on behalf of an admin who has lately proved it: after any requests
  and whatever fails, a request that changes them is a POST, and either carries a fresh NIP-98 signature of a
  configured admin, or a cookie whose token was issued at most 24 hours before to a key that signed such a
  request and is still configured.\<close>

theorem console_change_needs_recent_login:
  assumes "st = fold (admin_do lib admins) xs (no_admin_sessions redis d)"
    and "ad_store (snd (admin_serve lib admins env r st)) \<noteq> ad_store st"
  shows "rq_method (ar_http r) = ''POST'' \<and>
    ((\<exists>pk. ValidateNIP98Auth (al_nostr lib) (al_nip98 lib) (ae_now env) (ar_http r) admins = Inr pk) \<or>
     (\<exists>token pk t. ar_cookie r = Some token \<and> pk \<in> set admins \<and> logged_in lib admins xs token pk t \<and> ae_now env \<le> t + SessionTTL))"
proof -
  from store_unchanged [OF assms(2)] have post: "rq_method (ar_http r) = ''POST''"
    and auth: "fst (authenticated lib admins env r (ad_sessions st)) \<noteq> ''''" by simp_all
  show ?thesis
  proof (cases "ValidateNIP98Auth (al_nostr lib) (al_nip98 lib) (ae_now env) (ar_http r) admins")
    case (Inl e)
    then obtain session where s: "fst (cookie_session env r (ad_sessions st)) = Some session" "as_Pubkey session \<in> set admins"
      using auth by (auto simp: authenticated_def split: prod.splits option.splits if_splits)
    have "sessions_ok (logged_in lib admins xs) (ad_sessions st)" unfolding assms(1) by (rule console_sessions_ok)
    from cookie_session_ok [OF this, of env r] s(1) obtain token where
      "ar_cookie r = Some token" "from_login (logged_in lib admins xs) token session" "ae_now env \<le> as_ExpiresAt session" by auto
    then show ?thesis using post s(2) by (force simp: from_login_def)
  qed (use post in auto)
qed

text \<open>Logging out ends a session: once Redis has deleted it (or where there is none), the token opens nothing until it is
  issued again.\<close>

theorem logout_ends_session:
  assumes "ar_cookie r = Some token" "token \<noteq> ''''" "ss_rdb s = None \<or> del_answers (ae_redis env)"
  shows "fst (getSession ra now token (snd (handleLogout env r s))) = None"
  using assms by (auto simp: handleLogout_def deleteSession_def getSession_def memory_session_def redis_value_def AList.delete_conv'
      split: option.splits)

definition console_lib :: admin_lib where
  "console_lib = \<lparr>al_nostr = accepting_lib, al_nip98 = toy_l98, al_ToLower = id, al_ParseIP = (\<lambda>_. True), al_ParseCIDR = (\<lambda>_. False)\<rparr>"

definition console_env :: "int \<Rightarrow> redis_answers \<Rightarrow> admin_env" where
  "console_env now ra = \<lparr>ae_now = now, ae_rnd = Some ''t0ken'', ae_redis = ra, ae_calls = fine\<rparr>"

text \<open>A signed login and a form sent with the cookie alone.\<close>

definition login_request :: admin_request where
  "login_request = \<lparr>ar_http = admin_post, ar_path = ''/login/verify'', ar_cookie = None, ar_form_ok = True, ar_form = (\<lambda>_. ''''),
     ar_query = (\<lambda>_. ''''), ar_htmx = False\<rparr>"

definition form_request :: "string \<Rightarrow> (string \<Rightarrow> string) \<Rightarrow> admin_request" where
  "form_request path form = login_request\<lparr>ar_http := admin_post\<lparr>rq_auth := ''''\<rparr>, ar_path := path, ar_cookie := Some ''t0ken'', ar_form := form\<rparr>"

definition block_request :: admin_request where
  "block_request = form_request ''/ips/block'' (\<lambda>k. if k = ''ip'' then ''192.0.2.1'' else '''')"

lemma signed_login [simp]:
  "ValidateNIP98Auth (al_nostr console_lib) (al_nip98 console_lib) (100000000000) (ar_http login_request) [''admin''] = Inr ''admin''"
  "ValidateNIP98Auth (al_nostr console_lib) (al_nip98 console_lib) now (ar_http (form_request path form)) [''admin''] = Inl ErrMissingAuth"
  by (simp_all add: console_lib_def login_request_def form_request_def ValidateNIP98Auth_def admin_post_def toy_l98_def admin_event_def accepting_lib_def
      getRequestURL_def TrimPrefix_def)

lemmas console_defs = admin_serve_def handleLoginVerify_def createSession_def requireAuth_def authenticated_def cookie_session_def
  getSession_def memory_session_def redis_value_def handleLogout_def deleteSession_def no_admin_sessions_def console_env_def redis_up_def
  block_request_def SessionTTL_def

text \<open>After a login in Redis, and nothing else.\<close>

definition after_login :: "redis_answers \<Rightarrow> admin_state" where
  "after_login ra = fold (admin_do console_lib [''admin'']) [Request (console_env (100000000000) ra) login_request] (no_admin_sessions True fresh_store)"

lemma after_login_eq:
  "after_login ra = \<lparr>ad_sessions = (let session = \<lparr>as_Token = ''t0ken'', as_Pubkey = ''admin'', as_CreatedAt = 100000000000,
       as_ExpiresAt = 100000000000 + SessionTTL\<rparr> in
     if set_answers ra then \<lparr>ss_sessions = [], ss_rdb = Some [(''t0ken'', Some session, 100000000000 + SessionTTL)]\<rparr>
     else \<lparr>ss_sessions = [(''t0ken'', session)], ss_rdb = Some []\<rparr>), ad_store = fresh_store\<rparr>"
proof -
  have "ar_path login_request = ''/login/verify''" by (simp add: login_request_def)
  then show ?thesis
    by (simp add: after_login_def admin_serve_def handleLoginVerify_def createSession_def no_admin_sessions_def console_env_def Let_def)
qed

text \<open>Sending the form with the cookie.\<close>

lemma form_serve:
  "admin_serve console_lib [''admin''] (console_env now ra) block_request st =
    (case getSession ra now ''t0ken'' (ad_sessions st) of
       (session, s') \<Rightarrow>
         if session \<noteq> None \<and> as_Pubkey (the session) = ''admin''
         then (Toast ''Blocked IP 192.0.2.1'', \<lparr>ad_sessions = s', ad_store = snd (BlockIP True ''192.0.2.1'' '''' (ad_store st))\<rparr>)
         else (RedirectTo ''/login'', st\<lparr>ad_sessions := s'\<rparr>))"
proof -
  have c: "cookie_session (console_env now ra) block_request s = getSession ra now ''t0ken'' s" for s
    by (simp add: cookie_session_def block_request_def form_request_def console_env_def)
  have v: "ValidateNIP98Auth (al_nostr console_lib) (al_nip98 console_lib) (ae_now (console_env now ra)) (ar_http block_request) [''admin''] = Inl ErrMissingAuth"
    by (simp add: block_request_def)
  have h: "protected_route console_lib ''/ips/block'' (console_env now ra) block_request d =
      (Toast ''Blocked IP 192.0.2.1'', snd (BlockIP True ''192.0.2.1'' '''' d))" for d
    by (simp add: protected_route_def block_request_def form_request_def login_request_def admin_post_def handleBlockIP_def posted_def
        stored_def isValidIP_def console_lib_def console_env_def fine_def BlockIP_def Let_def)
  have p: "ar_path block_request = ''/ips/block''" "\<not> ar_htmx block_request" by (simp_all add: block_request_def form_request_def login_request_def)
  show ?thesis
    by (cases "getSession ra now ''t0ken'' (ad_sessions st)")
      (auto simp: admin_serve_def requireAuth_def authenticated_def c v h p split: option.splits)
qed

lemma block_blocks:
  "ad_store (snd (admin_serve console_lib [''admin''] (console_env 200000000000 redis_up) block_request (after_login redis_up))) \<noteq> ad_store (after_login redis_up)"
proof -
  have "blocked_ips (st_db (ad_store (snd (admin_serve console_lib [''admin''] (console_env 200000000000 redis_up) block_request (after_login redis_up))))) ''192.0.2.1'' = Some ''''"
    by (simp add: form_serve after_login_eq redis_up_def getSession_def redis_value_def SessionTTL_def BlockIP_def)
  moreover have "blocked_ips (st_db (ad_store (after_login redis_up))) ''192.0.2.1'' = None"
    by (simp add: after_login_eq fresh_store_def empty_mgmt_db_def)
  ultimately show ?thesis by auto
qed

lemma console_change_needs_recent_login_witness:
  "\<exists>t. logged_in console_lib [''admin''] [Request (console_env 100000000000 redis_up) login_request] ''t0ken'' ''admin'' t \<and> 200000000000 \<le> t + SessionTTL"
proof -
  have v: "ValidateNIP98Auth (al_nostr console_lib) (al_nip98 console_lib) (ae_now (console_env 200000000000 redis_up)) (ar_http block_request) [''admin''] \<noteq> Inr pk" for pk
    by (simp add: block_request_def)
  have "ar_cookie block_request = Some ''t0ken''" by (simp add: block_request_def form_request_def)
  with console_change_needs_recent_login [OF after_login_def block_blocks] v show ?thesis
    by (auto simp: console_env_def)
qed

text \<open>If Redis does not answer the deletion, the session that was logged out goes on opening the console.\<close>

theorem logout_can_leave_session:
  assumes "ra = redis_up\<lparr>del_answers := False\<rparr>"
  shows "let st = snd (admin_serve console_lib [''admin''] (console_env 200000000000 ra) (block_request\<lparr>ar_path := ''/logout''\<rparr>) (after_login redis_up)) in
    fst (admin_serve console_lib [''admin''] (console_env 300000000000 redis_up) block_request st) = Toast ''Blocked IP 192.0.2.1''"
proof -
  have "ar_cookie block_request = Some ''t0ken''" by (simp add: block_request_def form_request_def)
  then show ?thesis
    by (simp add: form_serve Let_def) (simp add: admin_serve_def handleLogout_def deleteSession_def console_env_def assms redis_up_def
        after_login_eq getSession_def redis_value_def SessionTTL_def)
qed

text \<open>A session kept in memory because Redis did not take it is not found when Redis answers again, although it is kept as a
  backup: the admin who has just logged in is sent back to the login page.\<close>

theorem memory_backup_is_not_consulted:
  assumes "ra = redis_up\<lparr>set_answers := False\<rparr>"
  shows "fst (admin_serve console_lib [''admin''] (console_env 200000000000 redis_up) block_request (after_login ra)) = RedirectTo ''/login'' \<and>
    map_of (ss_sessions (ad_sessions (after_login ra))) ''t0ken'' \<noteq> None"
  by (simp add: form_serve after_login_eq assms redis_up_def getSession_def redis_value_def)

lemma one_row_more:
  "0 \<le> limit \<Longrightarrow> (if int (length (take (nat (limit + 1)) xs)) > limit then take (nat limit) (take (nat (limit + 1)) xs) else take (nat (limit + 1)) xs)
     = take (nat limit) xs"
  "0 \<le> limit \<Longrightarrow> int (length (take (nat (limit + 1)) xs)) > limit \<longleftrightarrow> int (length xs) > limit"
  by (auto simp: min_def nat_add_distrib)

text \<open>A page shows the rows it is asked for, says whether there are more, and counts them all, up to ten thousand.\<close>

theorem paged_list_shows_its_rows:
  assumes "admin_parseListParams r = (limit, offset)"
  shows "1 \<le> limit \<and> limit \<le> 200 \<and> 0 \<le> offset \<and>
    handleListBannedPubkeys True True rows r = Some \<lparr>ld_Items = take (nat limit) (drop (nat offset) rows), ld_Limit = limit,
      ld_Offset = offset, ld_HasMore = (int (length rows) > offset + limit), ld_TotalCount = min 10000 (int (length rows))\<rparr>"
proof -
  have l: "1 \<le> limit \<and> limit \<le> 200 \<and> 0 \<le> offset"
    using assms by (auto simp: admin_parseListParams_def split: option.splits if_splits)
  have more: "int (length (drop (nat offset) rows)) > limit \<longleftrightarrow> int (length rows) > offset + limit" using l by auto
  have "int (length (list_rows rows 10000 0)) = min 10000 (int (length rows))" by (simp add: list_rows_def min_def)
  moreover have "list_rows rows (limit + 1) offset = take (nat (limit + 1)) (drop (nat offset) rows)" using l by (simp add: list_rows_def)
  ultimately show ?thesis
    using l one_row_more [of limit "drop (nat offset) rows"] more
    unfolding handleListBannedPubkeys_def assms by (simp del: length_take length_drop take_take)
qed

text \<open>A process for members' boxes, which have no single owner, does not start.\<close>

theorem console_needs_an_owner:
  assumes "admin_envBool lower e ''HAVEN_ENABLED''" "length (e ''HAVEN_OWNER_PUBKEY'') < 16"
    and "parseCommaSeparated (e ''ADMIN_PUBKEYS'') \<noteq> []" "opens (admin_dsn e)"
  shows "admin_main lower opens True True e = Panic"
  using assms by (simp add: admin_main_def)

end
