(* ===== verification/Search_Index.thy ===== *)
theory Search_Index
  imports Relay_Queries Relay_Config
begin

text \<open>
  NIP-50 search: internal/search and its activation in main.go. State: the part of the database schema that search
  owns, and the rows of the event table with their search vectors. Postgres's text search functions are parameters.
  Every statement takes an answer, \<open>None\<close> or the text of its error. The answers of a search go through the query handler
  of \<open>Relay_Queries\<close>.
\<close>

section \<open>From the search string to a query\<close>

text \<open>
  \<open>strings.Fields\<close>. White space beyond ASCII is recognised by its UTF-8 bytes; their first bytes are never continuation
  bytes, so these sequences do not occur inside other characters.
\<close>

definition wide_spaces :: "string list" where
  "wide_spaces = [[CHR 0xC2, CHR 0x85], [CHR 0xC2, CHR 0xA0], [CHR 0xE1, CHR 0x9A, CHR 0x80]]
     @ map (\<lambda>c. [CHR 0xE2, CHR 0x80, c])
         [CHR 0x80, CHR 0x81, CHR 0x82, CHR 0x83, CHR 0x84, CHR 0x85, CHR 0x86, CHR 0x87, CHR 0x88, CHR 0x89, CHR 0x8A,
          CHR 0xA8, CHR 0xA9, CHR 0xAF]
     @ [[CHR 0xE2, CHR 0x81, CHR 0x9F], [CHR 0xE3, CHR 0x80, CHR 0x80]]"

definition space_width :: "string \<Rightarrow> nat" where
  "space_width s =
     (if s \<noteq> [] \<and> is_space (hd s) then 1
      else case find (HasPrefix s) wide_spaces of Some w \<Rightarrow> length w | None \<Rightarrow> 0)"

definition emit_word :: "string \<Rightarrow> string list" where
  "emit_word w = (if w = [] then [] else [w])"

fun fields_from :: "string \<Rightarrow> string \<Rightarrow> string list" where
  "fields_from w [] = emit_word w"
| "fields_from w (c # cs) =
     (let k = space_width (c # cs) in
      if k = 0 then fields_from (w @ [c]) cs else emit_word w @ fields_from [] (drop (k - 1) cs))"

definition Fields :: "string \<Rightarrow> string list" where
  "Fields s = fields_from [] s"

definition is_alnum :: "char \<Rightarrow> bool" where
  "is_alnum c \<longleftrightarrow> (CHR ''a'' \<le> c \<and> c \<le> CHR ''z'') \<or> (CHR ''A'' \<le> c \<and> c \<le> CHR ''Z'') \<or> (CHR ''0'' \<le> c \<and> c \<le> CHR ''9'')"

definition clean_word :: "string \<Rightarrow> string" where
  "clean_word w = filter is_alnum w"

text \<open>\<open>strings.Join\<close> with a separator of several bytes.\<close>

fun join_with :: "string \<Rightarrow> string list \<Rightarrow> string" where
  "join_with sep [] = ''''"
| "join_with sep [w] = w"
| "join_with sep (w # ws) = w @ sep @ join_with sep ws"

definition toTSQuery :: "string \<Rightarrow> string" where
  "toTSQuery s = join_with '' | '' (map (\<lambda>w. w @ '':*'') (filter (\<lambda>w. w \<noteq> '''') (map clean_word (Fields s))))"

text \<open>A filter with the fields that only search reads here.\<close>

record search_filter = nfilter +
  f_since :: "int option"
  f_until :: "int option"
  f_limit :: int

definition HasSearch :: "'a nfilter_scheme \<Rightarrow> bool" where
  "HasSearch f \<longleftrightarrow> f_search f \<noteq> ''''"

text \<open>A condition names its arguments by their numbers; \<open>condition_sql\<close> is its text.\<close>

datatype condition = Matches nat | KindIn "nat list" | PubkeyIn "nat list" | SinceArg nat | UntilArg nat
datatype argument = TextArg string | IntArg int

definition dollar :: "nat \<Rightarrow> string" where
  "dollar n = CHR ''$'' # fmt_d (int n)"

fun condition_sql :: "condition \<Rightarrow> string" where
  "condition_sql (Matches n) = ''search_tsv @@ to_tsquery('' @ [CHR 0x27] @ ''english'' @ [CHR 0x27] @ '', '' @ dollar n @ '')''"
| "condition_sql (KindIn ns) = ''kind IN ('' @ join_with '','' (map dollar ns) @ '')''"
| "condition_sql (PubkeyIn ns) = ''pubkey IN ('' @ join_with '','' (map dollar ns) @ '')''"
| "condition_sql (SinceArg n) = ''created_at >= '' @ dollar n"
| "condition_sql (UntilArg n) = ''created_at <= '' @ dollar n"

text \<open>The conditions and arguments collected so far; the next argument has number \<open>length args + 1\<close>.\<close>

type_synonym query_parts = "condition list \<times> argument list"

definition arg_numbers :: "nat \<Rightarrow> nat \<Rightarrow> nat list" where
  "arg_numbers k n = map (\<lambda>i. Suc (k + i)) [0..<n]"

definition add_list :: "(nat list \<Rightarrow> condition) \<Rightarrow> argument list \<Rightarrow> query_parts \<Rightarrow> query_parts" where
  "add_list mk vals p =
     (case p of (conds, args) \<Rightarrow>
        if vals = [] then p
        else (conds @ [mk (arg_numbers (length args) (length vals))], args @ vals))"

definition add_bound :: "(nat \<Rightarrow> condition) \<Rightarrow> int option \<Rightarrow> query_parts \<Rightarrow> query_parts" where
  "add_bound mk bound p =
     (case p of (conds, args) \<Rightarrow>
        case bound of None \<Rightarrow> p | Some t \<Rightarrow> (conds @ [mk (Suc (length args))], args @ [IntArg t]))"

definition search_parts :: "search_filter \<Rightarrow> string \<Rightarrow> query_parts" where
  "search_parts f tsq =
     add_bound UntilArg (f_until f) (add_bound SinceArg (f_since f)
       (add_list PubkeyIn (map TextArg (f_authors f)) (add_list KindIn (map IntArg (f_kinds f)) ([Matches 1], [TextArg tsq]))))"

definition search_limit :: "search_filter \<Rightarrow> int" where
  "search_limit f = (if f_limit f > 0 \<and> f_limit f < 100 then f_limit f else 100)"

definition nl_tabs :: string where "nl_tabs = [CHR 0x0A, CHR 0x09, CHR 0x09]"

definition search_sql :: "condition list \<Rightarrow> nat \<Rightarrow> string" where
  "search_sql conds n_args =
     nl_tabs @ ''SELECT id, pubkey, created_at, kind, tags, content, sig'' @ nl_tabs @ ''FROM event'' @ nl_tabs @ ''WHERE ''
     @ join_with '' AND '' (map condition_sql conds)
     @ nl_tabs @ ''ORDER BY ts_rank(search_tsv, to_tsquery('' @ [CHR 0x27] @ ''english'' @ [CHR 0x27] @ '', $1)) DESC''
     @ [CHR 0x0A, CHR 0x09] @ '' LIMIT '' @ dollar (Suc n_args)"

definition buildSearchQuery :: "search_filter \<Rightarrow> string \<Rightarrow> string \<times> argument list" where
  "buildSearchQuery f tsq =
     (case search_parts f tsq of (conds, args) \<Rightarrow> (search_sql conds (length args), args @ [IntArg (search_limit f)]))"

section \<open>The rows and the answer\<close>

record search_row =
  sr_event :: event
  sr_tsv :: "string list option"
  sr_readable :: bool

text \<open>
  What Postgres contributes: the vector of a text, whether a query matches a vector, and the order by rank, in which
  ties come in any order. A row is readable when it scans and its tags are JSON.
\<close>

record search_pg =
  to_tsvector :: "string \<Rightarrow> string list"
  ts_match :: "string list \<Rightarrow> string \<Rightarrow> bool"
  ts_order :: "string \<Rightarrow> search_row list \<Rightarrow> search_row list"

fun holds :: "search_pg \<Rightarrow> argument list \<Rightarrow> search_row \<Rightarrow> condition \<Rightarrow> bool" where
  "holds pg args r (Matches n) =
     (case sr_tsv r of None \<Rightarrow> False
      | Some v \<Rightarrow> (case args ! (n - 1) of TextArg q \<Rightarrow> ts_match pg v q | IntArg i \<Rightarrow> False))"
| "holds pg args r (KindIn ns) = list_ex (\<lambda>n. args ! (n - 1) = IntArg (ev_kind (sr_event r))) ns"
| "holds pg args r (PubkeyIn ns) = list_ex (\<lambda>n. args ! (n - 1) = TextArg (ev_pubkey (sr_event r))) ns"
| "holds pg args r (SinceArg n) = (case args ! (n - 1) of IntArg i \<Rightarrow> ev_created_at (sr_event r) \<ge> i | TextArg q \<Rightarrow> False)"
| "holds pg args r (UntilArg n) = (case args ! (n - 1) of IntArg i \<Rightarrow> ev_created_at (sr_event r) \<le> i | TextArg q \<Rightarrow> False)"

definition select_rows :: "search_pg \<Rightarrow> search_filter \<Rightarrow> string \<Rightarrow> search_row list \<Rightarrow> search_row list" where
  "select_rows pg f tsq rows =
     (case search_parts f tsq of (conds, args) \<Rightarrow>
        take (nat (search_limit f)) (ts_order pg tsq (filter (\<lambda>r. list_all (holds pg args r) conds) rows)))"

text \<open>
  The events sent before the channel closes. A failed query is only logged; \<open>reader\<close> is the number of events taken
  before the request's context ends, if it does.
\<close>

definition search_QueryEvents :: "search_pg \<Rightarrow> bool \<Rightarrow> nat option \<Rightarrow> search_filter \<Rightarrow> search_row list \<Rightarrow> event list" where
  "search_QueryEvents pg up reader f rows =
     (if f_search f = '''' then []
      else let tsq = toTSQuery (f_search f) in
        if tsq = '''' \<or> \<not> up then []
        else let evs = map sr_event (filter sr_readable (select_rows pg f tsq rows))
          in case reader of None \<Rightarrow> evs | Some n \<Rightarrow> take n evs)"

section \<open>Schema\<close>

text \<open>
  The column, the kinds in the trigger function, the trigger, the index (valid or left invalid by a build that failed),
  and the index of an earlier version.
\<close>

record search_schema =
  sx_legacy :: bool
  sx_column :: bool
  sx_function :: "int list option"
  sx_trigger :: bool
  sx_index :: "bool option"

record search_db =
  sd_schema :: search_schema
  sd_rows :: "search_row list"

text \<open>What the trigger makes of a row that is inserted or updated.\<close>

definition trigger_row :: "search_pg \<Rightarrow> search_schema \<Rightarrow> search_row \<Rightarrow> search_row" where
  "trigger_row pg x r =
     (if \<not> sx_trigger x then r
      else case sx_function x of
        None \<Rightarrow> r
      | Some kinds \<Rightarrow>
          r\<lparr>sr_tsv := (if ev_kind (sr_event r) \<in> set kinds then Some (to_tsvector pg (ev_content (sr_event r))) else None)\<rparr>)"


datatype setup_stmt =
    LockConn | Begin | SetLockTimeout | DropLegacy | CheckSchema | AddColumn | CreateFunction | CreateTrigger
  | Commit | CheckIndex | DropIndex | CreateIndex

text \<open>
  The answers to one attempt: an error text for a statement that fails, how the polls of the lock are answered, and
  whether a failed index build leaves an invalid index behind.
\<close>

datatype poll = Acquired | HeldElsewhere | PollError string

record setup_answers =
  sa_error :: "setup_stmt \<Rightarrow> string option"
  sa_poll :: "nat \<Rightarrow> poll"
  sa_ctx_ended :: "nat \<Rightarrow> bool"
  sa_leftover :: bool

partial_function (option) poll_lock :: "setup_answers \<Rightarrow> nat \<Rightarrow> string option option" where
  "poll_lock a i =
     (case sa_poll a i of
        PollError e \<Rightarrow> Some (Some (''pg_try_advisory_lock (search): '' @ e))
      | Acquired \<Rightarrow> Some None
      | HeldElsewhere \<Rightarrow> if sa_ctx_ended a i then Some (Some ''search lock timeout'') else poll_lock a (Suc i))"

text \<open>\<open>acquireSearchLock\<close>: no value when the lock is held elsewhere for ever, \<open>Some None\<close> when it is got.\<close>

definition acquireSearchLock :: "setup_answers \<Rightarrow> string option option" where
  "acquireSearchLock a =
     (case sa_error a LockConn of Some e \<Rightarrow> Some (Some (''search lock connection: '' @ e)) | None \<Rightarrow> poll_lock a 0)"

text \<open>The first failing statement of a list, with the text that wraps it.\<close>

fun first_failure :: "(setup_stmt \<Rightarrow> string option) \<Rightarrow> (setup_stmt \<times> string) list \<Rightarrow> string option" where
  "first_failure err [] = None"
| "first_failure err ((st, what) # rest) =
     (case err st of Some e \<Rightarrow> Some (what @ '': '' @ e) | None \<Rightarrow> first_failure err rest)"

definition ddl_statements :: "search_schema \<Rightarrow> (setup_stmt \<times> string) list" where
  "ddl_statements x =
     [(Begin, ''begin DDL transaction''), (SetLockTimeout, ''set lock_timeout''), (DropLegacy, ''drop legacy index''),
      (CheckSchema, ''check search schema'')]
     @ (if sx_column x then [] else [(AddColumn, ''add search_tsv column'')])
     @ [(CreateFunction, ''create trigger function'')]
     @ (if sx_trigger x then [] else [(CreateTrigger, ''create trigger'')])
     @ [(Commit, ''commit DDL'')]"

text \<open>The transaction: all of its statements, or none.\<close>

definition ddl_effect :: "int list \<Rightarrow> search_schema \<Rightarrow> search_schema" where
  "ddl_effect kinds x = x\<lparr>sx_legacy := False, sx_column := True, sx_function := Some kinds, sx_trigger := True\<rparr>"

definition build_index :: "setup_answers \<Rightarrow> search_schema \<Rightarrow> string option \<times> search_schema" where
  "build_index a x =
     (case sa_error a CheckIndex of
        Some e \<Rightarrow> (Some (''check search_tsv_idx: '' @ e), x)
      | None \<Rightarrow>
          if sx_index x = Some True then (None, x)
          else case sa_error a DropIndex of
            Some e \<Rightarrow> (Some (''drop invalid search index: '' @ e), x)
          | None \<Rightarrow>
              case sa_error a CreateIndex of
                Some e \<Rightarrow> (Some (''create search_tsv index: '' @ e), x\<lparr>sx_index := (if sa_leftover a then Some False else None)\<rparr>)
              | None \<Rightarrow> (None, x\<lparr>sx_index := Some True\<rparr>))"

definition InitSchema :: "int list \<Rightarrow> setup_answers \<Rightarrow> search_schema \<Rightarrow> (string option \<times> search_schema) option" where
  "InitSchema kinds a x =
     (case acquireSearchLock a of
        None \<Rightarrow> None
      | Some (Some e) \<Rightarrow> Some (Some (''search InitSchema: '' @ e), x)
      | Some None \<Rightarrow>
          (case first_failure (sa_error a) (ddl_statements x) of
             Some e \<Rightarrow> Some (Some e, x)
           | None \<Rightarrow> Some (build_index a (ddl_effect kinds x))))"

definition DefaultSearchKinds :: "int list" where
  "DefaultSearchKinds = [1, 11, 1111, 30023]"

definition NewSearchBackend :: "int list \<Rightarrow> int list" where
  "NewSearchBackend kinds = (if kinds = [] then DefaultSearchKinds else kinds)"

section \<open>Setup with retries\<close>

text \<open>
  \<open>retrySetup\<close>: \<open>attempt n\<close> is the n-th attempt, on the state it may change; without a value it never returns. \<open>wait n\<close>
  is the error of the wait after it. The result is the number of attempts, the error if it gave up, the waits and the
  state. Durations are 64-bit nanoseconds.
\<close>

definition next_wait :: "int \<Rightarrow> int \<Rightarrow> int \<Rightarrow> string \<Rightarrow> string \<Rightarrow> int" where
  "next_wait every maxWait cur lastErr e = (if e = lastErr then min (i64 (cur * 2)) maxWait else every)"

type_synonym 's attempts = "nat \<Rightarrow> 's \<Rightarrow> (string option \<times> 's) option"

partial_function (option) retry_from ::
  "int \<Rightarrow> int \<Rightarrow> 's attempts \<Rightarrow> (nat \<Rightarrow> string option) \<Rightarrow> nat \<Rightarrow> int \<Rightarrow> string \<Rightarrow> 's \<Rightarrow>
   (nat \<times> string option \<times> int list \<times> 's) option" where
  "retry_from every maxWait attempt wait n cur lastErr s =
     (case attempt n s of
        None \<Rightarrow> None
      | Some (outcome, s') \<Rightarrow>
          (case outcome of
             None \<Rightarrow> Some (n, None, [], s')
           | Some e \<Rightarrow>
               (case wait n of
                  Some werr \<Rightarrow> Some (n, Some e, [next_wait every maxWait cur lastErr e], s')
                | None \<Rightarrow>
                    Option.bind (retry_from every maxWait attempt wait (Suc n) (next_wait every maxWait cur lastErr e) e s')
                      (\<lambda>(m, r, ws, t). Some (m, r, next_wait every maxWait cur lastErr e # ws, t)))))"

definition retrySetup ::
  "int \<Rightarrow> int \<Rightarrow> 's attempts \<Rightarrow> (nat \<Rightarrow> string option) \<Rightarrow> 's \<Rightarrow> (nat \<times> string option \<times> int list \<times> 's) option" where
  "retrySetup every maxWait attempt wait s = retry_from every maxWait attempt wait 1 every '''' s"

definition maxSetupRetryWait :: int where
  "maxSetupRetryWait = 600 * ns_per_sec"

text \<open>An attempt on the database: a column that is new is empty.\<close>

definition no_vector :: "search_row \<Rightarrow> search_row" where
  "no_vector r = r\<lparr>sr_tsv := None\<rparr>"

definition setup_attempt :: "int list \<Rightarrow> (nat \<Rightarrow> setup_answers) \<Rightarrow> search_db attempts" where
  "setup_attempt kinds ans n d =
     map_option (\<lambda>(e, x). (e, \<lparr>sd_schema = x,
        sd_rows = (if \<not> sx_column (sd_schema d) \<and> sx_column x then map no_vector (sd_rows d) else sd_rows d)\<rparr>))
       (InitSchema kinds (ans n) (sd_schema d))"

definition InitSchemaRetry ::
  "int list \<Rightarrow> int \<Rightarrow> (nat \<Rightarrow> setup_answers) \<Rightarrow> (nat \<Rightarrow> string option) \<Rightarrow> search_db \<Rightarrow>
   (nat \<times> string option \<times> int list \<times> search_db) option" where
  "InitSchemaRetry kinds every ans wait d = retrySetup every maxSetupRetryWait (setup_attempt kinds ans) wait d"

section \<open>Backfill\<close>



definition row_id :: "search_row \<Rightarrow> string" where
  "row_id r = ev_id (sr_event r)"


text \<open>The update of a batch fires the trigger, which has the last word on the vector.\<close>

definition fill_row :: "search_pg \<Rightarrow> search_schema \<Rightarrow> string list \<Rightarrow> search_row \<Rightarrow> search_row" where
  "fill_row pg x batch r =
     (if row_id r \<in> set batch
      then trigger_row pg x (r\<lparr>sr_tsv := Some (to_tsvector pg (ev_content (sr_event r)))\<rparr>) else r)"

lemma row_id_trigger [simp]: "row_id (trigger_row pg x r) = row_id r"
  by (simp add: trigger_row_def row_id_def split: option.split)

lemma row_id_update [simp]: "row_id (r\<lparr>sr_tsv := v\<rparr>) = row_id r"
  by (simp add: row_id_def)

lemma row_id_fill [simp]: "row_id (fill_row pg x batch r) = row_id r"
  by (simp add: fill_row_def)






section \<open>Activation\<close>

text \<open>A process: the shared database, its search backend once stored, and the gauge that says search is serving.\<close>

record search_process =
  sp_db :: search_db
  sp_backend :: "int list option"
  sp_active :: bool


text \<open>The search source of the query handler: none until a backend is stored.\<close>

definition search_source ::
  "search_pg \<Rightarrow> bool \<Rightarrow> nat option \<Rightarrow> int option \<Rightarrow> int option \<Rightarrow> int \<Rightarrow> search_process \<Rightarrow> (nfilter \<Rightarrow> event list option) option" where
  "search_source pg up reader since until lim p =
     map_option (\<lambda>_ f. Some (search_QueryEvents pg up reader
        (nfilter.extend f \<lparr>f_since = since, f_until = until, f_limit = lim\<rparr>) (sd_rows (sp_db p)))) (sp_backend p)"

section \<open>The query and its arguments\<close>

















section \<open>Setup comes to an end\<close>

lemma next_wait_range:
  assumes "0 < every" "every \<le> maxWait" "2 * maxWait < 2 ^ 63" "every \<le> cur" "cur \<le> maxWait"
  shows "every \<le> next_wait every maxWait cur lastErr e \<and> next_wait every maxWait cur lastErr e \<le> maxWait"
proof -
  from assms have "in_i64 (cur * 2)" by (simp add: in_i64_def)
  then have "i64 (cur * 2) = cur * 2" by (rule i64_id)
  with assms show ?thesis by (simp add: next_wait_def min_def)
qed

text \<open>An attempt that returns, and changes the state only as \<open>Inv\<close> allows.\<close>

lemma retry_from_returns:
  assumes "\<And>n s. attempt n s \<noteq> None"
    and "\<And>s. fst (the (attempt k s)) = None \<or> wait k \<noteq> None"
    and "n \<le> k"
  shows "\<exists>res. retry_from every maxWait attempt wait n cur lastErr s = Some res \<and> fst res \<le> k"
  using assms(3)
proof (induction "k - n" arbitrary: n cur lastErr s)
  case 0
  with assms(2) [of s] assms(1) [of k s] show ?case
    by (subst retry_from.simps) (auto split: option.split)
next
  case (Suc d)
  obtain e s' where a: "attempt n s = Some (e, s')" using assms(1) [of n s] by (cases "attempt n s") auto
  have "\<exists>res. retry_from every maxWait attempt wait (Suc n) w x s' = Some res \<and> fst res \<le> k" for w x
    by (rule Suc.hyps(1)) (use Suc.hyps(2) in linarith)+
  then have "\<exists>res. Option.bind (retry_from every maxWait attempt wait (Suc n) w x s') (\<lambda>(m, r, ws, t). Some (m, r, w # ws, t)) = Some res
      \<and> fst res \<le> k" for w x
    by (metis (no_types, lifting) Option.bind.bind_lunit case_prod_beta fst_conv)
  with a Suc.prems show ?case by (subst retry_from.simps) (simp split: option.split)
qed

text \<open>
  What a returned run says, for an invariant of the state that every attempt keeps and a condition that every successful
  attempt establishes.
\<close>

definition retry_outcome ::
  "('s \<Rightarrow> bool) \<Rightarrow> ('s \<Rightarrow> bool) \<Rightarrow> int \<Rightarrow> int \<Rightarrow> (nat \<Rightarrow> string option) \<Rightarrow> nat \<Rightarrow> nat \<times> string option \<times> int list \<times> 's \<Rightarrow> bool" where
  "retry_outcome Inv Fin every maxWait wait n res \<longleftrightarrow>
     (case res of (m, r, ws, t) \<Rightarrow>
        n \<le> m \<and> Inv t \<and> (\<forall>w \<in> set ws. every \<le> w \<and> w \<le> maxWait)
        \<and> (case r of None \<Rightarrow> Fin t \<and> length ws = m - n | Some e \<Rightarrow> wait m \<noteq> None \<and> length ws = Suc m - n))"

lemma retry_outcome_step:
  assumes "retry_outcome Inv Fin every maxWait wait (Suc n) (m, r, ws, t)" "every \<le> w" "w \<le> maxWait"
  shows "retry_outcome Inv Fin every maxWait wait n (m, r, w # ws, t)"
  using assms by (auto simp: retry_outcome_def split: option.splits)

definition retry_ready ::
  "('s \<Rightarrow> bool) \<Rightarrow> ('s \<Rightarrow> bool) \<Rightarrow> int \<Rightarrow> int \<Rightarrow> 's attempts \<Rightarrow> int \<Rightarrow> 's \<Rightarrow> bool" where
  "retry_ready Inv Fin every maxWait attempt cur s \<longleftrightarrow>
     (\<forall>n s e s'. attempt n s = Some (e, s') \<longrightarrow> Inv s \<longrightarrow> Inv s' \<and> (e = None \<longrightarrow> Fin s'))
     \<and> Inv s \<and> 0 < every \<and> every \<le> maxWait \<and> 2 * maxWait < 2 ^ 63 \<and> every \<le> cur \<and> cur \<le> maxWait"

lemma retry_from_outcome:
  assumes "retry_from every maxWait attempt wait n cur lastErr s = Some res"
  shows "retry_ready Inv Fin every maxWait attempt cur s \<longrightarrow> retry_outcome Inv Fin every maxWait wait n res"
proof (rule retry_from.raw_induct [where P = "\<lambda>every maxWait attempt wait n cur lastErr s res.
    retry_ready Inv Fin every maxWait attempt cur s \<longrightarrow> retry_outcome Inv Fin every maxWait wait n res", OF _ assms], rule impI)
  fix rf :: "int \<Rightarrow> int \<Rightarrow> 'a attempts \<Rightarrow> (nat \<Rightarrow> string option) \<Rightarrow> nat \<Rightarrow> int \<Rightarrow> string \<Rightarrow> 'a \<Rightarrow>
      (nat \<times> string option \<times> int list \<times> 'a) option"
  fix every maxWait attempt wait n cur lastErr s res
  assume ih: "\<And>every maxWait attempt wait n cur lastErr s res. rf every maxWait attempt wait n cur lastErr s = Some res \<Longrightarrow>
      retry_ready Inv Fin every maxWait attempt cur s \<longrightarrow> retry_outcome Inv Fin every maxWait wait n res"
    and body: "(case attempt n s of None \<Rightarrow> None
      | Some (outcome, s') \<Rightarrow>
          (case outcome of
             None \<Rightarrow> Some (n, None, [], s')
           | Some e \<Rightarrow>
               (case wait n of
                  None \<Rightarrow>
                    Option.bind (rf every maxWait attempt wait (Suc n) (next_wait every maxWait cur lastErr e) e s')
                      (\<lambda>(m, r, ws, t). Some (m, r, next_wait every maxWait cur lastErr e # ws, t))
                | Some werr \<Rightarrow> Some (n, Some e, [next_wait every maxWait cur lastErr e], s')))) = Some res"
    and ready: "retry_ready Inv Fin every maxWait attempt cur s"
  let ?w = "\<lambda>e. next_wait every maxWait cur lastErr e"
  have range: "every \<le> ?w e \<and> ?w e \<le> maxWait" for e
    by (rule next_wait_range) (use ready in \<open>auto simp: retry_ready_def\<close>)
  obtain x s' where a: "attempt n s = Some (x, s')"
    using body by (cases "attempt n s") auto
  with ready have s': "Inv s' \<and> (x = None \<longrightarrow> Fin s')" unfolding retry_ready_def by blast
  show "retry_outcome Inv Fin every maxWait wait n res"
  proof (cases x)
    case None
    with body a have "res = (n, None, [], s')" by simp
    with None s' show ?thesis by (simp add: retry_outcome_def)
  next
    case (Some e)
    show ?thesis
    proof (cases "wait n")
      case (Some werr)
      with body a \<open>x = Some e\<close> have "res = (n, Some e, [?w e], s')" by simp
      with Some s' range show ?thesis by (simp add: retry_outcome_def)
    next
      case None
      with body a \<open>x = Some e\<close>
      have "Option.bind (rf every maxWait attempt wait (Suc n) (?w e) e s') (\<lambda>(m, r, ws, t). Some (m, r, ?w e # ws, t)) = Some res"
        by simp
      then obtain m r ws t where r: "rf every maxWait attempt wait (Suc n) (?w e) e s' = Some (m, r, ws, t)"
        and res: "res = (m, r, ?w e # ws, t)"
        by (auto simp: bind_eq_Some_conv)
      have "retry_outcome Inv Fin every maxWait wait (Suc n) (m, r, ws, t)"
        using ih [OF r] ready s' range by (simp add: retry_ready_def)
      with range res show ?thesis by (simp add: retry_outcome_step)
    qed
  qed
qed

section \<open>A backfill leaves no row out\<close>


definition schema_ready :: "int list \<Rightarrow> search_schema \<Rightarrow> bool" where
  "schema_ready kinds x \<longleftrightarrow> \<not> sx_legacy x \<and> sx_column x \<and> sx_function x = Some kinds \<and> sx_trigger x \<and> sx_index x = Some True"

definition filled :: "search_pg \<Rightarrow> int list \<Rightarrow> search_row \<Rightarrow> search_row" where
  "filled pg kinds r =
     (if ev_kind (sr_event r) \<in> set kinds \<and> sr_tsv r = None then r\<lparr>sr_tsv := Some (to_tsvector pg (ev_content (sr_event r)))\<rparr> else r)"


lemma row_id_filled [simp]: "row_id (filled pg kinds r) = row_id r"
  by (simp add: filled_def)



definition filled_in :: "search_pg \<Rightarrow> string list \<Rightarrow> search_row \<Rightarrow> search_row" where
  "filled_in pg ids r = (if row_id r \<in> set ids then r\<lparr>sr_tsv := Some (to_tsvector pg (ev_content (sr_event r)))\<rparr> else r)"



lemma row_id_filled_in [simp]: "row_id (filled_in pg ids r) = row_id r"
  by (simp add: filled_in_def)




section \<open>What activation leaves behind\<close>

lemma InitSchema_success:
  assumes "InitSchema kinds a x = Some (None, x')"
  shows "schema_ready kinds x'"
proof -
  from assms have b: "build_index a (ddl_effect kinds x) = (None, x')"
    by (auto simp: InitSchema_def split: option.splits)
  have "build_index a y = (None, y') \<Longrightarrow> y' = y\<lparr>sx_index := Some True\<rparr>" for y y'
    by (auto simp: build_index_def split: option.splits if_splits)
  from this [OF b] show ?thesis by (simp add: schema_ready_def ddl_effect_def)
qed

lemma build_index_column: "sx_column (snd (build_index a x)) = sx_column x"
  by (simp add: build_index_def split: option.split)

lemma InitSchema_column: "InitSchema kinds a x = Some (e, x') \<Longrightarrow> sx_column x \<Longrightarrow> sx_column x'"
  using build_index_column [of a "ddl_effect kinds x"]
  by (auto simp: InitSchema_def ddl_effect_def split: option.splits)

text \<open>A row's vector is that of its text if the kind is searched, and absent if not.\<close>

definition indexed :: "search_pg \<Rightarrow> int list \<Rightarrow> search_row \<Rightarrow> bool" where
  "indexed pg kinds r \<longleftrightarrow>
     sr_tsv r = (if ev_kind (sr_event r) \<in> set kinds then Some (to_tsvector pg (ev_content (sr_event r))) else None)"

definition honest_vector :: "search_pg \<Rightarrow> int list \<Rightarrow> search_row \<Rightarrow> bool" where
  "honest_vector pg kinds r \<longleftrightarrow>
     (ev_kind (sr_event r) \<in> set kinds \<longrightarrow> sr_tsv r = None \<or> sr_tsv r = Some (to_tsvector pg (ev_content (sr_event r))))"



lemma no_vector_twice [simp]: "no_vector (no_vector r) = no_vector r"
  by (simp add: no_vector_def)





lemma filled_indexed:
  "honest_vector pg kinds r \<Longrightarrow> ev_kind (sr_event r) \<in> set kinds \<Longrightarrow> indexed pg kinds (filled pg kinds r)"
  by (auto simp: honest_vector_def indexed_def filled_def)

definition cleared :: "int list \<Rightarrow> search_row \<Rightarrow> search_row" where
  "cleared kinds r = (if ev_kind (sr_event r) \<notin> set kinds \<and> sr_tsv r \<noteq> None then no_vector r else r)"


lemma cleared_filled_indexed: "honest_vector pg kinds r \<Longrightarrow> indexed pg kinds (cleared kinds (filled pg kinds r))"
  by (auto simp: honest_vector_def indexed_def filled_def cleared_def no_vector_def)

lemma no_vector_steps [simp]: "no_vector (cleared kinds r) = no_vector r" "no_vector (filled pg kinds r) = no_vector r"
  by (simp_all add: cleared_def filled_def no_vector_def)








section \<open>Answers\<close>





lemma search_limit_range: "1 \<le> search_limit f \<and> search_limit f \<le> 100"
  by (simp add: search_limit_def)










definition demo_row :: "string \<Rightarrow> int \<Rightarrow> string \<Rightarrow> search_row" where
  "demo_row eid kind text =
     \<lparr>sr_event = \<lparr>ev_id = eid, ev_pubkey = ''alice'', ev_created_at = 5, ev_kind = kind, ev_tags = [], ev_content = text\<rparr>,
      sr_tsv = None, sr_readable = True\<rparr>"

definition demo_answers :: setup_answers where
  "demo_answers = \<lparr>sa_error = (\<lambda>_. None), sa_poll = (\<lambda>_. Acquired), sa_ctx_ended = (\<lambda>_. False), sa_leftover = False\<rparr>"

definition demo_process :: search_process where
  "demo_process = \<lparr>sp_db = \<lparr>sd_schema = \<lparr>sx_legacy = True, sx_column = False, sx_function = None, sx_trigger = False, sx_index = None\<rparr>,
     sd_rows = [demo_row ''a1'' 1 ''hello'', demo_row ''a2'' 7 ''hello'']\<rparr>, sp_backend = None, sp_active = False\<rparr>"










section \<open>Setup ends, and its waits are bounded\<close>

lemma setup_attempt_returns: "acquireSearchLock (ans n) \<noteq> None \<Longrightarrow> setup_attempt kinds ans n d \<noteq> None"
  by (auto simp: setup_attempt_def InitSchema_def split: option.split)

lemma first_failure_None: "(\<forall>st. err st = None) \<Longrightarrow> first_failure err sts = None"
  by (induction err sts rule: first_failure.induct) auto

lemma setup_attempt_succeeds:
  "acquireSearchLock (ans n) = Some None \<Longrightarrow> (\<forall>st. sa_error (ans n) st = None) \<Longrightarrow> fst (the (setup_attempt kinds ans n d)) = None"
  by (simp add: setup_attempt_def InitSchema_def first_failure_None build_index_def)

text \<open>The setup of search returns at the latest with the first attempt that gets its lock and whose statements are all
  answered, or with the end of its context, if no attempt waits for the lock for ever. Until then it waits between the
  retry interval and ten minutes after every failure; when it returns without an error, the schema is complete, and
  otherwise its context has ended.
\<close>

theorem search_setup_ends:
  assumes "\<forall>n. acquireSearchLock (ans n) \<noteq> None"
    and "1 \<le> k" "acquireSearchLock (ans k) = Some None \<and> (\<forall>st. sa_error (ans k) st = None) \<or> wait k \<noteq> None"
    and "0 < every" "every \<le> maxSetupRetryWait"
  shows "\<exists>m r ws d'. InitSchemaRetry kinds every ans wait d = Some (m, r, ws, d') \<and> m \<le> k
     \<and> (\<forall>w \<in> set ws. every \<le> w \<and> w \<le> maxSetupRetryWait)
     \<and> (case r of None \<Rightarrow> schema_ready kinds (sd_schema d') \<and> length ws = m - 1 | Some e \<Rightarrow> wait m \<noteq> None)"
proof -
  have "\<exists>res. retry_from every maxSetupRetryWait (setup_attempt kinds ans) wait 1 every '''' d = Some res \<and> fst res \<le> k"
    using assms(1-3) setup_attempt_returns setup_attempt_succeeds by (intro retry_from_returns) blast+
  then obtain m r ws d' where run: "InitSchemaRetry kinds every ans wait d = Some (m, r, ws, d')" "m \<le> k"
    by (auto simp: InitSchemaRetry_def retrySetup_def)
  let ?ready = "\<lambda>x. schema_ready kinds (sd_schema x)"
  have "retry_ready (\<lambda>_. True) ?ready every maxSetupRetryWait (setup_attempt kinds ans) every d"
    using assms(4,5) by (auto simp: retry_ready_def maxSetupRetryWait_def setup_attempt_def dest: InitSchema_success)
  with retry_from_outcome [OF run(1) [unfolded InitSchemaRetry_def retrySetup_def], of "\<lambda>_. True" ?ready]
  have "retry_outcome (\<lambda>_. True) ?ready every maxSetupRetryWait wait 1 (m, r, ws, d')" by blast
  with run show ?thesis by (cases r) (auto simp: retry_outcome_def)
qed

text \<open>A setup that meets a lock timeout twice, and then succeeds.\<close>

definition slow_answers :: "nat \<Rightarrow> setup_answers" where
  "slow_answers n = demo_answers\<lparr>sa_error := (\<lambda>st. if st = AddColumn \<and> n < 3 then Some ''lock timeout'' else None)\<rparr>"

lemma search_setup_ends_witness:
  "\<exists>m r ws d'. InitSchemaRetry [1] (30 * ns_per_sec) slow_answers (\<lambda>_. None) (sp_db demo_process) = Some (m, r, ws, d') \<and> m \<le> 3
     \<and> (\<forall>w \<in> set ws. 30 * ns_per_sec \<le> w \<and> w \<le> maxSetupRetryWait)
     \<and> (case r of None \<Rightarrow> schema_ready [1] (sd_schema d') \<and> length ws = m - 1 | Some e \<Rightarrow> (None :: string option) \<noteq> None)"
  by (rule search_setup_ends [where wait = "\<lambda>_. None"])
    (simp_all add: slow_answers_def demo_answers_def acquireSearchLock_def poll_lock.simps maxSetupRetryWait_def)

text \<open>An attempt that fails before its commit changes nothing.\<close>

lemma failed_transaction_changes_nothing:
  "acquireSearchLock a = Some None \<Longrightarrow> first_failure (sa_error a) (ddl_statements x) = Some e \<Longrightarrow> InitSchema kinds a x = Some (Some e, x)"
  by (simp add: InitSchema_def)

text \<open>The same error doubles the wait, up to ten minutes.\<close>

lemma repeated_error_doubles:
  "InitSchemaRetry [1] (30 * ns_per_sec) slow_answers (\<lambda>_. None) (sp_db demo_process) = Some (m, r, ws, d') \<Longrightarrow>
   ws = [30 * ns_per_sec, 60 * ns_per_sec]"
  by (simp add: InitSchemaRetry_def retrySetup_def retry_from.simps setup_attempt_def InitSchema_def acquireSearchLock_def
      poll_lock.simps slow_answers_def demo_answers_def ddl_statements_def demo_process_def next_wait_def in_i64_def
      maxSetupRetryWait_def build_index_def ddl_effect_def)

section \<open>The query string\<close>

text \<open>Read a query back: words of letters and digits, each a prefix, joined by the or-operator; nothing else is one.\<close>

fun read_terms :: "nat \<Rightarrow> string \<Rightarrow> string list option" where
  "read_terms 0 s = None"
| "read_terms (Suc fuel) s =
     (let w = takeWhile is_alnum s; rest = drop (length w) s in
      if w = '''' then None
      else if rest = '':*'' then Some [w]
      else if HasPrefix rest '':* | '' then map_option (Cons w) (read_terms fuel (drop 5 rest))
      else None)"

definition tsquery_terms :: "string \<Rightarrow> string list option" where
  "tsquery_terms s = (if s = '''' then Some [] else read_terms (Suc (length s)) s)"

lemma takeWhile_alnum: "list_all is_alnum w \<Longrightarrow> takeWhile is_alnum (w @ CHR '':'' # s) = w"
  by (induction w) (simp_all add: is_alnum_def less_eq_char_def)

lemma read_terms_join:
  assumes "ws \<noteq> []" "\<forall>w \<in> set ws. w \<noteq> '''' \<and> list_all is_alnum w" "length ws \<le> fuel"
  shows "read_terms fuel (join_with '' | '' (map (\<lambda>w. w @ '':*'') ws)) = Some ws"
  using assms
proof (induction ws arbitrary: fuel)
  case (Cons w ws)
  then obtain g where g: "fuel = Suc g" by (cases fuel) auto
  from Cons.prems have w: "w \<noteq> ''''" "list_all is_alnum w" by auto
  show ?case
  proof (cases ws)
    case Nil
    with w takeWhile_alnum [OF w(2)] show ?thesis by (simp add: g Let_def)
  next
    case (Cons v vs)
    with Cons.IH [of g] Cons.prems g have "read_terms g (join_with '' | '' (map (\<lambda>w. w @ '':*'') ws)) = Some ws" by simp
    with w takeWhile_alnum [OF w(2)] Cons show ?thesis by (simp add: g Let_def)
  qed
qed simp

lemma length_join_with: "\<forall>w \<in> set ws. w \<noteq> [] \<Longrightarrow> length ws \<le> length (join_with sep ws)"
proof (induction sep ws rule: join_with.induct)
  case (3 sep w v vs)
  then have "length (v # vs) \<le> length (join_with sep (v # vs))" "w \<noteq> []" by simp_all
  then show ?case by (cases w) simp_all
qed (auto simp: Suc_le_eq)

definition search_words :: "string \<Rightarrow> string list" where
  "search_words s = filter (\<lambda>w. w \<noteq> '''') (map clean_word (Fields s))"

lemma search_words_clean: "w \<in> set (search_words s) \<Longrightarrow> w \<noteq> '''' \<and> list_all is_alnum w"
  by (auto simp: search_words_def clean_word_def list_all_iff)

text \<open>Whatever is searched for, the text given to \<open>to_tsquery\<close> is an or of prefixes of words of ASCII letters and digits,
  and reads back as the words of the search string with all other characters dropped: no operator, quote or weight of
  the user's reaches the query language.
\<close>

theorem tsquery_reads_back: "tsquery_terms (toTSQuery s) = Some (search_words s)"
proof (cases "search_words s = []")
  case True
  then show ?thesis by (simp add: toTSQuery_def search_words_def tsquery_terms_def)
next
  case False
  let ?q = "join_with '' | '' (map (\<lambda>w. w @ '':*'') (search_words s))"
  have q: "toTSQuery s = ?q" by (simp add: toTSQuery_def search_words_def)
  have len: "length (search_words s) \<le> length ?q" using length_join_with [of "map (\<lambda>w. w @ '':*'') (search_words s)" "'' | ''"] by simp
  with False have "?q \<noteq> ''''" by (cases "search_words s") auto
  with len False search_words_clean show ?thesis
    by (simp add: q tsquery_terms_def read_terms_join del: read_terms.simps)
qed

text \<open>The text of the query does not depend on what is searched for, only on how many kinds and authors are named.\<close>

definition same_shape :: "query_parts \<Rightarrow> query_parts \<Rightarrow> bool" where
  "same_shape p q \<longleftrightarrow> fst p = fst q \<and> length (snd p) = length (snd q)"

lemma add_list_shape: "same_shape p q \<Longrightarrow> length vs = length ws \<Longrightarrow> same_shape (add_list mk vs p) (add_list mk ws q)"
  by (cases p; cases q) (auto simp: same_shape_def add_list_def)

lemma add_bound_shape: "same_shape p q \<Longrightarrow> (b = None \<longleftrightarrow> c = None) \<Longrightarrow> same_shape (add_bound mk b p) (add_bound mk c q)"
  by (cases p; cases q) (auto simp: same_shape_def add_bound_def)

lemma search_sql_has_no_values:
  assumes "length (f_kinds f) = length (f_kinds g)" "length (f_authors f) = length (f_authors g)"
    "f_since f = None \<longleftrightarrow> f_since g = None" "f_until f = None \<longleftrightarrow> f_until g = None"
  shows "fst (buildSearchQuery f q) = fst (buildSearchQuery g q')"
proof -
  have "same_shape ([Matches 1], [TextArg q]) ([Matches 1], [TextArg q'])" by (simp add: same_shape_def)
  then have "same_shape (search_parts f q) (search_parts g q')"
    unfolding search_parts_def using assms by (intro add_bound_shape add_list_shape) simp_all
  then show ?thesis by (simp add: buildSearchQuery_def same_shape_def split_beta)
qed

section \<open>The setup lock\<close>

text \<open>
  Processes that set up search on one database, each at one point of its activation. The lock is an advisory lock of
  Postgres: a poll gets it exactly when nobody holds it, and it is released when \<open>InitSchema\<close> returns, whether or not it
  has failed. \<open>Backfill\<close> takes no lock.
\<close>

datatype setup_point = Polling | InSchema | Filling | Serving

record setup_world =
  sw_holder :: "nat option"
  sw_points :: "setup_point list"

inductive setup_step :: "setup_world \<Rightarrow> setup_world \<Rightarrow> bool" where
  got: "i < length (sw_points w) \<Longrightarrow> sw_points w ! i = Polling \<Longrightarrow> sw_holder w = None \<Longrightarrow>
    setup_step w \<lparr>sw_holder = Some i, sw_points = (sw_points w)[i := InSchema]\<rparr>"
| failed: "i < length (sw_points w) \<Longrightarrow> sw_points w ! i = InSchema \<Longrightarrow>
    setup_step w \<lparr>sw_holder = None, sw_points = (sw_points w)[i := Polling]\<rparr>"
| succeeded: "i < length (sw_points w) \<Longrightarrow> sw_points w ! i = InSchema \<Longrightarrow>
    setup_step w \<lparr>sw_holder = None, sw_points = (sw_points w)[i := Filling]\<rparr>"
| backfilled: "i < length (sw_points w) \<Longrightarrow> sw_points w ! i = Filling \<Longrightarrow>
    setup_step w (w\<lparr>sw_points := (sw_points w)[i := Serving]\<rparr>)"

definition started :: "nat \<Rightarrow> setup_world" where
  "started n = \<lparr>sw_holder = None, sw_points = replicate n Polling\<rparr>"

definition lock_inv :: "setup_world \<Rightarrow> bool" where
  "lock_inv w \<longleftrightarrow> (\<forall>i < length (sw_points w). sw_points w ! i = InSchema \<longleftrightarrow> sw_holder w = Some i)"

lemma setup_step_lock_inv: "setup_step w w' \<Longrightarrow> lock_inv w \<Longrightarrow> lock_inv w'"
  by (induction rule: setup_step.induct) (auto simp: lock_inv_def nth_list_update)

lemma schema_setup_is_exclusive:
  assumes "setup_step\<^sup>*\<^sup>* (started n) w" "i < n" "j < n" "sw_points w ! i = InSchema" "sw_points w ! j = InSchema"
  shows "i = j"
proof -
  from assms(1) have "lock_inv w \<and> length (sw_points w) = n"
  proof induction
    case base
    then show ?case by (simp add: lock_inv_def started_def)
  next
    case (step y z)
    then show ?case by (auto intro: setup_step_lock_inv elim: setup_step.cases)
  qed
  with assms(2-5) show ?thesis by (auto simp: lock_inv_def)
qed

section \<open>Where the code departs from its comments\<close>

text \<open>The comment on the lock promises that backfills are serialized too; two processes backfill at once.\<close>

lemma backfills_run_together: "\<exists>w. setup_step\<^sup>*\<^sup>* (started 2) w \<and> sw_points w = [Filling, Filling]"
proof -
  have "setup_step (started 2) \<lparr>sw_holder = Some 0, sw_points = [InSchema, Polling]\<rparr>"
    using setup_step.got [of 0 "started 2"] by (simp add: started_def numeral_2_eq_2)
  moreover have "setup_step \<lparr>sw_holder = Some 0, sw_points = [InSchema, Polling]\<rparr> \<lparr>sw_holder = None, sw_points = [Filling, Polling]\<rparr>"
    using setup_step.succeeded [of 0 "\<lparr>sw_holder = Some 0, sw_points = [InSchema, Polling]\<rparr>"] by simp
  moreover have "setup_step \<lparr>sw_holder = None, sw_points = [Filling, Polling]\<rparr> \<lparr>sw_holder = Some 1, sw_points = [Filling, InSchema]\<rparr>"
    using setup_step.got [of 1 "\<lparr>sw_holder = None, sw_points = [Filling, Polling]\<rparr>"] by simp
  moreover have "setup_step \<lparr>sw_holder = Some 1, sw_points = [Filling, InSchema]\<rparr> \<lparr>sw_holder = None, sw_points = [Filling, Filling]\<rparr>"
    using setup_step.succeeded [of 1 "\<lparr>sw_holder = Some 1, sw_points = [Filling, InSchema]\<rparr>"] by simp
  ultimately show ?thesis by (metis (no_types, lifting) converse_rtranclp_into_rtranclp rtranclp.rtrancl_refl setup_world.select_convs(2))
qed

text \<open>A search ignores the ids and the tags of its filter.\<close>

lemma search_ignores_ids_and_tags:
  "search_QueryEvents pg up reader (f\<lparr>f_ids := ids, f_tags := tags\<rparr>) rows = search_QueryEvents pg up reader f rows"
proof -
  have "select_rows pg (f\<lparr>f_ids := ids, f_tags := tags\<rparr>) q rows = select_rows pg f q rows" for q
    by (simp add: select_rows_def search_parts_def search_limit_def)
  then show ?thesis by (simp add: search_QueryEvents_def Let_def)
qed

text \<open>Letters beyond ASCII are dropped from a word: what is searched for instead of caf\'e is every word that begins with caf.\<close>

lemma accents_cut_words: "toTSQuery (''caf'' @ [CHR 0xC3, CHR 0xA9]) = ''caf:*''"
  by (simp add: toTSQuery_def Fields_def Let_def space_width_def is_space_def wide_spaces_def emit_word_def clean_word_def is_alnum_def
      less_eq_char_def)

text \<open>
  The comment in main.go says that searches fall back to the ordinary store while the index is built; they are answered
  with nothing.
\<close>

lemma search_answers_nothing_before_activation:
  "sp_backend p = None \<Longrightarrow> f_search f \<noteq> '''' \<Longrightarrow> qe_search e = search_source pg up reader since until lim p \<Longrightarrow> source_of e f = Some []"
  by (simp add: source_of_def search_source_def)

end
