(* ===== verification/Redis_Stores.thy ===== *)
theory Redis_Stores
  imports Nostr_Data "HOL-Library.AList"
begin

text \<open>
  What the relay keeps in Redis through internal/cache (the client and the web-of-trust cache) and internal/session (the
  session store). Redis is an association list from keys to a value and its deadline. A command takes a flag that says
  whether Redis answers. JSON and the format of floating-point scores are parameters.
\<close>

section \<open>Redis and its client\<close>

datatype redis_value = RText string | RMembers "string list"

type_synonym redis_db = "(string \<times> redis_value \<times> int option) list"

definition live_value :: "int \<Rightarrow> string \<Rightarrow> redis_db \<Rightarrow> redis_value option" where
  "live_value now k db =
     (case map_of db k of
        None \<Rightarrow> None
      | Some (v, deadline) \<Rightarrow> (case deadline of None \<Rightarrow> Some v | Some t \<Rightarrow> if now < t then Some v else None))"

datatype redis_error = NotConnected | NoAnswer | NilReply | WrongType | NoMembers

text \<open>\<open>conn\<close>: the client and its connection exist; \<open>ok\<close>: Redis answers this command.\<close>

definition command :: "bool \<Rightarrow> bool \<Rightarrow> redis_error + 'a \<Rightarrow> redis_error + 'a" where
  "command conn ok res = (if \<not> conn then Inl NotConnected else if \<not> ok then Inl NoAnswer else res)"

definition update_command :: "bool \<Rightarrow> bool \<Rightarrow> redis_error option \<times> redis_db \<Rightarrow> redis_db \<Rightarrow> redis_error option \<times> redis_db" where
  "update_command conn ok res db = (if \<not> conn then (Some NotConnected, db) else if \<not> ok then (Some NoAnswer, db) else res)"

definition deadline_of :: "int \<Rightarrow> int \<Rightarrow> int option" where
  "deadline_of now ttl = (if ttl > 0 then Some (now + ttl) else None)"

definition rc_Get :: "bool \<Rightarrow> bool \<Rightarrow> int \<Rightarrow> string \<Rightarrow> redis_db \<Rightarrow> redis_error + string" where
  "rc_Get conn ok now k db = command conn ok
     (case live_value now k db of None \<Rightarrow> Inl NilReply | Some (RText s) \<Rightarrow> Inr s | Some (RMembers ms) \<Rightarrow> Inl WrongType)"

definition rc_Set :: "bool \<Rightarrow> bool \<Rightarrow> int \<Rightarrow> string \<Rightarrow> string \<Rightarrow> int \<Rightarrow> redis_db \<Rightarrow> redis_error option \<times> redis_db" where
  "rc_Set conn ok now k v ttl db = update_command conn ok (None, AList.update k (RText v, deadline_of now ttl) db) db"

definition rc_Delete :: "bool \<Rightarrow> bool \<Rightarrow> string list \<Rightarrow> redis_db \<Rightarrow> redis_error option \<times> redis_db" where
  "rc_Delete conn ok ks db = update_command conn ok (None, filter (\<lambda>e. fst e \<notin> set ks) db) db"

definition rc_Exists :: "bool \<Rightarrow> bool \<Rightarrow> int \<Rightarrow> string \<Rightarrow> redis_db \<Rightarrow> redis_error + bool" where
  "rc_Exists conn ok now k db = command conn ok (Inr (live_value now k db \<noteq> None))"

text \<open>Adding to a set keeps its deadline; a set that is new has none.\<close>

definition rc_SAdd :: "bool \<Rightarrow> bool \<Rightarrow> int \<Rightarrow> string \<Rightarrow> string list \<Rightarrow> redis_db \<Rightarrow> redis_error option \<times> redis_db" where
  "rc_SAdd conn ok now k ms db = update_command conn ok
     (if ms = [] then (Some NoMembers, db)
      else case live_value now k db of
        None \<Rightarrow> (None, AList.update k (RMembers (remdups ms), None) db)
      | Some (RMembers old) \<Rightarrow> (None, AList.update k (RMembers (remdups (old @ ms)), snd (the (map_of db k))) db)
      | Some (RText s) \<Rightarrow> (Some WrongType, db)) db"

definition rc_SMembers :: "bool \<Rightarrow> bool \<Rightarrow> int \<Rightarrow> string \<Rightarrow> redis_db \<Rightarrow> redis_error + string list" where
  "rc_SMembers conn ok now k db = command conn ok
     (case live_value now k db of None \<Rightarrow> Inr [] | Some (RMembers ms) \<Rightarrow> Inr ms | Some (RText s) \<Rightarrow> Inl WrongType)"

definition rc_SIsMember :: "bool \<Rightarrow> bool \<Rightarrow> int \<Rightarrow> string \<Rightarrow> string \<Rightarrow> redis_db \<Rightarrow> redis_error + bool" where
  "rc_SIsMember conn ok now k m db = command conn ok
     (case live_value now k db of None \<Rightarrow> Inr False | Some (RMembers ms) \<Rightarrow> Inr (m \<in> set ms) | Some (RText s) \<Rightarrow> Inl WrongType)"

definition rc_Expire :: "bool \<Rightarrow> bool \<Rightarrow> int \<Rightarrow> string \<Rightarrow> int \<Rightarrow> redis_db \<Rightarrow> redis_error option \<times> redis_db" where
  "rc_Expire conn ok now k ttl db = update_command conn ok
     (case live_value now k db of
        None \<Rightarrow> (None, db)
      | Some v \<Rightarrow> (None, if ttl > 0 then AList.update k (v, Some (now + ttl)) db else AList.delete k db)) db"

text \<open>Keys by a pattern \<open>prefix*\<close>.\<close>

definition rc_Keys :: "bool \<Rightarrow> bool \<Rightarrow> int \<Rightarrow> string \<Rightarrow> redis_db \<Rightarrow> redis_error + string list" where
  "rc_Keys conn ok now prefix db = command conn ok
     (Inr (filter (\<lambda>k. HasPrefix k prefix \<and> live_value now k db \<noteq> None) (remdups (map fst db))))"

section \<open>The web-of-trust cache\<close>

definition prefixWoTScore :: string where "prefixWoTScore = ''wot:score:''"
definition prefixWoTFollows :: string where "prefixWoTFollows = ''wot:follows:''"
definition prefixWoTPageRank :: string where "prefixWoTPageRank = ''wot:pagerank:''"

text \<open>A cache has a client (else it is off), whose connection may be missing, and a lifetime.\<close>

record wot_cache =
  wc_client :: bool
  wc_conn :: bool
  wc_ttl :: int

definition NewWoTCache :: "bool \<Rightarrow> bool \<Rightarrow> int \<Rightarrow> wot_cache" where
  "NewWoTCache client conn ttl = \<lparr>wc_client = client, wc_conn = conn, wc_ttl = (if ttl = 0 then 300 * ns_per_sec else ttl)\<rparr>"

definition WoTCache_GetTrustLevel :: "wot_cache \<Rightarrow> bool \<Rightarrow> int \<Rightarrow> string \<Rightarrow> redis_db \<Rightarrow> int option" where
  "WoTCache_GetTrustLevel c ok now pk db =
     (if \<not> wc_client c then None
      else case rc_Get (wc_conn c) ok now (prefixWoTScore @ pk) db of Inl e \<Rightarrow> None | Inr v \<Rightarrow> ParseInt64 v)"

definition WoTCache_SetTrustLevel :: "wot_cache \<Rightarrow> bool \<Rightarrow> int \<Rightarrow> string \<Rightarrow> int \<Rightarrow> redis_db \<Rightarrow> redis_error option \<times> redis_db" where
  "WoTCache_SetTrustLevel c ok now pk level db =
     (if \<not> wc_client c then (None, db) else rc_Set (wc_conn c) ok now (prefixWoTScore @ pk) (fmt_d level) (wc_ttl c) db)"

definition WoTCache_InvalidateTrustLevel :: "wot_cache \<Rightarrow> bool \<Rightarrow> string \<Rightarrow> redis_db \<Rightarrow> redis_error option \<times> redis_db" where
  "WoTCache_InvalidateTrustLevel c ok pk db =
     (if \<not> wc_client c then (None, db) else rc_Delete (wc_conn c) ok [prefixWoTScore @ pk] db)"

definition WoTCache_GetFollows :: "wot_cache \<Rightarrow> bool \<Rightarrow> int \<Rightarrow> string \<Rightarrow> redis_db \<Rightarrow> string list option" where
  "WoTCache_GetFollows c ok now pk db =
     (if \<not> wc_client c then None
      else case rc_SMembers (wc_conn c) ok now (prefixWoTFollows @ pk) db of
        Inl e \<Rightarrow> None | Inr ms \<Rightarrow> if ms = [] then None else Some ms)"

text \<open>The flags are those of the deletion, whose error is ignored, the addition and the lifetime.\<close>

definition WoTCache_SetFollows :: "wot_cache \<Rightarrow> bool \<times> bool \<times> bool \<Rightarrow> int \<Rightarrow> string \<Rightarrow> string list \<Rightarrow> redis_db \<Rightarrow> redis_error option \<times> redis_db" where
  "WoTCache_SetFollows c oks now pk follows db =
     (if \<not> wc_client c \<or> follows = [] then (None, db)
      else case oks of (ok_del, ok_add, ok_exp) \<Rightarrow>
        let k = prefixWoTFollows @ pk;
            db1 = snd (rc_Delete (wc_conn c) ok_del [k] db);
            (e, db2) = rc_SAdd (wc_conn c) ok_add now k follows db1
        in if e \<noteq> None then (e, db2) else rc_Expire (wc_conn c) ok_exp now k (wc_ttl c) db2)"

text \<open>
  Whether a follow is cached, and whether the cache knew. Two commands: \<open>db1\<close> is what the first one sees, \<open>db2\<close> what
  the second one sees.
\<close>

definition WoTCache_IsFollowing :: "wot_cache \<Rightarrow> bool \<times> bool \<Rightarrow> int \<Rightarrow> string \<Rightarrow> string \<Rightarrow> redis_db \<Rightarrow> redis_db \<Rightarrow> bool \<times> bool" where
  "WoTCache_IsFollowing c oks now follower followee db1 db2 =
     (if \<not> wc_client c then (False, False)
      else case oks of (ok_ex, ok_mem) \<Rightarrow>
        let k = prefixWoTFollows @ follower in
        case rc_Exists (wc_conn c) ok_ex now k db1 of
          Inl e \<Rightarrow> (False, False)
        | Inr present \<Rightarrow>
            if \<not> present then (False, False)
            else case rc_SIsMember (wc_conn c) ok_mem now k followee db2 of Inl e \<Rightarrow> (False, False) | Inr b \<Rightarrow> (b, True))"

definition WoTCache_InvalidateFollows :: "wot_cache \<Rightarrow> bool \<Rightarrow> string \<Rightarrow> redis_db \<Rightarrow> redis_error option \<times> redis_db" where
  "WoTCache_InvalidateFollows c ok pk db =
     (if \<not> wc_client c then (None, db) else rc_Delete (wc_conn c) ok [prefixWoTFollows @ pk] db)"

text \<open>Scores: \<open>fmt\<close> prints with ten decimals, \<open>parse\<close> reads.\<close>

definition WoTCache_GetPageRank :: "(string \<Rightarrow> 'f option) \<Rightarrow> wot_cache \<Rightarrow> bool \<Rightarrow> int \<Rightarrow> string \<Rightarrow> redis_db \<Rightarrow> 'f option" where
  "WoTCache_GetPageRank parse c ok now pk db =
     (if \<not> wc_client c then None
      else case rc_Get (wc_conn c) ok now (prefixWoTPageRank @ pk) db of Inl e \<Rightarrow> None | Inr v \<Rightarrow> parse v)"

definition WoTCache_SetPageRank :: "('f \<Rightarrow> string) \<Rightarrow> wot_cache \<Rightarrow> bool \<Rightarrow> int \<Rightarrow> string \<Rightarrow> 'f \<Rightarrow> redis_db \<Rightarrow> redis_error option \<times> redis_db" where
  "WoTCache_SetPageRank fmt c ok now pk score db =
     (if \<not> wc_client c then (None, db) else rc_Set (wc_conn c) ok now (prefixWoTPageRank @ pk) (fmt score) (wc_ttl c) db)"

text \<open>A pipeline; each of its commands is answered or not. The map is given by its pairs in some order.\<close>

fun pipe_sets :: "('f \<Rightarrow> string) \<Rightarrow> int \<Rightarrow> int \<Rightarrow> (string \<times> 'f \<times> bool) list \<Rightarrow> redis_db \<Rightarrow> redis_error option \<times> redis_db" where
  "pipe_sets fmt now ttl [] db = (None, db)"
| "pipe_sets fmt now ttl ((pk, score, ok) # rest) db =
     (case rc_Set True ok now (prefixWoTPageRank @ pk) (fmt score) ttl db of
        (e, db') \<Rightarrow> (case pipe_sets fmt now ttl rest db' of (e', db'') \<Rightarrow> (if e = None then e' else e, db'')))"

definition WoTCache_SetPageRankBatch ::
  "('f \<Rightarrow> string) \<Rightarrow> wot_cache \<Rightarrow> int \<Rightarrow> (string \<times> 'f \<times> bool) list \<Rightarrow> int \<Rightarrow> redis_db \<Rightarrow> redis_error option \<times> redis_db" where
  "WoTCache_SetPageRankBatch fmt c now scores ttl db =
     (if \<not> wc_client c \<or> scores = [] then (None, db)
      else pipe_sets fmt now (if ttl = 0 then wc_ttl c else ttl) scores db)"

text \<open>Per pattern a listing, skipped on an error, and a deletion, whose error ends the loop.\<close>

fun clear_patterns :: "bool \<Rightarrow> int \<Rightarrow> (string \<times> bool \<times> bool) list \<Rightarrow> redis_db \<Rightarrow> redis_error option \<times> redis_db" where
  "clear_patterns conn now [] db = (None, db)"
| "clear_patterns conn now ((prefix, ok_keys, ok_del) # rest) db =
     (case rc_Keys conn ok_keys now prefix db of
        Inl e \<Rightarrow> clear_patterns conn now rest db
      | Inr ks \<Rightarrow>
          if ks = [] then clear_patterns conn now rest db
          else case rc_Delete conn ok_del ks db of
            (Some e, db') \<Rightarrow> (Some e, db')
          | (None, db') \<Rightarrow> clear_patterns conn now rest db')"

definition ClearWoTCache :: "wot_cache \<Rightarrow> (nat \<Rightarrow> bool \<times> bool) \<Rightarrow> int \<Rightarrow> redis_db \<Rightarrow> redis_error option \<times> redis_db" where
  "ClearWoTCache c oks now db =
     (if \<not> wc_client c then (None, db)
      else clear_patterns (wc_conn c) now [(prefixWoTScore, oks 0), (prefixWoTFollows, oks 1), (prefixWoTPageRank, oks 2)] db)"

section \<open>Sessions\<close>

record session_state =
  st_SessionID :: string
  st_AuthPubkey :: string
  st_AuthedAt :: int
  st_ConnectedAt :: int
  st_RemoteIP :: string
  st_Subscriptions :: "string list"
  st_LastActivity :: int

record session_config =
  sn_Enabled :: bool
  sn_SessionTTL :: int
  sn_KeyPrefix :: string

definition session_DefaultConfig :: session_config where
  "session_DefaultConfig = \<lparr>sn_Enabled = True, sn_SessionTTL = 30 * 60 * ns_per_sec, sn_KeyPrefix = ''session:''\<rparr>"

text \<open>A store: its client if it has one, its configuration, and JSON.\<close>

record session_link =
  sl_rdb :: bool
  sl_config :: session_config
  sl_encode :: "session_state \<Rightarrow> string"
  sl_decode :: "string \<Rightarrow> session_state option"

definition session_New :: "bool \<Rightarrow> session_config option \<Rightarrow> (session_state \<Rightarrow> string) \<Rightarrow> (string \<Rightarrow> session_state option) \<Rightarrow> session_link" where
  "session_New rdb cfg encode decode =
     \<lparr>sl_rdb = rdb, sl_config = (case cfg of None \<Rightarrow> session_DefaultConfig | Some c \<Rightarrow> c), sl_encode = encode, sl_decode = decode\<rparr>"

definition session_on :: "session_link \<Rightarrow> bool" where
  "session_on l \<longleftrightarrow> sl_rdb l \<and> sn_Enabled (sl_config l)"

definition session_key :: "session_link \<Rightarrow> string \<Rightarrow> string" where
  "session_key l sid = sn_KeyPrefix (sl_config l) @ sid"

definition now_seconds :: "int \<Rightarrow> int" where
  "now_seconds now = now div ns_per_sec"

text \<open>The write that most operations end with; its error is only logged.\<close>

definition put_state :: "session_link \<Rightarrow> bool \<Rightarrow> int \<Rightarrow> string \<Rightarrow> session_state \<Rightarrow> redis_db \<Rightarrow> redis_db" where
  "put_state l ok now sid st db =
     snd (rc_Set True ok now (session_key l sid) (sl_encode l st) (sn_SessionTTL (sl_config l)) db)"

definition session_Create :: "session_link \<Rightarrow> bool \<Rightarrow> int \<Rightarrow> string \<Rightarrow> string \<Rightarrow> redis_db \<Rightarrow> session_state \<times> redis_db" where
  "session_Create l ok now sid ip db =
     (let st = \<lparr>st_SessionID = sid, st_AuthPubkey = '''', st_AuthedAt = 0, st_ConnectedAt = now_seconds now,
                st_RemoteIP = ip, st_Subscriptions = [], st_LastActivity = now_seconds now\<rparr>
      in (st, if session_on l then put_state l ok now sid st db else db))"

definition session_Get :: "session_link \<Rightarrow> bool \<Rightarrow> int \<Rightarrow> string \<Rightarrow> redis_db \<Rightarrow> session_state option" where
  "session_Get l ok now sid db =
     (if \<not> session_on l then None
      else case rc_Get True ok now (session_key l sid) db of Inl e \<Rightarrow> None | Inr s \<Rightarrow> sl_decode l s)"

text \<open>
  The four operations that change a session read it, change what they have read, and write it back. \<open>change\<close> is what they
  make of what they have read; without a value they do nothing.
\<close>

definition change_session ::
  "(int \<Rightarrow> string \<Rightarrow> session_state option \<Rightarrow> session_state option) \<Rightarrow> session_link \<Rightarrow> bool \<times> bool \<Rightarrow> int \<Rightarrow> string \<Rightarrow> redis_db \<Rightarrow> redis_db" where
  "change_session change l oks now sid db =
     (if \<not> session_on l then db
      else case change (now_seconds now) sid (session_Get l (fst oks) now sid db) of
        None \<Rightarrow> db
      | Some st \<Rightarrow> put_state l (snd oks) now sid st db)"

definition auth_change :: "string \<Rightarrow> int \<Rightarrow> string \<Rightarrow> session_state option \<Rightarrow> session_state option" where
  "auth_change pubkey t sid cur =
     (let st = (case cur of
                  None \<Rightarrow> \<lparr>st_SessionID = sid, st_AuthPubkey = '''', st_AuthedAt = 0, st_ConnectedAt = t, st_RemoteIP = '''',
                           st_Subscriptions = [], st_LastActivity = 0\<rparr>
                | Some st \<Rightarrow> st)
      in Some (st\<lparr>st_AuthPubkey := pubkey, st_AuthedAt := t, st_LastActivity := t\<rparr>))"

definition subscribe_change :: "string \<Rightarrow> int \<Rightarrow> string \<Rightarrow> session_state option \<Rightarrow> session_state option" where
  "subscribe_change sub t sid cur =
     (case cur of
        None \<Rightarrow> None
      | Some st \<Rightarrow>
          if sub \<in> set (st_Subscriptions st) then None
          else Some (st\<lparr>st_Subscriptions := st_Subscriptions st @ [sub], st_LastActivity := t\<rparr>))"

definition unsubscribe_change :: "string \<Rightarrow> int \<Rightarrow> string \<Rightarrow> session_state option \<Rightarrow> session_state option" where
  "unsubscribe_change sub t sid cur =
     map_option (\<lambda>st. st\<lparr>st_Subscriptions := filter (\<lambda>s. s \<noteq> sub) (st_Subscriptions st), st_LastActivity := t\<rparr>) cur"

definition touch_change :: "int \<Rightarrow> string \<Rightarrow> session_state option \<Rightarrow> session_state option" where
  "touch_change t sid cur = map_option (\<lambda>st. st\<lparr>st_LastActivity := t\<rparr>) cur"

definition SetAuthPubkey :: "session_link \<Rightarrow> bool \<times> bool \<Rightarrow> int \<Rightarrow> string \<Rightarrow> string \<Rightarrow> redis_db \<Rightarrow> redis_db" where
  "SetAuthPubkey l oks now sid pubkey db = change_session (auth_change pubkey) l oks now sid db"

definition AddSubscription :: "session_link \<Rightarrow> bool \<times> bool \<Rightarrow> int \<Rightarrow> string \<Rightarrow> string \<Rightarrow> redis_db \<Rightarrow> redis_db" where
  "AddSubscription l oks now sid sub db = change_session (subscribe_change sub) l oks now sid db"

definition RemoveSubscription :: "session_link \<Rightarrow> bool \<times> bool \<Rightarrow> int \<Rightarrow> string \<Rightarrow> string \<Rightarrow> redis_db \<Rightarrow> redis_db" where
  "RemoveSubscription l oks now sid sub db = change_session (unsubscribe_change sub) l oks now sid db"

definition session_Touch :: "session_link \<Rightarrow> bool \<times> bool \<Rightarrow> int \<Rightarrow> string \<Rightarrow> redis_db \<Rightarrow> redis_db" where
  "session_Touch l oks now sid db = change_session touch_change l oks now sid db"

definition session_Delete :: "session_link \<Rightarrow> bool \<Rightarrow> string \<Rightarrow> redis_db \<Rightarrow> redis_db" where
  "session_Delete l ok sid db = (if session_on l then snd (rc_Delete True ok [session_key l sid] db) else db)"

definition GetAuthPubkey :: "session_link \<Rightarrow> bool \<Rightarrow> int \<Rightarrow> string \<Rightarrow> redis_db \<Rightarrow> string" where
  "GetAuthPubkey l ok now sid db = (case session_Get l ok now sid db of None \<Rightarrow> '''' | Some st \<Rightarrow> st_AuthPubkey st)"

definition session_IsAuthenticated :: "session_link \<Rightarrow> bool \<Rightarrow> int \<Rightarrow> string \<Rightarrow> redis_db \<Rightarrow> bool" where
  "session_IsAuthenticated l ok now sid db =
     (case session_Get l ok now sid db of None \<Rightarrow> False | Some st \<Rightarrow> st_AuthPubkey st \<noteq> '''')"

definition ListSessions :: "session_link \<Rightarrow> bool \<Rightarrow> int \<Rightarrow> redis_db \<Rightarrow> string list" where
  "ListSessions l ok now db =
     (if \<not> session_on l then []
      else let prefix = sn_KeyPrefix (sl_config l) in
        case rc_Keys True ok now prefix db of
          Inl e \<Rightarrow> []
        | Inr ks \<Rightarrow> map (drop (length prefix)) (filter (\<lambda>k. length k > length prefix) ks))"

text \<open>The scan answers in pages, each with its keys; one page that fails makes the count zero.\<close>

fun count_pages :: "int \<Rightarrow> (bool \<times> string list) list \<Rightarrow> int" where
  "count_pages n [] = n"
| "count_pages n ((ok, ks) # rest) = (if ok then count_pages (n + int (length ks)) rest else 0)"

definition CountSessions :: "session_link \<Rightarrow> (bool \<times> string list) list \<Rightarrow> int" where
  "CountSessions l pages = (if session_on l then count_pages 0 pages else 0)"

definition GetSessionsByPubkey :: "session_link \<Rightarrow> bool \<Rightarrow> (string \<Rightarrow> bool) \<Rightarrow> int \<Rightarrow> string \<Rightarrow> redis_db \<Rightarrow> string list" where
  "GetSessionsByPubkey l ok oks now pubkey db =
     (if \<not> session_on l then []
      else filter (\<lambda>sid. case session_Get l (oks sid) now sid db of None \<Rightarrow> False | Some st \<Rightarrow> st_AuthPubkey st = pubkey)
             (ListSessions l ok now db))"

section \<open>Values that expire\<close>

text \<open>
  What the relay relies on in each of these stores: a valid value is found until its lifetime has passed, and the calls on
  one key do not disturb the others.
\<close>

datatype ('k, 'v) kv_command = StoreAt int 'k 'v | DropKey 'k

primrec command_key :: "('k, 'v) kv_command \<Rightarrow> 'k" where
  "command_key (StoreAt t k v) = k"
| "command_key (DropKey k) = k"

locale expiring_map =
  fixes lookup :: "int \<Rightarrow> 'k \<Rightarrow> 's \<Rightarrow> 'v option"
    and store :: "int \<Rightarrow> 'k \<Rightarrow> 'v \<Rightarrow> 's \<Rightarrow> 's"
    and drop_key :: "'k \<Rightarrow> 's \<Rightarrow> 's"
    and valid :: "'v \<Rightarrow> bool"
    and ttl :: int
  assumes lookup_store: "valid v \<Longrightarrow> 0 < ttl \<Longrightarrow> lookup t k (store now k v s) = (if t < now + ttl then Some v else None)"
    and lookup_store_other: "k' \<noteq> k \<Longrightarrow> lookup t k' (store now k v s) = lookup t k' s"
    and lookup_drop: "lookup t k (drop_key k s) = None"
    and lookup_drop_other: "k' \<noteq> k \<Longrightarrow> lookup t k' (drop_key k s) = lookup t k' s"
begin

primrec run_command :: "('k, 'v) kv_command \<Rightarrow> 's \<Rightarrow> 's" where
  "run_command (StoreAt t k v) s = store t k v s"
| "run_command (DropKey k) s = drop_key k s"

lemma run_other: "list_all (\<lambda>c. command_key c \<noteq> k) cs \<Longrightarrow> lookup t k (fold run_command cs s) = lookup t k s"
proof (induction cs arbitrary: s)
  case (Cons c cs)
  then show ?case by (cases c) (simp_all add: lookup_store_other [OF not_sym] lookup_drop_other [OF not_sym])
qed simp

lemma last_store_found:
  "valid v \<Longrightarrow> 0 < ttl \<Longrightarrow> list_all (\<lambda>c. command_key c \<noteq> k) cs \<Longrightarrow>
   lookup t k (fold run_command (cs0 @ StoreAt now k v # cs) s) = (if t < now + ttl then Some v else None)"
  by (simp add: run_other lookup_store)

lemma dropped_not_found:
  "list_all (\<lambda>c. command_key c \<noteq> k) cs \<Longrightarrow> lookup t k (fold run_command (cs0 @ DropKey k # cs) s) = None"
  by (simp add: run_other lookup_drop)

end

lemma live_update [simp]: "live_value now k' (AList.update k (v, d) db) =
    (if k' = k then (case d of None \<Rightarrow> Some v | Some t \<Rightarrow> if now < t then Some v else None) else live_value now k' db)"
  by (simp add: live_value_def update_conv')

lemma map_of_filter_keys: "map_of (filter (\<lambda>e. fst e \<notin> K) db) k = (if k \<in> K then None else map_of db k)"
  by (induction db) auto

lemma live_filter_keys [simp]: "live_value now k (filter (\<lambda>e. fst e \<notin> K) db) = (if k \<in> K then None else live_value now k db)"
  by (simp add: live_value_def map_of_filter_keys)

lemma rc_Get_Set: "0 < ttl \<Longrightarrow> rc_Get True True t k' (snd (rc_Set True True now k v ttl db)) =
    (if k' = k then (if t < now + ttl then Inr v else Inl NilReply) else rc_Get True True t k' db)"
  by (simp add: rc_Get_def rc_Set_def command_def update_command_def deadline_of_def)

lemma rc_Get_other: "k' \<noteq> k \<Longrightarrow> rc_Get conn ok t k' (snd (rc_Set conn' ok' now k v ttl db)) = rc_Get conn ok t k' db"
  by (simp add: rc_Get_def rc_Set_def update_command_def)

lemma rc_Get_Delete: "rc_Get True ok t k' (snd (rc_Delete True True [k] db)) =
    (if k' = k then command True ok (Inl NilReply) else rc_Get True ok t k' db)"
  by (simp add: rc_Get_def rc_Delete_def update_command_def live_value_def map_of_filter_keys [of "{k}", simplified])

definition cache_reachable :: "wot_cache \<Rightarrow> bool" where
  "cache_reachable c \<longleftrightarrow> wc_client c \<and> wc_conn c"

interpretation trust_levels: expiring_map
  "\<lambda>t pk db. WoTCache_GetTrustLevel c True t pk db" "\<lambda>t pk level db. snd (WoTCache_SetTrustLevel c True t pk level db)"
  "\<lambda>pk db. snd (WoTCache_InvalidateTrustLevel c True pk db)" "\<lambda>level. cache_reachable c \<and> in_i64 level" "wc_ttl c"
proof
  fix level t pk now db
  assume "cache_reachable c \<and> in_i64 level" "0 < wc_ttl c"
  then show "WoTCache_GetTrustLevel c True t pk (snd (WoTCache_SetTrustLevel c True now pk level db)) =
      (if t < now + wc_ttl c then Some level else None)"
    by (simp add: WoTCache_GetTrustLevel_def WoTCache_SetTrustLevel_def cache_reachable_def rc_Get_Set ParseInt64_fmt_d)
next
  fix pk' pk t now level db
  assume "(pk' :: string) \<noteq> pk"
  then show "WoTCache_GetTrustLevel c True t pk' (snd (WoTCache_SetTrustLevel c True now pk level db)) = WoTCache_GetTrustLevel c True t pk' db"
    by (simp add: WoTCache_GetTrustLevel_def WoTCache_SetTrustLevel_def rc_Get_other)
next
  fix t pk db
  show "WoTCache_GetTrustLevel c True t pk (snd (WoTCache_InvalidateTrustLevel c True pk db)) = None"
    by (cases "wc_conn c") (simp_all add: WoTCache_GetTrustLevel_def WoTCache_InvalidateTrustLevel_def rc_Get_Delete command_def rc_Get_def [of False])
next
  fix pk' pk t db
  assume "(pk' :: string) \<noteq> pk"
  then show "WoTCache_GetTrustLevel c True t pk' (snd (WoTCache_InvalidateTrustLevel c True pk db)) = WoTCache_GetTrustLevel c True t pk' db"
    by (cases "wc_conn c") (simp_all add: WoTCache_GetTrustLevel_def WoTCache_InvalidateTrustLevel_def rc_Get_Delete command_def rc_Get_def [of False])
qed

lemma session_key_inj [simp]: "session_key l a = session_key l b \<longleftrightarrow> a = b"
  by (simp add: session_key_def)

interpretation kept_sessions: expiring_map
  "\<lambda>t sid db. session_Get l True t sid db" "\<lambda>t sid st db. if session_on l then put_state l True t sid st db else db"
  "\<lambda>sid db. session_Delete l True sid db" "\<lambda>st. session_on l \<and> sl_decode l (sl_encode l st) = Some st" "sn_SessionTTL (sl_config l)"
proof
  fix st t sid now db
  assume "session_on l \<and> sl_decode l (sl_encode l st) = Some st" "0 < sn_SessionTTL (sl_config l)"
  then show "session_Get l True t sid (if session_on l then put_state l True now sid st db else db) =
      (if t < now + sn_SessionTTL (sl_config l) then Some st else None)"
    by (simp add: session_Get_def put_state_def rc_Get_Set)
next
  fix sid' sid t now st db
  assume "(sid' :: string) \<noteq> sid"
  then show "session_Get l True t sid' (if session_on l then put_state l True now sid st db else db) = session_Get l True t sid' db"
    by (simp add: session_Get_def put_state_def rc_Get_other)
next
  fix t sid db
  show "session_Get l True t sid (session_Delete l True sid db) = None"
    by (simp add: session_Get_def session_Delete_def rc_Get_Delete command_def)
next
  fix sid' sid t db
  assume "(sid' :: string) \<noteq> sid"
  then show "session_Get l True t sid' (session_Delete l True sid db) = session_Get l True t sid' db"
    by (simp add: session_Get_def session_Delete_def rc_Get_Delete)
qed

section \<open>Sessions as a map\<close>

text \<open>A sequence of calls of processes that share the store, each at its time, with its flags.\<close>

datatype session_call =
    CallCreate string string bool
  | CallAuth string string "bool \<times> bool"
  | CallSubscribe string string "bool \<times> bool"
  | CallUnsubscribe string string "bool \<times> bool"
  | CallTouch string "bool \<times> bool"
  | CallDelete string bool

fun run_call :: "session_link \<Rightarrow> int \<times> session_call \<Rightarrow> redis_db \<Rightarrow> redis_db" where
  "run_call l (t, CallCreate sid ip ok) db = snd (session_Create l ok t sid ip db)"
| "run_call l (t, CallAuth sid pk oks) db = SetAuthPubkey l oks t sid pk db"
| "run_call l (t, CallSubscribe sid sub oks) db = AddSubscription l oks t sid sub db"
| "run_call l (t, CallUnsubscribe sid sub oks) db = RemoveSubscription l oks t sid sub db"
| "run_call l (t, CallTouch sid oks) db = session_Touch l oks t sid db"
| "run_call l (t, CallDelete sid ok) db = session_Delete l ok sid db"

text \<open>
  The specification: a map from session identifiers to a state and the time it ends at (never, if there is none). A write
  renews the time; a failed read finds nothing, and a failed write changes nothing.
\<close>

type_synonym session_map = "string \<Rightarrow> (session_state \<times> int option) option"

definition found :: "int \<Rightarrow> session_map \<Rightarrow> string \<Rightarrow> session_state option" where
  "found t m sid =
     (case m sid of None \<Rightarrow> None
      | Some (st, d) \<Rightarrow> (case d of None \<Rightarrow> Some st | Some e \<Rightarrow> if t < e then Some st else None))"

definition spec_change ::
  "int \<Rightarrow> (int \<Rightarrow> string \<Rightarrow> session_state option \<Rightarrow> session_state option) \<Rightarrow> bool \<times> bool \<Rightarrow> int \<Rightarrow> string \<Rightarrow> session_map \<Rightarrow> session_map" where
  "spec_change ttl change oks t sid m =
     (case change (now_seconds t) sid (if fst oks then found t m sid else None) of
        None \<Rightarrow> m
      | Some st \<Rightarrow> if snd oks then m(sid \<mapsto> (st, Some (t + ttl))) else m)"

definition fresh_state :: "int \<Rightarrow> string \<Rightarrow> string \<Rightarrow> session_state" where
  "fresh_state t sid ip = \<lparr>st_SessionID = sid, st_AuthPubkey = '''', st_AuthedAt = 0, st_ConnectedAt = now_seconds t,
     st_RemoteIP = ip, st_Subscriptions = [], st_LastActivity = now_seconds t\<rparr>"

fun spec_call :: "int \<Rightarrow> int \<times> session_call \<Rightarrow> session_map \<Rightarrow> session_map" where
  "spec_call ttl (t, CallCreate sid ip ok) m = (if ok then m(sid \<mapsto> (fresh_state t sid ip, Some (t + ttl))) else m)"
| "spec_call ttl (t, CallAuth sid pk oks) m = spec_change ttl (auth_change pk) oks t sid m"
| "spec_call ttl (t, CallSubscribe sid sub oks) m = spec_change ttl (subscribe_change sub) oks t sid m"
| "spec_call ttl (t, CallUnsubscribe sid sub oks) m = spec_change ttl (unsubscribe_change sub) oks t sid m"
| "spec_call ttl (t, CallTouch sid oks) m = spec_change ttl touch_change oks t sid m"
| "spec_call ttl (t, CallDelete sid ok) m = (if ok then m(sid := None) else m)"

text \<open>What Redis holds of a session.\<close>

definition sessions_in :: "session_link \<Rightarrow> redis_db \<Rightarrow> session_map" where
  "sessions_in l db sid =
     (case map_of db (session_key l sid) of
        Some (RText s, d) \<Rightarrow> map_option (\<lambda>st. (st, d)) (sl_decode l s)
      | _ \<Rightarrow> None)"

definition session_link_ok :: "session_link \<Rightarrow> bool" where
  "session_link_ok l \<longleftrightarrow> session_on l \<and> 0 < sn_SessionTTL (sl_config l) \<and> (\<forall>st. sl_decode l (sl_encode l st) = Some st)"

lemma session_Get_found: "session_on l \<Longrightarrow> session_Get l ok t sid db = (if ok then found t (sessions_in l db) sid else None)"
  by (auto simp: session_Get_def rc_Get_def command_def live_value_def found_def sessions_in_def
      split: option.split redis_value.split prod.split)

lemma sessions_in_put:
  assumes "session_link_ok l"
  shows "sessions_in l (put_state l ok t sid st db) =
     (if ok then (sessions_in l db)(sid \<mapsto> (st, Some (t + sn_SessionTTL (sl_config l)))) else sessions_in l db)"
  using assms
  by (auto simp: sessions_in_def put_state_def rc_Set_def update_command_def deadline_of_def session_link_ok_def update_conv' fun_eq_iff)

lemma sessions_in_change:
  assumes "session_link_ok l"
  shows "sessions_in l (change_session change l oks t sid db) = spec_change (sn_SessionTTL (sl_config l)) change oks t sid (sessions_in l db)"
proof -
  have "session_on l" using assms by (simp add: session_link_ok_def)
  then show ?thesis
    by (auto simp: change_session_def spec_change_def session_Get_found sessions_in_put [OF assms] split: option.split)
qed

lemma sessions_in_call:
  assumes "session_link_ok l"
  shows "sessions_in l (run_call l (t, c) db) = spec_call (sn_SessionTTL (sl_config l)) (t, c) (sessions_in l db)"
proof (cases c)
  case (CallDelete sid ok)
  with assms show ?thesis
    by (auto simp: session_Delete_def rc_Delete_def update_command_def session_link_ok_def sessions_in_def fun_eq_iff
        map_of_filter_keys [of "{session_key l sid}", simplified])
qed (use assms in \<open>simp_all add: session_Create_def Let_def sessions_in_put fresh_state_def SetAuthPubkey_def AddSubscription_def
    RemoveSubscription_def session_Touch_def sessions_in_change session_link_ok_def\<close>)

text \<open>Under any sequence of calls and failures, Redis holds exactly the sessions that the specification says.\<close>

theorem sessions_refine_map:
  assumes "session_link_ok l"
  shows "sessions_in l (fold (run_call l) calls db) =
     fold (spec_call (sn_SessionTTL (sl_config l))) calls (sessions_in l db)"
proof (induction calls arbitrary: db)
  case (Cons c calls)
  then show ?case using sessions_in_call [OF assms, of "fst c" "snd c" db] by simp
qed simp

lemma sessions_in_empty [simp]: "sessions_in l [] = Map.empty"
  by (simp add: sessions_in_def fun_eq_iff)

section \<open>Who is authenticated\<close>

definition authorised_by :: "int \<Rightarrow> (int \<times> session_call) list \<Rightarrow> session_map \<Rightarrow> bool" where
  "authorised_by ttl calls m \<longleftrightarrow>
     (\<forall>sid st d. m sid = Some (st, d) \<longrightarrow>
        (st_AuthPubkey st \<noteq> '''' \<longrightarrow> (\<exists>t r. (t, CallAuth sid (st_AuthPubkey st) (r, True)) \<in> set calls))
        \<and> (\<exists>t c. (t, c) \<in> set calls \<and> d = Some (t + ttl)))"

lemma authorised_snoc: "authorised_by ttl calls m \<Longrightarrow> authorised_by ttl (calls @ [x]) m"
  unfolding authorised_by_def by fastforce

lemma authorised_put:
  assumes "authorised_by ttl calls m"
    "st_AuthPubkey st \<noteq> '''' \<longrightarrow> (\<exists>t' r. (t', CallAuth sid (st_AuthPubkey st) (r, True)) \<in> set (calls @ [(t, c)]))"
  shows "authorised_by ttl (calls @ [(t, c)]) (m(sid \<mapsto> (st, Some (t + ttl))))"
  using authorised_snoc [OF assms(1), of "(t, c)"] assms(2) unfolding authorised_by_def by auto

lemma found_in: "found t m sid = Some st \<Longrightarrow> \<exists>d. m sid = Some (st, d)"
  by (auto simp: found_def split: option.splits if_splits)

text \<open>A change that keeps the key of the session it finds.\<close>

definition keeps_key :: "(int \<Rightarrow> string \<Rightarrow> session_state option \<Rightarrow> session_state option) \<Rightarrow> bool" where
  "keeps_key change \<longleftrightarrow> (\<forall>t sid cur st'. change t sid cur = Some st' \<longrightarrow>
     (\<exists>st. cur = Some st \<and> st_AuthPubkey st' = st_AuthPubkey st))"

lemma keeps_key_changes: "keeps_key (subscribe_change sub)" "keeps_key (unsubscribe_change sub)" "keeps_key touch_change"
  by (auto simp: keeps_key_def subscribe_change_def unsubscribe_change_def touch_change_def split: option.splits if_splits)

lemma authorised_change:
  assumes "authorised_by ttl calls m" "keeps_key change"
  shows "authorised_by ttl (calls @ [(t, c)]) (spec_change ttl change oks t sid m)"
proof (cases "change (now_seconds t) sid (if fst oks then found t m sid else None)")
  case None
  then show ?thesis using authorised_snoc [OF assms(1)] by (simp add: spec_change_def)
next
  case (Some st')
  with assms(2) obtain st where st: "(if fst oks then found t m sid else None) = Some st" "st_AuthPubkey st' = st_AuthPubkey st"
    unfolding keeps_key_def by blast
  then obtain d where "m sid = Some (st, d)" using found_in by (metis option.distinct(1))
  with assms(1) st(2) have "st_AuthPubkey st' \<noteq> '''' \<longrightarrow> (\<exists>t' r. (t', CallAuth sid (st_AuthPubkey st') (r, True)) \<in> set (calls @ [(t, c)]))"
    unfolding authorised_by_def by (metis Un_iff set_append)
  from authorised_put [OF assms(1) this] authorised_snoc [OF assms(1)] Some show ?thesis
    by (simp add: spec_change_def)
qed

lemma authorised_call:
  assumes "authorised_by ttl calls m"
  shows "authorised_by ttl (calls @ [(t, c)]) (spec_call ttl (t, c) m)"
proof (cases c)
  case (CallCreate sid ip ok)
  have "authorised_by ttl (calls @ [(t, c)]) (m(sid \<mapsto> (fresh_state t sid ip, Some (t + ttl))))"
    by (rule authorised_put [OF assms]) (simp add: fresh_state_def)
  with authorised_snoc [OF assms] CallCreate show ?thesis by (cases ok) simp_all
next
  case (CallAuth sid pk oks)
  obtain r w where oks: "oks = (r, w)" by (cases oks)
  have put: "authorised_by ttl (calls @ [(t, c)]) (m(sid \<mapsto> (st, Some (t + ttl))))" if "st_AuthPubkey st = pk" "w" for st
    by (rule authorised_put [OF assms]) (use that CallAuth oks in auto)
  show ?thesis
  proof (cases w)
    case True
    then show ?thesis using put CallAuth by (simp add: spec_change_def auth_change_def oks Let_def)
  next
    case False
    then show ?thesis using authorised_snoc [OF assms] CallAuth by (simp add: spec_change_def auth_change_def oks Let_def)
  qed
next
  case (CallDelete sid ok)
  with authorised_snoc [OF assms, of "(t, c)"] show ?thesis by (auto simp: authorised_by_def)
qed (simp_all add: authorised_change [OF assms] keeps_key_changes)

lemma authorised_calls: "authorised_by ttl calls (fold (spec_call ttl) calls Map.empty)"
proof (induction calls rule: rev_induct)
  case Nil
  then show ?case by (simp add: authorised_by_def)
next
  case (snoc x calls)
  then show ?case using authorised_call [of ttl calls _ "fst x" "snd x"] by simp
qed

text \<open>A session is authenticated only as a key that an authentication stored for that session, and only while some call of
  less than a lifetime ago has renewed it; when Redis does not answer, nobody is.\<close>

theorem session_is_authenticated_by_a_call:
  assumes "session_link_ok l" "session_IsAuthenticated l ok now sid (fold (run_call l) calls [])"
  shows "ok \<and> (\<exists>t r. (t, CallAuth sid (GetAuthPubkey l ok now sid (fold (run_call l) calls [])) (r, True)) \<in> set calls)
     \<and> (\<exists>t c. (t, c) \<in> set calls \<and> now < t + sn_SessionTTL (sl_config l))"
proof -
  let ?m = "fold (spec_call (sn_SessionTTL (sl_config l))) calls Map.empty"
  have m: "sessions_in l (fold (run_call l) calls []) = ?m"
    using sessions_refine_map [OF assms(1), of calls "[]"] by simp
  have on: "session_on l" using assms(1) by (simp add: session_link_ok_def)
  from assms(2) obtain st where st: "session_Get l ok now sid (fold (run_call l) calls []) = Some st" "st_AuthPubkey st \<noteq> ''''"
    by (auto simp: session_IsAuthenticated_def split: option.splits)
  then have "ok" and f: "found now ?m sid = Some st" by (auto simp: session_Get_found [OF on] m split: if_splits)
  then obtain d where d: "?m sid = Some (st, d)" using found_in by blast
  with authorised_calls [of "sn_SessionTTL (sl_config l)" calls] st(2)
  obtain t r t' c where "(t, CallAuth sid (st_AuthPubkey st) (r, True)) \<in> set calls" "(t', c) \<in> set calls"
    "d = Some (t' + sn_SessionTTL (sl_config l))" unfolding authorised_by_def by blast
  moreover with f d have "now < t' + sn_SessionTTL (sl_config l)" by (simp add: found_def split: if_splits)
  ultimately show ?thesis using \<open>ok\<close> st(1) by (auto simp: GetAuthPubkey_def)
qed

text \<open>In place of JSON for the examples: a list of strings, every character marked, every string ended.\<close>

definition put_string :: "string \<Rightarrow> string" where
  "put_string s = concat (map (\<lambda>c. [CHR ''c'', c]) s) @ ''e.''"

fun get_strings :: "string \<Rightarrow> string list" where
  "get_strings (m # c # rest) =
     (if m = CHR ''e'' then '''' # get_strings rest
      else case get_strings rest of w # ws \<Rightarrow> (c # w) # ws | [] \<Rightarrow> [])"
| "get_strings s = []"

lemma get_strings_put: "get_strings (put_string s @ rest) = s # get_strings rest"
  by (induction s) (simp_all add: put_string_def)

lemma get_strings_puts: "get_strings (concat (map put_string ws)) = ws"
  by (induction ws) (simp_all add: get_strings_put)

definition read_int :: "string \<Rightarrow> int" where
  "read_int s =
     (case s of [] \<Rightarrow> 0
      | c # ds \<Rightarrow> if c = CHR ''-'' then - int (the (digits_value 0 ds)) else int (the (digits_value 0 s)))"

lemma read_int_fmt_d: "read_int (fmt_d i) = i"
proof (cases "i < 0")
  case True
  then show ?thesis by (simp add: read_int_def fmt_d_def nat_digits_value)
next
  case False
  obtain c cs where "nat_digits (nat i) = c # cs" using nat_digits_nonempty [of "nat i"] by (meson neq_Nil_conv)
  with nat_digits_no_sign [OF this] nat_digits_value [of "nat i"] False show ?thesis by (simp add: read_int_def fmt_d_def)
qed

definition plain_encode :: "session_state \<Rightarrow> string" where
  "plain_encode st = concat (map put_string ([st_SessionID st, st_AuthPubkey st, fmt_d (st_AuthedAt st), fmt_d (st_ConnectedAt st),
     st_RemoteIP st, fmt_d (st_LastActivity st)] @ st_Subscriptions st))"

definition plain_decode :: "string \<Rightarrow> session_state option" where
  "plain_decode s =
     (case get_strings s of
        sid # pk # t1 # t2 # ip # t3 # subs \<Rightarrow>
          Some \<lparr>st_SessionID = sid, st_AuthPubkey = pk, st_AuthedAt = read_int t1, st_ConnectedAt = read_int t2,
                st_RemoteIP = ip, st_Subscriptions = subs, st_LastActivity = read_int t3\<rparr>
      | _ \<Rightarrow> None)"

lemma plain_decode_encode: "plain_decode (plain_encode st) = Some st"
  unfolding plain_encode_def plain_decode_def get_strings_puts by (simp add: read_int_fmt_d)

definition demo_link :: session_link where
  "demo_link = session_New True None plain_encode plain_decode"

lemma demo_link_ok: "session_link_ok demo_link"
  by (simp add: demo_link_def session_New_def session_link_ok_def session_on_def session_DefaultConfig_def plain_decode_encode)

lemma demo_link_ttl: "sn_SessionTTL (sl_config demo_link) = 1800 * ns_per_sec"
  by (simp add: demo_link_def session_New_def session_DefaultConfig_def)

definition demo_calls :: "(int \<times> session_call) list" where
  "demo_calls = [(0, CallCreate ''s'' ''ip'' True), (5, CallAuth ''s'' ''alice'' (True, True))]"

lemma sessions_refine_map_witness:
  "sessions_in demo_link (fold (run_call demo_link) demo_calls []) = fold (spec_call (1800 * ns_per_sec)) demo_calls Map.empty"
  using sessions_refine_map [OF demo_link_ok, of demo_calls "[]"] by (simp only: sessions_in_empty demo_link_ttl)

lemma demo_sessions:
  "sessions_in demo_link (fold (run_call demo_link) demo_calls []) = fold (spec_call (1800 * ns_per_sec)) demo_calls Map.empty"
  by (simp add: demo_calls_def sessions_in_call [OF demo_link_ok] demo_link_ttl del: run_call.simps)

lemma demo_authenticated: "session_IsAuthenticated demo_link True 9 ''s'' (fold (run_call demo_link) demo_calls [])"
proof -
  have "session_on demo_link" using demo_link_ok by (simp add: session_link_ok_def)
  then show ?thesis
    by (simp add: session_IsAuthenticated_def session_Get_found demo_sessions)
      (simp add: demo_calls_def found_def spec_change_def auth_change_def Let_def)
qed

lemma session_is_authenticated_by_a_call_witness:
  "\<exists>t c. (t, c) \<in> set demo_calls \<and> 9 < t + 1800 * ns_per_sec"
  using session_is_authenticated_by_a_call [OF demo_link_ok demo_authenticated] by (metis demo_link_ttl)

section \<open>Lists of sessions\<close>

lemma live_in_keys: "live_value now k db \<noteq> None \<Longrightarrow> k \<in> fst ` set db"
  by (auto simp: live_value_def split: option.splits dest: map_of_SomeD intro: rev_image_eqI)

lemma rc_Keys_set: "rc_Keys True True now prefix db = Inr ks \<Longrightarrow> set ks = {k. HasPrefix k prefix \<and> live_value now k db \<noteq> None}"
  using live_in_keys [of now _ db] by (auto simp: rc_Keys_def command_def)

lemma rc_Keys_prefix:
  "rc_Keys True True now prefix db = Inr ks \<Longrightarrow> prefix @ sid \<in> set ks \<longleftrightarrow> live_value now (prefix @ sid) db \<noteq> None"
  by (simp add: rc_Keys_set)

text \<open>The sessions of a key are those, with an identifier, that hold it.\<close>

lemma GetSessionsByPubkey_exact:
  assumes "session_on l"
  shows "sid \<in> set (GetSessionsByPubkey l True (\<lambda>_. True) now pk db) \<longleftrightarrow>
    sid \<noteq> '''' \<and> (\<exists>st. session_Get l True now sid db = Some st \<and> st_AuthPubkey st = pk)"
proof -
  let ?p = "sn_KeyPrefix (sl_config l)"
  obtain ks where ks: "rc_Keys True True now ?p db = Inr ks" by (simp add: rc_Keys_def command_def)
  then have prefixed: "\<forall>k \<in> set ks. HasPrefix k ?p" by (auto simp: rc_Keys_def command_def)
  have "sid \<in> set (ListSessions l True now db) \<longleftrightarrow> sid \<noteq> '''' \<and> ?p @ sid \<in> set ks"
    using assms prefixed ks by (force simp: ListSessions_def Let_def HasPrefix_iff)
  moreover have "session_Get l True now sid db = Some st \<Longrightarrow> live_value now (?p @ sid) db \<noteq> None" for st
    using assms by (auto simp: session_Get_def rc_Get_def command_def session_key_def split: option.splits)
  ultimately show ?thesis using assms rc_Keys_prefix [OF ks, of sid]
    by (auto simp: GetSessionsByPubkey_def split: option.splits)
qed

section \<open>Where the code departs from its intent\<close>

text \<open>An authentication whose read fails writes a new state over the session: its address and subscriptions are gone.\<close>

lemma failed_read_forgets_session:
  assumes "session_link_ok l"
  shows "session_Get l True t sid (SetAuthPubkey l (False, True) t sid pk db) =
    Some \<lparr>st_SessionID = sid, st_AuthPubkey = pk, st_AuthedAt = now_seconds t, st_ConnectedAt = now_seconds t, st_RemoteIP = '''',
          st_Subscriptions = [], st_LastActivity = now_seconds t\<rparr>"
proof -
  have "session_on l" "0 < sn_SessionTTL (sl_config l)" using assms by (simp_all add: session_link_ok_def)
  then show ?thesis
    by (simp add: session_Get_found SetAuthPubkey_def sessions_in_change [OF assms] spec_change_def auth_change_def found_def)
qed

text \<open>Two subscriptions that are read before either is written: the second write loses the first.\<close>

lemma concurrent_subscription_is_lost:
  assumes "session_link_ok l" "session_Get l True t sid db = Some st" "a \<notin> set (st_Subscriptions st)" "b \<notin> set (st_Subscriptions st)" "a \<noteq> b"
    and "subscribe_change b (now_seconds t) sid (session_Get l True t sid db) = Some stb"
  shows "\<exists>st'. session_Get l True t sid (put_state l True t sid stb (AddSubscription l (True, True) t sid a db)) = Some st'
     \<and> b \<in> set (st_Subscriptions st') \<and> a \<notin> set (st_Subscriptions st')"
proof -
  have "session_on l" "0 < sn_SessionTTL (sl_config l)" using assms(1) by (simp_all add: session_link_ok_def)
  with assms show ?thesis
    by (auto simp: session_Get_found sessions_in_put [OF assms(1)] found_def subscribe_change_def)
qed

text \<open>
  A follow list that is replaced between the two commands of a lookup: the cache says, as a hit, that the key is not
  followed, although it is in the list before and after.
\<close>

lemma cached_follow_denied_while_replaced:
  "let c = NewWoTCache True True 0;
       db = snd (WoTCache_SetFollows c (True, True, True) 0 ''alice'' [''bob''] []);
       gone = snd (rc_Delete True True [prefixWoTFollows @ ''alice''] db)
   in WoTCache_IsFollowing c (True, True) 1 ''alice'' ''bob'' db db = (True, True)
      \<and> WoTCache_IsFollowing c (True, True) 1 ''alice'' ''bob'' db gone = (False, True)"
  by (simp add: Let_def NewWoTCache_def WoTCache_SetFollows_def WoTCache_IsFollowing_def rc_Delete_def rc_SAdd_def rc_Expire_def
      rc_Exists_def rc_SIsMember_def command_def update_command_def live_value_def)

text \<open>If the lifetime is not set, the list is kept for ever.\<close>

lemma follows_without_lifetime:
  "let c = NewWoTCache True True 0; db = snd (WoTCache_SetFollows c (True, True, False) 0 ''alice'' [''bob''] [])
   in WoTCache_GetFollows c True t ''alice'' db = Some [''bob'']"
  by (simp add: Let_def NewWoTCache_def WoTCache_SetFollows_def WoTCache_GetFollows_def rc_Delete_def rc_SAdd_def rc_Expire_def
      rc_SMembers_def command_def update_command_def live_value_def)

text \<open>Caching an empty list changes nothing, so the old one stays.\<close>

lemma empty_follows_are_not_cached: "WoTCache_SetFollows c oks now pk [] db = (None, db)"
  by (simp add: WoTCache_SetFollows_def)

section \<open>Clearing the cache\<close>

lemma clear_patterns_other:
  "list_all (\<lambda>(prefix, _). \<not> HasPrefix k prefix) ps \<Longrightarrow> live_value t k (snd (clear_patterns conn now ps db)) = live_value t k db"
proof (induction conn now ps db rule: clear_patterns.induct)
  case (2 conn now prefix ok_keys ok_del rest db)
  show ?case
  proof (cases "rc_Keys conn ok_keys now prefix db")
    case (Inl e)
    with 2 show ?thesis by simp
  next
    case (Inr ks)
    then have "k \<notin> set ks" using 2(4) by (auto simp: rc_Keys_def command_def split: if_splits)
    then have d: "live_value t k (snd (rc_Delete conn ok_del ks db)) = live_value t k db"
      by (simp add: rc_Delete_def update_command_def)
    with 2 Inr show ?thesis by (auto split: prod.split option.split)
  qed
qed simp

text \<open>Whatever fails, clearing the web-of-trust cache touches no other key.\<close>

lemma ClearWoTCache_spares_others:
  assumes "\<not> HasPrefix k ''wot:''"
  shows "live_value t k (snd (ClearWoTCache c oks now db)) = live_value t k db"
proof -
  have "\<not> HasPrefix k (''wot:'' @ p)" for p using assms by (auto simp: HasPrefix_iff)
  from this [of "''score:''"] this [of "''follows:''"] this [of "''pagerank:''"]
  have "list_all (\<lambda>(prefix, _). \<not> HasPrefix k prefix) [(prefixWoTScore, oks 0), (prefixWoTFollows, oks 1), (prefixWoTPageRank, oks 2)]"
    by (simp add: prefixWoTScore_def prefixWoTFollows_def prefixWoTPageRank_def)
  then show ?thesis by (simp only: ClearWoTCache_def clear_patterns_other split: if_split) simp
qed

definition without_live :: "int \<Rightarrow> string \<Rightarrow> redis_db \<Rightarrow> redis_db" where
  "without_live now prefix db = filter (\<lambda>e. fst e \<notin> {k. HasPrefix k prefix \<and> live_value now k db \<noteq> None}) db"

lemma clear_one:
  "clear_patterns True now ((prefix, True, True) # rest) db =
   clear_patterns True now rest (without_live now prefix db)"
proof -
  obtain ks where ks: "rc_Keys True True now prefix db = Inr ks" by (simp add: rc_Keys_def command_def)
  then have s: "set ks = {k. HasPrefix k prefix \<and> live_value now k db \<noteq> None}" by (rule rc_Keys_set)
  show ?thesis
  proof (cases "ks = []")
    case True
    with s have "{k. HasPrefix k prefix \<and> live_value now k db \<noteq> None} = {}" by simp
    then have "without_live now prefix db = db" unfolding without_live_def by simp
    with ks True show ?thesis by simp
  next
    case False
    then show ?thesis by (simp add: ks rc_Delete_def update_command_def without_live_def s)
  qed
qed

lemma live_without: "live_value now k (without_live now prefix db) = (if HasPrefix k prefix then None else live_value now k db)"
  unfolding without_live_def live_filter_keys by auto

text \<open>When Redis answers, no level, list or score is left.\<close>

lemma ClearWoTCache_clears:
  assumes "cache_reachable c"
  shows "WoTCache_GetTrustLevel c True now pk (snd (ClearWoTCache c (\<lambda>_. (True, True)) now db)) = None"
    and "WoTCache_GetFollows c True now pk (snd (ClearWoTCache c (\<lambda>_. (True, True)) now db)) = None"
    and "WoTCache_GetPageRank parse c True now pk (snd (ClearWoTCache c (\<lambda>_. (True, True)) now db)) = None"
proof -
  have gone: "live_value now k (snd (ClearWoTCache c (\<lambda>_. (True, True)) now db)) = None"
    if "HasPrefix k prefixWoTScore \<or> HasPrefix k prefixWoTFollows \<or> HasPrefix k prefixWoTPageRank" for k
    using assms that by (auto simp: ClearWoTCache_def cache_reachable_def clear_one live_without simp del: clear_patterns.simps(2))
  show "WoTCache_GetTrustLevel c True now pk (snd (ClearWoTCache c (\<lambda>_. (True, True)) now db)) = None"
    by (simp add: WoTCache_GetTrustLevel_def rc_Get_def gone command_def)
  show "WoTCache_GetFollows c True now pk (snd (ClearWoTCache c (\<lambda>_. (True, True)) now db)) = None"
    by (simp add: WoTCache_GetFollows_def rc_SMembers_def gone command_def)
  show "WoTCache_GetPageRank parse c True now pk (snd (ClearWoTCache c (\<lambda>_. (True, True)) now db)) = None"
    by (simp add: WoTCache_GetPageRank_def rc_Get_def gone command_def)
qed

text \<open>A batch of scores is read back, the last score of a key winning, within the lifetime.\<close>

lemma pipe_sets_ok:
  "list_all (\<lambda>(_, _, ok). ok) scores \<Longrightarrow> 0 < ttl \<Longrightarrow> t < now + ttl \<Longrightarrow>
   live_value t (prefixWoTPageRank @ pk) (snd (pipe_sets fmt now ttl scores db)) =
     (case map_of (rev (map (\<lambda>(pk, score, _). (pk, score)) scores)) pk of
        None \<Rightarrow> live_value t (prefixWoTPageRank @ pk) db | Some score \<Rightarrow> Some (RText (fmt score)))"
proof (induction fmt now ttl scores db rule: pipe_sets.induct)
  case (2 fmt now ttl pk' score ok rest db)
  then show ?case
    by (auto simp: rc_Set_def update_command_def deadline_of_def map_add_def split: prod.split option.split)
qed simp

end
