(* ===== verification/Feed_Ranking.thy ===== *)
theory Feed_Ranking
  imports Trust_Gate Complex_Main "HOL-Library.Multiset"
begin

text \<open>
  Ranking of events: internal/algo, which the feeds use. Scores are floating-point numbers in the code and real numbers
  here, so rounding is not modelled. Engagement is counted on the rows of the event table; each statement takes a flag
  that says whether it is answered. The order in which equally scored events are sorted is unspecified in Go, so the sort
  is a parameter.
\<close>

section \<open>Names and settings\<close>

definition AlgoChronological :: string where "AlgoChronological = ''chronological''"
definition AlgoWoTRanked :: string where "AlgoWoTRanked = ''wot-ranked''"
definition AlgoEngagement :: string where "AlgoEngagement = ''engagement''"
definition AlgoTrending :: string where "AlgoTrending = ''trending''"
definition AlgoPersonalized :: string where "AlgoPersonalized = ''personalized''"

lemmas algo_names = AlgoChronological_def AlgoWoTRanked_def AlgoEngagement_def AlgoTrending_def AlgoPersonalized_def

definition algo_IsValid :: "string \<Rightarrow> bool" where
  "algo_IsValid a \<longleftrightarrow> a \<in> set [AlgoChronological, AlgoWoTRanked, AlgoEngagement, AlgoTrending, AlgoPersonalized]"

definition ParseAlgorithm :: "string \<Rightarrow> string" where
  "ParseAlgorithm s = (if algo_IsValid s then s else AlgoChronological)"

record engagement_stats =
  es_Reactions :: int
  es_Reposts :: int
  es_Zaps :: int
  es_ZapAmount :: int
  es_Replies :: int

definition no_engagement :: engagement_stats where
  "no_engagement = \<lparr>es_Reactions = 0, es_Reposts = 0, es_Zaps = 0, es_ZapAmount = 0, es_Replies = 0\<rparr>"

definition logBase :: "real \<Rightarrow> real \<Rightarrow> real" where
  "logBase x b = (if x \<le> 0 \<or> b \<le> 0 \<or> b = 1 then 0 else ln x / ln b)"

definition TotalEngagement :: "engagement_stats \<Rightarrow> real" where
  "TotalEngagement e =
     (let score = of_int (es_Reactions e) + of_int (es_Reposts e) * 3 + of_int (es_Replies e) * 2 + of_int (es_Zaps e) * 5
      in if es_ZapAmount e > 0 then score + logBase (of_int (es_ZapAmount e) / 1000) 10 else score)"

text \<open>Boosts are maps; the preferred languages are read by nothing.\<close>

record user_preferences =
  up_MutedPubkeys :: "string list"
  up_MutedWords :: "string list"
  up_BoostedPubkeys :: "string \<Rightarrow> real option"
  up_BoostedHashtags :: "string \<Rightarrow> real option"
  up_MutedHashtags :: "string list"
  up_MinWoTLevel :: int

record algo_config =
  ac_Enabled :: bool
  ac_DefaultAlgorithm :: string
  ac_WoTWeight :: real
  ac_EngagementWeight :: real
  ac_RecencyWeight :: real
  ac_RecencyHalfLife :: int
  ac_EngagementCacheTTL :: int
  ac_MaxEventsToScore :: int

definition algo_DefaultConfig :: algo_config where
  "algo_DefaultConfig = \<lparr>ac_Enabled = True, ac_DefaultAlgorithm = AlgoChronological, ac_WoTWeight = 3 / 10,
     ac_EngagementWeight = 4 / 10, ac_RecencyWeight = 3 / 10, ac_RecencyHalfLife = 24 * 3600 * ns_per_sec,
     ac_EngagementCacheTTL = 300 * ns_per_sec, ac_MaxEventsToScore = 500\<rparr>"

text \<open>The configuration main.go builds: the fields it leaves out are zero.\<close>

definition main_algo_config :: "string \<Rightarrow> real \<Rightarrow> real \<Rightarrow> real \<Rightarrow> algo_config" where
  "main_algo_config default_name wot engagement recency =
     \<lparr>ac_Enabled = True, ac_DefaultAlgorithm = ParseAlgorithm default_name, ac_WoTWeight = wot, ac_EngagementWeight = engagement,
      ac_RecencyWeight = recency, ac_RecencyHalfLife = 0, ac_EngagementCacheTTL = 0, ac_MaxEventsToScore = 0\<rparr>"

section \<open>Engagement\<close>

text \<open>
  \<open>tags @> [["e", id]]\<close>: some tag has both strings among its elements, wherever they stand (an identifier is hexadecimal, so that it may be pasted into JSON). \<open>to_bigint\<close> is the cast of
  Postgres.
\<close>

definition tag_contains :: "string list \<Rightarrow> tag list \<Rightarrow> bool" where
  "tag_contains vs tags \<longleftrightarrow> list_ex (\<lambda>tg. set vs \<subseteq> set tg) tags"

definition refers_to :: "string \<Rightarrow> int \<Rightarrow> event \<Rightarrow> bool" where
  "refers_to eid kind ev \<longleftrightarrow> ev_kind ev = kind \<and> tag_contains [''e'', eid] (ev_tags ev)"

definition count_referring :: "event list \<Rightarrow> string \<Rightarrow> int \<Rightarrow> int" where
  "count_referring rows eid kind = int (length (filter (refers_to eid kind) rows))"

text \<open>The amount of a zap: \<open>None\<close> when the cast fails, which fails the statement; NULL counts nothing.\<close>

definition zap_amount :: "(string \<Rightarrow> int option) \<Rightarrow> event \<Rightarrow> int option" where
  "zap_amount to_bigint ev =
     (if \<not> tag_contains [''amount''] (ev_tags ev) then Some 0
      else case find (\<lambda>tg. tg \<noteq> [] \<and> hd tg = ''amount'') (ev_tags ev) of
        None \<Rightarrow> Some 0
      | Some tg \<Rightarrow> if length tg < 2 then Some 0 else to_bigint (tg ! 1))"

fun sum_amounts :: "int option list \<Rightarrow> int option" where
  "sum_amounts [] = Some 0"
| "sum_amounts (a # as) = (case (a, sum_amounts as) of (Some x, Some y) \<Rightarrow> Some (x + y) | _ \<Rightarrow> None)"

record scored_event =
  sv_Event :: event
  sv_Score :: real
  sv_WoTScore :: real
  sv_EngagementScore :: real
  sv_RecencyScore :: real
  sv_PersonalScore :: real

record scorer_env =
  sc_config :: algo_config
  sc_rows :: "event list option"
  sc_trust :: "(string \<Rightarrow> TrustLevel) option"
  sc_answers :: "string \<Rightarrow> nat \<Rightarrow> bool"
  sc_to_bigint :: "string \<Rightarrow> int option"
  sc_now :: int
  sc_sort :: "scored_event list \<Rightarrow> scored_event list"

definition queryEngagementStats :: "scorer_env \<Rightarrow> string \<Rightarrow> engagement_stats" where
  "queryEngagementStats env eid =
     (case sc_rows env of
        None \<Rightarrow> no_engagement
      | Some rows \<Rightarrow>
          let answered = sc_answers env eid; count = (\<lambda>i kind. if answered i then count_referring rows eid kind else 0);
              zaps = filter (refers_to eid 9735) rows; total = sum_amounts (map (zap_amount (sc_to_bigint env)) zaps);
              zap_ok = answered 3 \<and> total \<noteq> None
          in \<lparr>es_Reactions = count 0 7, es_Reposts = count 1 6,
              es_Zaps = (if zap_ok then int (length zaps) else 0), es_ZapAmount = (if zap_ok then the total else 0),
              es_Replies = count 2 1\<rparr>)"

type_synonym engagement_cache = "string \<Rightarrow> (engagement_stats \<times> int) option"

definition getEngagementStats :: "scorer_env \<Rightarrow> string \<Rightarrow> engagement_cache \<Rightarrow> engagement_stats \<times> engagement_cache" where
  "getEngagementStats env eid c =
     (let fresh = (let st = queryEngagementStats env eid in (st, c(eid \<mapsto> (st, sc_now env)))) in
      case c eid of
        None \<Rightarrow> fresh
      | Some (st, at_time) \<Rightarrow> if sc_now env - at_time < ac_EngagementCacheTTL (sc_config env) then (st, c) else fresh)"

definition engagement_score :: "engagement_stats \<Rightarrow> real" where
  "engagement_score st =
     (let tot = TotalEngagement st in if tot \<le> 0 then 0 else min 1 (log 10 (tot + 1) / 5))"

definition calculateEngagementScore :: "scorer_env \<Rightarrow> string \<Rightarrow> engagement_cache \<Rightarrow> real \<times> engagement_cache" where
  "calculateEngagementScore env eid c = (case getEngagementStats env eid c of (st, c') \<Rightarrow> (engagement_score st, c'))"

section \<open>Scores\<close>

definition level_score :: "TrustLevel \<Rightarrow> real" where
  "level_score l =
     (if l = TrustLevelOwner then 1 else if l = TrustLevelFollow then 9 / 10
      else if l = TrustLevelFollowOfFollow then 7 / 10 else 3 / 10)"

definition calculateWoTScore :: "scorer_env \<Rightarrow> string \<Rightarrow> real" where
  "calculateWoTScore env pk = (case sc_trust env of None \<Rightarrow> 1 / 2 | Some trust \<Rightarrow> level_score (trust pk))"

definition calculateRecencyScore :: "scorer_env \<Rightarrow> int \<Rightarrow> real" where
  "calculateRecencyScore env created =
     (let age = sc_now env - created * ns_per_sec;
          half = (if ac_RecencyHalfLife (sc_config env) \<le> 0 then 24 * 3600 * ns_per_sec else ac_RecencyHalfLife (sc_config env))
      in (1 / 2) powr (of_int age / of_int half))"

definition boost_of :: "('a \<Rightarrow> real option) \<Rightarrow> 'a \<Rightarrow> real" where
  "boost_of m k = (case m k of None \<Rightarrow> 0 | Some b \<Rightarrow> b)"

definition calculatePersonalScore :: "event \<Rightarrow> user_preferences option \<Rightarrow> real" where
  "calculatePersonalScore ev prefs =
     (case prefs of
        None \<Rightarrow> 0
      | Some p \<Rightarrow> min 2 (boost_of (up_BoostedPubkeys p) (ev_pubkey ev)
                         + sum_list (map (boost_of (up_BoostedHashtags p)) (all_tags (ev_tags ev) ''t''))))"

definition unscored :: "event \<Rightarrow> scored_event" where
  "unscored ev = \<lparr>sv_Event = ev, sv_Score = 0, sv_WoTScore = 0, sv_EngagementScore = 0, sv_RecencyScore = 0, sv_PersonalScore = 0\<rparr>"

definition scoreEvent ::
  "scorer_env \<Rightarrow> string \<Rightarrow> user_preferences option \<Rightarrow> event \<Rightarrow> engagement_cache \<Rightarrow> scored_event \<times> engagement_cache" where
  "scoreEvent env a prefs ev c =
     (let w = calculateWoTScore env (ev_pubkey ev); r = calculateRecencyScore env (ev_created_at ev) in
      if a = AlgoChronological then
        ((unscored ev)\<lparr>sv_Score := of_int (ev_created_at ev), sv_RecencyScore := of_int (ev_created_at ev)\<rparr>, c)
      else if a = AlgoWoTRanked then
        ((unscored ev)\<lparr>sv_WoTScore := w, sv_RecencyScore := r, sv_Score := w * (7 / 10) + r * (3 / 10)\<rparr>, c)
      else if a = AlgoEngagement then
        (case calculateEngagementScore env (ev_id ev) c of (g, c') \<Rightarrow>
           ((unscored ev)\<lparr>sv_EngagementScore := g, sv_RecencyScore := r, sv_Score := g * (7 / 10) + r * (3 / 10)\<rparr>, c'))
      else if a = AlgoTrending then
        (case calculateEngagementScore env (ev_id ev) c of (g, c') \<Rightarrow>
           ((unscored ev)\<lparr>sv_WoTScore := w, sv_EngagementScore := g, sv_RecencyScore := r,
              sv_Score := w * ac_WoTWeight (sc_config env) + g * ac_EngagementWeight (sc_config env) + r * ac_RecencyWeight (sc_config env)\<rparr>, c'))
      else if a = AlgoPersonalized then
        (case calculateEngagementScore env (ev_id ev) c of (g, c') \<Rightarrow>
           let p = calculatePersonalScore ev prefs in
           ((unscored ev)\<lparr>sv_WoTScore := w, sv_EngagementScore := g, sv_RecencyScore := r, sv_PersonalScore := p,
              sv_Score := (w * (2 / 10) + g * (3 / 10) + r * (2 / 10)) * (1 + p * (1 / 2))\<rparr>, c'))
      else ((unscored ev)\<lparr>sv_Score := of_int (ev_created_at ev)\<rparr>, c))"

section \<open>Muting\<close>

definition algo_toLower :: "string \<Rightarrow> string" where
  "algo_toLower s = map (\<lambda>c. if c \<ge> CHR ''A'' \<and> c \<le> CHR ''Z'' then char_of (of_char c + 32 :: nat) else c) s"

definition containsIgnoreCase :: "string \<Rightarrow> string \<Rightarrow> bool" where
  "containsIgnoreCase s sub =
     (if sub = '''' then True
      else if length s < length sub then False
      else let l = algo_toLower s; m = algo_toLower sub in
        list_ex (\<lambda>i. take (length m) (drop i l) = m) [0..<Suc (length l - length m)])"

definition muted :: "scorer_env \<Rightarrow> user_preferences \<Rightarrow> event \<Rightarrow> bool" where
  "muted env p ev \<longleftrightarrow>
     ev_pubkey ev \<in> set (up_MutedPubkeys p)
     \<or> list_ex (\<lambda>t. t \<in> set (up_MutedHashtags p)) (all_tags (ev_tags ev) ''t'')
     \<or> list_ex (containsIgnoreCase (ev_content ev)) (up_MutedWords p)
     \<or> (up_MinWoTLevel p > 0 \<and> (case sc_trust env of None \<Rightarrow> False | Some trust \<Rightarrow> level_number (trust (ev_pubkey ev)) > up_MinWoTLevel p))"

definition applyMuteFilters :: "scorer_env \<Rightarrow> user_preferences option \<Rightarrow> event list \<Rightarrow> event list" where
  "applyMuteFilters env prefs evs = (case prefs of None \<Rightarrow> evs | Some p \<Rightarrow> filter (\<lambda>ev. \<not> muted env p ev) evs)"

section \<open>Ranking\<close>

fun score_all ::
  "scorer_env \<Rightarrow> string \<Rightarrow> user_preferences option \<Rightarrow> event list \<Rightarrow> engagement_cache \<Rightarrow> scored_event list \<times> engagement_cache" where
  "score_all env a prefs [] c = ([], c)"
| "score_all env a prefs (ev # evs) c =
     (case scoreEvent env a prefs ev c of (se, c') \<Rightarrow>
        (case score_all env a prefs evs c' of (ses, c'') \<Rightarrow> (se # ses, c'')))"

text \<open>A slice \<open>events[:max]\<close>; a negative bound would panic, and no configuration in the program has one.\<close>

definition ScoreEvents ::
  "scorer_env \<Rightarrow> string \<Rightarrow> user_preferences option \<Rightarrow> event list \<Rightarrow> engagement_cache \<Rightarrow> scored_event list \<times> engagement_cache" where
  "ScoreEvents env a prefs evs c =
     (if evs = [] then ([], c)
      else let bound = ac_MaxEventsToScore (sc_config env);
               considered = (if int (length evs) > bound then take (nat bound) evs else evs);
               (scored, c') = score_all env a prefs (applyMuteFilters env prefs considered) c
           in (if a \<noteq> AlgoChronological then sc_sort env scored else scored, c'))"

definition ScoreEventsForFeed :: "scorer_env \<Rightarrow> event list \<Rightarrow> string \<Rightarrow> engagement_cache \<Rightarrow> scored_event list \<times> engagement_cache" where
  "ScoreEventsForFeed env evs a c = ScoreEvents env a None evs c"

section \<open>Ranked queries\<close>

definition ExtractAlgorithmFromFilter :: "nfilter \<Rightarrow> string" where
  "ExtractAlgorithmFromFilter f =
     (case tag_values f ''#algo'' of
        v # vs \<Rightarrow> ParseAlgorithm v
      | [] \<Rightarrow> (case tag_values f ''algo'' of v # vs \<Rightarrow> ParseAlgorithm v | [] \<Rightarrow> AlgoChronological))"

definition removeAlgoTag :: "nfilter \<Rightarrow> nfilter" where
  "removeAlgoTag f = f\<lparr>f_tags := (f_tags f)(''#algo'' := None, ''algo'' := None)\<rparr>"

definition WrapQueryEvents ::
  "scorer_env \<Rightarrow> (nfilter \<Rightarrow> event list option) \<Rightarrow> nfilter \<Rightarrow> engagement_cache \<Rightarrow> event list option \<times> engagement_cache" where
  "WrapQueryEvents env query f c =
     (let a = ExtractAlgorithmFromFilter f in
      if a = AlgoChronological then (query f, c)
      else case query (removeAlgoTag f) of
        None \<Rightarrow> (None, c)
      | Some evs \<Rightarrow> (case ScoreEvents env a None evs c of (ses, c') \<Rightarrow> (Some (map sv_Event ses), c')))"

section \<open>Facts\<close>

lemma sv_Event_scoreEvent [simp]: "sv_Event (fst (scoreEvent env a prefs ev c)) = ev"
  by (simp add: scoreEvent_def Let_def unscored_def split: prod.split)

lemma score_all_events [simp]: "map sv_Event (fst (score_all env a prefs evs c)) = evs"
proof (induction evs arbitrary: c)
  case (Cons ev evs)
  obtain se c' where se: "scoreEvent env a prefs ev c = (se, c')" by fastforce
  obtain ses c'' where ses: "score_all env a prefs evs c' = (ses, c'')" by fastforce
  from se have "sv_Event se = ev" using sv_Event_scoreEvent [of env a prefs ev c] by simp
  with Cons [of c'] se ses show ?case by simp
qed simp

definition descending :: "scored_event list \<Rightarrow> bool" where
  "descending ses \<longleftrightarrow> sorted_wrt (\<lambda>x y. sv_Score x \<ge> sv_Score y) ses"

definition sorts :: "(scored_event list \<Rightarrow> scored_event list) \<Rightarrow> bool" where
  "sorts f \<longleftrightarrow> (\<forall>ses. mset (f ses) = mset ses \<and> descending (f ses))"

text \<open>A ranking is a rearrangement of the unmuted among the first events, best first.\<close>

theorem ranking_rearranges:
  assumes "sorts (sc_sort env)" "0 \<le> ac_MaxEventsToScore (sc_config env)"
  shows "mset (map sv_Event (fst (ScoreEvents env a prefs evs c))) =
      mset (applyMuteFilters env prefs (take (nat (ac_MaxEventsToScore (sc_config env))) evs))
    \<and> (a \<noteq> AlgoChronological \<longrightarrow> descending (fst (ScoreEvents env a prefs evs c)))"
proof (cases "evs = []")
  case True
  then show ?thesis by (simp add: ScoreEvents_def applyMuteFilters_def descending_def split: option.split)
next
  case False
  let ?b = "ac_MaxEventsToScore (sc_config env)"
  let ?k = "applyMuteFilters env prefs (take (nat ?b) evs)"
  have "(if int (length evs) > ?b then take (nat ?b) evs else evs) = take (nat ?b) evs" by simp
  then have run: "fst (ScoreEvents env a prefs evs c) =
      (if a \<noteq> AlgoChronological then sc_sort env (fst (score_all env a prefs ?k c)) else fst (score_all env a prefs ?k c))"
    using False by (simp add: ScoreEvents_def Let_def split_beta)
  have "mset (map sv_Event (sc_sort env ses)) = mset (map sv_Event ses)" for ses
    using assms(1) by (simp add: sorts_def)
  moreover have "map sv_Event (fst (score_all env a prefs ?k c)) = ?k" by (rule score_all_events)
  ultimately have m: "mset (map sv_Event (sc_sort env (fst (score_all env a prefs ?k c)))) = mset ?k"
    "mset (map sv_Event (fst (score_all env a prefs ?k c))) = mset ?k" by metis+
  have "descending (sc_sort env ses)" for ses using assms(1) by (simp add: sorts_def)
  with m show ?thesis unfolding run by (cases "a = AlgoChronological") simp_all
qed

lemma algo_toLower_length [simp]: "length (algo_toLower s) = length s"
  by (simp add: algo_toLower_def)

text \<open>The search for muted words is a search for a substring without regard to the case of ASCII letters.\<close>

lemma containsIgnoreCase_iff: "containsIgnoreCase s sub \<longleftrightarrow> (\<exists>p q. algo_toLower s = p @ algo_toLower sub @ q)"
proof
  assume c: "containsIgnoreCase s sub"
  show "\<exists>p q. algo_toLower s = p @ algo_toLower sub @ q"
  proof (cases "sub = ''''")
    case True
    then show ?thesis by (intro exI [of _ "[]"] exI [of _ "algo_toLower s"]) (simp add: algo_toLower_def)
  next
    case False
    with c obtain i where "take (length sub) (drop i (algo_toLower s)) = algo_toLower sub"
      by (auto simp: containsIgnoreCase_def Let_def list_ex_iff simp del: upt_Suc split: if_splits)
    then have "drop i (algo_toLower s) = algo_toLower sub @ drop (length sub) (drop i (algo_toLower s))"
      by (metis append_take_drop_id)
    then show ?thesis by (metis append_take_drop_id)
  qed
next
  assume "\<exists>p q. algo_toLower s = p @ algo_toLower sub @ q"
  then obtain p q where s: "algo_toLower s = p @ algo_toLower sub @ q" by blast
  have len: "length s = length p + length sub + length q" using arg_cong [OF s, of length] by simp
  have "take (length sub) (drop (length p) (algo_toLower s)) = algo_toLower sub" by (simp add: s)
  with len show "containsIgnoreCase s sub"
    by (auto simp: containsIgnoreCase_def Let_def list_ex_iff simp del: upt_Suc intro!: bexI [of _ "length p"])
qed

lemma recency_past: "ev_created_at ev * ns_per_sec \<le> sc_now env \<Longrightarrow> calculateRecencyScore env (ev_created_at ev) \<le> 1"
proof -
  assume past: "ev_created_at ev * ns_per_sec \<le> sc_now env"
  define half where "half = (if ac_RecencyHalfLife (sc_config env) \<le> 0 then 24 * 3600 * ns_per_sec else ac_RecencyHalfLife (sc_config env))"
  have "0 < half" by (simp add: half_def)
  with past have "(0 :: real) \<le> of_int (sc_now env - ev_created_at ev * ns_per_sec) / of_int half"
    by (intro divide_nonneg_pos) (simp_all only: of_int_0_le_iff of_int_0_less_iff diff_ge_0_iff_ge)
  then have "(1 / 2 :: real) powr (of_int (sc_now env - ev_created_at ev * ns_per_sec) / of_int half) \<le> (1 / 2) powr 0"
    by (intro powr_mono') simp_all
  then show ?thesis by (simp add: calculateRecencyScore_def Let_def half_def)
qed

lemma recency_pos: "0 < calculateRecencyScore env created"
  by (simp add: calculateRecencyScore_def Let_def)

lemma engagement_score_range: "0 \<le> engagement_score st \<and> engagement_score st \<le> 1"
  by (auto simp: engagement_score_def Let_def)

lemma level_score_range: "0 \<le> level_score l \<and> level_score l \<le> 1"
  by (simp add: level_score_def)

lemma wot_score_range: "0 \<le> calculateWoTScore env pk \<and> calculateWoTScore env pk \<le> 1"
  using level_score_range by (simp add: calculateWoTScore_def split: option.split)

text \<open>Among the levels of the follow graph, the more trusted author scores at least as much.\<close>

lemma level_score_antimono: "l \<le> m \<Longrightarrow> l \<noteq> TrustLevelPaid \<Longrightarrow> level_score m \<le> level_score l"
  by (cases l; cases m) (simp_all add: level_score_def less_eq_TrustLevel_def)

text \<open>Scores of past events under non-negative weights that sum to at most one lie between zero and one.\<close>

lemma trending_score_range:
  assumes "0 \<le> ac_WoTWeight (sc_config env)" "0 \<le> ac_EngagementWeight (sc_config env)" "0 \<le> ac_RecencyWeight (sc_config env)"
    "ac_WoTWeight (sc_config env) + ac_EngagementWeight (sc_config env) + ac_RecencyWeight (sc_config env) \<le> 1"
    "ev_created_at ev * ns_per_sec \<le> sc_now env"
  shows "0 \<le> sv_Score (fst (scoreEvent env AlgoTrending prefs ev c)) \<and> sv_Score (fst (scoreEvent env AlgoTrending prefs ev c)) \<le> 1"
proof -
  let ?w = "calculateWoTScore env (ev_pubkey ev)" and ?r = "calculateRecencyScore env (ev_created_at ev)"
    and ?g = "fst (calculateEngagementScore env (ev_id ev) c)"
  let ?a = "ac_WoTWeight (sc_config env)" and ?b = "ac_EngagementWeight (sc_config env)" and ?d = "ac_RecencyWeight (sc_config env)"
  have w: "0 \<le> ?w" "?w \<le> 1" using wot_score_range by auto
  have r: "0 \<le> ?r" "?r \<le> 1" using recency_pos [of env "ev_created_at ev"] recency_past [OF assms(5)] by simp_all
  have g: "0 \<le> ?g" "?g \<le> 1" using engagement_score_range by (simp_all add: calculateEngagementScore_def split_beta)
  have s: "sv_Score (fst (scoreEvent env AlgoTrending prefs ev c)) = ?w * ?a + ?g * ?b + ?r * ?d"
    by (simp add: scoreEvent_def algo_names Let_def split_beta)
  have "?w * ?a \<le> ?a" "?g * ?b \<le> ?b" "?r * ?d \<le> ?d"
    using assms(1-3) w g r by (simp_all add: mult_left_le_one_le)
  with assms(4) have "?w * ?a + ?g * ?b + ?r * ?d \<le> 1" by linarith
  moreover have "0 \<le> ?w * ?a + ?g * ?b + ?r * ?d" using assms(1-3) w g r by simp
  ultimately show ?thesis unfolding s by simp
qed

section \<open>Where the code departs from its intent\<close>

text \<open>main.go leaves the bound on scored events at zero, so that every ranking is empty.\<close>

theorem wired_rankings_are_empty:
  assumes "sc_config env = main_algo_config name w g r" "sorts (sc_sort env)"
  shows "fst (ScoreEventsForFeed env evs a c) = []"
proof -
  have "mset (sc_sort env []) = mset []" using assms(2) by (simp only: sorts_def)
  then have "sc_sort env [] = []" by simp
  with assms(1) show ?thesis
    by (simp add: ScoreEventsForFeed_def ScoreEvents_def main_algo_config_def applyMuteFilters_def)
qed

definition sort_by_score :: "scored_event list \<Rightarrow> scored_event list" where
  "sort_by_score ses = sort_key (\<lambda>se. - sv_Score se) ses"

lemma sorts_sort_by_score: "sorts sort_by_score"
proof -
  have "descending (sort_by_score ses)" for ses
  proof -
    have "sorted (map (\<lambda>se. - sv_Score se) (sort_by_score ses))" by (simp add: sort_by_score_def)
    then have "sorted_wrt (\<lambda>x y. - sv_Score x \<le> - sv_Score y) (sort_by_score ses)" by (simp add: sorted_wrt_map)
    then show ?thesis by (simp add: descending_def)
  qed
  then show ?thesis by (simp add: sorts_def sort_by_score_def)
qed

definition demo_scorer :: "algo_config \<Rightarrow> scorer_env" where
  "demo_scorer c = \<lparr>sc_config = c, sc_rows = None, sc_trust = None, sc_answers = (\<lambda>_ _. True), sc_to_bigint = ParseInt64,
     sc_now = 0, sc_sort = sort_by_score\<rparr>"

definition demo_note :: event where
  "demo_note = \<lparr>ev_id = ''n'', ev_pubkey = ''alice'', ev_created_at = 0, ev_kind = 1, ev_tags = [], ev_content = ''hi''\<rparr>"

lemma wired_rankings_are_empty_witness:
  "fst (ScoreEventsForFeed (demo_scorer (main_algo_config ''trending'' 1 1 1)) [demo_note] AlgoTrending Map.empty) = []"
  by (rule wired_rankings_are_empty) (simp_all add: demo_scorer_def sorts_sort_by_score)

lemma ranking_rearranges_witness:
  "mset (map sv_Event (fst (ScoreEvents (demo_scorer algo_DefaultConfig) AlgoTrending None [demo_note, demo_note] Map.empty))) = mset [demo_note, demo_note]"
  using ranking_rearranges [of "demo_scorer algo_DefaultConfig" AlgoTrending None "[demo_note, demo_note]" Map.empty]
  by (simp add: demo_scorer_def sorts_sort_by_score algo_DefaultConfig_def applyMuteFilters_def)

text \<open>A paid member scores as an unknown key, below the follows of follows.\<close>

lemma paid_members_rank_as_unknown: "level_score TrustLevelPaid = level_score TrustLevelUnknown \<and> level_score TrustLevelPaid < level_score TrustLevelFollowOfFollow"
  by (simp add: level_score_def)

text \<open>One zap receipt whose amount is no number hides all zaps of an event.\<close>

lemma bad_amount_hides_all_zaps:
  assumes "sc_rows env = Some rows" "z \<in> set rows" "refers_to eid 9735 z" "zap_amount (sc_to_bigint env) z = None"
  shows "es_Zaps (queryEngagementStats env eid) = 0 \<and> es_ZapAmount (queryEngagementStats env eid) = 0"
proof -
  have "sum_amounts as = None" if "None \<in> set as" for as
    using that by (induction as) (auto split: option.splits)
  moreover have "z \<in> set (filter (refers_to eid 9735) rows)" using assms(2,3) by simp
  then have "None \<in> set (map (zap_amount (sc_to_bigint env)) (filter (refers_to eid 9735) rows))" using assms(4) by force
  ultimately have "sum_amounts (map (zap_amount (sc_to_bigint env)) (filter (refers_to eid 9735) rows)) = None" by blast
  then show ?thesis by (simp add: queryEngagementStats_def assms(1) Let_def)
qed

text \<open>The comment says that 1000 sats add one. Amounts are in millisats, so they add three.\<close>

lemma thousand_sats_add_three: "TotalEngagement (no_engagement\<lparr>es_ZapAmount := 1000000\<rparr>) = 3"
proof -
  have "ln (10 ^ 3 :: real) = 3 * ln 10" by (subst ln_realpow) simp_all
  then have "ln (1000 :: real) = 3 * ln 10" by simp
  then show ?thesis by (simp add: TotalEngagement_def no_engagement_def logBase_def)
qed

text \<open>And a small zap lowers the engagement.\<close>

lemma small_zap_lowers_engagement: "TotalEngagement (no_engagement\<lparr>es_ZapAmount := 1\<rparr>) < 0"
proof -
  have "ln (1 / 1000 :: real) < 0" by (simp add: ln_less_zero)
  moreover have "0 < ln (10 :: real)" by simp
  ultimately have "ln (1 / 1000 :: real) / ln 10 < 0" by (rule divide_neg_pos)
  then show ?thesis by (simp add: TotalEngagement_def no_engagement_def logBase_def)
qed

text \<open>A name of no algorithm, and that of the default, pass on the filter with its tag, which the store then looks for.\<close>

lemma default_algorithm_keeps_its_tag:
  "ExtractAlgorithmFromFilter f = AlgoChronological \<Longrightarrow> fst (WrapQueryEvents env query f c) = query f"
  by (simp add: WrapQueryEvents_def)

end
