(* ===== verification/Feeds.thy ===== *)
theory Feeds
  imports Feed_Ranking
begin

text \<open>
  The RSS and Atom feeds of the owner's posts: internal/feeds. Bech32 encodings, date formats and the XML encoder are
  parameters; a feed is the value that is given to the encoder. The store is asked by a filter and a limit and answers
  with a list.
\<close>

section \<open>Text as HTML\<close>

definition esc_char :: "char \<Rightarrow> string" where
  "esc_char c =
     (if c = CHR ''<'' then ''&lt;'' else if c = CHR ''>'' then ''&gt;'' else if c = CHR ''&'' then ''&amp;''
      else if c = CHR 0x27 then ''&#39;'' else if c = CHR 0x22 then ''&#34;'' else [c])"

definition EscapeString :: "string \<Rightarrow> string" where
  "EscapeString s = concat (map esc_char s)"

text \<open>\<open>strings.ReplaceAll(s, "\n", "<br>\n")\<close>.\<close>

definition br_char :: "char \<Rightarrow> string" where
  "br_char c = (if c = CHR 0x0A then ''<br>'' @ [CHR 0x0A] else [c])"

definition newlines_to_br :: "string \<Rightarrow> string" where
  "newlines_to_br s = concat (map br_char s)"

definition TrimRight :: "char set \<Rightarrow> string \<Rightarrow> string" where
  "TrimRight cs s = rev (dropWhile (\<lambda>c. c \<in> cs) (rev s))"

definition url_trailers :: "char set" where
  "url_trailers = {CHR ''.'', CHR '','', CHR '';'', CHR '':'', CHR ''!'', CHR ''?'', CHR '')''}"

definition is_link :: "string \<Rightarrow> bool" where
  "is_link w \<longleftrightarrow> HasPrefix w ''http://'' \<or> HasPrefix w ''https://''"

definition quote :: string where "quote = [CHR 0x22]"

definition linkify_word :: "string \<Rightarrow> string" where
  "linkify_word w =
     (let clean = TrimRight url_trailers w; suffix = drop (length clean) w in
      if is_link clean
      then ''<a href='' @ quote @ EscapeString clean @ quote @ ''>'' @ EscapeString clean @ ''</a>'' @ EscapeString suffix
      else EscapeString w)"

fun split_spaces :: "string \<Rightarrow> string list" where
  "split_spaces [] = [[]]"
| "split_spaces (c # cs) =
     (if c = CHR '' '' then [] # split_spaces cs
      else case split_spaces cs of [] \<Rightarrow> [[c]] | w # ws \<Rightarrow> (c # w) # ws)"

fun join_spaces :: "string list \<Rightarrow> string" where
  "join_spaces [] = []"
| "join_spaces [w] = w"
| "join_spaces (w # ws) = w @ CHR '' '' # join_spaces ws"

definition linkifyURLsSafe :: "string \<Rightarrow> string" where
  "linkifyURLsSafe s = join_spaces (map linkify_word (split_spaces s))"

definition formatContentAsHTML :: "string \<Rightarrow> string" where
  "formatContentAsHTML s = ''<p>'' @ newlines_to_br (linkifyURLsSafe s) @ ''</p>''"

text \<open>Read HTML back: a tag runs from \<open><\<close> to the next \<open>>\<close> outside double quotes, and everything else is text.\<close>

datatype piece = Tag string | Chr char
datatype reading = InText | InTag string | InQuote string

fun read_html :: "reading \<Rightarrow> string \<Rightarrow> piece list" where
  "read_html m [] = []"
| "read_html InText (c # cs) = (if c = CHR ''<'' then read_html (InTag '''') cs else Chr c # read_html InText cs)"
| "read_html (InTag a) (c # cs) =
     (if c = CHR ''>'' then Tag a # read_html InText cs
      else if c = CHR 0x22 then read_html (InQuote (a @ [c])) cs else read_html (InTag (a @ [c])) cs)"
| "read_html (InQuote a) (c # cs) =
     (if c = CHR 0x22 then read_html (InTag (a @ [c])) cs else read_html (InQuote (a @ [c])) cs)"

definition html_tags :: "string \<Rightarrow> string list" where
  "html_tags s = concat (map (\<lambda>p. case p of Tag t \<Rightarrow> [t] | Chr c \<Rightarrow> []) (read_html InText s))"

definition html_text :: "string \<Rightarrow> string" where
  "html_text s = concat (map (\<lambda>p. case p of Tag t \<Rightarrow> [] | Chr c \<Rightarrow> [c]) (read_html InText s))"

text \<open>The entities that occur, decoded.\<close>

definition entities :: "(string \<times> char) list" where
  "entities = [(''&lt;'', CHR ''<''), (''&gt;'', CHR ''>''), (''&amp;'', CHR ''&''), (''&#39;'', CHR 0x27), (''&#34;'', CHR 0x22)]"

fun decode_entities :: "nat \<Rightarrow> string \<Rightarrow> string" where
  "decode_entities 0 s = s"
| "decode_entities (Suc n) [] = []"
| "decode_entities (Suc n) (c # cs) =
     (case find (\<lambda>(e, _). HasPrefix (c # cs) e) entities of
        Some (e, d) \<Rightarrow> d # decode_entities n (drop (length e - 1) cs)
      | None \<Rightarrow> c # decode_entities n cs)"

definition UnescapeString :: "string \<Rightarrow> string" where
  "UnescapeString s = decode_entities (length s) s"

section \<open>Items\<close>

definition zero_time :: int where "zero_time = -62135596800"

record feed_settings =
  fc_Enabled :: bool
  fc_OwnerPubkey :: string
  fc_RelayURL :: string
  fc_RelayName :: string
  fc_DefaultLimit :: int
  fc_MaxLimit :: int
  fc_CacheTTL :: int
  fc_IncludeLongForm :: bool
  fc_IncludeReplies :: bool
  fc_DefaultAlgorithm :: string

definition feeds_DefaultConfig :: feed_settings where
  "feeds_DefaultConfig = \<lparr>fc_Enabled = True, fc_OwnerPubkey = '''', fc_RelayURL = '''', fc_RelayName = '''', fc_DefaultLimit = 20,
     fc_MaxLimit = 100, fc_CacheTTL = 300 * ns_per_sec, fc_IncludeLongForm = True, fc_IncludeReplies = False, fc_DefaultAlgorithm = ''''\<rparr>"

definition feeds_NewHandler :: "feed_settings option \<Rightarrow> feed_settings" where
  "feeds_NewHandler cfg =
     (let c = (case cfg of None \<Rightarrow> feeds_DefaultConfig | Some c \<Rightarrow> c);
          c1 = (if fc_DefaultLimit c \<le> 0 then c\<lparr>fc_DefaultLimit := 20\<rparr> else c)
      in if fc_MaxLimit c1 \<le> 0 then c1\<lparr>fc_MaxLimit := 100\<rparr> else c1)"

text \<open>Times are Unix seconds.\<close>

record feed_item =
  fi_ID :: string
  fi_Title :: string
  fi_Content :: string
  fi_ContentHTML :: string
  fi_Link :: string
  fi_Author :: string
  fi_AuthorPubkey :: string
  fi_Published :: int
  fi_Updated :: int
  fi_Kind :: int
  fi_Tags :: "string list"

record feed_metadata =
  fm_Title :: string
  fm_Description :: string
  fm_Link :: string
  fm_FeedLink :: string
  fm_Author :: string
  fm_AuthorPubkey :: string
  fm_Updated :: int
  fm_Generator :: string
  fm_Language :: string

text \<open>Index of the last space.\<close>

definition last_space :: "string \<Rightarrow> nat option" where
  "last_space s = (let is = filter (\<lambda>i. s ! i = CHR '' '') [0..<length s] in if is = [] then None else Some (last is))"

definition extractTitle :: "string \<Rightarrow> nat \<Rightarrow> string" where
  "extractTitle content maxLen =
     (let first_line = TrimSpace (takeWhile (\<lambda>c. c \<noteq> CHR 0x0A) (TrimSpace content)) in
      if length first_line > maxLen
      then let cut = take maxLen first_line in
        (case last_space cut of
           Some i \<Rightarrow> (if i > maxLen div 2 then take i cut else cut)
         | None \<Rightarrow> cut) @ ''...''
      else first_line)"

definition formatRSSDescription :: "feed_item \<Rightarrow> string" where
  "formatRSSDescription item =
     (if fi_ContentHTML item \<noteq> '''' then fi_ContentHTML item
      else ''<p>'' @ newlines_to_br (EscapeString (fi_Content item)) @ ''</p>'')"

definition formatAtomContent :: "feed_item \<Rightarrow> string" where
  "formatAtomContent item = (if fi_ContentHTML item \<noteq> '''' then fi_ContentHTML item else formatRSSDescription item)"

text \<open>What the encoders are given.\<close>

record rss_item =
  ri_Title :: string
  ri_Link :: string
  ri_Description :: string
  ri_Author :: string
  ri_IsPermaLink :: bool
  ri_GUID :: string
  ri_PubDate :: string
  ri_Categories :: "string list"

record rss_feed =
  rss_Version :: string
  rss_Title :: string
  rss_Link :: string
  rss_Description :: string
  rss_Language :: string
  rss_LastBuildDate :: string
  rss_Generator :: string
  rss_Items :: "rss_item list"

record atom_link =
  al_Href :: string
  al_Rel :: string
  al_Type :: string

record atom_entry =
  an_Title :: string
  an_ID :: string
  an_Updated :: string
  an_Published :: string
  an_Links :: "atom_link list"
  an_Author :: "string option"
  an_ContentType :: string
  an_Content :: string
  an_Categories :: "string list"

record atom_feed =
  af_XMLNS :: string
  af_Title :: string
  af_ID :: string
  af_Updated :: string
  af_Links :: "atom_link list"
  af_Author :: "string option"
  af_Generator :: "string option"
  af_Entries :: "atom_entry list"

record feeds_lib =
  fl_EncodeEvent :: "string \<Rightarrow> string list \<Rightarrow> string \<Rightarrow> string option"
  fl_EncodePublicKey :: "string \<Rightarrow> string option"
  fl_rfc1123 :: "int \<Rightarrow> string"
  fl_rfc3339 :: "int \<Rightarrow> string"

definition formatRSSDate :: "feeds_lib \<Rightarrow> int \<Rightarrow> string" where
  "formatRSSDate fl t = (if t = zero_time then '''' else fl_rfc1123 fl t)"

definition formatAtomDate :: "feeds_lib \<Rightarrow> int \<Rightarrow> string" where
  "formatAtomDate fl t = (if t = zero_time then '''' else fl_rfc3339 fl t)"

definition rss_item_of :: "feeds_lib \<Rightarrow> feed_item \<Rightarrow> rss_item" where
  "rss_item_of fl item = \<lparr>ri_Title = fi_Title item, ri_Link = fi_Link item, ri_Description = formatRSSDescription item,
     ri_Author = fi_Author item, ri_IsPermaLink = False, ri_GUID = fi_ID item, ri_PubDate = formatRSSDate fl (fi_Published item),
     ri_Categories = fi_Tags item\<rparr>"

definition GenerateRSS :: "feeds_lib \<Rightarrow> feed_metadata \<Rightarrow> feed_item list \<Rightarrow> rss_feed" where
  "GenerateRSS fl meta items = \<lparr>rss_Version = ''2.0'', rss_Title = fm_Title meta, rss_Link = fm_Link meta,
     rss_Description = fm_Description meta, rss_Language = fm_Language meta, rss_LastBuildDate = formatRSSDate fl (fm_Updated meta),
     rss_Generator = fm_Generator meta, rss_Items = map (rss_item_of fl) items\<rparr>"

definition if_nonempty :: "string \<Rightarrow> string option" where
  "if_nonempty s = (if s = '''' then None else Some s)"

definition html_link :: "string \<Rightarrow> atom_link" where
  "html_link href = \<lparr>al_Href = href, al_Rel = ''alternate'', al_Type = ''text/html''\<rparr>"

definition atom_entry_of :: "feeds_lib \<Rightarrow> feed_item \<Rightarrow> atom_entry" where
  "atom_entry_of fl item = \<lparr>an_Title = fi_Title item, an_ID = ''urn:nostr:'' @ fi_ID item,
     an_Updated = formatAtomDate fl (fi_Updated item), an_Published = formatAtomDate fl (fi_Published item),
     an_Links = [html_link (fi_Link item)], an_Author = if_nonempty (fi_Author item), an_ContentType = ''html'',
     an_Content = formatAtomContent item, an_Categories = fi_Tags item\<rparr>"

definition GenerateAtom :: "feeds_lib \<Rightarrow> feed_metadata \<Rightarrow> feed_item list \<Rightarrow> atom_feed" where
  "GenerateAtom fl meta items = \<lparr>af_XMLNS = ''http://www.w3.org/2005/Atom'', af_Title = fm_Title meta, af_ID = fm_FeedLink meta,
     af_Updated = formatAtomDate fl (fm_Updated meta),
     af_Links = [html_link (fm_Link meta), \<lparr>al_Href = fm_FeedLink meta, al_Rel = ''self'', al_Type = ''application/atom+xml''\<rparr>],
     af_Author = if_nonempty (fm_Author meta), af_Generator = if_nonempty (fm_Generator meta), af_Entries = map (atom_entry_of fl) items\<rparr>"

section \<open>Requests\<close>

definition formatAuthor :: "feeds_lib \<Rightarrow> string \<Rightarrow> string" where
  "formatAuthor fl pk =
     (case fl_EncodePublicKey fl pk of
        None \<Rightarrow> if length pk < 8 then pk else take 8 pk @ ''...''
      | Some npub \<Rightarrow> if length npub < 16 then npub else take 12 npub @ ''...'' @ drop (length npub - 4) npub)"

definition hasReplyTag :: "event \<Rightarrow> bool" where
  "hasReplyTag ev = list_ex (\<lambda>tg. length tg \<ge> 2 \<and> hd tg = ''e'') (ev_tags ev)"

definition extractHashtags :: "event \<Rightarrow> string list" where
  "extractHashtags ev = all_tags (ev_tags ev) ''t''"

definition eventToFeedItem :: "feeds_lib \<Rightarrow> feed_settings \<Rightarrow> event \<Rightarrow> feed_item" where
  "eventToFeedItem fl c ev =
     (let title_tag = first_tag (ev_tags ev) ''title'' in
      \<lparr>fi_ID = ev_id ev,
       fi_Title = (if ev_kind ev = 30023 \<and> title_tag \<noteq> '''' then title_tag else extractTitle (ev_content ev) 80),
       fi_Content = ev_content ev, fi_ContentHTML = formatContentAsHTML (ev_content ev),
       fi_Link = ''https://njump.me/'' @ (case fl_EncodeEvent fl (ev_id ev) [fc_RelayURL c] (ev_pubkey ev) of None \<Rightarrow> ev_id ev | Some nevent \<Rightarrow> nevent),
       fi_Author = formatAuthor fl (ev_pubkey ev), fi_AuthorPubkey = ev_pubkey ev,
       fi_Published = ev_created_at ev, fi_Updated = ev_created_at ev, fi_Kind = ev_kind ev, fi_Tags = extractHashtags ev\<rparr>)"

definition buildMetadata :: "feeds_lib \<Rightarrow> feed_settings \<Rightarrow> int \<Rightarrow> string \<Rightarrow> feed_metadata" where
  "buildMetadata fl c now feed_type =
     (let base = TrimRight {CHR ''/''} (fc_RelayURL c); author = formatAuthor fl (fc_OwnerPubkey c) in
      \<lparr>fm_Title = fc_RelayName c @ '' - Nostr Feed'',
       fm_Description = ''Posts from '' @ author @ '' via '' @ fc_RelayName c,
       fm_Link = fc_RelayURL c, fm_FeedLink = base @ (if feed_type = ''rss'' then ''/feed/rss'' else ''/feed/atom''),
       fm_Author = author, fm_AuthorPubkey = fc_OwnerPubkey c, fm_Updated = now, fm_Generator = ''cloistr-relay'', fm_Language = ''en''\<rparr>)"

text \<open>A request: its method and query values (the empty string when absent).\<close>

record feed_request =
  fr_method :: string
  fr_limit :: string
  fr_algo :: string

definition feed_limit :: "feed_settings \<Rightarrow> feed_request \<Rightarrow> int" where
  "feed_limit c r =
     (if fr_limit r = '''' then fc_DefaultLimit c
      else case ParseInt64 (fr_limit r) of
        None \<Rightarrow> fc_DefaultLimit c
      | Some n \<Rightarrow> if n > 0 then (if n > fc_MaxLimit c then fc_MaxLimit c else n) else fc_DefaultLimit c)"

definition feed_algo :: "feed_settings \<Rightarrow> feed_request \<Rightarrow> string" where
  "feed_algo c r = (if fr_algo r = '''' then fc_DefaultAlgorithm c else fr_algo r)"

text \<open>The store: authors, kinds and a limit, to the events it sends, or an error. The ranking is there if it is enabled.\<close>

type_synonym feed_store = "string list \<Rightarrow> int list \<Rightarrow> int \<Rightarrow> event list option"

definition feed_kinds :: "feed_settings \<Rightarrow> int list" where
  "feed_kinds c = (if fc_IncludeLongForm c then [1, 30023] else [1])"

definition fetchFeedItems ::
  "feeds_lib \<Rightarrow> feed_settings \<Rightarrow> scorer_env option \<Rightarrow> feed_store \<Rightarrow> feed_request \<Rightarrow> engagement_cache \<Rightarrow> feed_item list option \<times> engagement_cache" where
  "fetchFeedItems fl c ranking store r cache =
     (let limit = feed_limit c r; a = feed_algo c r; ranked = (a \<noteq> '''' \<and> a \<noteq> ''chronological'' \<and> ranking \<noteq> None);
          fetch_limit = (if ranked then (if i64 (limit * 3) > 200 then 200 else i64 (limit * 3)) else limit)
      in case store [fc_OwnerPubkey c] (feed_kinds c) fetch_limit of
           None \<Rightarrow> (None, cache)
         | Some sent \<Rightarrow>
             let events = filter (\<lambda>ev. fc_IncludeReplies c \<or> \<not> hasReplyTag ev) sent in
             if ranked
             then case ScoreEventsForFeed (the ranking) events (ParseAlgorithm a) cache of
               (scored, cache') \<Rightarrow> (Some (map (\<lambda>se. eventToFeedItem fl c (sv_Event se)) (take (nat limit) scored)), cache')
             else (Some (map (eventToFeedItem fl c) (take (nat limit) events)), cache))"

datatype feed_reply = FeedError string int | FeedRSS int rss_feed | FeedAtom int atom_feed

text \<open>The number is the lifetime in the cache header, in seconds. \<open>encodes\<close>: whether the XML encoder succeeds.\<close>

definition handle_feed ::
  "(feed_metadata \<Rightarrow> feed_item list \<Rightarrow> feed_reply) \<Rightarrow> string \<Rightarrow> feeds_lib \<Rightarrow> feed_settings \<Rightarrow> scorer_env option \<Rightarrow> feed_store \<Rightarrow> bool \<Rightarrow> int \<Rightarrow>
   feed_request \<Rightarrow> engagement_cache \<Rightarrow> feed_reply \<times> engagement_cache" where
  "handle_feed mk feed_type fl c ranking store encodes now r cache =
     (if fr_method r \<noteq> ''GET'' \<and> fr_method r \<noteq> ''HEAD'' then (FeedError ''Method not allowed'' 405, cache)
      else case fetchFeedItems fl c ranking store r cache of
        (None, cache') \<Rightarrow> (FeedError ''Internal server error'' 500, cache')
      | (Some items, cache') \<Rightarrow>
          let meta = buildMetadata fl c now feed_type;
              dated = (if items = [] then meta else meta\<lparr>fm_Updated := fi_Published (hd items)\<rparr>)
          in if \<not> encodes then (FeedError ''Internal server error'' 500, cache') else (mk dated items, cache'))"

definition handleRSS :: "feeds_lib \<Rightarrow> feed_settings \<Rightarrow> scorer_env option \<Rightarrow> feed_store \<Rightarrow> bool \<Rightarrow> int \<Rightarrow> feed_request \<Rightarrow> engagement_cache \<Rightarrow> feed_reply \<times> engagement_cache" where
  "handleRSS fl c = handle_feed (\<lambda>m items. FeedRSS (fc_CacheTTL c div ns_per_sec) (GenerateRSS fl m items)) ''rss'' fl c"

definition handleAtom :: "feeds_lib \<Rightarrow> feed_settings \<Rightarrow> scorer_env option \<Rightarrow> feed_store \<Rightarrow> bool \<Rightarrow> int \<Rightarrow> feed_request \<Rightarrow> engagement_cache \<Rightarrow> feed_reply \<times> engagement_cache" where
  "handleAtom fl c = handle_feed (\<lambda>m items. FeedAtom (fc_CacheTTL c div ns_per_sec) (GenerateAtom fl m items)) ''atom'' fl c"

text \<open>The routes, and the configuration of main.go, which leaves the lifetime at zero.\<close>

definition feed_route :: "string \<Rightarrow> string option" where
  "feed_route path =
     (if path = ''/feed/rss'' \<or> path = ''/feed/rss.xml'' then Some ''rss''
      else if path = ''/feed/atom'' \<or> path = ''/feed/atom.xml'' then Some ''atom'' else None)"

definition main_feed_config :: "string \<Rightarrow> string \<Rightarrow> string \<Rightarrow> string \<Rightarrow> int \<Rightarrow> int \<Rightarrow> bool \<Rightarrow> bool \<Rightarrow> string \<Rightarrow> feed_settings option" where
  "main_feed_config haven_owner relay_pubkey url name limit max_limit long_form replies default_algo =
     (let owner = (if haven_owner = '''' then relay_pubkey else haven_owner) in
      if owner = '''' then None
      else Some (feeds_NewHandler (Some \<lparr>fc_Enabled = True, fc_OwnerPubkey = owner, fc_RelayURL = url, fc_RelayName = name,
             fc_DefaultLimit = limit, fc_MaxLimit = max_limit, fc_CacheTTL = 0, fc_IncludeLongForm = long_form,
             fc_IncludeReplies = replies, fc_DefaultAlgorithm = default_algo\<rparr>)))"

section \<open>What readers see is the text\<close>

lemma EscapeString_append [simp]: "EscapeString (a @ b) = EscapeString a @ EscapeString b"
  by (simp add: EscapeString_def)

lemma newlines_to_br_append [simp]: "newlines_to_br (a @ b) = newlines_to_br a @ newlines_to_br b"
  by (simp add: newlines_to_br_def)

lemma escaped_clean: "c \<in> set (EscapeString s) \<Longrightarrow> c \<noteq> CHR ''<'' \<and> c \<noteq> CHR 0x22"
  by (induction s) (auto simp: EscapeString_def esc_char_def split: if_splits)

lemma newlines_to_br_quote: "CHR 0x22 \<notin> set s \<Longrightarrow> CHR 0x22 \<notin> set (newlines_to_br s)"
  by (induction s) (auto simp: newlines_to_br_def br_char_def)

definition texts :: "piece list \<Rightarrow> string" where
  "texts ps = concat (map (\<lambda>p. case p of Tag t \<Rightarrow> [] | Chr c \<Rightarrow> [c]) ps)"

definition tags_in :: "piece list \<Rightarrow> string list" where
  "tags_in ps = concat (map (\<lambda>p. case p of Tag t \<Rightarrow> [t] | Chr c \<Rightarrow> []) ps)"

lemma pieces_simps [simp]:
  "texts [] = []" "texts (Tag t # ps) = texts ps" "texts (Chr c # ps) = c # texts ps" "texts (ps @ qs) = texts ps @ texts qs"
  "tags_in [] = []" "tags_in (Tag t # ps) = t # tags_in ps" "tags_in (Chr c # ps) = tags_in ps" "tags_in (ps @ qs) = tags_in ps @ tags_in qs"
  by (simp_all add: texts_def tags_in_def)

text \<open>A piece of the output, before the newlines are replaced, that is read as \<open>ps\<close> wherever it stands.\<close>

definition reads :: "string \<Rightarrow> piece list \<Rightarrow> bool" where
  "reads s ps \<longleftrightarrow> (\<forall>r. read_html InText (newlines_to_br s @ r) = ps @ read_html InText r)"

lemma reads_append: "reads a ps \<Longrightarrow> reads b qs \<Longrightarrow> reads (a @ b) (ps @ qs)"
  by (simp add: reads_def)

lemma reads_Nil: "reads [] []"
  by (simp add: reads_def newlines_to_br_def)

definition text_pieces :: "string \<Rightarrow> piece list" where
  "text_pieces s = concat (map (\<lambda>c. if c = CHR 0x0A then [Tag ''br'', Chr c] else [Chr c]) s)"

lemma reads_text: "CHR ''<'' \<notin> set s \<Longrightarrow> reads s (text_pieces s)"
  by (induction s) (auto simp: reads_def text_pieces_def newlines_to_br_def br_char_def)

lemma text_pieces_texts [simp]: "texts (text_pieces s) = s"
  by (induction s) (simp_all add: text_pieces_def)

lemma text_pieces_tags: "set (tags_in (text_pieces s)) \<subseteq> {''br''}"
  by (induction s) (auto simp: text_pieces_def)

lemma read_quoted: "CHR 0x22 \<notin> set s \<Longrightarrow> read_html (InQuote a) (s @ CHR 0x22 # r) = read_html (InTag (a @ s @ [CHR 0x22])) r"
  by (induction s arbitrary: a) auto

lemma reads_anchor:
  assumes "CHR 0x22 \<notin> set u"
  shows "reads (''<a href='' @ quote @ u @ quote @ ''>'') [Tag (''a href='' @ quote @ newlines_to_br u @ quote)]"
proof -
  have plain: "newlines_to_br ''<a href='' = ''<a href=''" "newlines_to_br quote = quote" "newlines_to_br ''>'' = ''>''"
    by (simp_all add: newlines_to_br_def br_char_def quote_def)
  have "newlines_to_br (''<a href='' @ quote @ u @ quote @ ''>'') = ''<a href='' @ quote @ newlines_to_br u @ quote @ ''>''"
    by (simp only: newlines_to_br_append plain)
  with read_quoted [OF newlines_to_br_quote [OF assms]] show ?thesis
    by (simp add: reads_def quote_def)
qed

lemma reads_close: "reads ''</a>'' [Tag ''/a'']"
  by (simp add: reads_def newlines_to_br_def br_char_def)

definition own_tag :: "string \<Rightarrow> bool" where
  "own_tag t \<longleftrightarrow> t \<in> {''p'', ''/p'', ''br'', ''/a''}
     \<or> (\<exists>u. t = ''a href='' @ quote @ u @ quote \<and> is_link u \<and> CHR 0x22 \<notin> set u)"

lemma is_link_shown: "is_link w \<Longrightarrow> is_link (newlines_to_br (EscapeString w))"
  unfolding is_link_def HasPrefix_iff
  by (elim disjE exE) (simp_all add: EscapeString_def esc_char_def newlines_to_br_def br_char_def)

lemma TrimRight_drop: "TrimRight cs s @ drop (length (TrimRight cs s)) s = s"
proof -
  have "rev s = takeWhile (\<lambda>c. c \<in> cs) (rev s) @ dropWhile (\<lambda>c. c \<in> cs) (rev s)" by simp
  then have "s = TrimRight cs s @ rev (takeWhile (\<lambda>c. c \<in> cs) (rev s))"
    by (metis TrimRight_def rev_append rev_rev_ident)
  then show ?thesis by (metis append_eq_conv_conj)
qed

lemma reads_word: "\<exists>ps. reads (linkify_word w) ps \<and> texts ps = EscapeString w \<and> (\<forall>t \<in> set (tags_in ps). own_tag t)"
proof -
  let ?c = "TrimRight url_trailers w" and ?s = "drop (length (TrimRight url_trailers w)) w"
  have clean: "CHR ''<'' \<notin> set (EscapeString v)" "CHR 0x22 \<notin> set (EscapeString v)" for v using escaped_clean by blast+
  show ?thesis
  proof (cases "is_link ?c")
    case False
    with reads_text [OF clean(1)] text_pieces_tags show ?thesis
      by (intro exI [of _ "text_pieces (EscapeString w)"]) (auto simp: linkify_word_def Let_def own_tag_def)
  next
    case True
    let ?a = "''a href='' @ quote @ newlines_to_br (EscapeString ?c) @ quote"
    let ?ps = "[Tag ?a] @ text_pieces (EscapeString ?c) @ [Tag ''/a''] @ text_pieces (EscapeString ?s)"
    have "reads ((''<a href='' @ quote @ EscapeString ?c @ quote @ ''>'') @ EscapeString ?c @ ''</a>'' @ EscapeString ?s) ?ps"
      by (intro reads_append reads_anchor reads_text reads_close clean)
    then have r: "reads (linkify_word w) ?ps" using True by (simp add: linkify_word_def Let_def)
    have "EscapeString w = EscapeString ?c @ EscapeString ?s" by (simp only: TrimRight_drop flip: EscapeString_append)
    then have t: "texts ?ps = EscapeString w" by simp
    have "own_tag ?a" using is_link_shown [OF True] newlines_to_br_quote [OF clean(2)] unfolding own_tag_def by blast
    then have "\<forall>t \<in> set (tags_in ?ps). own_tag t" using text_pieces_tags by (auto simp: own_tag_def)
    with r t show ?thesis by blast
  qed
qed

lemma split_spaces_nonempty [simp]: "split_spaces s \<noteq> []"
  by (cases s) (simp_all split: list.split)

lemma join_split_spaces: "join_spaces (split_spaces s) = s"
proof (induction s)
  case (Cons c s)
  obtain w ws where "split_spaces s = w # ws" using split_spaces_nonempty [of s] by (meson neq_Nil_conv)
  with Cons show ?case by (cases ws) auto
qed simp

lemma reads_words:
  "\<exists>ps. reads (join_spaces (map linkify_word ws)) ps \<and> texts ps = EscapeString (join_spaces ws) \<and> (\<forall>t \<in> set (tags_in ps). own_tag t)"
proof (induction ws rule: join_spaces.induct)
  case 1
  then show ?case using reads_Nil by (intro exI [of _ "[]"]) (simp add: EscapeString_def)
next
  case (2 w)
  then show ?case using reads_word by simp
next
  case (3 w v ws)
  then obtain qs where q: "reads (join_spaces (map linkify_word (v # ws))) qs" "texts qs = EscapeString (join_spaces (v # ws))"
    "\<forall>t \<in> set (tags_in qs). own_tag t" by blast
  obtain ps where p: "reads (linkify_word w) ps" "texts ps = EscapeString w" "\<forall>t \<in> set (tags_in ps). own_tag t"
    using reads_word by blast
  have "reads '' '' [Chr (CHR '' '')]" by (simp add: reads_def newlines_to_br_def br_char_def)
  from reads_append [OF p(1) reads_append [OF this q(1)]]
  have "reads (join_spaces (map linkify_word (w # v # ws))) (ps @ [Chr (CHR '' '')] @ qs)" by simp
  moreover have "EscapeString '' '' = '' ''" by (simp add: EscapeString_def esc_char_def)
  then have "texts (ps @ [Chr (CHR '' '')] @ qs) = EscapeString (w @ '' '' @ join_spaces (v # ws))"
    using p(2) q(2) by (simp only: pieces_simps EscapeString_append)
  ultimately show ?case using p(3) q(3) by (intro exI [of _ "ps @ [Chr (CHR '' '')] @ qs"]) auto
qed

lemma decode_char: "c \<noteq> CHR ''&'' \<Longrightarrow> decode_entities (Suc n) (c # cs) = c # decode_entities n cs"
  by (simp add: entities_def)

lemma decode_escaped: "length (EscapeString s) \<le> n \<Longrightarrow> decode_entities n (EscapeString s) = s"
proof (induction s arbitrary: n)
  case Nil
  then show ?case by (cases n) (simp_all add: EscapeString_def)
next
  case (Cons c s)
  have e: "EscapeString (c # s) = esc_char c @ EscapeString s" by (simp add: EscapeString_def)
  have "0 < length (esc_char c)" by (simp add: esc_char_def)
  with Cons.prems e obtain m where n: "n = Suc m" by (cases n) auto
  have "c \<in> {CHR ''<'', CHR ''>'', CHR ''&'', CHR 0x27, CHR 0x22} \<or> esc_char c = [c] \<and> c \<noteq> CHR ''&''"
    by (simp add: esc_char_def)
  then consider "c \<in> {CHR ''<'', CHR ''>'', CHR ''&'', CHR 0x27, CHR 0x22}" | "esc_char c = [c]" "c \<noteq> CHR ''&''" by blast
  then show ?case
  proof cases
    case 1
    with Cons.prems Cons.IH [of m] show ?thesis unfolding e by (auto simp: n esc_char_def entities_def)
  next
    case 2
    with Cons.prems Cons.IH [of m] show ?thesis unfolding e by (simp add: n decode_char del: decode_entities.simps)
  qed
qed

text \<open>C31: 
  The HTML of a post: read by a browser, its text is exactly the post, and its only tags are the writer's own paragraph,
  line breaks and links to http addresses. No markup of an author reaches the readers of a feed.
\<close>

theorem feed_html_is_the_text:
  "UnescapeString (html_text (formatContentAsHTML s)) = s \<and> list_all own_tag (html_tags (formatContentAsHTML s))"
proof -
  obtain ps where ps: "reads (linkifyURLsSafe s) ps" "texts ps = EscapeString s" "\<forall>t \<in> set (tags_in ps). own_tag t"
    using reads_words [of "split_spaces s"] by (auto simp: linkifyURLsSafe_def join_split_spaces)
  have "read_html InText (formatContentAsHTML s) = Tag ''p'' # ps @ [Tag ''/p'']"
    using ps(1) by (simp add: formatContentAsHTML_def reads_def)
  then have "html_text (formatContentAsHTML s) = EscapeString s" "set (html_tags (formatContentAsHTML s)) = {''p'', ''/p''} \<union> set (tags_in ps)"
    using ps(2) by (auto simp: html_text_def html_tags_def texts_def tags_in_def)
  with ps(3) show ?thesis by (auto simp: UnescapeString_def decode_escaped own_tag_def list_all_iff)
qed

section \<open>What a feed shows\<close>

lemma feed_limit_range:
  "feed_limit c r \<le> max (fc_DefaultLimit c) (fc_MaxLimit c)"
  by (auto simp: feed_limit_def max_def split: option.split)

lemma scored_are_events:
  assumes "sorts (sc_sort env)" "0 \<le> ac_MaxEventsToScore (sc_config env)" "se \<in> set (fst (ScoreEventsForFeed env evs a cache))"
  shows "sv_Event se \<in> set evs"
proof -
  have "mset (map sv_Event (fst (ScoreEvents env a None evs cache))) = mset (take (nat (ac_MaxEventsToScore (sc_config env))) evs)"
    using ranking_rearranges [OF assms(1,2), where prefs = None] by (simp add: applyMuteFilters_def)
  then have "set (map sv_Event (fst (ScoreEvents env a None evs cache))) = set (take (nat (ac_MaxEventsToScore (sc_config env))) evs)"
    by (rule mset_eq_setD)
  moreover have "sv_Event se \<in> set (map sv_Event (fst (ScoreEvents env a None evs cache)))"
    using assms(3) by (simp add: ScoreEventsForFeed_def)
  ultimately show ?thesis by (metis in_set_takeD)
qed

text \<open>
  Whatever is asked for, and with or without ranking, a feed has at most the limit of items, and every item is a post of
  the owner of a kind the feed includes, which is no reply unless replies are included, shown as it was stored.
\<close>

theorem feed_shows_owner_posts:
  assumes "\<forall>authors kinds n sent. store authors kinds n = Some sent \<longrightarrow> (\<forall>ev \<in> set sent. ev_pubkey ev \<in> set authors \<and> ev_kind ev \<in> set kinds)"
    and "\<forall>env. ranking = Some env \<longrightarrow> sorts (sc_sort env) \<and> 0 \<le> ac_MaxEventsToScore (sc_config env)"
    and "fetchFeedItems fl c ranking store r cache = (Some items, cache')"
  shows "length items \<le> nat (max (fc_DefaultLimit c) (fc_MaxLimit c))
    \<and> (\<forall>i \<in> set items. \<exists>ev. i = eventToFeedItem fl c ev \<and> ev_pubkey ev = fc_OwnerPubkey c \<and> ev_kind ev \<in> set (feed_kinds c)
         \<and> (fc_IncludeReplies c \<or> \<not> hasReplyTag ev))"
proof -
  let ?lim = "feed_limit c r" and ?a = "feed_algo c r"
  let ?ranked = "?a \<noteq> '''' \<and> ?a \<noteq> ''chronological'' \<and> ranking \<noteq> None"
  let ?n = "if ?ranked then (if i64 (?lim * 3) > 200 then 200 else i64 (?lim * 3)) else ?lim"
  from assms(3) obtain sent where sent: "store [fc_OwnerPubkey c] (feed_kinds c) ?n = Some sent"
    by (cases "store [fc_OwnerPubkey c] (feed_kinds c) ?n") (auto simp: fetchFeedItems_def Let_def)
  define evs where "evs = filter (\<lambda>ev. fc_IncludeReplies c \<or> \<not> hasReplyTag ev) sent"
  have own: "\<forall>ev \<in> set evs. ev_pubkey ev = fc_OwnerPubkey c \<and> ev_kind ev \<in> set (feed_kinds c) \<and> (fc_IncludeReplies c \<or> \<not> hasReplyTag ev)"
    using assms(1) sent by (fastforce simp: evs_def)
  have short: "nat ?lim \<le> nat (max (fc_DefaultLimit c) (fc_MaxLimit c))" using feed_limit_range [of c r] by (rule nat_mono)
  show ?thesis
  proof (cases ?ranked)
    case True
    then obtain env where env: "ranking = Some env" by blast
    with assms(2) have ok: "sorts (sc_sort env)" "0 \<le> ac_MaxEventsToScore (sc_config env)" by auto
    from assms(3) True sent env
    have "items = map (\<lambda>se. eventToFeedItem fl c (sv_Event se)) (take (nat ?lim) (fst (ScoreEventsForFeed env evs (ParseAlgorithm ?a) cache)))"
      by (auto simp: fetchFeedItems_def Let_def evs_def split_beta)
    with short own scored_are_events [OF ok] show ?thesis by (fastforce dest: in_set_takeD)
  next
    case False
    with assms(3) sent have "items = map (eventToFeedItem fl c) (take (nat ?lim) evs)"
      by (auto simp: fetchFeedItems_def Let_def evs_def)
    with short own show ?thesis by (fastforce dest: in_set_takeD)
  qed
qed

definition demo_feeds_lib :: feeds_lib where
  "demo_feeds_lib = \<lparr>fl_EncodeEvent = (\<lambda>_ _ _. None), fl_EncodePublicKey = (\<lambda>_. None), fl_rfc1123 = fmt_d, fl_rfc3339 = fmt_d\<rparr>"

definition demo_feed :: feed_settings where
  "demo_feed = feeds_DefaultConfig\<lparr>fc_OwnerPubkey := ''alice''\<rparr>"

definition demo_store :: feed_store where
  "demo_store authors kinds n = Some (filter (\<lambda>ev. ev_pubkey ev \<in> set authors \<and> ev_kind ev \<in> set kinds)
     [demo_note, demo_note\<lparr>ev_kind := 7\<rparr>, demo_note\<lparr>ev_pubkey := ''bob''\<rparr>])"

definition demo_request :: "string \<Rightarrow> feed_request" where
  "demo_request a = \<lparr>fr_method = ''GET'', fr_limit = ''5'', fr_algo = a\<rparr>"

lemma feed_shows_owner_posts_witness:
  "\<exists>i. fetchFeedItems demo_feeds_lib demo_feed None demo_store (demo_request '''') Map.empty = (Some [i], Map.empty)
     \<and> fi_AuthorPubkey i = fc_OwnerPubkey demo_feed"
proof -
  let ?i = "eventToFeedItem demo_feeds_lib demo_feed demo_note"
  have run: "fetchFeedItems demo_feeds_lib demo_feed None demo_store (demo_request '''') Map.empty = (Some [?i], Map.empty)"
    by (simp add: fetchFeedItems_def demo_store_def demo_note_def demo_feed_def feeds_DefaultConfig_def demo_request_def feed_limit_def
        feed_algo_def feed_kinds_def hasReplyTag_def ParseInt64_def parse_unsigned_def digit_of_def in_i64_def Let_def)
  have "\<forall>i \<in> set [?i]. \<exists>ev. i = eventToFeedItem demo_feeds_lib demo_feed ev \<and> ev_pubkey ev = fc_OwnerPubkey demo_feed
      \<and> ev_kind ev \<in> set (feed_kinds demo_feed) \<and> (fc_IncludeReplies demo_feed \<or> \<not> hasReplyTag ev)"
    by (rule feed_shows_owner_posts [OF _ _ run, THEN conjunct2]) (simp_all add: demo_store_def)
  then show ?thesis using run by (auto simp: eventToFeedItem_def Let_def)
qed

section \<open>Where the code departs from its intent\<close>

text \<open>With the ranking that main.go wires, every ranked feed is empty.\<close>

lemma wired_ranked_feed_is_empty:
  assumes "sc_config env = main_algo_config name w g h" "sorts (sc_sort env)"
    and "feed_algo c r \<noteq> ''''" "feed_algo c r \<noteq> ''chronological''"
    and "fetchFeedItems fl c (Some env) store r cache = (Some items, cache')"
  shows "items = []"
proof -
  have no_items: "fst (ScoreEventsForFeed env evs a k) = []" for a evs k
  proof -
    have "mset (map sv_Event (fst (ScoreEventsForFeed env evs a k))) = mset []"
      using ranking_rearranges [OF assms(2), of a None evs k] assms(1)
      by (simp add: main_algo_config_def applyMuteFilters_def ScoreEventsForFeed_def)
    then show ?thesis by simp
  qed
  show ?thesis
  proof (cases "store [fc_OwnerPubkey c] (feed_kinds c) (if i64 (feed_limit c r * 3) > 200 then 200 else i64 (feed_limit c r * 3))")
    case (Some sent)
    let ?evs = "filter (\<lambda>ev. fc_IncludeReplies c \<or> \<not> hasReplyTag ev) sent"
    have "items = map (\<lambda>se. eventToFeedItem fl c (sv_Event se))
        (take (nat (feed_limit c r)) (fst (ScoreEventsForFeed env ?evs (ParseAlgorithm (feed_algo c r)) cache)))"
      using Some assms(3-5) by (auto simp: fetchFeedItems_def Let_def split_beta)
    moreover have "fst (ScoreEventsForFeed env ?evs (ParseAlgorithm (feed_algo c r)) cache) = []" by (rule no_items)
    ultimately show ?thesis by simp
  qed (use assms(3-5) in \<open>simp add: fetchFeedItems_def Let_def\<close>)
qed

text \<open>Feeds ask the store itself, not the relay's query handler: they show posts after their expiration.\<close>

lemma feed_shows_expired_posts:
  "\<exists>ev ctx. IsExpired ctx ev \<and> fst (fetchFeedItems demo_feeds_lib demo_feed None (\<lambda>_ _ _. Some [ev]) (demo_request '''') Map.empty)
     = Some [eventToFeedItem demo_feeds_lib demo_feed ev]"
proof (intro exI conjI)
  let ?ev = "demo_note\<lparr>ev_tags := [[''expiration'', ''5'']]\<rparr>" and ?ctx = "\<lparr>ctx_authed = '''', ctx_ip = '''', ctx_now = 9 * ns_per_sec\<rparr>"
  show "IsExpired ?ctx ?ev"
    by (simp add: IsExpired_def GetExpiration_def ParseInt64_def parse_unsigned_def digit_of_def in_i64_def Let_def now_unix_def demo_note_def)
  show "fst (fetchFeedItems demo_feeds_lib demo_feed None (\<lambda>_ _ _. Some [?ev]) (demo_request '''') Map.empty)
     = Some [eventToFeedItem demo_feeds_lib demo_feed ?ev]"
    by (simp add: fetchFeedItems_def demo_note_def demo_feed_def feeds_DefaultConfig_def demo_request_def feed_limit_def
        feed_algo_def feed_kinds_def hasReplyTag_def ParseInt64_def parse_unsigned_def digit_of_def in_i64_def Let_def)
qed

text \<open>A link that is followed by a line break gets the break into its address.\<close>

lemma break_inside_link:
  "html_tags (formatContentAsHTML (''http://a'' @ [CHR 0x0A] @ ''b'')) =
     [''p'', ''a href='' @ quote @ ''http://a<br>'' @ [CHR 0x0A] @ ''b'' @ quote, ''br'', ''/a'', ''/p'']"
  by (simp add: html_tags_def formatContentAsHTML_def linkifyURLsSafe_def linkify_word_def Let_def TrimRight_def url_trailers_def
      is_link_def EscapeString_def esc_char_def newlines_to_br_def br_char_def quote_def)

text \<open>The maximum does not bound the default.\<close>

lemma default_limit_is_not_capped: "fr_limit r = '''' \<Longrightarrow> feed_limit c r = fc_DefaultLimit c"
  by (simp add: feed_limit_def)

text \<open>A title is cut at a byte, which may be inside a character.\<close>

lemma title_cut_inside_character: "extractTitle [CHR ''x'', CHR 0xC3, CHR 0xA9] 2 = [CHR ''x'', CHR 0xC3] @ ''...''"
  by (simp add: extractTitle_def TrimSpace_def is_space_def last_space_def Let_def)

end
