(* ===== verification/Admin_Queries.thy ===== *)
theory Admin_Queries
  imports Admin_Console Calendar_Communities Trust_Gate "HOL-Library.Multiset"
begin

text \<open>
  What an admin can look at: the REST API of internal/management (api.go, query.go) and the reading pages of
  internal/admin (event browser, statistics, web of trust, HAVEN). The database is the rows of its tables and flags
  that say which statements fail; a list of events keeps the numbered arguments of its SQL text. \<open>strings.ToLower\<close>,
  \<open>ILIKE\<close> and the texts of times are parameters.
\<close>

section \<open>Rows\<close>

text \<open>
  The answer of a query: no answer is an error; a row that does not scan into its Go variables is \<open>None\<close>; the flag
  says whether the rows end without an error.
\<close>

type_synonym 'a sql_rows = "('a option list \<times> bool) option"

definition scanned :: "'a option list \<Rightarrow> 'a list" where
  "scanned rows = List.map_filter (\<lambda>r. r) rows"

lemma scanned_simps [simp]: "scanned [] = []" "scanned (Some x # rows) = x # scanned rows" "scanned (None # rows) = scanned rows"
  by (simp_all add: scanned_def)

lemma scanned_Some [simp]: "scanned (map Some xs) = xs"
  by (induction xs) simp_all

lemma scanned_map_Some [simp]: "scanned (map (\<lambda>x. Some (f x)) xs) = map f xs"
  by (induction xs) simp_all

lemma length_scanned: "length (scanned rows) \<le> length rows"
proof (induction rows)
  case (Cons r rows)
  then show ?case by (cases r) simp_all
qed simp

text \<open>
  \<open>SELECT k, COUNT(*) ... GROUP BY k ORDER BY count DESC LIMIT n\<close>. Groups of one size come in any order:
  \<open>arrange\<close> is what the database makes of them.
\<close>

definition group_counts :: "'a list \<Rightarrow> ('a \<times> int) list" where
  "group_counts xs = map (\<lambda>k. (k, int (count_list xs k))) (remdups xs)"

definition top_counts :: "(('a \<times> int) list \<Rightarrow> ('a \<times> int) list) \<Rightarrow> nat \<Rightarrow> 'a list \<Rightarrow> ('a \<times> int) list" where
  "top_counts arrange n xs = take n (sort_key (\<lambda>g. - snd g) (arrange (group_counts xs)))"

text \<open>What the database may do with rows that its \<open>ORDER BY\<close> does not tell apart.\<close>

definition arranges :: "('a list \<Rightarrow> 'a list) \<Rightarrow> bool" where
  "arranges f \<longleftrightarrow> (\<forall>xs. mset (f xs) = mset xs)"

lemma arranges_id: "arranges (\<lambda>xs. xs)"
  by (simp add: arranges_def)

lemma arranges_mset: "arranges f \<Longrightarrow> mset (f xs) = mset xs"
  by (simp add: arranges_def)

lemma arranges_set: "arranges f \<Longrightarrow> set (f xs) = set xs"
  by (metis arranges_mset mset_eq_setD)

lemma arranges_length: "arranges f \<Longrightarrow> length (f xs) = length xs"
  by (metis arranges_mset size_mset)

text \<open>A list of groups shows true counts, the largest first, and leaves out none that is larger than one it shows.\<close>

lemma top_counts_are_counts:
  "arranges f \<Longrightarrow> (k, c) \<in> set (top_counts f n xs) \<Longrightarrow> k \<in> set xs \<and> c = int (count_list xs k)"
  unfolding top_counts_def by (auto simp: arranges_set group_counts_def dest!: in_set_takeD)

lemma sorted_take_drop_le:
  "sorted (map f xs) \<Longrightarrow> x \<in> set (take n xs) \<Longrightarrow> y \<in> set (drop n xs) \<Longrightarrow> f x \<le> f y"
  using append_take_drop_id [of n xs] sorted_append [of "map f (take n xs)" "map f (drop n xs)"] by (simp flip: map_append)

lemma top_counts_leave_out_no_larger:
  assumes f: "arranges f" and k: "k \<in> set xs" "k \<notin> fst ` set (top_counts f n xs)" and g: "(k', c') \<in> set (top_counts f n xs)"
  shows "int (count_list xs k) \<le> c'"
proof -
  let ?s = "sort_key (\<lambda>g. - snd g) (f (group_counts xs))"
  have "(k, int (count_list xs k)) \<in> set ?s" using k(1) f by (simp add: arranges_set group_counts_def)
  then have "(k, int (count_list xs k)) \<in> set (take n ?s) \<union> set (drop n ?s)"
    by (metis append_take_drop_id set_append)
  then have "(k, int (count_list xs k)) \<in> set (drop n ?s)" using k(2) by (force simp: top_counts_def)
  with g show ?thesis
    using sorted_take_drop_le [of "\<lambda>g. - snd g" ?s "(k', c')" n "(k, int (count_list xs k))"]
    by (simp add: top_counts_def sorted_sort_key)
qed

section \<open>The event browser\<close>

record BrowserFilter =
  bf_Pubkey :: string
  bf_Kind :: string
  bf_Search :: string
  bf_StartDate :: string
  bf_EndDate :: string

record browser_event =
  bw_ID :: string
  bw_Pubkey :: string
  bw_Kind :: int
  bw_Content :: string
  bw_CreatedAt :: int
  bw_Tags :: string
  bw_IsBanned :: bool

record BrowserResult =
  br_Events :: "browser_event list"
  br_Total :: int
  br_Limit :: int
  br_Offset :: int
  br_HasMore :: bool

text \<open>A row of the event table: the event, the text of its tag column, and whether it scans.\<close>

record event_row =
  er_event :: event
  er_tags :: "string option"
  er_scans :: bool

record event_db =
  eb_rows :: "event_row list"
  eb_banned :: "string list"
  eb_ilike :: "string \<Rightarrow> string \<Rightarrow> bool"
  eb_arrange :: "event_row list \<Rightarrow> event_row list"

record browse_faults =
  count_answers :: bool
  query_answers :: bool
  rows_end_well :: bool

subsection \<open>Conditions with numbered arguments\<close>

datatype browse_cond = PubkeyEq nat | KindEq nat | ContentLike nat | CreatedFrom nat | CreatedTo nat

datatype sql_arg = ArgText string | ArgInt int

record browse_query =
  bq_where :: "browse_cond list"
  bq_args :: "sql_arg list"
  bq_argNum :: nat

definition add_cond :: "(nat \<Rightarrow> browse_cond) \<Rightarrow> sql_arg \<Rightarrow> browse_query \<Rightarrow> browse_query" where
  "add_cond c a q = \<lparr>bq_where = bq_where q @ [c (bq_argNum q)], bq_args = bq_args q @ [a], bq_argNum = bq_argNum q + 1\<rparr>"

definition no_conds :: browse_query where
  "no_conds = \<lparr>bq_where = [], bq_args = [], bq_argNum = 1\<rparr>"

text \<open>A kind or a date that does not parse adds no condition. The last day is meant to its end.\<close>

definition browse_where :: "(string \<Rightarrow> string) \<Rightarrow> BrowserFilter \<Rightarrow> browse_query" where
  "browse_where low flt =
     (let q = no_conds;
          q = (if bf_Pubkey flt \<noteq> '''' then add_cond PubkeyEq (ArgText (low (bf_Pubkey flt))) q else q);
          q = (if bf_Kind flt \<noteq> '''' then (case Atoi (bf_Kind flt) of Some k \<Rightarrow> add_cond KindEq (ArgInt k) q | None \<Rightarrow> q) else q);
          q = (if bf_Search flt \<noteq> '''' then add_cond ContentLike (ArgText (''%'' @ bf_Search flt @ ''%'')) q else q);
          q = (if bf_StartDate flt \<noteq> ''''
               then (case ParseDate (bf_StartDate flt) of Some t \<Rightarrow> add_cond CreatedFrom (ArgInt (go_Unix t)) q | None \<Rightarrow> q) else q);
          q = (if bf_EndDate flt \<noteq> ''''
               then (case ParseDate (bf_EndDate flt) of Some t \<Rightarrow> add_cond CreatedTo (ArgInt (go_Unix t + (24 * 3600 - 1))) q | None \<Rightarrow> q)
               else q)
      in q)"

definition numbered :: "sql_arg list \<Rightarrow> nat \<Rightarrow> sql_arg option" where
  "numbered args n = (if 1 \<le> n \<and> n \<le> length args then Some (args ! (n - 1)) else None)"

fun cond_holds :: "(string \<Rightarrow> string \<Rightarrow> bool) \<Rightarrow> sql_arg list \<Rightarrow> event \<Rightarrow> browse_cond \<Rightarrow> bool" where
  "cond_holds like args ev (PubkeyEq n) \<longleftrightarrow> numbered args n = Some (ArgText (ev_pubkey ev))"
| "cond_holds like args ev (KindEq n) \<longleftrightarrow> numbered args n = Some (ArgInt (ev_kind ev))"
| "cond_holds like args ev (ContentLike n) \<longleftrightarrow> (case numbered args n of Some (ArgText p) \<Rightarrow> like (ev_content ev) p | _ \<Rightarrow> False)"
| "cond_holds like args ev (CreatedFrom n) \<longleftrightarrow> (case numbered args n of Some (ArgInt t) \<Rightarrow> t \<le> ev_created_at ev | _ \<Rightarrow> False)"
| "cond_holds like args ev (CreatedTo n) \<longleftrightarrow> (case numbered args n of Some (ArgInt t) \<Rightarrow> ev_created_at ev \<le> t | _ \<Rightarrow> False)"

definition select_where :: "event_db \<Rightarrow> browse_query \<Rightarrow> sql_arg list \<Rightarrow> event_row list" where
  "select_where db q args = filter (\<lambda>r. list_all (cond_holds (eb_ilike db) args (er_event r)) (bq_where q)) (eb_rows db)"

text \<open>
  A statement is refused if it does not use exactly the arguments it gets, or if a number that is compared with a kind or
  a time, columns of 32 bits, is beyond them.
\<close>

definition ints_fit :: "sql_arg list \<Rightarrow> bool" where
  "ints_fit args = list_all (\<lambda>a. case a of ArgInt i \<Rightarrow> in_i32 i | ArgText t \<Rightarrow> True) args"

lemma ints_fit_Nil [simp]: "ints_fit []"
  by (simp add: ints_fit_def)

definition count_rows :: "browse_faults \<Rightarrow> event_db \<Rightarrow> browse_query \<Rightarrow> int option" where
  "count_rows f db q =
     (if \<not> count_answers f \<or> length (bq_args q) \<noteq> bq_argNum q - 1 \<or> \<not> ints_fit (bq_args q) then None
      else Some (int (length (select_where db q (bq_args q)))))"

text \<open>\<open>ORDER BY created_at DESC LIMIT $argNum OFFSET $argNum+1\<close>.\<close>

definition newest_first :: "event_db \<Rightarrow> event_row list \<Rightarrow> event_row list" where
  "newest_first db rows = sort_key (\<lambda>r. - ev_created_at (er_event r)) (eb_arrange db rows)"

definition page_rows :: "browse_faults \<Rightarrow> event_db \<Rightarrow> browse_query \<Rightarrow> sql_arg list \<Rightarrow> event_row sql_rows" where
  "page_rows f db q args =
     (if \<not> query_answers f \<or> length args \<noteq> bq_argNum q + 1 \<or> \<not> ints_fit (bq_args q) then None
      else case (numbered args (bq_argNum q), numbered args (bq_argNum q + 1)) of
        (Some (ArgInt l), Some (ArgInt k)) \<Rightarrow>
          if l < 0 \<or> k < 0 then None
          else Some (map (\<lambda>r. if er_scans r then Some r else None)
                       (take (nat l) (drop (nat k) (newest_first db (select_where db q args)))), rows_end_well f)
      | _ \<Rightarrow> None)"

definition browser_event_of :: "event_db \<Rightarrow> event_row \<Rightarrow> browser_event" where
  "browser_event_of db r =
     \<lparr>bw_ID = ev_id (er_event r), bw_Pubkey = ev_pubkey (er_event r), bw_Kind = ev_kind (er_event r),
      bw_Content = ev_content (er_event r), bw_CreatedAt = ev_created_at (er_event r),
      bw_Tags = (case er_tags r of Some t \<Rightarrow> t | None \<Rightarrow> ''''), bw_IsBanned = (ev_id (er_event r) \<in> set (eb_banned db))\<rparr>"

definition QueryBrowserEvents ::
  "(string \<Rightarrow> string) \<Rightarrow> browse_faults \<Rightarrow> event_db option \<Rightarrow> BrowserFilter \<Rightarrow> int \<Rightarrow> int \<Rightarrow> string + BrowserResult" where
  "QueryBrowserEvents low f store flt limit0 offset =
     (case store of None \<Rightarrow> Inl ''database not available'' | Some db \<Rightarrow>
        let limit = (if limit0 \<le> 0 then 50 else limit0);
            limit = (if limit > 200 then 200 else limit);
            q = browse_where low flt
        in case count_rows f db q of None \<Rightarrow> Inl ''count query failed'' | Some n \<Rightarrow>
           let fetchArgs = bq_args q @ [ArgInt (limit + 1), ArgInt offset]
           in case page_rows f db q fetchArgs of None \<Rightarrow> Inl ''query failed''
              | Some (rows, ended) \<Rightarrow>
                  if \<not> ended then Inl ''rows failed''
                  else let events = map (browser_event_of db) (scanned rows);
                           hasMore = int (length events) > limit
                       in Inr \<lparr>br_Events = (if hasMore then take (nat limit) events else events), br_Total = n,
                            br_Limit = limit, br_Offset = offset, br_HasMore = hasMore\<rparr>)"

subsection \<open>The console's copy\<close>

text \<open>It takes the limit it is given, cuts long contents at 200 bytes, and does not ask whether the rows ended well.\<close>

definition cut_content :: "browser_event \<Rightarrow> browser_event" where
  "cut_content e = (if length (bw_Content e) > 200 then e\<lparr>bw_Content := take 200 (bw_Content e) @ ''...''\<rparr> else e)"

definition admin_queryBrowserEvents ::
  "(string \<Rightarrow> string) \<Rightarrow> browse_faults \<Rightarrow> event_db option \<Rightarrow> BrowserFilter \<Rightarrow> int \<Rightarrow> int \<Rightarrow> string + browser_event list \<times> int" where
  "admin_queryBrowserEvents low f store flt limit offset =
     (case store of None \<Rightarrow> Inl ''database not available'' | Some db \<Rightarrow>
        let q = browse_where low flt
        in case count_rows f db q of None \<Rightarrow> Inl ''count query failed'' | Some n \<Rightarrow>
           (case page_rows f db q (bq_args q @ [ArgInt limit, ArgInt offset]) of None \<Rightarrow> Inl ''query failed''
            | Some (rows, _) \<Rightarrow> Inr (map (cut_content \<circ> browser_event_of db) (scanned rows), n)))"

definition parseEventFilters :: "(string \<Rightarrow> string) \<Rightarrow> BrowserFilter" where
  "parseEventFilters query =
     \<lparr>bf_Pubkey = TrimSpace (query ''pubkey''), bf_Kind = TrimSpace (query ''kind''), bf_Search = TrimSpace (query ''search''),
      bf_StartDate = TrimSpace (query ''start''), bf_EndDate = TrimSpace (query ''end'')\<rparr>"

record EventBrowserData =
  ed_Events :: "browser_event list"
  ed_Filters :: BrowserFilter
  ed_Limit :: int
  ed_Offset :: int
  ed_HasMore :: bool
  ed_TotalCount :: int

definition handleEventBrowserList :: "(string \<Rightarrow> string) \<Rightarrow> browse_faults \<Rightarrow> event_db option \<Rightarrow> admin_request \<Rightarrow> string + EventBrowserData" where
  "handleEventBrowserList low f store r =
     (let filters = parseEventFilters (ar_query r) in
      case admin_parseListParams r of (limit, offset) \<Rightarrow>
      case admin_queryBrowserEvents low f store filters (limit + 1) offset of
        Inl e \<Rightarrow> Inl e
      | Inr (events, n) \<Rightarrow>
          let hasMore = int (length events) > limit
          in Inr \<lparr>ed_Events = (if hasMore then take (nat limit) events else events), ed_Filters = filters, ed_Limit = limit,
                  ed_Offset = offset, ed_HasMore = hasMore, ed_TotalCount = n\<rparr>)"

text \<open>One event by its id; the first row with it, if it scans.\<close>

datatype detail_reply = IdRequired | EventNotFound | EventDetail event "string option"

definition getEventByID :: "bool \<Rightarrow> event_db option \<Rightarrow> string \<Rightarrow> event_row option" where
  "getEventByID ok store i =
     (case store of None \<Rightarrow> None | Some db \<Rightarrow>
        if \<not> ok then None
        else case filter (\<lambda>r. ev_id (er_event r) = i) (eb_rows db) of [] \<Rightarrow> None | r # _ \<Rightarrow> if er_scans r then Some r else None)"

definition handleEventDetail :: "bool \<Rightarrow> event_db option \<Rightarrow> admin_request \<Rightarrow> detail_reply" where
  "handleEventDetail ok store r =
     (if ar_query r ''id'' = '''' then IdRequired
      else case getEventByID ok store (ar_query r ''id'') of None \<Rightarrow> EventNotFound
      | Some row \<Rightarrow> EventDetail (er_event row) (er_tags row))"

subsection \<open>What a page shows\<close>

text \<open>The events a filter asks for, without SQL.\<close>

definition wanted :: "(string \<Rightarrow> string) \<Rightarrow> (string \<Rightarrow> string \<Rightarrow> bool) \<Rightarrow> BrowserFilter \<Rightarrow> event \<Rightarrow> bool" where
  "wanted low like flt ev \<longleftrightarrow>
     (bf_Pubkey flt \<noteq> '''' \<longrightarrow> ev_pubkey ev = low (bf_Pubkey flt)) \<and>
     (case Atoi (bf_Kind flt) of Some k \<Rightarrow> ev_kind ev = k | None \<Rightarrow> True) \<and>
     (bf_Search flt \<noteq> '''' \<longrightarrow> like (ev_content ev) (''%'' @ bf_Search flt @ ''%'')) \<and>
     (case ParseDate (bf_StartDate flt) of Some t \<Rightarrow> go_Unix t \<le> ev_created_at ev | None \<Rightarrow> True) \<and>
     (case ParseDate (bf_EndDate flt) of Some t \<Rightarrow> ev_created_at ev < go_Unix t + 86400 | None \<Rightarrow> True)"

definition listing :: "(string \<Rightarrow> string) \<Rightarrow> event_db \<Rightarrow> BrowserFilter \<Rightarrow> event_row list" where
  "listing low db flt = newest_first db (filter (\<lambda>r. wanted low (eb_ilike db) flt (er_event r)) (eb_rows db))"

definition query_means :: "(string \<Rightarrow> string \<Rightarrow> bool) \<Rightarrow> browse_query \<Rightarrow> (event \<Rightarrow> bool) \<Rightarrow> bool" where
  "query_means like q P \<longleftrightarrow> bq_argNum q = length (bq_args q) + 1 \<and>
     (\<forall>ev more_args. list_all (cond_holds like (bq_args q @ more_args) ev) (bq_where q) = P ev)"

lemma numbered_append [simp]:
  "numbered (xs @ y # ys) (length xs + 1) = Some y" "numbered (xs @ y # z # ys) (length xs + 2) = Some z"
  "numbered (xs @ y # ys) (Suc (length xs)) = Some y" "numbered (xs @ y # z # ys) (Suc (Suc (length xs))) = Some z"
  by (simp_all add: numbered_def nth_append)

lemma no_conds_means: "query_means like no_conds (\<lambda>_. True)"
  by (simp add: query_means_def no_conds_def)

lemma add_cond_means:
  assumes "query_means like q P" "\<And>args n ev. numbered args n = Some a \<Longrightarrow> cond_holds like args ev (c n) = R ev"
  shows "query_means like (add_cond c a q) (\<lambda>ev. P ev \<and> R ev)"
  using assms by (simp add: query_means_def add_cond_def)

lemma add_cond_if_means:
  assumes "query_means like q P" "\<And>args n ev. b \<Longrightarrow> numbered args n = Some a \<Longrightarrow> cond_holds like args ev (c n) = R ev"
  shows "query_means like (if b then add_cond c a q else q) (\<lambda>ev. P ev \<and> (b \<longrightarrow> R ev))"
  using assms add_cond_means [of like q P a c R] by simp

lemma add_cond_opt_means:
  assumes "query_means like q P" "\<And>t args n ev. x = Some t \<Longrightarrow> numbered args n = Some (a t) \<Longrightarrow> cond_holds like args ev (c n) = R t ev"
  shows "query_means like (case x of Some t \<Rightarrow> add_cond c (a t) q | None \<Rightarrow> q) (\<lambda>ev. P ev \<and> (case x of Some t \<Rightarrow> R t ev | None \<Rightarrow> True))"
  using assms add_cond_means [of like q P _ c] by (auto split: option.splits)

lemma Atoi_empty [simp]: "Atoi '''' = None" and ParseDate_empty [simp]: "ParseDate '''' = None"
  by (simp_all add: ParseInt64_def parse_unsigned_def ParseDate_def)

lemma browse_where_means: "query_means like (browse_where low flt) (wanted low like flt)"
proof -
  let ?q1 = "if bf_Pubkey flt \<noteq> '''' then add_cond PubkeyEq (ArgText (low (bf_Pubkey flt))) no_conds else no_conds"
  let ?q2 = "case Atoi (bf_Kind flt) of Some k \<Rightarrow> add_cond KindEq (ArgInt k) ?q1 | None \<Rightarrow> ?q1"
  let ?q3 = "if bf_Search flt \<noteq> '''' then add_cond ContentLike (ArgText (''%'' @ bf_Search flt @ ''%'')) ?q2 else ?q2"
  let ?q4 = "case ParseDate (bf_StartDate flt) of Some t \<Rightarrow> add_cond CreatedFrom (ArgInt (go_Unix t)) ?q3 | None \<Rightarrow> ?q3"
  let ?q5 = "case ParseDate (bf_EndDate flt) of Some t \<Rightarrow> add_cond CreatedTo (ArgInt (go_Unix t + (24 * 3600 - 1))) ?q4 | None \<Rightarrow> ?q4"
  have guard: "(if s \<noteq> '''' then (case p s of Some t \<Rightarrow> f t | None \<Rightarrow> q) else q) = (case p s of Some t \<Rightarrow> f t | None \<Rightarrow> q)"
    if "p '''' = None" for p :: "string \<Rightarrow> 'a option" and s f and q :: browse_query using that by auto
  have q: "browse_where low flt = ?q5"
    unfolding browse_where_def Let_def guard [of Atoi, OF Atoi_empty] guard [of ParseDate, OF ParseDate_empty] by (rule refl)
  let ?P1 = "\<lambda>ev. bf_Pubkey flt \<noteq> '''' \<longrightarrow> ev_pubkey ev = low (bf_Pubkey flt)"
  let ?P2 = "\<lambda>ev. case Atoi (bf_Kind flt) of Some k \<Rightarrow> ev_kind ev = k | None \<Rightarrow> True"
  let ?P3 = "\<lambda>ev. bf_Search flt \<noteq> '''' \<longrightarrow> like (ev_content ev) (''%'' @ bf_Search flt @ ''%'')"
  let ?P4 = "\<lambda>ev. case ParseDate (bf_StartDate flt) of Some t \<Rightarrow> go_Unix t \<le> ev_created_at ev | None \<Rightarrow> True"
  let ?P5 = "\<lambda>ev. case ParseDate (bf_EndDate flt) of Some t \<Rightarrow> ev_created_at ev < go_Unix t + 86400 | None \<Rightarrow> True"
  have 1: "query_means like ?q1 (\<lambda>ev. True \<and> ?P1 ev)"
    by (rule add_cond_if_means [OF no_conds_means]) auto
  have 2: "query_means like ?q2 (\<lambda>ev. (True \<and> ?P1 ev) \<and> ?P2 ev)"
    by (rule add_cond_opt_means [OF 1]) auto
  have 3: "query_means like ?q3 (\<lambda>ev. ((True \<and> ?P1 ev) \<and> ?P2 ev) \<and> ?P3 ev)"
    by (rule add_cond_if_means [OF 2]) simp
  have 4: "query_means like ?q4 (\<lambda>ev. (((True \<and> ?P1 ev) \<and> ?P2 ev) \<and> ?P3 ev) \<and> ?P4 ev)"
    by (rule add_cond_opt_means [OF 3]) simp
  have 5: "query_means like ?q5 (\<lambda>ev. ((((True \<and> ?P1 ev) \<and> ?P2 ev) \<and> ?P3 ev) \<and> ?P4 ev) \<and> ?P5 ev)"
    by (rule add_cond_opt_means [OF 4]) auto
  have "wanted low like flt = (\<lambda>ev. ((((True \<and> ?P1 ev) \<and> ?P2 ev) \<and> ?P3 ev) \<and> ?P4 ev) \<and> ?P5 ev)"
    by (rule ext) (simp only: wanted_def conj_assoc simp_thms)
  with 5 show ?thesis unfolding q by (simp only:)
qed

lemma select_where_wanted:
  "select_where db (browse_where low flt) (bq_args (browse_where low flt) @ more_args) =
   filter (\<lambda>r. wanted low (eb_ilike db) flt (er_event r)) (eb_rows db)"
  using browse_where_means [of "eb_ilike db" low flt] by (simp add: select_where_def query_means_def)

lemma browse_argNum: "bq_argNum (browse_where low flt) = length (bq_args (browse_where low flt)) + 1"
  using browse_where_means [of "\<lambda>_ _. True" low flt] by (simp add: query_means_def)

lemma count_rows_wanted:
  "count_rows f db (browse_where low flt) =
   (if count_answers f \<and> ints_fit (bq_args (browse_where low flt))
    then Some (int (length (filter (\<lambda>r. wanted low (eb_ilike db) flt (er_event r)) (eb_rows db)))) else None)"
  using select_where_wanted [of db low flt "[]"] by (simp add: count_rows_def browse_argNum)

lemma page_rows_listing:
  assumes "0 \<le> l" "0 \<le> k"
  shows "page_rows f db (browse_where low flt) (bq_args (browse_where low flt) @ [ArgInt l, ArgInt k]) =
    (if query_answers f \<and> ints_fit (bq_args (browse_where low flt))
     then Some (map (\<lambda>r. if er_scans r then Some r else None) (take (nat l) (drop (nat k) (listing low db flt))), rows_end_well f) else None)"
  using assms by (simp add: page_rows_def browse_argNum select_where_wanted listing_def)

lemma scanned_all: "list_all er_scans rows \<Longrightarrow> scanned (map (\<lambda>r. if er_scans r then Some r else None) rows) = rows"
  by (induction rows) simp_all

lemma length_listing: "arranges (eb_arrange db) \<Longrightarrow>
  length (listing low db flt) = length (filter (\<lambda>r. wanted low (eb_ilike db) flt (er_event r)) (eb_rows db))"
  by (simp add: listing_def newest_first_def arranges_length)

lemma set_listing: "arranges (eb_arrange db) \<Longrightarrow>
  set (listing low db flt) = {r \<in> set (eb_rows db). wanted low (eb_ilike db) flt (er_event r)}"
  by (auto simp: listing_def newest_first_def arranges_set)

lemma listing_scans: "arranges (eb_arrange db) \<Longrightarrow> list_all er_scans (eb_rows db) \<Longrightarrow> list_all er_scans (listing low db flt)"
  by (simp add: list_all_iff set_listing)

lemma list_all_take_drop: "list_all P xs \<Longrightarrow> list_all P (take n (drop k xs))"
  by (auto simp: list_all_iff dest!: in_set_takeD in_set_dropD)

definition browse_up :: browse_faults where
  "browse_up = \<lparr>count_answers = True, query_answers = True, rows_end_well = True\<rparr>"

definition page_limit :: "int \<Rightarrow> int" where
  "page_limit l = (if l \<le> 0 then 50 else min l 200)"

lemma page_limit_bounds: "1 \<le> page_limit l" "page_limit l \<le> 200"
  by (simp_all add: page_limit_def)

lemma browser_answer_fits: "QueryBrowserEvents low f (Some db) flt l offset = Inr b \<Longrightarrow> ints_fit (bq_args (browse_where low flt))"
  by (auto simp: QueryBrowserEvents_def Let_def count_rows_wanted split: if_splits)

theorem browser_page_spec:
  assumes "arranges (eb_arrange db)" "list_all er_scans (eb_rows db)" "0 \<le> offset" "ints_fit (bq_args (browse_where low flt))"
  shows "QueryBrowserEvents low browse_up (Some db) flt l offset =
    (let rest = drop (nat offset) (listing low db flt) in
     Inr \<lparr>br_Events = map (browser_event_of db) (take (nat (page_limit l)) rest),
       br_Total = int (length (listing low db flt)), br_Limit = page_limit l, br_Offset = offset,
       br_HasMore = (page_limit l < int (length rest))\<rparr>)"
proof -
  let ?L = "page_limit l" and ?rest = "drop (nat offset) (listing low db flt)"
  have L: "(if (if l \<le> 0 then 50 else l) > 200 then 200 else (if l \<le> 0 then 50 else l)) = ?L" by (simp add: page_limit_def)
  have "list_all er_scans (take (nat (?L + 1)) ?rest)"
    using assms by (simp add: listing_scans list_all_take_drop)
  then have sc: "scanned (map (\<lambda>r. if er_scans r then Some r else None) (take (nat (?L + 1)) ?rest)) = take (nat (?L + 1)) ?rest"
    by (rule scanned_all)
  have p: "0 \<le> ?L" "0 \<le> ?L + 1" using page_limit_bounds [of l] by simp_all
  have ev: "(if ?L < int (length (map (browser_event_of db) (take (nat (?L + 1)) ?rest)))
      then take (nat ?L) (map (browser_event_of db) (take (nat (?L + 1)) ?rest)) else map (browser_event_of db) (take (nat (?L + 1)) ?rest)) =
      map (browser_event_of db) (take (nat ?L) ?rest)"
    using one_row_more(1) [OF p(1), of "map (browser_event_of db) ?rest"] by (simp add: take_map)
  have more: "(?L < int (length (map (browser_event_of db) (take (nat (?L + 1)) ?rest)))) = (?L < int (length ?rest))"
    using one_row_more(2) [OF p(1), of ?rest] by simp
  show ?thesis
    unfolding QueryBrowserEvents_def Let_def option.case L count_rows_wanted page_rows_listing [OF p(2) assms(3)]
    by (simp only: browse_up_def browse_faults.simps assms(4) simp_thms if_True option.case prod.case not_True_eq_False if_False sc ev [unfolded more] more length_listing [OF assms(1)])
qed

text \<open>Pages one after the other.\<close>

lemma pages_tile: "concat (map (\<lambda>k. take n (drop (k * n) xs)) [0..<m]) = take (m * n) xs"
proof (induction m)
  case (Suc m)
  have "take (Suc m * n) xs = take (m * n) xs @ take n (drop (m * n) xs)"
    by (metis add.commute mult_Suc take_add)
  with Suc show ?case by simp
qed simp

definition page_events :: "string + BrowserResult \<Rightarrow> browser_event list" where
  "page_events a = (case a of Inr b \<Rightarrow> br_Events b | Inl _ \<Rightarrow> [])"

theorem browser_pages_cover_the_listing:
  assumes "arranges (eb_arrange db)" "list_all er_scans (eb_rows db)"
    and "length (listing low db flt) \<le> m * nat (page_limit l)" "ints_fit (bq_args (browse_where low flt))"
  shows "concat (map (\<lambda>k. page_events (QueryBrowserEvents low browse_up (Some db) flt l (int k * page_limit l))) [0..<m]) =
    map (browser_event_of db) (listing low db flt)"
proof -
  have p: "page_events (QueryBrowserEvents low browse_up (Some db) flt l (int k * page_limit l)) =
      take (nat (page_limit l)) (drop (k * nat (page_limit l)) (map (browser_event_of db) (listing low db flt)))" for k
    using browser_page_spec [OF assms(1,2) _ assms(4), of "int k * page_limit l"] page_limit_bounds [of l]
    by (simp add: page_events_def Let_def nat_mult_distrib take_map drop_map)
  show ?thesis using assms(3) by (simp add: p pages_tile)
qed

section \<open>Statistics\<close>

record StatsResult =
  sr_TotalEvents :: int
  sr_DatabaseSize :: string
  sr_OldestEvent :: "int option"
  sr_NewestEvent :: "int option"
  sr_TopKinds :: "(int \<times> int) list"

text \<open>Which statements answer; the size as the database prints it; the order of groups of one size.\<close>

record stats_env =
  total_answers :: bool
  size_answer :: "string option"
  oldest_answers :: bool
  newest_answers :: bool
  kinds_answer :: bool
  kind_scans :: "int \<times> int \<Rightarrow> bool"
  kind_arrange :: "(int \<times> int) list \<Rightarrow> (int \<times> int) list"

definition created_times :: "event_db \<Rightarrow> int list" where
  "created_times db = map (\<lambda>r. ev_created_at (er_event r)) (eb_rows db)"

text \<open>\<open>MIN\<close> and \<open>MAX\<close>; of no rows they are null.\<close>

definition sql_min :: "int list \<Rightarrow> int option" where
  "sql_min xs = (if xs = [] then None else Some (foldr min xs (hd xs)))"

definition sql_max :: "int list \<Rightarrow> int option" where
  "sql_max xs = (if xs = [] then None else Some (foldr max xs (hd xs)))"

definition top_kinds :: "stats_env \<Rightarrow> nat \<Rightarrow> event_db \<Rightarrow> (int \<times> int) list" where
  "top_kinds env n db = filter (kind_scans env) (top_counts (kind_arrange env) n (map (\<lambda>r. ev_kind (er_event r)) (eb_rows db)))"

definition QueryStats :: "stats_env \<Rightarrow> event_db option \<Rightarrow> string + StatsResult" where
  "QueryStats env store =
     (case store of None \<Rightarrow> Inl ''database not available'' | Some db \<Rightarrow>
        if \<not> total_answers env then Inl ''event count failed''
        else Inr
          \<lparr>sr_TotalEvents = int (length (eb_rows db)),
           sr_DatabaseSize = (case size_answer env of Some t \<Rightarrow> t | None \<Rightarrow> ''''),
           sr_OldestEvent = (if oldest_answers env then sql_min (created_times db) else None),
           sr_NewestEvent = (if newest_answers env then sql_max (created_times db) else None),
           sr_TopKinds = (if kinds_answer env then top_kinds env 10 db else [])\<rparr>)"

subsection \<open>The console's statistics\<close>

definition kind_names :: "(int \<times> string) list" where
  "kind_names =
     [(0, ''Metadata''), (1, ''Text Note''), (3, ''Contacts''), (4, ''DM (NIP-04)''), (5, ''Deletion''), (6, ''Repost''),
      (7, ''Reaction''), (13, ''Seal''), (14, ''Chat (NIP-17)''), (15, ''File (NIP-17)''), (1059, ''Gift Wrap''),
      (1060, ''Gift Wrap Alt''), (1985, ''Label''), (9735, ''Zap Receipt''), (10002, ''Relay List''), (10050, ''DM Relay List''),
      (22242, ''Auth''), (24133, ''NIP-46''), (30023, ''Long-form'')]"

definition named_range :: "string \<Rightarrow> int \<Rightarrow> string" where
  "named_range name kind = name @ '' ('' @ fmt_d kind @ '')''"

definition kindToName :: "int \<Rightarrow> string" where
  "kindToName kind =
     (case map_of kind_names kind of Some name \<Rightarrow> name
      | None \<Rightarrow>
          if kind \<ge> 10000 \<and> kind < 20000 then named_range ''Replaceable'' kind
          else if kind \<ge> 20000 \<and> kind < 30000 then named_range ''Ephemeral'' kind
          else if kind \<ge> 30000 \<and> kind < 40000 then named_range ''Param. Repl.'' kind
          else if kind \<ge> 9000 \<and> kind < 9100 then named_range ''Group Admin'' kind
          else if kind \<ge> 39000 \<and> kind < 40000 then named_range ''Group Meta'' kind
          else ''Kind '' @ fmt_d kind)"

text \<open>A duration in nanoseconds; the hours and minutes, floating-point numbers in the code, are exact here.\<close>

definition formatUptime :: "int \<Rightarrow> string" where
  "formatUptime d =
     (let hours_all = d div (3600 * ns_per_sec);
          days = hours_all div 24; hours = hours_all mod 24; mins = (d div (60 * ns_per_sec)) mod 60
      in if days > 0 then fmt_d days @ ''d '' @ fmt_d hours @ ''h '' @ fmt_d mins @ ''m''
         else if hours > 0 then fmt_d hours @ ''h '' @ fmt_d mins @ ''m''
         else fmt_d mins @ ''m'')"

text \<open>The pool's own counters, in the order of \<open>sql.DBStats\<close>.\<close>

record pool_stats =
  po_OpenConnections :: int
  po_InUse :: int
  po_Idle :: int
  po_WaitCount :: int
  po_WaitDuration :: int
  po_MaxOpenConnections :: int

record KindCount =
  kc_Kind :: int
  kc_Name :: string
  kc_Count :: int

record ConnectionStatsData =
  cs_TotalConnections :: int
  cs_ActiveConnections :: int
  cs_EventsReceived :: int
  cs_EventsStored :: int
  cs_EventsRejected :: int
  cs_QueriesTotal :: int
  cs_QueriesRejected :: int
  cs_DB :: pool_stats
  cs_DBMaxIdleConns :: int
  cs_TopKinds :: "KindCount list"
  cs_TotalEvents :: int
  cs_DatabaseSize :: string
  cs_OldestEvent :: "int option"
  cs_NewestEvent :: "int option"
  cs_Uptime :: string
  cs_StartTime :: int
  cs_LastUpdated :: int

definition no_pool :: pool_stats where
  "no_pool = \<lparr>po_OpenConnections = 0, po_InUse = 0, po_Idle = 0, po_WaitCount = 0, po_WaitDuration = 0, po_MaxOpenConnections = 0\<rparr>"

definition getTopKinds :: "stats_env \<Rightarrow> event_db \<Rightarrow> nat \<Rightarrow> KindCount list" where
  "getTopKinds env db n =
     (if \<not> kinds_answer env then []
      else map (\<lambda>(k, c). \<lparr>kc_Kind = k, kc_Name = kindToName k, kc_Count = c\<rparr>) (top_kinds env n db))"

definition buildConnectionStats :: "stats_env \<Rightarrow> pool_stats \<Rightarrow> event_db option \<Rightarrow> int \<Rightarrow> int \<Rightarrow> ConnectionStatsData" where
  "buildConnectionStats env pool store start now =
     (let data = \<lparr>cs_TotalConnections = 0, cs_ActiveConnections = 0, cs_EventsReceived = 0, cs_EventsStored = 0, cs_EventsRejected = 0,
            cs_QueriesTotal = 0, cs_QueriesRejected = 0, cs_DB = no_pool, cs_DBMaxIdleConns = 0, cs_TopKinds = [], cs_TotalEvents = 0,
            cs_DatabaseSize = '''', cs_OldestEvent = None, cs_NewestEvent = None, cs_Uptime = formatUptime (now - start),
            cs_StartTime = start, cs_LastUpdated = now\<rparr>
      in case store of None \<Rightarrow> data | Some db \<Rightarrow>
        let n = (if total_answers env then int (length (eb_rows db)) else 0) in
        data\<lparr>cs_DB := pool, cs_TotalEvents := n, cs_EventsStored := n,
          cs_DatabaseSize := (case size_answer env of Some t \<Rightarrow> t | None \<Rightarrow> ''''),
          cs_OldestEvent := (if oldest_answers env then sql_min (created_times db) else None),
          cs_NewestEvent := (if newest_answers env then sql_max (created_times db) else None),
          cs_TopKinds := getTopKinds env db 10\<rparr>)"

text \<open>Facts.\<close>

lemma foldr_min: "foldr min xs a = Min (insert a (set xs))" for a :: int
  by (induction xs) (simp_all add: insert_commute)

lemma foldr_max: "foldr max xs a = Max (insert a (set xs))" for a :: int
  by (induction xs) (simp_all add: insert_commute)

lemma sql_min_Min: "sql_min xs = (if xs = [] then None else Some (Min (set xs)))"
  by (cases xs) (simp_all add: sql_min_def foldr_min insert_absorb)

lemma sql_max_Max: "sql_max xs = (if xs = [] then None else Some (Max (set xs)))"
  by (cases xs) (simp_all add: sql_max_def foldr_max insert_absorb)

text \<open>Group metadata has a name of its own that no kind gets.\<close>

lemma named_kinds: "map_of kind_names k = Some n \<Longrightarrow> k < 30024"
  using map_of_SomeD [of kind_names k n] by (auto simp: kind_names_def)

theorem group_metadata_is_called_replaceable:
  assumes "39000 \<le> k" "k < 40000"
  shows "kindToName k = named_range ''Param. Repl.'' k"
proof -
  have "map_of kind_names k = None" using assms named_kinds [of k] by (cases "map_of kind_names k") auto
  with assms show ?thesis by (simp add: kindToName_def)
qed

lemma group_metadata_is_called_replaceable_witness: "kindToName 39000 = named_range ''Param. Repl.'' 39000"
  by (rule group_metadata_is_called_replaceable) simp_all

section \<open>The follow graph\<close>

record follow_row =
  fw_follower :: string
  fw_followee :: string
  fw_updated :: int

text \<open>
  The table of follows in the order the database returns it. \<open>fd_groups\<close> and \<open>fd_recent\<close> order what \<open>ORDER BY\<close>
  leaves open, \<open>fd_shuffle\<close> is the order of a Go map.
\<close>

record follow_db =
  fd_rows :: "follow_row list"
  fd_scans :: "follow_row \<Rightarrow> bool"
  fd_groups :: "(string \<times> int) list \<Rightarrow> (string \<times> int) list"
  fd_recent :: "follow_row list \<Rightarrow> follow_row list"
  fd_shuffle :: "string list \<Rightarrow> string list"

record follow_faults =
  edges_answer :: bool
  edges_end_well :: bool
  owner_answers :: bool
  follows_counted :: bool
  pubkeys_counted :: bool
  followed_answers :: bool
  followers_answer :: bool
  recent_answers :: bool

record WoTNode =
  wn_ID :: string
  wn_Display :: string
  wn_TrustLevel :: int
  wn_Size :: int

type_synonym WoTLink = "string \<times> string"

record WoTGraph =
  wg_Nodes :: "WoTNode list"
  wg_Links :: "WoTLink list option"

definition wotTruncatePubkey :: "string \<Rightarrow> string" where
  "wotTruncatePubkey pk = (if length pk \<le> 16 then pk else take 8 pk @ ''...'' @ drop (length pk - 8) pk)"

record graph_build =
  gb_counts :: "string \<Rightarrow> int"
  gb_nodes :: "string list"
  gb_links :: "WoTLink list"

definition add_node :: "string \<Rightarrow> string list \<Rightarrow> string list" where
  "add_node k ns = (if k \<in> set ns then ns else ns @ [k])"

definition add_edge :: "follow_row \<Rightarrow> graph_build \<Rightarrow> graph_build" where
  "add_edge r g =
     \<lparr>gb_counts = (gb_counts g)(fw_followee r := gb_counts g (fw_followee r) + 1),
      gb_nodes = add_node (fw_followee r) (add_node (fw_follower r) (gb_nodes g)),
      gb_links = gb_links g @ [(fw_follower r, fw_followee r)]\<rparr>"

definition no_graph :: graph_build where
  "no_graph = \<lparr>gb_counts = (\<lambda>_. 0), gb_nodes = [], gb_links = []\<rparr>"

definition owner_follows :: "follow_faults \<Rightarrow> follow_db \<Rightarrow> string \<Rightarrow> string \<Rightarrow> bool" where
  "owner_follows f db owner k \<longleftrightarrow> owner \<noteq> '''' \<and> owner_answers f \<and>
     list_ex (\<lambda>r. fw_follower r = owner \<and> fd_scans db r \<and> fw_followee r = k) (fd_rows db)"

definition graph_node :: "string \<Rightarrow> (string \<Rightarrow> bool) \<Rightarrow> (string \<Rightarrow> int) \<Rightarrow> string \<Rightarrow> WoTNode" where
  "graph_node owner followed counts k =
     \<lparr>wn_ID = k, wn_Display = wotTruncatePubkey k,
      wn_TrustLevel = (if k = owner then 0 else if followed k then 1 else 2),
      wn_Size = (let size = counts k + 5 in if size > 30 then 30 else size)\<rparr>"

text \<open>The rows that come before an error of the iteration are used by the console, and given up by the API.\<close>

definition graph_edges :: "follow_db \<Rightarrow> follow_row list" where
  "graph_edges db = filter (fd_scans db) (take 500 (fd_rows db))"

definition built_graph :: "follow_faults \<Rightarrow> follow_db \<Rightarrow> string \<Rightarrow> WoTGraph" where
  "built_graph f db owner =
     (let g = fold add_edge (graph_edges db) no_graph in
      \<lparr>wg_Nodes = map (graph_node owner (owner_follows f db owner) (gb_counts g)) (fd_shuffle db (gb_nodes g)),
       wg_Links = (if gb_links g = [] then None else Some (gb_links g))\<rparr>)"

text \<open>The links are a Go slice that is nil as long as nothing is appended: \<open>None\<close>, which JSON writes as null.\<close>

definition QueryWoTGraph :: "follow_faults \<Rightarrow> follow_db option \<Rightarrow> string \<Rightarrow> string + WoTGraph" where
  "QueryWoTGraph f store owner =
     (case store of None \<Rightarrow> Inl ''database not available'' | Some db \<Rightarrow>
        if \<not> edges_answer f then Inr \<lparr>wg_Nodes = [], wg_Links = Some []\<rparr>
        else if \<not> edges_end_well f then Inl ''rows failed''
        else Inr (built_graph f db owner))"

definition buildWoTGraph :: "follow_faults \<Rightarrow> follow_db option \<Rightarrow> string option \<Rightarrow> WoTGraph" where
  "buildWoTGraph f store config_owner =
     (case store of None \<Rightarrow> \<lparr>wg_Nodes = [], wg_Links = Some []\<rparr> | Some db \<Rightarrow>
        let owner = (case config_owner of Some ow \<Rightarrow> ow | None \<Rightarrow> '''') in
        if \<not> edges_answer f then \<lparr>wg_Nodes = [], wg_Links = Some []\<rparr>
        else built_graph f db owner)"

subsection \<open>Counts\<close>

record WoTStats =
  ws_Enabled :: bool
  ws_OwnerPubkey :: string
  ws_TotalFollows :: int
  ws_UniquePubkeys :: int
  ws_TopFollowed :: "(string \<times> int) list"
  ws_TopFollowers :: "(string \<times> int) list"
  ws_RecentFollows :: "(string \<times> string) list"

definition all_pubkeys :: "follow_db \<Rightarrow> string list" where
  "all_pubkeys db = remdups (map fw_follower (fd_rows db) @ map fw_followee (fd_rows db))"

definition recent_follows :: "follow_db \<Rightarrow> nat \<Rightarrow> (string \<times> string) list" where
  "recent_follows db n =
     map (\<lambda>r. (fw_follower r, fw_followee r)) (filter (fd_scans db) (take n (sort_key (\<lambda>r. - fw_updated r) (fd_recent db (fd_rows db)))))"

definition QueryWoTStats :: "follow_faults \<Rightarrow> follow_db option \<Rightarrow> string \<Rightarrow> string + WoTStats" where
  "QueryWoTStats f store owner =
     (case store of None \<Rightarrow> Inl ''database not available'' | Some db \<Rightarrow>
        Inr \<lparr>ws_Enabled = (owner \<noteq> ''''), ws_OwnerPubkey = owner,
          ws_TotalFollows = (if follows_counted f then int (length (fd_rows db)) else 0),
          ws_UniquePubkeys = (if pubkeys_counted f then int (length (all_pubkeys db)) else 0),
          ws_TopFollowed = (if followed_answers f then top_counts (fd_groups db) 10 (map fw_followee (fd_rows db)) else []),
          ws_TopFollowers = (if followers_answer f then top_counts (fd_groups db) 10 (map fw_follower (fd_rows db)) else []),
          ws_RecentFollows = (if recent_answers f then recent_follows db 10 else [])\<rparr>)"

text \<open>The console's page: the same with short names; its table of levels is never filled.\<close>

record WoTVisualizationData =
  wv_Enabled :: bool
  wv_OwnerPubkey :: string
  wv_OwnerDisplay :: string
  wv_TotalFollows :: int
  wv_UniquePubkeys :: int
  wv_TrustDistribution :: "(int \<times> string \<times> int) list"
  wv_TopFollowed :: "(string \<times> string \<times> int) list"
  wv_TopFollowers :: "(string \<times> string \<times> int) list"
  wv_RecentFollows :: "(string \<times> string \<times> string \<times> string) list"

definition getTopFollowed :: "follow_faults \<Rightarrow> follow_db \<Rightarrow> nat \<Rightarrow> (string \<times> string \<times> int) list" where
  "getTopFollowed f db n =
     (if followed_answers f
      then map (\<lambda>(k, c). (k, admin_truncatePubkey k, c)) (top_counts (fd_groups db) n (map fw_followee (fd_rows db))) else [])"

definition getTopFollowers :: "follow_faults \<Rightarrow> follow_db \<Rightarrow> nat \<Rightarrow> (string \<times> string \<times> int) list" where
  "getTopFollowers f db n =
     (if followers_answer f
      then map (\<lambda>(k, c). (k, admin_truncatePubkey k, c)) (top_counts (fd_groups db) n (map fw_follower (fd_rows db))) else [])"

definition getRecentFollows :: "follow_faults \<Rightarrow> follow_db \<Rightarrow> nat \<Rightarrow> (string \<times> string \<times> string \<times> string) list" where
  "getRecentFollows f db n =
     (if recent_answers f
      then map (\<lambda>(a, b). (a, admin_truncatePubkey a, b, admin_truncatePubkey b)) (recent_follows db n) else [])"

definition buildWoTVisualization :: "follow_faults \<Rightarrow> follow_db option \<Rightarrow> string option \<Rightarrow> WoTVisualizationData" where
  "buildWoTVisualization f store config_owner =
     (let data = \<lparr>wv_Enabled = False, wv_OwnerPubkey = '''', wv_OwnerDisplay = '''', wv_TotalFollows = 0, wv_UniquePubkeys = 0,
            wv_TrustDistribution = [], wv_TopFollowed = [], wv_TopFollowers = [], wv_RecentFollows = []\<rparr>;
          data = (case config_owner of
              Some ow \<Rightarrow> if ow \<noteq> '''' then data\<lparr>wv_Enabled := True, wv_OwnerPubkey := ow, wv_OwnerDisplay := admin_truncatePubkey ow\<rparr> else data
            | None \<Rightarrow> data)
      in case store of None \<Rightarrow> data | Some db \<Rightarrow>
        data\<lparr>wv_TotalFollows := (if follows_counted f then int (length (fd_rows db)) else 0),
          wv_UniquePubkeys := (if pubkeys_counted f then int (length (all_pubkeys db)) else 0),
          wv_TopFollowed := getTopFollowed f db 10, wv_TopFollowers := getTopFollowers f db 10,
          wv_RecentFollows := getRecentFollows f db 10\<rparr>)"

subsection \<open>What the graph shows\<close>

lemma add_node_set [simp]: "set (add_node k ns) = insert k (set ns)"
  by (auto simp: add_node_def)

lemma add_node_distinct [simp]: "distinct (add_node k ns) = distinct ns"
  by (auto simp: add_node_def)

lemma fold_add_edge:
  "gb_counts (fold add_edge rs g) k = gb_counts g k + int (count_list (map fw_followee rs) k)"
  "set (gb_nodes (fold add_edge rs g)) = set (gb_nodes g) \<union> fw_follower ` set rs \<union> fw_followee ` set rs"
  "distinct (gb_nodes (fold add_edge rs g)) = distinct (gb_nodes g)"
  "gb_links (fold add_edge rs g) = gb_links g @ map (\<lambda>r. (fw_follower r, fw_followee r)) rs"
  by (induction rs arbitrary: g) (auto simp: add_edge_def)

lemma count_list_map: "count_list (map f xs) k = length (filter (\<lambda>r. f r = k) xs)"
  by (induction xs) auto

definition node_faithful :: "(string \<Rightarrow> bool) \<Rightarrow> string \<Rightarrow> follow_row list \<Rightarrow> WoTNode \<Rightarrow> bool" where
  "node_faithful followed owner es n \<longleftrightarrow>
     wn_Size n = min 30 (int (length (filter (\<lambda>r. fw_followee r = wn_ID n) es)) + 5) \<and>
     wn_TrustLevel n = (if wn_ID n = owner then 0 else if followed (wn_ID n) then 1 else 2)"

lemma graph_node_faithful:
  "counts k = int (count_list (map fw_followee es) k) \<Longrightarrow> node_faithful followed owner es (graph_node owner followed counts k)"
  by (simp add: node_faithful_def graph_node_def count_list_map)

lemma built_graph_ids: "map wn_ID (wg_Nodes (built_graph f db owner)) = fd_shuffle db (gb_nodes (fold add_edge (graph_edges db) no_graph))"
  by (simp add: built_graph_def Let_def graph_node_def comp_def)

theorem graph_shows_each_key_once:
  assumes "edges_answer f" "edges_end_well f" "arranges (fd_shuffle db)"
  shows "case QueryWoTGraph f (Some db) owner of
      Inl _ \<Rightarrow> False
    | Inr g \<Rightarrow>
        distinct (map wn_ID (wg_Nodes g)) \<and>
        set (map wn_ID (wg_Nodes g)) = fw_follower ` set (graph_edges db) \<union> fw_followee ` set (graph_edges db) \<and>
        case_option [] (\<lambda>l. l) (wg_Links g) = map (\<lambda>r. (fw_follower r, fw_followee r)) (graph_edges db) \<and>
        list_all (node_faithful (owner_follows f db owner) owner (graph_edges db)) (wg_Nodes g)"
proof -
  let ?b = "fold add_edge (graph_edges db) no_graph"
  let ?g = "built_graph f db owner"
  have q: "QueryWoTGraph f (Some db) owner = Inr ?g" using assms by (simp add: QueryWoTGraph_def)
  have m: "mset (fd_shuffle db (gb_nodes ?b)) = mset (gb_nodes ?b)" using assms(3) by (rule arranges_mset)
  have "distinct (map wn_ID (wg_Nodes ?g))"
    unfolding built_graph_ids using mset_eq_imp_distinct_iff [OF m] by (simp add: fold_add_edge(3) no_graph_def)
  moreover have "set (map wn_ID (wg_Nodes ?g)) = fw_follower ` set (graph_edges db) \<union> fw_followee ` set (graph_edges db)"
    unfolding built_graph_ids by (simp add: arranges_set [OF assms(3)] fold_add_edge(2) no_graph_def)
  moreover have "case_option [] (\<lambda>l. l) (wg_Links ?g) = map (\<lambda>r. (fw_follower r, fw_followee r)) (graph_edges db)"
    by (simp add: built_graph_def Let_def fold_add_edge(4) no_graph_def)
  moreover have "list_all (node_faithful (owner_follows f db owner) owner (graph_edges db)) (wg_Nodes ?g)"
    by (simp add: built_graph_def Let_def list_all_iff graph_node_faithful fold_add_edge(1) no_graph_def)
  ultimately show ?thesis by (simp add: q)
qed

text \<open>
  The levels shown are those of the trust calculator with the owner as its root, where it has the levels 0 and 1; the
  calculator tells the keys of level 2 from the unknown ones, the graph does not.
\<close>

definition table_of :: "wot_store \<Rightarrow> follow_db \<Rightarrow> bool" where
  "table_of s db \<longleftrightarrow> (\<forall>a b. b \<in> set (follows s a) \<longleftrightarrow> (\<exists>r \<in> set (fd_rows db). fw_follower r = a \<and> fw_followee r = b))"

theorem graph_levels_are_trust_levels:
  assumes "table_of s db" "list_all (fd_scans db) (fd_rows db)" "owner \<noteq> ''''" "owner_answers f"
  shows "wn_TrustLevel (graph_node owner (owner_follows f db owner) counts k) =
    min 2 (level_number (calculateTrustLevel no_graph_faults s [owner] depth k))"
proof -
  have "owner_follows f db owner k \<longleftrightarrow> k \<in> set (follows s owner)"
    using assms by (auto simp: owner_follows_def table_of_def list_all_iff list_ex_iff)
  then show ?thesis
    by (simp add: graph_node_def calculateTrustLevel_def followed_by_any_iff no_graph_faults_def)
qed

section \<open>HAVEN\<close>

record blastr_counts =
  bs_EventsBroadcast :: int
  bs_EventsFailed :: int
  bs_RelaysConnected :: int
  bs_LastBroadcast :: "int option"
  bs_RetryQueueSize :: int
  bs_EventsRetried :: int
  bs_RetriesExhausted :: int

record importer_counts =
  is_EventsImported :: int
  is_EventsSkipped :: int
  is_FetchErrors :: int
  is_RelaysPolled :: int
  is_LastImport :: "int option"
  is_LastPollTime :: "int option"

text \<open>The configuration that the pages read: that of \<open>Admin_Console\<close> with its switch.\<close>

record full_haven = admin_haven +
  ah_Enabled :: bool

text \<open>The running system, its workers' counters where there are workers. A zero time is \<open>None\<close>.\<close>

record HavenSystem =
  hy_Blastr :: "blastr_counts option"
  hy_Importer :: "importer_counts option"
  hy_Subscriber :: bool

definition no_blastr_counts :: blastr_counts where
  "no_blastr_counts = \<lparr>bs_EventsBroadcast = 0, bs_EventsFailed = 0, bs_RelaysConnected = 0, bs_LastBroadcast = None,
     bs_RetryQueueSize = 0, bs_EventsRetried = 0, bs_RetriesExhausted = 0\<rparr>"

definition no_importer_counts :: importer_counts where
  "no_importer_counts = \<lparr>is_EventsImported = 0, is_EventsSkipped = 0, is_FetchErrors = 0, is_RelaysPolled = 0,
     is_LastImport = None, is_LastPollTime = None\<rparr>"

text \<open>Which workers are started; \<open>can_store\<close> says whether the process passes a function to store with.\<close>

definition RegisterFullSystem :: "full_haven option \<Rightarrow> bool \<Rightarrow> HavenSystem option" where
  "RegisterFullSystem c can_store =
     (case c of None \<Rightarrow> None | Some cfg \<Rightarrow>
        if \<not> ah_Enabled cfg then None
        else Some
          \<lparr>hy_Blastr = (if ah_BlastrEnabled cfg \<and> ah_BlastrRelays cfg \<noteq> [] then Some no_blastr_counts else None),
           hy_Importer = (if ah_ImporterEnabled cfg \<and> ah_ImporterRelays cfg \<noteq> [] \<and> can_store then Some no_importer_counts else None),
           hy_Subscriber = (ah_ImporterRealtimeEnabled cfg \<and> ah_ImporterRelays cfg \<noteq> [] \<and> can_store)\<rparr>)"

text \<open>The configurations of the two modes of the process, and what its pages and its API get as system and configuration.\<close>

definition members_haven :: "haven_settings \<Rightarrow> full_haven" where
  "members_haven s =
     \<lparr>ah_OwnerPubkey = '''', ah_AllowPublicOutboxRead = HavenAllowPublicOutboxRead s,
      ah_AllowPublicInboxWrite = HavenAllowPublicInboxWrite s, ah_RequireAuthForChat = HavenRequireAuthForChat s,
      ah_RequireAuthForPrivate = HavenRequireAuthForPrivate s, ah_BlastrEnabled = False, ah_BlastrRelays = [],
      ah_ImporterEnabled = False, ah_ImporterRelays = [], ah_ImporterRealtimeEnabled = False, ah_Enabled = True\<rparr>"

definition owner_haven :: "haven_settings \<Rightarrow> full_haven" where
  "owner_haven s =
     \<lparr>ah_OwnerPubkey = HavenOwnerPubkey s, ah_AllowPublicOutboxRead = HavenAllowPublicOutboxRead s,
      ah_AllowPublicInboxWrite = HavenAllowPublicInboxWrite s, ah_RequireAuthForChat = HavenRequireAuthForChat s,
      ah_RequireAuthForPrivate = HavenRequireAuthForPrivate s, ah_BlastrEnabled = HavenBlastrEnabled s,
      ah_BlastrRelays = HavenBlastrRelays s, ah_ImporterEnabled = HavenImporterEnabled s,
      ah_ImporterRelays = HavenImporterRelays s, ah_ImporterRealtimeEnabled = HavenImporterRealtimeEnabled s, ah_Enabled = True\<rparr>"

definition main_haven :: "haven_settings \<Rightarrow> HavenSystem option \<times> full_haven option" where
  "main_haven s =
     (if HavenMultiUserEnabled s then (None, Some (members_haven s))
      else if HavenEnabled s \<and> HavenOwnerPubkey s \<noteq> '''' then (RegisterFullSystem (Some (owner_haven s)) True, Some (owner_haven s))
      else (None, None))"

text \<open>\<open>Stats\<close>: a map with an entry for every worker there is.\<close>

datatype worker_stats = BlastrStats blastr_counts | ImporterStats importer_counts | SubscriberStats

definition haven_Stats :: "HavenSystem \<Rightarrow> string \<Rightarrow> worker_stats option" where
  "haven_Stats s =
     (let m = Map.empty;
          m = (case hy_Blastr s of Some b \<Rightarrow> m(''blastr'' \<mapsto> BlastrStats b) | None \<Rightarrow> m);
          m = (case hy_Importer s of Some i \<Rightarrow> m(''importer'' \<mapsto> ImporterStats i) | None \<Rightarrow> m);
          m = (if hy_Subscriber s then m(''subscriber'' \<mapsto> SubscriberStats) else m)
      in m)"

subsection \<open>The console's page\<close>

definition formatDuration :: "int \<Rightarrow> string \<Rightarrow> string" where
  "formatDuration n unit = (if n = 1 then ''1 '' @ unit @ '' ago'' else fmt_d n @ '' '' @ unit @ ''s ago'')"

definition formatTimeSince :: "int \<Rightarrow> int option \<Rightarrow> string" where
  "formatTimeSince now t =
     (case t of None \<Rightarrow> ''-'' | Some t \<Rightarrow>
        let d = now - t in
        if d < 60 * ns_per_sec then ''just now''
        else if d < 3600 * ns_per_sec then
          let mins = d div (60 * ns_per_sec) in if mins = 1 then ''1 minute ago'' else formatDuration mins ''minute''
        else if d < 24 * 3600 * ns_per_sec then
          let hours = d div (3600 * ns_per_sec) in if hours = 1 then ''1 hour ago'' else formatDuration hours ''hour''
        else let days = d div (24 * 3600 * ns_per_sec) in if days = 1 then ''1 day ago'' else formatDuration days ''day'')"

record HavenPageData =
  hp_Config :: "full_haven option"
  hp_OwnerDisplay :: string
  hp_HasStats :: bool
  hp_BlastrStats :: "(int \<times> int \<times> int \<times> string) option"
  hp_ImporterStats :: "(int \<times> int \<times> int \<times> int \<times> string \<times> string) option"
  hp_SystemStats :: "(string \<Rightarrow> worker_stats option) option"

definition buildHavenPageData :: "HavenSystem option \<Rightarrow> full_haven option \<Rightarrow> int \<Rightarrow> HavenPageData" where
  "buildHavenPageData sys c now =
     (let data = \<lparr>hp_Config = None, hp_OwnerDisplay = '''', hp_HasStats = False, hp_BlastrStats = None, hp_ImporterStats = None,
            hp_SystemStats = None\<rparr>
      in case c of None \<Rightarrow> data | Some cfg \<Rightarrow>
        let data = data\<lparr>hp_Config := Some cfg, hp_OwnerDisplay := admin_truncatePubkey (ah_OwnerPubkey cfg)\<rparr>
        in case sys of None \<Rightarrow> data | Some s \<Rightarrow>
          let stats = haven_Stats s in
          data\<lparr>hp_HasStats := True, hp_SystemStats := Some stats,
            hp_BlastrStats := (case stats ''blastr'' of
                Some (BlastrStats b) \<Rightarrow>
                  Some (bs_EventsBroadcast b, bs_EventsFailed b, bs_RelaysConnected b, formatTimeSince now (bs_LastBroadcast b))
              | _ \<Rightarrow> None),
            hp_ImporterStats := (case stats ''importer'' of
                Some (ImporterStats i) \<Rightarrow>
                  Some (is_EventsImported i, is_EventsSkipped i, is_FetchErrors i, is_RelaysPolled i,
                    formatTimeSince now (is_LastImport i), formatTimeSince now (is_LastPollTime i))
              | _ \<Rightarrow> None)\<rparr>)"

section \<open>The REST API\<close>

record HavenBlastrResult =
  hb_EventsBroadcast :: int
  hb_EventsFailed :: int
  hb_RelaysConnected :: int
  hb_LastBroadcast :: "string option"

record HavenImporterResult =
  hi_EventsImported :: int
  hi_EventsSkipped :: int
  hi_FetchErrors :: int
  hi_RelaysPolled :: int
  hi_LastImport :: "string option"
  hi_LastPollTime :: "string option"

record HavenStatsResult =
  hr_Enabled :: bool
  hr_Blastr :: "HavenBlastrResult option"
  hr_Importer :: "HavenImporterResult option"

datatype api_reply =
    Unauthorized nip98_error
  | ApiMethodNotAllowed
  | InternalError string
  | ApiEvents BrowserResult
  | ApiStats StatsResult
  | ApiGraph WoTGraph
  | ApiWoTStats WoTStats
  | ApiHaven HavenStatsResult
  | NoSuchRoute

text \<open>What the API reads: the tables, the answers of their statements, HAVEN, and the text of a time in RFC 3339.\<close>

record api_world =
  aw_events :: "event_db option"
  aw_browse :: browse_faults
  aw_stats :: stats_env
  aw_follows :: "follow_db option"
  aw_follow_faults :: follow_faults
  aw_system :: "HavenSystem option"
  aw_config :: "full_haven option"
  aw_rfc3339 :: "int \<Rightarrow> string"

definition get_only :: "http_request \<Rightarrow> api_reply \<Rightarrow> api_reply" where
  "get_only h a = (if rq_method h \<noteq> ''GET'' then ApiMethodNotAllowed else a)"

definition api_handleEvents :: "admin_lib \<Rightarrow> api_world \<Rightarrow> admin_request \<Rightarrow> api_reply" where
  "api_handleEvents lib w r = get_only (ar_http r)
     (let q = ar_query r;
          filters = \<lparr>bf_Pubkey = TrimSpace (q ''pubkey''), bf_Kind = TrimSpace (q ''kind''), bf_Search = TrimSpace (q ''search''),
            bf_StartDate = TrimSpace (q ''start''), bf_EndDate = TrimSpace (q ''end'')\<rparr>;
          limit = (if q ''limit'' \<noteq> '''' then (case Atoi (q ''limit'') of Some v \<Rightarrow> if v > 0 then v else 50 | None \<Rightarrow> 50) else 50);
          offset = (if q ''offset'' \<noteq> '''' then (case Atoi (q ''offset'') of Some v \<Rightarrow> if v \<ge> 0 then v else 0 | None \<Rightarrow> 0) else 0)
      in case QueryBrowserEvents (al_ToLower lib) (aw_browse w) (aw_events w) filters limit offset of
           Inl e \<Rightarrow> InternalError e | Inr a \<Rightarrow> ApiEvents a)"

definition api_handleStats :: "api_world \<Rightarrow> admin_request \<Rightarrow> api_reply" where
  "api_handleStats w r = get_only (ar_http r)
     (case QueryStats (aw_stats w) (aw_events w) of Inl e \<Rightarrow> InternalError e | Inr a \<Rightarrow> ApiStats a)"

definition config_owner :: "full_haven option \<Rightarrow> string" where
  "config_owner c = (case c of Some cfg \<Rightarrow> ah_OwnerPubkey cfg | None \<Rightarrow> '''')"

definition api_handleWoTGraph :: "api_world \<Rightarrow> admin_request \<Rightarrow> api_reply" where
  "api_handleWoTGraph w r = get_only (ar_http r)
     (case QueryWoTGraph (aw_follow_faults w) (aw_follows w) (config_owner (aw_config w)) of Inl e \<Rightarrow> InternalError e | Inr a \<Rightarrow> ApiGraph a)"

definition api_handleWoTStats :: "api_world \<Rightarrow> admin_request \<Rightarrow> api_reply" where
  "api_handleWoTStats w r = get_only (ar_http r)
     (case QueryWoTStats (aw_follow_faults w) (aw_follows w) (config_owner (aw_config w)) of Inl e \<Rightarrow> InternalError e | Inr a \<Rightarrow> ApiWoTStats a)"

definition api_handleHavenStats :: "api_world \<Rightarrow> admin_request \<Rightarrow> api_reply" where
  "api_handleHavenStats w r = get_only (ar_http r)
     (case aw_system w of
        None \<Rightarrow> ApiHaven \<lparr>hr_Enabled = False, hr_Blastr = None, hr_Importer = None\<rparr>
      | Some s \<Rightarrow>
          let stats = haven_Stats s; t = map_option (aw_rfc3339 w) in
          ApiHaven \<lparr>hr_Enabled = True,
            hr_Blastr = (case stats ''blastr'' of
                Some (BlastrStats b) \<Rightarrow>
                  Some \<lparr>hb_EventsBroadcast = bs_EventsBroadcast b, hb_EventsFailed = bs_EventsFailed b,
                    hb_RelaysConnected = bs_RelaysConnected b, hb_LastBroadcast = t (bs_LastBroadcast b)\<rparr>
              | _ \<Rightarrow> None),
            hr_Importer = (case stats ''importer'' of
                Some (ImporterStats i) \<Rightarrow>
                  Some \<lparr>hi_EventsImported = is_EventsImported i, hi_EventsSkipped = is_EventsSkipped i,
                    hi_FetchErrors = is_FetchErrors i, hi_RelaysPolled = is_RelaysPolled i,
                    hi_LastImport = t (is_LastImport i), hi_LastPollTime = t (is_LastPollTime i)\<rparr>
              | _ \<Rightarrow> None)\<rparr>)"

definition requireNIP98 :: "admin_lib \<Rightarrow> string list \<Rightarrow> int \<Rightarrow> (admin_request \<Rightarrow> api_reply) \<Rightarrow> admin_request \<Rightarrow> api_reply" where
  "requireNIP98 lib admins now handler r =
     (case ValidateNIP98Auth (al_nostr lib) (al_nip98 lib) now (ar_http r) admins of Inl e \<Rightarrow> Unauthorized e | Inr _ \<Rightarrow> handler r)"

definition api_serve :: "admin_lib \<Rightarrow> string list \<Rightarrow> int \<Rightarrow> api_world \<Rightarrow> admin_request \<Rightarrow> api_reply" where
  "api_serve lib admins now w r =
     (if ar_path r = ''/api/admin/events'' then requireNIP98 lib admins now (api_handleEvents lib w) r
      else if ar_path r = ''/api/admin/stats'' then requireNIP98 lib admins now (api_handleStats w) r
      else if ar_path r = ''/api/admin/wot/graph'' then requireNIP98 lib admins now (api_handleWoTGraph w) r
      else if ar_path r = ''/api/admin/wot/stats'' then requireNIP98 lib admins now (api_handleWoTStats w) r
      else if ar_path r = ''/api/admin/haven/stats'' then requireNIP98 lib admins now (api_handleHavenStats w) r
      else NoSuchRoute)"

section \<open>Who sees what\<close>

definition api_filters :: "admin_request \<Rightarrow> BrowserFilter" where
  "api_filters r = parseEventFilters (ar_query r)"

definition api_limit :: "admin_request \<Rightarrow> int" where
  "api_limit r = (case Atoi (ar_query r ''limit'') of Some v \<Rightarrow> if v > 0 then v else 50 | None \<Rightarrow> 50)"

definition api_offset :: "admin_request \<Rightarrow> int" where
  "api_offset r = (case Atoi (ar_query r ''offset'') of Some v \<Rightarrow> if v \<ge> 0 then v else 0 | None \<Rightarrow> 0)"

lemma api_offset_nonneg: "0 \<le> api_offset r"
  by (simp add: api_offset_def split: option.split)

lemma api_handleEvents_eq:
  "api_handleEvents lib w r = get_only (ar_http r)
     (case QueryBrowserEvents (al_ToLower lib) (aw_browse w) (aw_events w) (api_filters r) (api_limit r) (api_offset r) of
        Inl e \<Rightarrow> InternalError e | Inr a \<Rightarrow> ApiEvents a)"
proof -
  have "(if q \<noteq> '''' then (case Atoi q of Some v \<Rightarrow> if P v then v else d | None \<Rightarrow> d) else d) =
      (case Atoi q of Some v \<Rightarrow> if P v then v else d | None \<Rightarrow> d)" for q P and d :: int by auto
  then show ?thesis
    by (simp only: api_handleEvents_def api_filters_def parseEventFilters_def api_limit_def api_offset_def Let_def)
qed

definition no_answer :: "api_reply \<Rightarrow> bool" where
  "no_answer a \<longleftrightarrow> a = NoSuchRoute \<or> (\<exists>e. a = Unauthorized e)"

lemma api_serve_authenticated:
  "\<not> no_answer (api_serve lib admins now w r) \<Longrightarrow>
   \<exists>pk. ValidateNIP98Auth (al_nostr lib) (al_nip98 lib) now (ar_http r) admins = Inr pk"
  by (auto simp: api_serve_def requireNIP98_def no_answer_def split: if_splits sum.splits)

lemma get_only_events [simp]: "get_only h a = ApiEvents b \<longleftrightarrow> rq_method h = ''GET'' \<and> a = ApiEvents b"
  by (simp add: get_only_def)

lemma api_serve_events:
  assumes "api_serve lib admins now w r = ApiEvents b"
  shows "ar_path r = ''/api/admin/events'' \<and> rq_method (ar_http r) = ''GET'' \<and>
    QueryBrowserEvents (al_ToLower lib) (aw_browse w) (aw_events w) (api_filters r) (api_limit r) (api_offset r) = Inr b"
  using assms
  by (auto simp: api_serve_def requireNIP98_def api_handleEvents_eq api_handleStats_def api_handleWoTGraph_def api_handleWoTStats_def
      api_handleHavenStats_def Let_def split: if_splits sum.splits option.splits)

text \<open>C29: The API shows events only to a request with a fresh NIP-98 event that one of the admins has signed
  for this URL and GET; what it then shows is the asked page of all events that match the filter, newest first, with
  their number and with the word whether more follow.\<close>

theorem listing_is_for_admins:
  assumes "api_serve lib admins now w r = ApiEvents b" "aw_events w = Some db" "aw_browse w = browse_up"
    and "arranges (eb_arrange db)" "list_all er_scans (eb_rows db)"
  shows "(\<exists>json ev. base64_decode (al_nip98 lib) (TrimPrefix (rq_auth (ar_http r)) ''Nostr '') = Some json \<and>
      event_of_json (al_nip98 lib) json = Some ev \<and> ev_kind ev = 27235 \<and> CheckSignature (al_nostr lib) ev = Some True \<and>
      ev_pubkey ev \<in> set admins \<and> \<bar>now - ev_created_at ev * ns_per_sec\<bar> \<le> 60 * ns_per_sec \<and>
      Tags_Find (al_nip98 lib) (ev_tags ev) ''u'' ! 1 = getRequestURL (ar_http r) \<and>
      ToUpper (al_nip98 lib) (Tags_Find (al_nip98 lib) (ev_tags ev) ''method'' ! 1) = ''GET'') \<and>
    (let all = listing (al_ToLower lib) db (api_filters r); rest = drop (nat (api_offset r)) all; n = page_limit (api_limit r) in
      br_Events b = map (browser_event_of db) (take (nat n) rest) \<and> br_Total b = int (length all) \<and>
      br_HasMore b = (n < int (length rest)))"
proof -
  have e: "rq_method (ar_http r) = ''GET''"
    "QueryBrowserEvents (al_ToLower lib) browse_up (Some db) (api_filters r) (api_limit r) (api_offset r) = Inr b"
    using api_serve_events [OF assms(1)] assms(2,3) by simp_all
  have "\<not> no_answer (api_serve lib admins now w r)" using assms(1) by (simp add: no_answer_def)
  then obtain pk where "ValidateNIP98Auth (al_nostr lib) (al_nip98 lib) now (ar_http r) admins = Inr pk"
    using api_serve_authenticated by blast
  note a = nip98_accepted [OF this, unfolded e(1)]
  have "b = (let rest = drop (nat (api_offset r)) (listing (al_ToLower lib) db (api_filters r)) in
     \<lparr>br_Events = map (browser_event_of db) (take (nat (page_limit (api_limit r))) rest),
       br_Total = int (length (listing (al_ToLower lib) db (api_filters r))), br_Limit = page_limit (api_limit r), br_Offset = api_offset r,
       br_HasMore = (page_limit (api_limit r) < int (length rest))\<rparr>)"
    using e(2) unfolding browser_page_spec [OF assms(4,5) api_offset_nonneg browser_answer_fits [OF e(2)]] by (simp add: Let_def)
  with a show ?thesis by (auto simp: Let_def)
qed

text \<open>Nothing else is shown without such a header either, and the API writes nothing: a reply is a function of the
  tables.\<close>

theorem api_answers_admins_only:
  assumes "\<not> no_answer (api_serve lib admins now w r)"
  shows "\<exists>ev. ev_kind ev = 27235 \<and> CheckSignature (al_nostr lib) ev = Some True \<and> ev_pubkey ev \<in> set admins \<and>
    \<bar>now - ev_created_at ev * ns_per_sec\<bar> \<le> 60 * ns_per_sec \<and>
    Tags_Find (al_nip98 lib) (ev_tags ev) ''u'' ! 1 = getRequestURL (ar_http r)"
  using api_serve_authenticated [OF assms] nip98_accepted by blast

section \<open>A small relay\<close>

definition listed :: "string \<Rightarrow> int \<Rightarrow> int \<Rightarrow> event_row" where
  "listed i k t = \<lparr>er_event = \<lparr>ev_id = i, ev_pubkey = ''p'', ev_created_at = t, ev_kind = k, ev_tags = [], ev_content = ''c''\<rparr>,
     er_tags = None, er_scans = True\<rparr>"

definition two_notes :: event_db where
  "two_notes = \<lparr>eb_rows = [listed ''a'' 1 50, listed ''b'' 7 50], eb_banned = [], eb_ilike = (\<lambda>_ _. True), eb_arrange = (\<lambda>rows. rows)\<rparr>"

definition no_filter :: BrowserFilter where
  "no_filter = \<lparr>bf_Pubkey = '''', bf_Kind = '''', bf_Search = '''', bf_StartDate = '''', bf_EndDate = ''''\<rparr>"

definition get_event :: "string \<Rightarrow> event" where
  "get_event u = \<lparr>ev_id = ''e'', ev_pubkey = ''admin'', ev_created_at = 100, ev_kind = 27235,
     ev_tags = [[''u'', u], [''method'', ''GET'']], ev_content = ''''\<rparr>"

definition signing_lib :: "string \<Rightarrow> admin_lib" where
  "signing_lib u = console_lib\<lparr>al_nip98 := toy_l98\<lparr>event_of_json := (\<lambda>_. Some (get_event u))\<rparr>\<rparr>"

definition get_request :: "string \<Rightarrow> (string \<Rightarrow> string) \<Rightarrow> admin_request" where
  "get_request path q = login_request\<lparr>ar_http := admin_post\<lparr>rq_method := ''GET'', rq_path := path\<rparr>, ar_path := path, ar_query := q\<rparr>"

definition small_world :: api_world where
  "small_world =
     \<lparr>aw_events = Some two_notes, aw_browse = browse_up,
      aw_stats = \<lparr>total_answers = True, size_answer = None, oldest_answers = True, newest_answers = True, kinds_answer = True,
        kind_scans = (\<lambda>_. True), kind_arrange = (\<lambda>gs. gs)\<rparr>,
      aw_follows = None,
      aw_follow_faults = \<lparr>edges_answer = True, edges_end_well = True, owner_answers = True, follows_counted = True,
        pubkeys_counted = True, followed_answers = True, followers_answer = True, recent_answers = True\<rparr>,
      aw_system = None, aw_config = None, aw_rfc3339 = (\<lambda>_. '''')\<rparr>"

lemmas small_defs = signing_lib_def get_request_def login_request_def console_lib_def admin_post_def toy_l98_def get_event_def
  accepting_lib_def getRequestURL_def TrimPrefix_def

lemma two_notes_ok [simp]: "arranges (eb_arrange two_notes)" "list_all er_scans (eb_rows two_notes)"
  by (simp_all add: two_notes_def arranges_id listed_def)

lemma no_filter_where [simp]: "browse_where low no_filter = no_conds" "bq_args no_conds = []"
  by (simp_all add: browse_where_def no_filter_def no_conds_def)

lemma wanted_all [simp]: "wanted low like no_filter ev"
  by (simp add: wanted_def no_filter_def)

lemma signed_get [simp]:
  "ValidateNIP98Auth (al_nostr (signing_lib u)) (al_nip98 (signing_lib u)) 100000000000 (ar_http (get_request path q)) [''admin''] =
    (if u = ''https://r'' @ path then Inr ''admin'' else Inl ErrInvalidURL)"
  by (simp add: ValidateNIP98Auth_def small_defs)

lemma TrimSpace_empty [simp]: "TrimSpace '''' = ''''"
  by (simp add: TrimSpace_def)

lemma empty_query_filters [simp]: "api_filters (get_request path (\<lambda>_. '''')) = no_filter"
  by (simp add: api_filters_def parseEventFilters_def get_request_def no_filter_def)

lemma empty_query_numbers [simp]: "api_limit (get_request path (\<lambda>_. '''')) = 50" "api_offset (get_request path (\<lambda>_. '''')) = 0"
  by (simp_all add: api_limit_def api_offset_def get_request_def)

lemma small_listing [simp]: "listing low two_notes no_filter = [listed ''a'' 1 50, listed ''b'' 7 50]"
  by (simp add: listing_def newest_first_def two_notes_def listed_def)

definition first_page :: BrowserResult where
  "first_page = \<lparr>br_Events = map (browser_event_of two_notes) [listed ''a'' 1 50, listed ''b'' 7 50], br_Total = 2, br_Limit = 50,
     br_Offset = 0, br_HasMore = False\<rparr>"

lemma small_answer:
  "api_serve (signing_lib ''https://r/api/admin/events'') [''admin''] 100000000000 small_world (get_request ''/api/admin/events'' (\<lambda>_. '''')) =
    ApiEvents first_page"
proof -
  have "QueryBrowserEvents low browse_up (Some two_notes) no_filter 50 0 = Inr first_page" for low
    by (subst browser_page_spec) (simp_all add: Let_def page_limit_def first_page_def)
  moreover have "ar_path (get_request p q) = p" "rq_method (ar_http (get_request p q)) = ''GET''" for p q
    by (simp_all add: get_request_def)
  ultimately show ?thesis
    by (simp add: api_serve_def requireNIP98_def api_handleEvents_eq small_world_def get_only_def)
qed

lemma listing_is_for_admins_witness: "br_Total first_page = 2 \<and> \<not> br_HasMore first_page"
proof -
  note a = listing_is_for_admins [OF small_answer, of two_notes]
  have "br_Total first_page = int (length (listing (al_ToLower (signing_lib ''https://r/api/admin/events'')) two_notes no_filter)) \<and>
      br_HasMore first_page = (page_limit 50 < int (length (listing (al_ToLower (signing_lib ''https://r/api/admin/events'')) two_notes no_filter)))"
    using a by (simp add: small_world_def Let_def)
  then show ?thesis by (simp add: page_limit_def)
qed

section \<open>Departures\<close>

text \<open>The signed URL is compared with the URL without its query. A header that names the query, as NIP-98 asks, is refused;
  one that does not serves every query.\<close>

theorem query_is_not_signed:
  "api_serve (signing_lib ''https://r/api/admin/events'') [''admin''] 100000000000 w (get_request ''/api/admin/events'' q) =
     api_handleEvents (signing_lib ''https://r/api/admin/events'') w (get_request ''/api/admin/events'' q) \<and>
   api_serve (signing_lib ''https://r/api/admin/events?kind=1'') [''admin''] 100000000000 w (get_request ''/api/admin/events'' q) =
     Unauthorized ErrInvalidURL"
proof -
  have "ar_path (get_request p q) = p" for p by (simp add: get_request_def)
  then show ?thesis by (simp add: api_serve_def requireNIP98_def)
qed

text \<open>A kind that is no number is left out of the filter: all kinds are shown.\<close>

theorem bad_kind_shows_all:
  "listing low two_notes (no_filter\<lparr>bf_Kind := ''one''\<rparr>) = listing low two_notes no_filter"
proof -
  have "Atoi ''one'' = None" by (simp add: ParseInt64_def parse_unsigned_def digit_of_def)
  then have "wanted low like (no_filter\<lparr>bf_Kind := ''one''\<rparr>) ev = wanted low like no_filter ev" for like ev
    by (simp add: wanted_def no_filter_def)
  then show ?thesis by (simp add: listing_def)
qed

text \<open>A number beyond 32 bits makes the database refuse the statement: a kind that no event can have, or a date after
  January 2038, is answered with an error in place of an empty or a full page.\<close>

theorem late_dates_refuse_the_listing:
  "QueryBrowserEvents low browse_up (Some db) (no_filter\<lparr>bf_Kind := ''3000000000''\<rparr>) l 0 = Inl ''count query failed'' \<and>
   QueryBrowserEvents low browse_up (Some db) (no_filter\<lparr>bf_EndDate := ''2040-01-01''\<rparr>) l 0 = Inl ''count query failed''"
proof -
  have k: "Atoi ''3000000000'' = Some 3000000000"
    by (simp add: ParseInt64_def parse_unsigned_def digit_of_def in_i64_def)
  have d: "ParseDate ''2040-01-01'' = Some (Date 2040 1 1)"
    by (simp add: ParseDate_def digit_of_def days_in_def)
  have "go_Unix (Date 2040 1 1) = 2208988800" by code_simp
  then have "\<not> ints_fit (bq_args (browse_where low (no_filter\<lparr>bf_Kind := ''3000000000''\<rparr>)))"
    "\<not> ints_fit (bq_args (browse_where low (no_filter\<lparr>bf_EndDate := ''2040-01-01''\<rparr>)))"
    by (simp_all add: browse_where_def no_filter_def no_conds_def add_cond_def k d ints_fit_def in_i32_def del: go_Unix.simps)
  then show ?thesis by (simp add: QueryBrowserEvents_def Let_def count_rows_wanted)
qed

text \<open>Events of the same second have no order of their own: if the database orders them differently for the second page, it
  repeats an event of the first and another is never shown.\<close>

theorem pages_may_repeat_events:
  "page_events (QueryBrowserEvents low browse_up (Some two_notes) no_filter 1 0) =
   page_events (QueryBrowserEvents low browse_up (Some (two_notes\<lparr>eb_arrange := rev\<rparr>)) no_filter 1 1)"
proof -
  have r: "arranges (eb_arrange (two_notes\<lparr>eb_arrange := rev\<rparr>))" "list_all er_scans (eb_rows (two_notes\<lparr>eb_arrange := rev\<rparr>))"
    by (simp_all add: arranges_def two_notes_def listed_def)
  have l: "listing low (two_notes\<lparr>eb_arrange := rev\<rparr>) no_filter = [listed ''b'' 7 50, listed ''a'' 1 50]"
    by (simp add: listing_def newest_first_def two_notes_def listed_def)
  have e: "browser_event_of (two_notes\<lparr>eb_arrange := rev\<rparr>) = browser_event_of two_notes"
    by (rule ext) (simp add: browser_event_of_def)
  show ?thesis
    by (simp add: browser_page_spec [OF r] browser_page_spec [OF two_notes_ok] no_filter_where l e page_events_def Let_def page_limit_def)
qed

text \<open>A row that does not scan is skipped, and then the row beyond the page is not noticed.\<close>

theorem unreadable_row_hides_the_next_page:
  "\<exists>b. QueryBrowserEvents low browse_up (Some (two_notes\<lparr>eb_rows := [(listed ''x'' 1 60)\<lparr>er_scans := False\<rparr>, listed ''a'' 1 50, listed ''b'' 7 40]\<rparr>))
      no_filter 1 0 = Inr b \<and> br_Total b = 3 \<and> length (br_Events b) = 1 \<and> \<not> br_HasMore b"
proof -
  have "browse_where low no_filter = no_conds" for low by (simp add: browse_where_def no_filter_def)
  then show ?thesis
    by (simp add: QueryBrowserEvents_def Let_def count_rows_def page_rows_def no_conds_def browse_up_def select_where_def numbered_def
        newest_first_def two_notes_def listed_def)
qed

text \<open>The console takes rows that broke off for the whole page; the API reports the error.\<close>

theorem console_shows_broken_off_rows:
  "QueryBrowserEvents low (browse_up\<lparr>rows_end_well := False\<rparr>) (Some db) no_filter l 0 = Inl ''rows failed'' \<and>
   admin_queryBrowserEvents low (browse_up\<lparr>rows_end_well := False\<rparr>) (Some db) no_filter l 0 =
   admin_queryBrowserEvents low browse_up (Some db) no_filter l 0"
proof -
  have w: "browse_where low no_filter = no_conds" for low by (simp add: browse_where_def no_filter_def)
  show ?thesis
    by (auto simp: QueryBrowserEvents_def admin_queryBrowserEvents_def Let_def w count_rows_def no_conds_def browse_up_def page_rows_def numbered_def
        split: option.splits sql_arg.splits)
qed

text \<open>Without follows the links are null; the empty list that the code prepares is kept only when the query fails.\<close>

theorem links_of_an_empty_graph_are_null:
  assumes "fd_rows db = []" "edges_end_well f"
  shows "case QueryWoTGraph f (Some db) owner of Inr g \<Rightarrow> wg_Links g = (if edges_answer f then None else Some []) | Inl _ \<Rightarrow> False"
  using assms by (simp add: QueryWoTGraph_def built_graph_def Let_def graph_edges_def no_graph_def)

text \<open>With boxes for members HAVEN runs, and the API says that it is off; the console says that it is on, without workers.\<close>

theorem members_haven_reads_as_off:
  assumes "HavenMultiUserEnabled s" "rq_method (ar_http r) = ''GET''" "main_haven s = (aw_system w, aw_config w)"
  shows "api_handleHavenStats w r = ApiHaven \<lparr>hr_Enabled = False, hr_Blastr = None, hr_Importer = None\<rparr> \<and>
    (case hp_Config (buildHavenPageData (aw_system w) (aw_config w) now) of Some c \<Rightarrow> ah_Enabled c \<and> \<not> ah_BlastrEnabled c | None \<Rightarrow> False) \<and>
    \<not> hp_HasStats (buildHavenPageData (aw_system w) (aw_config w) now)"
proof -
  have "aw_system w = None" "\<exists>c. aw_config w = Some c \<and> ah_Enabled c \<and> \<not> ah_BlastrEnabled c"
    using assms(1) assms(3) [symmetric] by (simp_all add: main_haven_def members_haven_def owner_haven_def prod_eq_iff)
  then show ?thesis using assms(2) by (auto simp: api_handleHavenStats_def get_only_def buildHavenPageData_def Let_def)
qed

text \<open>The pages on the web of trust ask for the owner of the boxes and not for the roots of trust: with members' boxes, or
  without HAVEN, they call the web of trust off and no key trusted.\<close>

theorem trust_pages_ask_haven:
  assumes "HavenMultiUserEnabled s \<or> \<not> HavenEnabled s"
  shows "config_owner (snd (main_haven s)) = '''' \<and> \<not> owner_follows f db (config_owner (snd (main_haven s))) k \<and>
    \<not> wv_Enabled (buildWoTVisualization ff None (map_option ah_OwnerPubkey (snd (main_haven s))))"
  using assms by (auto simp: main_haven_def members_haven_def owner_haven_def config_owner_def owner_follows_def buildWoTVisualization_def Let_def)

text \<open>An owner's relay: the page shows the workers that run.\<close>

theorem owner_page_shows_running_workers:
  assumes "\<not> HavenMultiUserEnabled s" "HavenEnabled s" "HavenOwnerPubkey s \<noteq> ''''"
  shows "case main_haven s of (sys, cfg) \<Rightarrow>
    (hp_BlastrStats (buildHavenPageData sys cfg now) \<noteq> None) = (HavenBlastrEnabled s \<and> HavenBlastrRelays s \<noteq> []) \<and>
    (hp_ImporterStats (buildHavenPageData sys cfg now) \<noteq> None) = (HavenImporterEnabled s \<and> HavenImporterRelays s \<noteq> [])"
  using assms
  by (simp add: main_haven_def members_haven_def owner_haven_def Let_def RegisterFullSystem_def buildHavenPageData_def haven_Stats_def)

end
