(* ===== verification/Page_Rank.thy ===== *)
theory Page_Rank
  imports Trust_Gate Complex_Main
begin

text \<open>
  internal/wot/pagerank.go: the scores that \<open>Trust_Gate\<close> compares with its thresholds. The follow graph is a list of
  pairs as the table returns it; scores are real numbers where the code has float64, so rounding is not modelled. The
  facts are about sums over all keys: one iteration shrinks the distance of two score tables by the damping factor.
\<close>

section \<open>Parameters\<close>

definition dampingFactor :: real where "dampingFactor = 85 / 100"
definition maxIterations :: nat where "maxIterations = 100"
definition convergenceEps :: real where "convergenceEps = 1 / 1000000"
definition minPageRankSize :: nat where "minPageRankSize = 10"

record PageRankConfig =
  pc_Enabled :: bool
  pc_ComputeInterval :: int
  pc_OwnerBoost :: real
  pc_FollowThreshold :: real
  pc_FollowOfFollowThreshold :: real

definition DefaultPageRankConfig :: PageRankConfig where
  "DefaultPageRankConfig = \<lparr>pc_Enabled = True, pc_ComputeInterval = 3600 * ns_per_sec, pc_OwnerBoost = 2,
     pc_FollowThreshold = 1 / 1000, pc_FollowOfFollowThreshold = 1 / 10000\<rparr>"

section \<open>The graph\<close>

record rank_graph =
  rg_nodes :: "string list"
  rg_out :: "string \<Rightarrow> string list"
  rg_in :: "string \<Rightarrow> string list"

definition no_follows :: rank_graph where
  "no_follows = \<lparr>rg_nodes = [], rg_out = (\<lambda>_. []), rg_in = (\<lambda>_. [])\<rparr>"

definition with_node :: "string \<Rightarrow> string list \<Rightarrow> string list" where
  "with_node k ns = (if k \<in> set ns then ns else ns @ [k])"

definition add_follow :: "string \<times> string \<Rightarrow> rank_graph \<Rightarrow> rank_graph" where
  "add_follow rel g = (case rel of (a, b) \<Rightarrow>
     \<lparr>rg_nodes = with_node b (with_node a (rg_nodes g)), rg_out = (rg_out g)(a := rg_out g a @ [b]), rg_in = (rg_in g)(b := rg_in g b @ [a])\<rparr>)"

definition graph_of :: "(string \<times> string) list \<Rightarrow> rank_graph" where
  "graph_of rels = fold add_follow rels no_follows"

section \<open>The iteration\<close>

type_synonym scores = "string \<Rightarrow> real"

text \<open>The same start for every key, times the boost for every root that is in the graph.\<close>

definition start_scores :: "string list \<Rightarrow> real \<Rightarrow> rank_graph \<Rightarrow> scores" where
  "start_scores roots boost g =
     fold (\<lambda>root s. if root \<in> set (rg_nodes g) then s(root := s root * boost) else s) roots
       (\<lambda>v. if v \<in> set (rg_nodes g) then 1 / real (length (rg_nodes g)) else 0)"

definition rank_of :: "rank_graph \<Rightarrow> scores \<Rightarrow> string \<Rightarrow> real" where
  "rank_of g s v =
     (let randomJump = (1 - dampingFactor) / real (length (rg_nodes g));
          links = (\<Sum>u \<leftarrow> rg_in g v. if length (rg_out g u) > 0 then s u / real (length (rg_out g u)) else 0)
      in randomJump + dampingFactor * links)"

definition rank_step :: "rank_graph \<Rightarrow> scores \<Rightarrow> scores" where
  "rank_step g s v = (if v \<in> set (rg_nodes g) then rank_of g s v else 0)"

definition max_diff :: "rank_graph \<Rightarrow> scores \<Rightarrow> scores \<Rightarrow> real" where
  "max_diff g s s' = fold (\<lambda>v m. let d = \<bar>s' v - s v\<bar> in if d > m then d else m) (rg_nodes g) 0"

text \<open>The flag says whether the loop ends by its convergence test.\<close>

fun rank_loop :: "nat \<Rightarrow> rank_graph \<Rightarrow> scores \<Rightarrow> bool \<times> scores" where
  "rank_loop 0 g s = (False, s)"
| "rank_loop (Suc k) g s =
     (let s' = rank_step g s in if max_diff g s s' < convergenceEps then (True, s') else rank_loop k g s')"

definition max_score :: "rank_graph \<Rightarrow> scores \<Rightarrow> real" where
  "max_score g s = fold (\<lambda>v m. if s v > m then s v else m) (rg_nodes g) 0"

definition normalised :: "rank_graph \<Rightarrow> scores \<Rightarrow> scores" where
  "normalised g s = (let m = max_score g s in if m > 0 then (\<lambda>v. s v / m) else s)"

definition ranked :: "string list \<Rightarrow> real \<Rightarrow> rank_graph \<Rightarrow> scores" where
  "ranked roots boost g = normalised g (snd (rank_loop maxIterations g (start_scores roots boost g)))"

section \<open>The calculator\<close>

text \<open>The external cache, if there is one, holds scores with lifetimes; what it answers at the moment is a map.\<close>

record PageRankCalculator =
  pk_roots :: "string list"
  pk_config :: PageRankConfig
  pk_scores :: "string \<Rightarrow> real option"
  pk_lastComputed :: "int option"
  pk_ext :: "(string \<Rightarrow> real option) option"

definition NewPageRankCalculator :: "(string \<Rightarrow> real option) option \<Rightarrow> string list \<Rightarrow> PageRankConfig option \<Rightarrow> PageRankCalculator" where
  "NewPageRankCalculator ext trustRoots cfg =
     \<lparr>pk_roots = remdups (filter (\<lambda>r. r \<noteq> '''') trustRoots),
      pk_config = (case cfg of Some c \<Rightarrow> c | None \<Rightarrow> DefaultPageRankConfig),
      pk_scores = Map.empty, pk_lastComputed = None, pk_ext = ext\<rparr>"

definition GetPageRank :: "PageRankCalculator \<Rightarrow> string \<Rightarrow> real" where
  "GetPageRank pr pk =
     (case (case pk_ext pr of Some m \<Rightarrow> m pk | None \<Rightarrow> None) of
        Some score \<Rightarrow> score
      | None \<Rightarrow> (case pk_scores pr pk of Some score \<Rightarrow> score | None \<Rightarrow> 0))"

definition pagerank_level :: "PageRankCalculator \<Rightarrow> string \<Rightarrow> TrustLevel" where
  "pagerank_level pr pk =
     GetTrustLevelFromPageRank (pk_roots pr) (pc_FollowThreshold (pk_config pr)) (pc_FollowOfFollowThreshold (pk_config pr)) (GetPageRank pr) pk"

text \<open>\<open>answer\<close> is the table of follows, \<open>None\<close> for an error; \<open>put\<close> says which scores the external cache takes.\<close>

definition computePageRank :: "(string \<times> string) list option \<Rightarrow> (string \<Rightarrow> bool) \<Rightarrow> int \<Rightarrow> PageRankCalculator \<Rightarrow> PageRankCalculator" where
  "computePageRank answer put now pr =
     (case answer of None \<Rightarrow> pr | Some rels \<Rightarrow>
        let g = graph_of rels in
        if length (rg_nodes g) < minPageRankSize then pr
        else let s = ranked (pk_roots pr) (pc_OwnerBoost (pk_config pr)) g;
                 table = (\<lambda>v. if v \<in> set (rg_nodes g) then Some (s v) else None)
             in pr\<lparr>pk_scores := table, pk_lastComputed := Some now,
                  pk_ext := map_option (\<lambda>m v. if v \<in> set (rg_nodes g) \<and> put v then Some (s v) else m v) (pk_ext pr)\<rparr>)"

definition level_counts :: "PageRankCalculator \<Rightarrow> string list \<Rightarrow> TrustLevel \<Rightarrow> int" where
  "level_counts pr ks = fold (\<lambda>k c. c(pagerank_level pr k := c (pagerank_level pr k) + 1)) ks (\<lambda>_. 0)"

definition LastComputedAt :: "PageRankCalculator \<Rightarrow> int option" where
  "LastComputedAt pr = pk_lastComputed pr"

definition ScoreCount :: "PageRankCalculator \<Rightarrow> nat" where
  "ScoreCount pr = card (dom (pk_scores pr))"

section \<open>Sums over the graph\<close>

lemma with_node_set [simp]: "set (with_node k ns) = insert k (set ns)" "distinct (with_node k ns) = distinct ns"
  by (auto simp: with_node_def)

lemma fold_add_follow:
  "set (rg_nodes (fold add_follow rels g)) = set (rg_nodes g) \<union> fst ` set rels \<union> snd ` set rels"
  "distinct (rg_nodes (fold add_follow rels g)) = distinct (rg_nodes g)"
  "rg_out (fold add_follow rels g) u = rg_out g u @ map snd (filter (\<lambda>r. fst r = u) rels)"
  "rg_in (fold add_follow rels g) v = rg_in g v @ map fst (filter (\<lambda>r. snd r = v) rels)"
  by (induction rels arbitrary: g) (auto simp: add_follow_def split: prod.splits)

lemma graph_of_simps:
  "set (rg_nodes (graph_of rels)) = fst ` set rels \<union> snd ` set rels"
  "distinct (rg_nodes (graph_of rels))"
  "rg_out (graph_of rels) u = map snd (filter (\<lambda>r. fst r = u) rels)"
  "rg_in (graph_of rels) v = map fst (filter (\<lambda>r. snd r = v) rels)"
  by (simp_all add: graph_of_def fold_add_follow no_follows_def)

lemma sum_by_key:
  fixes h :: "'b \<Rightarrow> real"
  assumes "finite A" "key ` set xs \<subseteq> A"
  shows "(\<Sum>k\<in>A. \<Sum>x \<leftarrow> filter (\<lambda>x. key x = k) xs. h x) = (\<Sum>x \<leftarrow> xs. h x)"
  using assms(2)
proof (induction xs)
  case (Cons x xs)
  have "(\<Sum>k\<in>A. \<Sum>y \<leftarrow> filter (\<lambda>y. key y = k) (x # xs). h y) =
      (\<Sum>k\<in>A. (if key x = k then h x else 0) + (\<Sum>y \<leftarrow> filter (\<lambda>y. key y = k) xs. h y))"
    by (rule sum.cong) auto
  also have "\<dots> = h x + (\<Sum>k\<in>A. \<Sum>y \<leftarrow> filter (\<lambda>y. key y = k) xs. h y)"
    using Cons.prems assms(1) by (simp add: sum.distrib)
  finally show ?case using Cons by simp
qed simp

text \<open>What the keys pass on along their links.\<close>

definition passed_on :: "rank_graph \<Rightarrow> scores \<Rightarrow> string \<Rightarrow> real" where
  "passed_on g s v = (\<Sum>u \<leftarrow> rg_in g v. if length (rg_out g u) > 0 then s u / real (length (rg_out g u)) else 0)"

lemma rank_of_passed: "rank_of g s v = (1 - dampingFactor) / real (length (rg_nodes g)) + dampingFactor * passed_on g s v"
  by (simp add: rank_of_def passed_on_def Let_def)

lemma passed_on_total:
  "(\<Sum>v\<in>set (rg_nodes (graph_of rels)). passed_on (graph_of rels) s v) =
   (\<Sum>u\<in>set (rg_nodes (graph_of rels)). if rg_out (graph_of rels) u = [] then 0 else s u)"
proof -
  let ?g = "graph_of rels" and ?A = "set (rg_nodes (graph_of rels))"
  let ?h = "\<lambda>u. if length (rg_out ?g u) > 0 then s u / real (length (rg_out ?g u)) else 0"
  have A: "fst ` set rels \<subseteq> ?A" "snd ` set rels \<subseteq> ?A" by (auto simp: graph_of_simps)
  have "(\<Sum>v\<in>?A. passed_on ?g s v) = (\<Sum>v\<in>?A. \<Sum>r \<leftarrow> filter (\<lambda>r. snd r = v) rels. ?h (fst r))"
    by (simp add: passed_on_def graph_of_simps(4) comp_def)
  also have "\<dots> = (\<Sum>r \<leftarrow> rels. ?h (fst r))" using A(2) by (simp add: sum_by_key)
  also have "\<dots> = (\<Sum>u\<in>?A. \<Sum>r \<leftarrow> filter (\<lambda>r. fst r = u) rels. ?h (fst r))" using A(1) by (simp add: sum_by_key)
  also have "\<dots> = (\<Sum>u\<in>?A. if rg_out ?g u = [] then 0 else s u)"
  proof (rule sum.cong [OF refl])
    fix u
    have "(\<Sum>r \<leftarrow> filter (\<lambda>r. fst r = u) rels. ?h (fst r)) = (\<Sum>r \<leftarrow> filter (\<lambda>r. fst r = u) rels. ?h u)"
      by (rule arg_cong [where f = sum_list], rule map_cong) auto
    also have "\<dots> = real (length (rg_out ?g u)) * ?h u"
      by (simp add: sum_list_triv graph_of_simps(3))
    finally show "(\<Sum>r \<leftarrow> filter (\<lambda>r. fst r = u) rels. ?h (fst r)) = (if rg_out ?g u = [] then 0 else s u)" by simp
  qed
  finally show ?thesis .
qed

definition mass :: "rank_graph \<Rightarrow> scores \<Rightarrow> real" where
  "mass g s = (\<Sum>v\<in>set (rg_nodes g). \<bar>s v\<bar>)"

definition rank_dist :: "rank_graph \<Rightarrow> scores \<Rightarrow> scores \<Rightarrow> real" where
  "rank_dist g s t = mass g (\<lambda>v. s v - t v)"

lemma mass_nonneg [simp]: "0 \<le> mass g s"
  by (simp add: mass_def sum_nonneg)

lemma damping [simp]: "0 < dampingFactor" "dampingFactor < 1" "0 \<le> dampingFactor" "0 \<le> dampingFactor ^ k"
    "\<bar>dampingFactor\<bar> = dampingFactor" "\<bar>1 - dampingFactor\<bar> = 1 - dampingFactor"
  by (simp_all add: dampingFactor_def)

lemma passed_on_diff: "passed_on g s v - passed_on g t v = passed_on g (\<lambda>u. s u - t u) v"
proof -
  have "(\<Sum>u \<leftarrow> us. if P u then s u / f u else 0) - (\<Sum>u \<leftarrow> us. if P u then t u / f u else 0) =
      (\<Sum>u \<leftarrow> us. if P u then (s u - t u) / f u else 0)" for us P and f :: "string \<Rightarrow> real"
    by (induction us) (auto simp: diff_divide_distrib)
  then show ?thesis by (simp add: passed_on_def)
qed

lemma passed_on_abs: "\<bar>passed_on g s v\<bar> \<le> passed_on g (\<lambda>u. \<bar>s u\<bar>) v"
proof -
  have "\<bar>\<Sum>u \<leftarrow> us. if P u then s u / real (f u) else 0\<bar> \<le> (\<Sum>u \<leftarrow> us. if P u then \<bar>s u\<bar> / real (f u) else 0)" for us P f
    by (induction us) (auto intro: order_trans [OF abs_triangle_ineq])
  then show ?thesis by (simp add: passed_on_def)
qed

lemma passed_on_nonneg: "(\<And>u. 0 \<le> s u) \<Longrightarrow> 0 \<le> passed_on g s v"
  unfolding passed_on_def by (rule sum_list_nonneg) auto

lemma passed_on_mass: "(\<Sum>v\<in>set (rg_nodes (graph_of rels)). \<bar>passed_on (graph_of rels) s v\<bar>) \<le> mass (graph_of rels) s"
proof -
  let ?A = "set (rg_nodes (graph_of rels))"
  have "(\<Sum>v\<in>?A. \<bar>passed_on (graph_of rels) s v\<bar>) \<le> (\<Sum>v\<in>?A. passed_on (graph_of rels) (\<lambda>u. \<bar>s u\<bar>) v)"
    by (rule sum_mono) (rule passed_on_abs)
  also have "\<dots> \<le> mass (graph_of rels) s"
    unfolding passed_on_total mass_def by (rule sum_mono) simp
  finally show ?thesis .
qed

text \<open>One iteration brings two tables closer, by the damping factor at least.\<close>

lemma rank_step_contracts: "rank_dist (graph_of rels) (rank_step (graph_of rels) s) (rank_step (graph_of rels) t) \<le> dampingFactor * rank_dist (graph_of rels) s t"
proof -
  let ?g = "graph_of rels" and ?A = "set (rg_nodes (graph_of rels))"
  have "rank_dist ?g (rank_step ?g s) (rank_step ?g t) = (\<Sum>v\<in>?A. dampingFactor * \<bar>passed_on ?g (\<lambda>u. s u - t u) v\<bar>)"
    unfolding rank_dist_def mass_def
    by (rule sum.cong) (simp_all add: rank_step_def rank_of_passed flip: passed_on_diff right_diff_distrib, simp add: abs_mult)
  also have "\<dots> = dampingFactor * (\<Sum>v\<in>?A. \<bar>passed_on ?g (\<lambda>u. s u - t u) v\<bar>)" by (simp add: sum_distrib_left)
  also have "\<dots> \<le> dampingFactor * rank_dist ?g s t"
    unfolding rank_dist_def using passed_on_mass [of rels "\<lambda>u. s u - t u"] by simp
  finally show ?thesis .
qed

lemma rank_steps_contract:
  "rank_dist (graph_of rels) ((rank_step (graph_of rels) ^^ k) s) ((rank_step (graph_of rels) ^^ k) t) \<le> dampingFactor ^ k * rank_dist (graph_of rels) s t"
proof (induction k)
  case (Suc k)
  have "rank_dist (graph_of rels) ((rank_step (graph_of rels) ^^ Suc k) s) ((rank_step (graph_of rels) ^^ Suc k) t) \<le>
      dampingFactor * rank_dist (graph_of rels) ((rank_step (graph_of rels) ^^ k) s) ((rank_step (graph_of rels) ^^ k) t)"
    using rank_step_contracts by simp
  also have "\<dots> \<le> dampingFactor * (dampingFactor ^ k * rank_dist (graph_of rels) s t)" using Suc by (intro mult_left_mono) simp_all
  finally show ?case by (simp add: mult.assoc)
qed simp

lemma rank_step_mass:
  assumes "rg_nodes (graph_of rels) \<noteq> []"
  shows "mass (graph_of rels) (rank_step (graph_of rels) s) \<le> (1 - dampingFactor) + dampingFactor * mass (graph_of rels) s"
proof -
  let ?g = "graph_of rels" and ?A = "set (rg_nodes (graph_of rels))"
  have n: "card ?A = length (rg_nodes ?g)" by (simp add: distinct_card graph_of_simps(2))
  have "mass ?g (rank_step ?g s) \<le> (\<Sum>v\<in>?A. (1 - dampingFactor) / real (length (rg_nodes ?g)) + dampingFactor * \<bar>passed_on ?g s v\<bar>)"
    unfolding mass_def
  proof (rule sum_mono)
    fix v assume "v \<in> ?A"
    then have "\<bar>rank_step ?g s v\<bar> \<le> \<bar>(1 - dampingFactor) / real (length (rg_nodes ?g))\<bar> + \<bar>dampingFactor * passed_on ?g s v\<bar>"
      by (simp only: rank_step_def rank_of_passed abs_triangle_ineq if_True)
    then show "\<bar>rank_step ?g s v\<bar> \<le> (1 - dampingFactor) / real (length (rg_nodes ?g)) + dampingFactor * \<bar>passed_on ?g s v\<bar>"
      by (simp add: abs_mult)
  qed
  also have "\<dots> = (1 - dampingFactor) + dampingFactor * (\<Sum>v\<in>?A. \<bar>passed_on ?g s v\<bar>)"
    using assms by (simp add: sum.distrib n flip: sum_distrib_left)
  also have "\<dots> \<le> (1 - dampingFactor) + dampingFactor * mass ?g s" using passed_on_mass [of rels s] by simp
  finally show ?thesis .
qed

section \<open>The loop ends by convergence\<close>

lemma fold_max_le: "fold (\<lambda>v m. let d = f v in if d > m then d else m) vs (m :: real) \<le> b \<longleftrightarrow> m \<le> b \<and> (\<forall>v\<in>set vs. f v \<le> b)"
  by (induction vs arbitrary: m) (auto simp: Let_def)

lemma max_diff_le_dist: "max_diff g s s' \<le> rank_dist g s' s"
proof -
  have "\<bar>s' v - s v\<bar> \<le> rank_dist g s' s" if "v \<in> set (rg_nodes g)" for v
    unfolding rank_dist_def mass_def using that by (intro member_le_sum) auto
  then show ?thesis by (simp add: max_diff_def fold_max_le rank_dist_def)
qed

lemma rank_loop_converges:
  assumes "dampingFactor ^ k * rank_dist (graph_of rels) (rank_step (graph_of rels) s) s < convergenceEps"
  shows "fst (rank_loop (Suc k) (graph_of rels) s)"
  using assms
proof (induction k arbitrary: s)
  case 0
  then show ?case using max_diff_le_dist [of "graph_of rels" s "rank_step (graph_of rels) s"] by (simp add: Let_def)
next
  case (Suc k)
  let ?g = "graph_of rels"
  have "dampingFactor ^ k * rank_dist ?g (rank_step ?g (rank_step ?g s)) (rank_step ?g s) \<le>
      dampingFactor ^ k * (dampingFactor * rank_dist ?g (rank_step ?g s) s)"
    by (intro mult_left_mono rank_step_contracts) simp
  also have "\<dots> < convergenceEps" using Suc.prems by (simp add: mult.assoc mult.left_commute)
  finally have "fst (rank_loop (Suc k) ?g (rank_step ?g s))" by (rule Suc.IH)
  then show ?case by (subst rank_loop.simps) (simp add: Let_def del: rank_loop.simps)
qed

lemma fold_boost:
  "distinct roots \<Longrightarrow> fold (\<lambda>root s. if root \<in> A then s(root := s root * (b :: real)) else s) roots s v =
    (if v \<in> set roots \<and> v \<in> A then s v * b else s v)"
  by (induction roots arbitrary: s) auto

lemma start_scores_at:
  "distinct roots \<Longrightarrow> start_scores roots boost g v =
    (if v \<in> set (rg_nodes g) then (if v \<in> set roots then boost else 1) / real (length (rg_nodes g)) else 0)"
  by (simp add: start_scores_def fold_boost)

lemma start_mass:
  assumes "distinct roots" "rg_nodes (graph_of rels) \<noteq> []" "0 \<le> boost"
  shows "mass (graph_of rels) (start_scores roots boost (graph_of rels)) \<le> max 1 boost"
proof -
  let ?g = "graph_of rels"
  have n: "card (set (rg_nodes ?g)) = length (rg_nodes ?g)" by (simp add: distinct_card graph_of_simps(2))
  have "mass ?g (start_scores roots boost ?g) \<le> (\<Sum>v\<in>set (rg_nodes ?g). max 1 boost / real (length (rg_nodes ?g)))"
    unfolding mass_def using assms by (intro sum_mono) (auto simp: start_scores_at divide_right_mono)
  then show ?thesis using assms(2) by (simp add: n)
qed

lemma rank_dist_le_masses: "rank_dist g s t \<le> mass g s + mass g t"
  unfolding rank_dist_def mass_def by (simp add: abs_triangle_ineq4 sum_mono flip: sum.distrib)

lemma start_dist:
  assumes "distinct roots" "rg_nodes (graph_of rels) \<noteq> []" "0 \<le> boost" "boost \<le> 4"
  shows "rank_dist (graph_of rels) (rank_step (graph_of rels) (start_scores roots boost (graph_of rels))) (start_scores roots boost (graph_of rels)) \<le> 8"
proof -
  let ?s = "start_scores roots boost (graph_of rels)"
  have m: "mass (graph_of rels) ?s \<le> 4" using start_mass [OF assms(1-3)] assms(4) by simp
  then have "mass (graph_of rels) (rank_step (graph_of rels) ?s) \<le> 4"
    using rank_step_mass [OF assms(2), of ?s] by (simp add: dampingFactor_def)
  with m rank_dist_le_masses show ?thesis by (smt (verit))
qed

text \<open>C11: The bound of a hundred iterations never cuts the computation short: from any follow graph and any roots the loop ends
  by its convergence test.\<close>

theorem pagerank_converges:
  assumes "distinct roots" "rg_nodes (graph_of rels) \<noteq> []" "0 \<le> boost" "boost \<le> 4"
  shows "fst (rank_loop maxIterations (graph_of rels) (start_scores roots boost (graph_of rels)))"
proof -
  have "dampingFactor ^ 99 * rank_dist (graph_of rels) (rank_step (graph_of rels) (start_scores roots boost (graph_of rels)))
      (start_scores roots boost (graph_of rels)) \<le> dampingFactor ^ 99 * 8"
    using start_dist [OF assms] by (intro mult_left_mono) simp_all
  also have "\<dots> < convergenceEps" by (simp add: dampingFactor_def convergenceEps_def power_divide)
  finally have "fst (rank_loop (Suc 99) (graph_of rels) (start_scores roots boost (graph_of rels)))" by (rule rank_loop_converges)
  then show ?thesis by (simp only: maxIterations_def) (simp del: rank_loop.simps)
qed

section \<open>What the scores are\<close>

lemma rank_loop_steps: "\<exists>k. snd (rank_loop (Suc n) g s) = (rank_step g ^^ Suc k) s"
proof (induction n arbitrary: s)
  case 0
  show ?case by (rule exI [of _ 0]) (simp add: Let_def)
next
  case (Suc n)
  show ?case
  proof (cases "max_diff g s (rank_step g s) < convergenceEps")
    case True
    then show ?thesis by (intro exI [of _ 0]) (simp add: Let_def)
  next
    case False
    obtain k where "snd (rank_loop (Suc n) g (rank_step g s)) = (rank_step g ^^ Suc k) (rank_step g s)" using Suc by blast
    with False show ?thesis
      by (intro exI [of _ "Suc k"], subst rank_loop.simps) (simp add: Let_def funpow_swap1 del: rank_loop.simps)
  qed
qed

lemma rank_step_bounds:
  assumes "rg_nodes (graph_of rels) \<noteq> []" "\<And>v. 0 \<le> s v" "mass (graph_of rels) s \<le> 2"
  shows "0 \<le> rank_step (graph_of rels) s v"
    and "v \<in> set (rg_nodes (graph_of rels)) \<Longrightarrow> (1 - dampingFactor) / real (length (rg_nodes (graph_of rels))) \<le> rank_step (graph_of rels) s v"
    and "mass (graph_of rels) (rank_step (graph_of rels) s) \<le> 37 / 20"
proof -
  have "0 \<le> dampingFactor * passed_on (graph_of rels) s v" using assms(2) by (simp add: passed_on_nonneg)
  moreover have "0 \<le> (1 - dampingFactor) / real (length (rg_nodes (graph_of rels)))" by (simp add: less_imp_le)
  ultimately show "0 \<le> rank_step (graph_of rels) s v"
    and "v \<in> set (rg_nodes (graph_of rels)) \<Longrightarrow> (1 - dampingFactor) / real (length (rg_nodes (graph_of rels))) \<le> rank_step (graph_of rels) s v"
    by (simp_all add: rank_step_def rank_of_passed)
  show "mass (graph_of rels) (rank_step (graph_of rels) s) \<le> 37 / 20"
    using rank_step_mass [OF assms(1), of s] assms(3) by (simp add: dampingFactor_def)
qed

lemma rank_steps_bounds:
  assumes "rg_nodes (graph_of rels) \<noteq> []" "\<And>v. 0 \<le> s v" "mass (graph_of rels) s \<le> 2"
  shows "(\<forall>v. 0 \<le> (rank_step (graph_of rels) ^^ k) s v) \<and> mass (graph_of rels) ((rank_step (graph_of rels) ^^ k) s) \<le> 2"
proof (induction k)
  case (Suc k)
  then show ?case using rank_step_bounds [OF assms(1), of "(rank_step (graph_of rels) ^^ k) s"] by (auto intro: order_trans)
qed (use assms in simp)

lemma max_score_le: "max_score g s \<le> b \<longleftrightarrow> 0 \<le> b \<and> (\<forall>v\<in>set (rg_nodes g). s v \<le> b)"
  using fold_max_le [of s "rg_nodes g" 0 b] by (simp add: max_score_def Let_def)

lemma max_score_bounds: "0 \<le> max_score g s" "v \<in> set (rg_nodes g) \<Longrightarrow> s v \<le> max_score g s"
  using max_score_le [of g s "max_score g s"] by auto

lemma fold_max_attained:
  fixes f :: "string \<Rightarrow> real"
  shows "fold (\<lambda>v m. if f v > m then f v else m) vs m = m \<or> fold (\<lambda>v m. if f v > m then f v else m) vs m \<in> f ` set vs"
proof (induction vs arbitrary: m)
  case (Cons v vs)
  show ?case using Cons [of "if f v > m then f v else m"] by (auto split: if_splits)
qed simp

lemma max_score_attained: "max_score g s = 0 \<or> (\<exists>v\<in>set (rg_nodes g). s v = max_score g s)"
  using fold_max_attained [of s "rg_nodes g" 0] by (auto simp: max_score_def)

text \<open>Scores are positive, at most one, and one is reached; in a graph of \<open>n\<close> keys none is below three in 37 n.\<close>

theorem ranked_scores:
  assumes "distinct roots" "rg_nodes (graph_of rels) \<noteq> []" "0 \<le> boost" "boost \<le> 2"
  shows "(\<forall>v\<in>set (rg_nodes (graph_of rels)). 3 / (37 * real (length (rg_nodes (graph_of rels)))) \<le> ranked roots boost (graph_of rels) v \<and>
      ranked roots boost (graph_of rels) v \<le> 1) \<and>
    (\<exists>v\<in>set (rg_nodes (graph_of rels)). ranked roots boost (graph_of rels) v = 1)"
proof -
  let ?g = "graph_of rels" and ?n = "real (length (rg_nodes (graph_of rels)))"
  let ?start = "start_scores roots boost ?g"
  obtain k where k: "snd (rank_loop maxIterations ?g ?start) = rank_step ?g ((rank_step ?g ^^ k) ?start)"
    using rank_loop_steps [of 99 ?g ?start] by (auto simp: maxIterations_def simp del: rank_loop.simps)
  let ?t = "(rank_step ?g ^^ k) ?start" and ?s = "rank_step ?g ((rank_step ?g ^^ k) ?start)"
  have "\<And>v. 0 \<le> ?start v" using assms by (simp add: start_scores_at)
  moreover have "mass ?g ?start \<le> 2" using start_mass [OF assms(1-3)] assms(4) by simp
  ultimately have t: "\<And>v. 0 \<le> ?t v" "mass ?g ?t \<le> 2" using rank_steps_bounds [OF assms(2), of ?start k] by simp_all
  note b = rank_step_bounds [OF assms(2) t]
  have n: "0 < ?n" using assms(2) by simp
  have low: "3 / (20 * ?n) \<le> ?s v" if "v \<in> set (rg_nodes ?g)" for v using b(2) [OF that] by (simp add: dampingFactor_def)
  have up: "?s v \<le> 37 / 20" if v: "v \<in> set (rg_nodes ?g)" for v
  proof -
    have "\<bar>?s v\<bar> \<le> mass ?g ?s" unfolding mass_def using v by (intro member_le_sum) auto
    with b(1,3) show ?thesis by (smt (verit))
  qed
  obtain v0 where v0: "v0 \<in> set (rg_nodes ?g)" using assms(2) by (meson last_in_set)
  have "0 < 3 / (20 * ?n)" using n by simp
  also note low [OF v0] also note max_score_bounds(2) [OF v0, of ?s]
  finally have pos: "0 < max_score ?g ?s" .
  have "max_score ?g ?s \<le> 37 / 20" unfolding max_score_le using up by simp
  note m = pos this
  then have r: "ranked roots boost ?g v = ?s v / max_score ?g ?s" for v by (simp add: ranked_def normalised_def k Let_def)
  have "3 / (37 * ?n) \<le> ?s v / max_score ?g ?s" if v: "v \<in> set (rg_nodes ?g)" for v
  proof -
    have "3 / (37 * ?n) = 3 / (20 * ?n) / (37 / 20)" by simp
    also have "\<dots> \<le> ?s v / (37 / 20)" using low [OF v] by (rule divide_right_mono) simp
    also have "\<dots> \<le> ?s v / max_score ?g ?s" using m b(1) by (intro divide_left_mono) simp_all
    finally show ?thesis .
  qed
  moreover have "?s v / max_score ?g ?s \<le> 1" if "v \<in> set (rg_nodes ?g)" for v
    using max_score_bounds(2) [OF that, of ?s] m(1) by simp
  moreover have "\<exists>v\<in>set (rg_nodes ?g). ?s v / max_score ?g ?s = 1"
    using max_score_attained [of ?g ?s] m(1) by (metis divide_self less_irrefl)
  ultimately show ?thesis by (simp add: r)
qed

section \<open>What the process makes of them\<close>

text \<open>The handler's configuration: the default one with the interval that is set, an hour for zero.\<close>

definition wired_pagerank :: "wot_settings \<Rightarrow> (string \<Rightarrow> real option) option \<Rightarrow> PageRankCalculator option" where
  "wired_pagerank cfg ext =
     (if wot_enabled cfg \<and> WoTUsePageRank cfg then
        let minutes = (if WoTPageRankInterval cfg > 0 then WoTPageRankInterval cfg else 60) in
        Some (NewPageRankCalculator ext (trust_roots cfg) (Some (DefaultPageRankConfig\<lparr>pc_ComputeInterval := i64 (minutes * (60 * ns_per_sec))\<rparr>)))
      else None)"

text \<open>Runs of the background task: the tables it read and when. A \<open>put\<close> that takes every score is a cache that works.\<close>

definition pagerank_run :: "((string \<times> string) list option \<times> int) list \<Rightarrow> PageRankCalculator \<Rightarrow> PageRankCalculator" where
  "pagerank_run ticks pr = fold (\<lambda>(answer, now). computePageRank answer (\<lambda>_. True) now) ticks pr"

lemma computePageRank_keeps [simp]:
  "pk_roots (computePageRank answer put now pr) = pk_roots pr" "pk_config (computePageRank answer put now pr) = pk_config pr"
  by (simp_all add: computePageRank_def Let_def split: option.split)

lemma GetPageRank_computed:
  assumes "minPageRankSize \<le> length (rg_nodes (graph_of rels))" "v \<in> set (rg_nodes (graph_of rels))"
  shows "GetPageRank (computePageRank (Some rels) (\<lambda>_. True) now pr) v = ranked (pk_roots pr) (pc_OwnerBoost (pk_config pr)) (graph_of rels) v"
  using assms by (simp add: computePageRank_def GetPageRank_def Let_def split: option.split)

lemma wired_pagerank_config:
  assumes "wired_pagerank cfg ext = Some pr"
  shows "pk_roots pr = remdups (trust_roots cfg)" "pc_OwnerBoost (pk_config pr) = 2" "pc_FollowThreshold (pk_config pr) = 1 / 1000"
    "pc_FollowOfFollowThreshold (pk_config pr) = 1 / 10000" "distinct (pk_roots pr)"
  using assms by (auto simp: wired_pagerank_def NewPageRankCalculator_def DefaultPageRankConfig_def trust_roots_def Let_def split: if_splits)

text \<open>A score never lowers the trust of a key that another with a smaller score has.\<close>

lemma more_score_more_trust:
  assumes "GetPageRank pr a \<le> GetPageRank pr b" "0 \<le> GetPageRank pr a" "b \<in> set (pk_roots pr) \<or> a \<notin> set (pk_roots pr)"
    and "0 < pc_FollowOfFollowThreshold (pk_config pr)" "pc_FollowOfFollowThreshold (pk_config pr) \<le> pc_FollowThreshold (pk_config pr)"
  shows "pagerank_level pr b \<le> pagerank_level pr a"
  using assms by (auto simp: pagerank_level_def GetTrustLevelFromPageRank_def less_eq_TrustLevel_def)

text \<open>C22: Between ten and eighty keys, everybody in the graph is trusted like a followed key: the thresholds are fractions of the
  largest score, and the jump to a random key alone is more. It takes a stored contact list to be in the graph.\<close>

theorem small_graph_trusts_everyone:
  assumes "wired_pagerank cfg ext = Some pr" "10 \<le> length (rg_nodes (graph_of rels))" "length (rg_nodes (graph_of rels)) \<le> 80"
    and "v \<in> set (rg_nodes (graph_of rels))"
  shows "pagerank_level (computePageRank (Some rels) (\<lambda>_. True) now pr) v \<le> TrustLevelFollow"
proof -
  let ?n = "real (length (rg_nodes (graph_of rels)))"
  note w = wired_pagerank_config [OF assms(1)]
  have ne: "rg_nodes (graph_of rels) \<noteq> []" using assms(2) by auto
  have n: "0 < 37 * ?n" "37 * ?n \<le> 3000" using ne assms(3) by simp_all
  then have "1 / 1000 \<le> 3 / (37 * ?n)" by (subst pos_le_divide_eq) simp_all
  also have "\<dots> \<le> ranked (pk_roots pr) 2 (graph_of rels) v" using ranked_scores [OF w(5) ne, of 2] assms(4) by simp
  finally have "1 / 1000 \<le> GetPageRank (computePageRank (Some rels) (\<lambda>_. True) now pr) v"
    using assms(2,4) by (simp add: GetPageRank_computed minPageRankSize_def w(2))
  then show ?thesis
    by (auto simp: pagerank_level_def GetTrustLevelFromPageRank_def less_eq_TrustLevel_def w)
qed

text \<open>The roots are only a start: each iteration forgets fifteen percent of it, and the limit is the same without them.\<close>

theorem roots_are_forgotten:
  assumes "distinct roots" "distinct roots'" "rg_nodes (graph_of rels) \<noteq> []"
  shows "rank_dist (graph_of rels) ((rank_step (graph_of rels) ^^ k) (start_scores roots 2 (graph_of rels)))
     ((rank_step (graph_of rels) ^^ k) (start_scores roots' 2 (graph_of rels))) \<le> 4 * dampingFactor ^ k"
proof -
  have "rank_dist (graph_of rels) (start_scores roots 2 (graph_of rels)) (start_scores roots' 2 (graph_of rels)) \<le> 4"
    using rank_dist_le_masses [of "graph_of rels" "start_scores roots 2 (graph_of rels)" "start_scores roots' 2 (graph_of rels)"]
      start_mass [OF assms(1,3), of 2] start_mass [OF assms(2,3), of 2] by simp
  then have "dampingFactor ^ k * rank_dist (graph_of rels) (start_scores roots 2 (graph_of rels)) (start_scores roots' 2 (graph_of rels)) \<le> dampingFactor ^ k * 4"
    by (intro mult_left_mono) simp_all
  with rank_steps_contract show ?thesis by (rule order_trans [THEN order_trans]) simp
qed

text \<open>A relay that has fewer than ten keys computes nothing; a failed query or too small a graph keeps the old scores.\<close>

theorem no_recompute_keeps_scores:
  assumes "answer = None \<or> length (rg_nodes (graph_of (the answer))) < 10"
  shows "computePageRank answer put now pr = pr"
  using assms by (auto simp: computePageRank_def minPageRankSize_def Let_def split: option.split)

section \<open>A small relay\<close>

text \<open>The owner follows eight keys, nobody follows the stranger, who has stored a contact list.\<close>

definition village :: "(string \<times> string) list" where
  "village = map (Pair ''owner'') [''a'', ''b'', ''c'', ''d'', ''e'', ''f'', ''g'', ''h''] @ [(''stranger'', ''a'')]"

definition village_wot :: wot_settings where
  "village_wot = \<lparr>WoTEnabled = True, WoTOwnerPubkey = ''owner'', WoTTrustRoots = [], WoTUnknownPoWBits = 0, WoTUnknownRateLimit = 0,
     WoTCollabKinds = [], WoTCollabRateLimit = 0, WoTUsePageRank = True, WoTPageRankInterval = 60\<rparr>"

lemma village_nodes [simp]:
  "rg_nodes (graph_of village) = [''owner'', ''a'', ''b'', ''c'', ''d'', ''e'', ''f'', ''g'', ''h'', ''stranger'']"
  by (simp add: graph_of_def village_def add_follow_def with_node_def no_follows_def)

lemma small_graph_trusts_everyone_witness:
  "\<exists>pr. wired_pagerank village_wot None = Some pr \<and>
     pagerank_level (computePageRank (Some village) (\<lambda>_. True) 0 pr) ''stranger'' \<le> TrustLevelFollow"
proof -
  obtain pr where pr: "wired_pagerank village_wot None = Some pr"
    by (simp add: wired_pagerank_def village_wot_def wot_enabled_def Let_def)
  with small_graph_trusts_everyone [OF pr, of village "''stranger''" 0] show ?thesis by simp
qed

text \<open>By follow distance the same key is unknown.\<close>

lemma stranger_is_unknown_by_distance:
  assumes "follows s = (\<lambda>a. map snd (filter (\<lambda>r. fst r = a) village))"
  shows "calculateTrustLevel no_graph_faults s [''owner''] 2 ''stranger'' = TrustLevelUnknown"
  using assms by (auto simp: calculateTrustLevel_def followed_by_any_iff followed_at_two_iff no_graph_faults_def village_def)

lemma pagerank_converges_witness:
  "fst (rank_loop maxIterations (graph_of village) (start_scores [''owner''] 2 (graph_of village)))"
  by (rule pagerank_converges) simp_all

end
