(* ===== verification/Process_Start.thy ===== *)
theory Process_Start
  imports Relay_Config
begin

text \<open>
  How a process of the relay comes up: the connection retries and the readiness flag (internal/startup), the lock that
  serialises schema changes among processes, the indexes and the connection string (internal/storage), the bound on
  one database call (internal/dbcall), the client address (internal/clientip), and the start of main.go with what it
  answers before and after it is ready. Several processes start against one database: their steps interleave in the
  relation \<open>start_step\<close>. Times are nanoseconds.
\<close>

section \<open>Retrying a connection\<close>

record BackoffOpts =
  bo_InitialDelay :: int
  bo_MaxDelay :: int

definition DefaultBackoff :: BackoffOpts where
  "DefaultBackoff = \<lparr>bo_InitialDelay = ns_per_sec, bo_MaxDelay = 30 * ns_per_sec\<rparr>"

text \<open>
  What happens while it retries: the error of each attempt (\<open>None\<close> for a success), the number that \<open>rand.Int63n\<close> draws
  after it, and the error of the context if it ends during the wait.
\<close>

record retry_world =
  rw_connect :: "nat \<Rightarrow> string option"
  rw_random :: "nat \<Rightarrow> int \<Rightarrow> int"
  rw_ctx :: "nat \<Rightarrow> string option"

datatype retry_end = RetryConnected | RetryAbandoned string | RetryPanic

text \<open>\<open>rand.Int63n\<close> panics unless its bound is positive. The division truncates towards zero.\<close>

definition quarter :: "int \<Rightarrow> int" where
  "quarter d = (if d < 0 then - ((- d) div 4) else d div 4)"

text \<open>The loop has no bound; its value is the attempts, the end and the waits, or none if it never ends.\<close>

partial_function (option) retry_from_attempt :: "retry_world \<Rightarrow> string \<Rightarrow> int \<Rightarrow> nat \<Rightarrow> int \<Rightarrow> (nat \<times> retry_end \<times> int list) option" where
  "retry_from_attempt w name maxDelay attempt delay =
     (case rw_connect w attempt of
        None \<Rightarrow> Some (attempt, RetryConnected, [])
      | Some e \<Rightarrow>
          if quarter delay \<le> 0 then Some (attempt, RetryPanic, [])
          else let sleep = i64 (delay + rw_random w attempt (quarter delay)) in
            (case rw_ctx w attempt of
               Some c \<Rightarrow> Some (attempt, RetryAbandoned (name @ '': abandoned after '' @ fmt_d (int attempt) @ '' attempts: '' @ c), [sleep])
             | None \<Rightarrow>
                 let doubled = i64 (delay * 2) in
                 Option.bind (retry_from_attempt w name maxDelay (Suc attempt) (if doubled > maxDelay then maxDelay else doubled))
                   (\<lambda>(m, r, sleeps). Some (m, r, sleep # sleeps))))"

definition RetryConnect :: "retry_world \<Rightarrow> string \<Rightarrow> BackoffOpts \<Rightarrow> (nat \<times> retry_end \<times> int list) option" where
  "RetryConnect w name opts =
     (let delay = (if bo_InitialDelay opts \<le> 0 then ns_per_sec else bo_InitialDelay opts);
          maxDelay = (if bo_MaxDelay opts \<le> 0 then 30 * ns_per_sec else bo_MaxDelay opts)
      in retry_from_attempt w name maxDelay 1 delay)"

subsection \<open>The waits\<close>

definition honest_random :: "retry_world \<Rightarrow> bool" where
  "honest_random w \<longleftrightarrow> (\<forall>i n. 0 < n \<longrightarrow> 0 \<le> rw_random w i n \<and> rw_random w i n < n)"

definition good_delays :: "int \<Rightarrow> int \<Rightarrow> bool" where
  "good_delays d m \<longleftrightarrow> 4 \<le> d \<and> d \<le> m \<and> m < 2 ^ 60"

lemma quarter_pos: "4 \<le> d \<Longrightarrow> 0 < quarter d" "0 \<le> d \<Longrightarrow> quarter d \<le> d"
  by (simp_all add: quarter_def)

lemma next_delay:
  assumes "good_delays d m"
  shows "i64 (d * 2) = d * 2" "good_delays (if d * 2 > m then m else d * 2) m"
  using assms by (simp_all add: good_delays_def i64_id in_i64_def)

lemma sleep_range:
  assumes "good_delays d m" "honest_random w"
  shows "i64 (d + rw_random w i (quarter d)) = d + rw_random w i (quarter d)" "d \<le> d + rw_random w i (quarter d)"
    "4 * (d + rw_random w i (quarter d)) < 5 * d"
proof -
  have d: "4 \<le> d" "d < 2 ^ 60" using assms(1) by (simp_all add: good_delays_def)
  then have "0 < quarter d" by (simp add: quarter_pos)
  with assms(2) have r: "0 \<le> rw_random w i (quarter d)" "rw_random w i (quarter d) < quarter d" unfolding honest_random_def by blast+
  moreover have "4 * quarter d \<le> d" using d(1) by (simp add: quarter_def)
  ultimately show "d \<le> d + rw_random w i (quarter d)" "4 * (d + rw_random w i (quarter d)) < 5 * d"
    "i64 (d + rw_random w i (quarter d)) = d + rw_random w i (quarter d)"
    using d by (auto intro!: i64_id simp: in_i64_def)
qed

lemma retry_attempts_return:
  assumes "good_delays d m" "honest_random w" "rw_connect w (attempt + k) = None"
  shows "\<exists>n r sleeps. retry_from_attempt w name m attempt d = Some (n, r, sleeps) \<and> n \<le> attempt + k \<and> attempt \<le> n \<and> r \<noteq> RetryPanic \<and>
    ((\<forall>i. rw_ctx w i = None) \<longrightarrow> r = RetryConnected) \<and> (r = RetryConnected \<longrightarrow> rw_connect w n = None \<and> length sleeps = n - attempt) \<and>
    list_all (\<lambda>s. 4 \<le> s \<and> 4 * s < 5 * m) sleeps"
  using assms
proof (induction k arbitrary: attempt d)
  case 0
  then show ?case by (subst retry_from_attempt.simps) simp
next
  case (Suc k)
  note q = quarter_pos(1) [of d] next_delay [OF Suc.prems(1)] sleep_range [OF Suc.prems(1,2), of attempt]
  have d: "4 \<le> d" "d \<le> m" using Suc.prems(1) by (simp_all add: good_delays_def)
  let ?d = "if d * 2 > m then m else d * 2"
  let ?sleep = "d + rw_random w attempt (quarter d)"
  have s: "4 \<le> ?sleep" "4 * ?sleep < 5 * m" using q(5,6) d by simp_all
  show ?case
  proof (cases "rw_connect w attempt")
    case None
    then show ?thesis by (subst retry_from_attempt.simps) simp
  next
    case (Some e)
    show ?thesis
    proof (cases "rw_ctx w attempt")
      case None
      obtain n r sleeps where r: "retry_from_attempt w name m (Suc attempt) ?d = Some (n, r, sleeps)" "n \<le> Suc attempt + k" "Suc attempt \<le> n"
        "r \<noteq> RetryPanic" "(\<forall>i. rw_ctx w i = None) \<longrightarrow> r = RetryConnected" "r = RetryConnected \<longrightarrow> rw_connect w n = None \<and> length sleeps = n - Suc attempt"
        "list_all (\<lambda>s. 4 \<le> s \<and> 4 * s < 5 * m) sleeps"
        using Suc.IH [OF q(3) Suc.prems(2), of "Suc attempt"] Suc.prems(3) by auto
      then have "retry_from_attempt w name m attempt d = Some (n, r, ?sleep # sleeps)"
        using Some None q d by (subst retry_from_attempt.simps) (simp add: Let_def)
      with r s show ?thesis by (auto simp: Suc_diff_Suc)
    next
      case (Some c)
      with \<open>rw_connect w attempt = Some e\<close> show ?thesis
        using q d s by (subst retry_from_attempt.simps) (auto simp: Let_def)
    qed
  qed
qed

text \<open>The process's own retries: with a database that comes up some day they end, connected, and no wait is longer than
  thirty-seven and a half seconds.\<close>

theorem startup_retries_connect:
  assumes "honest_random w" "rw_connect w (Suc k) = None" "\<forall>i. rw_ctx w i = None"
  shows "\<exists>n sleeps. RetryConnect w name DefaultBackoff = Some (n, RetryConnected, sleeps) \<and> 1 \<le> n \<and> n \<le> Suc k \<and> rw_connect w n = None \<and>
    length sleeps = n - 1 \<and> list_all (\<lambda>s. 2 * s < 75 * ns_per_sec) sleeps"
proof -
  have "good_delays ns_per_sec (30 * ns_per_sec)" by (simp add: good_delays_def)
  from retry_attempts_return [OF this assms(1), of 1 k name] assms(2,3)
  obtain n sleeps where "retry_from_attempt w name (30 * ns_per_sec) 1 ns_per_sec = Some (n, RetryConnected, sleeps)" "n \<le> Suc k" "1 \<le> n"
    "rw_connect w n = None" "length sleeps = n - 1" "list_all (\<lambda>s. 4 \<le> s \<and> 4 * s < 5 * (30 * ns_per_sec)) sleeps" by auto
  then show ?thesis by (auto simp: RetryConnect_def DefaultBackoff_def list_all_iff)
qed

definition third_time_lucky :: retry_world where
  "third_time_lucky = \<lparr>rw_connect = (\<lambda>n. if n < 3 then Some ''refused'' else None), rw_random = (\<lambda>_ _. 0), rw_ctx = (\<lambda>_. None)\<rparr>"

lemma startup_retries_connect_witness:
  "RetryConnect third_time_lucky ''database'' DefaultBackoff = Some (3, RetryConnected, [ns_per_sec, 2 * ns_per_sec]) \<and>
   (\<exists>n sleeps. RetryConnect third_time_lucky ''database'' DefaultBackoff = Some (n, RetryConnected, sleeps) \<and> n \<le> 3)"
proof
  show "RetryConnect third_time_lucky ''database'' DefaultBackoff = Some (3, RetryConnected, [ns_per_sec, 2 * ns_per_sec])"
    by (simp add: RetryConnect_def DefaultBackoff_def third_time_lucky_def retry_from_attempt.simps quarter_def i64_def)
  show "\<exists>n sleeps. RetryConnect third_time_lucky ''database'' DefaultBackoff = Some (n, RetryConnected, sleeps) \<and> n \<le> 3"
    using startup_retries_connect [of third_time_lucky 2 "''database''"] by (auto simp: third_time_lucky_def honest_random_def numeral_3_eq_3)
qed

text \<open>A delay of one to three nanoseconds has no quarter: the first failure panics.\<close>

theorem tiny_delay_panics:
  "0 < d \<Longrightarrow> d < 4 \<Longrightarrow> rw_connect w 1 = Some e \<Longrightarrow> RetryConnect w name \<lparr>bo_InitialDelay = d, bo_MaxDelay = m\<rparr> = Some (1, RetryPanic, [])"
  by (simp add: RetryConnect_def retry_from_attempt.simps quarter_def)

section \<open>One database call\<close>

text \<open>
  A call of a database function under a deadline: when it would return and with what (\<open>None\<close> if never), and when the
  caller's own context ends. If the call ends at the very moment of the deadline, \<open>tie\<close> is the choice of the runtime.
\<close>

datatype call_end = CallDeadlineExceeded | CallCanceled

definition WithDeadline :: "bool \<Rightarrow> int option \<Rightarrow> int \<Rightarrow> (int \<times> 'a) option \<Rightarrow> int \<times> (call_end + 'a)" where
  "WithDeadline tie parent d call =
     (let (stop, why) = (case parent of Some p \<Rightarrow> if p < d then (p, CallCanceled) else (d, CallDeadlineExceeded) | None \<Rightarrow> (d, CallDeadlineExceeded))
      in case call of
           Some (t, a) \<Rightarrow> if t < stop \<or> (t = stop \<and> tie) then (t, Inr a) else (stop, Inl why)
         | None \<Rightarrow> (stop, Inl why))"

theorem call_returns_in_time:
  assumes "WithDeadline tie parent d call = (t, r)"
  shows "t \<le> d \<and> (case r of Inr a \<Rightarrow> call = Some (t, a) | Inl _ \<Rightarrow> \<forall>t' a. call = Some (t', a) \<longrightarrow> t \<le> t')"
  using assms by (auto simp: WithDeadline_def Let_def split: option.splits if_splits prod.splits)

lemma call_returns_in_time_witness: "WithDeadline True None 5 (Some (9, ''row'')) = (5, Inl CallDeadlineExceeded) \<and> (5 :: int) \<le> 5"
proof -
  have w: "WithDeadline True None 5 (Some (9, ''row'')) = (5, Inl CallDeadlineExceeded)" by (simp add: WithDeadline_def)
  with call_returns_in_time [OF w] show ?thesis by simp
qed

section \<open>The client address\<close>

text \<open>\<open>parse\<close> is \<open>net.ParseIP\<close> with \<open>String\<close> after it, \<open>host\<close> what \<open>net.SplitHostPort\<close> finds.\<close>

record client_request =
  cr_real_ip :: string
  cr_forwarded_for :: string
  cr_remote_addr :: string

definition FromRequest :: "(string \<Rightarrow> string option) \<Rightarrow> (string \<Rightarrow> string option) \<Rightarrow> client_request option \<Rightarrow> string" where
  "FromRequest parse host r =
     (case r of None \<Rightarrow> '''' | Some r \<Rightarrow>
        let peer = (case parse (case host (cr_remote_addr r) of Some h \<Rightarrow> h | None \<Rightarrow> cr_remote_addr r) of Some ip \<Rightarrow> ip | None \<Rightarrow> '''') in
        if TrimSpace (cr_real_ip r) \<noteq> ''''
        then (case parse (TrimSpace (cr_real_ip r)) of Some ip \<Rightarrow> ip | None \<Rightarrow> peer)
        else peer)"

definition FromContext :: "(string \<Rightarrow> string option) \<Rightarrow> (string \<Rightarrow> string option) \<Rightarrow> client_request option option \<Rightarrow> string" where
  "FromContext parse host conn = (case conn of None \<Rightarrow> '''' | Some r \<Rightarrow> FromRequest parse host r)"

text \<open>The address is that of X-Real-IP or of the peer, never one that the client wrote into X-Forwarded-For.\<close>

lemma forwarded_for_is_ignored: "FromRequest parse host (Some (r\<lparr>cr_forwarded_for := x\<rparr>)) = FromRequest parse host (Some r)"
  by (simp add: FromRequest_def Let_def cong: option.case_cong)

section \<open>The connection string\<close>

definition GetDatabaseURL :: "base_config \<Rightarrow> string" where
  "GetDatabaseURL c = ''postgres://'' @ DBUser c @ '':'' @ DBPassword c @ ''@'' @ DBHost c @ '':'' @ fmt_d (DBPort c) @ ''/'' @ DBName c @ ''?sslmode=disable''"

text \<open>Nothing is escaped. What a URL names as user and host ends at the first slash, and a password with a slash keeps the
  host out of it.\<close>

definition url_authority :: "string \<Rightarrow> string" where
  "url_authority u = takeWhile (\<lambda>ch. ch \<noteq> CHR ''/'') (drop (length ''postgres://'') u)"

lemma takeWhile_until: "list_all P xs \<Longrightarrow> \<not> P y \<Longrightarrow> takeWhile P (xs @ y # ys) = xs"
  by (induction xs) auto

theorem password_is_not_escaped:
  assumes "list_all (\<lambda>ch. ch \<noteq> CHR ''/'') (DBUser c)"
  shows "url_authority (GetDatabaseURL (c\<lparr>DBPassword := ''pass/word''\<rparr>)) = DBUser c @ '':pass''"
  using takeWhile_until [of "\<lambda>ch. ch \<noteq> CHR ''/''" "DBUser c @ '':pass''" "CHR ''/''"] assms
  by (simp add: url_authority_def GetDatabaseURL_def)

section \<open>Indexes\<close>

text \<open>The catalogue: absent, or present and valid or not. A build that fails may leave an invalid index behind.\<close>

type_synonym catalogue = "string \<Rightarrow> bool option"

definition redundantIndexes :: "(string \<times> string) list" where
  "redundantIndexes = [(''event_kind_created_at_idx'', ''kindtimeidx''), (''event_tagvalues_gin_idx'', ''arbitrarytagvalues'')]"

text \<open>Which statements answer: the check of a twin, the drop and the build of an index; what a failed build leaves.\<close>

record index_faults =
  if_check :: "string \<Rightarrow> bool"
  if_drop :: "string \<Rightarrow> bool"
  if_build :: "string \<Rightarrow> bool"
  if_leftover :: "string \<Rightarrow> bool"

definition dropRedundantIndexes :: "index_faults \<Rightarrow> catalogue \<Rightarrow> catalogue" where
  "dropRedundantIndexes f cat =
     fold (\<lambda>(name, twin) cat.
         if \<not> if_check f twin then cat
         else if cat twin \<noteq> Some True then cat
         else if if_drop f name then cat(name := None) else cat)
       redundantIndexes cat"

definition optimized_indexes :: "string list" where
  "optimized_indexes =
     [''event_pubkey_kind_idx'', ''event_pubkey_created_at_idx'', ''event_metadata_idx'', ''event_contacts_idx'', ''event_text_notes_idx'',
      ''event_reactions_idx'', ''event_reposts_idx'', ''event_dms_idx'', ''event_nip17_chat_idx'', ''event_nip17_relay_list_idx'',
      ''event_giftwrap_idx'', ''event_zaps_idx'', ''event_replaceable_idx'', ''event_param_replaceable_idx'', ''event_labels_idx'']"

text \<open>\<open>CREATE INDEX CONCURRENTLY IF NOT EXISTS\<close> looks at the name alone.\<close>

definition build_index_named :: "index_faults \<Rightarrow> string \<Rightarrow> catalogue \<Rightarrow> catalogue" where
  "build_index_named f name cat =
     (if cat name \<noteq> None then cat
      else if if_build f name then cat(name \<mapsto> True)
      else if if_leftover f name then cat(name \<mapsto> False)
      else cat)"

definition OptimizeIndexes :: "index_faults \<Rightarrow> catalogue \<Rightarrow> catalogue" where
  "OptimizeIndexes f cat = fold (build_index_named f) optimized_indexes (dropRedundantIndexes f cat)"

lemma build_named_at: "build_index_named f name cat i = (if i \<noteq> name \<or> cat i \<noteq> None then cat i else if if_build f i then Some True else if if_leftover f i then Some False else None)"
  by (simp add: build_index_named_def)

lemma fold_build:
  "fold (build_index_named f) names cat i =
    (if i \<notin> set names \<or> cat i \<noteq> None then cat i else if if_build f i then Some True else if if_leftover f i then Some False else None)"
  by (induction names arbitrary: cat) (auto simp: build_named_at)

lemma twins_checked:
  "list_all (\<lambda>(name, twin). name \<notin> set optimized_indexes \<and> twin \<notin> set optimized_indexes \<and> twin \<notin> set (map fst redundantIndexes))
     redundantIndexes"
  "distinct (map fst redundantIndexes)"
  by code_simp+

lemma twins_apart:
  "(name, twin) \<in> set redundantIndexes \<Longrightarrow>
   name \<notin> set optimized_indexes \<and> twin \<notin> set optimized_indexes \<and> (\<forall>other. (twin, other) \<notin> set redundantIndexes)"
  using twins_checked(1) by (force simp: list_all_iff)

lemma drop_at: "dropRedundantIndexes f cat i =
   (if \<exists>twin. (i, twin) \<in> set redundantIndexes \<and> if_check f twin \<and> cat twin = Some True \<and> if_drop f i then None else cat i)"
  by (simp add: dropRedundantIndexes_def redundantIndexes_def) blast

text \<open>A duplicate goes only while its twin serves: whatever fails, a column that a valid index serves keeps one.\<close>

theorem optimize_keeps_a_valid_twin:
  assumes "(name, twin) \<in> set redundantIndexes" "cat name = Some True \<or> cat twin = Some True"
  shows "OptimizeIndexes f cat name = Some True \<or> OptimizeIndexes f cat twin = Some True"
proof -
  note t = twins_apart [OF assms(1)]
  have "dropRedundantIndexes f cat twin = cat twin" using t by (auto simp: drop_at)
  moreover have "twin' = twin" if "(name, twin') \<in> set redundantIndexes" for twin'
    using eq_key_imp_eq_value [OF twins_checked(2) that assms(1)] .
  ultimately show ?thesis using assms(2) t by (auto simp: OptimizeIndexes_def fold_build drop_at)
qed

lemma OptimizeIndexes_at:
  assumes "name \<in> set optimized_indexes"
  shows "OptimizeIndexes f cat name =
    (if cat name \<noteq> None then cat name else if if_build f name then Some True else if if_leftover f name then Some False else None)"
proof -
  have "dropRedundantIndexes f cat name = cat name" using twins_apart [of name] assms by (auto simp: drop_at)
  with assms show ?thesis by (simp add: OptimizeIndexes_def fold_build)
qed

text \<open>An index that a failed build left invalid is taken for present: no later start repairs it.\<close>

theorem invalid_index_is_never_repaired:
  assumes "name \<in> set optimized_indexes" "cat name = Some False"
  shows "fold OptimizeIndexes starts cat name = Some False"
  using assms by (induction starts arbitrary: cat) (simp_all add: OptimizeIndexes_at)

section \<open>The lock of the schema\<close>

text \<open>One poll of \<open>pg_try_advisory_lock\<close>, and whether the context has ended by then.\<close>

datatype lock_poll = PollFails string | LockGot | LockHeld

record lock_world =
  lw_open :: "string option"
  lw_conn :: "string option"
  lw_poll :: "nat \<Rightarrow> lock_poll"
  lw_ended :: "nat \<Rightarrow> bool"

partial_function (option) poll_ddl_lock :: "lock_world \<Rightarrow> nat \<Rightarrow> string option option" where
  "poll_ddl_lock w i =
     (case lw_poll w i of
        PollFails e \<Rightarrow> Some (Some (''pg_try_advisory_lock: '' @ e))
      | LockGot \<Rightarrow> Some None
      | LockHeld \<Rightarrow> if lw_ended w i then Some (Some ''timed out waiting for DDL advisory lock'') else poll_ddl_lock w (Suc i))"

definition AcquireDDLLock :: "lock_world \<Rightarrow> string option option" where
  "AcquireDDLLock w =
     (case lw_open w of Some e \<Rightarrow> Some (Some (''ddl lock connection: '' @ e)) | None \<Rightarrow>
        (case lw_conn w of Some e \<Rightarrow> Some (Some (''ddl lock dedicated conn: '' @ e)) | None \<Rightarrow> poll_ddl_lock w 0))"

lemma poll_ddl_lock_returns:
  assumes "lw_ended w (i + k)"
  shows "poll_ddl_lock w i \<noteq> None"
  using assms
proof (induction k arbitrary: i)
  case 0
  then show ?case by (subst poll_ddl_lock.simps) (auto split: lock_poll.split)
next
  case (Suc k)
  then have "poll_ddl_lock w (Suc i) \<noteq> None" by simp
  then show ?case by (subst poll_ddl_lock.simps) (auto split: lock_poll.split)
qed

theorem lock_wait_ends:
  assumes "lw_ended w k"
  shows "AcquireDDLLock w \<noteq> None"
  using poll_ddl_lock_returns [of w 0 k] assms by (auto simp: AcquireDDLLock_def split: option.split)

text \<open>It never takes the lock for held by itself when the database did not say so.\<close>

lemma poll_ddl_lock_got: "poll_ddl_lock w i = Some None \<Longrightarrow> \<exists>j\<ge>i. lw_poll w j = LockGot"
proof -
  have "r = None \<longrightarrow> (\<exists>j\<ge>i. lw_poll w j = LockGot)" if "poll_ddl_lock w i = Some r" for r
  proof (rule poll_ddl_lock.raw_induct [where P = "\<lambda>w i r. r = None \<longrightarrow> (\<exists>j\<ge>i. lw_poll w j = LockGot)", OF _ that])
    fix rec w i r
    assume IH: "\<And>w i r. rec w i = Some r \<Longrightarrow> r = None \<longrightarrow> (\<exists>j\<ge>i. lw_poll w j = LockGot)"
      and r: "(case lw_poll w i of PollFails e \<Rightarrow> Some (Some (''pg_try_advisory_lock: '' @ e)) | LockGot \<Rightarrow> Some None
        | LockHeld \<Rightarrow> if lw_ended w i then Some (Some ''timed out waiting for DDL advisory lock'') else rec w (Suc i)) = Some r"
    show "r = None \<longrightarrow> (\<exists>j\<ge>i. lw_poll w j = LockGot)"
    proof
      assume "r = None"
      with r IH [of w "Suc i" r] show "\<exists>j\<ge>i. lw_poll w j = LockGot"
        by (auto split: lock_poll.splits if_splits intro: Suc_leD)
    qed
  qed
  then show "poll_ddl_lock w i = Some None \<Longrightarrow> \<exists>j\<ge>i. lw_poll w j = LockGot" by blast
qed

section \<open>Several processes start\<close>

text \<open>
  Where a process is: waiting for the lock or the database; with the lock, and then with its backend's schema made; with
  the indexes tried; with the tombstone table made; with the lock released; ready; or ended.
\<close>

datatype start_point = WaitsForLock | HasLock | HasBackend | HasIndexes | HasTombstones | HasUnlocked | IsReady | HasExited

text \<open>The database that they share: the session that holds the advisory lock, the tombstone table, the indexes.\<close>

record start_world =
  sw_lock :: "nat option"
  sw_tombstones :: bool
  sw_catalogue :: catalogue
  sw_points :: "start_point list"

definition in_ddl :: "start_point \<Rightarrow> bool" where
  "in_ddl p \<longleftrightarrow> p \<in> {HasLock, HasBackend, HasIndexes, HasTombstones}"

definition moves :: "start_world \<Rightarrow> nat \<Rightarrow> start_point \<Rightarrow> bool" where
  "moves w i p \<longleftrightarrow> i < length (sw_points w) \<and> sw_points w ! i = p"

definition at_point :: "nat \<Rightarrow> start_point \<Rightarrow> start_world \<Rightarrow> start_world" where
  "at_point i q w = w\<lparr>sw_points := (sw_points w)[i := q]\<rparr>"

text \<open>Closing a connection gives up the lock if it holds it.\<close>

definition let_go :: "nat \<Rightarrow> start_world \<Rightarrow> start_world" where
  "let_go i w = (if sw_lock w = Some i then w\<lparr>sw_lock := None\<rparr> else w)"

text \<open>
  The steps of one process in the order of main.go; each failing step of the connection goes back to the wait, a failing
  tombstone table ends the process. Unless connections are kept (\<open>keeps\<close>), one that dies takes the lock with it, and the
  process does not notice.
\<close>

inductive start_step :: "bool \<Rightarrow> start_world \<Rightarrow> start_world \<Rightarrow> bool" for keeps where
  locks: "moves w i WaitsForLock \<Longrightarrow> sw_lock w = None \<Longrightarrow> start_step keeps w (at_point i HasLock (w\<lparr>sw_lock := Some i\<rparr>))"
| backend: "moves w i HasLock \<Longrightarrow> start_step keeps w (at_point i HasBackend w)"
| no_backend: "moves w i HasLock \<Longrightarrow> start_step keeps w (at_point i WaitsForLock (let_go i w))"
| indexes: "moves w i HasBackend \<Longrightarrow> start_step keeps w (at_point i HasIndexes (w\<lparr>sw_catalogue := OptimizeIndexes f (sw_catalogue w)\<rparr>))"
| no_raw: "moves w i HasBackend \<Longrightarrow> start_step keeps w (at_point i WaitsForLock (let_go i w))"
| tombstones: "moves w i HasIndexes \<Longrightarrow> start_step keeps w (at_point i HasTombstones (w\<lparr>sw_tombstones := True\<rparr>))"
| no_tombstones: "moves w i HasIndexes \<Longrightarrow> start_step keeps w (at_point i HasExited (let_go i w))"
| unlocks: "moves w i HasTombstones \<Longrightarrow> start_step keeps w (at_point i HasUnlocked (let_go i w))"
| ready: "moves w i HasUnlocked \<Longrightarrow> start_step keeps w (at_point i IsReady w)"
| exits: "i < length (sw_points w) \<Longrightarrow> start_step keeps w (at_point i HasExited (let_go i w))"
| lost: "\<not> keeps \<Longrightarrow> i < length (sw_points w) \<Longrightarrow> start_step keeps w (let_go i w)"

inductive_cases start_stepE: "start_step keeps w w'"

definition fresh_start :: "nat \<Rightarrow> catalogue \<Rightarrow> start_world" where
  "fresh_start n cat = \<lparr>sw_lock = None, sw_tombstones = False, sw_catalogue = cat, sw_points = replicate n WaitsForLock\<rparr>"

text \<open>Whether any process may serve or write deletions.\<close>

definition serves :: "start_point \<Rightarrow> bool" where
  "serves p \<longleftrightarrow> p \<in> {HasTombstones, HasUnlocked, IsReady}"

definition guarded :: "start_world \<Rightarrow> bool" where
  "guarded w \<longleftrightarrow> (\<forall>p\<in>set (sw_points w). serves p \<longrightarrow> sw_tombstones w)"

lemma let_go_simps [simp]: "sw_points (let_go i w) = sw_points w" "sw_tombstones (let_go i w) = sw_tombstones w"
  "sw_catalogue (let_go i w) = sw_catalogue w"
  by (simp_all add: let_go_def)

lemma at_point_simps [simp]: "sw_lock (at_point i q w) = sw_lock w" "sw_tombstones (at_point i q w) = sw_tombstones w"
  "sw_catalogue (at_point i q w) = sw_catalogue w" "sw_points (at_point i q w) = (sw_points w)[i := q]"
  by (simp_all add: at_point_def)

lemma set_list_update: "p \<in> set (xs[i := q]) \<Longrightarrow> p = q \<or> p \<in> set xs"
  using set_update_subset_insert [of xs i q] by blast

lemma moves_in: "moves w i p \<Longrightarrow> p \<in> set (sw_points w)"
  by (auto simp: moves_def)

lemma guarded_step: "start_step keeps w w' \<Longrightarrow> guarded w \<Longrightarrow> guarded w'"
  by (induction rule: start_step.induct) (auto simp: guarded_def serves_def dest!: set_list_update moves_in)

lemma guarded_steps: "(start_step keeps)\<^sup>*\<^sup>* w w' \<Longrightarrow> guarded w \<Longrightarrow> guarded w'"
  by (induction rule: rtranclp_induct) (auto intro: guarded_step)

text \<open>No process serves traffic before the table of deletions exists, whatever fails and however processes interleave.\<close>

theorem ready_process_has_tombstones:
  assumes "(start_step keeps)\<^sup>*\<^sup>* (fresh_start n cat) w" "IsReady \<in> set (sw_points w)"
  shows "sw_tombstones w"
proof -
  have "guarded (fresh_start n cat)" by (simp add: guarded_def fresh_start_def serves_def)
  with guarded_steps [OF assms(1)] assms(2) show ?thesis by (auto simp: guarded_def serves_def)
qed

text \<open>As long as no connection dies, at most one process changes the schema.\<close>

definition one_at_a_time :: "start_world \<Rightarrow> bool" where
  "one_at_a_time w \<longleftrightarrow> (\<forall>i<length (sw_points w). in_ddl (sw_points w ! i) \<longrightarrow> sw_lock w = Some i)"

lemma nth_update: "j < length xs \<Longrightarrow> xs[i := q] ! j = (if j = i then q else xs ! j)"
  by (cases "j = i") simp_all

lemma one_at_a_time_enter:
  "one_at_a_time w \<Longrightarrow> sw_lock w = None \<Longrightarrow> one_at_a_time (at_point i q (w\<lparr>sw_lock := Some i\<rparr>))"
  by (auto simp: one_at_a_time_def nth_update split: if_splits)

lemma one_at_a_time_stay:
  "one_at_a_time w \<Longrightarrow> moves w i p \<Longrightarrow> in_ddl p \<Longrightarrow> sw_lock w' = sw_lock w \<Longrightarrow> sw_points w' = sw_points w \<Longrightarrow> one_at_a_time (at_point i q w')"
  by (auto simp: one_at_a_time_def moves_def nth_update split: if_splits)

lemma one_at_a_time_leave:
  "one_at_a_time w \<Longrightarrow> \<not> in_ddl q \<Longrightarrow> one_at_a_time (at_point i q (let_go i w))"
  by (auto simp: one_at_a_time_def let_go_def nth_update split: if_splits)

lemma one_at_a_time_pass:
  "one_at_a_time w \<Longrightarrow> \<not> in_ddl q \<Longrightarrow> one_at_a_time (at_point i q w)"
  by (auto simp: one_at_a_time_def nth_update split: if_splits)

lemma in_ddl_simps [simp]: "in_ddl HasLock" "in_ddl HasBackend" "in_ddl HasIndexes" "in_ddl HasTombstones"
  "\<not> in_ddl WaitsForLock" "\<not> in_ddl HasUnlocked" "\<not> in_ddl IsReady" "\<not> in_ddl HasExited"
  by (simp_all add: in_ddl_def)

lemma one_at_a_time_step: "start_step keeps w w' \<Longrightarrow> keeps \<Longrightarrow> one_at_a_time w \<Longrightarrow> one_at_a_time w'"
  by (induction rule: start_step.induct)
    (simp_all add: one_at_a_time_enter one_at_a_time_leave one_at_a_time_pass, auto elim: one_at_a_time_stay)

lemma one_at_a_time_steps: "(start_step keeps)\<^sup>*\<^sup>* w w' \<Longrightarrow> keeps \<Longrightarrow> one_at_a_time w \<Longrightarrow> one_at_a_time w'"
  by (induction rule: rtranclp_induct) (auto intro: one_at_a_time_step)

theorem schema_changes_one_at_a_time:
  assumes "(start_step True)\<^sup>*\<^sup>* (fresh_start n cat) w" "i < length (sw_points w)" "j < length (sw_points w)"
    and "in_ddl (sw_points w ! i)" "in_ddl (sw_points w ! j)"
  shows "i = j"
proof -
  have "one_at_a_time (fresh_start n cat)" by (simp add: one_at_a_time_def fresh_start_def)
  from one_at_a_time_steps [OF assms(1) _ this] have "one_at_a_time w" by simp
  with assms(2-) show ?thesis unfolding one_at_a_time_def by (metis option.inject)
qed

text \<open>The lock is held by a connection of its own, which nobody looks at again: if it dies, the next process takes the lock while
  the first is still at work.\<close>

theorem dead_lock_connection_admits_two:
  "\<exists>w. (start_step False)\<^sup>*\<^sup>* (fresh_start 2 cat) w \<and> in_ddl (sw_points w ! 0) \<and> in_ddl (sw_points w ! 1)"
proof -
  let ?w1 = "at_point 0 HasLock (fresh_start 2 cat\<lparr>sw_lock := Some 0\<rparr>)"
  let ?w2 = "let_go 0 ?w1"
  let ?w3 = "at_point 1 HasLock (?w2\<lparr>sw_lock := Some 1\<rparr>)"
  have p: "sw_points (fresh_start 2 cat) = [WaitsForLock, WaitsForLock]" by (simp add: fresh_start_def numeral_2_eq_2)
  have "start_step False (fresh_start 2 cat) ?w1" by (rule start_step.locks) (simp_all add: moves_def p, simp add: fresh_start_def)
  moreover have "start_step False ?w1 ?w2" by (rule start_step.lost) (simp_all add: p)
  moreover have "start_step False ?w2 ?w3" by (rule start_step.locks) (simp_all add: moves_def p let_go_def)
  ultimately have "(start_step False)\<^sup>*\<^sup>* (fresh_start 2 cat) ?w3" by (meson rtranclp.rtrancl_into_rtrancl rtranclp.rtrancl_refl)
  then show ?thesis by (intro exI [of _ ?w3]) (simp add: p)
qed

text \<open>A healthy process comes through: from a fresh database one process makes the tables and is ready.\<close>

lemma one_process_gets_ready:
  "(start_step keeps)\<^sup>*\<^sup>* (fresh_start 1 cat)
     \<lparr>sw_lock = None, sw_tombstones = True, sw_catalogue = OptimizeIndexes f cat, sw_points = [IsReady]\<rparr>"
proof -
  let ?w = "\<lambda>l t c p. \<lparr>sw_lock = l, sw_tombstones = t, sw_catalogue = c, sw_points = [p]\<rparr>"
  have s: "start_step keeps (?w None False cat WaitsForLock) (?w (Some 0) False cat HasLock)"
    "start_step keeps (?w (Some 0) False cat HasLock) (?w (Some 0) False cat HasBackend)"
    "start_step keeps (?w (Some 0) False cat HasBackend) (?w (Some 0) False (OptimizeIndexes f cat) HasIndexes)"
    "start_step keeps (?w (Some 0) False (OptimizeIndexes f cat) HasIndexes) (?w (Some 0) True (OptimizeIndexes f cat) HasTombstones)"
    "start_step keeps (?w (Some 0) True (OptimizeIndexes f cat) HasTombstones) (?w None True (OptimizeIndexes f cat) HasUnlocked)"
    "start_step keeps (?w None True (OptimizeIndexes f cat) HasUnlocked) (?w None True (OptimizeIndexes f cat) IsReady)"
    using start_step.locks [of "?w None False cat WaitsForLock" 0 keeps] start_step.backend [of "?w (Some 0) False cat HasLock" 0 keeps]
      start_step.indexes [of "?w (Some 0) False cat HasBackend" 0 keeps f]
      start_step.tombstones [of "?w (Some 0) False (OptimizeIndexes f cat) HasIndexes" 0 keeps]
      start_step.unlocks [of "?w (Some 0) True (OptimizeIndexes f cat) HasTombstones" 0 keeps]
      start_step.ready [of "?w None True (OptimizeIndexes f cat) HasUnlocked" 0 keeps]
    by (simp_all add: moves_def at_point_def let_go_def)
  have "fresh_start 1 cat = ?w None False cat WaitsForLock" by (simp add: fresh_start_def)
  with s show ?thesis by (metis (no_types, lifting) converse_rtranclp_into_rtranclp rtranclp.rtrancl_refl)
qed

definition healthy_indexes :: index_faults where
  "healthy_indexes = \<lparr>if_check = (\<lambda>_. True), if_drop = (\<lambda>_. True), if_build = (\<lambda>_. True), if_leftover = (\<lambda>_. False)\<rparr>"

lemma ready_process_has_tombstones_witness:
  "sw_tombstones \<lparr>sw_lock = None, sw_tombstones = True, sw_catalogue = OptimizeIndexes healthy_indexes Map.empty, sw_points = [IsReady]\<rparr>"
  using ready_process_has_tombstones [OF one_process_gets_ready [where f = healthy_indexes and cat = Map.empty]] by simp

section \<open>What a process answers\<close>

datatype http_answer = Healthy | NotReady | ReadyNow | StartingDocument | MetricsPage | AdminSite | RelaySite

definition ready_answer :: "bool \<Rightarrow> http_answer" where
  "ready_answer ready = (if ready then ReadyNow else NotReady)"

text \<open>The mux served while the database is waited for.\<close>

definition startup_mux :: "bool \<Rightarrow> string \<Rightarrow> http_answer" where
  "startup_mux ready path =
     (if path = ''/ready'' then ready_answer ready
      else if path = ''/health'' then Healthy
      else if path = ''/metrics'' then MetricsPage
      else StartingDocument)"

text \<open>The relay's mux; everything but three paths goes on to the relay and what is mounted beside it.\<close>

definition relay_mux :: "bool \<Rightarrow> string \<Rightarrow> http_answer" where
  "relay_mux ready path =
     (if path = ''/ready'' then ready_answer ready
      else if path = ''/health'' then Healthy
      else if path = ''/metrics'' then MetricsPage
      else RelaySite)"

text \<open>The port is cut at the first colon; hosts of the admin site are told by a prefix, if there are admins.\<close>

definition host_router :: "bool \<Rightarrow> bool \<Rightarrow> string \<Rightarrow> string \<Rightarrow> http_answer" where
  "host_router admins ready host path =
     (if HasPrefix (takeWhile (\<lambda>ch. ch \<noteq> CHR '':'') host) ''relay-admin.'' \<and> admins then AdminSite else relay_mux ready path)"

text \<open>The handler is swapped when everything is registered, and the process marked ready right after it.\<close>

definition process_answer :: "bool \<Rightarrow> start_world \<Rightarrow> nat \<Rightarrow> string \<Rightarrow> string \<Rightarrow> http_answer" where
  "process_answer admins w i host path =
     (if i < length (sw_points w) \<and> sw_points w ! i = IsReady then host_router admins True host path else startup_mux False path)"

text \<open>C40: A process that answers for the relay or for its admin site, or says that it is ready, has the table of deletions
  behind it, whatever failed on the way and however the processes interleaved.\<close>

theorem no_traffic_before_tombstones:
  assumes "(start_step keeps)\<^sup>*\<^sup>* (fresh_start n cat) w" "process_answer admins w i host path \<in> {RelaySite, AdminSite, ReadyNow}"
  shows "sw_tombstones w"
proof (rule ready_process_has_tombstones [OF assms(1)])
  show "IsReady \<in> set (sw_points w)"
    using assms(2) by (auto simp: process_answer_def startup_mux_def ready_answer_def split: if_splits dest: nth_mem)
qed

lemma no_traffic_before_tombstones_witness:
  "process_answer True \<lparr>sw_lock = None, sw_tombstones = True, sw_catalogue = OptimizeIndexes healthy_indexes Map.empty, sw_points = [IsReady]\<rparr>
     0 ''r:80'' ''/'' = RelaySite \<and>
   sw_tombstones \<lparr>sw_lock = None, sw_tombstones = True, sw_catalogue = OptimizeIndexes healthy_indexes Map.empty, sw_points = [IsReady]\<rparr>"
  using no_traffic_before_tombstones [OF one_process_gets_ready [where f = healthy_indexes and cat = Map.empty],
    where i = 0 and host = "''r:80''" and path = "''/''" and admins = True]
  by (simp add: process_answer_def host_router_def relay_mux_def)

text \<open>\<open>DDL_LOCK_TIMEOUT\<close>: unset is five minutes, a text that is no positive duration stops the process (\<open>None\<close>).\<close>

definition ddl_timeout :: "(string \<Rightarrow> int option) \<Rightarrow> env \<Rightarrow> int option" where
  "ddl_timeout ParseDuration e =
     (if e ''DDL_LOCK_TIMEOUT'' = '''' then Some (5 * 60 * ns_per_sec)
      else case ParseDuration (e ''DDL_LOCK_TIMEOUT'') of Some d \<Rightarrow> if d > 0 then Some d else None | None \<Rightarrow> None)"

text \<open>
  The connections that one attempt opens and closes. Each step fails with a text; a backend whose schema cannot be made is
  given up without closing its pool.
\<close>

datatype conn_event = Opens string | Closes string

definition still_open :: "conn_event list \<Rightarrow> string list" where
  "still_open trace = fold (\<lambda>e xs. case e of Opens r \<Rightarrow> xs @ [r] | Closes r \<Rightarrow> remove1 r xs) trace []"

definition NewPostgresBackend :: "string option \<Rightarrow> string option \<Rightarrow> string option \<Rightarrow> string option \<times> conn_event list" where
  "NewPostgresBackend parse ping init =
     (case parse of Some e \<Rightarrow> (Some (''failed to create tuned connector: '' @ e), []) | None \<Rightarrow>
        case ping of Some e \<Rightarrow> (Some (''failed to connect to postgres: '' @ e), [Opens ''backend'', Closes ''backend'']) | None \<Rightarrow>
        case init of Some e \<Rightarrow> (Some (''failed to initialize postgres backend: '' @ e), [Opens ''backend'']) | None \<Rightarrow> (None, [Opens ''backend'']))"

definition NewRawConnection :: "string option \<Rightarrow> string option \<Rightarrow> string option \<times> conn_event list" where
  "NewRawConnection parse ping =
     (case parse of Some e \<Rightarrow> (Some (''failed to create tuned connector: '' @ e), []) | None \<Rightarrow>
        case ping of Some e \<Rightarrow> (Some (''failed to ping database: '' @ e), [Opens ''raw'', Closes ''raw'']) | None \<Rightarrow> (None, [Opens ''raw'']))"

definition connect_attempt ::
  "string option \<Rightarrow> string option \<times> conn_event list \<Rightarrow> string option \<times> conn_event list \<Rightarrow> string option \<times> conn_event list" where
  "connect_attempt lock backend raw =
     (case lock of Some e \<Rightarrow> (Some (''DDL lock: '' @ e), []) | None \<Rightarrow>
        case backend of
          (Some e, t) \<Rightarrow> (Some (''postgres backend: '' @ e), [Opens ''lock''] @ t @ [Closes ''lock''])
        | (None, t) \<Rightarrow>
            (case raw of
               (Some e, t') \<Rightarrow> (Some (''raw connection: '' @ e), [Opens ''lock''] @ t @ t' @ [Closes ''backend'', Closes ''lock''])
             | (None, t') \<Rightarrow> (None, [Opens ''lock''] @ t @ t')))"

text \<open>An attempt that fails leaves nothing open, but for the pool of a backend whose schema could not be made.\<close>

theorem failed_attempt_leaks_only_a_backend:
  assumes "connect_attempt lock (NewPostgresBackend bparse bping binit) (NewRawConnection rparse rping) = (Some e, trace)"
  shows "still_open trace = (if lock = None \<and> bparse = None \<and> bping = None \<and> binit \<noteq> None then [''backend''] else [])"
  using assms by (auto simp: connect_attempt_def NewPostgresBackend_def NewRawConnection_def still_open_def split: option.splits)

end
