(* ===== verification/Relay_Monitor.thy ===== *)
theory Relay_Monitor
  imports Relay_Queries Event_Pipeline Calendar_Communities
begin

text \<open>
  internal/nip66: the readers of relay discovery and monitor announcement events, and the self-monitor of
  monitor.go, which probes the relay's own document every five minutes and stores a report on it; and the assembly
  of the relay in internal/relay/relay.go, whose document is what the probe reads. HTTP, the JSON decoder, the
  signature and the key derivation are parameters. The wait group and the ticker are left out: the loop reads
  a list of ticks and stops.
\<close>

section \<open>Reading discovery events\<close>

definition KindRelayDiscovery :: int where "KindRelayDiscovery = 30166"
definition KindMonitorAnnouncement :: int where "KindMonitorAnnouncement = 10166"

record relay_report =
  rp_RelayURL :: string
  rp_Network :: string
  rp_SupportedNIPs :: "int list"
  rp_RelayType :: string
  rp_RTTOpen :: int
  rp_RTTRead :: int
  rp_RTTWrite :: int
  rp_GeoHash :: string
  rp_Requirements :: "string \<Rightarrow> string option"
  rp_RawEvent :: event

fun rtt_switch :: "tag \<Rightarrow> relay_report \<Rightarrow> relay_report" where
  "rtt_switch (n # ty # v # rest) rd =
     (if n \<noteq> ''rtt'' then rd
      else if ty = ''open'' then rd\<lparr>rp_RTTOpen := loose_number v\<rparr>
      else if ty = ''read'' then rd\<lparr>rp_RTTRead := loose_number v\<rparr>
      else if ty = ''write'' then rd\<lparr>rp_RTTWrite := loose_number v\<rparr>
      else rd)"
| "rtt_switch _ rd = rd"

fun requirement_switch :: "tag \<Rightarrow> relay_report \<Rightarrow> relay_report" where
  "requirement_switch (n # v # rest) rd =
     (if n = ''R'' then rd\<lparr>rp_Requirements := (rp_Requirements rd)(v \<mapsto> (case rest of [] \<Rightarrow> '''' | w # _ \<Rightarrow> w))\<rparr> else rd)"
| "requirement_switch _ rd = rd"

definition ParseRelayDiscovery :: "event \<Rightarrow> relay_report option" where
  "ParseRelayDiscovery ev =
     (if ev_kind ev \<noteq> KindRelayDiscovery then None
      else let ts = ev_tags ev;
             rd = \<lparr>rp_RelayURL = first_tag ts ''d'', rp_Network = first_tag ts ''n'',
                   rp_SupportedNIPs = filter (\<lambda>n. n > 0) (map loose_number (all_tags ts ''N'')),
                   rp_RelayType = first_tag ts ''T'', rp_RTTOpen = 0, rp_RTTRead = 0, rp_RTTWrite = 0,
                   rp_GeoHash = first_tag ts ''g'', rp_Requirements = Map.empty, rp_RawEvent = ev\<rparr>
           in Some (fold requirement_switch ts (fold rtt_switch ts rd)))"

record monitor_announcement =
  an_Frequency :: int
  an_Timeout :: int
  an_CheckTypes :: "string list"
  an_GeoHash :: string
  an_RawEvent :: event

definition ParseMonitorAnnouncement :: "event \<Rightarrow> monitor_announcement option" where
  "ParseMonitorAnnouncement ev =
     (if ev_kind ev \<noteq> KindMonitorAnnouncement then None
      else let ts = ev_tags ev in
        Some \<lparr>an_Frequency = loose_number (first_tag ts ''frequency''), an_Timeout = loose_number (first_tag ts ''timeout''),
              an_CheckTypes = all_tags ts ''c'', an_GeoHash = first_tag ts ''g'', an_RawEvent = ev\<rparr>)"

section \<open>The self-monitor\<close>

text \<open>\<open>strings.TrimSuffix\<close>, and \<open>strings.Replace(s, old, new, 1)\<close> for a text \<open>old\<close> that is not empty.\<close>

definition TrimSuffix :: "string \<Rightarrow> string \<Rightarrow> string" where
  "TrimSuffix s suf = (if HasPrefix (rev s) (rev suf) then take (length s - length suf) s else s)"

fun replace_first :: "string \<Rightarrow> string \<Rightarrow> string \<Rightarrow> string" where
  "replace_first old new [] = []"
| "replace_first old new (c # cs) =
     (if HasPrefix (c # cs) old then new @ drop (length old) (c # cs) else c # replace_first old new cs)"

definition normalizeRelayURL :: "string \<Rightarrow> string" where
  "normalizeRelayURL url =
     (let u = TrimSuffix url ''/'' in if \<not> HasPrefix u ''wss://'' \<and> \<not> HasPrefix u ''ws://'' then ''wss://'' @ u else u)"

definition probe_url :: "string \<Rightarrow> string" where
  "probe_url url = replace_first ''ws://'' ''http://'' (replace_first ''wss://'' ''https://'' url)"

text \<open>\<open>hex.DecodeString\<close> has an error on an odd number of digits and on a character that is none;
  \<open>GetPublicKey\<close> is the library's.\<close>

definition is_hex_digit :: "char \<Rightarrow> bool" where
  "is_hex_digit c \<longleftrightarrow> (c \<ge> CHR ''0'' \<and> c \<le> CHR ''9'') \<or> (c \<ge> CHR ''a'' \<and> c \<le> CHR ''f'') \<or> (c \<ge> CHR ''A'' \<and> c \<le> CHR ''F'')"

datatype key_error = NotHex | WrongLength | NoPublicKey

definition derivePubkey :: "(string \<Rightarrow> string option) \<Rightarrow> string \<Rightarrow> key_error + string" where
  "derivePubkey GetPublicKey key =
     (if odd (length key) \<or> \<not> list_all is_hex_digit key then Inl NotHex
      else if length key div 2 \<noteq> 32 then Inl WrongLength
      else case GetPublicKey key of None \<Rightarrow> Inl NoPublicKey | Some pub \<Rightarrow> Inr pub)"

text \<open>The key generator hashes the decimal text of the clock; \<open>sha256_hex\<close> is the hash, in hexadecimal.\<close>

definition GenerateMonitorKey :: "(string \<Rightarrow> string) \<Rightarrow> int \<Rightarrow> string" where
  "GenerateMonitorKey sha256_hex nanos = sha256_hex (fmt_d nanos)"

text \<open>A JSON value, and \<open>int(v)\<close> of a number: outside the 64-bit range its value depends on the
  platform and is the parameter \<open>wide\<close>.\<close>

datatype json_value = JNumber real | JText string | JList "json_value list" | JOther

type_synonym json_object = "string \<Rightarrow> json_value option"

definition int_of_float :: "(real \<Rightarrow> int) \<Rightarrow> real \<Rightarrow> int" where
  "int_of_float wide v = (let n = (if v < 0 then \<lceil>v\<rceil> else \<lfloor>v\<rfloor>) in if in_i64 n then n else wide v)"

record monitor_config =
  mc_RelayURL :: string
  mc_MonitorKey :: string
  mc_Interval :: int
  mc_publishes :: bool

record self_monitor =
  sm_relayURL :: string
  sm_monitorKey :: string
  sm_pubkey :: string
  sm_interval :: int
  sm_publishes :: bool
  sm_nip11Cache :: json_object

datatype monitor_error = RelayURLRequired | MonitorKeyRequired | DeriveFailed key_error

definition NewSelfMonitor :: "(string \<Rightarrow> string option) \<Rightarrow> monitor_config \<Rightarrow> monitor_error + self_monitor" where
  "NewSelfMonitor GetPublicKey cfg =
     (if mc_RelayURL cfg = '''' then Inl RelayURLRequired
      else if mc_MonitorKey cfg = '''' then Inl MonitorKeyRequired
      else case derivePubkey GetPublicKey (mc_MonitorKey cfg) of
             Inl e \<Rightarrow> Inl (DeriveFailed e)
           | Inr pub \<Rightarrow> Inr \<lparr>sm_relayURL = normalizeRelayURL (mc_RelayURL cfg), sm_monitorKey = mc_MonitorKey cfg, sm_pubkey = pub,
               sm_interval = mc_Interval cfg, sm_publishes = mc_publishes cfg, sm_nip11Cache = Map.empty\<rparr>)"

record relay_health =
  rh_Online :: bool
  rh_RTTOpen :: int
  rh_RTTRead :: int
  rh_RTTWrite :: int
  rh_RTTNIP11 :: int
  rh_SupportedNIPs :: "int list"
  rh_Network :: string
  rh_Software :: string
  rh_Version :: string
  rh_Error :: string

text \<open>One probe: what building the request, the request and the decoder of its body answer, with the error texts; the
  request has a status, a body and the milliseconds it took.\<close>

record probe_world =
  pw_bad_request :: "string \<Rightarrow> string option"
  pw_do :: "string \<Rightarrow> string + int \<times> string \<times> int"
  pw_decode :: "string \<Rightarrow> string + json_object"
  pw_wide :: "real \<Rightarrow> int"

definition nips_of :: "(real \<Rightarrow> int) \<Rightarrow> json_object \<Rightarrow> int list" where
  "nips_of wide doc = (case doc ''supported_nips'' of
       Some (JList vs) \<Rightarrow> List.map_filter (\<lambda>v. case v of JNumber x \<Rightarrow> Some (int_of_float wide x) | _ \<Rightarrow> None) vs
     | _ \<Rightarrow> [])"

definition text_of :: "json_object \<Rightarrow> string \<Rightarrow> string" where
  "text_of doc k = (case doc k of Some (JText t) \<Rightarrow> t | _ \<Rightarrow> '''')"

definition fresh_health :: relay_health where
  "fresh_health = \<lparr>rh_Online = False, rh_RTTOpen = 0, rh_RTTRead = 0, rh_RTTWrite = 0, rh_RTTNIP11 = 0, rh_SupportedNIPs = [],
     rh_Network = ''clearnet'', rh_Software = '''', rh_Version = '''', rh_Error = ''''\<rparr>"

definition probeRelay :: "probe_world \<Rightarrow> self_monitor \<Rightarrow> relay_health \<times> self_monitor" where
  "probeRelay w m =
     (let url = probe_url (sm_relayURL m) in
      case pw_bad_request w url of
        Some e \<Rightarrow> (fresh_health\<lparr>rh_Error := ''failed to create request: '' @ e\<rparr>, m)
      | None \<Rightarrow>
      case pw_do w url of
        Inl e \<Rightarrow> (fresh_health\<lparr>rh_Error := ''NIP-11 probe failed: '' @ e\<rparr>, m)
      | Inr (status, body, ms) \<Rightarrow>
          (let h = fresh_health\<lparr>rh_RTTNIP11 := ms, rh_RTTOpen := ms\<rparr> in
           if status \<noteq> 200 then (h\<lparr>rh_Error := ''NIP-11 returned status '' @ fmt_d status\<rparr>, m)
           else case pw_decode w body of
                  Inl e \<Rightarrow> (h\<lparr>rh_Error := ''failed to parse NIP-11: '' @ e\<rparr>, m)
                | Inr doc \<Rightarrow>
                    (h\<lparr>rh_Online := True, rh_SupportedNIPs := nips_of (pw_wide w) doc, rh_Software := text_of doc ''software'',
                       rh_Version := text_of doc ''version'', rh_RTTRead := ms, rh_RTTWrite := ms\<rparr>,
                     m\<lparr>sm_nip11Cache := doc\<rparr>)))"

definition rtt_tag :: "string \<Rightarrow> int \<Rightarrow> tag list" where
  "rtt_tag ty ms = (if ms > 0 then [[''rtt'', ty, fmt_d ms]] else [])"

definition buildDiscoveryEvent :: "int \<Rightarrow> self_monitor \<Rightarrow> relay_health \<Rightarrow> event" where
  "buildDiscoveryEvent now m h =
     new_event KindRelayDiscovery (sm_pubkey m) now (if rh_Error h \<noteq> '''' then ''error: '' @ rh_Error h else '''')
       ([[''d'', sm_relayURL m], [''n'', rh_Network h]]
        @ rtt_tag ''open'' (rh_RTTOpen h) @ rtt_tag ''read'' (rh_RTTRead h) @ rtt_tag ''write'' (rh_RTTWrite h)
        @ map (\<lambda>n. [''N'', fmt_d n]) (rh_SupportedNIPs h)
        @ opt_tag ''s'' (rh_Software h) @ opt_tag ''v'' (rh_Version h))"

text \<open>
  One round: probe, build, sign, publish. \<open>sign\<close> fills in id and signature or fails; \<open>publish\<close> changes the store
  and may report an error, which is logged.
\<close>

record 'db monitor_world =
  mw_probe :: probe_world
  mw_now :: int
  mw_sign :: "string \<Rightarrow> event \<Rightarrow> event option"
  mw_publish :: "event \<Rightarrow> 'db \<Rightarrow> bool \<times> 'db"

definition publishHealth :: "'db monitor_world \<Rightarrow> self_monitor \<times> 'db \<Rightarrow> self_monitor \<times> 'db" where
  "publishHealth w st =
     (case st of (m, db) \<Rightarrow>
      case probeRelay (mw_probe w) m of (h, m1) \<Rightarrow>
      case mw_sign w (sm_monitorKey m) (buildDiscoveryEvent (mw_now w) m h) of
        None \<Rightarrow> (m1, db)
      | Some ev \<Rightarrow> (m1, if sm_publishes m then snd (mw_publish w ev db) else db))"

text \<open>\<open>Start\<close>: a report at once, then one per tick until \<open>Stop\<close> has closed the channel.\<close>

datatype 'db monitor_event = Ticked "'db monitor_world" | StopClosed

fun monitor_loop :: "'db monitor_event list \<Rightarrow> self_monitor \<times> 'db \<Rightarrow> self_monitor \<times> 'db" where
  "monitor_loop [] st = st"
| "monitor_loop (Ticked w # es) st = monitor_loop es (publishHealth w st)"
| "monitor_loop (StopClosed # es) st = st"

definition monitor_Start :: "'db monitor_world \<Rightarrow> 'db monitor_event list \<Rightarrow> self_monitor \<times> 'db \<Rightarrow> self_monitor \<times> 'db" where
  "monitor_Start w es st = monitor_loop es (publishHealth w st)"

text \<open>The wiring in cmd/relay/main.go: the check is registered whenever NIP-66 is on, the monitor runs when it is asked for and
  has a key. \<open>None\<close>: no monitor.\<close>

definition main_monitor :: "(string \<Rightarrow> string option) \<Rightarrow> base_config \<Rightarrow> feature_config \<Rightarrow> self_monitor option" where
  "main_monitor GetPublicKey b feat =
     (if NIP66Enabled feat \<and> NIP66SelfMonitor feat \<and> NIP66MonitorKey feat \<noteq> ''''
      then case NewSelfMonitor GetPublicKey \<lparr>mc_RelayURL = RelayURL b, mc_MonitorKey = NIP66MonitorKey feat,
                  mc_Interval = 300 * ns_per_sec, mc_publishes = True\<rparr> of
             Inl _ \<Rightarrow> None
           | Inr m \<Rightarrow> Some m
      else None)"

section \<open>The relay and its document\<close>

record relay_info =
  ri_Name :: string
  ri_Description :: string
  ri_PubKey :: string
  ri_Contact :: string
  ri_SupportedNIPs :: "int list"
  ri_Software :: string
  ri_Version :: string
  ri_Limitation :: limitation

datatype store_hook = WriteAheadHook | SaveEventHook

text \<open>What is left of the framework's relay: the fields and hook lists the constructor sets; the query hook turns a filter
  and the contents of the cache into an answer (\<open>None\<close>: an error) and the cache after it.\<close>

record khatru_relay =
  kr_ServiceURL :: string
  kr_Info :: relay_info
  kr_MaxMessageSize :: int
  kr_Negentropy :: bool
  kr_StoreEvent :: "store_hook list"
  kr_QueryEvents :: "(reqctx \<Rightarrow> nfilter \<Rightarrow> event_kv \<Rightarrow> event list option \<times> event_kv) list"

definition relay_info_of :: "string \<Rightarrow> base_config \<Rightarrow> access_config \<Rightarrow> limit_config \<Rightarrow> group_config \<Rightarrow> feature_config \<Rightarrow> relay_info" where
  "relay_info_of version b acc l g feat =
     \<lparr>ri_Name = RelayName b, ri_Description = ''Cloistr Nostr relay - built with khatru'', ri_PubKey = RelayPubkey b,
      ri_Contact = RelayContact b, ri_SupportedNIPs = supportedNIPs g feat,
      ri_Software = ''https://git.aegis-hq.xyz/coldforge/cloistr-relay'', ri_Version = version,
      ri_Limitation = buildLimitation l acc\<rparr>"

definition plain_query :: "query_env \<Rightarrow> reqctx \<Rightarrow> nfilter \<Rightarrow> event list option" where
  "plain_query e ctx f =
     (case (if f_search f \<noteq> '''' then (case qe_search e of None \<Rightarrow> Some [] | Some sb \<Rightarrow> sb f) else qe_db e f) of
        None \<Rightarrow> None
      | Some src \<Rightarrow> Some (filter (\<lambda>ev. \<not> IsExpired ctx ev) src))"

definition NewRelay :: "string \<Rightarrow> base_config \<Rightarrow> access_config \<Rightarrow> limit_config \<Rightarrow> group_config \<Rightarrow> feature_config \<Rightarrow> query_env \<Rightarrow> khatru_relay" where
  "NewRelay version b acc l g feat e =
     \<lparr>kr_ServiceURL = RelayURL b, kr_Info = relay_info_of version b acc l g feat, kr_MaxMessageSize = MaxMessageSize l,
      kr_Negentropy = True, kr_StoreEvent = [SaveEventHook],
      kr_QueryEvents = [\<lambda>ctx f kv. (plain_query e ctx f, kv)]\<rparr>"

definition NewRelayWithOptions ::
  "string \<Rightarrow> base_config \<Rightarrow> access_config \<Rightarrow> limit_config \<Rightarrow> group_config \<Rightarrow> feature_config \<Rightarrow> query_env \<Rightarrow> bool \<Rightarrow> khatru_relay" where
  "NewRelayWithOptions version b acc l g feat e wal =
     \<lparr>kr_ServiceURL = RelayURL b, kr_Info = relay_info_of version b acc l g feat, kr_MaxMessageSize = MaxMessageSize l,
      kr_Negentropy = True, kr_StoreEvent = [if wal then WriteAheadHook else SaveEventHook],
      kr_QueryEvents = [relay_query e]\<rparr>"

section \<open>Facts\<close>

subsection \<open>The two constructors\<close>

lemma keep_nothing: "qe_cache e = None \<Longrightarrow> fold (keep_cacheable e ctx) evs kv = kv"
  by (induction evs arbitrary: kv) (simp_all add: keep_cacheable_def)

lemma cacheless_query: "qe_cache e = None \<Longrightarrow> relay_query e ctx f kv = (plain_query e ctx f, kv)"
  by (simp add: relay_query_def cached_answer_def source_of_def plain_query_def keep_nothing Let_def split: option.split)

text \<open>The plain constructor repeats the other one: without a cache and a write-ahead log they build the same relay.\<close>

theorem plain_relay_is_the_bare_one:
  assumes "qe_cache e = None"
  shows "NewRelayWithOptions v b acc l g feat e False = NewRelay v b acc l g feat e"
  using assms by (simp add: NewRelayWithOptions_def NewRelay_def cacheless_query fun_eq_iff)

subsection \<open>Numbers written and read\<close>

lemma i64_shift: "i64 (y + k * 2 ^ 64) = i64 y"
proof -
  have "y + k * 2 ^ 64 + 2 ^ 63 = y + 2 ^ 63 + k * 2 ^ 64" by simp
  then show ?thesis by (simp only: i64_def mod_mult_self1)
qed

lemma i64_step: "i64 (i64 x * 10 + d) = i64 (x * 10 + d)"
proof -
  define q where "q = (x + 2 ^ 63) div 2 ^ 64"
  have "i64 x = x - q * 2 ^ 64" unfolding i64_def q_def by (simp add: minus_div_mult_eq_mod [symmetric])
  then have "i64 x * 10 + d = x * 10 + d + (- q * 10) * 2 ^ 64" by (simp add: algebra_simps)
  then show ?thesis by (simp only: i64_shift)
qed

lemma loose_digits: "loose_number (nat_digits n) = i64 (int n)"
proof (induction n rule: nat_digits.induct)
  case (1 n)
  show ?case
  proof (cases "n < 10")
    case True
    then show ?thesis by (simp add: nat_digits.simps [of n] loose_number_def)
  next
    case False
    with "1.IH" have "loose_number (nat_digits n) = i64 (i64 (int (n div 10)) * 10 + int (n mod 10))"
      by (simp add: nat_digits.simps [of n] loose_number_def)
    also have "\<dots> = i64 (int (n div 10) * 10 + int (n mod 10))" by (rule i64_step)
    also have "int (n div 10) * 10 + int (n mod 10) = int n" by (metis div_mult_mod_eq of_nat_add of_nat_mult of_nat_numeral)
    finally show ?thesis .
  qed
qed

text \<open>The readers skip the sign.\<close>

lemma loose_fmt_d: "loose_number (fmt_d n) = i64 \<bar>n\<bar>"
proof (cases "n < 0")
  case True
  have "loose_number (CHR ''-'' # ds) = loose_number ds" for ds by (simp add: loose_number_def digit_of_def)
  with True show ?thesis by (simp add: fmt_d_def loose_digits)
qed (simp add: fmt_d_def loose_digits)

subsection \<open>A report reads back\<close>

lemma switches_skip:
  "n \<noteq> ''rtt'' \<Longrightarrow> rtt_switch [n, v] rd = rd" "n \<noteq> ''R'' \<Longrightarrow> requirement_switch [n, v] rd = rd"
  by simp_all

lemma report_tags [simp]:
  "all_tags (rtt_tag ty ms) n = (if n = ''rtt'' \<and> ms > 0 then [ty] else [])"
  "all_tags (opt_tag m v) n = (if m = n \<and> v \<noteq> '''' then [v] else [])"
  "all_tags (map (\<lambda>k. [''N'', fmt_d k]) ks) n = (if n = ''N'' then map fmt_d ks else [])"
  "fold requirement_switch (rtt_tag ty ms) rd = rd"
  "m \<noteq> ''R'' \<Longrightarrow> fold requirement_switch (opt_tag m v) rd = rd"
  "fold requirement_switch (map (\<lambda>k. [''N'', fmt_d k]) ks) rd = rd"
  "fold rtt_switch (opt_tag m v) rd = rd"
  "fold rtt_switch (map (\<lambda>k. [''N'', fmt_d k]) ks) rd = rd"
  by (auto simp: rtt_tag_def opt_tag_def) (induction ks; simp)+

lemma first_of_all: "first_tag ts n = (case all_tags ts n of [] \<Rightarrow> '''' | v # _ \<Rightarrow> v)"
  by (simp add: first_tag_def tag_scan_eq_hd split: list.split)

lemma read_rtt: "fold rtt_switch (rtt_tag ty ms) rd =
  (if ms \<le> 0 then rd
   else if ty = ''open'' then rd\<lparr>rp_RTTOpen := i64 ms\<rparr>
   else if ty = ''read'' then rd\<lparr>rp_RTTRead := i64 ms\<rparr>
   else if ty = ''write'' then rd\<lparr>rp_RTTWrite := i64 ms\<rparr>
   else rd)"
  by (simp add: rtt_tag_def loose_fmt_d)

text \<open>What the reader makes of a report the monitor has built: everything but the software, which it does not look for, and
  with NIPs of no or a negative number missing or turned around.\<close>

theorem report_reads_back:
  "ParseRelayDiscovery (buildDiscoveryEvent now m h) =
     Some \<lparr>rp_RelayURL = sm_relayURL m, rp_Network = rh_Network h,
           rp_SupportedNIPs = filter (\<lambda>n. n > 0) (map (\<lambda>n. i64 \<bar>n\<bar>) (rh_SupportedNIPs h)), rp_RelayType = '''',
           rp_RTTOpen = i64 (max 0 (rh_RTTOpen h)), rp_RTTRead = i64 (max 0 (rh_RTTRead h)), rp_RTTWrite = i64 (max 0 (rh_RTTWrite h)),
           rp_GeoHash = '''', rp_Requirements = Map.empty, rp_RawEvent = buildDiscoveryEvent now m h\<rparr>"
proof -
  have k: "ev_kind (buildDiscoveryEvent now m h) = KindRelayDiscovery" by (simp add: buildDiscoveryEvent_def new_event_def)
  have z: "i64 0 = 0" by (simp add: in_i64_def)
  show ?thesis
    by (simp add: ParseRelayDiscovery_def k)
      (simp add: buildDiscoveryEvent_def new_event_def first_of_all read_rtt loose_fmt_d Let_def comp_def max_def z)
qed

subsection \<open>The probe\<close>

lemma probe_outcome:
  "rh_Online (fst (probeRelay w m)) \<longleftrightarrow> rh_Error (fst (probeRelay w m)) = ''''"
  "rh_Network (fst (probeRelay w m)) = ''clearnet''"
  "\<not> rh_Online (fst (probeRelay w m)) \<Longrightarrow> rh_SupportedNIPs (fst (probeRelay w m)) = []"
  by (auto simp: probeRelay_def fresh_health_def Let_def split: option.splits sum.splits)

lemma probe_keeps: "sm_relayURL (snd (probeRelay w m)) = sm_relayURL m" "sm_publishes (snd (probeRelay w m)) = sm_publishes m"
  by (simp_all add: probeRelay_def Let_def split: option.split sum.split)

lemma normalized_is_relay_url: "isValidRelayURL (normalizeRelayURL u)"
  by (simp add: isValidRelayURL_def normalizeRelayURL_def Let_def)

text \<open>The probe goes to the web server under the relay's address, with TLS exactly when the address asks for it.\<close>

theorem probe_keeps_tls:
  assumes "isValidRelayURL u"
  shows "HasPrefix (probe_url u) (if HasPrefix u ''wss://'' then ''https://'' else ''http://'')"
proof (cases "HasPrefix u ''wss://''")
  case True
  then obtain t where "u = ''wss://'' @ t" using HasPrefix_iff by blast
  then show ?thesis by (simp add: probe_url_def)
next
  case False
  with assms obtain t where "u = ''ws://'' @ t" by (auto simp: isValidRelayURL_def HasPrefix_iff)
  then show ?thesis by (simp add: probe_url_def)
qed

lemma probe_keeps_tls_witness: "HasPrefix (probe_url ''wss://r'') ''https://''"
  using probe_keeps_tls [of "''wss://r''"] by (simp add: isValidRelayURL_def)

lemma whole_number [simp]: "in_i64 n \<Longrightarrow> int_of_float wide (of_int n) = n"
  by (simp add: int_of_float_def Let_def)

lemma nips_of_document:
  assumes "doc ''supported_nips'' = Some (JList (map (\<lambda>n. JNumber (of_int n)) ns))" "list_all in_i64 ns"
  shows "nips_of wide doc = ns"
proof -
  have "List.map_filter (\<lambda>v. case v of JNumber x \<Rightarrow> Some (int_of_float wide x) | _ \<Rightarrow> None) (map (\<lambda>n. JNumber (of_int n)) ns) = ns"
    using assms(2) by (induction ns) (simp_all add: map_filter_simps)
  with assms(1) show ?thesis by (simp add: nips_of_def)
qed

lemma supported_nips_positive: "list_all (\<lambda>n. in_i64 n \<and> n > 0) (supportedNIPs g feat)"
  by (simp add: supportedNIPs_def in_i64_def)

lemma kept_nips:
  assumes "list_all (\<lambda>n. in_i64 n \<and> n > 0) ns"
  shows "filter (\<lambda>n. n > 0) (map (\<lambda>n. i64 \<bar>n\<bar>) ns) = ns"
  using assms by (induction ns) simp_all

text \<open>A probe that succeeds on the relay's own document: who reads the report learns the NIPs the relay serves, and one time for
  opening, reading and writing, that of the probe.\<close>

theorem own_report_lists_the_document:
  assumes "pw_bad_request w (probe_url (sm_relayURL m)) = None" "pw_do w (probe_url (sm_relayURL m)) = Inr (200, body, ms)"
    and "pw_decode w body = Inr doc" "doc ''supported_nips'' = Some (JList (map (\<lambda>n. JNumber (of_int n)) (supportedNIPs g feat)))"
    and "0 \<le> ms" "in_i64 ms"
    and "ParseRelayDiscovery (buildDiscoveryEvent now m (fst (probeRelay w m))) = Some rd"
  shows "rp_SupportedNIPs rd = supportedNIPs g feat \<and> rp_RTTOpen rd = ms \<and> rp_RTTRead rd = ms \<and> rp_RTTWrite rd = ms"
proof -
  have "list_all in_i64 (supportedNIPs g feat)" using supported_nips_positive [of g feat] by (simp add: list_all_iff)
  from nips_of_document [of doc "supportedNIPs g feat", OF assms(4) this] have "nips_of (pw_wide w) doc = supportedNIPs g feat" .
  with assms(1-3) have "rh_SupportedNIPs (fst (probeRelay w m)) = supportedNIPs g feat"
    and "rh_RTTOpen (fst (probeRelay w m)) = ms" "rh_RTTRead (fst (probeRelay w m)) = ms" "rh_RTTWrite (fst (probeRelay w m)) = ms"
    by (simp_all add: probeRelay_def fresh_health_def Let_def)
  with assms(5-7) kept_nips [OF supported_nips_positive] show ?thesis
    by (auto simp: report_reads_back max_def)
qed

definition test_monitor :: self_monitor where
  "test_monitor = \<lparr>sm_relayURL = ''wss://r'', sm_monitorKey = replicate 64 CHR ''1'', sm_pubkey = ''p'', sm_interval = 300 * ns_per_sec,
     sm_publishes = True, sm_nip11Cache = Map.empty\<rparr>"

definition own_probe :: "group_config \<Rightarrow> feature_config \<Rightarrow> probe_world" where
  "own_probe g feat = \<lparr>pw_bad_request = (\<lambda>_. None), pw_do = (\<lambda>u. if u = ''https://r'' then Inr (200, ''{}'', 12) else Inl ''no route''),
     pw_decode = (\<lambda>_. Inr [''supported_nips'' \<mapsto> JList (map (\<lambda>n. JNumber (of_int n)) (supportedNIPs g feat))]), pw_wide = (\<lambda>_. 0)\<rparr>"

lemma test_probe_url: "probe_url ''wss://r'' = ''https://r''"
  by (simp add: probe_url_def)

lemma own_report_lists_the_document_witness:
  "\<forall>g feat. map_option rp_SupportedNIPs (ParseRelayDiscovery (buildDiscoveryEvent 5 test_monitor
     (fst (probeRelay (own_probe g feat) test_monitor)))) = Some (supportedNIPs g feat)"
proof (intro allI)
  fix g feat
  obtain rd where rd: "ParseRelayDiscovery (buildDiscoveryEvent 5 test_monitor (fst (probeRelay (own_probe g feat) test_monitor))) = Some rd"
    by (simp add: report_reads_back)
  with own_report_lists_the_document [of "own_probe g feat" test_monitor "''{}''" 12
      "[''supported_nips'' \<mapsto> JList (map (\<lambda>n. JNumber (of_int n)) (supportedNIPs g feat))]" g feat 5 rd]
  show "map_option rp_SupportedNIPs (ParseRelayDiscovery (buildDiscoveryEvent 5 test_monitor
     (fst (probeRelay (own_probe g feat) test_monitor)))) = Some (supportedNIPs g feat)"
    by (simp add: own_probe_def test_monitor_def test_probe_url in_i64_def)
qed

subsection \<open>The loop\<close>

text \<open>What a signer may do to an event, and a store that keeps what it is given.\<close>

definition honest_signer :: "'db monitor_world \<Rightarrow> bool" where
  "honest_signer w \<longleftrightarrow> (\<forall>k ev ev'. mw_sign w k ev = Some ev' \<longrightarrow> ev_kind ev' = ev_kind ev \<and> ev_tags ev' = ev_tags ev)"

definition appends :: "event list monitor_world \<Rightarrow> bool" where
  "appends w \<longleftrightarrow> (\<forall>ev db. snd (mw_publish w ev db) = db @ [ev])"

definition about_relay :: "string \<Rightarrow> event \<Rightarrow> bool" where
  "about_relay u ev \<longleftrightarrow> validateRelayDiscovery ev = Accept \<and> map_option rp_RelayURL (ParseRelayDiscovery ev) = Some u"

fun ticks :: "'db monitor_event list \<Rightarrow> 'db monitor_world list" where
  "ticks [] = []"
| "ticks (Ticked w # es) = w # ticks es"
| "ticks (StopClosed # es) = []"

lemma loop_is_fold: "monitor_loop es st = fold publishHealth (ticks es) st"
  by (induction es st rule: monitor_loop.induct) simp_all

lemma fold_requirement_url: "rp_RelayURL (fold requirement_switch ts rd) = rp_RelayURL rd"
proof -
  have "rp_RelayURL (requirement_switch t rd) = rp_RelayURL rd" for t rd by (cases "(t, rd)" rule: requirement_switch.cases) simp_all
  then show ?thesis by (induction ts arbitrary: rd) simp_all
qed

lemma fold_rtt_url: "rp_RelayURL (fold rtt_switch ts rd) = rp_RelayURL rd"
proof -
  have "rp_RelayURL (rtt_switch t rd) = rp_RelayURL rd" for t rd by (cases "(t, rd)" rule: rtt_switch.cases) simp_all
  then show ?thesis by (induction ts arbitrary: rd) simp_all
qed

text \<open>The reader's relay is the value the check looks at.\<close>

lemma relay_of_report: "ev_kind ev = 30166 \<Longrightarrow> map_option rp_RelayURL (ParseRelayDiscovery ev) = Some (first_tag (ev_tags ev) ''d'')"
  by (simp add: ParseRelayDiscovery_def KindRelayDiscovery_def Let_def fold_requirement_url fold_rtt_url)

lemma about_relay_iff: "ev_kind ev = 30166 \<Longrightarrow> isValidRelayURL u \<Longrightarrow> first_tag (ev_tags ev) ''d'' = u \<Longrightarrow> about_relay u ev"
  by (auto simp: about_relay_def relay_of_report validateRelayDiscovery_def Let_def isValidRelayURL_def)

lemma built_report: "ev_kind (buildDiscoveryEvent now m h) = 30166" "first_tag (ev_tags (buildDiscoveryEvent now m h)) ''d'' = sm_relayURL m"
  by (simp_all add: buildDiscoveryEvent_def new_event_def KindRelayDiscovery_def first_tag_def)

lemma one_round:
  assumes "honest_signer w" "appends w" "isValidRelayURL (sm_relayURL m)" "publishHealth w (m, db) = (m', db')"
  shows "sm_relayURL m' = sm_relayURL m \<and> sm_publishes m' = sm_publishes m \<and>
    (db' = db \<or> (\<exists>ev. db' = db @ [ev] \<and> about_relay (sm_relayURL m) ev))"
proof -
  obtain h m1 where p: "probeRelay (mw_probe w) m = (h, m1)" by (cases "probeRelay (mw_probe w) m")
  with probe_keeps [of "mw_probe w" m] have m1: "sm_relayURL m1 = sm_relayURL m" "sm_publishes m1 = sm_publishes m" by simp_all
  show ?thesis
  proof (cases "mw_sign w (sm_monitorKey m) (buildDiscoveryEvent (mw_now w) m h)")
    case None
    with assms(4) p m1 show ?thesis by (auto simp: publishHealth_def)
  next
    case (Some ev)
    with assms(1) have "ev_kind ev = 30166" "first_tag (ev_tags ev) ''d'' = sm_relayURL m"
      by (auto simp: honest_signer_def built_report)
    from about_relay_iff [OF this(1) assms(3) this(2)] Some assms(2,4) p m1 show ?thesis
      by (auto simp: publishHealth_def appends_def split: if_splits)
  qed
qed

lemma rounds:
  assumes "list_all (\<lambda>w. honest_signer w \<and> appends w) ws" "isValidRelayURL u" "sm_relayURL m = u" "list_all (about_relay u) db"
  shows "list_all (about_relay u) (snd (fold publishHealth ws (m, db)))"
  using assms
proof (induction ws arbitrary: m db)
  case (Cons w ws)
  obtain m' db' where r: "publishHealth w (m, db) = (m', db')" by (cases "publishHealth w (m, db)")
  from one_round [OF _ _ _ r] Cons.prems have "sm_relayURL m' = u" "list_all (about_relay u) db'" by auto
  with Cons.IH Cons.prems(1,2) show ?case by (simp add: r)
qed simp

text \<open>Whatever the relay's address is written like and whatever the probes find: the reports the monitor stores past the relay's checks
  pass the relay's own check of such events, and read back as reports on that address.\<close>

theorem stored_reports_would_be_accepted:
  assumes "NewSelfMonitor pk cfg = Inr m" "list_all (\<lambda>w. honest_signer w \<and> appends w) (w # ticks es)"
  shows "list_all (\<lambda>ev. validateRelayDiscovery ev = Accept \<and>
      map_option rp_RelayURL (ParseRelayDiscovery ev) = Some (normalizeRelayURL (mc_RelayURL cfg))) (snd (monitor_Start w es (m, [])))"
proof -
  have "sm_relayURL m = normalizeRelayURL (mc_RelayURL cfg)"
    using assms(1) by (auto simp: NewSelfMonitor_def split: if_splits sum.splits)
  from rounds [OF assms(2) normalized_is_relay_url this, of "[]"] show ?thesis
    by (auto simp: monitor_Start_def loop_is_fold about_relay_def list_all_iff)
qed

definition test_world :: "event list monitor_world" where
  "test_world = \<lparr>mw_probe = own_probe (load_groups (\<lambda>_. '''') '''' []) (load_features (\<lambda>_. '''')), mw_now = 5,
     mw_sign = (\<lambda>k ev. Some (ev\<lparr>ev_id := ''i''\<rparr>)), mw_publish = (\<lambda>ev db. (True, db @ [ev]))\<rparr>"

lemma stored_reports_would_be_accepted_witness:
  "\<forall>cfg. cfg = \<lparr>mc_RelayURL = ''r/'', mc_MonitorKey = replicate 64 CHR ''1'', mc_Interval = 300 * ns_per_sec, mc_publishes = True\<rparr> \<longrightarrow>
     (\<exists>m. NewSelfMonitor (\<lambda>_. Some ''p'') cfg = Inr m \<and>
      list_all (\<lambda>ev. validateRelayDiscovery ev = Accept) (snd (monitor_Start test_world [Ticked test_world, StopClosed] (m, []))))"
proof (intro allI impI)
  fix cfg :: monitor_config
  assume c: "cfg = \<lparr>mc_RelayURL = ''r/'', mc_MonitorKey = replicate 64 CHR ''1'', mc_Interval = 300 * ns_per_sec, mc_publishes = True\<rparr>"
  have "derivePubkey (\<lambda>_. Some ''p'') (mc_MonitorKey cfg) = Inr ''p''" unfolding c by code_simp
  with c obtain m where m: "NewSelfMonitor (\<lambda>_. Some ''p'') cfg = Inr m" by (simp add: NewSelfMonitor_def)
  have "list_all (\<lambda>w. honest_signer w \<and> appends w) (test_world # ticks [Ticked test_world, StopClosed])"
    by (auto simp: honest_signer_def appends_def test_world_def)
  from stored_reports_would_be_accepted [OF m this] m show
    "\<exists>m. NewSelfMonitor (\<lambda>_. Some ''p'') cfg = Inr m \<and>
      list_all (\<lambda>ev. validateRelayDiscovery ev = Accept) (snd (monitor_Start test_world [Ticked test_world, StopClosed] (m, [])))"
    by (auto simp: list_all_iff)
qed

text \<open>One report at the start and one for each tick before the stop, whatever the probes find, as long as the key signs.\<close>

theorem one_report_per_tick:
  assumes "sm_publishes m" "list_all (\<lambda>w. appends w \<and> (\<forall>k ev. mw_sign w k ev \<noteq> None)) (w # ticks es)"
  shows "length (snd (monitor_Start w es (m, db))) = length db + 1 + length (ticks es)"
proof -
  have step: "sm_publishes (fst (publishHealth w st)) = sm_publishes (fst st) \<and>
      length (snd (publishHealth w st)) = length (snd st) + 1"
    if "sm_publishes (fst st)" "appends w \<and> (\<forall>k ev. mw_sign w k ev \<noteq> None)" for w st
    using that probe_keeps(2) [of "mw_probe w" "fst st"]
    by (auto simp: publishHealth_def appends_def simp del: not_None_eq split: prod.split option.split)
  have "length (snd (fold publishHealth ws st)) = length (snd st) + length ws"
    if "sm_publishes (fst st)" "list_all (\<lambda>w. appends w \<and> (\<forall>k ev. mw_sign w k ev \<noteq> None)) ws" for ws st
    using that
  proof (induction ws arbitrary: st)
    case (Cons w ws)
    from Cons.prems step [of st w] have "sm_publishes (fst (publishHealth w st))" "length (snd (publishHealth w st)) = length (snd st) + 1"
      by auto
    with Cons.IH [of "publishHealth w st"] Cons.prems(2) show ?case by simp
  qed simp
  from this [of "(m, db)" "w # ticks es"] assms show ?thesis by (simp add: monitor_Start_def loop_is_fold)
qed

lemma one_report_per_tick_witness:
  "length (snd (monitor_Start test_world [Ticked test_world, Ticked test_world, StopClosed, Ticked test_world] (test_monitor, []))) = 3"
  using one_report_per_tick [of test_monitor test_world "[Ticked test_world, Ticked test_world, StopClosed, Ticked test_world]" "[]"]
  by (simp add: test_monitor_def appends_def test_world_def)

subsection \<open>Where the formats part\<close>

text \<open>A relay that could not be reached is reported too, on the network it was looked for, with nothing but the error text to tell.\<close>

theorem unreachable_relay_is_still_reported:
  assumes "pw_do (mw_probe w) (probe_url (sm_relayURL m)) = Inl e" "pw_bad_request (mw_probe w) (probe_url (sm_relayURL m)) = None"
  shows "buildDiscoveryEvent now m (fst (probeRelay (mw_probe w) m)) =
    new_event 30166 (sm_pubkey m) now (''error: NIP-11 probe failed: '' @ e) [[''d'', sm_relayURL m], [''n'', ''clearnet'']]"
  using assms by (simp add: probeRelay_def fresh_health_def buildDiscoveryEvent_def rtt_tag_def opt_tag_def KindRelayDiscovery_def)

lemma unreachable_relay_is_still_reported_witness:
  "ev_content (buildDiscoveryEvent 5 (test_monitor\<lparr>sm_relayURL := ''wss://x''\<rparr>)
     (fst (probeRelay (mw_probe test_world) (test_monitor\<lparr>sm_relayURL := ''wss://x''\<rparr>)))) = ''error: NIP-11 probe failed: no route''"
proof -
  have "probe_url ''wss://x'' = ''https://x''" by (simp add: probe_url_def)
  with unreachable_relay_is_still_reported [of test_world "test_monitor\<lparr>sm_relayURL := ''wss://x''\<rparr>" "''no route''" 5]
  show ?thesis by (simp add: test_world_def own_probe_def test_monitor_def new_event_def)
qed

text \<open>Times under the names NIP-66 gives them, and the time limits of an announcement, which that document tags with the kind of
  check, are not read.\<close>

theorem documented_times_are_not_read:
  "map_option (\<lambda>rd. (rp_RTTOpen rd, rp_RTTRead rd)) (ParseRelayDiscovery (new_event 30166 pk now c
     [[''d'', ''wss://r''], [''rtt-open'', ''234''], [''rtt-read'', ''150'']])) = Some (0, 0)"
  "map_option an_Timeout (ParseMonitorAnnouncement (new_event 10166 pk now c [[''timeout'', ''open'', ''5000'']])) = Some 0"
  by (simp_all add: ParseRelayDiscovery_def ParseMonitorAnnouncement_def new_event_def KindRelayDiscovery_def KindMonitorAnnouncement_def
      Let_def first_tag_def loose_number_def digit_of_def)

text \<open>The monitor runs only on a relay that advertises NIP-66.\<close>

theorem monitored_relay_advertises_it:
  assumes "main_monitor pk b feat = Some m"
  shows "66 \<in> set (supportedNIPs g feat) \<and> isValidRelayURL (sm_relayURL m)"
  using assms by (auto simp: main_monitor_def NewSelfMonitor_def supportedNIPs_def normalized_is_relay_url split: if_splits sum.splits)

lemma monitored_relay_advertises_it_witness:
  "\<forall>g. 66 \<in> set (supportedNIPs g ((load_features (\<lambda>_. ''''))\<lparr>NIP66Enabled := True, NIP66SelfMonitor := True, NIP66MonitorKey := replicate 64 CHR ''1''\<rparr>))"
proof
  fix g
  let ?feat = "(load_features (\<lambda>_. ''''))\<lparr>NIP66Enabled := True, NIP66SelfMonitor := True, NIP66MonitorKey := replicate 64 CHR ''1''\<rparr>"
  let ?b = "(the (load_base (\<lambda>_. '''')))\<lparr>RelayURL := ''wss://r''\<rparr>"
  have "derivePubkey (\<lambda>_. Some ''p'') (replicate 64 CHR ''1'') = Inr ''p''" by code_simp
  then obtain m where "main_monitor (\<lambda>_. Some ''p'') ?b ?feat = Some m"
    by (simp add: main_monitor_def NewSelfMonitor_def)
  from monitored_relay_advertises_it [OF this, of g] show "66 \<in> set (supportedNIPs g ?feat)" by simp
qed

end
