(* ===== verification/Relay_Metrics.thy ===== *)
theory Relay_Metrics
  imports Complex_Main Event_Pipeline Nip_Formats
begin

text \<open>
  internal/metrics: the relay's Prometheus metrics and the hooks that keep them, with the metrics that internal/pubsub,
  internal/search and internal/storage declare. A series is a metric with the values of its labels; it holds a real number,
  a histogram the number of its observations. The client library refuses label values, and
  \<open>WithLabelValues\<close> turns a refusal into a panic; which values it refuses is a parameter.
\<close>

section \<open>Metrics and their series\<close>

datatype metric_type = Counter | Gauge | Histogram

record metric =
  mt_name :: string
  mt_type :: metric_type
  mt_labels :: "string list"

definition metric_of :: "metric_type \<Rightarrow> string \<Rightarrow> string list \<Rightarrow> metric" where
  "metric_of ty n ls = \<lparr>mt_name = n, mt_type = ty, mt_labels = ls\<rparr>"

type_synonym series = "metric \<times> string list \<Rightarrow> real"

datatype metric_update = AddTo real | SetTo real | Observed real

primrec apply_update :: "metric_update \<Rightarrow> real \<Rightarrow> real" where
  "apply_update (AddTo x) v = v + x"
| "apply_update (SetTo x) v = x"
| "apply_update (Observed x) v = v + 1"

text \<open>One call: the metric, the label values and what happens to the series. \<open>None\<close> is a panic.\<close>

type_synonym metric_call = "metric \<times> string list \<times> metric_update"
type_synonym label_check = "string list \<Rightarrow> string list \<Rightarrow> bool"

definition record_call :: "label_check \<Rightarrow> metric_call \<Rightarrow> series \<Rightarrow> series option" where
  "record_call ok c s = (case c of (m, vs, u) \<Rightarrow>
     if (mt_labels m = [] \<and> vs = []) \<or> ok (mt_labels m) vs
     then Some (s((m, vs) := apply_update u (s (m, vs)))) else None)"

fun record_calls :: "label_check \<Rightarrow> metric_call list \<Rightarrow> series \<Rightarrow> series option" where
  "record_calls ok [] s = Some s"
| "record_calls ok (c # cs) s = (case record_call ok c s of None \<Rightarrow> None | Some s' \<Rightarrow> record_calls ok cs s')"

definition no_series :: series where
  "no_series = (\<lambda>_. 0)"

text \<open>\<open>utf8.ValidString\<close>: the lengths and the bounds of the second byte, by first byte.\<close>

definition utf8_lead :: "nat \<Rightarrow> (nat \<times> nat \<times> nat) option" where
  "utf8_lead b =
     (if 0xC2 \<le> b \<and> b \<le> 0xDF then Some (1, 0x80, 0xBF)
      else if b = 0xE0 then Some (2, 0xA0, 0xBF)
      else if b = 0xED then Some (2, 0x80, 0x9F)
      else if 0xE1 \<le> b \<and> b \<le> 0xEF then Some (2, 0x80, 0xBF)
      else if b = 0xF0 then Some (3, 0x90, 0xBF)
      else if 0xF1 \<le> b \<and> b \<le> 0xF3 then Some (3, 0x80, 0xBF)
      else if b = 0xF4 then Some (3, 0x80, 0x8F)
      else None)"

definition continues :: "nat \<Rightarrow> nat \<Rightarrow> nat \<Rightarrow> string \<Rightarrow> bool" where
  "continues n lo hi cs \<longleftrightarrow> length cs \<ge> n \<and> lo \<le> of_char (hd cs) \<and> of_char (hd cs) \<le> hi \<and>
     list_all (\<lambda>c. 0x80 \<le> (of_char c :: nat) \<and> (of_char c :: nat) \<le> 0xBF) (take (n - 1) (tl cs))"

function ValidString :: "string \<Rightarrow> bool" where
  "ValidString [] = True"
| "ValidString (c # cs) =
     (if (of_char c :: nat) < 0x80 then ValidString cs
      else case utf8_lead (of_char c) of
             None \<Rightarrow> False
           | Some (n, lo, hi) \<Rightarrow> continues n lo hi cs \<and> ValidString (drop n cs))"
  by pat_completeness auto
termination by (relation "measure length") auto

text \<open>What the client's documentation says of its check.\<close>

definition documented_check :: "label_check \<Rightarrow> bool" where
  "documented_check ok \<longleftrightarrow> (\<forall>ns vs. ok ns vs \<longleftrightarrow> length vs = length ns \<and> list_all ValidString vs)"

section \<open>The metrics\<close>

definition connectionsTotal :: metric where
  "connectionsTotal = metric_of Counter ''nostr_relay_connections_total'' []"

definition connectionsActive :: metric where
  "connectionsActive = metric_of Gauge ''nostr_relay_connections_active'' []"

definition eventsReceived :: metric where
  "eventsReceived = metric_of Counter ''nostr_relay_events_received_total'' [''kind'']"

definition eventsStored :: metric where
  "eventsStored = metric_of Counter ''nostr_relay_events_stored_total'' [''kind'']"

definition eventsRejected :: metric where
  "eventsRejected = metric_of Counter ''nostr_relay_events_rejected_total'' [''reason'']"

definition queriesTotal :: metric where
  "queriesTotal = metric_of Counter ''nostr_relay_queries_total'' []"

definition queriesRejected :: metric where
  "queriesRejected = metric_of Counter ''nostr_relay_queries_rejected_total'' [''reason'']"

definition authAttempts :: metric where
  "authAttempts = metric_of Counter ''nostr_relay_auth_attempts_total'' []"

definition authSuccesses :: metric where
  "authSuccesses = metric_of Counter ''nostr_relay_auth_successes_total'' []"

definition nip46MessagesRelayed :: metric where
  "nip46MessagesRelayed = metric_of Counter ''nostr_relay_nip46_messages_relayed_total'' []"

definition eventProcessingDuration :: metric where
  "eventProcessingDuration = metric_of Histogram ''nostr_relay_event_processing_seconds'' []"

definition queryProcessingDuration :: metric where
  "queryProcessingDuration = metric_of Histogram ''nostr_relay_query_processing_seconds'' []"

definition relayInfo :: metric where
  "relayInfo = metric_of Gauge ''nostr_relay_info'' [''name'', ''version'']"

definition dbPoolOpenConnections :: metric where
  "dbPoolOpenConnections = metric_of Gauge ''nostr_relay_db_pool_open_connections'' []"

definition dbPoolInUseConnections :: metric where
  "dbPoolInUseConnections = metric_of Gauge ''nostr_relay_db_pool_in_use_connections'' []"

definition dbPoolIdleConnections :: metric where
  "dbPoolIdleConnections = metric_of Gauge ''nostr_relay_db_pool_idle_connections'' []"

definition dbPoolWaitCount :: metric where
  "dbPoolWaitCount = metric_of Counter ''nostr_relay_db_pool_wait_total'' []"

definition dbPoolWaitDuration :: metric where
  "dbPoolWaitDuration = metric_of Counter ''nostr_relay_db_pool_wait_seconds_total'' []"

definition dbPoolMaxIdleClosed :: metric where
  "dbPoolMaxIdleClosed = metric_of Counter ''nostr_relay_db_pool_max_idle_closed_total'' []"

definition dbPoolMaxLifetimeClosed :: metric where
  "dbPoolMaxLifetimeClosed = metric_of Counter ''nostr_relay_db_pool_max_lifetime_closed_total'' []"

definition PaymentsInvoicesCreated :: metric where
  "PaymentsInvoicesCreated = metric_of Counter ''nostr_relay_payments_invoices_created_total'' [''tier'']"

definition PaymentsSettled :: metric where
  "PaymentsSettled = metric_of Counter ''nostr_relay_payments_settled_total'' [''tier'']"

definition PaymentsFailed :: metric where
  "PaymentsFailed = metric_of Counter ''nostr_relay_payments_failed_total'' [''reason'']"

definition TierUpgrades :: metric where
  "TierUpgrades = metric_of Counter ''nostr_relay_tier_upgrades_total'' [''tier'']"

definition TierExpirations :: metric where
  "TierExpirations = metric_of Counter ''nostr_relay_tier_expirations_total'' []"

definition PaymentsPending :: metric where
  "PaymentsPending = metric_of Gauge ''nostr_relay_payments_pending'' []"

definition MembersJoined :: metric where
  "MembersJoined = metric_of Counter ''nostr_relay_members_joined_total'' []"

text \<open>Declared next to their users in other packages.\<close>

definition publishDropped :: metric where
  "publishDropped = metric_of Counter ''nostr_relay_pubsub_publish_dropped_total'' []"

definition SearchSetupFailures :: metric where
  "SearchSetupFailures = metric_of Counter ''cloistr_search_setup_failures_total'' []"

definition SearchActive :: metric where
  "SearchActive = metric_of Gauge ''cloistr_search_active'' []"

definition tombstoneSemWaitSeconds :: metric where
  "tombstoneSemWaitSeconds = metric_of Histogram ''nostr_relay_tombstone_sem_wait_seconds'' []"

definition tombstoneLookupSeconds :: metric where
  "tombstoneLookupSeconds = metric_of Histogram ''nostr_relay_tombstone_lookup_seconds'' []"

definition tombstoneLookupFailures :: metric where
  "tombstoneLookupFailures = metric_of Counter ''nostr_relay_tombstone_lookup_failures_total'' [''cause'']"

definition relay_metrics :: "metric list" where
  "relay_metrics =
     [connectionsTotal, connectionsActive, eventsReceived, eventsStored, eventsRejected,
      queriesTotal, queriesRejected, authAttempts, authSuccesses, nip46MessagesRelayed,
      eventProcessingDuration, queryProcessingDuration, relayInfo, dbPoolOpenConnections, dbPoolInUseConnections,
      dbPoolIdleConnections, dbPoolWaitCount, dbPoolWaitDuration, dbPoolMaxIdleClosed, dbPoolMaxLifetimeClosed]"

definition payment_metrics :: "metric list" where
  "payment_metrics =
     [PaymentsInvoicesCreated, PaymentsSettled, PaymentsFailed, TierUpgrades, TierExpirations,
      PaymentsPending, MembersJoined]"

definition other_metrics :: "metric list" where
  "other_metrics =
     [publishDropped, SearchSetupFailures, SearchActive, tombstoneSemWaitSeconds, tombstoneLookupSeconds,
      tombstoneLookupFailures]"

lemmas relay_metric_defs =
  connectionsTotal_def connectionsActive_def eventsReceived_def eventsStored_def
  eventsRejected_def queriesTotal_def queriesRejected_def authAttempts_def
  authSuccesses_def nip46MessagesRelayed_def eventProcessingDuration_def queryProcessingDuration_def
  relayInfo_def dbPoolOpenConnections_def dbPoolInUseConnections_def dbPoolIdleConnections_def
  dbPoolWaitCount_def dbPoolWaitDuration_def dbPoolMaxIdleClosed_def dbPoolMaxLifetimeClosed_def

lemmas payment_metric_defs =
  PaymentsInvoicesCreated_def PaymentsSettled_def PaymentsFailed_def TierUpgrades_def
  TierExpirations_def PaymentsPending_def MembersJoined_def

lemmas other_metric_defs =
  publishDropped_def SearchSetupFailures_def SearchActive_def tombstoneSemWaitSeconds_def
  tombstoneLookupSeconds_def tombstoneLookupFailures_def

section \<open>The hooks\<close>

definition kindToString :: "int \<Rightarrow> string" where
  "kindToString k =
     (if k = 0 then ''metadata'' else if k = 1 then ''text_note'' else if k = 3 then ''contacts'' else if k = 4 then ''dm''
      else if k = 5 then ''deletion'' else if k = 6 then ''repost'' else if k = 7 then ''reaction'' else if k = 13 then ''seal''
      else if k = 14 then ''nip17_chat'' else if k = 15 then ''nip17_file'' else if k = 1059 then ''gift_wrap''
      else if k = 9735 then ''zap_receipt'' else if k = 10050 then ''nip17_relay_list'' else if k = 22242 then ''auth''
      else if k = 24133 then ''nip46''
      else if 10000 \<le> k \<and> k < 20000 then ''replaceable''
      else if 20000 \<le> k \<and> k < 30000 then ''ephemeral''
      else if 30000 \<le> k \<and> k < 40000 then ''parameterized_replaceable''
      else ''other'')"

text \<open>The part before the first colon, when there is one.\<close>

definition before_colon :: "string \<Rightarrow> string option" where
  "before_colon s = (if CHR '':'' \<in> set s then Some (takeWhile (\<lambda>c. c \<noteq> CHR '':'') s) else None)"

definition categorizeRejection :: "string \<Rightarrow> string" where
  "categorizeRejection msg =
     (let what = (if HasPrefix msg ''error: too many ''
                  then takeWhile (\<lambda>c. c \<noteq> CHR '' '') (TrimPrefix msg ''error: too many '') else '''')
      in if what \<noteq> '''' then ''too-many-'' @ what
         else case (if length msg > 20 then before_colon msg else None) of
                Some p \<Rightarrow> p
              | None \<Rightarrow> if length msg > 15 then take 15 msg else msg)"

text \<open>The two wrappers run the handlers they replace up to the first refusal and time them; the argument is the time in seconds.\<close>

definition counted_events :: "'s gate list \<Rightarrow> event \<Rightarrow> real \<Rightarrow> 's \<Rightarrow> (verdict \<times> 's) \<times> metric_call list" where
  "counted_events gs ev secs s =
     (case first_rejection gs s of (v, s') \<Rightarrow>
        ((v, s'),
         [(eventsReceived, [kindToString (ev_kind ev)], AddTo 1)]
         @ (case v of Reject msg \<Rightarrow> [(eventsRejected, [categorizeRejection msg], AddTo 1)] | Accept \<Rightarrow> [])
         @ [(eventProcessingDuration, [], Observed secs)]))"

definition counted_queries :: "'s gate list \<Rightarrow> real \<Rightarrow> 's \<Rightarrow> (verdict \<times> 's) \<times> metric_call list" where
  "counted_queries gs secs s =
     (case first_rejection gs s of (v, s') \<Rightarrow>
        ((v, s'),
         [(queriesTotal, [], AddTo 1)]
         @ (case v of Reject msg \<Rightarrow> [(queriesRejected, [categorizeRejection msg], AddTo 1)] | Accept \<Rightarrow> [])
         @ [(queryProcessingDuration, [], Observed secs)]))"

definition counted_saved :: "event \<Rightarrow> metric_call list" where
  "counted_saved ev =
     (eventsStored, [kindToString (ev_kind ev)], AddTo 1)
     # (if ev_kind ev = 22242 then [(authAttempts, [], AddTo 1), (authSuccesses, [], AddTo 1)] else [])"

definition relay_info_call :: "string \<Rightarrow> metric_call" where
  "relay_info_call name = (relayInfo, [name, ''khatru''], SetTo 1)"

definition RecordNIP46Message :: metric_call where
  "RecordNIP46Message = (nip46MessagesRelayed, [], AddTo 1)"

subsection \<open>Connections\<close>

text \<open>
  A connection hook is two steps of its goroutine: connecting counts the connection and remembers its socket, then
  raises the gauge; disconnecting takes the socket out and, if it was there, lowers the gauge. Steps of different
  connections interleave. \<open>None\<close> is a context without a socket.
\<close>

record 'w conn_state =
  cn_total :: int
  cn_active :: int
  cn_open :: "'w set"
  cn_raising :: nat
  cn_lowering :: nat

definition conn_start :: "'w conn_state" where
  "conn_start = \<lparr>cn_total = 0, cn_active = 0, cn_open = {}, cn_raising = 0, cn_lowering = 0\<rparr>"

datatype 'w conn_act = ConnectStored "'w option" | ConnectRaised | DisconnectLoaded "'w option" | DisconnectLowered

primrec conn_do :: "'w conn_act \<Rightarrow> 'w conn_state \<Rightarrow> 'w conn_state option" where
  "conn_do (ConnectStored w) s = Some (s\<lparr>cn_total := cn_total s + 1, cn_raising := cn_raising s + 1,
      cn_open := (case w of None \<Rightarrow> cn_open s | Some x \<Rightarrow> insert x (cn_open s))\<rparr>)"
| "conn_do ConnectRaised s =
     (case cn_raising s of 0 \<Rightarrow> None | Suc n \<Rightarrow> Some (s\<lparr>cn_active := cn_active s + 1, cn_raising := n\<rparr>))"
| "conn_do (DisconnectLoaded w) s = Some
     (case w of None \<Rightarrow> s
      | Some x \<Rightarrow> if x \<in> cn_open s then s\<lparr>cn_open := cn_open s - {x}, cn_lowering := cn_lowering s + 1\<rparr> else s)"
| "conn_do DisconnectLowered s =
     (case cn_lowering s of 0 \<Rightarrow> None | Suc n \<Rightarrow> Some (s\<lparr>cn_active := cn_active s - 1, cn_lowering := n\<rparr>))"

fun conn_run :: "'w conn_act list \<Rightarrow> 'w conn_state \<Rightarrow> 'w conn_state option" where
  "conn_run [] s = Some s"
| "conn_run (a # as) s = (case conn_do a s of None \<Rightarrow> None | Some s' \<Rightarrow> conn_run as s')"

subsection \<open>The database pool\<close>

record pool_stats =
  ps_OpenConnections :: int
  ps_InUse :: int
  ps_Idle :: int
  ps_WaitCount :: int
  ps_WaitDuration :: int
  ps_MaxIdleClosed :: int
  ps_MaxLifetimeClosed :: int

record pool_prev =
  pv_WaitCount :: int
  pv_WaitDuration :: int
  pv_MaxIdleClosed :: int
  pv_MaxLifetimeClosed :: int

definition pool_zero :: pool_prev where
  "pool_zero = \<lparr>pv_WaitCount = 0, pv_WaitDuration = 0, pv_MaxIdleClosed = 0, pv_MaxLifetimeClosed = 0\<rparr>"

text \<open>A counter moves by what its statistic has grown since the last look.\<close>

definition grow :: "metric \<Rightarrow> (int \<Rightarrow> real) \<Rightarrow> int \<Rightarrow> int \<Rightarrow> metric_call list \<times> int" where
  "grow m unit now prev = (if now > prev then ([(m, [], AddTo (unit (now - prev)))], now) else ([], prev))"

definition seconds_of :: "int \<Rightarrow> real" where
  "seconds_of ns = real_of_int ns / 1000000000"

definition pool_tick :: "pool_stats \<Rightarrow> pool_prev \<Rightarrow> metric_call list \<times> pool_prev" where
  "pool_tick st p =
     (let (c1, w) = grow dbPoolWaitCount real_of_int (ps_WaitCount st) (pv_WaitCount p);
          (c2, d) = grow dbPoolWaitDuration seconds_of (ps_WaitDuration st) (pv_WaitDuration p);
          (c3, i) = grow dbPoolMaxIdleClosed real_of_int (ps_MaxIdleClosed st) (pv_MaxIdleClosed p);
          (c4, l) = grow dbPoolMaxLifetimeClosed real_of_int (ps_MaxLifetimeClosed st) (pv_MaxLifetimeClosed p)
      in ([(dbPoolOpenConnections, [], SetTo (real_of_int (ps_OpenConnections st))),
           (dbPoolInUseConnections, [], SetTo (real_of_int (ps_InUse st))),
           (dbPoolIdleConnections, [], SetTo (real_of_int (ps_Idle st)))] @ c1 @ c2 @ c3 @ c4,
          \<lparr>pv_WaitCount = w, pv_WaitDuration = d, pv_MaxIdleClosed = i, pv_MaxLifetimeClosed = l\<rparr>))"

fun pool_run :: "label_check \<Rightarrow> pool_stats list \<Rightarrow> pool_prev \<times> series \<Rightarrow> (pool_prev \<times> series) option" where
  "pool_run ok [] ps = Some ps"
| "pool_run ok (st # sts) (p, s) =
     (case pool_tick st p of (cs, p') \<Rightarrow> (case record_calls ok cs s of None \<Rightarrow> None | Some s' \<Rightarrow> pool_run ok sts (p', s')))"

subsection \<open>Payments\<close>

text \<open>What internal/membership counts: an invoice made; the ends of a webhook, whose check failed, that was paid too little, or
  that was settled; the numbers of a sweep (\<open>None\<close> is an error of its statement); a member joined.\<close>

definition invoice_calls :: "string \<Rightarrow> metric_call list" where
  "invoice_calls tier = [(PaymentsInvoicesCreated, [tier], AddTo 1), (PaymentsPending, [], AddTo 1)]"

datatype webhook_end = CheckFailed | Underpaid | PaymentDone string

primrec webhook_calls :: "webhook_end \<Rightarrow> metric_call list" where
  "webhook_calls CheckFailed = [(PaymentsFailed, [''lnbits_check''], AddTo 1)]"
| "webhook_calls Underpaid = [(PaymentsFailed, [''underpayment''], AddTo 1)]"
| "webhook_calls (PaymentDone tier) =
     [(PaymentsSettled, [tier], AddTo 1), (TierUpgrades, [tier], AddTo 1), (PaymentsPending, [], AddTo (- 1))]"

definition sweep_calls :: "int option \<Rightarrow> int option \<Rightarrow> metric_call list" where
  "sweep_calls tiers invoices =
     (case tiers of Some n \<Rightarrow> if n > 0 then [(TierExpirations, [], AddTo (real_of_int n))] else [] | None \<Rightarrow> [])
     @ (case invoices of Some n \<Rightarrow> if n > 0 then [(PaymentsPending, [], AddTo (- real_of_int n))] else [] | None \<Rightarrow> [])"

definition joined_call :: metric_call where
  "joined_call = (MembersJoined, [], AddTo 1)"

datatype payment_event = InvoiceCreated string | WebhookEnds webhook_end | SweepEnds "int option" "int option" | MemberJoined

primrec payment_calls :: "payment_event \<Rightarrow> metric_call list" where
  "payment_calls (InvoiceCreated tier) = invoice_calls tier"
| "payment_calls (WebhookEnds e) = webhook_calls e"
| "payment_calls (SweepEnds tiers invoices) = sweep_calls tiers invoices"
| "payment_calls MemberJoined = [joined_call]"

section \<open>Facts\<close>

subsection \<open>Series\<close>

lemma record_calls_append:
  "record_calls ok (cs @ ds) s = (case record_calls ok cs s of None \<Rightarrow> None | Some s' \<Rightarrow> record_calls ok ds s')"
  by (induction ok cs s rule: record_calls.induct) (auto split: option.split)

text \<open>A call that no check can refuse, and a list of them.\<close>

definition safe_call :: "label_check \<Rightarrow> metric_call \<Rightarrow> bool" where
  "safe_call ok c = (case c of (m, vs, _) \<Rightarrow> (mt_labels m = [] \<and> vs = []) \<or> ok (mt_labels m) vs)"

lemma safe_calls_return: "record_calls ok cs s \<noteq> None \<longleftrightarrow> list_all (safe_call ok) cs"
proof (induction cs arbitrary: s)
  case (Cons c cs)
  show ?case
  proof (cases "safe_call ok c")
    case True
    then obtain s' where "record_call ok c s = Some s'" by (auto simp: record_call_def safe_call_def split: prod.splits)
    with True Cons [of s'] show ?thesis by simp
  next
    case False
    then have "record_call ok c s = None" by (auto simp: record_call_def safe_call_def split: prod.splits)
    with False show ?thesis by simp
  qed
qed simp

text \<open>The calls of a counter, and what they do to the sum of its series.\<close>

definition tally :: "metric \<Rightarrow> metric_call list \<Rightarrow> nat" where
  "tally m cs = length (filter (\<lambda>(m', _, _). m' = m) cs)"

definition counted_in :: "metric \<Rightarrow> string list set \<Rightarrow> metric_call \<Rightarrow> bool" where
  "counted_in m K c = (case c of (m', vs, u) \<Rightarrow> m' = m \<longrightarrow> vs \<in> K \<and> u = AddTo 1)"

lemma tally_simps [simp]: "tally m [] = 0" "tally m ((m', vs, u) # cs) = (if m' = m then 1 else 0) + tally m cs"
  "tally m (cs @ ds) = tally m cs + tally m ds"
  by (simp_all add: tally_def)

lemma one_more:
  assumes "finite K" "vs \<in> K"
  shows "(\<Sum>k \<in> K. (s((m, vs) := s (m, vs) + 1 :: real)) (m, k)) = (\<Sum>k \<in> K. s (m, k)) + 1"
proof -
  have "(\<Sum>k \<in> K. (s((m, vs) := s (m, vs) + 1)) (m, k)) = (\<Sum>k \<in> K. s (m, k) + (if k = vs then 1 else 0))"
    by (rule sum.cong) auto
  also have "\<dots> = (\<Sum>k \<in> K. s (m, k)) + 1" using assms by (simp add: sum.distrib)
  finally show ?thesis .
qed

lemma total_counts:
  assumes "finite K" "list_all (counted_in m K) cs" "record_calls ok cs s = Some s'"
  shows "(\<Sum>k \<in> K. s' (m, k)) = (\<Sum>k \<in> K. s (m, k)) + real (tally m cs)"
  using assms(2,3)
proof (induction cs arbitrary: s)
  case (Cons c cs)
  obtain m' vs u where c: "c = (m', vs, u)" by (cases c)
  from Cons.prems obtain s1 where s1: "record_call ok c s = Some s1" and r: "record_calls ok cs s1 = Some s'"
    by (auto split: option.splits)
  from s1 c have e: "s1 = s((m', vs) := apply_update u (s (m', vs)))" by (auto simp: record_call_def split: if_splits)
  have "(\<Sum>k \<in> K. s1 (m, k)) = (\<Sum>k \<in> K. s (m, k)) + (if m' = m then 1 else 0)"
  proof (cases "m' = m")
    case True
    with Cons.prems(1) c have "vs \<in> K" "u = AddTo 1" by (auto simp: counted_in_def)
    with one_more [OF assms(1), of vs s m] True e show ?thesis by simp
  next
    case False
    with e show ?thesis by simp
  qed
  with Cons.IH [OF _ r] Cons.prems(1) c show ?case by simp
qed simp

lemma total_single:
  assumes "list_all (counted_in m {[]}) cs" "record_calls ok cs s = Some s'"
  shows "s' (m, []) = s (m, []) + real (tally m cs)"
  using total_counts [of "{[]}" m cs ok s s'] assms by simp

lemma metric_eq: "metric_of a b c = metric_of a' b' c' \<longleftrightarrow> a = a' \<and> b = b' \<and> c = c'"
  by (auto simp: metric_of_def)

subsection \<open>Labels\<close>

definition ascii :: "string \<Rightarrow> bool" where
  "ascii s \<longleftrightarrow> list_all (\<lambda>c. (of_char c :: nat) < 128) s"

lemma ascii_valid: "ascii s \<Longrightarrow> ValidString s"
  unfolding ascii_def by (induction s) simp_all

lemma ascii_take: "ascii s \<Longrightarrow> ascii (take n s)"
  by (auto simp: ascii_def list_all_iff dest: in_set_takeD)

lemma ascii_drop: "ascii s \<Longrightarrow> ascii (drop n s)"
  by (auto simp: ascii_def list_all_iff dest: in_set_dropD)

lemma ascii_takeWhile: "ascii s \<Longrightarrow> ascii (takeWhile P s)"
  by (auto simp: ascii_def list_all_iff dest: set_takeWhileD)

lemma ascii_append [simp]: "ascii (s @ t) \<longleftrightarrow> ascii s \<and> ascii t"
  by (simp add: ascii_def)

lemma ascii_TrimPrefix: "ascii s \<Longrightarrow> ascii (TrimPrefix s p)"
  by (simp add: TrimPrefix_def ascii_drop)

lemmas ascii_cuts = ascii_take ascii_drop ascii_takeWhile ascii_TrimPrefix

lemma too_many_ascii: "ascii ''too-many-''"
  by code_simp

lemma ascii_categorize: "ascii msg \<Longrightarrow> ascii (categorizeRejection msg)"
  by (auto simp: categorizeRejection_def before_colon_def Let_def ascii_cuts too_many_ascii simp del: append.simps split: if_splits option.splits)

definition kind_labels :: "string list" where
  "kind_labels = [''metadata'', ''text_note'', ''contacts'', ''dm'', ''deletion'', ''repost'', ''reaction'', ''seal'', ''nip17_chat'',
     ''nip17_file'', ''gift_wrap'', ''zap_receipt'', ''nip17_relay_list'', ''auth'', ''nip46'', ''replaceable'', ''ephemeral'',
     ''parameterized_replaceable'', ''other'']"

text \<open>However many kinds clients make up, the kind label has nineteen values.\<close>

theorem kind_label_is_bounded: "kindToString k \<in> set kind_labels \<and> length kind_labels = 19"
  by (simp add: kindToString_def kind_labels_def)

lemma kind_label_ascii: "ascii (kindToString k)"
proof -
  have "list_all ascii kind_labels" unfolding kind_labels_def by code_simp
  with kind_label_is_bounded [of k] show ?thesis by (simp add: list_all_iff)
qed

lemma accepted_labels:
  "documented_check ok \<Longrightarrow> ok ns vs \<longleftrightarrow> length vs = length ns \<and> list_all ValidString vs"
  by (simp add: documented_check_def)

subsection \<open>Events and queries\<close>

lemmas event_metric_defs = eventsReceived_def eventsRejected_def eventProcessingDuration_def

type_synonym 's event_run = "'s gate list \<times> event \<times> real \<times> 's"

definition run_calls :: "'s event_run \<Rightarrow> metric_call list" where
  "run_calls r = (case r of (gs, ev, secs, s) \<Rightarrow> snd (counted_events gs ev secs s))"

definition run_verdict :: "'s event_run \<Rightarrow> verdict" where
  "run_verdict r = (case r of (gs, ev, secs, s) \<Rightarrow> fst (fst (counted_events gs ev secs s)))"

lemma run_cases:
  "run_calls r = [(eventsReceived, [kindToString (ev_kind (fst (snd r)))], AddTo 1)]
     @ (case run_verdict r of Reject msg \<Rightarrow> [(eventsRejected, [categorizeRejection msg], AddTo 1)] | Accept \<Rightarrow> [])
     @ [(eventProcessingDuration, [], Observed (fst (snd (snd r))))]"
  by (simp add: run_calls_def run_verdict_def counted_events_def split: prod.split)

lemma event_metrics_differ: "eventsReceived \<noteq> eventsRejected" "eventProcessingDuration \<noteq> eventsReceived"
  "eventProcessingDuration \<noteq> eventsRejected"
  by (simp_all add: event_metric_defs metric_eq)

lemma run_tallies:
  "tally eventsReceived (concat (map run_calls rs)) = length rs"
  "tally eventsRejected (concat (map run_calls rs)) = length (filter (\<lambda>r. rejected (run_verdict r)) rs)"
  using event_metrics_differ by (induction rs) (auto simp: run_cases split: verdict.split)

lemma run_counts:
  "list_all (counted_in eventsReceived ((\<lambda>k. [k]) ` set kind_labels)) (concat (map run_calls rs))"
  "\<forall>r \<in> set rs. \<forall>msg. run_verdict r = Reject msg \<longrightarrow> [categorizeRejection msg] \<in> K \<Longrightarrow>
   list_all (counted_in eventsRejected K) (concat (map run_calls rs))"
  using event_metrics_differ kind_label_is_bounded
  by (induction rs) (auto simp: run_cases counted_in_def split: verdict.split)

text \<open>The wrapper passes the chain's verdict on, and the counters add up to the events it saw and the events it refused.\<close>

theorem event_counters_add_up:
  assumes "record_calls ok (concat (map run_calls rs)) no_series = Some s" "finite K"
    and "\<forall>r \<in> set rs. \<forall>msg. run_verdict r = Reject msg \<longrightarrow> [categorizeRejection msg] \<in> K"
  shows "(\<Sum>k \<in> (\<lambda>k. [k]) ` set kind_labels. s (eventsReceived, k)) = real (length rs)"
    "(\<Sum>k \<in> K. s (eventsRejected, k)) = real (length (filter (\<lambda>r. rejected (run_verdict r)) rs))"
proof -
  from total_counts [OF _ run_counts(1) assms(1)] show
    "(\<Sum>k \<in> (\<lambda>k. [k]) ` set kind_labels. s (eventsReceived, k)) = real (length rs)"
    by (simp add: no_series_def run_tallies)
  from total_counts [OF assms(2) run_counts(2) [OF assms(3)] assms(1)] show
    "(\<Sum>k \<in> K. s (eventsRejected, k)) = real (length (filter (\<lambda>r. rejected (run_verdict r)) rs))"
    by (simp add: no_series_def run_tallies)
qed

lemma counted_verdict: "fst (counted_events gs ev secs s) = first_rejection gs s"
  by (simp add: counted_events_def split: prod.split)

definition test_run :: "unit event_run" where
  "test_run = ([pure_gate (\<lambda>_. Reject ''blocked: spam'')], new_event 1 ''p'' 0 '''' [], 0, ())"

definition any_label :: label_check where
  "any_label = (\<lambda>ns vs. length vs = length ns \<and> list_all ValidString vs)"

lemma any_label_documented: "documented_check any_label"
  by (simp add: documented_check_def any_label_def)

lemma test_run_verdict: "run_verdict test_run = Reject ''blocked: spam''"
  by (simp add: run_verdict_def test_run_def counted_events_def)

lemma safe_run:
  assumes "documented_check ok" "\<And>msg. run_verdict r = Reject msg \<Longrightarrow> ascii msg"
  shows "list_all (safe_call ok) (run_calls r)"
  using assms kind_label_ascii ascii_categorize
  by (cases "run_verdict r")
    (simp_all add: run_cases safe_call_def event_metric_defs metric_of_def accepted_labels ascii_valid)

text \<open>Counting never panics as long as the refusals are ASCII text.\<close>

theorem counting_events_never_panics:
  assumes "documented_check ok" "\<forall>r \<in> set rs. \<forall>msg. run_verdict r = Reject msg \<longrightarrow> ascii msg"
  shows "record_calls ok (concat (map run_calls rs)) s \<noteq> None"
  unfolding safe_calls_return using assms safe_run by (fastforce simp: list_all_iff)

lemma counting_events_never_panics_witness: "record_calls any_label (concat (map run_calls [test_run])) no_series \<noteq> None"
proof -
  have "ascii ''blocked: spam''" by code_simp
  with counting_events_never_panics [OF any_label_documented, of "[test_run]" no_series] show ?thesis
    by (simp add: test_run_verdict del: not_None_eq)
qed

lemma event_counters_add_up_witness:
  "\<exists>s. (\<Sum>k \<in> {[categorizeRejection ''blocked: spam'']}. s (eventsRejected, k)) = (1 :: real)"
proof -
  from counting_events_never_panics_witness obtain s
    where s: "record_calls any_label (concat (map run_calls [test_run])) no_series = Some s" by auto
  from event_counters_add_up(2) [OF s, of "{[categorizeRejection ''blocked: spam'']}"] show ?thesis
    by (intro exI [of _ s]) (simp add: test_run_verdict)
qed

text \<open>A refusal without an early colon is cut at byte 15, also inside a character, and the client panics on the half.\<close>

theorem half_character_panics:
  assumes "documented_check ok"
  shows "record_call ok (eventsRejected, [categorizeRejection (''not for you (ju'' @ [CHR 0xC3, CHR 0xA9] @ '')'')], AddTo 1) s \<noteq> None"
    "record_call ok (eventsRejected, [categorizeRejection (''not for you (j'' @ [CHR 0xC3, CHR 0xA9] @ '')'')], AddTo 1) s = None"
    "ValidString (''not for you (j'' @ [CHR 0xC3, CHR 0xA9] @ '')'')"
proof -
  have "list_all ValidString [categorizeRejection (''not for you (ju'' @ [CHR 0xC3, CHR 0xA9] @ '')'')]" by code_simp
  then show "record_call ok (eventsRejected, [categorizeRejection (''not for you (ju'' @ [CHR 0xC3, CHR 0xA9] @ '')'')], AddTo 1) s \<noteq> None"
    using accepted_labels [OF assms] by (simp add: record_call_def eventsRejected_def metric_of_def del: append.simps)
  have "\<not> list_all ValidString [categorizeRejection (''not for you (j'' @ [CHR 0xC3, CHR 0xA9] @ '')'')]" by code_simp
  then show "record_call ok (eventsRejected, [categorizeRejection (''not for you (j'' @ [CHR 0xC3, CHR 0xA9] @ '')'')], AddTo 1) s = None"
    using accepted_labels [OF assms] by (simp add: record_call_def eventsRejected_def metric_of_def del: append.simps)
  show "ValidString (''not for you (j'' @ [CHR 0xC3, CHR 0xA9] @ '')'')" by code_simp
qed

lemma half_character_panics_witness:
  "record_call any_label (eventsRejected, [categorizeRejection (''not for you (j'' @ [CHR 0xC3, CHR 0xA9] @ '')'')], AddTo 1) no_series = None"
  by (rule half_character_panics(2) [OF any_label_documented])

text \<open>Authentication is counted where events are stored, attempt and success at once: the two never differ.\<close>

theorem every_attempt_succeeds:
  assumes "record_calls ok (concat (map counted_saved evs)) no_series = Some s"
  shows "s (authAttempts, []) = s (authSuccesses, [])"
proof -
  have d: "authAttempts \<noteq> eventsStored" "authSuccesses \<noteq> eventsStored" "authAttempts \<noteq> authSuccesses"
    by (simp_all add: authAttempts_def authSuccesses_def eventsStored_def metric_eq)
  have c: "list_all (counted_in authAttempts {[]}) (concat (map counted_saved evs))"
    "list_all (counted_in authSuccesses {[]}) (concat (map counted_saved evs))"
    using d by (auto simp: counted_saved_def counted_in_def list_all_iff split: if_splits)
  have "tally authAttempts (concat (map counted_saved evs)) = tally authSuccesses (concat (map counted_saved evs))"
    using d by (induction evs) (auto simp: counted_saved_def)
  with total_single [OF c(1) assms] total_single [OF c(2) assms] show ?thesis by (simp add: no_series_def)
qed

lemma every_attempt_succeeds_witness:
  "\<exists>s. record_calls any_label (counted_saved (new_event 22242 ''p'' 0 '''' [])) no_series = Some s \<and> s (authAttempts, []) = s (authSuccesses, [])"
proof -
  have "list_all (safe_call any_label) (counted_saved (new_event 22242 ''p'' 0 '''' []))"
    using kind_label_ascii [of 22242]
    by (simp add: counted_saved_def new_event_def safe_call_def any_label_def authAttempts_def authSuccesses_def eventsStored_def metric_of_def
        ascii_valid)
  with safe_calls_return [of any_label "counted_saved (new_event 22242 ''p'' 0 '''' [])" no_series]
  obtain s where s: "record_calls any_label (counted_saved (new_event 22242 ''p'' 0 '''' [])) no_series = Some s" by auto
  with every_attempt_succeeds [of any_label "[new_event 22242 ''p'' 0 '''' []]" s] show ?thesis by auto
qed

subsection \<open>The gauge of connections\<close>

fun connected :: "'w conn_act list \<Rightarrow> 'w list" where
  "connected [] = []"
| "connected (ConnectStored (Some x) # as) = x # connected as"
| "connected (_ # as) = connected as"

definition conn_ok :: "'w conn_state \<Rightarrow> bool" where
  "conn_ok s \<longleftrightarrow> finite (cn_open s) \<and> cn_active s + int (cn_raising s) - int (cn_lowering s) = int (card (cn_open s))"

lemma card_without: "finite S \<Longrightarrow> x \<in> S \<Longrightarrow> int (card (S - {x})) = int (card S) - 1"
  using card_Suc_Diff1 [of S x] by simp

lemma conn_step_ok:
  assumes "conn_ok s" "conn_do a s = Some s'" "a \<noteq> ConnectStored None" "\<forall>x. a = ConnectStored (Some x) \<longrightarrow> x \<notin> cn_open s"
  shows "conn_ok s'"
  using assms
proof (cases a)
  case (DisconnectLoaded w)
  with assms show ?thesis
    by (auto simp: conn_ok_def card_without simp del: card_Diff_singleton card_Diff_insert split: option.splits if_splits)
qed (auto simp: conn_ok_def split: option.splits nat.splits)

lemma conn_step_open: "conn_do a s = Some s' \<Longrightarrow> cn_open s' \<subseteq> cn_open s \<union> set (connected [a])"
  by (cases a) (auto split: option.splits nat.splits if_splits)

lemma connected_Cons: "connected (a # as) = connected [a] @ connected as"
  by (cases "a # as" rule: connected.cases) simp_all

lemma conn_run_ok:
  assumes "conn_run as s = Some s'" "conn_ok s" "ConnectStored None \<notin> set as" "distinct (connected as)" "set (connected as) \<inter> cn_open s = {}"
  shows "conn_ok s'"
  using assms
proof (induction as s rule: conn_run.induct)
  case (2 a as s)
  from "2.prems"(1) obtain s1 where s1: "conn_do a s = Some s1" "conn_run as s1 = Some s'" by (auto split: option.splits)
  have c: "connected (a # as) = connected [a] @ connected as" by (rule connected_Cons)
  have "conn_ok s1"
  proof (rule conn_step_ok [OF "2.prems"(2) s1(1)])
    show "\<forall>x. a = ConnectStored (Some x) \<longrightarrow> x \<notin> cn_open s" using "2.prems"(5) by auto
  qed (use "2.prems"(3) in auto)
  moreover from conn_step_open [OF s1(1)] c "2.prems"(4,5) have "set (connected as) \<inter> cn_open s1 = {}" by auto
  ultimately show ?case using "2.IH" [OF s1] "2.prems"(3,4) c by auto
qed simp

text \<open>C39: 
  However often the framework runs the hooks of a connection that goes away, and however the hooks of different connections
  interleave: once the hooks under way have returned, the gauge is the number of open connections. In between it is off by
  those that have not.
\<close>

theorem active_gauge_is_open_connections:
  assumes "conn_run as conn_start = Some s" "ConnectStored None \<notin> set as" "distinct (connected as)"
  shows "cn_active s = int (card (cn_open s)) - int (cn_raising s) + int (cn_lowering s)"
  using conn_run_ok [OF assms(1) _ assms(2,3)] by (simp add: conn_ok_def conn_start_def)

definition closed_twice :: "nat conn_act list" where
  "closed_twice = [ConnectStored (Some 1), ConnectRaised, ConnectStored (Some 2), DisconnectLoaded (Some 1), ConnectRaised,
     DisconnectLoaded (Some 1), DisconnectLowered, DisconnectLoaded (Some 1)]"

lemma active_gauge_is_open_connections_witness: "\<exists>s. conn_run closed_twice conn_start = Some s \<and> cn_active s = 1"
proof -
  have "{2, Suc 0} - {Suc 0} = {2}" by auto
  then obtain s where s: "conn_run closed_twice conn_start = Some s" "cn_open s = {2}" "cn_raising s = 0" "cn_lowering s = 0"
    by (auto simp: closed_twice_def conn_start_def)
  with active_gauge_is_open_connections [OF s(1)] show ?thesis by (auto simp: closed_twice_def)
qed

text \<open>A connection whose context carries no socket raises the gauge and never lowers it.\<close>

theorem socketless_connection_stays:
  "\<exists>s. conn_run [ConnectStored None, ConnectRaised, DisconnectLoaded None, DisconnectLoaded None] (conn_start :: nat conn_state) = Some s \<and>
    cn_active s = 1 \<and> cn_open s = {} \<and> cn_raising s = 0 \<and> cn_lowering s = 0"
  by (simp add: conn_start_def)

subsection \<open>The pool and the payments\<close>

lemma record_unlabelled: "record_call ok (metric_of ty n [], [], u) s =
  Some (s((metric_of ty n [], []) := apply_update u (s (metric_of ty n [], []))))"
  by (simp add: record_call_def metric_of_def)

definition pool_ok :: "pool_prev \<Rightarrow> series \<Rightarrow> bool" where
  "pool_ok p s \<longleftrightarrow> s (dbPoolWaitCount, []) = real_of_int (pv_WaitCount p) \<and> s (dbPoolWaitDuration, []) = seconds_of (pv_WaitDuration p) \<and>
     s (dbPoolMaxIdleClosed, []) = real_of_int (pv_MaxIdleClosed p) \<and> s (dbPoolMaxLifetimeClosed, []) = real_of_int (pv_MaxLifetimeClosed p)"

definition prev_max :: "pool_stats \<Rightarrow> pool_prev \<Rightarrow> pool_prev" where
  "prev_max st p = \<lparr>pv_WaitCount = max (pv_WaitCount p) (ps_WaitCount st), pv_WaitDuration = max (pv_WaitDuration p) (ps_WaitDuration st),
     pv_MaxIdleClosed = max (pv_MaxIdleClosed p) (ps_MaxIdleClosed st), pv_MaxLifetimeClosed = max (pv_MaxLifetimeClosed p) (ps_MaxLifetimeClosed st)\<rparr>"

lemma grow_records:
  assumes "s (metric_of ty n [], []) = f prev" "\<And>a b. f (a - b) = f a - (f b :: real)"
  shows "record_calls ok (fst (grow (metric_of ty n []) f now prev)) s =
    Some (s((metric_of ty n [], []) := f (max prev now)))" "snd (grow (metric_of ty n []) f now prev) = max prev now"
  using assms by (auto simp: grow_def record_unlabelled max_def fun_eq_iff)

lemmas pool_metric_defs = dbPoolWaitCount_def dbPoolWaitDuration_def dbPoolMaxIdleClosed_def dbPoolMaxLifetimeClosed_def
  dbPoolOpenConnections_def dbPoolInUseConnections_def dbPoolIdleConnections_def

lemma seconds_diff: "seconds_of (a - b) = seconds_of a - seconds_of b"
  by (simp add: seconds_of_def diff_divide_distrib)

lemma pool_tick_ok:
  assumes "pool_ok p s"
  shows "\<exists>s'. record_calls ok (fst (pool_tick st p)) s = Some s' \<and> snd (pool_tick st p) = prev_max st p \<and> pool_ok (prev_max st p) s'"
proof -
  let ?s0 = "s((dbPoolOpenConnections, []) := real_of_int (ps_OpenConnections st), (dbPoolInUseConnections, []) := real_of_int (ps_InUse st),
     (dbPoolIdleConnections, []) := real_of_int (ps_Idle st))"
  let ?s1 = "?s0((dbPoolWaitCount, []) := real_of_int (max (pv_WaitCount p) (ps_WaitCount st)))"
  let ?s2 = "?s1((dbPoolWaitDuration, []) := seconds_of (max (pv_WaitDuration p) (ps_WaitDuration st)))"
  let ?s3 = "?s2((dbPoolMaxIdleClosed, []) := real_of_int (max (pv_MaxIdleClosed p) (ps_MaxIdleClosed st)))"
  let ?s4 = "?s3((dbPoolMaxLifetimeClosed, []) := real_of_int (max (pv_MaxLifetimeClosed p) (ps_MaxLifetimeClosed st)))"
  have g1: "record_calls ok (fst (grow dbPoolWaitCount real_of_int (ps_WaitCount st) (pv_WaitCount p))) ?s0 = Some ?s1"
    unfolding pool_metric_defs by (rule grow_records(1)) (use assms in \<open>simp_all add: pool_ok_def pool_metric_defs metric_eq\<close>)
  have g2: "record_calls ok (fst (grow dbPoolWaitDuration seconds_of (ps_WaitDuration st) (pv_WaitDuration p))) ?s1 = Some ?s2"
    unfolding pool_metric_defs
    by (rule grow_records(1)) (use assms in \<open>simp_all add: pool_ok_def pool_metric_defs metric_eq seconds_diff\<close>)
  have g3: "record_calls ok (fst (grow dbPoolMaxIdleClosed real_of_int (ps_MaxIdleClosed st) (pv_MaxIdleClosed p))) ?s2 = Some ?s3"
    unfolding pool_metric_defs by (rule grow_records(1)) (use assms in \<open>simp_all add: pool_ok_def pool_metric_defs metric_eq\<close>)
  have g4: "record_calls ok (fst (grow dbPoolMaxLifetimeClosed real_of_int (ps_MaxLifetimeClosed st) (pv_MaxLifetimeClosed p))) ?s3 = Some ?s4"
    unfolding pool_metric_defs by (rule grow_records(1)) (use assms in \<open>simp_all add: pool_ok_def pool_metric_defs metric_eq\<close>)
  let ?now = "[(dbPoolOpenConnections, [], SetTo (real_of_int (ps_OpenConnections st))),
     (dbPoolInUseConnections, [], SetTo (real_of_int (ps_InUse st))), (dbPoolIdleConnections, [], SetTo (real_of_int (ps_Idle st)))]"
  have g0: "record_calls ok ?now s = Some ?s0"
    by (simp add: record_call_def dbPoolOpenConnections_def dbPoolInUseConnections_def dbPoolIdleConnections_def metric_of_def)
  have e: "fst (pool_tick st p) = ?now @ fst (grow dbPoolWaitCount real_of_int (ps_WaitCount st) (pv_WaitCount p)) @
      fst (grow dbPoolWaitDuration seconds_of (ps_WaitDuration st) (pv_WaitDuration p)) @
      fst (grow dbPoolMaxIdleClosed real_of_int (ps_MaxIdleClosed st) (pv_MaxIdleClosed p)) @
      fst (grow dbPoolMaxLifetimeClosed real_of_int (ps_MaxLifetimeClosed st) (pv_MaxLifetimeClosed p))"
    by (simp add: pool_tick_def Let_def case_prod_unfold)
  have "record_calls ok (fst (pool_tick st p)) s = Some ?s4"
    unfolding e by (simp only: record_calls_append g0 g1 g2 g3 g4 option.case)
  moreover have "pool_ok (prev_max st p) ?s4"
    by (simp add: pool_ok_def prev_max_def pool_metric_defs metric_eq)
  moreover have "snd (pool_tick st p) = prev_max st p"
    by (simp add: pool_tick_def Let_def case_prod_unfold prev_max_def grow_def max_def)
  ultimately show ?thesis by blast
qed

text \<open>The collector never panics, and each counter is the largest value its statistic has had, which for the pool's growing
  statistics is the last.\<close>

theorem pool_counters_follow:
  "\<exists>p s. pool_run ok sts (pool_zero, no_series) = Some (p, s) \<and>
     s (dbPoolWaitCount, []) = real_of_int (fold max (map ps_WaitCount sts) 0) \<and>
     s (dbPoolWaitDuration, []) = seconds_of (fold max (map ps_WaitDuration sts) 0) \<and>
     s (dbPoolMaxIdleClosed, []) = real_of_int (fold max (map ps_MaxIdleClosed sts) 0) \<and>
     s (dbPoolMaxLifetimeClosed, []) = real_of_int (fold max (map ps_MaxLifetimeClosed sts) 0)"
proof -
  have "\<exists>p' s'. pool_run ok sts (p, s) = Some (p', s') \<and> pool_ok p' s' \<and>
      p' = \<lparr>pv_WaitCount = fold max (map ps_WaitCount sts) (pv_WaitCount p),
            pv_WaitDuration = fold max (map ps_WaitDuration sts) (pv_WaitDuration p),
            pv_MaxIdleClosed = fold max (map ps_MaxIdleClosed sts) (pv_MaxIdleClosed p),
            pv_MaxLifetimeClosed = fold max (map ps_MaxLifetimeClosed sts) (pv_MaxLifetimeClosed p)\<rparr>" if "pool_ok p s" for p s
    using that
  proof (induction sts arbitrary: p s)
    case (Cons st sts)
    from pool_tick_ok [OF Cons.prems, of ok st] obtain s' where
      s': "record_calls ok (fst (pool_tick st p)) s = Some s'" "snd (pool_tick st p) = prev_max st p" "pool_ok (prev_max st p) s'" by blast
    then have "pool_run ok (st # sts) (p, s) = pool_run ok sts (prev_max st p, s')" by (simp add: case_prod_unfold)
    with Cons.IH [OF s'(3)] show ?case by (simp add: prev_max_def max.commute)
  qed simp
  from this [of pool_zero no_series] show ?thesis
    by (fastforce simp: pool_ok_def pool_zero_def no_series_def seconds_of_def)
qed

text \<open>What an event does to the number of pending invoices.\<close>

fun pending_change :: "payment_event \<Rightarrow> real" where
  "pending_change (InvoiceCreated _) = 1"
| "pending_change (WebhookEnds (PaymentDone _)) = - 1"
| "pending_change (SweepEnds _ (Some n)) = - real_of_int (max 0 n)"
| "pending_change _ = 0"

lemma pending_calls:
  "record_calls ok (payment_calls e) s = Some s' \<Longrightarrow> s' (PaymentsPending, []) = s (PaymentsPending, []) + pending_change e"
  by (cases e rule: pending_change.cases)
    (auto simp: invoice_calls_def sweep_calls_def joined_call_def record_call_def payment_metric_defs metric_eq split: if_splits option.splits)

text \<open>The gauge of pending payments is what this process has seen begin, less what it has seen end.\<close>

theorem pending_gauge:
  assumes "record_calls ok (concat (map payment_calls es)) s = Some s'"
  shows "s' (PaymentsPending, []) = s (PaymentsPending, []) + sum_list (map pending_change es)"
  using assms
proof (induction es arbitrary: s)
  case (Cons e es)
  then obtain s1 where s1: "record_calls ok (payment_calls e) s = Some s1" "record_calls ok (concat (map payment_calls es)) s1 = Some s'"
    by (auto simp: record_calls_append split: option.splits)
  from Cons.IH [OF s1(2)] pending_calls [OF s1(1)] show ?case by simp
qed simp

text \<open>So after a restart, or where another process takes the webhook, it goes below zero.\<close>

lemma pending_gauge_witness:
  "\<exists>s. record_calls any_label (concat (map payment_calls [WebhookEnds (PaymentDone ''hybrid'')])) no_series = Some s \<and> s (PaymentsPending, []) = - 1"
proof -
  have "list_all (safe_call any_label) (concat (map payment_calls [WebhookEnds (PaymentDone ''hybrid'')]))" by code_simp
  then obtain s where s: "record_calls any_label (concat (map payment_calls [WebhookEnds (PaymentDone ''hybrid'')])) no_series = Some s"
    using safe_calls_return by (metis not_None_eq)
  from pending_gauge [OF s] s show ?thesis by (simp add: no_series_def)
qed

end
