(* ===== verification/Haven_Metrics.thy ===== *)
theory Haven_Metrics
  imports Relay_Metrics Haven_Gate Admin_Queries Haven_Import
begin

text \<open>
  internal/haven/metrics.go and the calls to it in internal/haven/handlers.go: the metrics of the boxes, of the broadcasters,
  of the importers and of the system, one call per method of \<open>Metrics\<close>; the gates of \<open>Haven_Gate\<close> with what they
  record; the registration of both modes; the collector of member counts.
\<close>

section \<open>The metrics\<close>

definition havenEventsRouted :: metric where
  "havenEventsRouted = metric_of Counter ''nostr_relay_haven_events_routed_total'' [''box'']"

definition havenEventsRejected :: metric where
  "havenEventsRejected = metric_of Counter ''nostr_relay_haven_events_rejected_total'' [''box'', ''reason'']"

definition havenFiltersRouted :: metric where
  "havenFiltersRouted = metric_of Counter ''nostr_relay_haven_filters_routed_total'' [''box'']"

definition havenFiltersRejected :: metric where
  "havenFiltersRejected = metric_of Counter ''nostr_relay_haven_filters_rejected_total'' [''box'', ''reason'']"

definition havenAccessAttempts :: metric where
  "havenAccessAttempts = metric_of Counter ''nostr_relay_haven_access_attempts_total'' [''box'', ''operation'']"

definition havenAccessDenied :: metric where
  "havenAccessDenied = metric_of Counter ''nostr_relay_haven_access_denied_total'' [''box'', ''operation'', ''reason'']"

definition havenBlastrEventsBroadcast :: metric where
  "havenBlastrEventsBroadcast = metric_of Counter ''nostr_relay_haven_blastr_events_broadcast_total'' []"

definition havenBlastrEventsFailed :: metric where
  "havenBlastrEventsFailed = metric_of Counter ''nostr_relay_haven_blastr_events_failed_total'' []"

definition havenBlastrEventsQueued :: metric where
  "havenBlastrEventsQueued = metric_of Counter ''nostr_relay_haven_blastr_events_queued_total'' []"

definition havenBlastrEventsDropped :: metric where
  "havenBlastrEventsDropped = metric_of Counter ''nostr_relay_haven_blastr_events_dropped_total'' []"

definition havenBlastrRelaysConnected :: metric where
  "havenBlastrRelaysConnected = metric_of Gauge ''nostr_relay_haven_blastr_relays_connected'' []"

definition havenBlastrQueueSize :: metric where
  "havenBlastrQueueSize = metric_of Gauge ''nostr_relay_haven_blastr_queue_size'' []"

definition havenBlastrRelayPublishTotal :: metric where
  "havenBlastrRelayPublishTotal = metric_of Counter ''nostr_relay_haven_blastr_relay_publish_total'' [''relay'', ''status'']"

definition havenBlastrRetryQueued :: metric where
  "havenBlastrRetryQueued = metric_of Counter ''nostr_relay_haven_blastr_retry_queued_total'' []"

definition havenBlastrRetrySuccess :: metric where
  "havenBlastrRetrySuccess = metric_of Counter ''nostr_relay_haven_blastr_retry_success_total'' []"

definition havenBlastrRetryExhausted :: metric where
  "havenBlastrRetryExhausted = metric_of Counter ''nostr_relay_haven_blastr_retry_exhausted_total'' []"

definition havenBlastrRetryQueueSize :: metric where
  "havenBlastrRetryQueueSize = metric_of Gauge ''nostr_relay_haven_blastr_retry_queue_size'' []"

definition havenBlastrManagerJobsQueued :: metric where
  "havenBlastrManagerJobsQueued = metric_of Counter ''nostr_relay_haven_blastr_manager_jobs_queued_total'' [''tier'']"

definition havenBlastrManagerJobsDropped :: metric where
  "havenBlastrManagerJobsDropped = metric_of Counter ''nostr_relay_haven_blastr_manager_jobs_dropped_total'' [''tier'']"

definition havenBlastrManagerBroadcast :: metric where
  "havenBlastrManagerBroadcast = metric_of Counter ''nostr_relay_haven_blastr_manager_broadcast_total'' [''tier'']"

definition havenBlastrManagerFailed :: metric where
  "havenBlastrManagerFailed = metric_of Counter ''nostr_relay_haven_blastr_manager_failed_total'' [''tier'']"

definition havenBlastrManagerRelayPublish :: metric where
  "havenBlastrManagerRelayPublish = metric_of Counter ''nostr_relay_haven_blastr_manager_relay_publish_total'' [''relay'', ''tier'', ''status'']"

definition havenBlastrManagerQueueSize :: metric where
  "havenBlastrManagerQueueSize = metric_of Gauge ''nostr_relay_haven_blastr_manager_queue_size'' []"

definition havenBlastrManagerWorkers :: metric where
  "havenBlastrManagerWorkers = metric_of Gauge ''nostr_relay_haven_blastr_manager_workers'' []"

definition havenImporterEventsImported :: metric where
  "havenImporterEventsImported = metric_of Counter ''nostr_relay_haven_importer_events_imported_total'' []"

definition havenImporterEventsSkipped :: metric where
  "havenImporterEventsSkipped = metric_of Counter ''nostr_relay_haven_importer_events_skipped_total'' []"

definition havenImporterFetchErrors :: metric where
  "havenImporterFetchErrors = metric_of Counter ''nostr_relay_haven_importer_fetch_errors_total'' []"

definition havenImporterRelaysPolled :: metric where
  "havenImporterRelaysPolled = metric_of Gauge ''nostr_relay_haven_importer_relays_polled'' []"

definition havenImporterLastPollTimestamp :: metric where
  "havenImporterLastPollTimestamp = metric_of Gauge ''nostr_relay_haven_importer_last_poll_timestamp'' []"

definition havenImporterRelayFetchTotal :: metric where
  "havenImporterRelayFetchTotal = metric_of Counter ''nostr_relay_haven_importer_relay_fetch_total'' [''relay'', ''status'']"

definition havenImporterManagerJobsQueued :: metric where
  "havenImporterManagerJobsQueued = metric_of Counter ''nostr_relay_haven_importer_manager_jobs_queued_total'' [''tier'']"

definition havenImporterManagerJobsProcessed :: metric where
  "havenImporterManagerJobsProcessed = metric_of Counter ''nostr_relay_haven_importer_manager_jobs_processed_total'' [''tier'']"

definition havenImporterManagerEventsImported :: metric where
  "havenImporterManagerEventsImported = metric_of Counter ''nostr_relay_haven_importer_manager_events_imported_total'' [''tier'']"

definition havenImporterManagerRelayFetch :: metric where
  "havenImporterManagerRelayFetch = metric_of Counter ''nostr_relay_haven_importer_manager_relay_fetch_total'' [''relay'', ''tier'', ''status'']"

definition havenImporterManagerUsersEnabled :: metric where
  "havenImporterManagerUsersEnabled = metric_of Gauge ''nostr_relay_haven_importer_manager_users_enabled'' []"

definition havenImporterManagerQueueSize :: metric where
  "havenImporterManagerQueueSize = metric_of Gauge ''nostr_relay_haven_importer_manager_queue_size'' []"

definition havenImporterManagerWorkers :: metric where
  "havenImporterManagerWorkers = metric_of Gauge ''nostr_relay_haven_importer_manager_workers'' []"

definition havenBoxEventsStored :: metric where
  "havenBoxEventsStored = metric_of Gauge ''nostr_relay_haven_box_events_stored'' [''box'']"

definition havenMembersByTier :: metric where
  "havenMembersByTier = metric_of Gauge ''nostr_relay_haven_members_by_tier'' [''tier'']"

definition havenWoTBlocksTotal :: metric where
  "havenWoTBlocksTotal = metric_of Counter ''nostr_relay_haven_wot_blocks_total'' [''source'']"

definition havenWoTAllowsTotal :: metric where
  "havenWoTAllowsTotal = metric_of Counter ''nostr_relay_haven_wot_allows_total'' [''source'']"

definition havenWorkerProcessingSeconds :: metric where
  "havenWorkerProcessingSeconds = metric_of Histogram ''nostr_relay_haven_worker_processing_seconds'' [''type'']"

definition havenEnabled :: metric where
  "havenEnabled = metric_of Gauge ''nostr_relay_haven_enabled'' []"

definition havenBlastrEnabled :: metric where
  "havenBlastrEnabled = metric_of Gauge ''nostr_relay_haven_blastr_enabled'' []"

definition havenImporterEnabled :: metric where
  "havenImporterEnabled = metric_of Gauge ''nostr_relay_haven_importer_enabled'' []"

definition haven_box_metrics :: "metric list" where
  "haven_box_metrics =
     [havenEventsRouted, havenEventsRejected, havenFiltersRouted, havenFiltersRejected,
      havenAccessAttempts, havenAccessDenied]"

definition haven_blastr_metrics :: "metric list" where
  "haven_blastr_metrics =
     [havenBlastrEventsBroadcast, havenBlastrEventsFailed, havenBlastrEventsQueued, havenBlastrEventsDropped,
      havenBlastrRelaysConnected, havenBlastrQueueSize, havenBlastrRelayPublishTotal, havenBlastrRetryQueued,
      havenBlastrRetrySuccess, havenBlastrRetryExhausted, havenBlastrRetryQueueSize, havenBlastrManagerJobsQueued,
      havenBlastrManagerJobsDropped, havenBlastrManagerBroadcast, havenBlastrManagerFailed, havenBlastrManagerRelayPublish,
      havenBlastrManagerQueueSize, havenBlastrManagerWorkers]"

definition haven_importer_metrics :: "metric list" where
  "haven_importer_metrics =
     [havenImporterEventsImported, havenImporterEventsSkipped, havenImporterFetchErrors, havenImporterRelaysPolled,
      havenImporterLastPollTimestamp, havenImporterRelayFetchTotal, havenImporterManagerJobsQueued, havenImporterManagerJobsProcessed,
      havenImporterManagerEventsImported, havenImporterManagerRelayFetch, havenImporterManagerUsersEnabled, havenImporterManagerQueueSize,
      havenImporterManagerWorkers]"

definition haven_status_metrics :: "metric list" where
  "haven_status_metrics =
     [havenBoxEventsStored, havenMembersByTier, havenWoTBlocksTotal, havenWoTAllowsTotal,
      havenWorkerProcessingSeconds, havenEnabled, havenBlastrEnabled, havenImporterEnabled]"

lemmas haven_box_metric_defs =
  havenEventsRouted_def havenEventsRejected_def havenFiltersRouted_def havenFiltersRejected_def
  havenAccessAttempts_def havenAccessDenied_def

lemmas haven_blastr_metric_defs =
  havenBlastrEventsBroadcast_def havenBlastrEventsFailed_def havenBlastrEventsQueued_def havenBlastrEventsDropped_def
  havenBlastrRelaysConnected_def havenBlastrQueueSize_def havenBlastrRelayPublishTotal_def havenBlastrRetryQueued_def
  havenBlastrRetrySuccess_def havenBlastrRetryExhausted_def havenBlastrRetryQueueSize_def havenBlastrManagerJobsQueued_def
  havenBlastrManagerJobsDropped_def havenBlastrManagerBroadcast_def havenBlastrManagerFailed_def havenBlastrManagerRelayPublish_def
  havenBlastrManagerQueueSize_def havenBlastrManagerWorkers_def

lemmas haven_importer_metric_defs =
  havenImporterEventsImported_def havenImporterEventsSkipped_def havenImporterFetchErrors_def havenImporterRelaysPolled_def
  havenImporterLastPollTimestamp_def havenImporterRelayFetchTotal_def havenImporterManagerJobsQueued_def havenImporterManagerJobsProcessed_def
  havenImporterManagerEventsImported_def havenImporterManagerRelayFetch_def havenImporterManagerUsersEnabled_def havenImporterManagerQueueSize_def
  havenImporterManagerWorkers_def

lemmas haven_status_metric_defs =
  havenBoxEventsStored_def havenMembersByTier_def havenWoTBlocksTotal_def havenWoTAllowsTotal_def
  havenWorkerProcessingSeconds_def havenEnabled_def havenBlastrEnabled_def havenImporterEnabled_def

section \<open>Calls\<close>

text \<open>Labels are kept short: the part of a reason before its colon, and at most forty bytes of a relay's address.\<close>

definition haven_categorizeReason :: "string \<Rightarrow> string" where
  "haven_categorizeReason reason =
     (case before_colon reason of Some p \<Rightarrow> p | None \<Rightarrow> if length reason > 30 then take 30 reason else reason)"

definition truncateRelay :: "string \<Rightarrow> string" where
  "truncateRelay url = (let u = TrimPrefix (TrimPrefix url ''wss://'') ''ws://'' in if length u > 40 then take 40 u else u)"

definition status_label :: "bool \<Rightarrow> string" where
  "status_label ok = (if ok then ''success'' else ''failed'')"

definition flag_value :: "bool \<Rightarrow> metric_update" where
  "flag_value b = SetTo (if b then 1 else 0)"

abbreviation inc :: metric_update where "inc \<equiv> AddTo 1"

datatype box_call = RecordEventRouted Box | RecordEventRejected Box string | RecordFilterRouted Box | RecordFilterRejected Box string
  | RecordAccessAttempt Box string | RecordAccessDenied Box string string

primrec box_metric :: "box_call \<Rightarrow> metric_call" where
  "box_metric (RecordEventRouted b) = (havenEventsRouted, [Box_String b], inc)"
| "box_metric (RecordEventRejected b r) = (havenEventsRejected, [Box_String b, haven_categorizeReason r], inc)"
| "box_metric (RecordFilterRouted b) = (havenFiltersRouted, [Box_String b], inc)"
| "box_metric (RecordFilterRejected b r) = (havenFiltersRejected, [Box_String b, haven_categorizeReason r], inc)"
| "box_metric (RecordAccessAttempt b x) = (havenAccessAttempts, [Box_String b, x], inc)"
| "box_metric (RecordAccessDenied b x r) = (havenAccessDenied, [Box_String b, x, haven_categorizeReason r], inc)"

datatype blastr_call = RecordBlastrBroadcast | RecordBlastrFailed | RecordBlastrQueued | RecordBlastrDropped
  | SetBlastrRelaysConnected int | SetBlastrQueueSize int | RecordBlastrRelayPublish string bool
  | RecordBlastrRetryQueued | RecordBlastrRetrySuccess | RecordBlastrRetryExhausted | SetBlastrRetryQueueSize int
  | RecordBlastrManagerQueued string | RecordBlastrManagerDropped string | RecordBlastrManagerBroadcast string
  | RecordBlastrManagerFailed string | RecordBlastrManagerRelayPublish string string bool
  | SetBlastrManagerQueueSize int | SetBlastrManagerWorkers int

primrec blastr_metric :: "blastr_call \<Rightarrow> metric_call" where
  "blastr_metric RecordBlastrBroadcast = (havenBlastrEventsBroadcast, [], inc)"
| "blastr_metric RecordBlastrFailed = (havenBlastrEventsFailed, [], inc)"
| "blastr_metric RecordBlastrQueued = (havenBlastrEventsQueued, [], inc)"
| "blastr_metric RecordBlastrDropped = (havenBlastrEventsDropped, [], inc)"
| "blastr_metric (SetBlastrRelaysConnected n) = (havenBlastrRelaysConnected, [], SetTo (real_of_int n))"
| "blastr_metric (SetBlastrQueueSize n) = (havenBlastrQueueSize, [], SetTo (real_of_int n))"
| "blastr_metric (RecordBlastrRelayPublish u ok) = (havenBlastrRelayPublishTotal, [truncateRelay u, status_label ok], inc)"
| "blastr_metric RecordBlastrRetryQueued = (havenBlastrRetryQueued, [], inc)"
| "blastr_metric RecordBlastrRetrySuccess = (havenBlastrRetrySuccess, [], inc)"
| "blastr_metric RecordBlastrRetryExhausted = (havenBlastrRetryExhausted, [], inc)"
| "blastr_metric (SetBlastrRetryQueueSize n) = (havenBlastrRetryQueueSize, [], SetTo (real_of_int n))"
| "blastr_metric (RecordBlastrManagerQueued t) = (havenBlastrManagerJobsQueued, [t], inc)"
| "blastr_metric (RecordBlastrManagerDropped t) = (havenBlastrManagerJobsDropped, [t], inc)"
| "blastr_metric (RecordBlastrManagerBroadcast t) = (havenBlastrManagerBroadcast, [t], inc)"
| "blastr_metric (RecordBlastrManagerFailed t) = (havenBlastrManagerFailed, [t], inc)"
| "blastr_metric (RecordBlastrManagerRelayPublish u t ok) = (havenBlastrManagerRelayPublish, [truncateRelay u, t, status_label ok], inc)"
| "blastr_metric (SetBlastrManagerQueueSize n) = (havenBlastrManagerQueueSize, [], SetTo (real_of_int n))"
| "blastr_metric (SetBlastrManagerWorkers n) = (havenBlastrManagerWorkers, [], SetTo (real_of_int n))"

datatype importer_call = RecordImporterImported | RecordImporterSkipped | RecordImporterFetchError | SetImporterRelaysPolled int
  | SetImporterLastPollTimestamp real | RecordImporterRelayFetch string bool | RecordImporterManagerQueued string
  | RecordImporterManagerProcessed string | RecordImporterManagerImported string | RecordImporterManagerRelayFetch string string bool
  | SetImporterManagerUsersEnabled int | SetImporterManagerQueueSize int | SetImporterManagerWorkers int

primrec importer_metric :: "importer_call \<Rightarrow> metric_call" where
  "importer_metric RecordImporterImported = (havenImporterEventsImported, [], inc)"
| "importer_metric RecordImporterSkipped = (havenImporterEventsSkipped, [], inc)"
| "importer_metric RecordImporterFetchError = (havenImporterFetchErrors, [], inc)"
| "importer_metric (SetImporterRelaysPolled n) = (havenImporterRelaysPolled, [], SetTo (real_of_int n))"
| "importer_metric (SetImporterLastPollTimestamp t) = (havenImporterLastPollTimestamp, [], SetTo t)"
| "importer_metric (RecordImporterRelayFetch u ok) = (havenImporterRelayFetchTotal, [truncateRelay u, status_label ok], inc)"
| "importer_metric (RecordImporterManagerQueued t) = (havenImporterManagerJobsQueued, [t], inc)"
| "importer_metric (RecordImporterManagerProcessed t) = (havenImporterManagerJobsProcessed, [t], inc)"
| "importer_metric (RecordImporterManagerImported t) = (havenImporterManagerEventsImported, [t], inc)"
| "importer_metric (RecordImporterManagerRelayFetch u t ok) = (havenImporterManagerRelayFetch, [truncateRelay u, t, status_label ok], inc)"
| "importer_metric (SetImporterManagerUsersEnabled n) = (havenImporterManagerUsersEnabled, [], SetTo (real_of_int n))"
| "importer_metric (SetImporterManagerQueueSize n) = (havenImporterManagerQueueSize, [], SetTo (real_of_int n))"
| "importer_metric (SetImporterManagerWorkers n) = (havenImporterManagerWorkers, [], SetTo (real_of_int n))"

datatype status_call = SetBoxEventsStored Box int | SetHavenEnabled bool | SetBlastrEnabled bool | SetImporterEnabled bool
  | SetMembersByTier string int | RecordWoTBlock string | RecordWoTAllow string | ObserveWorkerProcessing string real

primrec status_metric :: "status_call \<Rightarrow> metric_call" where
  "status_metric (SetBoxEventsStored b n) = (havenBoxEventsStored, [Box_String b], SetTo (real_of_int n))"
| "status_metric (SetHavenEnabled x) = (havenEnabled, [], flag_value x)"
| "status_metric (SetBlastrEnabled x) = (havenBlastrEnabled, [], flag_value x)"
| "status_metric (SetImporterEnabled x) = (havenImporterEnabled, [], flag_value x)"
| "status_metric (SetMembersByTier t n) = (havenMembersByTier, [t], SetTo (real_of_int n))"
| "status_metric (RecordWoTBlock src) = (havenWoTBlocksTotal, [src], inc)"
| "status_metric (RecordWoTAllow src) = (havenWoTAllowsTotal, [src], inc)"
| "status_metric (ObserveWorkerProcessing ty secs) = (havenWorkerProcessingSeconds, [ty], Observed secs)"

datatype haven_call = OfBoxes box_call | OfBlastr blastr_call | OfImporter importer_call | OfStatus status_call

primrec haven_metric :: "haven_call \<Rightarrow> metric_call" where
  "haven_metric (OfBoxes c) = box_metric c"
| "haven_metric (OfBlastr c) = blastr_metric c"
| "haven_metric (OfImporter c) = importer_metric c"
| "haven_metric (OfStatus c) = status_metric c"

section \<open>The gates with what they record\<close>

definition refuse :: "Box \<Rightarrow> string \<Rightarrow> string \<Rightarrow> verdict \<times> haven_call list" where
  "refuse b r msg = (Reject msg, [OfBoxes (RecordAccessDenied b ''write'' r), OfBoxes (RecordEventRejected b r)])"

text \<open>One owner: what an access that \<open>CanAccessBox\<close> denies comes to; \<open>None\<close> goes on.\<close>

definition write_refusal :: "Router \<Rightarrow> string \<Rightarrow> Box \<Rightarrow> (verdict \<times> haven_call list) option" where
  "write_refusal r authed box =
     (if CanAccessBox r box authed True then None
      else case box of
        BoxPrivate \<Rightarrow> Some (if authed = '''' then refuse box ''auth_required'' ''auth-required: authentication required for private box''
                         else refuse box ''not_owner'' ''restricted: only owner can write to private box'')
      | BoxChat \<Rightarrow> (if authed = '''' then Some (refuse box ''auth_required'' ''auth-required: authentication required for chat'') else None)
      | BoxOutbox \<Rightarrow> (if authed \<noteq> r_owner r then Some (refuse box ''not_owner'' ''restricted: only owner can write to outbox'') else None)
      | _ \<Rightarrow> None)"

definition haven_RejectEvent_counted :: "Router \<Rightarrow> reqctx \<Rightarrow> event \<Rightarrow> verdict \<times> haven_call list" where
  "haven_RejectEvent_counted r ctx ev =
     (if \<not> hc_enabled (r_config r) then (Accept, [])
      else let box0 = RouteEvent r ev; authed = ctx_authed ctx in
        if box0 = BoxUnknown \<and> \<not> is_chat_kind (ev_kind ev)
        then (Reject ''restricted: event does not belong to any HAVEN box'', [OfBoxes (RecordEventRejected BoxUnknown ''no_box'')])
        else let box = (if box0 = BoxUnknown then BoxChat else box0); attempt = OfBoxes (RecordAccessAttempt box ''write'') in
          case write_refusal r authed box of
            Some (v, cs) \<Rightarrow> (v, attempt # cs)
          | None \<Rightarrow>
              if authed \<noteq> '''' \<and> ev_pubkey ev \<noteq> authed
              then (Reject ''restricted: can only publish events as yourself'', [attempt, OfBoxes (RecordEventRejected box ''pubkey_mismatch'')])
              else (Accept, [attempt, OfBoxes (RecordEventRouted box)]))"

text \<open>The loop over the boxes of a filter, for either mode: \<open>why\<close> is the label and the message of a refusal.\<close>

fun counted_boxes :: "('a \<Rightarrow> Box) \<Rightarrow> ('a \<Rightarrow> (string \<times> string) option) \<Rightarrow> 'a list \<Rightarrow> verdict \<times> haven_call list" where
  "counted_boxes box why [] = (Accept, [])"
| "counted_boxes box why (b # bs) =
     (let attempt = OfBoxes (RecordAccessAttempt (box b) ''read'') in
      case why b of
        Some (r, msg) \<Rightarrow> (Reject msg, [attempt, OfBoxes (RecordAccessDenied (box b) ''read'' r), OfBoxes (RecordFilterRejected (box b) r)])
      | None \<Rightarrow> (case counted_boxes box why bs of (v, cs) \<Rightarrow> (v, attempt # OfBoxes (RecordFilterRouted (box b)) # cs)))"

definition read_refusal :: "Router \<Rightarrow> string \<Rightarrow> Box \<Rightarrow> (string \<times> string) option" where
  "read_refusal r authed box =
     (if CanAccessBox r box authed False then None
      else case box of
        BoxPrivate \<Rightarrow> Some (if authed = '''' then (''auth_required'', ''auth-required: authentication required for private box'')
                         else (''not_owner'', ''restricted: only owner can read private box''))
      | BoxChat \<Rightarrow> (if authed = '''' then Some (''auth_required'', ''auth-required: authentication required for chat'') else None)
      | BoxInbox \<Rightarrow> (if authed \<noteq> r_owner r then Some (''not_owner'', ''auth-required: only owner can read inbox'') else None)
      | _ \<Rightarrow> None)"

definition haven_RejectFilter_counted :: "Router \<Rightarrow> reqctx \<Rightarrow> nfilter \<Rightarrow> verdict \<times> haven_call list" where
  "haven_RejectFilter_counted r ctx f =
     (if \<not> hc_enabled (r_config r) then (Accept, [])
      else counted_boxes (\<lambda>b. b) (read_refusal r (ctx_authed ctx)) (RouteFilter r f (ctx_authed ctx)))"

subsection \<open>Every member\<close>

definition multi_write_refusal :: "Router \<Rightarrow> string \<Rightarrow> RoutingResult \<Rightarrow> (verdict \<times> haven_call list) option" where
  "multi_write_refusal r authed res =
     (let box = rr_box res in
      if CanAccessUserBox r box authed (rr_owner res) True then None
      else case box of
        BoxPrivate \<Rightarrow> Some (if authed = '''' then refuse box ''auth_required'' ''auth-required: authentication required for private box''
                         else refuse box ''not_owner'' ''restricted: only owner can write to private box'')
      | BoxChat \<Rightarrow> (if authed = '''' then Some (refuse box ''auth_required'' ''auth-required: authentication required for chat'') else None)
      | BoxInbox \<Rightarrow>
          (if rr_owner res \<noteq> '''' \<and>
              (case settings_of (r_settings_again r) (rr_owner res) of None \<Rightarrow> False | Some s \<Rightarrow> \<not> PublicInboxWrite s)
           then Some (refuse box ''inbox_restricted'' ''restricted: inbox write is disabled for this user'') else None)
      | BoxOutbox \<Rightarrow>
          (if authed \<noteq> rr_owner res then Some (refuse box ''not_owner'' ''restricted: only owner can write to outbox'') else None)
      | BoxUnknown \<Rightarrow> None)"

primrec source_label :: "FilterSource \<Rightarrow> string" where
  "source_label FilterSourceUserBlock = ''user_block''"
| "source_label FilterSourceUserTrust = ''user_trust''"
| "source_label FilterSourceDefault = ''default''"

definition multi_RejectEvent_counted ::
  "Router \<Rightarrow> (event \<Rightarrow> string \<Rightarrow> FilterResult) option \<Rightarrow> reqctx \<Rightarrow> event \<Rightarrow> verdict \<times> haven_call list" where
  "multi_RejectEvent_counted r wot ctx ev =
     (if \<not> hc_enabled (r_config r) then (Accept, [])
      else let authed = ctx_authed ctx; res0 = RouteEventForUser r ev authed in
        if rr_box res0 = BoxUnknown \<and> \<not> is_chat_kind (ev_kind ev)
        then (Reject ''restricted: event does not belong to any HAVEN box'', [OfBoxes (RecordEventRejected BoxUnknown ''no_box'')])
        else let res = (if rr_box res0 = BoxUnknown then res0\<lparr>rr_box := BoxChat\<rparr> else res0); box = rr_box res;
                 attempt = OfBoxes (RecordAccessAttempt box ''write'') in
          case multi_write_refusal r authed res of
            Some (v, cs) \<Rightarrow> (v, attempt # cs)
          | None \<Rightarrow>
              let asked = (if box = BoxInbox \<and> rr_owner res \<noteq> '''' then map_option (\<lambda>flt. flt ev (rr_owner res)) wot else None) in
              if (case asked of None \<Rightarrow> False | Some a \<Rightarrow> \<not> fr_allowed a)
              then (case refuse box ''wot_blocked'' ''restricted: blocked by recipient's WoT settings'' of (v, cs) \<Rightarrow>
                     (v, attempt # OfStatus (RecordWoTBlock (source_label (fr_source (the asked)))) # cs))
              else let allowed = (case asked of None \<Rightarrow> [] | Some a \<Rightarrow> [OfStatus (RecordWoTAllow (source_label (fr_source a)))]) in
                if authed \<noteq> '''' \<and> ev_pubkey ev \<noteq> authed
                then (Reject ''restricted: can only publish events as yourself'',
                      attempt # allowed @ [OfBoxes (RecordEventRejected box ''pubkey_mismatch'')])
                else (Accept, attempt # allowed @ [OfBoxes (RecordEventRouted box)]))"

definition multi_read_refusal :: "Router \<Rightarrow> string \<Rightarrow> RoutingResult \<Rightarrow> (string \<times> string) option" where
  "multi_read_refusal r authed res =
     (if CanAccessUserBox r (rr_box res) authed (rr_owner res) False then None
      else case rr_box res of
        BoxPrivate \<Rightarrow> Some (if authed = '''' then (''auth_required'', ''auth-required: authentication required for private box'')
                         else (''not_owner'', ''restricted: only owner can read private box''))
      | BoxChat \<Rightarrow> (if authed = '''' then Some (''auth_required'', ''auth-required: authentication required for chat'') else None)
      | BoxInbox \<Rightarrow> (if authed \<noteq> rr_owner res then Some (''not_owner'', ''auth-required: only owner can read inbox'') else None)
      | BoxOutbox \<Rightarrow>
          (if rr_owner res \<noteq> '''' \<and> authed \<noteq> rr_owner res \<and>
              (case settings_of (r_settings_again r) (rr_owner res) of None \<Rightarrow> False | Some s \<Rightarrow> \<not> PublicOutboxRead s)
           then Some (''outbox_restricted'', ''auth-required: outbox read is restricted for this user'') else None)
      | BoxUnknown \<Rightarrow> None)"

definition multi_RejectFilter_counted :: "Router \<Rightarrow> reqctx \<Rightarrow> nfilter \<Rightarrow> verdict \<times> haven_call list" where
  "multi_RejectFilter_counted r ctx f =
     (if \<not> hc_enabled (r_config r) then (Accept, [])
      else counted_boxes rr_box (multi_read_refusal r (ctx_authed ctx)) (RouteFilterForUser r f (ctx_authed ctx)))"

section \<open>Registration, workers, members\<close>

text \<open>Identifiers are cut for the log.\<close>

definition truncateID :: "string \<Rightarrow> string" where
  "truncateID s = (if length s \<ge> 8 then take 8 s else if s = '''' then ''<empty>'' else s)"

datatype haven_hook = HookRejectEvent | HookRejectFilter | HookOverwriteFilter | HookLogSaved | HookBlastrSaved

definition box_hooks :: "haven_hook list" where
  "box_hooks = [HookRejectEvent, HookRejectFilter, HookOverwriteFilter, HookLogSaved]"

definition RegisterHandlers_effects :: "haven_config option \<Rightarrow> haven_hook list \<times> haven_call list" where
  "RegisterHandlers_effects c =
     (case c of None \<Rightarrow> ([], [OfStatus (SetHavenEnabled False)])
      | Some cfg \<Rightarrow> if \<not> hc_enabled cfg then ([], [OfStatus (SetHavenEnabled False)]) else (box_hooks, [OfStatus (SetHavenEnabled True)]))"

text \<open>What \<open>RegisterFullSystem\<close> registers and records besides the system it returns.\<close>

definition RegisterFullSystem_effects :: "full_haven option \<Rightarrow> bool \<Rightarrow> haven_hook list \<times> haven_call list" where
  "RegisterFullSystem_effects c can_store =
     (let off = ([], [OfStatus (SetHavenEnabled False), OfStatus (SetBlastrEnabled False), OfStatus (SetImporterEnabled False)]) in
      case c of None \<Rightarrow> off | Some cfg \<Rightarrow>
        if \<not> ah_Enabled cfg then off
        else let blastr = (ah_BlastrEnabled cfg \<and> ah_BlastrRelays cfg \<noteq> []);
                 importer = (ah_ImporterEnabled cfg \<and> ah_ImporterRelays cfg \<noteq> [] \<and> can_store)
          in (box_hooks @ (if blastr then [HookBlastrSaved] else []),
              [OfStatus (SetHavenEnabled True), OfStatus (SetBlastrEnabled blastr), OfStatus (SetImporterEnabled importer)]))"

record multi_parts =
  mp_MemberStore :: "member_api option"
  mp_UserSettingsStore :: "(string \<Rightarrow> UserSettings option) option"
  mp_BlastrManager :: bool
  mp_ImporterManager :: bool
  mp_WoTUserFilter :: "(event \<Rightarrow> string \<Rightarrow> FilterResult) option"

definition no_parts :: multi_parts where
  "no_parts = \<lparr>mp_MemberStore = None, mp_UserSettingsStore = None, mp_BlastrManager = False, mp_ImporterManager = False,
     mp_WoTUserFilter = None\<rparr>"

record multi_handler =
  mh_router :: Router
  mh_wot :: "(event \<Rightarrow> string \<Rightarrow> FilterResult) option"
  mh_BlastrManager :: bool
  mh_ImporterManager :: bool

definition NewMultiUserHandler :: "haven_config option \<Rightarrow> multi_parts option \<Rightarrow> multi_handler" where
  "NewMultiUserHandler c parts =
     (let p = (case parts of Some p \<Rightarrow> p | None \<Rightarrow> no_parts) in
      \<lparr>mh_router = (NewRouter c)\<lparr>r_members := mp_MemberStore p, r_settings := mp_UserSettingsStore p,
         r_settings_again := mp_UserSettingsStore p\<rparr>,
       mh_wot = mp_WoTUserFilter p, mh_BlastrManager = mp_BlastrManager p, mh_ImporterManager = mp_ImporterManager p\<rparr>)"

definition SetEventLookup :: "(string \<Rightarrow> event option) \<Rightarrow> multi_handler option \<Rightarrow> multi_handler option" where
  "SetEventLookup lookup = map_option (\<lambda>h. h\<lparr>mh_router := (mh_router h)\<lparr>r_lookup := Some lookup\<rparr>\<rparr>)"

text \<open>The same on the handler of the single-owner system.\<close>

definition system_SetEventLookup :: "(string \<Rightarrow> event option) \<Rightarrow> Router option \<Rightarrow> Router option" where
  "system_SetEventLookup lookup = map_option (\<lambda>r. r\<lparr>r_lookup := Some lookup\<rparr>)"

definition system_SetMemberStore :: "member_api \<Rightarrow> Router option \<Rightarrow> Router option" where
  "system_SetMemberStore store = map_option (\<lambda>r. r\<lparr>r_members := Some store\<rparr>)"

definition RegisterMultiUserHandlers ::
  "haven_config option \<Rightarrow> multi_parts option \<Rightarrow> multi_handler option \<times> haven_hook list \<times> haven_call list" where
  "RegisterMultiUserHandlers c parts =
     (let off = (None, [], [OfStatus (SetHavenEnabled False)]) in
      case c of None \<Rightarrow> off | Some cfg \<Rightarrow>
        if \<not> hc_enabled cfg then off
        else case parts of None \<Rightarrow> off | Some p \<Rightarrow>
          if mp_MemberStore p = None then off
          else (Some (NewMultiUserHandler c parts), box_hooks, [OfStatus (SetHavenEnabled True)]))"

text \<open>Stopping: which workers, in which order. A nil system stops nothing.\<close>

datatype haven_worker = BlastrWorker | ImporterWorker | SubscriberWorker

definition haven_system_Stop :: "HavenSystem option \<Rightarrow> haven_worker list" where
  "haven_system_Stop s =
     (case s of None \<Rightarrow> []
      | Some h \<Rightarrow> (if hy_Blastr h \<noteq> None then [BlastrWorker] else []) @ (if hy_Importer h \<noteq> None then [ImporterWorker] else [])
          @ (if hy_Subscriber h then [SubscriberWorker] else []))"

definition multi_system_Stop :: "multi_handler option \<Rightarrow> haven_worker list" where
  "multi_system_Stop s =
     (case s of None \<Rightarrow> []
      | Some h \<Rightarrow> (if mh_BlastrManager h then [BlastrWorker] else []) @ (if mh_ImporterManager h then [ImporterWorker] else []))"

record BoxStats =
  bx_Private :: int
  bx_Chat :: int
  bx_Inbox :: int
  bx_Outbox :: int

definition BoxStats_String :: "BoxStats \<Rightarrow> string" where
  "BoxStats_String s = ''private='' @ fmt_d (bx_Private s) @ '' chat='' @ fmt_d (bx_Chat s) @ '' inbox='' @ fmt_d (bx_Inbox s)
     @ '' outbox='' @ fmt_d (bx_Outbox s)"

text \<open>The calls of the members' importer for one job: for every relay \<open>None\<close> if it could not be reached or asked, else the number of
  events it imported.\<close>

definition fetch_calls :: "string \<Rightarrow> (string \<times> nat option) list \<Rightarrow> haven_call list" where
  "fetch_calls tier rs =
     concat (map (\<lambda>(u, n). OfImporter (RecordImporterManagerRelayFetch u tier (n \<noteq> None))
       # replicate (case n of None \<Rightarrow> 0 | Some k \<Rightarrow> k) (OfImporter (RecordImporterManagerImported tier))) rs)
     @ [OfImporter (RecordImporterManagerProcessed tier)]"

text \<open>The members of a table, counted by tier; a tier without members has no row in the answer. \<open>ok\<close> is the query's.\<close>

definition CountMembersByTier :: "bool \<Rightarrow> string list \<Rightarrow> (string \<Rightarrow> int option) option" where
  "CountMembersByTier ok tiers =
     (if ok then Some (\<lambda>t. if t \<in> set tiers then Some (int (count_list tiers t)) else None) else None)"

definition shown_tiers :: "string list" where
  "shown_tiers = [''free'', ''hybrid'', ''premium'', ''enterprise'']"

text \<open>One collection; the outer \<open>None\<close> is a collector without a counter.\<close>

definition metrics_collect :: "(string \<Rightarrow> int option) option option \<Rightarrow> haven_call list" where
  "metrics_collect answer =
     (case answer of Some (Some counts) \<Rightarrow>
        map (\<lambda>t. OfStatus (SetMembersByTier t (case counts t of Some n \<Rightarrow> n | None \<Rightarrow> 0))) shown_tiers
      | _ \<Rightarrow> [])"

text \<open>At the start, at every tick, until the stop.\<close>

fun metrics_run :: "(string \<Rightarrow> int option) option option list \<Rightarrow> haven_call list" where
  "metrics_run [] = []"
| "metrics_run (a # as) = metrics_collect a @ metrics_run as"

section \<open>Facts\<close>

subsection \<open>The declarations\<close>

lemmas haven_metric_defs = haven_box_metric_defs haven_blastr_metric_defs haven_importer_metric_defs haven_status_metric_defs

definition haven_metrics :: "metric list" where
  "haven_metrics = haven_box_metrics @ haven_blastr_metrics @ haven_importer_metrics @ haven_status_metrics"

text \<open>Two metrics of one name would make the process panic before \<open>main\<close>; all of them differ.\<close>

theorem metric_names_distinct:
  "distinct (map mt_name (relay_metrics @ payment_metrics @ other_metrics @ haven_metrics))"
  by code_simp

text \<open>Every method passes as many label values as its metric declares, and adds to counters only, sets gauges only.\<close>

theorem recorders_fit_their_metrics:
  "haven_metric c = (m, vs, u) \<Longrightarrow> m \<in> set haven_metrics \<and> length vs = length (mt_labels m) \<and>
     (case u of AddTo x \<Rightarrow> mt_type m = Counter \<and> x = 1 | SetTo _ \<Rightarrow> mt_type m = Gauge | Observed _ \<Rightarrow> mt_type m = Histogram)"
proof (cases c)
  case (OfBoxes x)
  then show "haven_metric c = (m, vs, u) \<Longrightarrow> ?thesis"
    by (cases x) (auto simp: haven_metrics_def haven_box_metrics_def haven_box_metric_defs metric_of_def)
next
  case (OfBlastr x)
  then show "haven_metric c = (m, vs, u) \<Longrightarrow> ?thesis"
    by (cases x) (auto simp: haven_metrics_def haven_blastr_metrics_def haven_blastr_metric_defs metric_of_def)
next
  case (OfImporter x)
  then show "haven_metric c = (m, vs, u) \<Longrightarrow> ?thesis"
    by (cases x) (auto simp: haven_metrics_def haven_importer_metrics_def haven_importer_metric_defs metric_of_def)
next
  case (OfStatus x)
  then show "haven_metric c = (m, vs, u) \<Longrightarrow> ?thesis"
    by (cases x) (auto simp: haven_metrics_def haven_status_metrics_def haven_status_metric_defs metric_of_def flag_value_def)
qed

lemma recorders_fit_their_metrics_witness: "length [''inbox''] = length (mt_labels havenEventsRouted)"
  using recorders_fit_their_metrics [of "OfBoxes (RecordEventRouted BoxInbox)" havenEventsRouted "[''inbox'']" "AddTo 1"] by simp

subsection \<open>Counting changes no verdict\<close>

lemma counted_boxes_verdict: "fst (counted_boxes box why bs) = first_denied (\<lambda>b. map_option snd (why b)) bs"
  by (induction bs) (auto simp: Let_def split: option.splits prod.splits)

lemma read_refusals:
  "map_option snd (read_refusal r authed b) = haven_read_denied r authed b"
  "map_option snd (multi_read_refusal r authed res) = multi_read_denied r authed res"
  by (auto simp: read_refusal_def haven_read_denied_def multi_read_refusal_def multi_read_denied_def split: Box.split)

text \<open>The route the gate of both modes judges: an unknown box is the chat box.\<close>

definition judged_route :: "Router \<Rightarrow> reqctx \<Rightarrow> event \<Rightarrow> RoutingResult" where
  "judged_route r ctx ev =
     (let res0 = RouteEventForUser r ev (ctx_authed ctx) in if rr_box res0 = BoxUnknown then res0\<lparr>rr_box := BoxChat\<rparr> else res0)"

lemma multi_write_refusals:
  "map_option fst (multi_write_refusal r authed res) = map_option Reject (multi_write_denied r authed res)"
  by (auto simp: multi_write_refusal_def multi_write_denied_def refuse_def Let_def split: Box.split)

text \<open>The gates with their counters decide as the gates of \<open>Haven_Gate\<close>, in both modes.\<close>

theorem counting_changes_no_verdict:
  "fst (haven_RejectEvent_counted r ctx ev) = haven_RejectEvent r ctx ev"
  "fst (haven_RejectFilter_counted r ctx f) = haven_RejectFilter r ctx f"
  "fst (multi_RejectEvent_counted r wot ctx ev) = multi_RejectEvent r wot ctx ev"
  "fst (multi_RejectFilter_counted r ctx f) = multi_RejectFilter r ctx f"
proof -
  show "fst (haven_RejectEvent_counted r ctx ev) = haven_RejectEvent r ctx ev"
    by (auto simp: haven_RejectEvent_counted_def haven_RejectEvent_def write_refusal_def refuse_def Let_def split: Box.splits option.splits if_splits)
  show "fst (multi_RejectEvent_counted r wot ctx ev) = multi_RejectEvent r wot ctx ev"
  proof (cases "multi_write_refusal r (ctx_authed ctx) (judged_route r ctx ev)")
    case None
    with multi_write_refusals [of r "ctx_authed ctx" "judged_route r ctx ev"]
    have "multi_write_denied r (ctx_authed ctx) (judged_route r ctx ev) = None" by simp
    with None show ?thesis
      by (cases wot) (auto simp: multi_RejectEvent_counted_def multi_RejectEvent_def judged_route_def Let_def refuse_def)
  next
    case (Some o')
    with multi_write_refusals [of r "ctx_authed ctx" "judged_route r ctx ev"]
    obtain msg where "multi_write_denied r (ctx_authed ctx) (judged_route r ctx ev) = Some msg" "fst o' = Reject msg"
      by (cases "multi_write_denied r (ctx_authed ctx) (judged_route r ctx ev)") auto
    with Some show ?thesis
      by (auto simp: multi_RejectEvent_counted_def multi_RejectEvent_def judged_route_def Let_def split: prod.split)
  qed
  show "fst (haven_RejectFilter_counted r ctx f) = haven_RejectFilter r ctx f"
    "fst (multi_RejectFilter_counted r ctx f) = multi_RejectFilter r ctx f"
    by (simp_all add: haven_RejectFilter_counted_def haven_RejectFilter_def multi_RejectFilter_counted_def multi_RejectFilter_def
        counted_boxes_verdict read_refusals)
qed

subsection \<open>The books of the gates\<close>

definition reasons :: "string list" where
  "reasons = [''no_box'', ''auth_required'', ''not_owner'', ''inbox_restricted'', ''outbox_restricted'', ''wot_blocked'', ''pubkey_mismatch'']"

lemma reasons_are_labels: "r \<in> set reasons \<Longrightarrow> haven_categorizeReason r = r \<and> ascii r"
proof -
  have "list_all (\<lambda>r. haven_categorizeReason r = r \<and> ascii r) reasons" unfolding reasons_def by code_simp
  then show "r \<in> set reasons \<Longrightarrow> haven_categorizeReason r = r \<and> ascii r" by (simp add: list_all_iff)
qed

text \<open>The calls of one judged event: as many routed as accepted, as many rejected as refused; nothing denied that was not also
  rejected and attempted; reasons from the list.\<close>

fun gate_call_ok :: "haven_call \<Rightarrow> bool" where
  "gate_call_ok (OfBoxes (RecordEventRejected b r)) = (r \<in> set reasons)"
| "gate_call_ok (OfBoxes (RecordFilterRejected b r)) = (r \<in> set reasons)"
| "gate_call_ok (OfBoxes (RecordAccessAttempt b x)) = (x \<in> {''read'', ''write''})"
| "gate_call_ok (OfBoxes (RecordAccessDenied b x r)) = (x \<in> {''read'', ''write''} \<and> r \<in> set reasons)"
| "gate_call_ok (OfBoxes _) = True"
| "gate_call_ok (OfStatus (RecordWoTBlock src)) = (src \<in> range source_label)"
| "gate_call_ok (OfStatus (RecordWoTAllow src)) = (src \<in> range source_label)"
| "gate_call_ok _ = False"

definition how_often :: "(haven_call \<Rightarrow> bool) \<Rightarrow> haven_call list \<Rightarrow> nat" where
  "how_often P cs = length (filter P cs)"

fun routes_event :: "haven_call \<Rightarrow> bool" where
  "routes_event (OfBoxes (RecordEventRouted _)) = True" | "routes_event _ = False"
fun rejects_event :: "haven_call \<Rightarrow> bool" where
  "rejects_event (OfBoxes (RecordEventRejected _ _)) = True" | "rejects_event _ = False"
fun routes_filter :: "haven_call \<Rightarrow> bool" where
  "routes_filter (OfBoxes (RecordFilterRouted _)) = True" | "routes_filter _ = False"
fun rejects_filter :: "haven_call \<Rightarrow> bool" where
  "rejects_filter (OfBoxes (RecordFilterRejected _ _)) = True" | "rejects_filter _ = False"
fun attempts :: "haven_call \<Rightarrow> bool" where
  "attempts (OfBoxes (RecordAccessAttempt _ _)) = True" | "attempts _ = False"
fun denies :: "haven_call \<Rightarrow> bool" where
  "denies (OfBoxes (RecordAccessDenied _ _ _)) = True" | "denies _ = False"

lemma how_often_simps [simp]: "how_often P [] = 0" "how_often P (c # cs) = (if P c then 1 else 0) + how_often P cs"
  "how_often P (cs @ ds) = how_often P cs + how_often P ds"
  by (simp_all add: how_often_def)

definition event_books :: "verdict \<times> haven_call list \<Rightarrow> bool" where
  "event_books o' = (case o' of (v, cs) \<Rightarrow>
     list_all gate_call_ok cs \<and> how_often routes_event cs = (if v = Accept then 1 else 0) \<and>
     how_often rejects_event cs = (if v = Accept then 0 else 1) \<and> how_often denies cs \<le> how_often rejects_event cs \<and>
     how_often denies cs \<le> how_often attempts cs \<and> how_often routes_filter cs = 0 \<and> how_often rejects_filter cs = 0)"

lemma refuse_books:
  "r \<in> set reasons \<Longrightarrow> event_books (case refuse b r msg of (v, cs) \<Rightarrow> (v, OfBoxes (RecordAccessAttempt b ''write'') # cs))"
  by (simp add: refuse_def event_books_def)

lemma write_refusals_cases:
  "write_refusal r authed box = Some o' \<Longrightarrow> \<exists>x \<in> set reasons. \<exists>msg. o' = refuse box x msg"
  "multi_write_refusal r authed res = Some o' \<Longrightarrow> \<exists>x \<in> set reasons. \<exists>msg. o' = refuse (rr_box res) x msg"
  by (auto simp: write_refusal_def multi_write_refusal_def reasons_def Let_def split: if_splits Box.splits)

lemma single_event_books:
  assumes "hc_enabled (r_config r)"
  shows "event_books (haven_RejectEvent_counted r ctx ev)"
proof -
  let ?box = "if RouteEvent r ev = BoxUnknown then BoxChat else RouteEvent r ev"
  show ?thesis
  proof (cases "write_refusal r (ctx_authed ctx) ?box")
    case None
    with assms show ?thesis by (auto simp: haven_RejectEvent_counted_def Let_def event_books_def reasons_def)
  next
    case (Some o')
    from write_refusals_cases(1) [OF this] obtain x msg where x: "x \<in> set reasons" "o' = refuse ?box x msg" by blast
    from refuse_books [OF x(1), of ?box msg] Some x(2) assms show ?thesis
      by (auto simp: haven_RejectEvent_counted_def Let_def event_books_def reasons_def)
  qed
qed

lemma multi_event_books:
  assumes "hc_enabled (r_config r)"
  shows "event_books (multi_RejectEvent_counted r wot ctx ev)"
proof (cases "multi_write_refusal r (ctx_authed ctx) (judged_route r ctx ev)")
  case None
  with assms show ?thesis
    by (auto simp: multi_RejectEvent_counted_def judged_route_def Let_def event_books_def reasons_def refuse_def
        split: option.split)
next
  case (Some o')
  from write_refusals_cases(2) [OF this] obtain x msg
    where x: "x \<in> set reasons" "o' = refuse (rr_box (judged_route r ctx ev)) x msg" by blast
  from refuse_books [OF x(1), of "rr_box (judged_route r ctx ev)" msg] Some x(2) assms show ?thesis
    by (auto simp: multi_RejectEvent_counted_def judged_route_def Let_def event_books_def reasons_def split: prod.splits)
qed

subsection \<open>The counters over a run\<close>

text \<open>The judgements of either gate on events.\<close>

definition gate_outcome :: "verdict \<times> haven_call list \<Rightarrow> bool" where
  "gate_outcome out \<longleftrightarrow> (\<exists>r ctx ev. hc_enabled (r_config r) \<and>
     (out = haven_RejectEvent_counted r ctx ev \<or> (\<exists>wot. out = multi_RejectEvent_counted r wot ctx ev)))"

lemma gate_outcome_books: "gate_outcome out \<Longrightarrow> event_books out"
  using single_event_books multi_event_books by (auto simp: gate_outcome_def)

definition box_labels :: "string list set" where
  "box_labels = (\<lambda>b. [Box_String b]) ` {BoxUnknown, BoxPrivate, BoxChat, BoxInbox, BoxOutbox}"

definition reason_labels :: "string list set" where
  "reason_labels = (\<lambda>(b, r). [Box_String b, r]) ` ({BoxUnknown, BoxPrivate, BoxChat, BoxInbox, BoxOutbox} \<times> set reasons)"

lemma all_boxes: "b \<in> {BoxUnknown, BoxPrivate, BoxChat, BoxInbox, BoxOutbox}"
  by (cases b) simp_all

lemma other_metrics_differ:
  "fst (blastr_metric c) \<notin> set haven_box_metrics" "fst (importer_metric c') \<notin> set haven_box_metrics"
  "fst (status_metric c'') \<notin> set haven_box_metrics"
proof -
  show "fst (blastr_metric c) \<notin> set haven_box_metrics"
    by (cases c) (simp_all add: haven_box_metrics_def haven_box_metric_defs haven_blastr_metric_defs metric_eq)
  show "fst (importer_metric c') \<notin> set haven_box_metrics"
    by (cases c') (simp_all add: haven_box_metrics_def haven_box_metric_defs haven_importer_metric_defs metric_eq)
  show "fst (status_metric c'') \<notin> set haven_box_metrics"
    by (cases c'') (simp_all add: haven_box_metrics_def haven_box_metric_defs haven_status_metric_defs metric_eq)
qed

lemma metric_of_call:
  "fst (haven_metric c) = havenEventsRouted \<longleftrightarrow> routes_event c"
  "fst (haven_metric c) = havenEventsRejected \<longleftrightarrow> rejects_event c"
proof -
  have o': "havenEventsRouted \<in> set haven_box_metrics" "havenEventsRejected \<in> set haven_box_metrics"
    by (simp_all add: haven_box_metrics_def)
  have d: "havenEventsRouted \<noteq> havenEventsRejected" "m \<in> {havenFiltersRouted, havenFiltersRejected, havenAccessAttempts, havenAccessDenied}
      \<Longrightarrow> m \<noteq> havenEventsRouted \<and> m \<noteq> havenEventsRejected" for m
    by (auto simp: haven_box_metric_defs metric_eq)
  show "fst (haven_metric c) = havenEventsRouted \<longleftrightarrow> routes_event c"
  proof (cases c)
    case (OfBoxes x)
    with d show ?thesis by (cases x) auto
  next
    case (OfBlastr x)
    with o'(1) other_metrics_differ(1) [of x] show ?thesis by auto
  next
    case (OfImporter x)
    with o'(1) other_metrics_differ(2) [of x] show ?thesis by auto
  next
    case (OfStatus x)
    with o'(1) other_metrics_differ(3) [of x] show ?thesis by auto
  qed
  show "fst (haven_metric c) = havenEventsRejected \<longleftrightarrow> rejects_event c"
  proof (cases c)
    case (OfBoxes x)
    with d show ?thesis by (cases x) auto
  next
    case (OfBlastr x)
    with o'(2) other_metrics_differ(1) [of x] show ?thesis by auto
  next
    case (OfImporter x)
    with o'(2) other_metrics_differ(2) [of x] show ?thesis by auto
  next
    case (OfStatus x)
    with o'(2) other_metrics_differ(3) [of x] show ?thesis by auto
  qed
qed

lemma tally_how_often:
  "tally havenEventsRouted (map haven_metric cs) = how_often routes_event cs"
  "tally havenEventsRejected (map haven_metric cs) = how_often rejects_event cs"
  by (induction cs) (auto simp: metric_of_call [symmetric] tally_def split: prod.splits)

lemma gate_calls_counted:
  assumes "list_all gate_call_ok cs"
  shows "list_all (counted_in havenEventsRouted box_labels) (map haven_metric cs)"
    "list_all (counted_in havenEventsRejected reason_labels) (map haven_metric cs)"
proof -
  have "counted_in havenEventsRouted box_labels (haven_metric c)" for c
  proof (cases "routes_event c")
    case True
    then obtain b where "c = OfBoxes (RecordEventRouted b)" by (cases c rule: routes_event.cases) auto
    with all_boxes [of b] show ?thesis by (auto simp: counted_in_def box_labels_def)
  next
    case False
    with metric_of_call(1) [of c] show ?thesis by (auto simp: counted_in_def split: prod.split)
  qed
  then show "list_all (counted_in havenEventsRouted box_labels) (map haven_metric cs)" by (simp add: list_all_iff)
  have "counted_in havenEventsRejected reason_labels (haven_metric c)" if "gate_call_ok c" for c
  proof (cases "rejects_event c")
    case True
    then obtain b r where c: "c = OfBoxes (RecordEventRejected b r)" by (cases c rule: rejects_event.cases) auto
    with that have "r \<in> set reasons" by simp
    with c all_boxes [of b] reasons_are_labels [of r] show ?thesis by (auto simp: counted_in_def reason_labels_def)
  next
    case False
    with metric_of_call(2) [of c] show ?thesis by (auto simp: counted_in_def split: prod.split)
  qed
  with assms show "list_all (counted_in havenEventsRejected reason_labels) (map haven_metric cs)" by (simp add: list_all_iff)
qed

lemma gate_calls_safe:
  assumes "documented_check ok" "gate_call_ok c"
  shows "safe_call ok (haven_metric c)"
proof -
  have "list_all ValidString [''unknown'', ''private'', ''chat'', ''inbox'', ''outbox'', ''user_block'', ''user_trust'', ''default'']" by code_simp
  then have v: "ValidString (Box_String b)" and s: "ValidString (source_label x)" for b x
    by (cases b, simp_all only: list.pred_inject Box_String.simps source_label.simps) (cases x, simp_all only: source_label.simps)
  have rw: "ValidString ''read''" "ValidString ''write''" by code_simp+
  have r: "ValidString (haven_categorizeReason r)" if "r \<in> set reasons" for r
    using reasons_are_labels [OF that] ascii_valid by simp
  from assms(2) show ?thesis
    by (cases c rule: gate_call_ok.cases)
      (auto simp: safe_call_def accepted_labels [OF assms(1)] haven_box_metric_defs haven_status_metric_defs metric_of_def v s rw r)
qed

text \<open>Counting at the gates never panics, whatever the events and the members' settings.\<close>

theorem counting_boxes_never_panics:
  assumes "documented_check ok" "list_all gate_outcome outs"
  shows "record_calls ok (map haven_metric (concat (map snd outs))) s \<noteq> None"
  unfolding safe_calls_return using assms gate_outcome_books gate_calls_safe
  by (fastforce simp: list_all_iff event_books_def)

text \<open>Over any run of either gate the counters of routed and rejected events add up to the events let in and the events refused.\<close>

theorem haven_event_counters_add_up:
  assumes "list_all gate_outcome outs" "record_calls ok (map haven_metric (concat (map snd outs))) no_series = Some s"
  shows "(\<Sum>k \<in> box_labels. s (havenEventsRouted, k)) = real (length (filter (\<lambda>out. fst out = Accept) outs))"
    "(\<Sum>k \<in> reason_labels. s (havenEventsRejected, k)) = real (length (filter (\<lambda>out. fst out \<noteq> Accept) outs))"
proof -
  have books: "event_books out" if "out \<in> set outs" for out
    using that assms(1) gate_outcome_books by (auto simp: list_all_iff)
  then have ok: "list_all gate_call_ok (concat (map snd outs))" by (fastforce simp: list_all_iff event_books_def)
  have "list_all event_books outs" using books by (simp add: list_all_iff)
  then have t: "how_often routes_event (concat (map snd outs)) = length (filter (\<lambda>out. fst out = Accept) outs)"
    "how_often rejects_event (concat (map snd outs)) = length (filter (\<lambda>out. fst out \<noteq> Accept) outs)"
    by (induction outs) (auto simp: event_books_def split: if_splits)
  have fin: "finite box_labels" "finite reason_labels" by (simp_all add: box_labels_def reason_labels_def)
  from total_counts [OF fin(1) gate_calls_counted(1) [OF ok] assms(2)] t(1)
  show "(\<Sum>k \<in> box_labels. s (havenEventsRouted, k)) = real (length (filter (\<lambda>out. fst out = Accept) outs))"
    by (simp add: no_series_def tally_how_often)
  from total_counts [OF fin(2) gate_calls_counted(2) [OF ok] assms(2)] t(2)
  show "(\<Sum>k \<in> reason_labels. s (havenEventsRejected, k)) = real (length (filter (\<lambda>out. fst out \<noteq> Accept) outs))"
    by (simp add: no_series_def tally_how_often)
qed

definition two_outcomes :: "(verdict \<times> haven_call list) list" where
  "two_outcomes = [haven_RejectEvent_counted (NewRouter (Some owner_cfg)) anon (haven_note ''bob'' 1 [[''p'', ''owner'']]),
     haven_RejectEvent_counted (NewRouter (Some owner_cfg)) anon (haven_note ''bob'' 1 [])]"

lemma two_outcomes_ok: "list_all gate_outcome two_outcomes"
proof -
  have "hc_enabled (r_config (NewRouter (Some owner_cfg)))" by (simp add: NewRouter_def owner_cfg_def)
  then show ?thesis by (auto simp: two_outcomes_def gate_outcome_def)
qed

lemma counting_boxes_never_panics_witness:
  "\<exists>s. record_calls any_label (map haven_metric (concat (map snd two_outcomes))) no_series = Some s"
  using counting_boxes_never_panics [OF any_label_documented two_outcomes_ok, of no_series] by auto

lemma haven_event_counters_add_up_witness:
  "\<exists>s. (\<Sum>k \<in> box_labels. s (havenEventsRouted, k)) = (1 :: real) \<and> (\<Sum>k \<in> reason_labels. s (havenEventsRejected, k)) = (1 :: real)"
proof -
  from counting_boxes_never_panics_witness obtain s
    where s: "record_calls any_label (map haven_metric (concat (map snd two_outcomes))) no_series = Some s" by blast
  have "haven_RejectEvent (NewRouter (Some owner_cfg)) anon (haven_note ''bob'' 1 [[''p'', ''owner'']]) = Accept"
    "haven_RejectEvent (NewRouter (Some owner_cfg)) anon (haven_note ''bob'' 1 []) \<noteq> Accept"
    by (simp_all add: haven_eval)
  with haven_event_counters_add_up [OF two_outcomes_ok s] show ?thesis
    by (intro exI [of _ s]) (simp add: two_outcomes_def counting_changes_no_verdict)
qed

lemma counted_boxes_books:
  "how_often attempts (snd (counted_boxes box why bs)) =
     how_often routes_filter (snd (counted_boxes box why bs)) + how_often rejects_filter (snd (counted_boxes box why bs))"
  "how_often rejects_filter (snd (counted_boxes box why bs)) = (if fst (counted_boxes box why bs) = Accept then 0 else 1)"
  by (induction bs) (auto simp: Let_def split: option.split prod.split)

text \<open>A filter's boxes are each attempted, then routed or refused, and the first refusal ends it.\<close>

theorem filter_books:
  assumes "out = haven_RejectFilter_counted r ctx f \<or> out = multi_RejectFilter_counted r ctx f"
  shows "how_often attempts (snd out) = how_often routes_filter (snd out) + how_often rejects_filter (snd out) \<and>
   how_often rejects_filter (snd out) = (if fst out = Accept then 0 else 1)"
  using assms by (auto simp only: haven_RejectFilter_counted_def multi_RejectFilter_counted_def counted_boxes_books fst_conv snd_conv
      how_often_simps split: if_splits)

lemma filter_books_witness:
  "how_often attempts (snd (haven_RejectFilter_counted (NewRouter (Some owner_cfg)) anon (any_filter\<lparr>f_kinds := [1]\<rparr>))) =
   how_often routes_filter (snd (haven_RejectFilter_counted (NewRouter (Some owner_cfg)) anon (any_filter\<lparr>f_kinds := [1]\<rparr>))) +
   how_often rejects_filter (snd (haven_RejectFilter_counted (NewRouter (Some owner_cfg)) anon (any_filter\<lparr>f_kinds := [1]\<rparr>)))"
  using filter_books [of "haven_RejectFilter_counted (NewRouter (Some owner_cfg)) anon (any_filter\<lparr>f_kinds := [1]\<rparr>)"
      "NewRouter (Some owner_cfg)" anon "any_filter\<lparr>f_kinds := [1]\<rparr>"] by simp

subsection \<open>Addresses as labels\<close>

lemma relay_label_short: "length (truncateRelay u) \<le> 40"
  by (simp add: truncateRelay_def Let_def)

lemma ascii_relay: "ascii u \<Longrightarrow> ValidString (truncateRelay u)"
  by (intro ascii_valid) (simp add: truncateRelay_def Let_def ascii_cuts)

lemma call_in_list_panics: "\<not> safe_call ok (haven_metric c) \<Longrightarrow> c \<in> set cs \<Longrightarrow> record_calls ok (map haven_metric cs) s = None"
  using safe_calls_return [of ok "map haven_metric cs" s] by (auto simp: list_all_iff)

text \<open>
  An address is cut at byte forty, also inside a character, and the client panics on the half. The addresses come from the members'
  settings: a job of the members' importer that names such a relay panics when it has tried that relay, whether or not the
  relay answers, and nothing recovers. The settings are still there after the restart.
\<close>

theorem member_relay_panics_importer:
  assumes "documented_check ok" "import_job infos now imported (pk, relays) = Some job" "map fst results = ij_Relays job"
    and "u \<in> set (ij_Relays job)" "\<not> ValidString (truncateRelay u)"
  shows "record_calls ok (map haven_metric (fetch_calls (ij_Tier job) results)) s = None"
proof -
  from assms(3,4) obtain n where n: "(u, n) \<in> set results" by (metis imageE list.set_map prod.collapse)
  let ?c = "OfImporter (RecordImporterManagerRelayFetch u (ij_Tier job) (n \<noteq> None))"
  from n have "?c \<in> set (fetch_calls (ij_Tier job) results)" by (fastforce simp: fetch_calls_def)
  moreover have "\<not> safe_call ok (haven_metric ?c)"
    using assms(1,5) by (simp add: safe_call_def accepted_labels havenImporterManagerRelayFetch_def metric_of_def)
  ultimately show ?thesis using call_in_list_panics by blast
qed

definition long_relay :: string where
  "long_relay = ''wss://relay.example.com/the-path-of-a-member-'' @ [CHR 0xC3, CHR 0xA9]"

lemma long_relay_is_cut: "ValidString long_relay" "\<not> ValidString (truncateRelay long_relay)"
  unfolding long_relay_def by code_simp+

lemma member_relay_panics_importer_witness:
  "record_calls any_label (map haven_metric (fetch_calls ''premium'' [(long_relay, None)])) no_series = None"
proof -
  have "import_job (\<lambda>pk. Some (paid_info pk)) 0 (\<lambda>_. None) (''alice'', [long_relay]) =
      Some \<lparr>ij_UserPubkey = ''alice'', ij_Relays = [long_relay], ij_Since = - day, ij_Tier = ''premium''\<rparr>"
    by (simp add: import_job_def paid_info_def)
  from member_relay_panics_importer [OF any_label_documented this, of "[(long_relay, None)]" long_relay no_series] long_relay_is_cut(2)
  show ?thesis by simp
qed

text \<open>With addresses in ASCII, and a tier that is text, no call panics.\<close>

theorem ascii_addresses_never_panic:
  assumes "documented_check ok" "\<forall>r \<in> set results. ascii (fst r)" "ValidString tier"
  shows "record_calls ok (map haven_metric (fetch_calls tier results)) s \<noteq> None"
proof -
  have l: "ValidString (status_label b)" for b by (cases b) (simp_all only: status_label_def if_True if_False, code_simp+)
  have "safe_call ok (haven_metric c)" if "c \<in> set (fetch_calls tier results)" for c
  proof -
    from that consider u n where "(u, n) \<in> set results" "c = OfImporter (RecordImporterManagerRelayFetch u tier (n \<noteq> None))"
      | "c = OfImporter (RecordImporterManagerImported tier)" | "c = OfImporter (RecordImporterManagerProcessed tier)"
      by (auto simp: fetch_calls_def split: if_splits)
    then show ?thesis
    proof cases
      case (1 u n)
      with assms(2) have "ValidString (truncateRelay u)" using ascii_relay by fastforce
      with 1 assms(1,3) l show ?thesis by (simp add: safe_call_def accepted_labels havenImporterManagerRelayFetch_def metric_of_def)
    qed (use assms(1,3) in \<open>simp_all add: safe_call_def accepted_labels havenImporterManagerEventsImported_def
        havenImporterManagerJobsProcessed_def metric_of_def\<close>)
  qed
  then show ?thesis unfolding safe_calls_return by (simp add: list_all_iff)
qed

lemma ascii_addresses_never_panic_witness:
  "record_calls any_label (map haven_metric (fetch_calls ''premium'' [(''wss://r'', Some 2), (''wss://s'', None)])) no_series \<noteq> None"
proof (rule ascii_addresses_never_panic [OF any_label_documented])
  have "list_all ascii [''wss://r'', ''wss://s'']" by code_simp
  then show "\<forall>r \<in> set [(''wss://r'', Some 2), (''wss://s'', None)]. ascii (fst r)" by simp
  show "ValidString ''premium''" by code_simp
qed

subsection \<open>Status and tiers\<close>

lemma flags_differ: "havenEnabled \<noteq> havenBlastrEnabled" "havenEnabled \<noteq> havenImporterEnabled" "havenBlastrEnabled \<noteq> havenImporterEnabled"
  by (simp_all add: haven_status_metric_defs metric_eq)

lemma flags_unlabelled: "mt_labels havenEnabled = []" "mt_labels havenBlastrEnabled = []" "mt_labels havenImporterEnabled = []"
  by (simp_all add: haven_status_metric_defs metric_of_def)

text \<open>After the single-owner system is registered the three flags say what runs, of the broadcaster and the importer; the
  subscriber has none.\<close>

theorem flags_say_what_runs:
  "\<exists>s. record_calls ok (map haven_metric (snd (RegisterFullSystem_effects c can_store))) s0 = Some s \<and>
     s (havenEnabled, []) = (if RegisterFullSystem c can_store \<noteq> None then 1 else 0) \<and>
     s (havenBlastrEnabled, []) = (case RegisterFullSystem c can_store of Some h \<Rightarrow> if hy_Blastr h \<noteq> None then 1 else 0 | None \<Rightarrow> 0) \<and>
     s (havenImporterEnabled, []) = (case RegisterFullSystem c can_store of Some h \<Rightarrow> if hy_Importer h \<noteq> None then 1 else 0 | None \<Rightarrow> 0)"
  using flags_differ flags_unlabelled
  by (auto simp: RegisterFullSystem_effects_def RegisterFullSystem_def record_call_def flag_value_def Let_def split: option.split)

text \<open>With boxes for members the flags of the broadcaster and the importer stay at zero while both run.\<close>

theorem members_workers_read_as_off:
  assumes "RegisterMultiUserHandlers c parts = (Some h, hooks, cs)" "mh_BlastrManager h" "mh_ImporterManager h"
  shows "\<exists>s. record_calls ok (map haven_metric cs) no_series = Some s \<and> s (havenEnabled, []) = 1 \<and>
     s (havenBlastrEnabled, []) = 0 \<and> s (havenImporterEnabled, []) = 0 \<and> multi_system_Stop (Some h) = [BlastrWorker, ImporterWorker]"
proof -
  have "cs = [OfStatus (SetHavenEnabled True)]"
    using assms(1) by (auto simp: RegisterMultiUserHandlers_def Let_def split: option.splits if_splits)
  with assms(2,3) flags_differ flags_unlabelled show ?thesis
    by (simp add: record_call_def flag_value_def no_series_def multi_system_Stop_def)
qed

lemma members_workers_read_as_off_witness:
  "multi_system_Stop (fst (RegisterMultiUserHandlers (Some (haven_DefaultConfig\<lparr>hc_enabled := True\<rparr>))
     (Some (no_parts\<lparr>mp_MemberStore := Some two_members, mp_BlastrManager := True, mp_ImporterManager := True\<rparr>)))) = [BlastrWorker, ImporterWorker]"
proof -
  let ?c = "Some (haven_DefaultConfig\<lparr>hc_enabled := True\<rparr>)"
  let ?p = "Some (no_parts\<lparr>mp_MemberStore := Some two_members, mp_BlastrManager := True, mp_ImporterManager := True\<rparr>)"
  have r: "RegisterMultiUserHandlers ?c ?p = (Some (NewMultiUserHandler ?c ?p), box_hooks, [OfStatus (SetHavenEnabled True)])"
    by (simp add: RegisterMultiUserHandlers_def no_parts_def)
  moreover have "mh_BlastrManager (NewMultiUserHandler ?c ?p)" "mh_ImporterManager (NewMultiUserHandler ?c ?p)"
    by (simp_all add: NewMultiUserHandler_def Let_def)
  ultimately show ?thesis using members_workers_read_as_off [OF r] by auto
qed

text \<open>A collection shows every tier with the members it has, also when it has none any more; a query that fails leaves the gauges
  as they are.\<close>

theorem tiers_show_the_members:
  assumes "documented_check ok"
  shows "\<exists>s. record_calls ok (map haven_metric (metrics_collect (Some (CountMembersByTier up tiers)))) s0 = Some s \<and>
    (\<forall>t \<in> set shown_tiers. s (havenMembersByTier, [t]) = (if up then real (count_list tiers t) else s0 (havenMembersByTier, [t])))"
proof (cases up)
  case False
  then show ?thesis by (simp add: CountMembersByTier_def metrics_collect_def)
next
  case True
  have n: "count_list tiers t = 0" if "t \<notin> set tiers" for t using that by (induction tiers) auto
  have "list_all ValidString shown_tiers" unfolding shown_tiers_def by code_simp
  then have v: "ok (mt_labels havenMembersByTier) [t]" if "t \<in> set shown_tiers" for t
    using that assms by (simp add: accepted_labels havenMembersByTier_def metric_of_def list_all_iff)
  have "\<exists>s. record_calls ok (map haven_metric (map (\<lambda>t. OfStatus (SetMembersByTier t (f t))) ts)) s0 = Some s \<and>
      (\<forall>t. s (havenMembersByTier, [t]) = (if t \<in> set ts then real_of_int (f t) else s0 (havenMembersByTier, [t])))"
    if "set ts \<subseteq> set shown_tiers" for f ts
    using that
  proof (induction ts arbitrary: s0)
    case (Cons t ts)
    define s1 where "s1 = s0((havenMembersByTier, [t]) := real_of_int (f t))"
    from Cons.IH [of s1] Cons.prems obtain s where
      s: "record_calls ok (map haven_metric (map (\<lambda>t. OfStatus (SetMembersByTier t (f t))) ts)) s1 = Some s"
        "\<forall>t. s (havenMembersByTier, [t]) = (if t \<in> set ts then real_of_int (f t) else s1 (havenMembersByTier, [t]))" by auto
    have "record_call ok (haven_metric (OfStatus (SetMembersByTier t (f t)))) s0 = Some s1"
      using v [of t] Cons.prems by (simp add: record_call_def s1_def)
    with s(1) have "record_calls ok (map haven_metric (map (\<lambda>t. OfStatus (SetMembersByTier t (f t))) (t # ts))) s0 = Some s" by simp
    with s(2) show ?case by (intro exI [of _ s]) (auto simp: s1_def)
  qed simp
  from this [of shown_tiers "\<lambda>t. case (if t \<in> set tiers then Some (int (count_list tiers t)) else None) of Some n \<Rightarrow> n | None \<Rightarrow> 0"]
  show ?thesis using True n
    by (auto simp: metrics_collect_def CountMembersByTier_def comp_def)
qed

lemma tiers_show_the_members_witness:
  "\<exists>s. s (havenMembersByTier, [''free'']) = (2 :: real) \<and> s (havenMembersByTier, [''premium'']) = 0"
proof -
  from tiers_show_the_members [OF any_label_documented, of True "[''free'', ''hybrid'', ''free'']" no_series]
  obtain s where "\<forall>t \<in> set shown_tiers. s (havenMembersByTier, [t]) = real (count_list [''free'', ''hybrid'', ''free''] t)" by auto
  then show ?thesis by (intro exI [of _ s]) (simp add: shown_tiers_def)
qed

end
