(* ===== verification/Spec2Isabelle.thy ===== *)
theory Spec2Isabelle
  imports Relay_Prelude Nostr_Data Rate_Limit Relay_Config Validation Auth_Gate Tombstones Access_Control
    Arbiter_Claims Trust_Gate Gift_Wrap Haven_Router Haven_Gate Membership Payments Write_Gates
    Group_Ownership Group_Scope Relay_Queries Write_Ahead Event_Pipeline Expiry_Sweep Pod_Broadcast
    Blastr_Retry Haven_Import User_Settings Organizations Nip_Formats Calendar_Communities Legacy_Groups
    Admin_Console Search_Index Redis_Stores
    Feed_Ranking Feeds Admin_Queries Page_Rank Process_Start Relay_Monitor Relay_Metrics Haven_Metrics
begin

text \<open>
  A verification development for cloistr-relay, a Nostr relay written in Go on top of the khatru
  framework.

  \<^bold>\<open>The program.\<close> A relay takes signed events and queries (filters) over websockets. main.go registers
  chains of handlers with the framework: an event is stored only if every RejectEvent handler accepts it, a
  filter is answered only if every RejectFilter handler accepts it, after the OverwriteFilter handlers have
  rewritten it. Nearly all of the relay's own logic is in these handlers and in the tables they consult:
  validation and rate limits (internal/handlers, internal/ratelimit), NIP-42 authentication (internal/auth),
  deletion tombstones (internal/storage/tombstone.go), the NIP-86 management lists (internal/management),
  arbiter claims (internal/arbiterclaim), web-of-trust levels (internal/wot), gift wraps and zaps
  (internal/giftwrap, internal/zaps), HAVEN boxes of one owner or of paid members (internal/haven), NIP-43
  membership and Lightning payments (internal/membership, internal/lightning), and NIP-29 groups
  (internal/groups). Beside the chains stand the query path with its event cache (internal/relay,
  internal/eventcache) and the write-ahead log (internal/writeahead). In the background run the expiry sweeper
  (internal/expiry), the exchange of events between the processes of one deployment (internal/pubsub), and the
  HAVEN workers that broadcast events to other relays and import them from there; members steer these and their
  boxes by settings events. Some packages are not registered by the process: parsers of several NIPs, organizations,
  and an earlier group handler.

  \<^bold>\<open>The parts and their theories.\<close>

  \<^item> \<open>Relay_Prelude\<close>: verdicts, chains of handlers (\<open>first_rejection\<close>, the loop of the wrappers in
    internal/middleware and internal/metrics), Go's byte strings, decimal numbers, 64-bit wrap-around.
    The locale \<open>reject_chain\<close> states what the framework and both wrappers promise of a chain; it is interpreted
    on \<open>first_rejection\<close>, and every fact on composed chains comes from it.
  \<^item> \<open>Nostr_Data\<close>: events, filters, the request context, and \<open>nostr_lib\<close>, the functions of go-nostr and khatru
    that the handlers call, a parameter everywhere.
  \<^item> \<open>Relay_Config\<close>: internal/config, \<open>Load\<close> from an environment (a function from names to strings, where the
    empty string is an unset variable).
  \<^item> \<open>Process_Start\<close>: internal/startup, internal/clientip, internal/dbcall, most of internal/storage and the start of main.go.
    State: the schema lock, the deletion table, the catalogue of indexes, and where each of several processes is.
  \<^item> \<open>Rate_Limit\<close>: internal/ratelimit. In-memory buckets are a map from addresses to int32 counters; Redis is a
    map from keys to sorted sets, and a request is two round trips (\<open>allow_count\<close>, \<open>allow_record\<close>).
  \<^item> \<open>Validation\<close>: internal/handlers. \<open>Auth_Gate\<close>: internal/auth, internal/protected and \<open>parseAuthConfig\<close>.
  \<^item> \<open>Tombstones\<close>: the deletion table and its fail-closed gate.
  \<^item> \<open>Access_Control\<close>: internal/management. State: the shared database and this process's snapshot. The locale
    \<open>exempt_checker\<close> is the interface the rate limiter relies on, interpreted on the store.
  \<^item> \<open>Write_Gates\<close>: cmd/relay/gates.go, \<open>registerWriteGates\<close>, which composes the previous four.
  \<^item> \<open>Arbiter_Claims\<close>: internal/arbiterclaim. State: the table from tasks to rows.
  \<^item> \<open>Trust_Gate\<close>: internal/wot. State: follow lists, cached levels, token buckets. Trust levels are ordered by
    their numbers in the code.
  \<^item> \<open>Page_Rank\<close>: pagerank.go of internal/wot. State: the scores of the last run, in memory and in the cache. One iteration
    is a contraction of score tables, and what is proved of the loop follows from that.
  \<^item> \<open>Gift_Wrap\<close>: internal/giftwrap and internal/zaps.
  \<^item> \<open>Haven_Router\<close> and \<open>Haven_Gate\<close>: internal/haven, routing and then the gates. The locale \<open>haven_member_store\<close>
    is the MemberStore interface of the Go package.
  \<^item> \<open>Membership\<close>: internal/membership without payments; it interprets \<open>haven_member_store\<close> on the members table.
  \<^item> \<open>Payments\<close>: payments.go, http.go and scheduler.go of internal/membership, internal/lightning, and the cached
    paid-member check of main.go.
  \<^item> \<open>Group_Ownership\<close> and \<open>Group_Scope\<close>: internal/groups.
  \<^item> \<open>Relay_Queries\<close>: the query handler of internal/relay with internal/eventcache, and the NIP-11 document.
  \<^item> \<open>Write_Ahead\<close>: internal/writeahead.
  \<^item> \<open>Event_Pipeline\<close>: the whole event chain of main.go, both wrappers included, and the NIP-66 gate.

  \<^item> \<open>Expiry_Sweep\<close>: internal/expiry. A sweep over the rows of the event table, in batches.
  \<^item> \<open>Pod_Broadcast\<close>: internal/pubsub. State: a list of processes, each with its outgoing buffer and what Redis has
    delivered to it; hooks and loops are steps in any order.
  \<^item> \<open>Blastr_Retry\<close>: blastr.go and blastr_manager.go of internal/haven, with the connection pool and the retry queue, and
    the order in which main.go starts them. \<open>Haven_Import\<close>: importer.go, importer_manager.go and subscriber.go.
  \<^item> \<open>User_Settings\<close>: the settings tables of internal/wot and internal/haven and the watchers that fill them. The
    locale \<open>key_list\<close> is what a member's list promises; it is interpreted on the block list and on the trust list.
    The theory ends where the router of \<open>Haven_Router\<close> and the inbox filter of \<open>Trust_Gate\<close> read the tables.
  \<^item> \<open>Organizations\<close>: internal/haven/organization.go, three tables with keys and cascades.
  \<^item> \<open>Nip_Formats\<close> (labels, polls, trust, external, lists) and \<open>Calendar_Communities\<close> (calendar, communities): parsers
    and builders that the process does not register.
  \<^item> \<open>Admin_Console\<close>: internal/admin and cmd/admin. State: the login sessions, in memory or in Redis, and the
    management store of \<open>Access_Control\<close>, which every form changes through the same calls as the API.
  \<^item> \<open>Admin_Queries\<close>: query.go and api.go of internal/management and the reading pages of internal/admin. State: none; the
    tables are lists of rows, and a list of events keeps the numbered arguments of its SQL. The follow graph it draws is
    compared with the levels of \<open>Trust_Gate\<close>.
  \<^item> \<open>Relay_Monitor\<close>: internal/nip66 and the two constructors of internal/relay. State: the monitor and the store it
    writes to. Its probe reads the document of \<open>Relay_Queries\<close>, its reports meet the check of \<open>Event_Pipeline\<close>.
  \<^item> \<open>Relay_Metrics\<close>: internal/metrics. State: a number for every metric and its label values; a refused label is a panic. Hooks
    of connections are steps in any order. \<open>Haven_Metrics\<close>: internal/haven/metrics.go, the gates of \<open>Haven_Gate\<close> once more with
    what they record, and the registration of both HAVEN modes.
  \<^item> \<open>Search_Index\<close>: internal/search. State: the columns and indexes that search owns, and the rows with their vectors. A
    search goes through the query handler of \<open>Relay_Queries\<close>.
  \<^item> \<open>Redis_Stores\<close>: internal/cache and internal/session on one model of Redis. The locale \<open>expiring_map\<close> is what a
    store with lifetimes promises; it is interpreted on the cached trust levels and on the sessions.
  \<^item> \<open>Feed_Ranking\<close>: internal/algo, with the counts it takes from the event table. \<open>Feeds\<close>: internal/feeds on top of it,
    from a request to the value that the XML encoder gets.
  \<^item> \<open>Legacy_Groups\<close>: handler.go, store.go and types.go of internal/groups, which nothing wires any more.

  \<^bold>\<open>How code becomes definitions.\<close> A handler is a function from the state it reads to a verdict and the new
  state; an early return is a branch. A database table is a map by its primary key, and one SQL statement is one
  definition. Whatever can fail (a statement, a Redis command, an HTTP call) takes a flag or an answer that says
  whether and how it does, so error paths are branches and a theorem without hypotheses on the flags holds under
  all faults. Times are nanoseconds in \<open>int\<close>, or seconds where the code has seconds. Integers whose overflow the
  code can reach wrap (\<open>in_i64\<close>, int32 counters of the rate limiter). Scores of the feeds and of PageRank, float64 in the
  code, are real numbers. Operations that may interleave are split at
  their statements: the Redis limiter, the webhook (\<open>webhook_step\<close>, run by the inductive relation \<open>pay_step\<close>
  among invoices, sweeps and member changes), a drain round of the write-ahead log, the hooks of a connection, and the start
  of a process (the inductive relation \<open>start_step\<close>). The changes that other connections make between the
  batches of a sweep are an argument of the sweep.

  \<^bold>\<open>What the lemmas show.\<close> Invariants and their preservation: deletions stick, bans do from a process's first successful
  reload on, claims settle, payments are granted once, the write-ahead log accounts for every event and its
  counters for what they count, the gauge of connections follows them, no process serves before the deletion table is there. Exact characterisations of gates:
  authentication, tombstones, proof of work, metadata writers, zap receipts. Confidentiality: inboxes, gift wraps,
  private groups. Bounds: rate limiters, trust buckets, invites, members of organizations, caches, configuration. Equivalences: the settle
  window with the reference tie-break, the tier sweep with no sweep, the event sweep with the gate, the owner chain
  with its specification. Refinement: the members' lists are two sets of pairs, the cached groups are their rows. Round
  trips: settings, labels, polls, calendars, communities are read back as written. Termination: the retry
  queue ends whatever the relays answer, the sweep whatever the database does if the events that keep arriving are
  plain; PageRank converges. Liveness: an event that finds room in the publish buffer reaches every other process
  that stays subscribed.
  At the end of most theories stand theorems on concrete runs where the code departs from its comments or from its
  evident intent.

  \<^bold>\<open>Bounds and fuel.\<close> \<open>transfer_loop\<close> has the code's own bound of twenty transfers, and \<open>transfer_chain_spec\<close> says
  what the bound costs. \<open>handleWebhook\<close> runs five steps; a request goes through at most the five
  states \<open>Received\<close>, \<open>Checking\<close>, \<open>Settling\<close>, \<open>Reading\<close> and \<open>Granting\<close>, so no run is cut short
  (\<open>handleWebhook_done\<close>). \<open>drainBatch\<close> runs the code's batch
  size of rounds; \<open>drainAll\<close> has no bound in the code and ends because every round shortens the list. \<open>sweep_batches\<close>, whose loop has no counter, is
  a partial function: \<open>sweep_terminates\<close> shows that it returns when only finitely many of the rows that arrive
  during the sweep are due, since every batch it goes on after has removed a due row, and \<open>sweep_can_run_forever\<close> that
  it need not return otherwise. The waiting loops for schema locks and their retries are partial functions too (\<open>poll_lock\<close> and
  \<open>retry_from\<close> in \<open>Search_Index\<close>, \<open>poll_ddl_lock\<close> and \<open>retry_from_attempt\<close> in \<open>Process_Start\<close>), with theorems on when
  they return; \<open>backfill_from\<close> ends because every full batch leaves fewer rows behind it. \<open>rank_loop\<close> has the code's bound of a
  hundred iterations, and \<open>pagerank_converges\<close> shows that it never needs them all. The query for a group's metadata has the
  code's limit of a hundred events, and \<open>founder_is_evicted\<close> says what it costs. The retry queue is measured by the attempts its entries have left (\<open>retries_left\<close>), and \<open>retry_queue_drains\<close> says
  that so many due passes empty it. All other recursion is structural.

  \<^bold>\<open>Parameters.\<close> go-nostr and khatru (signature check, id hash, JSON, tag helpers, kind classes), relay29, the
  event store's queries, LNbits, other relays, HTTP, JSON, base64 and the check that the
  metrics client makes of label values are arguments; what a theorem needs of them is written as a
  hypothesis, and its witness instantiates them.

  \<^bold>\<open>Not modelled.\<close> Logging and tracing, HTML templates and their layout, the text of SQL statements except where their
  arguments are numbered, connection pools, and goroutine plumbing (tickers, wait groups, the wake-up of channels): they
  decide no answer of the relay, or only when a modelled step happens, and steps are taken in any order. internal/logging,
  internal/tracing and the embedded static files have no definitions at all.
\<close>

end
